(* ===== verification/Prelude.thy ===== *)
theory Prelude
  imports Main "HOL-Library.List_Lexorder" "HOL-Library.Char_ord" "HOL-Library.Sublist"
begin

section \<open>Shared vocabulary: errors, guards, strings and tables\<close>

text \<open>
  The vocabulary every component of the development uses. Exceptions are values of
  \<open>error\<close>, one constructor per exception class of the source with the message text
  as its argument; a fallible operation returns \<open>error + 'a\<close>. A run of early
  \<open>raise\<close> statements is a list of condition/error pairs handed to \<open>guarded\<close>, in
  the order of the source, so that the first condition that holds decides the error.

  Python strings are byte lists (the UTF-8 encoding of the text). Python compares strings
  by code point, SQLite compares TEXT by bytes, and both orders agree on UTF-8, which is
  the lexicographic order of \<open>HOL-Library.List_Lexorder\<close>.

  SQLite tables are lists of rows in insertion order, read with \<open>List.find\<close> and
  \<open>filter\<close> and written with \<open>update_where\<close> and \<open>upsert\<close>.
\<close>

subsection \<open>Errors and results\<close>

datatype error =
    PortfolioGraphError string
  | CoordinationError string
  | PortfolioConvergenceError string
  | RegistryError string
  | ApprovalGuardError string
  | IntegrityError string
  | OperationalError string
  | ValueError string
  | TypeError
  | AttributeError
  | KeyError
  | OverflowError

type_synonym 'a res = "error + 'a"

abbreviation graph_error :: "string \<Rightarrow> error" where
  "graph_error \<equiv> PortfolioGraphError"

named_theorems guard_simps \<open>when a guarded computation returns a value\<close>
named_theorems guard_eval \<open>evaluation rules for guarded computations\<close>

primrec first_error :: "(bool \<times> error) list \<Rightarrow> error option" where
  "first_error [] = None"
| "first_error (g # gs) = (if fst g then Some (snd g) else first_error gs)"

definition guarded :: "(bool \<times> error) list \<Rightarrow> 'a res \<Rightarrow> 'a res" where
  "guarded gs k = (case first_error gs of Some e \<Rightarrow> Inl e | None \<Rightarrow> k)"

definition bind_res :: "'a res \<Rightarrow> ('a \<Rightarrow> 'b res) \<Rightarrow> 'b res" where
  "bind_res m k = (case m of Inl e \<Rightarrow> Inl e | Inr x \<Rightarrow> k x)"

definition require_some :: "error \<Rightarrow> 'a option \<Rightarrow> ('a \<Rightarrow> 'b res) \<Rightarrow> 'b res" where
  "require_some e m k = (case m of None \<Rightarrow> Inl e | Some x \<Rightarrow> k x)"

lemma first_error_None_iff [guard_simps]:
  "first_error gs = None \<longleftrightarrow> (\<forall>g \<in> set gs. \<not> fst g)"
  by (induction gs) auto

lemma first_error_Some_mem: "first_error gs = Some e \<Longrightarrow> \<exists>g \<in> set gs. fst g \<and> snd g = e"
  by (induction gs) (auto split: if_splits)

lemma first_error_append:
  "first_error (gs @ hs) = (case first_error gs of None \<Rightarrow> first_error hs | Some e \<Rightarrow> Some e)"
  by (induction gs) auto

lemma guarded_Nil [simp]: "guarded [] k = k"
  by (simp add: guarded_def)

lemma guarded_Cons [guard_eval]: "guarded (g # gs) k = (if fst g then Inl (snd g) else guarded gs k)"
  by (simp add: guarded_def)

lemma guarded_Inr [guard_simps]:
  "guarded gs k = Inr r \<longleftrightarrow> (\<forall>g \<in> set gs. \<not> fst g) \<and> k = Inr r"
  by (induction gs) (auto simp: guard_eval)

lemma guarded_Inl: "guarded gs k = Inl e \<longleftrightarrow>
   first_error gs = Some e \<or> (first_error gs = None \<and> k = Inl e)"
  by (auto simp: guarded_def split: option.splits)

lemma bind_res_simps [simp]: "bind_res (Inl e) k = Inl e" "bind_res (Inr x) k = k x"
  by (simp_all add: bind_res_def)

lemma bind_res_Inr [guard_simps]: "bind_res m k = Inr r \<longleftrightarrow> (\<exists>x. m = Inr x \<and> k x = Inr r)"
  by (cases m) auto

lemma bind_res_Inl: "bind_res m k = Inl e \<longleftrightarrow> m = Inl e \<or> (\<exists>x. m = Inr x \<and> k x = Inl e)"
  by (cases m) auto

lemma require_some_simps [simp]:
  "require_some e None k = Inl e" "require_some e (Some x) k = k x"
  by (simp_all add: require_some_def)

lemma require_some_Inr [guard_simps]:
  "require_some e m k = Inr r \<longleftrightarrow> (\<exists>x. m = Some x \<and> k x = Inr r)"
  by (cases m) auto

fun map_res :: "('a \<Rightarrow> 'b res) \<Rightarrow> 'a list \<Rightarrow> 'b list res" where
  "map_res f [] = Inr []"
| "map_res f (x # xs) =
     bind_res (f x) (\<lambda>y. bind_res (map_res f xs) (\<lambda>ys. Inr (y # ys)))"

fun fold_res :: "('a \<Rightarrow> 's \<Rightarrow> 's res) \<Rightarrow> 'a list \<Rightarrow> 's \<Rightarrow> 's res" where
  "fold_res f [] s = Inr s"
| "fold_res f (x # xs) s = bind_res (f x s) (fold_res f xs)"

lemma map_res_Inr: "map_res f xs = Inr ys \<Longrightarrow> list_all2 (\<lambda>x y. f x = Inr y) xs ys"
  by (induction xs arbitrary: ys) (auto simp: guard_simps)

lemma map_res_Inr_iff: "map_res f xs = Inr ys \<longleftrightarrow> list_all2 (\<lambda>x y. f x = Inr y) xs ys"
proof
  show "map_res f xs = Inr ys \<Longrightarrow> list_all2 (\<lambda>x y. f x = Inr y) xs ys"
    by (rule map_res_Inr)
  show "list_all2 (\<lambda>x y. f x = Inr y) xs ys \<Longrightarrow> map_res f xs = Inr ys"
    by (induction rule: list_all2_induct) auto
qed

text \<open>An invariant that every step of a fallible loop keeps holds of its result.\<close>

lemma fold_res_invariant:
  assumes "fold_res f xs s = Inr t" and "P s"
    and "\<And>x s t. x \<in> set xs \<Longrightarrow> P s \<Longrightarrow> f x s = Inr t \<Longrightarrow> P t"
  shows "P t"
  using assms
proof (induction xs arbitrary: s)
  case Nil
  then show ?case by simp
next
  case (Cons x xs)
  from Cons.prems(1) obtain u where u: "f x s = Inr u" and rest: "fold_res f xs u = Inr t"
    by (auto simp: guard_simps)
  from Cons.prems(3) [of x] Cons.prems(2) u have "P u" by simp
  from rest this show ?case
    by (rule Cons.IH) (use Cons.prems(3) in auto)
qed

lemma fold_res_snoc:
  assumes "fold_res f xs s = Inr t" and "\<And>x s t. f x s = Inr t \<Longrightarrow> t = s @ [g x]"
  shows "t = s @ map g xs"
  using assms(1)
proof (induction xs arbitrary: s)
  case Nil
  then show ?case by simp
next
  case (Cons x xs)
  then obtain u where "f x s = Inr u" and "fold_res f xs u = Inr t" by (auto simp: guard_simps)
  with Cons.IH [of u] assms(2) [of x s u] show ?case by simp
qed

lemma fold_res_append:
  "fold_res f (xs @ ys) s = bind_res (fold_res f xs s) (fold_res f ys)"
  by (induction xs arbitrary: s) (auto simp: bind_res_def split: sum.splits)

text \<open>A loop that only raises: \<open>for x in xs: check(x)\<close>.\<close>

definition check_each :: "('a \<Rightarrow> unit res) \<Rightarrow> 'a list \<Rightarrow> unit res" where
  "check_each f xs = fold_res (\<lambda>x _. f x) xs ()"

lemma check_each_Inr [guard_simps]: "check_each f xs = Inr u \<longleftrightarrow> (\<forall>x \<in> set xs. f x = Inr ())"
  unfolding check_each_def by (induction xs) (auto simp: guard_simps)

lemma check_each_Inl:
  "check_each f xs = Inl e \<Longrightarrow> \<exists>x \<in> set xs. f x = Inl e"
  unfolding check_each_def by (induction xs) (auto simp: bind_res_Inl)

subsection \<open>Tables\<close>

definition update_where :: "('r \<Rightarrow> bool) \<Rightarrow> ('r \<Rightarrow> 'r) \<Rightarrow> 'r list \<Rightarrow> 'r list" where
  "update_where p f rows = map (\<lambda>r. if p r then f r else r) rows"

definition upsert :: "('r \<Rightarrow> bool) \<Rightarrow> 'r \<Rightarrow> ('r \<Rightarrow> 'r) \<Rightarrow> 'r list \<Rightarrow> 'r list" where
  "upsert p new f rows = (if \<exists>r \<in> set rows. p r then update_where p f rows else rows @ [new])"

definition insert_or_ignore :: "('r \<Rightarrow> bool) \<Rightarrow> 'r \<Rightarrow> 'r list \<Rightarrow> 'r list" where
  "insert_or_ignore p new rows = (if \<exists>r \<in> set rows. p r then rows else rows @ [new])"

definition next_rowid :: "('r \<Rightarrow> int) \<Rightarrow> 'r list \<Rightarrow> int" where
  "next_rowid rid rows = fold (\<lambda>r m. max (rid r) m) rows 0 + 1"

lemma set_update_where: "set (update_where p f rows) = (\<lambda>r. if p r then f r else r) ` set rows"
  by (simp add: update_where_def)

lemma update_where_mem:
  "r \<in> set (update_where p f rows) \<Longrightarrow> \<exists>q \<in> set rows. r = (if p q then f q else q)"
  by (auto simp: update_where_def)

lemma map_update_where:
  "(\<And>r. r \<in> set rows \<Longrightarrow> p r \<Longrightarrow> g (f r) = g r) \<Longrightarrow> map g (update_where p f rows) = map g rows"
  by (auto simp: update_where_def)

lemma update_where_id: "(\<And>r. r \<in> set rows \<Longrightarrow> \<not> p r) \<Longrightarrow> update_where p f rows = rows"
  by (auto simp: update_where_def intro: map_idI)

lemma filter_update_where_other:
  assumes "\<And>r. p r \<Longrightarrow> \<not> q r" and "\<And>r. p r \<Longrightarrow> \<not> q (f r)"
  shows "filter q (update_where p f rows) = filter q rows"
  using assms by (induction rows) (auto simp: update_where_def)

lemma find_update_where_other:
  assumes "\<And>r. p r \<Longrightarrow> \<not> q r" and "\<And>r. p r \<Longrightarrow> \<not> q (f r)"
  shows "List.find q (update_where p f rows) = List.find q rows"
  using assms by (induction rows) (auto simp: update_where_def)

lemma find_update_where_same:
  assumes "\<And>r. p r \<Longrightarrow> p (f r)"
  shows "List.find p (update_where p f rows) = map_option f (List.find p rows)"
  using assms by (induction rows) (auto simp: update_where_def)

lemma find_update_where:
  assumes "\<And>r. q (f r) = q r"
  shows "List.find q (update_where p f rows) = map_option (\<lambda>r. if p r then f r else r) (List.find q rows)"
  using assms by (induction rows) (auto simp: update_where_def)

lemma find_SomeD: "List.find p xs = Some x \<Longrightarrow> p x \<and> x \<in> set xs"
  by (induction xs) (auto split: if_splits)

lemma find_append: "List.find p (xs @ ys) =
   (case List.find p xs of None \<Rightarrow> List.find p ys | Some x \<Rightarrow> Some x)"
  by (induction xs) auto

lemma find_upsert:
  assumes "p new" and "\<And>r. p r \<Longrightarrow> p (f r)"
  shows "List.find p (upsert p new f rows) =
    Some (case List.find p rows of None \<Rightarrow> new | Some r \<Rightarrow> f r)"
proof (cases "List.find p rows")
  case None
  then have "\<not> (\<exists>r \<in> set rows. p r)" by (simp add: find_None_iff)
  with None assms(1) show ?thesis by (simp add: upsert_def find_append)
next
  case (Some r)
  then have "\<exists>r \<in> set rows. p r" by (auto dest: find_SomeD)
  with Some assms(2) show ?thesis by (simp add: upsert_def find_update_where_same)
qed

lemma find_upsert_other:
  assumes "\<not> q new" and "\<And>r. p r \<Longrightarrow> \<not> q r" and "\<And>r. p r \<Longrightarrow> \<not> q (f r)"
  shows "List.find q (upsert p new f rows) = List.find q rows"
  using assms by (simp add: upsert_def find_update_where_other find_append split: option.splits)

lemma filter_upsert_other:
  assumes "\<not> q new" and "\<And>r. p r \<Longrightarrow> \<not> q r" and "\<And>r. p r \<Longrightarrow> \<not> q (f r)"
  shows "filter q (upsert p new f rows) = filter q rows"
  using assms by (simp add: upsert_def filter_update_where_other)

lemma distinct_key_upsert:
  assumes "distinct (map key rows)" and "\<And>r. p r \<longleftrightarrow> key r = k" and "key new = k"
    and "\<And>r. key (f r) = key r"
  shows "distinct (map key (upsert p new f rows))"
proof (cases "\<exists>r \<in> set rows. p r")
  case True
  then show ?thesis using assms by (simp add: upsert_def map_update_where)
next
  case False
  then show ?thesis using assms by (auto simp: upsert_def)
qed

lemma set_upsert_subset: "set (upsert p new f rows) \<subseteq>
   insert new ({r \<in> set rows. \<not> p r} \<union> f ` {r \<in> set rows. p r})"
  by (auto simp: upsert_def set_update_where)

lemma next_rowid_aux: "m \<le> fold (\<lambda>r m. max (rid r) m) rows (m :: int) \<and>
   (\<forall>r \<in> set rows. rid r \<le> fold (\<lambda>r m. max (rid r) m) rows m)"
proof (induction rows arbitrary: m)
  case Nil
  then show ?case by simp
next
  case (Cons r rows)
  from Cons.IH [of "max (rid r) m"] show ?case by auto
qed

lemma next_rowid_fresh: "r \<in> set rows \<Longrightarrow> rid r < next_rowid rid rows"
  using next_rowid_aux [of 0 rid rows] by (auto simp: next_rowid_def intro: le_imp_less_or_eq)

lemma next_rowid_pos: "0 < next_rowid rid rows"
  using next_rowid_aux [of 0 rid rows] by (simp add: next_rowid_def)

subsection \<open>Strings\<close>

definition is_digit :: "char \<Rightarrow> bool" where
  "is_digit c = (CHR ''0'' \<le> c \<and> c \<le> CHR ''9'')"

definition is_lower :: "char \<Rightarrow> bool" where
  "is_lower c = (CHR ''a'' \<le> c \<and> c \<le> CHR ''z'')"

definition is_upper :: "char \<Rightarrow> bool" where
  "is_upper c = (CHR ''A'' \<le> c \<and> c \<le> CHR ''Z'')"

definition is_hex :: "char \<Rightarrow> bool" where
  "is_hex c = (is_digit c \<or> (CHR ''a'' \<le> c \<and> c \<le> CHR ''f''))"

definition is_alnum :: "char \<Rightarrow> bool" where
  "is_alnum c = (is_lower c \<or> is_upper c \<or> is_digit c)"

lemmas char_class_defs = is_digit_def is_lower_def is_upper_def is_hex_def is_alnum_def
  less_eq_char_def less_char_def

text \<open>The regular expressions \<open>^[0-9a-f]{64}$\<close> and \<open>^[0-9a-f]{40}$\<close> under \<open>fullmatch\<close>.\<close>

definition SHA256 :: "string \<Rightarrow> bool" where
  "SHA256 s = (length s = 64 \<and> list_all is_hex s)"

definition GIT_SHA :: "string \<Rightarrow> bool" where
  "GIT_SHA s = (length s = 40 \<and> list_all is_hex s)"

text \<open>
  \<open>^[A-Za-z0-9_.-]+/[A-Za-z0-9_.-]+$\<close>: one slash, which no other position can match, with a
  non-empty part on each side.
\<close>

definition is_repo_char :: "char \<Rightarrow> bool" where
  "is_repo_char c = (is_alnum c \<or> c = CHR ''_'' \<or> c = CHR ''.'' \<or> c = CHR ''-'')"

definition REPOSITORY :: "string \<Rightarrow> bool" where
  "REPOSITORY s = (let owner = takeWhile is_repo_char s; rest = dropWhile is_repo_char s in
     owner \<noteq> [] \<and> rest \<noteq> [] \<and> hd rest = CHR ''/'' \<and> tl rest \<noteq> [] \<and>
     list_all is_repo_char (tl rest))"

fun str_of_nat :: "nat \<Rightarrow> string" where
  "str_of_nat n =
     (if n < 10 then [char_of (48 + n)] else str_of_nat (n div 10) @ [char_of (48 + n mod 10)])"

declare str_of_nat.simps [simp del]

definition str_of_int :: "int \<Rightarrow> string" where
  "str_of_int i = (if i < 0 then CHR ''-'' # str_of_nat (nat (- i)) else str_of_nat (nat i))"

fun join :: "string \<Rightarrow> string list \<Rightarrow> string" where
  "join sep [] = []"
| "join sep [x] = x"
| "join sep (x # xs) = x @ sep @ join sep xs"

subsection \<open>Decimal numbers\<close>

definition digit_value :: "char \<Rightarrow> nat" where
  "digit_value c = of_char c - 48"

definition nat_of_digits :: "string \<Rightarrow> nat" where
  "nat_of_digits s = foldl (\<lambda>n c. 10 * n + digit_value c) 0 s"

lemma of_char_digit: "d < 10 \<Longrightarrow> of_char (char_of (48 + d)) = (48 + d :: nat)"
  by simp

lemma digit_value_char_of: "d < 10 \<Longrightarrow> digit_value (char_of (48 + d)) = d"
  by (simp add: digit_value_def)

lemma is_digit_char_of: "d < 10 \<Longrightarrow> is_digit (char_of (48 + d :: nat))"
  by (simp add: char_class_defs)

lemma str_of_nat_nonempty [simp]: "str_of_nat n \<noteq> []"
  by (subst str_of_nat.simps) simp

lemma list_all_is_digit_str_of_nat: "list_all is_digit (str_of_nat n)"
proof (induction n rule: str_of_nat.induct)
  case (1 n)
  show ?case
  proof (cases "n < 10")
    case True
    then show ?thesis by (simp add: str_of_nat.simps [of n] is_digit_char_of)
  next
    case False
    with 1 have "list_all is_digit (str_of_nat (n div 10))" by simp
    moreover have "is_digit (char_of (48 + n mod 10))" by (rule is_digit_char_of) simp
    ultimately show ?thesis using False by (simp add: str_of_nat.simps [of n])
  qed
qed

lemma nat_of_digits_str_of_nat [simp]: "nat_of_digits (str_of_nat n) = n"
proof (induction n rule: str_of_nat.induct)
  case (1 n)
  show ?case
  proof (cases "n < 10")
    case True
    then show ?thesis by (simp add: str_of_nat.simps [of n] nat_of_digits_def digit_value_char_of)
  next
    case False
    with 1 have "nat_of_digits (str_of_nat (n div 10)) = n div 10" by simp
    moreover have "digit_value (char_of (48 + n mod 10)) = n mod 10"
      by (rule digit_value_char_of) simp
    ultimately show ?thesis
      using False by (simp add: str_of_nat.simps [of n] nat_of_digits_def)
  qed
qed

lemma str_of_nat_inject [simp]: "str_of_nat m = str_of_nat n \<longleftrightarrow> m = n"
  by (metis nat_of_digits_str_of_nat)

lemma hd_str_of_nat: "0 < n \<Longrightarrow> hd (str_of_nat n) \<noteq> CHR ''0''"
proof (induction n rule: str_of_nat.induct)
  case (1 n)
  show ?case
  proof (cases "n < 10")
    case True
    with "1.prems" have "digit_value (char_of (48 + n)) \<noteq> digit_value (CHR ''0'')"
      by (simp add: digit_value_char_of) (simp add: digit_value_def)
    with True show ?thesis by (auto simp: str_of_nat.simps [of n])
  next
    case False
    with 1 have "hd (str_of_nat (n div 10)) \<noteq> CHR ''0''" by simp
    with False show ?thesis by (simp add: str_of_nat.simps [of n])
  qed
qed

lemma str_of_int_inject_pos: "0 < a \<Longrightarrow> 0 < b \<Longrightarrow> str_of_int a = str_of_int b \<longleftrightarrow> a = b"
  by (auto simp: str_of_int_def)

text \<open>Reading the longest run of characters of a class back from the front of a text.\<close>

lemma takeWhile_run:
  assumes "list_all p xs" and "ys = [] \<or> \<not> p (hd ys)"
  shows "takeWhile p (xs @ ys) = xs" and "dropWhile p (xs @ ys) = ys"
  using assms by (induction xs) (auto simp: takeWhile_eq_Nil_iff split: list.splits,
      (cases ys; auto)+)

end
