(* ===== verification/Json_Value.thy ===== *)
theory Json_Value
  imports Prelude Sha256
begin

section \<open>JSON values, canonical text and digests\<close>

text \<open>
  The values \<open>json.loads\<close> yields and the plans and payloads the code passes around:
  \<open>None\<close>, booleans, unbounded integers, strings, lists and string-keyed dictionaries
  (association lists in insertion order, keys distinct as in a Python dictionary). Fractional
  numbers are left out: no field of the modelled code accepts one.

  \<open>canonical_json\<close> is the function of that name every module of the source defines in the
  same way: \<open>json.dumps\<close> with sorted keys, compact separators and \<open>ensure_ascii=False\<close>.
  \<open>digest_json\<close> is its SHA-256. A column that stores JSON text is modelled by the value the
  text decodes to, \<open>None\<close> where \<open>json.loads\<close> raises.
\<close>

datatype pyval =
    PNone
  | PBool bool
  | PInt int
  | PStr string
  | PList "pyval list"
  | PDict "(string \<times> pyval) list"

type_synonym pydict = "(string \<times> pyval) list"

subsection \<open>Type tests and access\<close>

fun is_dict :: "pyval \<Rightarrow> bool" where
  "is_dict (PDict _) = True" | "is_dict _ = False"

fun is_list :: "pyval \<Rightarrow> bool" where
  "is_list (PList _) = True" | "is_list _ = False"

fun is_str :: "pyval \<Rightarrow> bool" where
  "is_str (PStr _) = True" | "is_str _ = False"

fun is_bool :: "pyval \<Rightarrow> bool" where
  "is_bool (PBool _) = True" | "is_bool _ = False"

text \<open>\<open>type(v) is int\<close>, which a boolean does not pass.\<close>

fun is_int :: "pyval \<Rightarrow> bool" where
  "is_int (PInt _) = True" | "is_int _ = False"

text \<open>\<open>v in some_set\<close> hashes \<open>v\<close> and raises \<open>TypeError\<close> on a list or a dictionary.\<close>

fun unhashable :: "pyval \<Rightarrow> bool" where
  "unhashable (PList _) = True" | "unhashable (PDict _) = True" | "unhashable _ = False"

fun dict_of :: "pyval \<Rightarrow> pydict" where
  "dict_of (PDict kvs) = kvs" | "dict_of _ = []"

fun list_of :: "pyval \<Rightarrow> pyval list" where
  "list_of (PList xs) = xs" | "list_of _ = []"

fun str_of :: "pyval \<Rightarrow> string" where
  "str_of (PStr s) = s" | "str_of _ = []"

fun int_of :: "pyval \<Rightarrow> int" where
  "int_of (PInt i) = i" | "int_of _ = 0"

fun bool_of :: "pyval \<Rightarrow> bool" where
  "bool_of (PBool b) = b" | "bool_of _ = False"

fun str_opt_of :: "pyval \<Rightarrow> string option" where
  "str_opt_of (PStr s) = Some s" | "str_opt_of _ = None"

definition has_key :: "pydict \<Rightarrow> string \<Rightarrow> bool" where
  "has_key d k = (k \<in> set (map fst d))"

text \<open>\<open>d.get(k)\<close>: \<open>None\<close> for a missing key.\<close>

definition py_get :: "pydict \<Rightarrow> string \<Rightarrow> pyval" where
  "py_get d k = (case map_of d k of None \<Rightarrow> PNone | Some v \<Rightarrow> v)"

definition keys_are :: "pydict \<Rightarrow> string list \<Rightarrow> bool" where
  "keys_are d ks = (set (map fst d) = set ks)"

definition nonempty_str :: "pyval \<Rightarrow> bool" where
  "nonempty_str v = (is_str v \<and> str_of v \<noteq> [])"

definition sha_str :: "pyval \<Rightarrow> bool" where
  "sha_str v = (is_str v \<and> SHA256 (str_of v))"

lemma is_str_cases: "is_str v \<longleftrightarrow> (\<exists>s. v = PStr s)"
  by (cases v) auto

lemma is_int_cases: "is_int v \<longleftrightarrow> (\<exists>i. v = PInt i)"
  by (cases v) auto

lemma is_bool_cases: "is_bool v \<longleftrightarrow> (\<exists>b. v = PBool b)"
  by (cases v) auto

lemma is_list_cases: "is_list v \<longleftrightarrow> (\<exists>xs. v = PList xs)"
  by (cases v) auto

lemma is_dict_cases: "is_dict v \<longleftrightarrow> (\<exists>d. v = PDict d)"
  by (cases v) auto

lemma is_str_hashable: "is_str v \<Longrightarrow> \<not> unhashable v"
  by (cases v) auto

subsection \<open>Equality\<close>

text \<open>
  Python's \<open>==\<close> on these values: dictionaries compare without regard to order, and a boolean
  equals the integer of its value.
\<close>

fun norm_val :: "pyval \<Rightarrow> pyval" where
  "norm_val PNone = PNone"
| "norm_val (PBool b) = PInt (if b then 1 else 0)"
| "norm_val (PInt i) = PInt i"
| "norm_val (PStr s) = PStr s"
| "norm_val (PList xs) = PList (map norm_val xs)"
| "norm_val (PDict kvs) = PDict (sort_key fst (map (\<lambda>kv. (fst kv, norm_val (snd kv))) kvs))"

definition py_eq :: "pyval \<Rightarrow> pyval \<Rightarrow> bool" where
  "py_eq a b = (norm_val a = norm_val b)"

lemma py_eq_refl [simp]: "py_eq a a"
  by (simp add: py_eq_def)

lemma py_eq_sym: "py_eq a b \<longleftrightarrow> py_eq b a"
  by (auto simp: py_eq_def)

lemma py_eq_trans: "py_eq a b \<Longrightarrow> py_eq b c \<Longrightarrow> py_eq a c"
  by (simp add: py_eq_def)

lemma norm_val_PStr_iff: "norm_val v = PStr s \<longleftrightarrow> v = PStr s"
  by (cases v) auto

lemma py_eq_PStr [simp]:
  "py_eq v (PStr s) \<longleftrightarrow> v = PStr s" "py_eq (PStr s) v \<longleftrightarrow> v = PStr s"
  using norm_val_PStr_iff [of v s] by (auto simp: py_eq_def)

lemma norm_val_PNone_iff: "norm_val v = PNone \<longleftrightarrow> v = PNone"
  by (cases v) auto

lemma py_eq_PNone [simp]: "py_eq v PNone \<longleftrightarrow> v = PNone" "py_eq PNone v \<longleftrightarrow> v = PNone"
  using norm_val_PNone_iff [of v] by (auto simp: py_eq_def)

lemma py_eq_PInt: "py_eq v (PInt i) \<longleftrightarrow> v = PInt i \<or> (\<exists>b. v = PBool b \<and> i = (if b then 1 else 0))"
  by (cases v) (auto simp: py_eq_def)

subsection \<open>Canonical text\<close>

definition json_escape :: "char \<Rightarrow> string" where
  "json_escape c =
     (if c = CHR 0x22 then [CHR 0x5C, CHR 0x22]
      else if c = CHR 0x5C then [CHR 0x5C, CHR 0x5C]
      else if c = CHR 0x0A then [CHR 0x5C, CHR ''n'']
      else if c = CHR 0x0D then [CHR 0x5C, CHR ''r'']
      else if c = CHR 0x09 then [CHR 0x5C, CHR ''t'']
      else if c = CHR 0x08 then [CHR 0x5C, CHR ''b'']
      else if c = CHR 0x0C then [CHR 0x5C, CHR ''f'']
      else if of_char c < (32 :: int)
        then [CHR 0x5C, CHR ''u'', CHR ''0'', CHR ''0'',
              hex_digit (of_char c div 16), hex_digit (of_char c mod 16)]
      else [c])"

definition json_string :: "string \<Rightarrow> string" where
  "json_string s = [CHR 0x22] @ concat (map json_escape s) @ [CHR 0x22]"

fun canonical_json :: "pyval \<Rightarrow> string" where
  "canonical_json PNone = ''null''"
| "canonical_json (PBool b) = (if b then ''true'' else ''false'')"
| "canonical_json (PInt i) = str_of_int i"
| "canonical_json (PStr s) = json_string s"
| "canonical_json (PList xs) = ''['' @ join '','' (map canonical_json xs) @ '']''"
| "canonical_json (PDict kvs) = ''{'' @
     join '','' (map (\<lambda>kt. json_string (fst kt) @ '':'' @ snd kt)
       (sort_key fst (map (\<lambda>kv. (fst kv, canonical_json (snd kv))) kvs))) @ ''}''"

definition digest_json :: "pyval \<Rightarrow> string" where
  "digest_json v = sha256_hex (canonical_json v)"

lemma SHA256_digest_json [simp]: "SHA256 (digest_json v)"
  by (simp add: digest_json_def)

text \<open>
  The canonical text does not depend on the order in which a dictionary was filled: two
  dictionaries with distinct keys and the same entries have the same text, hence the same digest.
\<close>

lemma sort_key_fst_perm:
  assumes "distinct (map fst xs)" and "distinct (map fst ys)" and "set xs = set ys"
  shows "sort_key fst xs = sort_key fst ys"
proof (rule map_sorted_distinct_set_unique [where f = fst])
  show "inj_on fst (set (sort_key fst xs) \<union> set (sort_key fst ys))"
    using assms by (simp add: distinct_map)
  show "sorted (map fst (sort_key fst xs))" "sorted (map fst (sort_key fst ys))" by simp_all
  show "distinct (map fst (sort_key fst xs))" "distinct (map fst (sort_key fst ys))"
    using assms by (simp_all add: distinct_map)
  show "set (sort_key fst xs) = set (sort_key fst ys)" using assms(3) by simp
qed

lemma canonical_json_dict_order:
  assumes "distinct (map fst d)" and "distinct (map fst e)" and "set d = set e"
  shows "canonical_json (PDict d) = canonical_json (PDict e)"
proof -
  let ?r = "\<lambda>kv. (fst kv, canonical_json (snd kv))"
  have "map fst (map ?r d) = map fst d" "map fst (map ?r e) = map fst e" by simp_all
  with assms have "sort_key fst (map ?r d) = sort_key fst (map ?r e)"
    by (intro sort_key_fst_perm) (simp_all add: comp_def)
  then show ?thesis by simp
qed

subsection \<open>Texts that denote integers\<close>

text \<open>
  \<open>s.strip()\<close>: the white space \<open>str.isspace\<close> knows, in its UTF-8 encoding. \<open>space_width\<close> is the
  number of bytes of the space a text begins with, 0 for none.
\<close>

definition space_width :: "string \<Rightarrow> nat" where
  "space_width s =
     (case map of_char s :: int list of
        [] \<Rightarrow> 0
      | a # bs \<Rightarrow>
          if (9 \<le> a \<and> a \<le> 13) \<or> (28 \<le> a \<and> a \<le> 32) then 1
          else case bs of
            [] \<Rightarrow> 0
          | b # cs \<Rightarrow>
              if a = 0xC2 \<and> (b = 0x85 \<or> b = 0xA0) then 2
              else case cs of
                [] \<Rightarrow> 0
              | c # _ \<Rightarrow>
                  if (a = 0xE1 \<and> b = 0x9A \<and> c = 0x80) \<or>
                     (a = 0xE2 \<and> b = 0x80 \<and> (0x80 \<le> c \<and> c \<le> 0x8A \<or> c = 0xA8 \<or> c = 0xA9 \<or> c = 0xAF)) \<or>
                     (a = 0xE2 \<and> b = 0x81 \<and> c = 0x9F) \<or> (a = 0xE3 \<and> b = 0x80 \<and> c = 0x80)
                  then 3 else 0)"

lemma space_width_le: "space_width s \<le> length s"
  by (cases s; cases "tl s"; cases "tl (tl s)") (auto simp: space_width_def split: list.splits)

function lstrip :: "string \<Rightarrow> string" where
  "lstrip s = (if space_width s = 0 then s else lstrip (drop (space_width s) s))"
  by pat_completeness auto
termination
proof (relation "measure length")
  show "(drop (space_width s) s, s) \<in> measure length" if "space_width s \<noteq> 0" for s :: string
    using that space_width_le [of s] by simp
qed simp

declare lstrip.simps [simp del]

definition last_space_width :: "string \<Rightarrow> nat" where
  "last_space_width s = (case List.find (\<lambda>w. w \<le> length s \<and> space_width (drop (length s - w) s) = w) [1, 2, 3] of
     None \<Rightarrow> 0 | Some w \<Rightarrow> w)"

lemma last_space_width_le: "last_space_width s \<le> length s"
  by (auto simp: last_space_width_def split: option.splits)

function rstrip :: "string \<Rightarrow> string" where
  "rstrip s = (if last_space_width s = 0 then s else rstrip (take (length s - last_space_width s) s))"
  by pat_completeness auto
termination
proof (relation "measure length")
  show "(take (length s - last_space_width s) s, s) \<in> measure length" if "last_space_width s \<noteq> 0" for s :: string
    using that last_space_width_le [of s] by auto
qed simp

declare rstrip.simps [simp del]

definition strip :: "string \<Rightarrow> string" where
  "strip s = rstrip (lstrip s)"

text \<open>
  \<open>int(text)\<close> on an ASCII text: white space around it, a sign, and digits with single underscores
  between them. (Python reads the decimal digits of other scripts too.)
\<close>

fun digit_groups :: "string \<Rightarrow> bool" where
  "digit_groups [] = False"
| "digit_groups [c] = is_digit c"
| "digit_groups (c # b # s) = (is_digit c \<and> (if b = CHR ''_'' then digit_groups s else digit_groups (b # s)))"

definition unsigned_int :: "string \<Rightarrow> int option" where
  "unsigned_int s = (if digit_groups s then Some (int (nat_of_digits (filter is_digit s))) else None)"

definition int_text :: "string \<Rightarrow> int option" where
  "int_text s =
     (case strip s of
        [] \<Rightarrow> None
      | c # t \<Rightarrow> if c = CHR ''-'' then map_option uminus (unsigned_int t)
                else if c = CHR ''+'' then unsigned_int t else unsigned_int (c # t))"

fun py_int :: "pyval \<Rightarrow> int res" where
  "py_int (PInt i) = Inr i"
| "py_int (PBool b) = Inr (if b then 1 else 0)"
| "py_int (PStr s) = require_some (ValueError ''invalid literal for int()'') (int_text s) Inr"
| "py_int _ = Inl TypeError"

end
