(* ===== verification/Topological_Order.thy ===== *)
theory Topological_Order
  imports Prelude
begin

section \<open>The dependency order: \<open>_topological_order\<close> of portfolio_graph.py\<close>

text \<open>
  The scheduler orders the nodes of the portfolio graph by Kahn's algorithm with a sorted
  ready list. \<open>relax\<close> is the inner loop over the successors of the node just taken,
  \<open>kahn_loop\<close> the outer \<open>while\<close>, \<open>topological_order\<close> the whole function with its
  \<open>KeyError\<close> and \<open>GRAPH_CYCLE\<close> exits. The specification is \<open>legal\<close>: a list that takes
  every node after all of its predecessors. The lemmas show that the loop ends, that a
  returned order is legal and complete, that the function fails exactly on a cyclic graph,
  and that the order is the least legal one in the lexicographic order of the keys, so it
  does not depend on the order in which SQLite returns the rows.
\<close>

definition outgoing :: "('k \<times> 'k) list \<Rightarrow> 'k \<Rightarrow> 'k list" where
  "outgoing edges k = map snd (filter (\<lambda>e. fst e = k) edges)"

definition indegree :: "('k \<times> 'k) list \<Rightarrow> 'k \<Rightarrow> int" where
  "indegree edges k = int (length (filter (\<lambda>e. snd e = k) edges))"

fun relax :: "('k :: linorder \<Rightarrow> int) \<Rightarrow> 'k list \<Rightarrow> 'k list \<Rightarrow> ('k \<Rightarrow> int) \<times> 'k list" where
  "relax deg ready [] = (deg, ready)"
| "relax deg ready (s # ss) =
     (let deg' = deg(s := deg s - 1)
      in if deg' s = 0 then relax deg' (sort (ready @ [s])) ss else relax deg' ready ss)"

subsection \<open>The inner loop\<close>

lemma relax_deg: "fst (relax deg ready ss) = (\<lambda>k. deg k - int (count_list ss k))"
  by (induction ss arbitrary: deg ready) (auto simp: Let_def fun_eq_iff)

lemma relax_Cons:
  "relax deg ready (s # ss) =
     relax (deg(s := deg s - 1)) (if deg s = 1 then sort (ready @ [s]) else ready) ss"
  by (simp add: Let_def)

declare relax.simps(2) [simp del]

lemma count_list_pos: "(0 :: int) < d \<Longrightarrow> d \<le> int (count_list ss k) \<Longrightarrow> k \<in> set ss"
  by (metis count_list_0_iff not_less of_nat_0)

lemma relax_set:
  "set (snd (relax deg ready ss)) =
   set ready \<union> {k \<in> set ss. 0 < deg k \<and> deg k \<le> int (count_list ss k)}"
proof (induction ss arbitrary: deg ready)
  case Nil
  then show ?case by simp
next
  case (Cons s ss)
  have "k \<in> set (snd (relax deg ready (s # ss))) \<longleftrightarrow>
      k \<in> set ready \<or> (k = s \<and> deg s = 1) \<or>
      (k \<in> set ss \<and> 0 < (deg(s := deg s - 1)) k \<and> (deg(s := deg s - 1)) k \<le> int (count_list ss k))" for k
    by (auto simp: relax_Cons Cons.IH)
  moreover have "(k = s \<and> deg s = 1) \<or>
      (k \<in> set ss \<and> 0 < (deg(s := deg s - 1)) k \<and> (deg(s := deg s - 1)) k \<le> int (count_list ss k))
      \<longleftrightarrow> k \<in> set (s # ss) \<and> 0 < deg k \<and> deg k \<le> int (count_list (s # ss) k)" for k
    using count_list_pos [of "deg s - 1" ss s] by (cases "k = s") auto
  ultimately show ?case by blast
qed

lemma relax_sorted: "sorted ready \<Longrightarrow> sorted (snd (relax deg ready ss))"
  by (induction ss arbitrary: deg ready) (auto simp: relax_Cons)

lemma relax_distinct:
  "distinct ready \<Longrightarrow> (\<And>k. k \<in> set ready \<Longrightarrow> deg k \<le> 0) \<Longrightarrow>
   distinct (snd (relax deg ready ss))"
proof (induction ss arbitrary: deg ready)
  case Nil
  then show ?case by simp
next
  case (Cons s ss)
  show ?case unfolding relax_Cons
  proof (rule Cons.IH)
    show "distinct (if deg s = 1 then sort (ready @ [s]) else ready)"
      using Cons.prems by force
    show "(deg(s := deg s - 1)) k \<le> 0"
      if "k \<in> set (if deg s = 1 then sort (ready @ [s]) else ready)" for k
      using that Cons.prems(2) [of k] by (auto split: if_splits)
  qed
qed

lemma relax_length:
  "length (snd (relax deg ready ss)) + card {k \<in> A. 0 < fst (relax deg ready ss) k}
   \<le> length ready + card {k \<in> A. 0 < deg k}" if "finite A" and "set ss \<subseteq> A"
  using that(2)
proof (induction ss arbitrary: deg ready)
  case Nil
  then show ?case by simp
next
  case (Cons s ss)
  define d where "d = deg(s := deg s - 1)"
  have fin: "finite {k \<in> A. 0 < deg k}" using that(1) by simp
  have sub: "{k \<in> A. 0 < d k} \<subseteq> {k \<in> A. 0 < deg k}" by (auto simp: d_def)
  show ?case
  proof (cases "deg s = 1")
    case True
    with Cons.prems have "s \<in> {k \<in> A. 0 < deg k}" and "s \<notin> {k \<in> A. 0 < d k}"
      by (auto simp: d_def)
    then have "card {k \<in> A. 0 < d k} < card {k \<in> A. 0 < deg k}"
      using sub fin by (intro psubset_card_mono) auto
    with True Cons.IH [of d "sort (ready @ [s])"] Cons.prems show ?thesis
      unfolding relax_Cons d_def [symmetric] by simp
  next
    case False
    have "card {k \<in> A. 0 < d k} \<le> card {k \<in> A. 0 < deg k}"
      using fin sub by (rule card_mono)
    with False Cons.IH [of d ready] Cons.prems show ?thesis
      unfolding relax_Cons d_def [symmetric] by simp
  qed
qed

subsection \<open>The outer loop\<close>

function kahn_loop ::
  "('k :: linorder \<times> 'k) list \<Rightarrow> ('k \<Rightarrow> int) \<Rightarrow> 'k list \<Rightarrow> 'k list \<Rightarrow> 'k list \<times> ('k \<Rightarrow> int)" where
  "kahn_loop edges deg [] order = (order, deg)"
| "kahn_loop edges deg (key # ready) order =
     (case relax deg ready (sort (outgoing edges key)) of
        (deg', ready') \<Rightarrow> kahn_loop edges deg' ready' (order @ [key]))"
  by pat_completeness auto
termination
proof (relation "measure (\<lambda>(edges, deg, ready, order).
    length ready + card {k \<in> set (map snd edges). 0 < deg k})", goal_cases)
  case 1
  then show ?case by simp
next
  case (2 edges deg key ready order deg' ready')
  have "set (sort (outgoing edges key)) \<subseteq> set (map snd edges)"
    by (auto simp: outgoing_def)
  from relax_length [OF _ this, of deg ready] 2 [symmetric] show ?case by simp
qed

definition topological_order :: "string list \<Rightarrow> (string \<times> string) list \<Rightarrow> string list res" where
  "topological_order node_keys hard_edges =
     (if \<exists>e \<in> set hard_edges. snd e \<notin> set node_keys then Inl KeyError
      else
        let keys = remdups node_keys;
            ready = sort (filter (\<lambda>k. indegree hard_edges k = 0) keys);
            (order, deg) = kahn_loop hard_edges (indegree hard_edges) ready []
        in if length order \<noteq> length keys
           then Inl (PortfolioGraphError
                  (''GRAPH_CYCLE:'' @ join ''->'' (sort (filter (\<lambda>k. 0 < deg k) keys))))
           else Inr order)"

subsection \<open>Legal orders\<close>

fun legal :: "('k \<times> 'k) list \<Rightarrow> 'k set \<Rightarrow> 'k list \<Rightarrow> bool" where
  "legal edges done [] = True"
| "legal edges done (z # zs) =
     (z \<notin> done \<and> (\<forall>e \<in> set edges. snd e = z \<longrightarrow> fst e \<in> done) \<and> legal edges (insert z done) zs)"

lemma legal_distinct: "legal edges P zs \<Longrightarrow> distinct zs \<and> set zs \<inter> P = {}"
  by (induction zs arbitrary: P) auto

lemma legal_append:
  "legal edges P (xs @ ys) \<longleftrightarrow> legal edges P xs \<and> legal edges (P \<union> set xs) ys"
  by (induction xs arbitrary: P) auto

text \<open>In a legal list the source of every edge into a listed node stands before that node.\<close>

lemma legal_before:
  assumes "legal edges P zs" and "(l, r) \<in> set edges" and "r \<in> set zs" and "l \<notin> P"
  shows "\<exists>us vs ws. zs = us @ l # vs @ r # ws"
proof -
  from assms(3) obtain us ws where zs: "zs = us @ r # ws"
    by (auto simp: in_set_conv_decomp)
  with assms(1) have "\<forall>e \<in> set edges. snd e = r \<longrightarrow> fst e \<in> P \<union> set us"
    by (simp add: legal_append)
  with assms(2,4) have "l \<in> set us" by force
  then obtain us' vs where "us = us' @ l # vs" by (auto simp: in_set_conv_decomp)
  with zs show ?thesis by auto
qed

definition waiting :: "('k \<times> 'k) list \<Rightarrow> 'k set \<Rightarrow> 'k \<Rightarrow> int" where
  "waiting edges P k = int (length (filter (\<lambda>e. snd e = k \<and> fst e \<notin> P) edges))"

lemma waiting_empty: "waiting edges {} = indegree edges"
  by (simp add: waiting_def indegree_def fun_eq_iff)

lemma waiting_nonneg [simp]: "0 \<le> waiting edges P k"
  by (simp add: waiting_def)

lemma waiting_zero: "waiting edges P k = 0 \<longleftrightarrow> (\<forall>e \<in> set edges. snd e = k \<longrightarrow> fst e \<in> P)"
  by (auto simp: waiting_def filter_empty_conv)

lemma waiting_insert:
  "x \<notin> P \<Longrightarrow> waiting edges (insert x P) k = waiting edges P k - int (count_list (outgoing edges x) k)"
  by (induction edges) (auto simp: waiting_def outgoing_def)

lemma count_list_insort: "count_list (insort x xs) k = count_list (x # xs) k"
  by (induction xs) auto

lemma count_list_sort [simp]: "count_list (sort xs) k = count_list xs k"
  by (induction xs) (auto simp: count_list_insort)

text \<open>
  The loop invariant: the counters are the numbers of predecessors not yet taken, the ready
  list is sorted and holds exactly the nodes that may be taken next.
\<close>

definition kahn_inv :: "'k :: linorder set \<Rightarrow> ('k \<times> 'k) list \<Rightarrow> ('k \<Rightarrow> int) \<Rightarrow> 'k list \<Rightarrow> 'k set \<Rightarrow> bool" where
  "kahn_inv N edges deg ready P \<longleftrightarrow>
     deg = waiting edges P \<and> sorted ready \<and> distinct ready \<and>
     set ready = {k \<in> N - P. waiting edges P k = 0} \<and> P \<subseteq> N \<and>
     (\<forall>k \<in> P. waiting edges P k = 0)"

lemma kahn_inv_step:
  assumes inv: "kahn_inv N edges deg (key # ready) P"
    and edges: "snd ` set edges \<subseteq> N"
    and relax: "relax deg ready (sort (outgoing edges key)) = (deg', ready')"
  shows "kahn_inv N edges deg' ready' (insert key P)"
proof -
  let ?ss = "sort (outgoing edges key)"
  from inv have deg: "deg = waiting edges P" and key: "key \<in> N - P" "waiting edges P key = 0"
    and rdy: "set ready = {k \<in> N - P. waiting edges P k = 0} - {key}"
    by (auto simp: kahn_inv_def)
  have deg': "deg' = waiting edges (insert key P)"
    using relax_deg [of deg ready ?ss] relax deg key by (simp add: waiting_insert fun_eq_iff)
  have out: "set ?ss \<subseteq> N" using edges by (auto simp: outgoing_def)
  have count: "waiting edges (insert key P) k = 0 \<longleftrightarrow>
      waiting edges P k = 0 \<or> (0 < waiting edges P k \<and> waiting edges P k \<le> int (count_list ?ss k))" for k
  proof -
    have w: "waiting edges (insert key P) k = waiting edges P k - int (count_list ?ss k)"
      using key by (simp add: waiting_insert)
    have "0 \<le> waiting edges (insert key P) k" "0 \<le> waiting edges P k" by simp_all
    with w show ?thesis by linarith
  qed
  have "set ready' = {k \<in> N - insert key P. waiting edges (insert key P) k = 0}"
    using relax_set [of deg ready ?ss] relax deg rdy count out key inv
    by (auto simp: kahn_inv_def intro: count_list_pos)
  moreover have "sorted ready'" "distinct ready'"
    using relax_sorted [of ready deg ?ss] relax_distinct [of ready deg ?ss] relax inv rdy deg
    by (auto simp: kahn_inv_def)
  moreover have "\<forall>k \<in> insert key P. waiting edges (insert key P) k = 0"
    using inv key count by (auto simp: kahn_inv_def)
  ultimately show ?thesis using deg' inv key by (auto simp: kahn_inv_def)
qed

subsection \<open>What the loop computes\<close>

lemma kahn_loop_correct:
  assumes "kahn_inv N edges deg ready (set order)" and "snd ` set edges \<subseteq> N"
    and "legal edges {} order" and "kahn_loop edges deg ready order = (order', deg')"
  shows "kahn_inv N edges deg' [] (set order') \<and> legal edges {} order' \<and> prefix order order'"
  using assms
proof (induction edges deg ready order rule: kahn_loop.induct)
  case (1 edges deg order)
  then show ?case by simp
next
  case (2 edges deg key ready order)
  obtain d r where relax: "relax deg ready (sort (outgoing edges key)) = (d, r)" by fastforce
  have inv: "kahn_inv N edges d r (set (order @ [key]))"
    using kahn_inv_step [OF 2(2) 2(3) relax] by simp
  have "legal edges {} (order @ [key])"
    using 2(2,4) by (auto simp: legal_append kahn_inv_def waiting_zero)
  with 2(1) [OF relax [symmetric] inv 2(3)] 2(5) relax show ?case
    by (auto simp: prefix_def)
qed

text \<open>No legal continuation is smaller than the one the loop produces.\<close>

lemma kahn_loop_least:
  assumes "kahn_inv N edges deg ready (set order)" and "snd ` set edges \<subseteq> N"
    and "kahn_loop edges deg ready order = (order @ rest, deg')"
    and "legal edges (set order) zs" and "set zs \<subseteq> N"
    and "length rest \<le> length zs"
  shows "rest \<le> zs"
  using assms
proof (induction edges deg ready order arbitrary: rest zs rule: kahn_loop.induct)
  case (1 edges deg order)
  then show ?case by simp
next
  case (2 edges deg key ready order)
  obtain d r where relax: "relax deg ready (sort (outgoing edges key)) = (d, r)" by fastforce
  have inv: "kahn_inv N edges d r (set (order @ [key]))"
    using kahn_inv_step [OF 2(2) 2(3) relax] by simp
  have loop: "kahn_loop edges d r (order @ [key]) = (order @ rest, deg')"
    using 2(4) relax by simp
  have "\<exists>t. fst (kahn_loop es dg rs os) = os @ t" for es dg rs os
    by (induction es dg rs os rule: kahn_loop.induct) (auto split: prod.splits)
  from this [of edges d r "order @ [key]"] loop obtain rest' where rest: "rest = key # rest'"
    by auto
  with 2(7) obtain z zs' where zs: "zs = z # zs'" by (cases zs) auto
  from 2(5,6) zs have "z \<in> set (key # ready)"
    using 2(2) by (auto simp: kahn_inv_def waiting_zero)
  with 2(2) have "key \<le> z" by (auto simp: kahn_inv_def)
  moreover have "rest' \<le> zs'" if "key = z"
  proof (rule 2(1) [OF relax [symmetric] inv 2(3)])
    show "kahn_loop edges d r (order @ [key]) = ((order @ [key]) @ rest', deg')"
      using loop rest by simp
    show "legal edges (set (order @ [key])) zs'" using 2(5) zs that by simp
    show "set zs' \<subseteq> N" using 2(6) zs by simp
    show "length rest' \<le> length zs'" using 2(7) zs rest by simp
  qed
  ultimately show ?case using rest zs by (auto simp: less_le)
qed

text \<open>Where the loop stops short, the nodes left over contain a cycle.\<close>

lemma kahn_stuck_cyclic:
  assumes inv: "kahn_inv N edges deg [] P" and fin: "finite N" and left: "P \<noteq> N"
    and edges: "set edges \<subseteq> N \<times> N"
  shows "\<not> acyclic (set edges)"
proof
  assume "acyclic (set edges)"
  then have wf: "wf (set edges)" by (simp add: finite_acyclic_wf)
  from left inv obtain x where x: "x \<in> N - P" by (auto simp: kahn_inv_def)
  from wf_subset [OF wf subset_refl] x obtain m where m: "m \<in> N - P"
    and min: "\<And>y. (y, m) \<in> set edges \<Longrightarrow> y \<notin> N - P"
    using wfE_min [OF wf, of x "N - P"] by metis
  from inv m have "waiting edges P m \<noteq> 0" by (auto simp: kahn_inv_def)
  then obtain e where "e \<in> set edges" "snd e = m" "fst e \<notin> P" by (auto simp: waiting_zero)
  with min [of "fst e"] edges show False by (cases e) auto
qed

lemma takeWhile_before: "x \<notin> set us \<Longrightarrow> takeWhile (\<lambda>y. y \<noteq> x) (us @ x # ws) = us"
  by (induction us) auto

lemma legal_acyclic:
  assumes "legal edges {} ys" and "snd ` set edges \<subseteq> set ys"
  shows "acyclic (set edges)"
proof -
  define pos where "pos x = length (takeWhile (\<lambda>y. y \<noteq> x) ys)" for x
  have "pos l < pos r" if "(l, r) \<in> set edges" for l r
  proof -
    from that assms(2) have "r \<in> set ys" by force
    with legal_before [OF assms(1) that] obtain us vs ws where ys: "ys = us @ l # vs @ r # ws"
      by auto
    with legal_distinct [OF assms(1)] have "l \<notin> set us" "r \<notin> set us" "r \<noteq> l" "r \<notin> set vs" by auto
    then have "takeWhile (\<lambda>y. y \<noteq> l) ys = us" "takeWhile (\<lambda>y. y \<noteq> r) ys = us @ l # vs"
      using takeWhile_before [of l us "vs @ r # ws"] takeWhile_before [of r "us @ l # vs" ws]
      by (simp_all add: ys)
    then show ?thesis by (simp add: pos_def)
  qed
  then show ?thesis by (intro acyclicI_order [where f = "\<lambda>x. - int (pos x)"]) auto
qed

subsection \<open>The function\<close>

lemma kahn_inv_start:
  "kahn_inv (set keys) edges (indegree edges)
     (sort (filter (\<lambda>k. indegree edges k = 0) (remdups keys))) {}"
  by (auto simp: kahn_inv_def waiting_empty)

lemma topological_order_run:
  assumes "snd ` set edges \<subseteq> set keys"
    and "kahn_loop edges (indegree edges)
           (sort (filter (\<lambda>k. indegree edges k = 0) (remdups keys))) [] = (order, deg)"
  shows "kahn_inv (set keys) edges deg [] (set order)" and "legal edges {} order"
proof -
  have inv: "kahn_inv (set keys) edges (indegree edges)
     (sort (filter (\<lambda>k. indegree edges k = 0) (remdups keys))) (set [])"
    using kahn_inv_start by simp
  have "legal edges {} []" by simp
  from kahn_loop_correct [OF inv assms(1) this assms(2)]
  show "kahn_inv (set keys) edges deg [] (set order)" and "legal edges {} order" by simp_all
qed

lemma topological_order_Inr:
  assumes "topological_order keys edges = Inr order"
  shows "legal edges {} order" and "set order = set keys" and "distinct order"
    and "acyclic (set edges)"
proof -
  from assms have edges: "snd ` set edges \<subseteq> set keys"
    by (auto simp: topological_order_def split: if_splits)
  obtain os deg where run: "kahn_loop edges (indegree edges)
      (sort (filter (\<lambda>k. indegree edges k = 0) (remdups keys))) [] = (os, deg)" by fastforce
  from assms run have os: "os = order" and len: "length order = length (remdups keys)"
    by (auto simp: topological_order_def Let_def split: if_splits)
  from topological_order_run [OF edges run] os
  have inv: "kahn_inv (set keys) edges deg [] (set order)" and legal: "legal edges {} order"
    by simp_all
  show "legal edges {} order" by (rule legal)
  show dist: "distinct order" using legal_distinct [OF legal] by simp
  have "set order \<subseteq> set keys" using inv by (simp add: kahn_inv_def)
  moreover have "card (set order) = card (set keys)"
    by (metis dist distinct_card len length_remdups_card_conv)
  ultimately show eq: "set order = set keys"
    by (intro card_subset_eq) simp_all
  show "acyclic (set edges)" using legal_acyclic [OF legal] edges eq by simp
qed

lemma topological_order_complete:
  assumes "set edges \<subseteq> set keys \<times> set keys" and "acyclic (set edges)"
  shows "\<exists>order. topological_order keys edges = Inr order"
proof -
  obtain os deg where run: "kahn_loop edges (indegree edges)
      (sort (filter (\<lambda>k. indegree edges k = 0) (remdups keys))) [] = (os, deg)" by fastforce
  from assms(1) have edges: "snd ` set edges \<subseteq> set keys" by force
  note inv = topological_order_run [OF edges run]
  from kahn_stuck_cyclic [OF inv(1) _ _ assms(1)] assms(2) have "set os = set keys" by blast
  moreover have "distinct os" using legal_distinct [OF inv(2)] by simp
  ultimately have "length os = length (remdups keys)"
    by (metis distinct_card length_remdups_card_conv)
  with run edges show ?thesis by (auto simp: topological_order_def Let_def)
qed

lemma topological_order_least:
  assumes "topological_order keys edges = Inr order" and "legal edges {} ys" and "set ys = set keys"
  shows "order \<le> ys"
proof -
  from assms have edges: "snd ` set edges \<subseteq> set keys"
    by (auto simp: topological_order_def split: if_splits)
  let ?ready = "sort (filter (\<lambda>k. indegree edges k = 0) (remdups keys))"
  from assms(1) obtain deg where run: "kahn_loop edges (indegree edges) ?ready [] = ([] @ order, deg)"
    by (auto simp: topological_order_def Let_def split: if_splits prod.splits)
  have inv: "kahn_inv (set keys) edges (indegree edges) ?ready (set [])"
    using kahn_inv_start by simp
  have "length order = length ys"
    using topological_order_Inr(2,3) [OF assms(1)] legal_distinct [OF assms(2)] assms(3)
    by (metis distinct_card)
  then show ?thesis
    using kahn_loop_least [OF inv edges run, of ys] assms(2,3) by simp
qed

subsection \<open>Properties\<close>

text \<open>
  C32: a returned order is a permutation of the node set in which the source of every hard edge
  stands before its target.
\<close>

theorem topological_order_sound:
  assumes "topological_order keys edges = Inr order" and "fst ` set edges \<subseteq> set keys"
  shows "set order = set keys \<and> distinct order \<and>
    (\<forall>(l, r) \<in> set edges. \<exists>us vs ws. order = us @ l # vs @ r # ws)"
proof -
  from assms(1) have "snd ` set edges \<subseteq> set keys"
    by (auto simp: topological_order_def split: if_splits)
  then have "\<exists>us vs ws. order = us @ l # vs @ r # ws" if "(l, r) \<in> set edges" for l r
    using legal_before [OF topological_order_Inr(1) [OF assms(1)] that]
      topological_order_Inr(2) [OF assms(1)] that by force
  with topological_order_Inr(2,3) [OF assms(1)] show ?thesis by auto
qed

text \<open>
  C40: on a graph whose edges join known nodes the function returns an order exactly when the
  hard edges are acyclic; otherwise it raises \<open>GRAPH_CYCLE\<close>.
\<close>

theorem topological_order_fails_iff_cyclic:
  assumes "set edges \<subseteq> set keys \<times> set keys"
  shows "((\<exists>order. topological_order keys edges = Inr order) \<longleftrightarrow> acyclic (set edges)) \<and>
    ((\<exists>text. topological_order keys edges = Inl (PortfolioGraphError (''GRAPH_CYCLE:'' @ text)))
      \<longleftrightarrow> \<not> acyclic (set edges))"
proof -
  have iff: "(\<exists>order. topological_order keys edges = Inr order) \<longleftrightarrow> acyclic (set edges)"
    using topological_order_Inr(4) topological_order_complete [OF assms] by blast
  from assms have "\<not> (\<exists>e \<in> set edges. snd e \<notin> set keys)" by force
  then have "(\<exists>order. topological_order keys edges = Inr order) \<or>
      (\<exists>text. topological_order keys edges = Inl (PortfolioGraphError (''GRAPH_CYCLE:'' @ text)))"
    by (auto simp: topological_order_def Let_def split: prod.splits)
  with iff show ?thesis by force
qed

theorem topological_order_fails_iff_cyclic_witness:
  "((\<exists>order. topological_order [''a'', ''b''] [(''a'', ''b'')] = Inr order)
      \<longleftrightarrow> acyclic (set [(''a'', ''b'')])) \<and>
   ((\<exists>text. topological_order [''a'', ''b''] [(''a'', ''b'')] =
        Inl (PortfolioGraphError (''GRAPH_CYCLE:'' @ text))) \<longleftrightarrow> \<not> acyclic (set [(''a'', ''b'')]))"
  by (rule topological_order_fails_iff_cyclic) simp

text \<open>
  The order is canonical: it is the least, in the lexicographic order of the keys, of all
  orders that respect the edges, and so a function of the node set and the edge set alone.
\<close>

theorem topological_order_canonical:
  assumes "topological_order keys edges = Inr order"
    and "set keys' = set keys" and "set edges' = set edges"
  shows "(\<forall>ys. legal edges {} ys \<and> set ys = set keys \<longrightarrow> order \<le> ys) \<and>
    (\<forall>order'. topological_order keys' edges' = Inr order' \<longrightarrow> order' = order)"
proof -
  note r = assms(1)
  have cong: "legal E P ys \<longleftrightarrow> legal E' P ys" if "set E = set E'" for E E' P and ys :: "string list"
    using that by (induction ys arbitrary: P) auto
  have "order' = order" if r': "topological_order keys' edges' = Inr order'" for order'
  proof (rule antisym)
    show "order \<le> order'"
      using topological_order_least [OF r] topological_order_Inr(1,2) [OF r'] assms(2,3) cong by metis
    show "order' \<le> order"
      using topological_order_least [OF r'] topological_order_Inr(1,2) [OF r] assms(2,3) cong by metis
  qed
  with topological_order_least [OF r] show ?thesis by blast
qed

lemma topological_order_example:
  "topological_order [''c'', ''b'', ''a'', ''d'']
     [(''b'', ''a''), (''c'', ''a''), (''a'', ''d'')] = Inr [''b'', ''c'', ''a'', ''d'']"
  by code_simp

lemma topological_order_example_rows:
  "topological_order [''d'', ''a'', ''b'', ''c'']
     [(''a'', ''d''), (''b'', ''a''), (''c'', ''a'')] = Inr [''b'', ''c'', ''a'', ''d'']"
  by code_simp

theorem topological_order_sound_witness:
  "set [''b'', ''c'', ''a'', ''d''] = set [''c'', ''b'', ''a'', ''d''] \<and>
   distinct [''b'', ''c'', ''a'', ''d''] \<and>
   (\<exists>us vs ws. [''b'', ''c'', ''a'', ''d''] = us @ ''b'' # vs @ ''a'' # ws)"
  using topological_order_sound [OF topological_order_example] by force

theorem topological_order_canonical_witness:
  "[''b'', ''c'', ''a'', ''d''] \<le> [''c'', ''b'', ''a'', ''d''] \<and>
   topological_order [''d'', ''a'', ''b'', ''c'']
      [(''a'', ''d''), (''b'', ''a''), (''c'', ''a'')] = Inr [''b'', ''c'', ''a'', ''d'']"
proof -
  have sets: "set [''d'', ''a'', ''b'', ''c''] = set [''c'', ''b'', ''a'', ''d'']"
    "set [(''a'', ''d''), (''b'', ''a''), (''c'', ''a'')] =
       set [(''b'', ''a''), (''c'', ''a''), (''a'', ''d'')]" by auto
  have legal: "legal [(''b'', ''a''), (''c'', ''a''), (''a'', ''d'')] {} [''c'', ''b'', ''a'', ''d'']"
    by code_simp
  from topological_order_canonical [OF topological_order_example sets] legal
  show ?thesis using topological_order_example_rows by blast
qed

end
