(* ===== verification/Delivery_Policy.thy ===== *)
theory Delivery_Policy
  imports Prelude Json_Value
begin

section \<open>Repository delivery policy: repository_delivery_policy.py\<close>

text \<open>
  The two repositories the harness serves, their reviewed delivery policy, the branch and
  worktree grammars derived from it, and the standing source authority every harness
  admission must carry. Arguments the source types as \<open>object\<close> are \<open>pyval\<close>, so that the
  \<open>isinstance\<close> tests are branches of the model. The SHA-256 of the planner goal file, which
  \<open>_current_planner_goal_sha256\<close> reads from disk, is an argument of the provenance check.
\<close>

definition APPLICATION_REPOSITORY :: string where
  "APPLICATION_REPOSITORY = ''twinfinityai/twinfinityapp''"

definition HARNESS_REPOSITORY :: string where
  "HARNESS_REPOSITORY = ''jayendusharma/twinfinity-harness''"

definition HARNESS_STANDING_AUTHORITY_SCHEMA :: string where
  "HARNESS_STANDING_AUTHORITY_SCHEMA = ''twinfinity-harness-standing-source-authority/v1''"

record repository_delivery_policy =
  rp_repository :: string
  rp_branch_namespace :: string
  rp_worktree_stem :: string
  rp_workspace_subdirectory :: "string option"
  rp_prepush_gate_profile :: string
  rp_exclusive_repository_writer :: bool

definition POLICIES :: "(string \<times> repository_delivery_policy) list" where
  "POLICIES = [
     (APPLICATION_REPOSITORY,
      \<lparr>rp_repository = APPLICATION_REPOSITORY,
       rp_branch_namespace = ''codex'',
       rp_worktree_stem = ''twinfinityapp-issue-'',
       rp_workspace_subdirectory = None,
       rp_prepush_gate_profile = ''application-compose-v1'',
       rp_exclusive_repository_writer = False\<rparr>),
     (HARNESS_REPOSITORY,
      \<lparr>rp_repository = HARNESS_REPOSITORY,
       rp_branch_namespace = ''change'',
       rp_worktree_stem = ''twinfinity-harness-issue'',
       rp_workspace_subdirectory = Some ''twinfinity'',
       rp_prepush_gate_profile = ''harness-source-v1'',
       rp_exclusive_repository_writer = True\<rparr>)]"

definition policy_for_repository :: "pyval \<Rightarrow> repository_delivery_policy option" where
  "policy_for_repository repository =
     (if is_str repository then map_of POLICIES (str_of repository) else None)"

definition is_projection_key :: "string \<Rightarrow> bool" where
  "is_projection_key k = (take 12 k = ''_projection_'')"

text \<open>The issue projection without the timestamp and the projection bookkeeping.\<close>

definition stable_issue_projection :: "pydict \<Rightarrow> pydict" where
  "stable_issue_projection payload =
     filter (\<lambda>kv. fst kv \<noteq> ''updated_at'' \<and> \<not> is_projection_key (fst kv)) payload"

definition stable_issue_source_sha256 :: "pydict \<Rightarrow> string" where
  "stable_issue_source_sha256 payload = digest_json (PDict (stable_issue_projection payload))"

subsection \<open>Standing source authority\<close>

definition HARNESS_SOURCE_SCOPE :: "string list" where
  "HARNESS_SOURCE_SCOPE =
     [''Repository-local harness source, contracts, and hermetic tests for the owning issue.'']"

definition HARNESS_SOURCE_EXCLUSIONS :: "string list" where
  "HARNESS_SOURCE_EXCLUSIONS =
     [''No installation or runtime activation.'',
      ''No live coordination database, hosted provider, or application-repository mutation.'']"

definition HARNESS_SOURCE_ROUTINE_CHAIN :: "string list" where
  "HARNESS_SOURCE_ROUTINE_CHAIN =
     [''Run focused hermetic tests.'',
      ''Run every repository skill validator.'',
      ''Run the full hermetic suite.'',
      ''Use guarded push with the repository-derived harness gate profile.'',
      ''Open a source-only pull request against the exact accepted main.'',
      ''Require current-head CI, zero unresolved review threads, and independent exact-head Governor approval.'',
      ''Merge only the reviewed and checked exact head into the exact target main.'',
      ''Require post-merge accepted-main green evidence.'',
      ''Clean up the retired source lane and isolated test state.'',
      ''Commit the terminal receipt and release Shared capacity atomically.'']"

definition canonical_harness_standing_controls :: pydict where
  "canonical_harness_standing_controls =
     [(''source_scope'', PList (map PStr HARNESS_SOURCE_SCOPE)),
      (''exclusions'', PList (map PStr HARNESS_SOURCE_EXCLUSIONS)),
      (''writer'', PStr ''One Development source writer using Shared capacity 1.''),
      (''reviewer_plan'', PList [PStr ''Independent Governor review on the exact candidate head.'']),
      (''collision_proof'', PList [PStr
         ''Exclusive repository-writer mutex and graph collision evidence remain exact.'']),
      (''environment_rule'', PStr
         ''Use repository-local source and isolated temporary SQLite databases only.''),
      (''routine_chain'', PList (map PStr HARNESS_SOURCE_ROUTINE_CHAIN)),
      (''hard_stops'', PList [PStr
         ''Stop on repository, source, main, scope, capacity, collision, goal, gate, review, CI, or merge drift.''])]"

text \<open>\<open>not s.strip()\<close>: only white space, the Unicode spaces in their UTF-8 encoding included.\<close>

fun all_space :: "int list \<Rightarrow> bool" where
  "all_space [] = True"
| "all_space (a # bs) =
     (if (9 \<le> a \<and> a \<le> 13) \<or> (28 \<le> a \<and> a \<le> 32) then all_space bs
      else case bs of
        [] \<Rightarrow> False
      | b # cs \<Rightarrow>
          if a = 0xC2 \<and> (b = 0x85 \<or> b = 0xA0) then all_space cs
          else (case cs of
              [] \<Rightarrow> False
            | c # ds \<Rightarrow>
                if (a = 0xE1 \<and> b = 0x9A \<and> c = 0x80) \<or>
                   (a = 0xE2 \<and> b = 0x80 \<and> (0x80 \<le> c \<and> c \<le> 0x8A \<or> c = 0xA8 \<or> c = 0xA9 \<or> c = 0xAF)) \<or>
                   (a = 0xE2 \<and> b = 0x81 \<and> c = 0x9F) \<or> (a = 0xE3 \<and> b = 0x80 \<and> c = 0x80)
                then all_space ds else False))"

definition blank :: "string \<Rightarrow> bool" where
  "blank s = all_space (map of_char s)"

definition nonblank_str :: "pyval \<Rightarrow> bool" where
  "nonblank_str v = (is_str v \<and> \<not> blank (str_of v))"

definition STANDING_AUTHORITY_KEYS :: "string list" where
  "STANDING_AUTHORITY_KEYS =
     [''schema'', ''repository'', ''issue_number'', ''source_payload_sha256'',
      ''stable_source_sha256'', ''planner_goal_sha256'', ''accepted_main_sha'', ''source_scope'',
      ''exclusions'', ''writer'', ''reviewer_plan'', ''collision_proof'', ''environment_rule'',
      ''routine_chain'', ''hard_stops'']"

definition standing_authority_shape_invalid :: "pydict \<Rightarrow> bool" where
  "standing_authority_shape_invalid binding =
     (let strings = [''repository'', ''source_payload_sha256'', ''stable_source_sha256'',
                     ''planner_goal_sha256'', ''accepted_main_sha''];
          nonempty_list_fields = [''source_scope'', ''reviewer_plan'', ''collision_proof'',
                     ''routine_chain'', ''hard_stops''];
          list_fields = nonempty_list_fields @ [''exclusions'']
      in \<not> py_eq (py_get binding ''schema'') (PStr HARNESS_STANDING_AUTHORITY_SCHEMA) \<or>
         \<not> py_eq (py_get binding ''repository'') (PStr HARNESS_REPOSITORY) \<or>
         \<not> is_int (py_get binding ''issue_number'') \<or> int_of (py_get binding ''issue_number'') \<le> 0 \<or>
         (\<exists>f \<in> set strings. \<not> is_str (py_get binding f)) \<or>
         \<not> nonblank_str (py_get binding ''writer'') \<or>
         \<not> nonblank_str (py_get binding ''environment_rule'') \<or>
         \<not> SHA256 (str_of (py_get binding ''source_payload_sha256'')) \<or>
         \<not> SHA256 (str_of (py_get binding ''stable_source_sha256'')) \<or>
         \<not> SHA256 (str_of (py_get binding ''planner_goal_sha256'')) \<or>
         \<not> GIT_SHA (str_of (py_get binding ''accepted_main_sha'')) \<or>
         (\<exists>f \<in> set list_fields. \<not> is_list (py_get binding f)) \<or>
         (\<exists>f \<in> set nonempty_list_fields. list_of (py_get binding f) = []) \<or>
         (\<exists>f \<in> set list_fields. \<exists>v \<in> set (list_of (py_get binding f)). \<not> nonblank_str v))"

definition standing_authority_drift :: "pydict \<Rightarrow> pydict \<Rightarrow> pydict \<Rightarrow> bool" where
  "standing_authority_drift payload source binding =
     (\<not> py_eq (py_get binding ''issue_number'') (py_get payload ''issue_number'') \<or>
      \<not> py_eq (py_get binding ''source_payload_sha256'') (py_get source ''payload_sha256'') \<or>
      \<not> py_eq (py_get binding ''accepted_main_sha'') (py_get payload ''base_sha'') \<or>
      \<not> py_eq (py_get binding ''source_scope'') (py_get payload ''source_scope'') \<or>
      \<not> py_eq (py_get binding ''exclusions'') (py_get payload ''source_exclusions'') \<or>
      (\<exists>f \<in> set [''writer'', ''reviewer_plan'', ''collision_proof'', ''environment_rule'',
                  ''routine_chain'', ''hard_stops''].
         \<not> py_eq (py_get binding f) (py_get payload f)) \<or>
      (\<exists>c \<in> set canonical_harness_standing_controls. \<not> py_eq (py_get binding (fst c)) (snd c)) \<or>
      \<not> py_eq (PStr (digest_json (PDict binding))) (py_get payload ''standing_source_authority_sha256''))"

definition harness_standing_authority_error :: "pyval \<Rightarrow> string option" where
  "harness_standing_authority_error p =
     (if \<not> is_dict p then Some ''HARNESS_STANDING_AUTHORITY_INVALID''
      else
        let payload = dict_of p; source = py_get payload ''source''
        in if \<not> is_dict source \<or>
              \<not> py_eq (py_get (dict_of source) ''repository'') (PStr HARNESS_REPOSITORY) then None
           else
             let b = py_get payload ''standing_source_authority'' in
             if \<not> is_dict b \<or> \<not> keys_are (dict_of b) STANDING_AUTHORITY_KEYS
             then Some ''HARNESS_STANDING_AUTHORITY_INVALID''
             else if standing_authority_shape_invalid (dict_of b)
             then Some ''HARNESS_STANDING_AUTHORITY_INVALID''
             else if standing_authority_drift payload (dict_of source) (dict_of b)
             then Some ''HARNESS_STANDING_AUTHORITY_DRIFT''
             else None)"

subsection \<open>Branch grammar\<close>

definition is_slug_char :: "char \<Rightarrow> bool" where
  "is_slug_char c = (is_lower c \<or> is_digit c \<or> c = CHR ''-'')"

text \<open>\<open>[a-z0-9][a-z0-9-]*\<close>\<close>

definition strict_slug :: "string \<Rightarrow> bool" where
  "strict_slug s = (s \<noteq> [] \<and> hd s \<noteq> CHR ''-'' \<and> list_all is_slug_char s)"

text \<open>\<open>[A-Za-z0-9._-]+\<close>\<close>

definition publication_slug :: "string \<Rightarrow> bool" where
  "publication_slug s = (s \<noteq> [] \<and> list_all is_repo_char s)"

text \<open>\<open><namespace>/[1-9][0-9]*-<slug>\<close>: the digits and the slug, if the text has that form.\<close>

definition branch_parts :: "string \<Rightarrow> string \<Rightarrow> (string \<times> string) option" where
  "branch_parts namespace branch =
     (let pre = namespace @ ''/'';
          rest = drop (length pre) branch;
          digits = takeWhile is_digit rest;
          tail = dropWhile is_digit rest
      in if take (length pre) branch = pre \<and> digits \<noteq> [] \<and> hd digits \<noteq> CHR ''0'' \<and>
            tail \<noteq> [] \<and> hd tail = CHR ''-''
         then Some (digits, tl tail) else None)"

definition strict_delivery_branch_matches :: "pyval \<Rightarrow> pyval \<Rightarrow> pyval \<Rightarrow> bool" where
  "strict_delivery_branch_matches repository branch issue_number =
     (case policy_for_repository repository of
        None \<Rightarrow> False
      | Some policy \<Rightarrow>
          is_str branch \<and>
          (case branch_parts (rp_branch_namespace policy) (str_of branch) of
             None \<Rightarrow> False
           | Some (digits, slug) \<Rightarrow> strict_slug slug \<and>
               (issue_number = PNone \<or>
                (is_int issue_number \<and> int (nat_of_digits digits) = int_of issue_number))))"

definition delivery_branch_issue_number :: "pyval \<Rightarrow> pyval \<Rightarrow> int option" where
  "delivery_branch_issue_number repository branch =
     (case policy_for_repository repository of
        None \<Rightarrow> None
      | Some policy \<Rightarrow>
          if \<not> is_str branch then None
          else (case branch_parts (rp_branch_namespace policy) (str_of branch) of
             None \<Rightarrow> None
           | Some (digits, slug) \<Rightarrow>
               if publication_slug slug then Some (int (nat_of_digits digits)) else None))"

definition delivery_branch_matches_owning_issue :: "pyval \<Rightarrow> pyval \<Rightarrow> pyval \<Rightarrow> bool" where
  "delivery_branch_matches_owning_issue repository branch owning_issue_number =
     (case policy_for_repository repository of
        None \<Rightarrow> False
      | Some policy \<Rightarrow>
          if \<not> is_int owning_issue_number \<or> int_of owning_issue_number \<le> 0 \<or>
             \<not> strict_delivery_branch_matches repository branch PNone then False
          else if rp_repository policy = HARNESS_REPOSITORY
          then delivery_branch_issue_number repository branch = Some (int_of owning_issue_number)
          else rp_repository policy = APPLICATION_REPOSITORY)"

subsection \<open>Worktree identity\<close>

definition expected_worktree_identity :: "pyval \<Rightarrow> pyval \<Rightarrow> string option" where
  "expected_worktree_identity repository issue_number =
     (case policy_for_repository repository of
        None \<Rightarrow> None
      | Some policy \<Rightarrow>
          if \<not> is_int issue_number \<or> int_of issue_number \<le> 0 then None
          else Some (rp_worktree_stem policy @ str_of_int (int_of issue_number)))"

text \<open>\<open>pathlib.PurePosixPath(p).name\<close>: the last component, empty and \<open>.\<close> components dropped.\<close>

fun split_on :: "char \<Rightarrow> string \<Rightarrow> string list" where
  "split_on c [] = [[]]"
| "split_on c (x # xs) =
     (if x = c then [] # split_on c xs
      else case split_on c xs of [] \<Rightarrow> [[x]] | w # ws \<Rightarrow> (x # w) # ws)"

definition path_name :: "string \<Rightarrow> string" where
  "path_name p = (case rev (filter (\<lambda>w. w \<noteq> [] \<and> w \<noteq> ''.'') (split_on CHR ''/'' p)) of
     [] \<Rightarrow> [] | w # _ \<Rightarrow> w)"

definition harness_owned_name :: "string \<Rightarrow> string \<Rightarrow> bool" where
  "harness_owned_name expected name =
     (name = expected \<or>
      (take (length expected + 1) name = expected @ ''-'' \<and> strict_slug (drop (length expected + 1) name)))"

definition worktree_path_matches_owning_issue :: "pyval \<Rightarrow> pyval \<Rightarrow> pyval \<Rightarrow> bool" where
  "worktree_path_matches_owning_issue repository worktree_path owning_issue_number =
     (case policy_for_repository repository of
        None \<Rightarrow> False
      | Some policy \<Rightarrow>
          if \<not> is_int owning_issue_number \<or> int_of owning_issue_number \<le> 0 \<or>
             \<not> is_str worktree_path then False
          else if rp_repository policy = APPLICATION_REPOSITORY then True
          else (case expected_worktree_identity repository owning_issue_number of
                  None \<Rightarrow> False
                | Some expected \<Rightarrow> harness_owned_name expected (path_name (str_of worktree_path))))"

definition message_worktree_identity_matches :: "pyval \<Rightarrow> pyval \<Rightarrow> pyval \<Rightarrow> pyval \<Rightarrow> bool" where
  "message_worktree_identity_matches repository worktree_path opaque_worktree_id owning_issue_number =
     (if \<not> worktree_path_matches_owning_issue repository worktree_path owning_issue_number then False
      else if py_eq repository (PStr HARNESS_REPOSITORY)
      then is_str worktree_path \<and> is_str opaque_worktree_id \<and>
           str_of opaque_worktree_id = path_name (str_of worktree_path)
      else py_eq repository (PStr APPLICATION_REPOSITORY))"

text \<open>\<open><expected>-v[1-9][0-9]*\<close>\<close>

definition versioned_name :: "string \<Rightarrow> string \<Rightarrow> bool" where
  "versioned_name expected name =
     (let pre = expected @ ''-v''; digits = drop (length pre) name in
      take (length pre) name = pre \<and> digits \<noteq> [] \<and> hd digits \<noteq> CHR ''0'' \<and> list_all is_digit digits)"

definition worktree_identity_matches ::
  "pyval \<Rightarrow> pyval \<Rightarrow> pyval \<Rightarrow> pyval \<Rightarrow> pyval \<Rightarrow> pyval \<Rightarrow> bool" where
  "worktree_identity_matches repository surface_issue_number owning_issue_number generation
      worktree_path opaque_worktree_id =
     (case (policy_for_repository repository,
            expected_worktree_identity repository surface_issue_number) of
        (Some policy, Some expected) \<Rightarrow>
          if \<not> py_eq surface_issue_number owning_issue_number \<or>
             \<not> is_int owning_issue_number \<or> int_of owning_issue_number \<le> 0 \<or>
             \<not> is_int generation \<or> int_of generation < 0 \<or>
             \<not> is_str worktree_path \<or> \<not> is_str opaque_worktree_id then False
          else
            let name = path_name (str_of worktree_path); opaque = str_of opaque_worktree_id in
            if rp_repository policy = APPLICATION_REPOSITORY then
              (name = expected \<and> opaque = expected) \<or>
              (versioned_name expected name \<and>
               opaque = ''issue-'' @ str_of_int (int_of owning_issue_number) @
                 ''-generation-'' @ str_of_int (int_of generation))
            else if rp_repository policy = HARNESS_REPOSITORY then
              harness_owned_name expected name \<and> opaque = name
            else False
      | _ \<Rightarrow> False)"

subsection \<open>Lemmas\<close>

lemma repository_names_distinct [simp]:
  "APPLICATION_REPOSITORY \<noteq> HARNESS_REPOSITORY" "HARNESS_REPOSITORY \<noteq> APPLICATION_REPOSITORY"
  by (simp_all add: APPLICATION_REPOSITORY_def HARNESS_REPOSITORY_def)

lemma policy_for_repository_cases:
  assumes "policy_for_repository r = Some p"
  obtains "r = PStr APPLICATION_REPOSITORY" "rp_repository p = APPLICATION_REPOSITORY"
      "rp_branch_namespace p = ''codex''" "\<not> rp_exclusive_repository_writer p"
      "rp_worktree_stem p = ''twinfinityapp-issue-''"
    | "r = PStr HARNESS_REPOSITORY" "rp_repository p = HARNESS_REPOSITORY"
      "rp_branch_namespace p = ''change''" "rp_exclusive_repository_writer p"
      "rp_worktree_stem p = ''twinfinity-harness-issue''"
  using assms
  by (auto simp: policy_for_repository_def POLICIES_def is_str_cases split: if_splits)

lemma policy_harness:
  "\<exists>p. policy_for_repository (PStr HARNESS_REPOSITORY) = Some p \<and>
     rp_repository p = HARNESS_REPOSITORY \<and> rp_exclusive_repository_writer p \<and>
     rp_worktree_stem p = ''twinfinity-harness-issue''"
  by (simp add: policy_for_repository_def POLICIES_def)

lemma is_repo_char_slug: "is_slug_char c \<Longrightarrow> is_repo_char c"
  by (auto simp: is_slug_char_def is_repo_char_def is_alnum_def)

lemma strict_slug_publication: "strict_slug s \<Longrightarrow> publication_slug s"
  by (auto simp: strict_slug_def publication_slug_def list_all_iff is_repo_char_slug)

lemma dash_not_digit [simp]: "\<not> is_digit CHR ''-''"
  by (simp add: char_class_defs)

lemma branch_parts_Some:
  "branch_parts ns b = Some (d, s) \<longleftrightarrow>
     b = ns @ ''/'' @ d @ ''-'' @ s \<and> d \<noteq> [] \<and> list_all is_digit d \<and> hd d \<noteq> CHR ''0''"
proof
  assume l: "branch_parts ns b = Some (d, s)"
  let ?pre = "ns @ ''/''"
  let ?rest = "drop (length ?pre) b"
  from l have parts: "take (length ?pre) b = ?pre" "d = takeWhile is_digit ?rest" "d \<noteq> []"
    "hd d \<noteq> CHR ''0''" "dropWhile is_digit ?rest \<noteq> []" "hd (dropWhile is_digit ?rest) = CHR ''-''"
    "s = tl (dropWhile is_digit ?rest)"
    by (simp_all add: branch_parts_def Let_def split: if_splits)
  then have "dropWhile is_digit ?rest = CHR ''-'' # s" by (metis list.collapse)
  with parts(2) have "?rest = d @ ''-'' @ s" by (metis append_Cons append_Nil takeWhile_dropWhile_id)
  with parts(1) have "b = ?pre @ d @ ''-'' @ s" by (metis append_take_drop_id)
  moreover have "list_all is_digit d" using parts(2) by (metis list_all_iff set_takeWhileD)
  ultimately show "b = ns @ ''/'' @ d @ ''-'' @ s \<and> d \<noteq> [] \<and> list_all is_digit d \<and> hd d \<noteq> CHR ''0''"
    using parts by simp
next
  assume r: "b = ns @ ''/'' @ d @ ''-'' @ s \<and> d \<noteq> [] \<and> list_all is_digit d \<and> hd d \<noteq> CHR ''0''"
  then show "branch_parts ns b = Some (d, s)"
    using takeWhile_run [of is_digit d "''-'' @ s"] by (simp add: branch_parts_def Let_def)
qed

lemma branch_parts_build:
  "0 < n \<Longrightarrow> branch_parts ns (ns @ ''/'' @ str_of_nat n @ ''-'' @ s) = Some (str_of_nat n, s)"
  by (simp add: branch_parts_Some list_all_is_digit_str_of_nat hd_str_of_nat)

text \<open>
  Printing and parsing of lane branches. For a reviewed repository the branch built from an
  issue number and a strict slug is accepted for that issue and for no other, and the number is
  read back from it.
\<close>

theorem delivery_branch_roundtrip:
  assumes "policy_for_repository r = Some p" and "0 < n" and "strict_slug slug"
    and "b = PStr (rp_branch_namespace p @ ''/'' @ str_of_nat n @ ''-'' @ slug)"
  shows "(\<forall>m. strict_delivery_branch_matches r b (PInt m) \<longleftrightarrow> m = int n) \<and>
    delivery_branch_issue_number r b = Some (int n)"
  using assms strict_slug_publication [OF assms(3)]
  by (auto simp: strict_delivery_branch_matches_def delivery_branch_issue_number_def
      branch_parts_build [simplified])

theorem delivery_branch_roundtrip_witness:
  "(\<forall>m. strict_delivery_branch_matches (PStr HARNESS_REPOSITORY) (PStr ''change/12-fix-lease'') (PInt m)
      \<longleftrightarrow> m = 12) \<and>
   delivery_branch_issue_number (PStr HARNESS_REPOSITORY) (PStr ''change/12-fix-lease'') = Some 12"
proof -
  have slug: "strict_slug ''fix-lease''" by code_simp
  have n: "str_of_nat 12 = ''12''" by code_simp
  show ?thesis
    using delivery_branch_roundtrip [of "PStr HARNESS_REPOSITORY"
        "snd (POLICIES ! 1)" 12 "''fix-lease''" "PStr ''change/12-fix-lease''"] slug n
    by (simp add: policy_for_repository_def POLICIES_def)
qed

lemma harness_name_digits:
  assumes "harness_owned_name (stem @ str_of_nat n) name"
  shows "takeWhile is_digit (drop (length stem) name) = str_of_nat n"
proof -
  let ?k = "length (stem @ str_of_nat n) + 1"
  have split: "name = take ?k name @ drop ?k name" by simp
  from assms have "name = stem @ str_of_nat n \<or> take ?k name = stem @ str_of_nat n @ ''-''"
    by (auto simp: harness_owned_name_def)
  then consider "name = stem @ str_of_nat n" | "name = stem @ str_of_nat n @ ''-'' @ drop ?k name"
    using split by (metis append_assoc)
  then show ?thesis
  proof cases
    case 1
    then show ?thesis using takeWhile_run(1) [of is_digit "str_of_nat n" "[]"]
      by (simp add: list_all_is_digit_str_of_nat)
  next
    case 2
    then obtain s where "name = stem @ str_of_nat n @ ''-'' @ s" by blast
    then show ?thesis using takeWhile_run(1) [of is_digit "str_of_nat n" "''-'' @ s"]
      by (simp add: list_all_is_digit_str_of_nat)
  qed
qed

text \<open>
  In the harness repository a worktree path belongs to at most one issue: the basename
  fence cannot be satisfied for two issue numbers.
\<close>

theorem harness_worktree_owned_once:
  assumes "worktree_path_matches_owning_issue (PStr HARNESS_REPOSITORY) path (PInt m)"
    and "worktree_path_matches_owning_issue (PStr HARNESS_REPOSITORY) path (PInt n)"
  shows "m = n"
proof -
  obtain p where p: "policy_for_repository (PStr HARNESS_REPOSITORY) = Some p"
    "rp_repository p = HARNESS_REPOSITORY" "rp_worktree_stem p = ''twinfinity-harness-issue''"
    using policy_harness by blast
  have own: "0 < k \<and> takeWhile is_digit (drop (length ''twinfinity-harness-issue'')
      (path_name (str_of path))) = str_of_nat (nat k)"
    if "worktree_path_matches_owning_issue (PStr HARNESS_REPOSITORY) path (PInt k)" for k
    using that p harness_name_digits [of "''twinfinity-harness-issue''" "nat k" "path_name (str_of path)"]
    by (auto simp: worktree_path_matches_owning_issue_def expected_worktree_identity_def
        str_of_int_def split: if_splits)
  from own [OF assms(1)] own [OF assms(2)] show ?thesis
    by (metis nat_eq_iff2 order_less_imp_le str_of_nat_inject)
qed

theorem harness_worktree_owned_once_witness:
  "worktree_path_matches_owning_issue (PStr HARNESS_REPOSITORY)
     (PStr ''/home/ubuntu/code/twinfinity/twinfinity-harness-issue7-retry'') (PInt 7) \<and>
   \<not> worktree_path_matches_owning_issue (PStr HARNESS_REPOSITORY)
     (PStr ''/home/ubuntu/code/twinfinity/twinfinity-harness-issue7-retry'') (PInt 77)"
proof -
  have own: "worktree_path_matches_owning_issue (PStr HARNESS_REPOSITORY)
     (PStr ''/home/ubuntu/code/twinfinity/twinfinity-harness-issue7-retry'') (PInt 7)"
    by code_simp
  with harness_worktree_owned_once [OF own, of 77] show ?thesis by auto
qed

end
