(* ===== verification/Database.thy ===== *)
theory Database
  imports Prelude Json_Value
begin

section \<open>The coordination database\<close>

text \<open>
  The owner-only SQLite database as one record: a list of rows per table, in insertion order,
  the table names \<open>sqlite_master\<close> lists, and whether a transaction is open on the connection.
  Every row type has the columns of its \<open>CREATE TABLE\<close> statement, with a prefix per table
  since record fields are global; NULL-able columns are options, JSON text columns hold the
  decoded value (\<open>None\<close> where the text does not decode). Tables of which the modelled code
  reads only some columns carry those columns.

  An operation takes the database and returns a result with the new database, or an error.
  An error carries no database: a transaction that raises is rolled back, and the state the
  caller sees is the one it had.
\<close>

record github_snapshot_row =
  gs_repository :: string
  gs_object_kind :: string
  gs_object_number :: int
  gs_payload_sha256 :: string
  gs_source_updated_at :: string
  gs_fetched_at :: string
  gs_payload_json :: "pyval option"

record github_current_row =
  gc_repository :: string
  gc_object_kind :: string
  gc_object_number :: int
  gc_payload_sha256 :: string
  gc_source_updated_at :: string
  gc_fetched_at :: string

record item_row =
  it_repository :: string
  it_issue_number :: int
  it_status :: string
  it_allocation_class :: string
  it_generation :: int
  it_accountable_session_id :: "string option"
  it_lease_manifest_sha256 :: "string option"
  it_development_units :: int
  it_shared_units :: int
  it_sre_units :: int
  it_source_payload_sha256 :: string
  it_version :: int
  it_updated_at :: string

record capacity_policy_row =
  cp_repository :: string
  cp_version :: int
  cp_development_limit :: int
  cp_shared_limit :: int
  cp_sre_limit :: int
  cp_authority_sha256 :: "string option"
  cp_created_at :: string

record capacity_current_row =
  cc_repository :: string
  cc_version :: int
  cc_updated_at :: string

record graph_revision_row =
  gr_repository :: string
  gr_version :: int
  gr_parent_version :: "int option"
  gr_accepted_main_sha :: string
  gr_graph_sha256 :: string
  gr_scope_json :: "pyval option"
  gr_exclusions_json :: "pyval option"
  gr_created_at :: string

record graph_current_row =
  gp_repository :: string
  gp_version :: int
  gp_observed_main_sha :: string
  gp_health :: string
  gp_updated_at :: string
  gp_last_error :: "string option"

record graph_node_row =
  gn_repository :: string
  gn_graph_version :: int
  gn_node_key :: string
  gn_issue_number :: int
  gn_role :: string
  gn_root_kind :: string
  gn_root_reason :: "string option"
  gn_milestone_title :: "string option"
  gn_milestone_rank :: "int option"
  gn_lane_key :: string
  gn_lane_order :: int
  gn_dispatchable :: bool
  gn_priority_rank :: int
  gn_estimate_units :: int
  gn_development_units :: int
  gn_shared_units :: int
  gn_sre_units :: int
  gn_source_payload_sha256 :: string
  gn_ready_at :: string

record graph_relation_row =
  gl_repository :: string
  gl_graph_version :: int
  gl_left_node_key :: string
  gl_right_node_key :: string
  gl_relation_kind :: string
  gl_reason :: string
  gl_source_payload_sha256 :: string

record scheduler_event_row =
  se_repository :: string
  se_graph_version :: int
  se_decision_sha256 :: string
  se_node_key :: string
  se_event_type :: string
  se_reason_code :: string
  se_created_at :: string

record coordination_event_row =
  ev_event_type :: string
  ev_entity_key :: string
  ev_payload_sha256 :: string
  ev_created_at :: string

record dirty_event_row =
  de_id :: int
  de_event_key :: string
  de_repository :: string
  de_issue_number :: int
  de_release_item_version :: int
  de_release_source_sha256 :: string
  de_event_sha256 :: string
  de_payload_json :: "pyval option"
  de_state :: string
  de_attempts :: int
  de_next_attempt_at :: string
  de_result_sha256 :: "string option"
  de_result_json :: "pyval option"
  de_created_at :: string
  de_updated_at :: string
  de_last_error :: "string option"

record hosted_operation_row =
  ho_id :: int
  ho_idempotency_key :: string
  ho_repository :: string
  ho_object_kind :: string
  ho_issue_number :: int
  ho_source_payload_sha256 :: string
  ho_provider :: string
  ho_target_kind :: string
  ho_target_key :: string
  ho_operation_kind :: string
  ho_authority_comment_id :: int
  ho_authority_body_sha256 :: string
  ho_scope_sha256 :: string
  ho_scope_json :: "pyval option"
  ho_recipient_session_id :: string
  ho_sre_units :: int
  ho_blocked_by_issue_number :: "int option"
  ho_state :: string
  ho_claimed_by :: "string option"
  ho_receipt_outbox_id :: "int option"
  ho_remote_receipt :: "string option"
  ho_receipt_outcome :: "string option"
  ho_receipt_payload_sha256 :: "string option"
  ho_retired_by_idempotency_key :: "string option"
  ho_retired_at :: "string option"
  ho_last_wake_at :: "string option"
  ho_created_at :: string
  ho_updated_at :: string
  ho_last_error :: "string option"

record terminal_watch_row =
  tw_watch_key :: string
  tw_repository :: string
  tw_issue_number :: int
  tw_generation :: int
  tw_accountable_session_id :: string
  tw_lease_manifest_sha256 :: string
  tw_state :: string
  tw_admission_message_id :: "int option"
  tw_admission_payload_sha256 :: "string option"
  tw_claim_attempt_id :: "string option"
  tw_attempts :: int
  tw_process_id :: "int option"
  tw_target_progress_sha256 :: "string option"
  tw_last_heartbeat_at :: string
  tw_next_wake_at :: string
  tw_updated_at :: string
  tw_last_error :: "string option"

record outbox_row =
  ob_id :: int
  ob_idempotency_key :: string
  ob_repository :: string
  ob_object_kind :: string
  ob_object_number :: int
  ob_operation :: string
  ob_expected_source_sha256 :: string
  ob_payload_sha256 :: string
  ob_payload_json :: "pyval option"
  ob_state :: string
  ob_remote_receipt :: "string option"
  ob_created_at :: string
  ob_updated_at :: string
  ob_last_error :: "string option"

record artifact_row =
  ar_repository :: string
  ar_issue_number :: int
  ar_state :: string

record gate_row =
  gt_id :: int
  gt_repository :: string
  gt_issue_number :: int
  gt_generation :: int
  gt_accountable_session_id :: string
  gt_source_payload_sha256 :: string
  gt_lease_manifest_sha256 :: string
  gt_admission_message_id :: int
  gt_admission_payload_sha256 :: string
  gt_branch :: string
  gt_worktree_path :: string
  gt_base_sha :: string
  gt_head_sha :: string
  gt_changed_paths_sha256 :: string
  gt_changed_path_count :: int
  gt_lower_gate :: string
  gt_lower_gate_exit_code :: "int option"
  gt_compose_gate :: string
  gt_compose_gate_exit_code :: "int option"
  gt_compose_run_id :: string
  gt_head_unchanged :: int
  gt_cleanup_proven :: int
  gt_state :: string
  gt_evidence_sha256 :: string
  gt_environment_provenance_sha256 :: "string option"
  gt_started_at :: string
  gt_completed_at :: string
  gt_last_error :: "string option"

record publication_row =
  pb_id :: int
  pb_gate_id :: int
  pb_repository :: string
  pb_issue_number :: int
  pb_generation :: int
  pb_accountable_session_id :: string
  pb_source_payload_sha256 :: string
  pb_lease_manifest_sha256 :: string
  pb_admission_message_id :: int
  pb_branch :: string
  pb_head_sha :: string
  pb_remote_name :: string
  pb_remote_url_sha256 :: string
  pb_state :: string
  pb_created_at :: string
  pb_updated_at :: string
  pb_last_error :: "string option"

record endpoint_row =
  ep_endpoint_id :: string
  ep_role :: string

record alias_row =
  al_alias :: string
  al_role :: string

record attempt_row =
  at_attempt_id :: string
  at_role :: string
  at_endpoint_id :: string
  at_instance_id :: string
  at_token_sha256 :: string
  at_target_kind :: string
  at_target_key :: string
  at_repository_scope :: "string option"
  at_target_progress_sha256 :: "string option"
  at_terminal_progress_sha256 :: "string option"
  at_lineage_repository :: "string option"
  at_lineage_issue_number :: "int option"
  at_lineage_generation :: "int option"
  at_lineage_lease_sha256 :: "string option"
  at_lineage_sha256 :: "string option"
  at_state :: string
  at_process_id :: "int option"
  at_exit_code :: "int option"
  at_systemd_unit :: "string option"
  at_systemd_invocation_id :: "string option"
  at_systemd_control_group :: "string option"
  at_heartbeat_at :: string
  at_version :: int
  at_created_at :: string
  at_updated_at :: string
  at_last_error :: "string option"

text \<open>The primary key of an attempt event, a fresh random identifier, is left out.\<close>

record attempt_event_row =
  ae_attempt_id :: string
  ae_from_state :: "string option"
  ae_to_state :: string
  ae_from_version :: "int option"
  ae_to_version :: int
  ae_reason :: "string option"
  ae_evidence_sha256 :: "string option"
  ae_evidence_json :: "pyval option"
  ae_recorded_at :: string

record broker_run_row =
  br_attempt_id :: string
  br_state :: string

record message_row =
  ms_id :: int
  ms_idempotency_key :: string
  ms_recipient_session_id :: string
  ms_topic :: string
  ms_payload_sha256 :: string
  ms_payload_json :: "pyval option"
  ms_state :: string
  ms_claimed_by :: "string option"
  ms_created_at :: string
  ms_updated_at :: string
  ms_last_error :: "string option"

text \<open>The receipt of an equivalence is compared as text too, so both forms are kept.\<close>

record equivalence_row =
  eq_receipt_key :: string
  eq_preview_sha256 :: string
  eq_repository :: string
  eq_issue_number :: int
  eq_generation :: int
  eq_message_id :: int
  eq_watch_key :: string
  eq_item_version :: int
  eq_bound_source_sha256 :: string
  eq_current_source_sha256 :: string
  eq_endpoint_id :: string
  eq_claimant :: string
  eq_claim_attempt_id :: string
  eq_lease_manifest_sha256 :: string
  eq_receipt_sha256 :: string
  eq_receipt_text :: string
  eq_receipt_json :: "pyval option"

record closeout_packet_row =
  ck_closeout_key :: string
  ck_repository :: string
  ck_issue_number :: int
  ck_generation :: int
  ck_source_payload_sha256 :: string
  ck_terminal_watch_key :: string
  ck_activation_message_id :: int
  ck_expected_item_version :: int
  ck_outbox_id :: int
  ck_graph_version :: int
  ck_graph_binding_sha256 :: string

record outbox_readback_row =
  rb_outbox_id :: int
  rb_closeout_key :: string
  rb_remote_receipt :: string
  rb_remote_receipt_sha256 :: string
  rb_published_body_sha256 :: string
  rb_publisher_login :: string
  rb_observed_at :: string

record outbox_recovery_row =
  rv_outbox_id :: int
  rv_readback_attempts :: int
  rv_retry_rounds :: int
  rv_next_retry_at :: string
  rv_state :: string
  rv_updated_at :: string
  rv_last_error :: "string option"

record outbox_publisher_row =
  op_outbox_id :: int
  op_closeout_key :: string
  op_publisher_login :: string
  op_binding_sha256 :: string
  op_bound_at :: string

record ready_finalization_row =
  fz_repository :: string
  fz_issue_number :: int
  fz_generation :: int
  fz_campaign_id :: int
  fz_ready_candidate_id :: int
  fz_dirty_event_id :: int
  fz_finalization_sha256 :: string
  fz_payload_json :: "pyval option"

record readiness_current_row =
  rd_repository :: string
  rd_issue_number :: int
  rd_campaign_id :: int
  rd_finalized_candidate_id :: "int option"
  rd_finalized_event_id :: "int option"
  rd_state :: string

record candidate_row =
  cd_id :: int
  cd_repository :: string
  cd_issue_number :: int
  cd_graph_version :: int
  cd_accepted_main_sha :: string
  cd_source_payload_sha256 :: string
  cd_lane_key :: string
  cd_development_units :: int
  cd_shared_units :: int
  cd_sre_units :: int
  cd_state :: string

record buffer_pointer_row =
  bp_repository :: string
  bp_issue_number :: int
  bp_candidate_id :: int

text \<open>
  The approval tables of approval_ledger.py, with the columns the execution guard reads. Its JSON columns
  are compared as text too, so both forms are kept: the text, and what it decodes to when no object in it
  repeats a key.
\<close>

type_synonym json_text = "string \<times> pyval option"

record approval_proposal_row =
  pr_proposal_sha256 :: string
  pr_semantic_sha256 :: string
  pr_decision_key :: string
  pr_repository :: string
  pr_owning_issue :: int
  pr_source_snapshot_sha256 :: string
  pr_boundary :: string
  pr_packet_json :: json_text

record approval_pointer_row =
  ac_repository :: string
  ac_owning_issue :: int
  ac_decision_key :: string
  ac_proposal_sha256 :: string

record approval_submission_row =
  as_proposal_sha256 :: string
  as_workstream :: string

record approval_interest_row =
  ai_proposal_sha256 :: string
  ai_recipient_session_id :: string

record approval_user_event_row =
  ue_user_event_source :: string
  ue_user_event_id :: string
  ue_batch_sha256 :: "string option"
  ue_batch_answer_map_sha256 :: "string option"
  ue_batch_answer_map_json :: "json_text option"

record approval_decision_row =
  ad_proposal_sha256 :: string
  ad_decision_sha256 :: string
  ad_decision :: string
  ad_selected_option_id :: string
  ad_selected_option_machine_outcome :: "string option"
  ad_recipient_set_sha256 :: string
  ad_execution_scope_sha256 :: string
  ad_batch_sha256 :: "string option"
  ad_batch_answer_map_sha256 :: "string option"
  ad_option_map_sha256 :: "string option"
  ad_user_event_source :: string
  ad_user_event_id :: string
  ad_planner_session_id :: string
  ad_owner_outbox_id :: int

record approval_revocation_row =
  rk_decision_sha256 :: string
  rk_proposal_sha256 :: string

record approval_delivery_row =
  dl_proposal_sha256 :: string
  dl_decision_sha256 :: string
  dl_recipient_session_id :: string
  dl_state :: string

record approval_effectivity_row =
  ef_proposal_sha256 :: string
  ef_decision_sha256 :: string
  ef_effective_source_sha256 :: string
  ef_remote_receipt :: string

record approval_batch_row =
  bt_batch_sha256 :: string
  bt_batch_json :: "json_text option"

record approval_tables =
  approval_current :: "approval_pointer_row list"
  approval_proposals :: "approval_proposal_row list"
  approval_submissions :: "approval_submission_row list"
  approval_interests :: "approval_interest_row list"
  approval_review_batches :: "approval_batch_row list"
  approval_user_events :: "approval_user_event_row list"
  approval_decisions :: "approval_decision_row list"
  approval_deliveries :: "approval_delivery_row list"
  approval_effectivity :: "approval_effectivity_row list"
  approval_revocations :: "approval_revocation_row list"
  approval_semantic_contract_current :: "string list"

record db =
  sqlite_master :: "string list"
  in_transaction :: bool
  github_snapshots :: "github_snapshot_row list"
  github_current :: "github_current_row list"
  coordination_items :: "item_row list"
  coordination_capacity_policies :: "capacity_policy_row list"
  coordination_capacity_current :: "capacity_current_row list"
  portfolio_graph_revisions :: "graph_revision_row list"
  portfolio_graph_current :: "graph_current_row list"
  portfolio_graph_nodes :: "graph_node_row list"
  portfolio_graph_relations :: "graph_relation_row list"
  portfolio_scheduler_events :: "scheduler_event_row list"
  coordination_events :: "coordination_event_row list"
  portfolio_dirty_events :: "dirty_event_row list"
  hosted_operations :: "hosted_operation_row list"
  coordination_terminal_watches :: "terminal_watch_row list"
  github_outbox :: "outbox_row list"
  coordination_artifacts :: "artifact_row list"
  coordination_pre_push_publications :: "publication_row list"
  executor_role_endpoints :: "endpoint_row list"
  executor_role_endpoint_current :: "endpoint_row list"
  executor_registry_state :: "string option"
  coordination_messages :: "message_row list"
  coordination_admission_source_equivalence :: "equivalence_row list"
  coordination_terminal_closeout_packets :: "closeout_packet_row list"
  coordination_terminal_outbox_readbacks :: "outbox_readback_row list"
  coordination_terminal_outbox_recovery :: "outbox_recovery_row list"
  coordination_terminal_outbox_publishers :: "outbox_publisher_row list"
  portfolio_ready_finalizations :: "ready_finalization_row list"
  portfolio_readiness_current :: "readiness_current_row list"
  portfolio_pull_buffer_candidates :: "candidate_row list"
  portfolio_pull_buffer_current :: "buffer_pointer_row list"
  executor_role_endpoint_aliases :: "alias_row list"
  executor_attempts :: "attempt_row list"
  executor_attempt_events :: "attempt_event_row list"
  role_executor_broker_runs :: "broker_run_row list"
  coordination_pre_push_gates :: "gate_row list"
  approvals :: approval_tables

definition no_approvals :: approval_tables where
  "no_approvals = \<lparr>approval_current = [], approval_proposals = [], approval_submissions = [],
     approval_interests = [], approval_review_batches = [], approval_user_events = [], approval_decisions = [],
     approval_deliveries = [], approval_effectivity = [], approval_revocations = [],
     approval_semantic_contract_current = []\<rparr>"

definition graph_tables :: "string list" where
  "graph_tables = [''portfolio_graph_revisions'', ''portfolio_graph_current'',
     ''portfolio_graph_nodes'', ''portfolio_graph_relations'', ''portfolio_scheduler_events'']"

definition store_tables :: "string list" where
  "store_tables = [''github_snapshots'', ''github_current'', ''coordination_items'',
     ''coordination_capacity_policies'', ''coordination_capacity_current'', ''coordination_events'',
     ''portfolio_dirty_events'', ''coordination_terminal_watches'', ''github_outbox'',
     ''coordination_artifacts'', ''coordination_pre_push_publications'', ''coordination_pre_push_gates'',
     ''executor_role_endpoints'', ''executor_role_endpoint_current'', ''executor_registry_state'',
     ''executor_role_endpoint_aliases'', ''executor_attempts'', ''executor_attempt_events'',
     ''coordination_messages'', ''coordination_admission_source_equivalence'',
     ''coordination_terminal_closeout_packets'', ''coordination_terminal_outbox_readbacks'',
     ''coordination_terminal_outbox_recovery'', ''coordination_terminal_outbox_publishers'']"

text \<open>A freshly created store: every table of \<open>_create_schema\<close> present and empty.\<close>

definition empty_db :: db where
  "empty_db = \<lparr>sqlite_master = graph_tables @ store_tables, in_transaction = False,
     github_snapshots = [], github_current = [], coordination_items = [],
     coordination_capacity_policies = [], coordination_capacity_current = [],
     portfolio_graph_revisions = [], portfolio_graph_current = [], portfolio_graph_nodes = [],
     portfolio_graph_relations = [], portfolio_scheduler_events = [], coordination_events = [],
     portfolio_dirty_events = [], hosted_operations = [], coordination_terminal_watches = [],
     github_outbox = [], coordination_artifacts = [], coordination_pre_push_publications = [],
     executor_role_endpoints = [], executor_role_endpoint_current = [],
     executor_registry_state = Some ''PRE_CUTOVER'', coordination_messages = [],
     coordination_admission_source_equivalence = [], coordination_terminal_closeout_packets = [],
     coordination_terminal_outbox_readbacks = [], coordination_terminal_outbox_recovery = [],
     coordination_terminal_outbox_publishers = [], portfolio_ready_finalizations = [],
     portfolio_readiness_current = [], portfolio_pull_buffer_candidates = [],
     portfolio_pull_buffer_current = [], executor_role_endpoint_aliases = [], executor_attempts = [],
     executor_attempt_events = [], role_executor_broker_runs = [], coordination_pre_push_gates = [],
     approvals = no_approvals\<rparr>"

definition table_installed :: "db \<Rightarrow> string \<Rightarrow> bool" where
  "table_installed d name = (name \<in> set (sqlite_master d))"

subsection \<open>Queries several modules share\<close>

definition item_of :: "db \<Rightarrow> string \<Rightarrow> int \<Rightarrow> item_row option" where
  "item_of d repository issue_number =
     List.find (\<lambda>r. it_repository r = repository \<and> it_issue_number r = issue_number)
       (coordination_items d)"

definition current_source :: "db \<Rightarrow> string \<Rightarrow> string \<Rightarrow> int \<Rightarrow> github_current_row option" where
  "current_source d repository kind number =
     List.find (\<lambda>r. gc_repository r = repository \<and> gc_object_kind r = kind \<and>
       gc_object_number r = number) (github_current d)"

definition stored_snapshot :: "db \<Rightarrow> github_current_row \<Rightarrow> github_snapshot_row option" where
  "stored_snapshot d c =
     List.find (\<lambda>s. gs_repository s = gc_repository c \<and> gs_object_kind s = gc_object_kind c \<and>
       gs_object_number s = gc_object_number c \<and> gs_payload_sha256 s = gc_payload_sha256 c)
       (github_snapshots d)"

text \<open>The join of \<open>github_current\<close> and \<open>github_snapshots\<close> every reader uses.\<close>

definition source_join ::
  "db \<Rightarrow> string \<Rightarrow> string \<Rightarrow> int \<Rightarrow> (github_current_row \<times> github_snapshot_row) option" where
  "source_join d repository kind number =
     (case current_source d repository kind number of
        None \<Rightarrow> None
      | Some c \<Rightarrow> (case stored_snapshot d c of None \<Rightarrow> None | Some s \<Rightarrow> Some (c, s)))"

definition reserves_capacity :: "item_row \<Rightarrow> bool" where
  "reserves_capacity r = (it_allocation_class r = ''ACTIVE'' \<or> it_allocation_class r = ''RETAINED'')"

definition reserved_items :: "db \<Rightarrow> string \<Rightarrow> item_row list" where
  "reserved_items d repository =
     filter (\<lambda>r. it_repository r = repository \<and> reserves_capacity r) (coordination_items d)"

definition occupied_units :: "(item_row \<Rightarrow> int) \<Rightarrow> db \<Rightarrow> string \<Rightarrow> int" where
  "occupied_units units d repository = sum_list (map units (reserved_items d repository))"

lemma item_of_SomeD: "item_of d repo n = Some r \<Longrightarrow>
   r \<in> set (coordination_items d) \<and> it_repository r = repo \<and> it_issue_number r = n"
  by (auto simp: item_of_def dest: find_SomeD)

lemma source_join_cong:
  assumes "github_current d = github_current e" and "github_snapshots d = github_snapshots e"
  shows "source_join d = source_join e"
proof -
  have "stored_snapshot d = stored_snapshot e" using assms by (simp add: fun_eq_iff stored_snapshot_def)
  with assms(1) show ?thesis by (intro ext) (simp only: source_join_def current_source_def)
qed

end
