(* ===== verification/Graph_Plan.thy ===== *)
theory Graph_Plan
  imports Delivery_Policy Database
begin

section \<open>Graph plans: validation of the proposed portfolio graph\<close>

text \<open>
  \<open>_validate_plan\<close>, \<open>_scope_details\<close> and \<open>graph_payload\<close> of portfolio_graph.py. A plan is an
  untrusted JSON object; the validator either raises the first error of the source's checks or
  accepts, and then the decoded plan (\<open>graph_plan\<close>) is what the later code reads out of the
  same dictionary. A membership test on a list or a dictionary hashes it and raises
  \<open>TypeError\<close>, as in Python.
\<close>

definition ROLES :: "string list" where
  "ROLES = [''DELIVERY'', ''SERIAL_GATE'', ''CONTROL'', ''MONITOR'', ''TRACKER'', ''EPIC'']"

definition ROOT_KINDS :: "string list" where
  "ROOT_KINDS = [''NORMAL'', ''INTENTIONAL'', ''STANDALONE'']"

definition RELATION_KINDS :: "string list" where
  "RELATION_KINDS = [''HARD_BLOCK'', ''ORDER_AFTER'', ''COLLISION'']"

definition NODE_KEY :: "string \<Rightarrow> bool" where
  "NODE_KEY s = (1 \<le> length s \<and> length s \<le> 160 \<and>
     list_all (\<lambda>c. is_repo_char c \<or> c = CHR '':'' \<or> c = CHR ''/'') s)"

record plan_node =
  pn_node_key :: string
  pn_issue_number :: int
  pn_role :: string
  pn_root_kind :: string
  pn_root_reason :: "string option"
  pn_lane_key :: string
  pn_lane_order :: int
  pn_dispatchable :: bool
  pn_priority_rank :: int
  pn_estimate_units :: int
  pn_development_units :: int
  pn_shared_units :: int
  pn_sre_units :: int
  pn_source_payload_sha256 :: string
  pn_ready_at :: string

record plan_relation =
  pr_left_node_key :: string
  pr_right_node_key :: string
  pr_relation_kind :: string
  pr_reason :: string
  pr_source_payload_sha256 :: string

record plan_exclusion =
  px_issue_number :: int
  px_reason :: string
  px_source_payload_sha256 :: string

datatype graph_scope = MilestoneScope "(string \<times> int) list" | IssueSetScope "int list"

record graph_plan =
  pl_repository :: string
  pl_accepted_main_sha :: string
  pl_expected_current_version :: int
  pl_scope :: graph_scope
  pl_exclusions :: "plan_exclusion list"
  pl_nodes :: "plan_node list"
  pl_relations :: "plan_relation list"
  pl_source :: pydict

fun is_issue_set :: "graph_scope \<Rightarrow> bool" where
  "is_issue_set (IssueSetScope _) = True" | "is_issue_set (MilestoneScope _) = False"

fun scope_milestones :: "graph_scope \<Rightarrow> (string \<times> int) list" where
  "scope_milestones (MilestoneScope ms) = ms" | "scope_milestones (IssueSetScope _) = []"

fun scope_issue_numbers :: "graph_scope \<Rightarrow> int list" where
  "scope_issue_numbers (IssueSetScope ns) = ns" | "scope_issue_numbers (MilestoneScope _) = []"

definition validate_repository :: "pyval \<Rightarrow> unit res" where
  "validate_repository repository =
     guarded [(\<not> is_str repository, TypeError),
              (\<not> REPOSITORY (str_of repository), graph_error ''GRAPH_REPOSITORY_INVALID'')] (Inr ())"

subsection \<open>Scope\<close>

definition add_milestone :: "pyval \<Rightarrow> (string \<times> int) list \<Rightarrow> (string \<times> int) list res" where
  "add_milestone m seen =
     (let d = dict_of m; title = py_get d ''title''; rank = py_get d ''rank'' in
      guarded [(\<not> is_dict m \<or> \<not> keys_are d [''title'', ''rank''] \<or> \<not> nonempty_str title \<or>
                \<not> is_int rank \<or> int_of rank < 0 \<or>
                str_of title \<in> set (map fst seen) \<or> int_of rank \<in> set (map snd seen),
                graph_error ''GRAPH_SCOPE_INVALID'')]
        (Inr (seen @ [(str_of title, int_of rank)])))"

definition issue_set_invalid :: "pyval \<Rightarrow> bool" where
  "issue_set_invalid scope =
     (let d = dict_of scope; numbers = py_get d ''issue_numbers'' in
      \<not> is_dict scope \<or> \<not> keys_are d [''kind'', ''issue_numbers''] \<or>
      \<not> py_eq (py_get d ''kind'') (PStr ''ISSUE_SET'') \<or> \<not> is_list numbers \<or> list_of numbers = [] \<or>
      (\<exists>n \<in> set (list_of numbers). \<not> is_int n \<or> int_of n \<le> 0) \<or>
      \<not> distinct (map int_of (list_of numbers)) \<or> \<not> sorted (map int_of (list_of numbers)))"

definition scope_details :: "pydict \<Rightarrow> graph_scope res" where
  "scope_details plan =
     (if has_key plan ''scope_milestones'' then
        let ms = py_get plan ''scope_milestones'' in
        guarded [(\<not> is_list ms \<or> list_of ms = [], graph_error ''GRAPH_SCOPE_INVALID'')]
          (bind_res (fold_res add_milestone (list_of ms) []) (\<lambda>r. Inr (MilestoneScope r)))
      else
        let scope = py_get plan ''scope'' in
        guarded [(\<not> py_eq (py_get plan ''repository'') (PStr HARNESS_REPOSITORY),
                    graph_error ''GRAPH_ISSUE_SET_REPOSITORY_FORBIDDEN''),
                 (issue_set_invalid scope, graph_error ''GRAPH_SCOPE_INVALID'')]
          (Inr (IssueSetScope (map int_of (list_of (py_get (dict_of scope) ''issue_numbers''))))))"

definition issue_set_scope_numbers :: "string \<Rightarrow> pyval \<Rightarrow> int list res" where
  "issue_set_scope_numbers repository scope =
     bind_res (scope_details [(''repository'', PStr repository), (''scope'', scope)])
       (\<lambda>s. guarded [(\<not> is_issue_set s, graph_error ''GRAPH_SCOPE_INVALID'')]
          (Inr (sort (scope_issue_numbers s))))"

definition graph_payload :: "pydict \<Rightarrow> pyval" where
  "graph_payload plan =
     (let scope_key = (if has_key plan ''scope_milestones'' then ''scope_milestones'' else ''scope'');
          payload = map (\<lambda>k. (k, py_get plan k))
            [''repository'', scope_key, ''excluded_issues'', ''nodes'', ''relations'']
      in PDict (if scope_key = ''scope''
                then payload @ [(''accepted_main_sha'', py_get plan ''accepted_main_sha'')]
                else payload))"

subsection \<open>Exclusions\<close>

definition decode_exclusion :: "pyval \<Rightarrow> plan_exclusion" where
  "decode_exclusion x =
     (let d = dict_of x in
      \<lparr>px_issue_number = int_of (py_get d ''issue_number''),
       px_reason = str_of (py_get d ''reason''),
       px_source_payload_sha256 = str_of (py_get d ''source_payload_sha256'')\<rparr>)"

definition add_exclusion :: "bool \<Rightarrow> pyval \<Rightarrow> plan_exclusion list \<Rightarrow> plan_exclusion list res" where
  "add_exclusion issue_set x seen =
     (let d = dict_of x; n = py_get d ''issue_number'' in
      guarded [(\<not> is_dict x \<or>
                \<not> keys_are d (if issue_set then [''issue_number'', ''reason'', ''source_payload_sha256'']
                               else [''issue_number'', ''reason'']) \<or>
                \<not> is_int n \<or> int_of n \<le> 0 \<or> \<not> nonempty_str (py_get d ''reason'') \<or>
                int_of n \<in> set (map px_issue_number seen), graph_error ''GRAPH_EXCLUSION_INVALID''),
               (issue_set \<and> \<not> sha_str (py_get d ''source_payload_sha256''),
                graph_error ''GRAPH_EXCLUSION_INVALID'')]
        (Inr (seen @ [decode_exclusion x])))"

subsection \<open>Nodes\<close>

definition REQUIRED_NODE_KEYS :: "string list" where
  "REQUIRED_NODE_KEYS = [''node_key'', ''issue_number'', ''role'', ''root_kind'', ''root_reason'',
     ''lane_key'', ''lane_order'', ''dispatchable'', ''priority_rank'', ''estimate_units'',
     ''development_units'', ''shared_units'', ''sre_units'', ''source_payload_sha256'', ''ready_at'']"

definition decode_node :: "pyval \<Rightarrow> plan_node" where
  "decode_node x =
     (let d = dict_of x in
      \<lparr>pn_node_key = str_of (py_get d ''node_key''),
       pn_issue_number = int_of (py_get d ''issue_number''),
       pn_role = str_of (py_get d ''role''),
       pn_root_kind = str_of (py_get d ''root_kind''),
       pn_root_reason = str_opt_of (py_get d ''root_reason''),
       pn_lane_key = str_of (py_get d ''lane_key''),
       pn_lane_order = int_of (py_get d ''lane_order''),
       pn_dispatchable = bool_of (py_get d ''dispatchable''),
       pn_priority_rank = int_of (py_get d ''priority_rank''),
       pn_estimate_units = int_of (py_get d ''estimate_units''),
       pn_development_units = int_of (py_get d ''development_units''),
       pn_shared_units = int_of (py_get d ''shared_units''),
       pn_sre_units = int_of (py_get d ''sre_units''),
       pn_source_payload_sha256 = str_of (py_get d ''source_payload_sha256''),
       pn_ready_at = str_of (py_get d ''ready_at'')\<rparr>)"

definition member_of :: "pyval \<Rightarrow> string list \<Rightarrow> bool" where
  "member_of v names = (is_str v \<and> str_of v \<in> set names)"

definition nat_field_invalid :: "pydict \<Rightarrow> string \<Rightarrow> bool" where
  "nat_field_invalid d k = (\<not> is_int (py_get d k) \<or> int_of (py_get d k) < 0)"

definition pos_field_invalid :: "pydict \<Rightarrow> string \<Rightarrow> bool" where
  "pos_field_invalid d k = (\<not> is_int (py_get d k) \<or> int_of (py_get d k) \<le> 0)"

definition node_guards :: "bool \<Rightarrow> pyval \<Rightarrow> plan_node list \<Rightarrow> (bool \<times> error) list" where
  "node_guards issue_set x seen =
     (let d = dict_of x; invalid = graph_error ''GRAPH_NODE_INVALID''; get = py_get d;
          key = get ''node_key''; root = get ''root_kind'' in
      [(\<not> is_dict x \<or> \<not> keys_are d REQUIRED_NODE_KEYS, invalid),
       (\<not> is_str key \<or> \<not> NODE_KEY (str_of key) \<or> str_of key \<in> set (map pn_node_key seen), invalid),
       (pos_field_invalid d ''issue_number'', invalid),
       (unhashable (get ''role''), TypeError),
       (\<not> member_of (get ''role'') ROLES, invalid),
       (unhashable root, TypeError),
       (\<not> member_of root ROOT_KINDS, invalid),
       (\<not> nonempty_str (get ''lane_key''), invalid),
       (nat_field_invalid d ''lane_order'', invalid),
       (\<not> is_bool (get ''dispatchable''), invalid),
       (pos_field_invalid d ''priority_rank'', invalid),
       (pos_field_invalid d ''estimate_units'', invalid),
       (\<exists>k \<in> set [''development_units'', ''shared_units'', ''sre_units'']. nat_field_invalid d k, invalid),
       (\<not> sha_str (get ''source_payload_sha256''), invalid),
       (\<not> nonempty_str (get ''ready_at''), invalid),
       (issue_set \<and> int_of (get ''issue_number'') \<in> set (map pn_issue_number seen),
          graph_error ''GRAPH_NODE_ISSUE_DUPLICATE''),
       (member_of root [''INTENTIONAL'', ''STANDALONE''] \<and> \<not> nonempty_str (get ''root_reason''),
          graph_error ''GRAPH_ROOT_REASON_REQUIRED''),
       (member_of root [''NORMAL''] \<and> get ''root_reason'' \<noteq> PNone, invalid),
       ((str_of (get ''lane_key''), int_of (get ''lane_order''))
          \<in> set (map (\<lambda>n. (pn_lane_key n, pn_lane_order n)) seen),
          graph_error ''GRAPH_LANE_POSITION_DUPLICATE'')])"

definition add_node :: "bool \<Rightarrow> pyval \<Rightarrow> plan_node list \<Rightarrow> plan_node list res" where
  "add_node issue_set x seen = guarded (node_guards issue_set x seen) (Inr (seen @ [decode_node x]))"

subsection \<open>Relations\<close>

definition decode_relation :: "pyval \<Rightarrow> plan_relation" where
  "decode_relation x =
     (let d = dict_of x in
      \<lparr>pr_left_node_key = str_of (py_get d ''left_node_key''),
       pr_right_node_key = str_of (py_get d ''right_node_key''),
       pr_relation_kind = str_of (py_get d ''relation_kind''),
       pr_reason = str_of (py_get d ''reason''),
       pr_source_payload_sha256 = str_of (py_get d ''source_payload_sha256'')\<rparr>)"

definition relation_key :: "plan_relation \<Rightarrow> string \<times> string \<times> string" where
  "relation_key r = (pr_left_node_key r, pr_right_node_key r, pr_relation_kind r)"

definition relation_guards :: "string list \<Rightarrow> pyval \<Rightarrow> plan_relation list \<Rightarrow> (bool \<times> error) list" where
  "relation_guards node_keys x seen =
     (let d = dict_of x; invalid = graph_error ''GRAPH_RELATION_INVALID'';
          left = py_get d ''left_node_key''; right = py_get d ''right_node_key'';
          kind = py_get d ''relation_kind'' in
      [(\<not> is_dict x \<or> \<not> keys_are d [''left_node_key'', ''right_node_key'', ''relation_kind'',
          ''reason'', ''source_payload_sha256''], invalid),
       (unhashable left, TypeError),
       (\<not> member_of left node_keys, invalid),
       (unhashable right, TypeError),
       (\<not> member_of right node_keys, invalid),
       (left = right, invalid),
       (unhashable kind, TypeError),
       (\<not> member_of kind RELATION_KINDS, invalid),
       (\<not> nonempty_str (py_get d ''reason''), invalid),
       (\<not> sha_str (py_get d ''source_payload_sha256''), invalid),
       (str_of kind = ''COLLISION'' \<and> str_of left > str_of right,
          graph_error ''GRAPH_COLLISION_NOT_CANONICAL''),
       ((str_of left, str_of right, str_of kind) \<in> set (map relation_key seen),
          graph_error ''GRAPH_RELATION_DUPLICATE'')])"

definition add_relation :: "string list \<Rightarrow> pyval \<Rightarrow> plan_relation list \<Rightarrow> plan_relation list res" where
  "add_relation node_keys x seen =
     guarded (relation_guards node_keys x seen) (Inr (seen @ [decode_relation x]))"

subsection \<open>The plan\<close>

definition PLAN_COMMON_KEYS :: "string list" where
  "PLAN_COMMON_KEYS = [''repository'', ''accepted_main_sha'', ''expected_current_version'',
     ''excluded_issues'', ''nodes'', ''relations'']"

definition validate_plan :: "pydict \<Rightarrow> graph_plan res" where
  "validate_plan plan =
     guarded [(\<not> keys_are plan (PLAN_COMMON_KEYS @ [''scope_milestones'']) \<and>
               \<not> keys_are plan (PLAN_COMMON_KEYS @ [''scope'']), graph_error ''GRAPH_PLAN_INVALID'')]
     (bind_res (validate_repository (py_get plan ''repository'')) (\<lambda>_.
      guarded [(\<not> is_str (py_get plan ''accepted_main_sha'') \<or>
                \<not> GIT_SHA (str_of (py_get plan ''accepted_main_sha'')), graph_error ''GRAPH_MAIN_INVALID''),
               (nat_field_invalid plan ''expected_current_version'', graph_error ''GRAPH_PLAN_INVALID'')]
      (bind_res (scope_details plan) (\<lambda>scope.
       guarded [(\<not> is_list (py_get plan ''excluded_issues''), graph_error ''GRAPH_EXCLUSION_INVALID'')]
       (bind_res (fold_res (add_exclusion (is_issue_set scope)) (list_of (py_get plan ''excluded_issues'')) [])
         (\<lambda>exclusions.
        guarded [(\<not> is_list (py_get plan ''nodes'') \<or> list_of (py_get plan ''nodes'') = [],
                  graph_error ''GRAPH_NODE_INVALID'')]
        (bind_res (fold_res (add_node (is_issue_set scope)) (list_of (py_get plan ''nodes'')) [])
          (\<lambda>nodes.
         guarded [(\<not> is_list (py_get plan ''relations''), graph_error ''GRAPH_RELATION_INVALID'')]
         (bind_res (fold_res (add_relation (map pn_node_key nodes)) (list_of (py_get plan ''relations'')) [])
           (\<lambda>relations.
          let represented = set (map pn_issue_number nodes); excluded = set (map px_issue_number exclusions) in
          guarded [(is_issue_set scope \<and> represented \<inter> excluded \<noteq> {}, graph_error ''GRAPH_SCOPE_CONFLICT''),
                   (is_issue_set scope \<and> represented \<union> excluded \<noteq> set (scope_issue_numbers scope),
                    graph_error ''GRAPH_SCOPE_INCOMPLETE'')]
          (Inr \<lparr>pl_repository = str_of (py_get plan ''repository''),
                pl_accepted_main_sha = str_of (py_get plan ''accepted_main_sha''),
                pl_expected_current_version = int_of (py_get plan ''expected_current_version''),
                pl_scope = scope, pl_exclusions = exclusions, pl_nodes = nodes,
                pl_relations = relations, pl_source = plan\<rparr>)))))))))))"

subsection \<open>What validation guarantees\<close>

definition node_ok :: "plan_node \<Rightarrow> bool" where
  "node_ok n \<longleftrightarrow> NODE_KEY (pn_node_key n) \<and> 0 < pn_issue_number n \<and>
     pn_role n \<in> set ROLES \<and> pn_root_kind n \<in> set ROOT_KINDS \<and>
     (pn_root_kind n = ''NORMAL'' \<longleftrightarrow> pn_root_reason n = None) \<and>
     pn_lane_key n \<noteq> [] \<and> 0 \<le> pn_lane_order n \<and> 0 < pn_priority_rank n \<and> 0 < pn_estimate_units n \<and>
     0 \<le> pn_development_units n \<and> 0 \<le> pn_shared_units n \<and> 0 \<le> pn_sre_units n \<and>
     SHA256 (pn_source_payload_sha256 n) \<and> pn_ready_at n \<noteq> []"

definition nodes_ok :: "bool \<Rightarrow> plan_node list \<Rightarrow> bool" where
  "nodes_ok issue_set ns \<longleftrightarrow> distinct (map pn_node_key ns) \<and>
     distinct (map (\<lambda>n. (pn_lane_key n, pn_lane_order n)) ns) \<and>
     (issue_set \<longrightarrow> distinct (map pn_issue_number ns)) \<and> (\<forall>n \<in> set ns. node_ok n)"

definition relation_ok :: "string list \<Rightarrow> plan_relation \<Rightarrow> bool" where
  "relation_ok keys r \<longleftrightarrow> pr_left_node_key r \<in> set keys \<and> pr_right_node_key r \<in> set keys \<and>
     pr_left_node_key r \<noteq> pr_right_node_key r \<and> pr_relation_kind r \<in> set RELATION_KINDS \<and>
     (pr_relation_kind r = ''COLLISION'' \<longrightarrow> pr_left_node_key r < pr_right_node_key r) \<and>
     SHA256 (pr_source_payload_sha256 r)"

definition relations_ok :: "string list \<Rightarrow> plan_relation list \<Rightarrow> bool" where
  "relations_ok keys rs \<longleftrightarrow> distinct (map relation_key rs) \<and> (\<forall>r \<in> set rs. relation_ok keys r)"

definition exclusions_ok :: "plan_exclusion list \<Rightarrow> bool" where
  "exclusions_ok xs \<longleftrightarrow> distinct (map px_issue_number xs) \<and> (\<forall>x \<in> set xs. 0 < px_issue_number x)"

definition plan_wf :: "graph_plan \<Rightarrow> bool" where
  "plan_wf p \<longleftrightarrow> REPOSITORY (pl_repository p) \<and> GIT_SHA (pl_accepted_main_sha p) \<and>
     0 \<le> pl_expected_current_version p \<and> pl_nodes p \<noteq> [] \<and>
     nodes_ok (is_issue_set (pl_scope p)) (pl_nodes p) \<and>
     relations_ok (map pn_node_key (pl_nodes p)) (pl_relations p) \<and> exclusions_ok (pl_exclusions p) \<and>
     (is_issue_set (pl_scope p) \<longrightarrow> pl_repository p = HARNESS_REPOSITORY \<and>
        set (map pn_issue_number (pl_nodes p)) \<inter> set (map px_issue_number (pl_exclusions p)) = {} \<and>
        set (map pn_issue_number (pl_nodes p)) \<union> set (map px_issue_number (pl_exclusions p))
          = set (scope_issue_numbers (pl_scope p)))"

lemma node_guards_False:
  assumes "\<forall>g \<in> set (node_guards issue_set x seen). \<not> fst g"
  shows "node_ok (decode_node x)"
    and "pn_node_key (decode_node x) \<notin> set (map pn_node_key seen)"
    and "(pn_lane_key (decode_node x), pn_lane_order (decode_node x))
       \<notin> set (map (\<lambda>n. (pn_lane_key n, pn_lane_order n)) seen)"
    and "issue_set \<longrightarrow> pn_issue_number (decode_node x) \<notin> set (map pn_issue_number seen)"
proof -
  note g = assms [unfolded node_guards_def Let_def, simplified]
  show "pn_node_key (decode_node x) \<notin> set (map pn_node_key seen)"
    "(pn_lane_key (decode_node x), pn_lane_order (decode_node x))
       \<notin> set (map (\<lambda>n. (pn_lane_key n, pn_lane_order n)) seen)"
    "issue_set \<longrightarrow> pn_issue_number (decode_node x) \<notin> set (map pn_issue_number seen)"
    using g by (simp_all add: decode_node_def Let_def)
  have "str_of (py_get (dict_of x) ''root_kind'') \<in> set ROOT_KINDS"
    using g by (simp add: member_of_def)
  then have "(str_of (py_get (dict_of x) ''root_kind'') = ''NORMAL'') =
     (str_opt_of (py_get (dict_of x) ''root_reason'') = None)"
    using g by (auto simp: ROOT_KINDS_def member_of_def nonempty_str_def is_str_cases)
  then show "node_ok (decode_node x)"
    using g by (simp add: node_ok_def decode_node_def Let_def member_of_def
        nat_field_invalid_def pos_field_invalid_def sha_str_def nonempty_str_def)
qed

lemma add_node_Inr:
  assumes "add_node issue_set x seen = Inr seen'" and "nodes_ok issue_set seen"
  shows "nodes_ok issue_set seen'"
proof -
  from assms(1) have eq: "seen' = seen @ [decode_node x]"
    and g: "\<forall>g \<in> set (node_guards issue_set x seen). \<not> fst g"
    by (auto simp: add_node_def guard_simps)
  from node_guards_False [OF g] assms(2) eq show ?thesis by (simp add: nodes_ok_def)
qed

lemma add_relation_Inr:
  assumes "add_relation keys x seen = Inr seen'" and "relations_ok keys seen"
  shows "relations_ok keys seen'"
proof -
  from assms(1) have eq: "seen' = seen @ [decode_relation x]"
    and g: "\<forall>g \<in> set (relation_guards keys x seen). \<not> fst g"
    by (auto simp: add_relation_def guard_simps)
  have "relation_ok keys (decode_relation x)"
    using g by (auto simp: relation_guards_def Let_def relation_ok_def decode_relation_def
        member_of_def sha_str_def is_str_cases)
  moreover have "relation_key (decode_relation x) \<notin> set (map relation_key seen)"
    using g by (auto simp: relation_guards_def Let_def decode_relation_def relation_key_def)
  ultimately show ?thesis using assms(2) eq by (simp add: relations_ok_def)
qed

lemma add_exclusion_Inr:
  "add_exclusion issue_set x seen = Inr seen' \<Longrightarrow> exclusions_ok seen \<Longrightarrow> exclusions_ok seen'"
  by (auto simp: add_exclusion_def Let_def guard_simps exclusions_ok_def decode_exclusion_def
      split: if_splits)

lemma scope_details_issue_set:
  "scope_details plan = Inr scope \<Longrightarrow> is_issue_set scope \<Longrightarrow>
   py_get plan ''repository'' = PStr HARNESS_REPOSITORY"
  by (auto simp: scope_details_def Let_def guard_simps split: if_splits)

lemma validate_plan_Inr:
  assumes "validate_plan plan = Inr p"
  obtains scope exclusions nodes relations where
    "scope_details plan = Inr scope"
    "fold_res (add_exclusion (is_issue_set scope)) (list_of (py_get plan ''excluded_issues'')) [] = Inr exclusions"
    "fold_res (add_node (is_issue_set scope)) (list_of (py_get plan ''nodes'')) [] = Inr nodes"
    "fold_res (add_relation (map pn_node_key nodes)) (list_of (py_get plan ''relations'')) [] = Inr relations"
    "p = \<lparr>pl_repository = str_of (py_get plan ''repository''),
          pl_accepted_main_sha = str_of (py_get plan ''accepted_main_sha''),
          pl_expected_current_version = int_of (py_get plan ''expected_current_version''),
          pl_scope = scope, pl_exclusions = exclusions, pl_nodes = nodes,
          pl_relations = relations, pl_source = plan\<rparr>"
    "REPOSITORY (str_of (py_get plan ''repository''))"
    "GIT_SHA (str_of (py_get plan ''accepted_main_sha''))"
    "0 \<le> int_of (py_get plan ''expected_current_version'')"
    "list_of (py_get plan ''nodes'') \<noteq> []"
    "is_issue_set scope \<longrightarrow>
       set (map pn_issue_number nodes) \<inter> set (map px_issue_number exclusions) = {} \<and>
       set (map pn_issue_number nodes) \<union> set (map px_issue_number exclusions)
         = set (scope_issue_numbers scope)"
  using assms
  by (auto simp: validate_plan_def guard_simps validate_repository_def nat_field_invalid_def Let_def)

lemma validate_plan_decodes:
  assumes "validate_plan plan = Inr p"
  shows "pl_nodes p = map decode_node (list_of (py_get plan ''nodes''))"
    and "pl_relations p = map decode_relation (list_of (py_get plan ''relations''))"
    and "pl_exclusions p = map decode_exclusion (list_of (py_get plan ''excluded_issues''))"
    and "pl_source p = plan"
proof -
  from validate_plan_Inr [OF assms] obtain scope exclusions nodes relations where
    x: "fold_res (add_exclusion (is_issue_set scope)) (list_of (py_get plan ''excluded_issues'')) [] = Inr exclusions"
    and n: "fold_res (add_node (is_issue_set scope)) (list_of (py_get plan ''nodes'')) [] = Inr nodes"
    and r: "fold_res (add_relation (map pn_node_key nodes)) (list_of (py_get plan ''relations'')) [] = Inr relations"
    and p: "pl_exclusions p = exclusions" "pl_nodes p = nodes" "pl_relations p = relations" "pl_source p = plan"
    by (metis graph_plan.select_convs(5-8))
  show "pl_nodes p = map decode_node (list_of (py_get plan ''nodes''))"
    using fold_res_snoc [OF n, of decode_node] p by (auto simp: add_node_def guard_simps)
  show "pl_relations p = map decode_relation (list_of (py_get plan ''relations''))"
    using fold_res_snoc [OF r, of decode_relation] p by (auto simp: add_relation_def guard_simps)
  show "pl_exclusions p = map decode_exclusion (list_of (py_get plan ''excluded_issues''))"
    using fold_res_snoc [OF x, of decode_exclusion] p
    by (auto simp: add_exclusion_def guard_simps Let_def)
  show "pl_source p = plan" by (rule p(4))
qed

lemma validate_plan_accepts_wf:
  assumes "validate_plan plan = Inr p"
  shows "plan_wf p"
proof -
  from validate_plan_Inr [OF assms] obtain scope exclusions nodes relations where
    s: "scope_details plan = Inr scope"
    and x: "fold_res (add_exclusion (is_issue_set scope)) (list_of (py_get plan ''excluded_issues'')) [] = Inr exclusions"
    and n: "fold_res (add_node (is_issue_set scope)) (list_of (py_get plan ''nodes'')) [] = Inr nodes"
    and r: "fold_res (add_relation (map pn_node_key nodes)) (list_of (py_get plan ''relations'')) [] = Inr relations"
    and p: "p = \<lparr>pl_repository = str_of (py_get plan ''repository''),
          pl_accepted_main_sha = str_of (py_get plan ''accepted_main_sha''),
          pl_expected_current_version = int_of (py_get plan ''expected_current_version''),
          pl_scope = scope, pl_exclusions = exclusions, pl_nodes = nodes,
          pl_relations = relations, pl_source = plan\<rparr>"
    and rest: "REPOSITORY (str_of (py_get plan ''repository''))"
      "GIT_SHA (str_of (py_get plan ''accepted_main_sha''))"
      "0 \<le> int_of (py_get plan ''expected_current_version'')"
      "list_of (py_get plan ''nodes'') \<noteq> []"
      "is_issue_set scope \<longrightarrow>
         set (map pn_issue_number nodes) \<inter> set (map px_issue_number exclusions) = {} \<and>
         set (map pn_issue_number nodes) \<union> set (map px_issue_number exclusions)
           = set (scope_issue_numbers scope)"
    by metis
  have "nodes_ok (is_issue_set scope) nodes"
    using fold_res_invariant [OF n, of "nodes_ok (is_issue_set scope)"] add_node_Inr
    by (auto simp: nodes_ok_def)
  moreover have "relations_ok (map pn_node_key nodes) relations"
    using fold_res_invariant [OF r, of "relations_ok (map pn_node_key nodes)"] add_relation_Inr
    by (auto simp: relations_ok_def)
  moreover have "exclusions_ok exclusions"
    using fold_res_invariant [OF x, of exclusions_ok] add_exclusion_Inr
    by (auto simp: exclusions_ok_def)
  moreover have "nodes \<noteq> []"
    using validate_plan_decodes(1) [OF assms] rest(4) p by auto
  moreover have "is_issue_set scope \<longrightarrow> str_of (py_get plan ''repository'') = HARNESS_REPOSITORY"
    using scope_details_issue_set [OF s] by auto
  ultimately show ?thesis using p rest by (simp add: plan_wf_def)
qed

text \<open>
  C33: a plan the validator accepts is well formed: node keys, lane positions and relation
  triples are unique, every relation joins two different nodes of the plan, collisions are
  stored in canonical direction, units and ranks are in range, and an issue-set plan belongs to
  the harness repository and splits its scope exactly into nodes and exclusions.
\<close>

theorem validate_plan_wf:
  assumes "validate_plan plan = Inr p"
  shows "plan_wf p"
  by (rule validate_plan_accepts_wf [OF assms])

subsection \<open>A concrete plan\<close>

definition example_sha :: string where
  "example_sha = replicate 64 (CHR ''a'')"

definition example_node :: "string \<Rightarrow> int \<Rightarrow> string \<Rightarrow> int \<Rightarrow> pyval" where
  "example_node key issue root order = PDict [(''node_key'', PStr key), (''issue_number'', PInt issue),
     (''role'', PStr ''DELIVERY''), (''root_kind'', PStr root),
     (''root_reason'', if root = ''NORMAL'' then PNone else PStr ''entry point''),
     (''lane_key'', PStr ''main''), (''lane_order'', PInt order), (''dispatchable'', PBool True),
     (''priority_rank'', PInt (order + 1)), (''estimate_units'', PInt 2), (''development_units'', PInt 1),
     (''shared_units'', PInt 0), (''sre_units'', PInt 0), (''source_payload_sha256'', PStr example_sha),
     (''ready_at'', PStr ''2026-01-01T00:00:00Z'')]"

definition example_plan :: pydict where
  "example_plan = [(''repository'', PStr HARNESS_REPOSITORY),
     (''accepted_main_sha'', PStr (replicate 40 (CHR ''b''))), (''expected_current_version'', PInt 0),
     (''excluded_issues'', PList []),
     (''nodes'', PList [example_node ''issue:1'' 1 ''INTENTIONAL'' 0, example_node ''issue:2'' 2 ''NORMAL'' 1]),
     (''relations'', PList [PDict [(''left_node_key'', PStr ''issue:1''), (''right_node_key'', PStr ''issue:2''),
        (''relation_kind'', PStr ''HARD_BLOCK''), (''reason'', PStr ''builds on it''),
        (''source_payload_sha256'', PStr example_sha)]]),
     (''scope'', PDict [(''kind'', PStr ''ISSUE_SET''), (''issue_numbers'', PList [PInt 1, PInt 2])])]"

lemma example_plan_checked:
  "case validate_plan example_plan of Inr p \<Rightarrow> length (pl_nodes p) = 2 | Inl _ \<Rightarrow> False"
  by code_simp

lemma example_plan_accepted: "\<exists>p. validate_plan example_plan = Inr p \<and> length (pl_nodes p) = 2"
  using example_plan_checked by (auto split: sum.splits)

theorem validate_plan_wf_witness:
  "\<exists>p. validate_plan example_plan = Inr p \<and> length (pl_nodes p) = 2 \<and> plan_wf p"
  using example_plan_accepted validate_plan_wf [of example_plan] by blast

end
