(* ===== verification/Dirty_Events.thy ===== *)
theory Dirty_Events
  imports Database
begin

section \<open>Convergence wake-ups: the dirty-event queue\<close>

text \<open>
  \<open>enqueue_convergence_dirty_event\<close> of portfolio_graph.py: the durable wake every state change
  of the portfolio leaves for the convergence consumer. The key of an event is the digest of its
  payload, so that a replayed request finds the row of the first one. \<open>INSERT OR IGNORE\<close> skips
  the row when the key is taken, and also when a \<open>CHECK\<close> of the table fails.

  The contract such a queue promises is the locale \<open>idempotent_enqueue\<close>, which the GitHub
  outbox also provides; \<open>admits\<close> is what a queue asks of the state before it looks at the key.
\<close>

subsection \<open>The contract of an idempotent queue\<close>

locale idempotent_enqueue =
  fixes enqueue :: "'db \<Rightarrow> 'req \<Rightarrow> ('db \<times> int) res"
    and key :: "'req \<Rightarrow> string"
    and lookup :: "'db \<Rightarrow> string \<Rightarrow> 'row option"
    and row_id :: "'row \<Rightarrow> int"
    and matches :: "'req \<Rightarrow> 'row \<Rightarrow> bool"
    and admits :: "'db \<Rightarrow> 'req \<Rightarrow> bool"
    and inv :: "'db \<Rightarrow> bool"
  assumes enqueue_inv: "inv d \<Longrightarrow> enqueue d r = Inr (d', i) \<Longrightarrow> inv d'"
    and enqueue_lookup: "inv d \<Longrightarrow> enqueue d r = Inr (d', i) \<Longrightarrow>
      \<exists>row. lookup d' (key r) = Some row \<and> row_id row = i \<and> matches r row"
    and enqueue_keeps: "inv d \<Longrightarrow> enqueue d r = Inr (d', i) \<Longrightarrow> lookup d k = Some row \<Longrightarrow>
      lookup d' k = Some row"
    and enqueue_known: "inv d \<Longrightarrow> admits d r \<Longrightarrow> lookup d (key r) = Some row \<Longrightarrow> matches r row \<Longrightarrow>
      enqueue d r = Inr (d, row_id row)"
    and lookup_inj: "inv d \<Longrightarrow> lookup d k = Some row \<Longrightarrow> lookup d k' = Some row' \<Longrightarrow>
      row_id row = row_id row' \<Longrightarrow> k = k'"
begin

definition enqueue_db :: "'req \<Rightarrow> 'db \<Rightarrow> 'db res" where
  "enqueue_db r d = bind_res (enqueue d r) (\<lambda>x. Inr (fst x))"

lemma enqueue_db_Inr: "enqueue_db r d = Inr d' \<longleftrightarrow> (\<exists>i. enqueue d r = Inr (d', i))"
  by (auto simp: enqueue_db_def guard_simps)

lemma enqueue_all_keeps:
  assumes "inv d" and "fold_res enqueue_db rs d = Inr d'"
  shows "inv d' \<and> (\<forall>k row. lookup d k = Some row \<longrightarrow> lookup d' k = Some row)"
  using assms(2)
proof (rule fold_res_invariant)
  show "inv d \<and> (\<forall>k row. lookup d k = Some row \<longrightarrow> lookup d k = Some row)" using assms(1) by simp
next
  fix r s t
  assume "inv s \<and> (\<forall>k row. lookup d k = Some row \<longrightarrow> lookup s k = Some row)" "enqueue_db r s = Inr t"
  then show "inv t \<and> (\<forall>k row. lookup d k = Some row \<longrightarrow> lookup t k = Some row)"
    using enqueue_inv enqueue_keeps by (auto simp: enqueue_db_Inr)
qed

lemma replay:
  assumes "inv d" and "enqueue d r = Inr (d', i)" and "fold_res enqueue_db rs d' = Inr d''"
    and same: "key r' = key r" "\<And>row. matches r row \<Longrightarrow> matches r' row" and ok: "admits d'' r'"
  shows "enqueue d'' r' = Inr (d'', i)"
proof -
  from enqueue_lookup [OF assms(1,2)] obtain row where
    row: "lookup d' (key r) = Some row" "row_id row = i" "matches r row" by blast
  from enqueue_all_keeps [OF enqueue_inv [OF assms(1,2)] assms(3)] row(1)
  have "inv d''" "lookup d'' (key r') = Some row" using same(1) by auto
  from enqueue_known [OF this(1) ok this(2) same(2) [OF row(3)]] row(2) show ?thesis by simp
qed

lemma distinct_keys_distinct_ids:
  assumes "inv d" and "enqueue d r = Inr (d', i)" and "enqueue d' s = Inr (d'', j)"
    and "key r \<noteq> key s"
  shows "i \<noteq> j"
proof
  assume "i = j"
  have inv': "inv d'" by (rule enqueue_inv [OF assms(1,2)])
  from enqueue_lookup [OF assms(1,2)] enqueue_keeps [OF inv' assms(3)] obtain row where
    "lookup d'' (key r) = Some row" "row_id row = i" by blast
  moreover from enqueue_lookup [OF inv' assms(3)] obtain row' where
    "lookup d'' (key s) = Some row'" "row_id row' = j" by blast
  ultimately show False
    using lookup_inj [OF enqueue_inv [OF inv' assms(3)]] \<open>i = j\<close> assms(4) by metis
qed

end

subsection \<open>Requests and payloads\<close>

record dirty_request =
  dr_repository :: string
  dr_trigger_kind :: string
  dr_issue_number :: int
  dr_item_version :: int
  dr_source_sha256 :: string
  dr_status :: string
  dr_generation :: int
  dr_details :: pydict

text \<open>\<open>{**base, **over}\<close>: the keys of the first keep their place, the second wins.\<close>

definition dict_merge :: "pydict \<Rightarrow> pydict \<Rightarrow> pydict" where
  "dict_merge base over =
     map (\<lambda>kv. (fst kv, case map_of over (fst kv) of None \<Rightarrow> snd kv | Some v \<Rightarrow> v)) base @
     filter (\<lambda>kv. fst kv \<notin> set (map fst base)) over"

definition dirty_payload :: "dirty_request \<Rightarrow> pyval" where
  "dirty_payload r = PDict (dict_merge
     [(''trigger_kind'', PStr (dr_trigger_kind r)), (''repository'', PStr (dr_repository r)),
      (''issue_number'', PInt (dr_issue_number r)), (''release_item_version'', PInt (dr_item_version r)),
      (''release_source_sha256'', PStr (dr_source_sha256 r)), (''status'', PStr (dr_status r)),
      (''generation'', PInt (dr_generation r))] (dr_details r))"

definition dirty_event_key :: "dirty_request \<Rightarrow> string" where
  "dirty_event_key r = ''portfolio-dirty:'' @ dr_trigger_kind r @ '':'' @ dr_repository r @ '':'' @
     digest_json (dirty_payload r)"

definition dirty_event_of :: "db \<Rightarrow> string \<Rightarrow> dirty_event_row option" where
  "dirty_event_of d k = List.find (\<lambda>e. de_event_key e = k) (portfolio_dirty_events d)"

definition new_dirty_event :: "db \<Rightarrow> dirty_request \<Rightarrow> string \<Rightarrow> dirty_event_row" where
  "new_dirty_event d r now =
     \<lparr>de_id = next_rowid de_id (portfolio_dirty_events d), de_event_key = dirty_event_key r,
      de_repository = dr_repository r, de_issue_number = dr_issue_number r,
      de_release_item_version = dr_item_version r, de_release_source_sha256 = dr_source_sha256 r,
      de_event_sha256 = digest_json (dirty_payload r), de_payload_json = Some (dirty_payload r),
      de_state = ''PENDING'', de_attempts = 0, de_next_attempt_at = now, de_result_sha256 = None,
      de_result_json = None, de_created_at = now, de_updated_at = now, de_last_error = None\<rparr>"

definition dirty_row_inserted :: "db \<Rightarrow> dirty_request \<Rightarrow> bool" where
  "dirty_row_inserted d r = (dirty_event_of d (dirty_event_key r) = None \<and>
     0 < dr_issue_number r \<and> 0 < dr_item_version r)"

definition same_json_text :: "pyval option \<Rightarrow> pyval \<Rightarrow> bool" where
  "same_json_text stored v =
     (case stored of None \<Rightarrow> False | Some w \<Rightarrow> canonical_json w = canonical_json v)"

definition dirty_matches :: "dirty_request \<Rightarrow> dirty_event_row \<Rightarrow> bool" where
  "dirty_matches r row = (de_event_sha256 row = digest_json (dirty_payload r) \<and>
     same_json_text (de_payload_json row) (dirty_payload r))"

definition append_event :: "string \<Rightarrow> string \<Rightarrow> pyval \<Rightarrow> string \<Rightarrow> db \<Rightarrow> db" where
  "append_event event_type entity_key payload now d =
     d\<lparr>coordination_events := coordination_events d @
        [\<lparr>ev_event_type = event_type, ev_entity_key = entity_key,
          ev_payload_sha256 = digest_json payload, ev_created_at = now\<rparr>]\<rparr>"

definition enqueue_convergence_dirty_event ::
  "db \<Rightarrow> dirty_request \<Rightarrow> string \<Rightarrow> bool \<Rightarrow> (db \<times> int option) res" where
  "enqueue_convergence_dirty_event d r now require_pending =
     (if \<not> table_installed d ''portfolio_dirty_events'' then Inr (d, None)
      else
        let inserted = dirty_row_inserted d r;
            d1 = (if inserted
                  then d\<lparr>portfolio_dirty_events := portfolio_dirty_events d @ [new_dirty_event d r now]\<rparr>
                  else d)
        in require_some (graph_error ''PORTFOLIO_DIRTY_EVENT_CONFLICT'')
             (dirty_event_of d1 (dirty_event_key r)) (\<lambda>row.
           guarded [(\<not> dirty_matches r row, graph_error ''PORTFOLIO_DIRTY_EVENT_CONFLICT''),
                    (require_pending \<and> de_state row \<noteq> ''PENDING'',
                     graph_error ''PORTFOLIO_DIRTY_EVENT_NOT_PENDING'')]
             (Inr (if table_installed d ''coordination_events'' \<and> inserted
                   then append_event ''PORTFOLIO_DIRTY_ENQUEUED'' (dirty_event_key r)
                     (PDict [(''event_id'', PInt (de_id row)),
                             (''event_sha256'', PStr (digest_json (dirty_payload r)))]) now d1
                   else d1, Some (de_id row)))))"

subsection \<open>What the queue keeps\<close>

definition dirty_queue_wf :: "db \<Rightarrow> bool" where
  "dirty_queue_wf d \<longleftrightarrow> table_installed d ''portfolio_dirty_events'' \<and>
     distinct (map de_id (portfolio_dirty_events d)) \<and>
     distinct (map de_event_key (portfolio_dirty_events d))"

lemma new_dirty_event_simps [simp]:
  "de_id (new_dirty_event d r now) = next_rowid de_id (portfolio_dirty_events d)"
  "de_event_key (new_dirty_event d r now) = dirty_event_key r"
  "de_state (new_dirty_event d r now) = ''PENDING''"
  "dirty_matches r (new_dirty_event d r now)"
  by (simp_all add: new_dirty_event_def dirty_matches_def same_json_text_def)

lemma append_event_simps [simp]:
  "portfolio_dirty_events (append_event t k p now d) = portfolio_dirty_events d"
  "sqlite_master (append_event t k p now d) = sqlite_master d"
  "coordination_items (append_event t k p now d) = coordination_items d"
  "github_current (append_event t k p now d) = github_current d"
  "github_snapshots (append_event t k p now d) = github_snapshots d"
  "portfolio_graph_current (append_event t k p now d) = portfolio_graph_current d"
  "portfolio_graph_revisions (append_event t k p now d) = portfolio_graph_revisions d"
  "portfolio_graph_nodes (append_event t k p now d) = portfolio_graph_nodes d"
  "portfolio_graph_relations (append_event t k p now d) = portfolio_graph_relations d"
  "portfolio_scheduler_events (append_event t k p now d) = portfolio_scheduler_events d"
  "coordination_capacity_policies (append_event t k p now d) = coordination_capacity_policies d"
  "coordination_capacity_current (append_event t k p now d) = coordination_capacity_current d"
  "hosted_operations (append_event t k p now d) = hosted_operations d"
  "coordination_terminal_watches (append_event t k p now d) = coordination_terminal_watches d"
  "github_outbox (append_event t k p now d) = github_outbox d"
  "coordination_artifacts (append_event t k p now d) = coordination_artifacts d"
  "in_transaction (append_event t k p now d) = in_transaction d"
  "coordination_pre_push_publications (append_event t k p now d) = coordination_pre_push_publications d"
  "executor_role_endpoints (append_event t k p now d) = executor_role_endpoints d"
  "executor_role_endpoint_current (append_event t k p now d) = executor_role_endpoint_current d"
  "executor_registry_state (append_event t k p now d) = executor_registry_state d"
  "coordination_messages (append_event t k p now d) = coordination_messages d"
  "coordination_admission_source_equivalence (append_event t k p now d) =
     coordination_admission_source_equivalence d"
  "coordination_terminal_closeout_packets (append_event t k p now d) =
     coordination_terminal_closeout_packets d"
  "coordination_terminal_outbox_readbacks (append_event t k p now d) =
     coordination_terminal_outbox_readbacks d"
  "coordination_terminal_outbox_recovery (append_event t k p now d) =
     coordination_terminal_outbox_recovery d"
  "coordination_terminal_outbox_publishers (append_event t k p now d) =
     coordination_terminal_outbox_publishers d"
  by (simp_all add: append_event_def)

lemma dirty_event_of_append_event [simp]:
  "dirty_event_of (append_event t k p now d) = dirty_event_of d"
  by (simp add: dirty_event_of_def fun_eq_iff)

text \<open>The two ways a call on an installed queue succeeds: a new row, or the row of the same key.\<close>

lemma enqueue_dirty_Inr:
  assumes "enqueue_convergence_dirty_event d r now rp = Inr (d', i)"
    and "table_installed d ''portfolio_dirty_events''"
  obtains (inserted) "dirty_row_inserted d r"
      "portfolio_dirty_events d' = portfolio_dirty_events d @ [new_dirty_event d r now]"
      "sqlite_master d' = sqlite_master d" "i = Some (next_rowid de_id (portfolio_dirty_events d))"
    | (known) row where "d' = d" "dirty_event_of d (dirty_event_key r) = Some row"
      "dirty_matches r row" "i = Some (de_id row)" "rp \<longrightarrow> de_state row = ''PENDING''"
proof (cases "dirty_row_inserted d r")
  case True
  then have "dirty_event_of d (dirty_event_key r) = None" by (simp add: dirty_row_inserted_def)
  then have "dirty_event_of (d\<lparr>portfolio_dirty_events := portfolio_dirty_events d @ [new_dirty_event d r now]\<rparr>)
      (dirty_event_key r) = Some (new_dirty_event d r now)"
    by (simp add: dirty_event_of_def find_append)
  with assms True show thesis
    by (intro inserted) (auto simp: enqueue_convergence_dirty_event_def Let_def guard_simps)
next
  case False
  with assms show thesis
    by (auto intro: known simp: enqueue_convergence_dirty_event_def Let_def guard_simps)
qed

lemma enqueue_dirty_present:
  assumes "enqueue_convergence_dirty_event d r now rp = Inr (d', i)"
    and "table_installed d ''portfolio_dirty_events''"
  shows "\<exists>row. dirty_event_of d' (dirty_event_key r) = Some row \<and> dirty_matches r row \<and> i = Some (de_id row)"
  using assms
proof (cases rule: enqueue_dirty_Inr)
  case inserted
  then have "dirty_event_of d' (dirty_event_key r) = Some (new_dirty_event d r now)"
    by (simp add: dirty_event_of_def find_append dirty_row_inserted_def)
  with inserted(4) show ?thesis by simp
qed simp

text \<open>Only the queue and the event log change.\<close>

definition without_wakes :: "db \<Rightarrow> db" where
  "without_wakes d = d\<lparr>portfolio_dirty_events := [], coordination_events := []\<rparr>"

lemma without_wakes_append_event [simp]: "without_wakes (append_event t k p now d) = without_wakes d"
  by (simp add: without_wakes_def append_event_def)

lemma without_wakes_update [simp]:
  "without_wakes (d\<lparr>portfolio_dirty_events := q\<rparr>) = without_wakes d"
  by (simp add: without_wakes_def)

lemma without_wakes_fields:
  assumes "without_wakes d' = without_wakes d"
  shows "sqlite_master d' = sqlite_master d" "in_transaction d' = in_transaction d"
    "github_snapshots d' = github_snapshots d" "github_current d' = github_current d"
    "coordination_items d' = coordination_items d"
    "coordination_capacity_policies d' = coordination_capacity_policies d"
    "coordination_capacity_current d' = coordination_capacity_current d"
    "portfolio_graph_revisions d' = portfolio_graph_revisions d"
    "portfolio_graph_current d' = portfolio_graph_current d"
    "portfolio_graph_nodes d' = portfolio_graph_nodes d"
    "portfolio_graph_relations d' = portfolio_graph_relations d"
    "portfolio_scheduler_events d' = portfolio_scheduler_events d"
    "hosted_operations d' = hosted_operations d"
    "coordination_terminal_watches d' = coordination_terminal_watches d"
    "github_outbox d' = github_outbox d" "coordination_artifacts d' = coordination_artifacts d"
    "coordination_pre_push_publications d' = coordination_pre_push_publications d"
    "executor_role_endpoints d' = executor_role_endpoints d"
    "executor_role_endpoint_current d' = executor_role_endpoint_current d"
    "executor_registry_state d' = executor_registry_state d"
    "coordination_messages d' = coordination_messages d"
    "coordination_admission_source_equivalence d' = coordination_admission_source_equivalence d"
    "coordination_terminal_closeout_packets d' = coordination_terminal_closeout_packets d"
    "coordination_terminal_outbox_readbacks d' = coordination_terminal_outbox_readbacks d"
    "coordination_terminal_outbox_recovery d' = coordination_terminal_outbox_recovery d"
    "coordination_terminal_outbox_publishers d' = coordination_terminal_outbox_publishers d"
    "portfolio_ready_finalizations d' = portfolio_ready_finalizations d"
    "portfolio_readiness_current d' = portfolio_readiness_current d"
    "portfolio_pull_buffer_candidates d' = portfolio_pull_buffer_candidates d"
    "portfolio_pull_buffer_current d' = portfolio_pull_buffer_current d"
  using assms by (cases d; cases d'; simp add: without_wakes_def)+

lemma enqueue_dirty_frame:
  "enqueue_convergence_dirty_event d r now rp = Inr (d', i) \<Longrightarrow> without_wakes d' = without_wakes d"
  by (cases "dirty_row_inserted d r"; cases "table_installed d ''coordination_events''";
      cases "table_installed d ''portfolio_dirty_events''")
    (auto simp: enqueue_convergence_dirty_event_def Let_def guard_simps)

definition enqueue_dirty :: "db \<Rightarrow> dirty_request \<times> string \<Rightarrow> (db \<times> int) res" where
  "enqueue_dirty d rn = bind_res (enqueue_convergence_dirty_event d (fst rn) (snd rn) False)
     (\<lambda>x. Inr (fst x, the (snd x)))"

lemma enqueue_dirty_cases:
  assumes "dirty_queue_wf d" and "enqueue_dirty d rn = Inr (d', i)"
  obtains (inserted) "dirty_row_inserted d (fst rn)"
      "portfolio_dirty_events d' = portfolio_dirty_events d @ [new_dirty_event d (fst rn) (snd rn)]"
      "sqlite_master d' = sqlite_master d" "i = next_rowid de_id (portfolio_dirty_events d)"
    | (known) row where "d' = d" "dirty_event_of d (dirty_event_key (fst rn)) = Some row"
      "dirty_matches (fst rn) row" "i = de_id row"
proof -
  from assms obtain oi where "enqueue_convergence_dirty_event d (fst rn) (snd rn) False = Inr (d', oi)"
    and "i = the oi"
    by (auto simp: enqueue_dirty_def guard_simps)
  moreover from assms have "table_installed d ''portfolio_dirty_events''"
    by (simp add: dirty_queue_wf_def)
  ultimately show thesis
    by (elim enqueue_dirty_Inr) (auto intro: that)
qed

lemma dirty_event_of_SomeD:
  "dirty_event_of d k = Some row \<Longrightarrow> row \<in> set (portfolio_dirty_events d) \<and> de_event_key row = k"
  by (auto simp: dirty_event_of_def dest: find_SomeD)

lemma distinct_map_eqD: "distinct (map f xs) \<Longrightarrow> x \<in> set xs \<Longrightarrow> y \<in> set xs \<Longrightarrow> f x = f y \<Longrightarrow> x = y"
  by (auto simp: distinct_map inj_on_def)

interpretation dirty: idempotent_enqueue enqueue_dirty "\<lambda>rn. dirty_event_key (fst rn)"
  dirty_event_of de_id "\<lambda>rn. dirty_matches (fst rn)" "\<lambda>_ _. True" dirty_queue_wf
proof
  fix d rn d' i
  assume inv: "dirty_queue_wf d" and enq: "enqueue_dirty d rn = Inr (d', i)"
  from inv enq show "dirty_queue_wf d'"
  proof (cases rule: enqueue_dirty_cases)
    case inserted
    have "next_rowid de_id (portfolio_dirty_events d) \<notin> de_id ` set (portfolio_dirty_events d)"
      using next_rowid_fresh [of _ "portfolio_dirty_events d" de_id] by force
    moreover have "dirty_event_key (fst rn) \<notin> de_event_key ` set (portfolio_dirty_events d)"
      using inserted(1) by (auto simp: dirty_row_inserted_def dirty_event_of_def find_None_iff)
    ultimately show ?thesis
      using inv inserted by (simp add: dirty_queue_wf_def table_installed_def)
  next
    case known
    then show ?thesis using inv by simp
  qed
  from inv enq show "\<exists>row. dirty_event_of d' (dirty_event_key (fst rn)) = Some row \<and> de_id row = i \<and>
    dirty_matches (fst rn) row"
    by (cases rule: enqueue_dirty_cases)
      (auto simp: dirty_event_of_def find_append dirty_row_inserted_def)
  fix k row
  assume "dirty_event_of d k = Some row"
  with inv enq show "dirty_event_of d' k = Some row"
    by (cases rule: enqueue_dirty_cases) (auto simp: dirty_event_of_def find_append)
next
  fix d and rn :: "dirty_request \<times> string" and row
  assume "dirty_queue_wf d" "dirty_event_of d (dirty_event_key (fst rn)) = Some row"
    "dirty_matches (fst rn) row"
  then show "enqueue_dirty d rn = Inr (d, de_id row)"
    by (simp add: enqueue_dirty_def enqueue_convergence_dirty_event_def Let_def dirty_queue_wf_def
        dirty_row_inserted_def guard_eval)
next
  fix d k row k' row'
  assume "dirty_queue_wf d" "dirty_event_of d k = Some row" "dirty_event_of d k' = Some row'"
    "de_id row = de_id row'"
  then show "k = k'"
    using distinct_map_eqD [of de_id "portfolio_dirty_events d" row row']
    by (auto simp: dirty_queue_wf_def dest!: dirty_event_of_SomeD)
qed

definition enqueue_dirty_db :: "dirty_request \<times> string \<Rightarrow> db \<Rightarrow> db res" where
  "enqueue_dirty_db rn d = bind_res (enqueue_dirty d rn) (\<lambda>x. Inr (fst x))"

lemma enqueue_dirty_db_eq: "enqueue_dirty_db = dirty.enqueue_db"
  by (simp add: fun_eq_iff enqueue_dirty_db_def dirty.enqueue_db_def)

text \<open>
  A wake is durable and idempotent. Whatever other wakes are enqueued after it, enqueueing the
  same request again, at any later time, returns the id of the first row and changes nothing.
\<close>

theorem dirty_event_replay:
  assumes "dirty_queue_wf d"
    and "enqueue_dirty d (r, now) = Inr (d', i)"
    and "fold_res enqueue_dirty_db rs d' = Inr d''"
  shows "enqueue_convergence_dirty_event d'' r later False = Inr (d'', Some i)"
proof -
  from dirty.replay [OF assms(1,2), of rs d'' "(r, later)"] assms(3)
  have replayed: "enqueue_dirty d'' (r, later) = Inr (d'', i)" by (simp add: enqueue_dirty_db_eq)
  have "dirty_queue_wf d''"
    using dirty.enqueue_all_keeps [OF dirty.enqueue_inv [OF assms(1,2)], of rs d''] assms(3)
    by (simp add: enqueue_dirty_db_eq)
  then have "table_installed d'' ''portfolio_dirty_events''" by (simp add: dirty_queue_wf_def)
  moreover from replayed obtain oi where
    oi: "enqueue_convergence_dirty_event d'' r later False = Inr (d'', oi)" "i = the oi"
    by (auto simp: enqueue_dirty_def guard_simps)
  ultimately have "oi = Some i" by (elim enqueue_dirty_Inr) auto
  with oi(1) show ?thesis by simp
qed

definition example_request :: "int \<Rightarrow> dirty_request" where
  "example_request n = \<lparr>dr_repository = ''o/r'', dr_trigger_kind = ''CAPACITY_RELEASE'',
     dr_issue_number = n, dr_item_version = 1, dr_source_sha256 = ''s'', dr_status = ''DONE'',
     dr_generation = 1, dr_details = []\<rparr>"

lemma enqueue_dirty_empty:
  "\<exists>d. enqueue_dirty empty_db (example_request 1, ''t1'') = Inr (d, 1) \<and> dirty_queue_wf d"
  by (simp add: enqueue_dirty_def enqueue_convergence_dirty_event_def Let_def table_installed_def
      empty_db_def store_tables_def dirty_row_inserted_def dirty_event_of_def example_request_def
      guard_eval next_rowid_def dirty_queue_wf_def append_event_def)

theorem dirty_event_replay_witness:
  "\<exists>d. enqueue_dirty empty_db (example_request 1, ''t1'') = Inr (d, 1) \<and>
     enqueue_convergence_dirty_event d (example_request 1) ''t9'' False = Inr (d, Some 1)"
proof -
  from enqueue_dirty_empty obtain d where
    d: "enqueue_dirty empty_db (example_request 1, ''t1'') = Inr (d, 1)" by blast
  have "dirty_queue_wf empty_db"
    by (simp add: dirty_queue_wf_def empty_db_def table_installed_def store_tables_def)
  from dirty_event_replay [OF this d, of "[]" d "''t9''"] d show ?thesis by auto
qed

end
