(* ===== verification/Versioned_Store.thy ===== *)
theory Versioned_Store
  imports Prelude
begin

section \<open>Compare-and-swap stores\<close>

text \<open>
  Three stores of the program are written by optimistic concurrency: a writer names the version
  it read, and the write is refused unless that version is still current. The locale states the
  contract once, over the version of each key; the graph store, the capacity policy and the
  coordination items provide it. Its lemmas are what clients rely on: a version counts the
  writes that were committed under its key, and of two writers that read the same version only
  one can succeed.
\<close>

locale versioned_store =
  fixes cas_write :: "'s \<Rightarrow> 'w \<Rightarrow> 's res"
    and version :: "'s \<Rightarrow> 'k \<Rightarrow> int"
    and target :: "'w \<Rightarrow> 'k"
    and expected :: "'w \<Rightarrow> int"
    and inv :: "'s \<Rightarrow> bool"
  assumes write_inv: "inv s \<Longrightarrow> cas_write s w = Inr s' \<Longrightarrow> inv s'"
    and write_checks: "inv s \<Longrightarrow> cas_write s w = Inr s' \<Longrightarrow> version s (target w) = expected w"
    and write_bumps: "inv s \<Longrightarrow> cas_write s w = Inr s' \<Longrightarrow> version s' (target w) = expected w + 1"
    and write_other: "inv s \<Longrightarrow> cas_write s w = Inr s' \<Longrightarrow> k \<noteq> target w \<Longrightarrow> version s' k = version s k"
begin

definition write_step :: "'w \<Rightarrow> 's \<Rightarrow> 's res" where
  "write_step w s = cas_write s w"

lemma run_version:
  assumes "inv s" and "fold_res write_step ws s = Inr s'"
  shows "inv s' \<and> version s' k = version s k + int (length (filter (\<lambda>w. target w = k) ws))"
  using assms
proof (induction ws arbitrary: s)
  case Nil
  then show ?case by simp
next
  case (Cons w ws)
  then obtain t where "write_step w s = Inr t" and rest: "fold_res write_step ws t = Inr s'"
    by (auto simp: guard_simps)
  then have t: "cas_write s w = Inr t" by (simp add: write_step_def)
  have "version t k = version s k + (if target w = k then 1 else 0)"
    using write_checks [OF Cons.prems(1) t] write_bumps [OF Cons.prems(1) t]
      write_other [OF Cons.prems(1) t, of k] by auto
  with Cons.IH [OF write_inv [OF Cons.prems(1) t] rest] show ?case by simp
qed

lemma version_mono:
  "inv s \<Longrightarrow> fold_res write_step ws s = Inr s' \<Longrightarrow> version s k \<le> version s' k"
  using run_version [of s ws s' k] by simp

lemma no_lost_update:
  assumes "inv s" and "cas_write s w = Inr s1" and "fold_res write_step ws s1 = Inr s2"
    and "target w' = target w" and "expected w' = expected w"
  shows "\<exists>e. cas_write s2 w' = Inl e"
proof (cases "cas_write s2 w'")
  case (Inr s3)
  have inv1: "inv s1" by (rule write_inv [OF assms(1,2)])
  have "version s2 (target w') = expected w"
    using write_checks [OF _ Inr] run_version [OF inv1 assms(3)] assms(5) by simp
  moreover have "expected w + 1 \<le> version s2 (target w')"
    using version_mono [OF inv1 assms(3), of "target w'"] write_bumps [OF assms(1,2)] assms(4) by simp
  ultimately show ?thesis by simp
qed simp

end

end
