(* ===== verification/Graph_Store.thy ===== *)
theory Graph_Store
  imports Topological_Order Graph_Plan Dirty_Events
begin

section \<open>The versioned graph store\<close>

text \<open>
  The writers of the portfolio graph in portfolio_graph.py: the schema, the compare-and-swap
  replacement of a repository's graph (\<open>replace_graph\<close>), the movement of the observed main
  commit (\<open>sync_head\<close>), and the reader \<open>_load_graph\<close> with its flag for creating missing tables.
  \<open>replace_graph\<close> checks the plan once
  outside and once inside its transaction; the two phases are \<open>replace_prepare\<close> and
  \<open>replace_commit\<close>, so that another connection may commit between them.

  \<open>json_extract\<close> on a text that is not JSON raises \<open>OperationalError\<close>. Integers are taken to
  fit SQLite's 64 bits and a milestone title to be a string or null.
\<close>

subsection \<open>Reading issue sources\<close>

definition snapshot_of :: "db \<Rightarrow> string \<Rightarrow> int \<Rightarrow> (github_current_row \<times> github_snapshot_row) res" where
  "snapshot_of d repository issue_number =
     require_some (graph_error ''GRAPH_SOURCE_MISSING'')
       (source_join d repository ''issue'' issue_number) Inr"

definition require_issue_set_snapshot :: "github_snapshot_row \<Rightarrow> unit res" where
  "require_issue_set_snapshot s =
     require_some (graph_error ''GRAPH_SOURCE_INVALID'') (gs_payload_json s) (\<lambda>payload.
       guarded [(\<not> is_dict payload \<or> py_get (dict_of payload) ''milestone'' \<noteq> PNone,
                 graph_error ''GRAPH_ISSUE_SET_MILESTONE_CONFLICT'')] (Inr ()))"

definition graph_current_of :: "db \<Rightarrow> string \<Rightarrow> graph_current_row option" where
  "graph_current_of d repository =
     List.find (\<lambda>c. gp_repository c = repository) (portfolio_graph_current d)"

definition current_version :: "db \<Rightarrow> string \<Rightarrow> int" where
  "current_version d repository =
     (case graph_current_of d repository of None \<Rightarrow> 0 | Some c \<Rightarrow> gp_version c)"

definition ensure_portfolio_graph_schema :: "db \<Rightarrow> db res" where
  "ensure_portfolio_graph_schema d =
     guarded [(in_transaction d, graph_error ''GRAPH_SCHEMA_TRANSACTION_CONFLICT'')]
       (Inr (d\<lparr>sqlite_master := sqlite_master d @
          filter (\<lambda>t. t \<notin> set (sqlite_master d)) graph_tables\<rparr>))"

subsection \<open>Open issues of the scoped milestones\<close>

definition milestone_title_of :: "pyval \<Rightarrow> pyval" where
  "milestone_title_of payload = py_get (dict_of (py_get (dict_of payload) ''milestone'')) ''title''"

definition open_in_milestones :: "string list \<Rightarrow> pyval \<Rightarrow> bool" where
  "open_in_milestones titles payload =
     (py_get (dict_of payload) ''state'' = PStr ''open'' \<and>
      is_str (milestone_title_of payload) \<and> str_of (milestone_title_of payload) \<in> set titles)"

definition issue_sources :: "db \<Rightarrow> string \<Rightarrow> (int \<times> pyval option) list" where
  "issue_sources d repository =
     List.map_filter (\<lambda>c. map_option (\<lambda>s. (gc_object_number c, gs_payload_json s)) (stored_snapshot d c))
       (filter (\<lambda>c. gc_repository c = repository \<and> gc_object_kind c = ''issue'') (github_current d))"

definition open_milestone_issues :: "db \<Rightarrow> string \<Rightarrow> string list \<Rightarrow> int list res" where
  "open_milestone_issues d repository titles =
     guarded [(\<exists>x \<in> set (issue_sources d repository). snd x = None, OperationalError ''malformed JSON'')]
       (Inr (map fst (filter (\<lambda>x. open_in_milestones titles (the (snd x))) (issue_sources d repository))))"

definition scoped_open :: "db \<Rightarrow> graph_plan \<Rightarrow> int list res" where
  "scoped_open d p =
     (case pl_scope p of
        MilestoneScope ms \<Rightarrow> open_milestone_issues d (pl_repository p) (map fst ms)
      | IssueSetScope ns \<Rightarrow> Inr ns)"

definition uncovered :: "graph_plan \<Rightarrow> int list \<Rightarrow> int list" where
  "uncovered p scoped = sort (remdups (filter (\<lambda>n. n \<notin> set (map pn_issue_number (pl_nodes p)) \<and>
     n \<notin> set (map px_issue_number (pl_exclusions p))) scoped))"

subsection \<open>Checks on the sources of a plan\<close>

definition check_source :: "db \<Rightarrow> graph_plan \<Rightarrow> int \<Rightarrow> string \<Rightarrow> unit res" where
  "check_source d p issue_number sha =
     bind_res (snapshot_of d (pl_repository p) issue_number) (\<lambda>(c, s).
       guarded [(gc_payload_sha256 c \<noteq> sha, graph_error ''GRAPH_SOURCE_DRIFT'')]
         (if is_issue_set (pl_scope p) then require_issue_set_snapshot s else Inr ()))"

definition check_sources :: "db \<Rightarrow> graph_plan \<Rightarrow> unit res" where
  "check_sources d p =
     bind_res (check_each (\<lambda>n. check_source d p (pn_issue_number n) (pn_source_payload_sha256 n)) (pl_nodes p))
       (\<lambda>_. if is_issue_set (pl_scope p)
             then check_each (\<lambda>x. check_source d p (px_issue_number x) (px_source_payload_sha256 x)) (pl_exclusions p)
             else Inr ())"

definition plan_hard_edges :: "graph_plan \<Rightarrow> (string \<times> string) list" where
  "plan_hard_edges p = map (\<lambda>r. (pr_left_node_key r, pr_right_node_key r))
     (filter (\<lambda>r. pr_relation_kind r = ''HARD_BLOCK'') (pl_relations p))"

definition check_root_kind :: "(string \<times> string) list \<Rightarrow> plan_node \<Rightarrow> unit res" where
  "check_root_kind edges n =
     (let key = pn_node_key n; incoming = (\<exists>e \<in> set edges. snd e = key);
          outgoing = (\<exists>e \<in> set edges. fst e = key) in
      guarded [(pn_root_kind n = ''NORMAL'' \<and> \<not> incoming, graph_error (''GRAPH_ACTIONABLE_ORPHAN:'' @ key)),
               (pn_root_kind n = ''STANDALONE'' \<and> (incoming \<or> outgoing),
                graph_error (''GRAPH_STANDALONE_HAS_EDGES:'' @ key))]
        (Inr ()))"

definition plan_node_of :: "graph_plan \<Rightarrow> string \<Rightarrow> plan_node option" where
  "plan_node_of p key = List.find (\<lambda>n. pn_node_key n = key) (pl_nodes p)"

definition check_relation_source :: "graph_plan \<Rightarrow> plan_relation \<Rightarrow> unit res" where
  "check_relation_source p r =
     require_some KeyError (plan_node_of p (pr_left_node_key r)) (\<lambda>left.
     require_some KeyError (plan_node_of p (pr_right_node_key r)) (\<lambda>right.
       guarded [(pr_source_payload_sha256 r \<notin> {pn_source_payload_sha256 left, pn_source_payload_sha256 right},
                 graph_error ''GRAPH_RELATION_SOURCE_DRIFT'')] (Inr ())))"

subsection \<open>Replacing the graph\<close>

record graph_receipt =
  rc_repository :: string
  rc_version :: int
  rc_graph_sha256 :: string
  rc_node_count :: nat
  rc_relation_count :: nat

definition replace_prepare :: "db \<Rightarrow> pydict \<Rightarrow> graph_plan res" where
  "replace_prepare d plan =
     bind_res (validate_plan plan) (\<lambda>p.
     guarded [(current_version d (pl_repository p) \<noteq> pl_expected_current_version p,
               graph_error ''GRAPH_VERSION_CONFLICT'')]
     (bind_res (check_sources d p) (\<lambda>_.
      bind_res (scoped_open d p) (\<lambda>scoped.
      guarded [(uncovered p scoped \<noteq> [],
                graph_error (''GRAPH_SCOPE_INCOMPLETE:'' @ join '','' (map str_of_int (uncovered p scoped))))]
      (bind_res (topological_order (map pn_node_key (pl_nodes p)) (plan_hard_edges p)) (\<lambda>_.
       bind_res (check_each (check_root_kind (plan_hard_edges p)) (pl_nodes p)) (\<lambda>_.
       bind_res (if is_issue_set (pl_scope p) then check_each (check_relation_source p) (pl_relations p)
                 else Inr ()) (\<lambda>_.
       Inr p))))))))"

definition scope_value :: "graph_scope \<Rightarrow> pyval" where
  "scope_value s = (case s of
     MilestoneScope ms \<Rightarrow> PDict [(''milestones'', PList (map (\<lambda>m. PStr (fst m)) ms))]
   | IssueSetScope ns \<Rightarrow> PDict [(''kind'', PStr ''ISSUE_SET''), (''issue_numbers'', PList (map PInt (sort ns)))])"

definition revision_row :: "graph_plan \<Rightarrow> string \<Rightarrow> graph_revision_row" where
  "revision_row p now =
     \<lparr>gr_repository = pl_repository p, gr_version = pl_expected_current_version p + 1,
      gr_parent_version = (if pl_expected_current_version p = 0 then None
                           else Some (pl_expected_current_version p)),
      gr_accepted_main_sha = pl_accepted_main_sha p,
      gr_graph_sha256 = digest_json (graph_payload (pl_source p)),
      gr_scope_json = Some (scope_value (pl_scope p)),
      gr_exclusions_json = Some (py_get (pl_source p) ''excluded_issues''), gr_created_at = now\<rparr>"

definition insert_revision :: "graph_revision_row \<Rightarrow> db \<Rightarrow> db res" where
  "insert_revision row d =
     guarded [(gr_version row \<le> 0, IntegrityError ''CHECK''),
              ((gr_repository row, gr_version row)
                 \<in> set (map (\<lambda>r. (gr_repository r, gr_version r)) (portfolio_graph_revisions d)),
               IntegrityError ''PRIMARY KEY'')]
       (Inr (d\<lparr>portfolio_graph_revisions := portfolio_graph_revisions d @ [row]\<rparr>))"

definition prior_ready :: "db \<Rightarrow> string \<Rightarrow> int \<Rightarrow> string \<Rightarrow> string option" where
  "prior_ready d repository expected key =
     (if expected = 0 then None
      else map_option gn_ready_at (List.find (\<lambda>n. gn_repository n = repository \<and>
        gn_graph_version n = expected \<and> gn_node_key n = key) (portfolio_graph_nodes d)))"

definition node_row :: "graph_plan \<Rightarrow> pyval \<Rightarrow> string option \<Rightarrow> plan_node \<Rightarrow> graph_node_row" where
  "node_row p title ready n =
     \<lparr>gn_repository = pl_repository p, gn_graph_version = pl_expected_current_version p + 1,
      gn_node_key = pn_node_key n, gn_issue_number = pn_issue_number n, gn_role = pn_role n,
      gn_root_kind = pn_root_kind n, gn_root_reason = pn_root_reason n,
      gn_milestone_title = str_opt_of title,
      gn_milestone_rank = (if is_str title then map_of (scope_milestones (pl_scope p)) (str_of title) else None),
      gn_lane_key = pn_lane_key n, gn_lane_order = pn_lane_order n, gn_dispatchable = pn_dispatchable n,
      gn_priority_rank = pn_priority_rank n, gn_estimate_units = pn_estimate_units n,
      gn_development_units = pn_development_units n, gn_shared_units = pn_shared_units n,
      gn_sre_units = pn_sre_units n, gn_source_payload_sha256 = pn_source_payload_sha256 n,
      gn_ready_at = (case ready of None \<Rightarrow> pn_ready_at n | Some t \<Rightarrow> t)\<rparr>"

definition insert_node :: "graph_plan \<Rightarrow> db \<Rightarrow> plan_node \<Rightarrow> db \<Rightarrow> db res" where
  "insert_node p before n d =
     bind_res (snapshot_of d (pl_repository p) (pn_issue_number n)) (\<lambda>(c, s).
     require_some (ValueError ''JSONDecodeError'') (gs_payload_json s) (\<lambda>payload.
     let title = milestone_title_of payload;
         row = node_row p title
           (prior_ready before (pl_repository p) (pl_expected_current_version p) (pn_node_key n)) n in
     guarded [(\<not> is_dict payload, AttributeError),
              (unhashable title, TypeError),
              ((gn_repository row, gn_graph_version row, gn_node_key row)
                 \<in> set (map (\<lambda>r. (gn_repository r, gn_graph_version r, gn_node_key r)) (portfolio_graph_nodes d)),
               IntegrityError ''PRIMARY KEY'')]
       (Inr (d\<lparr>portfolio_graph_nodes := portfolio_graph_nodes d @ [row]\<rparr>))))"

definition relation_row :: "graph_plan \<Rightarrow> plan_relation \<Rightarrow> graph_relation_row" where
  "relation_row p r =
     \<lparr>gl_repository = pl_repository p, gl_graph_version = pl_expected_current_version p + 1,
      gl_left_node_key = pr_left_node_key r, gl_right_node_key = pr_right_node_key r,
      gl_relation_kind = pr_relation_kind r, gl_reason = pr_reason r,
      gl_source_payload_sha256 = pr_source_payload_sha256 r\<rparr>"

definition relation_pk :: "graph_relation_row \<Rightarrow> string \<times> int \<times> string \<times> string \<times> string" where
  "relation_pk r = (gl_repository r, gl_graph_version r, gl_left_node_key r, gl_right_node_key r,
     gl_relation_kind r)"

definition node_pk :: "graph_node_row \<Rightarrow> string \<times> int \<times> string" where
  "node_pk n = (gn_repository n, gn_graph_version n, gn_node_key n)"

definition insert_relation :: "graph_plan \<Rightarrow> plan_relation \<Rightarrow> db \<Rightarrow> db res" where
  "insert_relation p r d =
     (let row = relation_row p r; nodes = set (map node_pk (portfolio_graph_nodes d)) in
      guarded [(relation_pk row \<in> set (map relation_pk (portfolio_graph_relations d)),
                IntegrityError ''PRIMARY KEY''),
               ((gl_repository row, gl_graph_version row, gl_left_node_key row) \<notin> nodes \<or>
                (gl_repository row, gl_graph_version row, gl_right_node_key row) \<notin> nodes,
                IntegrityError ''FOREIGN KEY'')]
        (Inr (d\<lparr>portfolio_graph_relations := portfolio_graph_relations d @ [row]\<rparr>)))"

definition current_row :: "graph_plan \<Rightarrow> string \<Rightarrow> graph_current_row" where
  "current_row p now =
     \<lparr>gp_repository = pl_repository p, gp_version = pl_expected_current_version p + 1,
      gp_observed_main_sha = pl_accepted_main_sha p, gp_health = ''CURRENT'', gp_updated_at = now,
      gp_last_error = None\<rparr>"

definition replace_commit :: "db \<Rightarrow> graph_plan \<Rightarrow> string \<Rightarrow> (db \<times> graph_receipt) res" where
  "replace_commit d p now =
     guarded [(current_version d (pl_repository p) \<noteq> pl_expected_current_version p,
               graph_error ''GRAPH_VERSION_CONFLICT'')]
     (bind_res (check_sources d p) (\<lambda>_.
      bind_res (scoped_open d p) (\<lambda>scoped.
      guarded [(uncovered p scoped \<noteq> [], graph_error ''GRAPH_SCOPE_INCOMPLETE'')]
      (bind_res (insert_revision (revision_row p now) d) (\<lambda>d1.
       bind_res (fold_res (insert_node p d) (pl_nodes p) d1) (\<lambda>d2.
       bind_res (fold_res (insert_relation p) (pl_relations p) d2) (\<lambda>d3.
       Inr (d3\<lparr>portfolio_graph_current :=
              upsert (\<lambda>c. gp_repository c = pl_repository p) (current_row p now)
                (\<lambda>_. current_row p now) (portfolio_graph_current d3)\<rparr>,
            \<lparr>rc_repository = pl_repository p, rc_version = pl_expected_current_version p + 1,
             rc_graph_sha256 = digest_json (graph_payload (pl_source p)),
             rc_node_count = length (pl_nodes p), rc_relation_count = length (pl_relations p)\<rparr>))))))))"

definition replace_graph ::
  "db \<Rightarrow> pydict \<Rightarrow> string \<Rightarrow> bool \<Rightarrow> bool \<Rightarrow> (db \<times> graph_receipt) res" where
  "replace_graph d plan now transaction ensure_schema =
     guarded [(\<not> transaction \<and> (ensure_schema \<or> \<not> in_transaction d),
               graph_error ''GRAPH_TRANSACTION_REQUIRED'')]
     (bind_res (if ensure_schema then ensure_portfolio_graph_schema d else Inr d) (\<lambda>d.
      bind_res (replace_prepare d plan) (\<lambda>p.
      guarded [(transaction \<and> in_transaction d,
                OperationalError ''cannot start a transaction within a transaction'')]
      (replace_commit d p now))))"

subsection \<open>Reading the graph\<close>

definition revision_of :: "db \<Rightarrow> string \<Rightarrow> int \<Rightarrow> graph_revision_row option" where
  "revision_of d repository version =
     List.find (\<lambda>r. gr_repository r = repository \<and> gr_version r = version) (portfolio_graph_revisions d)"

definition current_join :: "db \<Rightarrow> string \<Rightarrow> (graph_current_row \<times> graph_revision_row) option" where
  "current_join d repository =
     (case graph_current_of d repository of
        None \<Rightarrow> None
      | Some c \<Rightarrow> map_option (Pair c) (revision_of d repository (gp_version c)))"

definition nodes_of :: "db \<Rightarrow> string \<Rightarrow> int \<Rightarrow> graph_node_row list" where
  "nodes_of d repository version =
     filter (\<lambda>n. gn_repository n = repository \<and> gn_graph_version n = version) (portfolio_graph_nodes d)"

definition relations_of :: "db \<Rightarrow> string \<Rightarrow> int \<Rightarrow> graph_relation_row list" where
  "relations_of d repository version =
     filter (\<lambda>r. gl_repository r = repository \<and> gl_graph_version r = version) (portfolio_graph_relations d)"

record loaded_graph =
  lg_current :: graph_current_row
  lg_revision :: graph_revision_row
  lg_nodes :: "graph_node_row list"
  lg_relations :: "graph_relation_row list"

text \<open>The queries of \<open>_load_graph\<close>.\<close>

definition read_graph :: "db \<Rightarrow> string \<Rightarrow> loaded_graph res" where
  "read_graph d repository =
     require_some (graph_error ''GRAPH_NOT_FOUND'') (current_join d repository) (\<lambda>(c, r).
       Inr \<lparr>lg_current = c, lg_revision = r, lg_nodes = nodes_of d repository (gp_version c),
            lg_relations = relations_of d repository (gp_version c)\<rparr>)"

text \<open>
  \<open>ensure_schema\<close> is the flag of \<open>_load_graph\<close>, true by default: the missing tables are created first, which
  is refused inside a transaction. The database is returned with them.
\<close>

definition load_graph :: "db \<Rightarrow> string \<Rightarrow> bool \<Rightarrow> (db \<times> loaded_graph) res" where
  "load_graph d repository ensure_schema =
     bind_res (if ensure_schema then ensure_portfolio_graph_schema d else Inr d) (\<lambda>d.
     bind_res (read_graph d repository) (\<lambda>g. Inr (d, g)))"

subsection \<open>Moving the observed main commit\<close>

definition scope_is_issue_set :: "pyval \<Rightarrow> bool" where
  "scope_is_issue_set scope = (is_dict scope \<and> py_get (dict_of scope) ''kind'' = PStr ''ISSUE_SET'')"

definition synced_health ::
  "bool \<Rightarrow> string \<Rightarrow> string \<Rightarrow> string \<Rightarrow> string option \<Rightarrow> string \<times> string option" where
  "synced_health issue_set accepted sha health last_error =
     (let legacy_main_stale =
        (\<not> issue_set \<and> health = ''STALE'' \<and> last_error = Some ''GRAPH_MAIN_DRIFT'') in
      if issue_set \<and> sha \<noteq> accepted then
        (''STALE'', if health = ''STALE'' \<and> last_error \<notin> {None, Some ''GRAPH_MAIN_DRIFT''}
                   then last_error else Some ''GRAPH_MAIN_DRIFT'')
      else if issue_set \<and> last_error = Some ''GRAPH_MAIN_DRIFT'' then (''CURRENT'', None)
      else (if legacy_main_stale then ''CURRENT'' else health,
            if legacy_main_stale then None else last_error))"

record sync_result =
  sy_repository :: string
  sy_version :: int
  sy_health :: string
  sy_portfolio_dirty_event_id :: "int option"

definition cursor_request :: "string \<Rightarrow> int \<Rightarrow> int \<Rightarrow> string \<Rightarrow> string \<Rightarrow> dirty_request" where
  "cursor_request repository version trigger_issue previous sha =
     \<lparr>dr_repository = repository, dr_trigger_kind = ''MAIN_CURSOR_ADVANCED'',
      dr_issue_number = trigger_issue, dr_item_version = version,
      dr_source_sha256 = digest_json (PDict [(''observed_main_sha'', PStr sha)]),
      dr_status = ''CURSOR'', dr_generation = version,
      dr_details = [(''previous_main_sha'', PStr previous), (''observed_main_sha'', PStr sha)]\<rparr>"

definition min_issue :: "graph_node_row list \<Rightarrow> int option" where
  "min_issue ns = (case ns of [] \<Rightarrow> None
     | n # ms \<Rightarrow> Some (fold (\<lambda>m k. min (gn_issue_number m) k) ms (gn_issue_number n)))"

definition sync_head_body ::
  "db \<Rightarrow> string \<Rightarrow> string \<Rightarrow> int \<Rightarrow> string \<Rightarrow> string \<Rightarrow> (db \<times> sync_result) res" where
  "sync_head_body d repository sha expected_version expected_observed now =
     require_some (graph_error ''GRAPH_NOT_FOUND'') (current_join d repository) (\<lambda>(c, r).
     guarded [(gp_version c \<noteq> expected_version \<or> gp_observed_main_sha c \<noteq> expected_observed,
               graph_error ''GRAPH_MAIN_CAS_DRIFT'')]
     (require_some (graph_error ''GRAPH_SCOPE_INVALID'') (gr_scope_json r) (\<lambda>scope.
      let (health, err) = synced_health (scope_is_issue_set scope) (gr_accepted_main_sha r) sha
            (gp_health c) (gp_last_error c);
          hit = (\<lambda>x. gp_repository x = repository \<and> gp_version x = expected_version \<and>
                  gp_observed_main_sha x = expected_observed);
          d1 = d\<lparr>portfolio_graph_current := update_where hit
                 (\<lambda>x. x\<lparr>gp_observed_main_sha := sha, gp_health := health, gp_updated_at := now,
                        gp_last_error := err\<rparr>) (portfolio_graph_current d)\<rparr> in
      guarded [(length (filter hit (portfolio_graph_current d)) \<noteq> 1, graph_error ''GRAPH_MAIN_CAS_DRIFT'')]
      (bind_res
        (if gp_observed_main_sha c = sha then Inr (d1, None)
         else require_some (graph_error ''GRAPH_NODE_INVALID'') (min_issue (nodes_of d repository (gp_version c)))
           (\<lambda>n. enqueue_convergence_dirty_event d1
              (cursor_request repository (gp_version c) n (gp_observed_main_sha c) sha) now False))
        (\<lambda>(d2, event_id).
          Inr (d2, \<lparr>sy_repository = repository, sy_version = gp_version c, sy_health = health,
                    sy_portfolio_dirty_event_id = event_id\<rparr>))))))"

definition sync_head ::
  "db \<Rightarrow> string \<Rightarrow> string \<Rightarrow> int \<Rightarrow> string \<Rightarrow> string \<Rightarrow> bool \<Rightarrow> bool \<Rightarrow> (db \<times> sync_result) res" where
  "sync_head d repository sha expected_version expected_observed now ensure_schema transaction =
     bind_res (validate_repository (PStr repository)) (\<lambda>_.
     guarded [(\<not> GIT_SHA sha \<or> expected_version \<le> 0 \<or> \<not> GIT_SHA expected_observed,
               graph_error ''GRAPH_MAIN_INVALID'')]
     (bind_res (if ensure_schema then ensure_portfolio_graph_schema d else Inr d) (\<lambda>d.
      guarded [(transaction \<and> in_transaction d, graph_error ''GRAPH_TRANSACTION_CONFLICT''),
               (\<not> transaction \<and> \<not> in_transaction d, graph_error ''GRAPH_TRANSACTION_REQUIRED'')]
      (sync_head_body d repository sha expected_version expected_observed now))))"

subsection \<open>Staleness triggers on \<open>github_current\<close>\<close>

text \<open>
  The three triggers of the schema, as functions run by the writers of \<open>github_current\<close> after
  the row operation. \<open>json_each\<close> over a missing member yields no row.
\<close>

definition scope_member :: "db \<Rightarrow> graph_current_row \<Rightarrow> string \<Rightarrow> pyval list" where
  "scope_member d c name =
     (case revision_of d (gp_repository c) (gp_version c) of
        None \<Rightarrow> []
      | Some r \<Rightarrow> (case gr_scope_json r of
                     None \<Rightarrow> []
                   | Some scope \<Rightarrow> list_of (py_get (dict_of scope) name)))"

definition in_issue_set_scope :: "db \<Rightarrow> graph_current_row \<Rightarrow> int \<Rightarrow> bool" where
  "in_issue_set_scope d c number =
     (case revision_of d (gp_repository c) (gp_version c) of
        None \<Rightarrow> False
      | Some r \<Rightarrow> (case gr_scope_json r of
                     None \<Rightarrow> False
                   | Some scope \<Rightarrow> scope_is_issue_set scope \<and>
                       (\<exists>v \<in> set (list_of (py_get (dict_of scope) ''issue_numbers'')). v = PInt number)))"

definition in_milestone_scope :: "db \<Rightarrow> graph_current_row \<Rightarrow> github_current_row \<Rightarrow> bool" where
  "in_milestone_scope d c new =
     (case stored_snapshot d new of
        None \<Rightarrow> False
      | Some s \<Rightarrow> (case gs_payload_json s of
                     None \<Rightarrow> False
                   | Some payload \<Rightarrow>
                       open_in_milestones (map str_of (filter is_str (scope_member d c ''milestones''))) payload))"

definition represented :: "db \<Rightarrow> graph_current_row \<Rightarrow> int \<Rightarrow> bool" where
  "represented d c number =
     (\<exists>n \<in> set (nodes_of d (gp_repository c) (gp_version c)). gn_issue_number n = number)"

definition mark_stale :: "(graph_current_row \<Rightarrow> bool) \<Rightarrow> string \<Rightarrow> string \<Rightarrow> db \<Rightarrow> db" where
  "mark_stale hit at reason d =
     d\<lparr>portfolio_graph_current := update_where hit
        (\<lambda>c. c\<lparr>gp_health := ''STALE'', gp_updated_at := at, gp_last_error := Some reason\<rparr>)
        (portfolio_graph_current d)\<rparr>"

definition stale_on_issue_update :: "github_current_row \<Rightarrow> github_current_row \<Rightarrow> db \<Rightarrow> db" where
  "stale_on_issue_update old new d =
     (if gc_object_kind new = ''issue'' \<and> gc_payload_sha256 new \<noteq> gc_payload_sha256 old then
        mark_stale (\<lambda>c. gp_repository c = gc_repository new \<and>
          ((\<exists>n \<in> set (nodes_of d (gp_repository c) (gp_version c)).
              gn_issue_number n = gc_object_number new \<and>
              gn_source_payload_sha256 n \<noteq> gc_payload_sha256 new) \<or>
           (in_milestone_scope d c new \<and> \<not> represented d c (gc_object_number new)) \<or>
           (in_issue_set_scope d c (gc_object_number new) \<and> \<not> represented d c (gc_object_number new))))
          (gc_fetched_at new) ''GRAPH_SOURCE_DRIFT'' d
      else d)"

definition stale_on_scoped_issue_insert :: "github_current_row \<Rightarrow> db \<Rightarrow> db" where
  "stale_on_scoped_issue_insert new d =
     (if gc_object_kind new = ''issue'' then
        mark_stale (\<lambda>c. gp_repository c = gc_repository new \<and>
          (in_milestone_scope d c new \<or> in_issue_set_scope d c (gc_object_number new)) \<and>
          \<not> represented d c (gc_object_number new))
          (gc_fetched_at new) ''GRAPH_SCOPE_INVENTORY_DRIFT'' d
      else d)"

definition stale_on_issue_delete :: "github_current_row \<Rightarrow> db \<Rightarrow> db" where
  "stale_on_issue_delete old d =
     (if gc_object_kind old = ''issue'' then
        mark_stale (\<lambda>c. gp_repository c = gc_repository old \<and>
          (represented d c (gc_object_number old) \<or> in_issue_set_scope d c (gc_object_number old)))
          (gc_fetched_at old) ''GRAPH_SOURCE_MISSING'' d
      else d)"

end
