(* ===== verification/Graph_Invariant.thy ===== *)
theory Graph_Invariant
  imports Graph_Store Versioned_Store
begin

section \<open>Properties of the graph store\<close>

text \<open>
  \<open>graph_wf\<close> is the invariant of the five graph tables: keys unique, every current row and every
  node backed by a revision, no revision newer than the current one, relation endpoints stored,
  and the hard dependencies of every stored version acyclic. The lemmas give the closed form of a
  successful commit, show that it keeps the invariant and never meets a key violation, and
  establish the compare-and-swap contract of \<open>versioned_store\<close> for \<open>replace_graph\<close>.
\<close>

subsection \<open>What a stored graph looks like\<close>

definition hard_edges_of :: "graph_relation_row list \<Rightarrow> (string \<times> string) list" where
  "hard_edges_of rs = map (\<lambda>r. (gl_left_node_key r, gl_right_node_key r))
     (filter (\<lambda>r. gl_relation_kind r = ''HARD_BLOCK'') rs)"

definition revision_pk :: "graph_revision_row \<Rightarrow> string \<times> int" where
  "revision_pk r = (gr_repository r, gr_version r)"

definition node_units_ok :: "graph_node_row \<Rightarrow> bool" where
  "node_units_ok n \<longleftrightarrow> 0 < gn_estimate_units n \<and> 0 \<le> gn_development_units n \<and>
     0 \<le> gn_shared_units n \<and> 0 \<le> gn_sre_units n"

definition graph_wf :: "db \<Rightarrow> bool" where
  "graph_wf d \<longleftrightarrow>
     distinct (map revision_pk (portfolio_graph_revisions d)) \<and>
     distinct (map gp_repository (portfolio_graph_current d)) \<and>
     (\<forall>c \<in> set (portfolio_graph_current d). 0 < gp_version c \<and>
        (gp_repository c, gp_version c) \<in> revision_pk ` set (portfolio_graph_revisions d)) \<and>
     (\<forall>r \<in> set (portfolio_graph_revisions d). 0 < gr_version r \<and>
        gr_version r \<le> current_version d (gr_repository r) \<and>
        nodes_of d (gr_repository r) (gr_version r) \<noteq> []) \<and>
     distinct (map node_pk (portfolio_graph_nodes d)) \<and>
     (\<forall>n \<in> set (portfolio_graph_nodes d). node_units_ok n \<and>
        (gn_repository n, gn_graph_version n) \<in> revision_pk ` set (portfolio_graph_revisions d)) \<and>
     distinct (map relation_pk (portfolio_graph_relations d)) \<and>
     (\<forall>r \<in> set (portfolio_graph_relations d).
        (gl_repository r, gl_graph_version r, gl_left_node_key r) \<in> node_pk ` set (portfolio_graph_nodes d) \<and>
        (gl_repository r, gl_graph_version r, gl_right_node_key r) \<in> node_pk ` set (portfolio_graph_nodes d)) \<and>
     (\<forall>repo ver. acyclic (set (hard_edges_of (relations_of d repo ver))))"

lemma snapshot_of_graph_update [simp]:
  "snapshot_of (d\<lparr>portfolio_graph_nodes := x\<rparr>) = snapshot_of d"
  "snapshot_of (d\<lparr>portfolio_graph_revisions := y\<rparr>) = snapshot_of d"
  by (simp_all add: fun_eq_iff snapshot_of_def source_join_cong [of "d\<lparr>portfolio_graph_nodes := x\<rparr>" d]
      source_join_cong [of "d\<lparr>portfolio_graph_revisions := y\<rparr>" d])

definition stored_node :: "graph_plan \<Rightarrow> db \<Rightarrow> plan_node \<Rightarrow> graph_node_row" where
  "stored_node p d n = node_row p
     (case snapshot_of d (pl_repository p) (pn_issue_number n) of
        Inl _ \<Rightarrow> PNone | Inr cs \<Rightarrow> milestone_title_of (the (gs_payload_json (snd cs))))
     (prior_ready d (pl_repository p) (pl_expected_current_version p) (pn_node_key n)) n"

lemma stored_node_simps [simp]:
  "node_pk (stored_node p d n) = (pl_repository p, pl_expected_current_version p + 1, pn_node_key n)"
  "gn_repository (stored_node p d n) = pl_repository p"
  "gn_graph_version (stored_node p d n) = pl_expected_current_version p + 1"
  "gn_node_key (stored_node p d n) = pn_node_key n"
  "gn_issue_number (stored_node p d n) = pn_issue_number n"
  "gn_source_payload_sha256 (stored_node p d n) = pn_source_payload_sha256 n"
  by (simp_all add: stored_node_def node_row_def node_pk_def)

lemma insert_node_Inr:
  assumes "insert_node p d n e = Inr e'" and "snapshot_of e = snapshot_of d"
  shows "e' = e\<lparr>portfolio_graph_nodes := portfolio_graph_nodes e @ [stored_node p d n]\<rparr>"
    and "node_pk (stored_node p d n) \<notin> node_pk ` set (portfolio_graph_nodes e)"
  using assms
  by (auto simp: insert_node_def guard_simps Let_def stored_node_def node_pk_def split: prod.splits)

lemma insert_nodes_Inr:
  assumes "fold_res (insert_node p d) ns e = Inr e'" and "snapshot_of e = snapshot_of d"
    and "distinct (map node_pk (portfolio_graph_nodes e))"
  shows "e' = e\<lparr>portfolio_graph_nodes := portfolio_graph_nodes e @ map (stored_node p d) ns\<rparr> \<and>
    distinct (map node_pk (portfolio_graph_nodes e'))"
  using assms
proof (induction ns arbitrary: e)
  case Nil
  then show ?case by simp
next
  case (Cons n ns)
  then obtain u where u: "insert_node p d n e = Inr u" and rest: "fold_res (insert_node p d) ns u = Inr e'"
    by (auto simp: guard_simps)
  note step = insert_node_Inr [OF u Cons.prems(2)]
  have "distinct (map node_pk (portfolio_graph_nodes u))" "snapshot_of u = snapshot_of d"
    using step Cons.prems by auto
  note ih = Cons.IH [OF rest this(2,1)]
  from ih step(1) have "e' = e\<lparr>portfolio_graph_nodes := portfolio_graph_nodes e @ map (stored_node p d) (n # ns)\<rparr>"
    by simp
  with ih show ?case by blast
qed

lemma insert_relation_Inr:
  assumes "insert_relation p r e = Inr e'"
  shows "e' = e\<lparr>portfolio_graph_relations := portfolio_graph_relations e @ [relation_row p r]\<rparr>"
    and "relation_pk (relation_row p r) \<notin> relation_pk ` set (portfolio_graph_relations e)"
    and "(pl_repository p, pl_expected_current_version p + 1, pr_left_node_key r)
           \<in> node_pk ` set (portfolio_graph_nodes e)"
    and "(pl_repository p, pl_expected_current_version p + 1, pr_right_node_key r)
           \<in> node_pk ` set (portfolio_graph_nodes e)"
  using assms by (auto simp: insert_relation_def guard_simps Let_def relation_row_def)

lemma insert_relations_Inr:
  assumes "fold_res (insert_relation p) rs e = Inr e'"
    and "distinct (map relation_pk (portfolio_graph_relations e))"
  shows "e' = e\<lparr>portfolio_graph_relations := portfolio_graph_relations e @ map (relation_row p) rs\<rparr> \<and>
    distinct (map relation_pk (portfolio_graph_relations e')) \<and>
    (\<forall>r \<in> set rs. {(pl_repository p, pl_expected_current_version p + 1, pr_left_node_key r),
       (pl_repository p, pl_expected_current_version p + 1, pr_right_node_key r)}
       \<subseteq> node_pk ` set (portfolio_graph_nodes e))"
  using assms
proof (induction rs arbitrary: e)
  case Nil
  then show ?case by simp
next
  case (Cons r rs)
  then obtain u where u: "insert_relation p r e = Inr u" and rest: "fold_res (insert_relation p) rs u = Inr e'"
    by (auto simp: guard_simps)
  note step = insert_relation_Inr [OF u]
  have "distinct (map relation_pk (portfolio_graph_relations u))"
    using step(1,2) Cons.prems(2) by simp
  note ih = Cons.IH [OF rest this]
  have nodes: "portfolio_graph_nodes u = portfolio_graph_nodes e" using step(1) by simp
  show ?case
  proof (intro conjI)
    show "e' = e\<lparr>portfolio_graph_relations := portfolio_graph_relations e @ map (relation_row p) (r # rs)\<rparr>"
      using ih step(1) by simp
    show "distinct (map relation_pk (portfolio_graph_relations e'))" using ih by blast
  qed (use ih step(3,4) nodes in simp)
qed


lemma replace_commit_Inr:
  assumes "replace_commit d p now = Inr (d', rc)"
    and "distinct (map node_pk (portfolio_graph_nodes d))"
    and "distinct (map relation_pk (portfolio_graph_relations d))"
  shows "d' = d\<lparr>portfolio_graph_revisions := portfolio_graph_revisions d @ [revision_row p now],
      portfolio_graph_nodes := portfolio_graph_nodes d @ map (stored_node p d) (pl_nodes p),
      portfolio_graph_relations := portfolio_graph_relations d @ map (relation_row p) (pl_relations p),
      portfolio_graph_current := upsert (\<lambda>c. gp_repository c = pl_repository p) (current_row p now)
        (\<lambda>_. current_row p now) (portfolio_graph_current d)\<rparr>"
    and "current_version d (pl_repository p) = pl_expected_current_version p"
    and "0 < pl_expected_current_version p + 1"
    and "revision_pk (revision_row p now) \<notin> revision_pk ` set (portfolio_graph_revisions d)"
    and "distinct (map node_pk (portfolio_graph_nodes d'))"
    and "distinct (map relation_pk (portfolio_graph_relations d'))"
    and "rc_version rc = pl_expected_current_version p + 1"
    and "check_sources d p = Inr ()"
proof -
  from assms(1) obtain u sc e1 e2 e3 where
    ver: "current_version d (pl_repository p) = pl_expected_current_version p"
    and src: "check_sources d p = Inr u"
    and rev: "insert_revision (revision_row p now) d = Inr e1"
    and nod: "fold_res (insert_node p d) (pl_nodes p) e1 = Inr e2"
    and rel: "fold_res (insert_relation p) (pl_relations p) e2 = Inr e3"
    and d': "d' = e3\<lparr>portfolio_graph_current :=
              upsert (\<lambda>c. gp_repository c = pl_repository p) (current_row p now)
                (\<lambda>_. current_row p now) (portfolio_graph_current e3)\<rparr>"
    and rc: "rc_version rc = pl_expected_current_version p + 1"
    by (auto simp: replace_commit_def guard_simps)
  from rev have e1: "e1 = d\<lparr>portfolio_graph_revisions := portfolio_graph_revisions d @ [revision_row p now]\<rparr>"
    and fresh: "revision_pk (revision_row p now) \<notin> revision_pk ` set (portfolio_graph_revisions d)"
    and pos: "0 < pl_expected_current_version p + 1"
    by (auto simp: insert_revision_def guard_simps revision_pk_def revision_row_def)
  have "snapshot_of e1 = snapshot_of d" "distinct (map node_pk (portfolio_graph_nodes e1))"
    using e1 assms(2) by simp_all
  note nodes = insert_nodes_Inr [OF nod this]
  then have e2: "e2 = e1\<lparr>portfolio_graph_nodes := portfolio_graph_nodes e1 @ map (stored_node p d) (pl_nodes p)\<rparr>"
    and dn: "distinct (map node_pk (portfolio_graph_nodes e2))" by blast+
  have "distinct (map relation_pk (portfolio_graph_relations e2))" using e1 e2 assms(3) by simp
  note relations = insert_relations_Inr [OF rel this]
  have e3: "e3 = e2\<lparr>portfolio_graph_relations := portfolio_graph_relations e2 @ map (relation_row p) (pl_relations p)\<rparr>"
    and dr: "distinct (map relation_pk (portfolio_graph_relations e3))"
    using relations by blast+
  show "d' = d\<lparr>portfolio_graph_revisions := portfolio_graph_revisions d @ [revision_row p now],
      portfolio_graph_nodes := portfolio_graph_nodes d @ map (stored_node p d) (pl_nodes p),
      portfolio_graph_relations := portfolio_graph_relations d @ map (relation_row p) (pl_relations p),
      portfolio_graph_current := upsert (\<lambda>c. gp_repository c = pl_repository p) (current_row p now)
        (\<lambda>_. current_row p now) (portfolio_graph_current d)\<rparr>"
    using d' e1 e2 e3 by simp
  show "distinct (map node_pk (portfolio_graph_nodes d'))" using d' e3 dn by simp
  show "distinct (map relation_pk (portfolio_graph_relations d'))" using d' dr by simp
  show "check_sources d p = Inr ()" using src by simp
  show "current_version d (pl_repository p) = pl_expected_current_version p" by (rule ver)
  show "0 < pl_expected_current_version p + 1" by (rule pos)
  show "revision_pk (revision_row p now) \<notin> revision_pk ` set (portfolio_graph_revisions d)" by (rule fresh)
  show "rc_version rc = pl_expected_current_version p + 1" by (rule rc)
qed


definition prepared :: "graph_plan \<Rightarrow> bool" where
  "prepared p \<longleftrightarrow> plan_wf p \<and> acyclic (set (plan_hard_edges p))"

lemma plan_edges_in_nodes:
  "plan_wf p \<Longrightarrow> set (plan_hard_edges p) \<subseteq> set (map pn_node_key (pl_nodes p)) \<times> set (map pn_node_key (pl_nodes p))"
  by (auto simp: plan_wf_def relations_ok_def relation_ok_def plan_hard_edges_def)

lemma replace_prepare_prepared:
  assumes "replace_prepare d plan = Inr p"
  shows "prepared p" and "validate_plan plan = Inr p"
    and "current_version d (pl_repository p) = pl_expected_current_version p"
    and "check_sources d p = Inr ()"
    and "check_each (check_root_kind (plan_hard_edges p)) (pl_nodes p) = Inr ()"
proof -
  from assms obtain order where v: "validate_plan plan = Inr p"
    and t: "topological_order (map pn_node_key (pl_nodes p)) (plan_hard_edges p) = Inr order"
    and ver: "current_version d (pl_repository p) = pl_expected_current_version p"
    and src: "check_sources d p = Inr ()"
    and root: "check_each (check_root_kind (plan_hard_edges p)) (pl_nodes p) = Inr ()"
    by (auto simp: replace_prepare_def guard_simps)
  have wf: "plan_wf p" by (rule validate_plan_accepts_wf [OF v])
  have "acyclic (set (plan_hard_edges p))"
    using topological_order_Inr(1,2) [OF t] plan_edges_in_nodes [OF wf]
    by (intro legal_acyclic [of _ order]) auto
  with wf show "prepared p" by (simp add: prepared_def)
  show "validate_plan plan = Inr p" "check_sources d p = Inr ()"
    "current_version d (pl_repository p) = pl_expected_current_version p"
    "check_each (check_root_kind (plan_hard_edges p)) (pl_nodes p) = Inr ()"
    by (rule v, rule src, rule ver, rule root)
qed

text \<open>The version a writer moves to is fresh: no revision, node or relation carries it.\<close>

lemma graph_wf_revision_le:
  assumes "graph_wf d" and "(repo, ver) \<in> revision_pk ` set (portfolio_graph_revisions d)"
  shows "0 < ver" and "ver \<le> current_version d repo"
  using assms by (auto simp: graph_wf_def revision_pk_def)

lemma graph_wf_fresh:
  assumes "graph_wf d" and "current_version d repo < ver"
  shows "(repo, ver) \<notin> revision_pk ` set (portfolio_graph_revisions d)"
    and "nodes_of d repo ver = []" and "relations_of d repo ver = []"
proof -
  show fresh: "(repo, ver) \<notin> revision_pk ` set (portfolio_graph_revisions d)"
    using graph_wf_revision_le [OF assms(1), of repo ver] assms(2) by fastforce
  have node_rev: "(gn_repository n, gn_graph_version n) \<in> revision_pk ` set (portfolio_graph_revisions d)"
    if "n \<in> set (portfolio_graph_nodes d)" for n
    using assms(1) that by (simp add: graph_wf_def)
  show "nodes_of d repo ver = []"
    using node_rev fresh by (auto simp: nodes_of_def filter_empty_conv)
  have "(gl_repository r, gl_graph_version r) \<in> revision_pk ` set (portfolio_graph_revisions d)"
    if r: "r \<in> set (portfolio_graph_relations d)" for r
  proof -
    from assms(1) r obtain n where "n \<in> set (portfolio_graph_nodes d)"
      "node_pk n = (gl_repository r, gl_graph_version r, gl_left_node_key r)"
      unfolding graph_wf_def by (metis imageE)
    with node_rev [of n] show ?thesis by (simp add: node_pk_def)
  qed
  with fresh show "relations_of d repo ver = []"
    by (auto simp: relations_of_def filter_empty_conv)
qed

lemma relation_row_simps [simp]:
  "gl_repository (relation_row p r) = pl_repository p"
  "gl_graph_version (relation_row p r) = pl_expected_current_version p + 1"
  "gl_left_node_key (relation_row p r) = pr_left_node_key r"
  "gl_right_node_key (relation_row p r) = pr_right_node_key r"
  "gl_relation_kind (relation_row p r) = pr_relation_kind r"
  by (simp_all add: relation_row_def)

lemma hard_edges_of_plan: "hard_edges_of (map (relation_row p) (pl_relations p)) = plan_hard_edges p"
  by (simp add: hard_edges_of_def plan_hard_edges_def filter_map comp_def)


lemma graph_wf_distinct:
  assumes "graph_wf d"
  shows "distinct (map node_pk (portfolio_graph_nodes d))"
    and "distinct (map relation_pk (portfolio_graph_relations d))"
  using assms by (simp_all add: graph_wf_def)

lemma revision_row_simps [simp]:
  "gr_repository (revision_row p now) = pl_repository p"
  "gr_version (revision_row p now) = pl_expected_current_version p + 1"
  "revision_pk (revision_row p now) = (pl_repository p, pl_expected_current_version p + 1)"
  by (simp_all add: revision_row_def revision_pk_def)

lemma current_row_simps [simp]:
  "gp_repository (current_row p now) = pl_repository p"
  "gp_version (current_row p now) = pl_expected_current_version p + 1"
  "gp_health (current_row p now) = ''CURRENT''"
  by (simp_all add: current_row_def)

lemma replace_commit_views:
  assumes wf: "graph_wf d" and ok: "replace_commit d p now = Inr (d', rc)"
  shows "nodes_of d' repo ver =
      (if repo = pl_repository p \<and> ver = pl_expected_current_version p + 1
       then map (stored_node p d) (pl_nodes p) else nodes_of d repo ver)"
    and "relations_of d' repo ver =
      (if repo = pl_repository p \<and> ver = pl_expected_current_version p + 1
       then map (relation_row p) (pl_relations p) else relations_of d repo ver)"
    and "graph_current_of d' repo =
      (if repo = pl_repository p then Some (current_row p now) else graph_current_of d repo)"
    and "current_version d' repo =
      (if repo = pl_repository p then pl_expected_current_version p + 1 else current_version d repo)"
proof -
  note c = replace_commit_Inr [OF ok graph_wf_distinct [OF wf]]
  have "current_version d (pl_repository p) < pl_expected_current_version p + 1" using c(2) by simp
  note fresh = graph_wf_fresh [OF wf this]
  show "nodes_of d' repo ver =
      (if repo = pl_repository p \<and> ver = pl_expected_current_version p + 1
       then map (stored_node p d) (pl_nodes p) else nodes_of d repo ver)"
    using fresh(2) by (auto simp: c(1) nodes_of_def filter_map comp_def)
  show "relations_of d' repo ver =
      (if repo = pl_repository p \<and> ver = pl_expected_current_version p + 1
       then map (relation_row p) (pl_relations p) else relations_of d repo ver)"
    using fresh(3) by (auto simp: c(1) relations_of_def filter_map comp_def)
  show cur: "graph_current_of d' repo =
      (if repo = pl_repository p then Some (current_row p now) else graph_current_of d repo)" for repo
  proof (cases "repo = pl_repository p")
    case True
    have "graph_current_of d' (pl_repository p) = Some (case graph_current_of d (pl_repository p) of
        None \<Rightarrow> current_row p now | Some _ \<Rightarrow> current_row p now)"
      unfolding graph_current_of_def c(1) by (simp add: find_upsert)
    with True show ?thesis by (simp split: option.splits)
  next
    case False
    then show ?thesis
      unfolding graph_current_of_def c(1) by (simp add: find_upsert_other)
  qed
  show "current_version d' repo =
      (if repo = pl_repository p then pl_expected_current_version p + 1 else current_version d repo)"
    by (simp add: current_version_def cur)
qed

lemma replace_commit_endpoints:
  assumes wf: "graph_wf d" and ok: "replace_commit d p now = Inr (d', rc)" and p: "prepared p"
    and r: "r \<in> set (portfolio_graph_relations d')"
  shows "{(gl_repository r, gl_graph_version r, gl_left_node_key r),
          (gl_repository r, gl_graph_version r, gl_right_node_key r)} \<subseteq> node_pk ` set (portfolio_graph_nodes d')"
proof -
  note c = replace_commit_Inr [OF ok graph_wf_distinct [OF wf]]
  from r consider (new) r0 where "r = relation_row p r0" "r0 \<in> set (pl_relations p)"
    | (old) "r \<in> set (portfolio_graph_relations d)"
    unfolding c(1) by auto
  then show ?thesis
  proof cases
    case new
    with p have "pr_left_node_key r0 \<in> set (map pn_node_key (pl_nodes p))"
      "pr_right_node_key r0 \<in> set (map pn_node_key (pl_nodes p))"
      by (auto simp: prepared_def plan_wf_def relations_ok_def relation_ok_def)
    with new(1) show ?thesis unfolding c(1) by (simp add: image_Un image_image) blast
  next
    case old
    then show ?thesis using wf unfolding c(1) graph_wf_def by (simp add: image_Un)
  qed
qed

lemma replace_commit_wf:
  assumes wf: "graph_wf d" and ok: "replace_commit d p now = Inr (d', rc)" and p: "prepared p"
  shows "graph_wf d'"
  unfolding graph_wf_def
proof (intro conjI)
  note c = replace_commit_Inr [OF ok graph_wf_distinct [OF wf]]
  note v = replace_commit_views [OF wf ok]
  note wf' = wf [unfolded graph_wf_def]
  show "distinct (map revision_pk (portfolio_graph_revisions d'))"
    using wf' c(4) by (simp add: c(1))
  show "distinct (map gp_repository (portfolio_graph_current d'))"
    unfolding c(1) using wf'
    by (simp add: upsert_def map_update_where) auto
  show "\<forall>x \<in> set (portfolio_graph_current d'). 0 < gp_version x \<and>
      (gp_repository x, gp_version x) \<in> revision_pk ` set (portfolio_graph_revisions d')"
  proof
    fix x
    assume "x \<in> set (portfolio_graph_current d')"
    then have "x = current_row p now \<or> x \<in> set (portfolio_graph_current d)"
      unfolding c(1) by (auto simp: upsert_def set_update_where split: if_splits)
    then show "0 < gp_version x \<and> (gp_repository x, gp_version x) \<in> revision_pk ` set (portfolio_graph_revisions d')"
      using wf' c(3) by (auto simp: c(1))
  qed
  show "\<forall>r \<in> set (portfolio_graph_revisions d'). 0 < gr_version r \<and>
      gr_version r \<le> current_version d' (gr_repository r) \<and>
      nodes_of d' (gr_repository r) (gr_version r) \<noteq> []"
  proof
    fix r
    assume "r \<in> set (portfolio_graph_revisions d')"
    then consider "r = revision_row p now" | (old) "r \<in> set (portfolio_graph_revisions d)"
      unfolding c(1) by auto
    then show "0 < gr_version r \<and> gr_version r \<le> current_version d' (gr_repository r) \<and>
      nodes_of d' (gr_repository r) (gr_version r) \<noteq> []"
    proof cases
      case 1
      then show ?thesis using c(3) p by (simp add: v prepared_def plan_wf_def)
    next
      case old
      with wf' have "0 < gr_version r" "gr_version r \<le> current_version d (gr_repository r)"
        "nodes_of d (gr_repository r) (gr_version r) \<noteq> []" by blast+
      then show ?thesis using c(2) by (auto simp: v)
    qed
  qed
  show "distinct (map node_pk (portfolio_graph_nodes d'))" "distinct (map relation_pk (portfolio_graph_relations d'))"
    by (rule c(5), rule c(6))
  have "node_units_ok (stored_node p d n)" if "n \<in> set (pl_nodes p)" for n
    using p that by (auto simp: prepared_def plan_wf_def nodes_ok_def node_ok_def node_units_ok_def
        stored_node_def node_row_def)
  then show "\<forall>n \<in> set (portfolio_graph_nodes d'). node_units_ok n \<and>
      (gn_repository n, gn_graph_version n) \<in> revision_pk ` set (portfolio_graph_revisions d')"
    using wf' unfolding c(1) by auto
  show "\<forall>r \<in> set (portfolio_graph_relations d').
      (gl_repository r, gl_graph_version r, gl_left_node_key r) \<in> node_pk ` set (portfolio_graph_nodes d') \<and>
      (gl_repository r, gl_graph_version r, gl_right_node_key r) \<in> node_pk ` set (portfolio_graph_nodes d')"
    using replace_commit_endpoints [OF assms] by blast
  show "\<forall>repo ver. acyclic (set (hard_edges_of (relations_of d' repo ver)))"
    using wf' p by (simp add: v hard_edges_of_plan prepared_def)
qed


subsection \<open>When the commit succeeds\<close>

lemma insert_nodes_progress:
  assumes "\<forall>n \<in> set ns. \<exists>c s payload. snapshot_of e (pl_repository p) (pn_issue_number n) = Inr (c, s) \<and>
      gs_payload_json s = Some payload \<and> is_dict payload \<and> \<not> unhashable (milestone_title_of payload)"
    and "distinct (map pn_node_key ns)"
    and "\<forall>n \<in> set ns. (pl_repository p, pl_expected_current_version p + 1, pn_node_key n)
      \<notin> node_pk ` set (portfolio_graph_nodes e)"
  shows "\<exists>e'. fold_res (insert_node p d) ns e = Inr e'"
  using assms
proof (induction ns arbitrary: e)
  case Nil
  then show ?case by simp
next
  case (Cons n ns)
  from Cons.prems(1) obtain c s payload where
    s: "snapshot_of e (pl_repository p) (pn_issue_number n) = Inr (c, s)" "gs_payload_json s = Some payload"
      "is_dict payload" "\<not> unhashable (milestone_title_of payload)" by auto
  define row where "row = node_row p (milestone_title_of payload)
    (prior_ready d (pl_repository p) (pl_expected_current_version p) (pn_node_key n)) n"
  have pk: "node_pk row = (pl_repository p, pl_expected_current_version p + 1, pn_node_key n)"
    by (simp add: row_def node_row_def node_pk_def)
  let ?e = "e\<lparr>portfolio_graph_nodes := portfolio_graph_nodes e @ [row]\<rparr>"
  have "node_pk row \<notin> node_pk ` set (portfolio_graph_nodes e)" using Cons.prems(3) pk by simp
  then have "insert_node p d n e = Inr ?e"
    using s by (simp add: insert_node_def Let_def guard_eval row_def [symmetric] node_pk_def)
  moreover have "pn_node_key m \<noteq> pn_node_key n" if "m \<in> set ns" for m
    using Cons.prems(2) that by (metis distinct.simps(2) image_eqI list.simps(9) set_map)
  then have "\<exists>e'. fold_res (insert_node p d) ns ?e = Inr e'"
    by (intro Cons.IH) (use Cons.prems pk in auto)
  ultimately show ?case by simp
qed

lemma insert_relations_progress:
  assumes "\<forall>r \<in> set rs. {(pl_repository p, pl_expected_current_version p + 1, pr_left_node_key r),
      (pl_repository p, pl_expected_current_version p + 1, pr_right_node_key r)}
      \<subseteq> node_pk ` set (portfolio_graph_nodes e)"
    and "distinct (map relation_key rs)"
    and "\<forall>r \<in> set rs. relation_pk (relation_row p r) \<notin> relation_pk ` set (portfolio_graph_relations e)"
  shows "\<exists>e'. fold_res (insert_relation p) rs e = Inr e'"
  using assms
proof (induction rs arbitrary: e)
  case Nil
  then show ?case by simp
next
  case (Cons r rs)
  let ?e = "e\<lparr>portfolio_graph_relations := portfolio_graph_relations e @ [relation_row p r]\<rparr>"
  have "insert_relation p r e = Inr ?e"
    using Cons.prems(1,3) by (simp add: insert_relation_def Let_def guard_eval)
  moreover have "relation_pk (relation_row p r') \<noteq> relation_pk (relation_row p r)" if "r' \<in> set rs" for r'
  proof
    assume "relation_pk (relation_row p r') = relation_pk (relation_row p r)"
    then have "relation_key r' = relation_key r" by (simp add: relation_pk_def relation_key_def)
    with Cons.prems(2) that show False by (metis distinct.simps(2) image_eqI list.simps(9) set_map)
  qed
  then have "\<exists>e'. fold_res (insert_relation p) rs ?e = Inr e'"
    using Cons.prems by (intro Cons.IH) auto
  ultimately show ?case by simp
qed


lemma check_source_issue_set:
  assumes "check_source d p n sha = Inr ()" and "is_issue_set (pl_scope p)"
  shows "\<exists>c s payload. snapshot_of d (pl_repository p) n = Inr (c, s) \<and> gc_payload_sha256 c = sha \<and>
     gs_payload_json s = Some payload \<and> is_dict payload \<and> milestone_title_of payload = PNone"
  using assms by (auto simp: check_source_def guard_simps require_issue_set_snapshot_def
      milestone_title_of_def py_get_def)

lemma uncovered_issue_set:
  assumes "plan_wf p" and "is_issue_set (pl_scope p)"
  shows "\<exists>scoped. scoped_open d p = Inr scoped \<and> uncovered p scoped = []"
proof -
  obtain ns where ns: "pl_scope p = IssueSetScope ns" using assms(2) by (cases "pl_scope p") auto
  with assms have "set ns = pn_issue_number ` set (pl_nodes p) \<union> px_issue_number ` set (pl_exclusions p)"
    by (auto simp: plan_wf_def)
  with ns show ?thesis by (auto simp: scoped_open_def uncovered_def filter_empty_conv)
qed

lemma replace_commit_progress:
  assumes wf: "graph_wf d" and p: "prepared p" and set_scope: "is_issue_set (pl_scope p)"
    and ver: "current_version d (pl_repository p) = pl_expected_current_version p"
    and src: "check_sources d p = Inr ()"
  shows "\<exists>d' rc. replace_commit d p now = Inr (d', rc)"
proof -
  have pw: "plan_wf p" using p by (simp add: prepared_def)
  have lt: "current_version d (pl_repository p) < pl_expected_current_version p + 1" using ver by simp
  note fresh = graph_wf_fresh [OF wf lt]
  from uncovered_issue_set [OF pw set_scope] obtain scoped where
    sc: "scoped_open d p = Inr scoped" "uncovered p scoped = []" by blast
  let ?d1 = "d\<lparr>portfolio_graph_revisions := portfolio_graph_revisions d @ [revision_row p now]\<rparr>"
  have d1: "insert_revision (revision_row p now) d = Inr ?d1"
    using fresh(1) pw by (simp add: insert_revision_def guard_eval plan_wf_def revision_pk_def image_iff)
  have "\<exists>d2. fold_res (insert_node p d) (pl_nodes p) ?d1 = Inr d2"
  proof (rule insert_nodes_progress)
    show "\<forall>n \<in> set (pl_nodes p). \<exists>c s payload. snapshot_of ?d1 (pl_repository p) (pn_issue_number n) = Inr (c, s) \<and>
      gs_payload_json s = Some payload \<and> is_dict payload \<and> \<not> unhashable (milestone_title_of payload)"
      using src check_source_issue_set [OF _ set_scope] by (fastforce simp: check_sources_def guard_simps)
    show "distinct (map pn_node_key (pl_nodes p))" using pw by (simp add: plan_wf_def nodes_ok_def)
    show "\<forall>n \<in> set (pl_nodes p). (pl_repository p, pl_expected_current_version p + 1, pn_node_key n)
      \<notin> node_pk ` set (portfolio_graph_nodes ?d1)"
      using fresh(2) by (auto simp: nodes_of_def filter_empty_conv node_pk_def)
  qed
  then obtain d2 where d2: "fold_res (insert_node p d) (pl_nodes p) ?d1 = Inr d2" by blast
  have d2': "d2 = ?d1\<lparr>portfolio_graph_nodes := portfolio_graph_nodes ?d1 @ map (stored_node p d) (pl_nodes p)\<rparr>"
    using insert_nodes_Inr [OF d2] graph_wf_distinct(1) [OF wf] by simp
  have "\<exists>d3. fold_res (insert_relation p) (pl_relations p) d2 = Inr d3"
  proof (rule insert_relations_progress)
    show "\<forall>r \<in> set (pl_relations p). {(pl_repository p, pl_expected_current_version p + 1, pr_left_node_key r),
      (pl_repository p, pl_expected_current_version p + 1, pr_right_node_key r)}
      \<subseteq> node_pk ` set (portfolio_graph_nodes d2)"
      using pw unfolding d2' by (auto simp: plan_wf_def relations_ok_def relation_ok_def image_Un image_image)
    show "distinct (map relation_key (pl_relations p))" using pw by (simp add: plan_wf_def relations_ok_def)
    show "\<forall>r \<in> set (pl_relations p). relation_pk (relation_row p r) \<notin> relation_pk ` set (portfolio_graph_relations d2)"
      using fresh(3) unfolding d2' by (auto simp: relations_of_def filter_empty_conv relation_pk_def)
  qed
  with ver src sc d1 d2 show ?thesis by (auto simp: replace_commit_def guard_eval)
qed


subsection \<open>The whole operation\<close>

lemma graph_wf_master [simp]: "graph_wf (d\<lparr>sqlite_master := m\<rparr>) = graph_wf d"
  by (simp add: graph_wf_def nodes_of_def relations_of_def current_version_def graph_current_of_def)

lemma current_version_master [simp]: "current_version (d\<lparr>sqlite_master := m\<rparr>) = current_version d"
  by (simp add: fun_eq_iff current_version_def graph_current_of_def)

lemma replace_graph_Inr:
  assumes "replace_graph d plan now tr ens = Inr (d', rc)"
  obtains m p where "replace_prepare (d\<lparr>sqlite_master := m\<rparr>) plan = Inr p"
    "replace_commit (d\<lparr>sqlite_master := m\<rparr>) p now = Inr (d', rc)"
proof (cases ens)
  case True
  with assms show thesis
    by (auto intro: that simp: replace_graph_def ensure_portfolio_graph_schema_def guard_simps)
next
  case False
  have d: "d = d\<lparr>sqlite_master := sqlite_master d\<rparr>" by simp
  from False assms obtain p where "replace_prepare d plan = Inr p" "replace_commit d p now = Inr (d', rc)"
    by (auto simp: replace_graph_def guard_simps)
  with d show thesis by (metis that)
qed

lemma validate_plan_header:
  assumes "validate_plan plan = Inr p"
  shows "pl_repository p = str_of (py_get plan ''repository'')"
    and "pl_expected_current_version p = int_of (py_get plan ''expected_current_version'')"
    and "pl_accepted_main_sha p = str_of (py_get plan ''accepted_main_sha'')"
  using validate_plan_Inr [OF assms] by (metis graph_plan.select_convs(1-3))+

lemma replace_graph_version_facts:
  assumes "graph_wf d" and "replace_graph d plan now tr ens = Inr (d', rc)"
  shows "graph_wf d' \<and>
    rc_version rc = current_version d (str_of (py_get plan ''repository'')) + 1 \<and>
    current_version d (str_of (py_get plan ''repository'')) = int_of (py_get plan ''expected_current_version'') \<and>
    (\<forall>repo. current_version d' repo =
       (if repo = str_of (py_get plan ''repository'') then rc_version rc else current_version d repo))"
proof -
  from assms(2) obtain m p where prep: "replace_prepare (d\<lparr>sqlite_master := m\<rparr>) plan = Inr p"
    and comm: "replace_commit (d\<lparr>sqlite_master := m\<rparr>) p now = Inr (d', rc)"
    by (rule replace_graph_Inr)
  have wf: "graph_wf (d\<lparr>sqlite_master := m\<rparr>)" using assms(1) by simp
  note pp = replace_prepare_prepared [OF prep]
  note hd = validate_plan_header [OF pp(2)]
  have "graph_wf d'" by (rule replace_commit_wf [OF wf comm pp(1)])
  then show ?thesis
    using replace_commit_Inr(2,7) [OF comm graph_wf_distinct [OF wf]] replace_commit_views(4) [OF wf comm] hd
    by simp
qed

text \<open>
  C20: replacing a graph keeps the store well formed. The hard dependencies of every stored version
  stay acyclic, every relation joins stored nodes, and the version moves by exactly one from the
  version the plan named, which is the version that was current.
\<close>

theorem replace_graph_wf:
  assumes "graph_wf d" and "replace_graph d plan now tr ens = Inr (d', rc)"
  shows "graph_wf d' \<and>
    rc_version rc = current_version d (str_of (py_get plan ''repository'')) + 1 \<and>
    current_version d (str_of (py_get plan ''repository'')) = int_of (py_get plan ''expected_current_version'') \<and>
    (\<forall>repo. current_version d' repo =
       (if repo = str_of (py_get plan ''repository'') then rc_version rc else current_version d repo))"
  by (rule replace_graph_version_facts [OF assms])

lemma stored_ready_at:
  assumes wf: "graph_wf d" and ver: "current_version d (pl_repository p) = pl_expected_current_version p"
    and m: "m \<in> set (nodes_of d (pl_repository p) (pl_expected_current_version p))"
    and key: "gn_node_key m = pn_node_key n"
  shows "gn_ready_at (stored_node p d n) = gn_ready_at m"
proof -
  let ?q = "\<lambda>x. gn_repository x = pl_repository p \<and> gn_graph_version x = pl_expected_current_version p \<and>
    gn_node_key x = pn_node_key n"
  from m key have mem: "m \<in> set (portfolio_graph_nodes d)" and q: "?q m" by (auto simp: nodes_of_def)
  from wf mem have "(gn_repository m, gn_graph_version m) \<in> revision_pk ` set (portfolio_graph_revisions d)"
    by (simp add: graph_wf_def)
  with graph_wf_revision_le(1) [OF wf, of "gn_repository m" "gn_graph_version m"] q
  have "pl_expected_current_version p \<noteq> 0" by simp
  moreover obtain x where x: "List.find ?q (portfolio_graph_nodes d) = Some x"
    using mem q by (cases "List.find ?q (portfolio_graph_nodes d)") (auto simp: find_None_iff)
  moreover from find_SomeD [OF x] q have "node_pk x = node_pk m" "x \<in> set (portfolio_graph_nodes d)"
    by (auto simp: node_pk_def)
  then have "x = m" using distinct_map_eqD [OF graph_wf_distinct(1) [OF wf]] mem by blast
  ultimately show ?thesis by (simp add: stored_node_def node_row_def prior_ready_def)
qed


lemma check_sources_node:
  assumes "check_sources d p = Inr ()" and "n \<in> set (pl_nodes p)"
  shows "\<exists>c s. snapshot_of d (pl_repository p) (pn_issue_number n) = Inr (c, s) \<and>
    gc_payload_sha256 c = pn_source_payload_sha256 n"
proof -
  from assms have "check_source d p (pn_issue_number n) (pn_source_payload_sha256 n) = Inr ()"
    by (simp add: check_sources_def guard_simps)
  then show ?thesis by (auto simp: check_source_def guard_simps)
qed

lemma revision_of_append:
  "revision_of d repo ver \<noteq> None \<Longrightarrow> portfolio_graph_revisions d' = portfolio_graph_revisions d @ rs \<Longrightarrow>
   revision_of d' repo ver = revision_of d repo ver"
  by (auto simp: revision_of_def find_append)

lemma revision_of_iff:
  "revision_of d repo ver \<noteq> None \<longleftrightarrow> (repo, ver) \<in> revision_pk ` set (portfolio_graph_revisions d)"
  by (auto simp: revision_of_def find_None_iff revision_pk_def)

lemma read_graph_after_commit:
  assumes "graph_wf d" and "replace_commit d p now = Inr (d', rc)"
  shows "read_graph d' (pl_repository p) = Inr \<lparr>lg_current = current_row p now,
     lg_revision = revision_row p now, lg_nodes = map (stored_node p d) (pl_nodes p),
     lg_relations = map (relation_row p) (pl_relations p)\<rparr>"
proof -
  note v = replace_commit_views [OF assms]
  note c = replace_commit_Inr [OF assms(2) graph_wf_distinct [OF assms(1)]]
  have "List.find (\<lambda>r. gr_repository r = pl_repository p \<and> gr_version r = pl_expected_current_version p + 1)
      (portfolio_graph_revisions d) = None"
    using c(4) by (force simp: find_None_iff revision_pk_def)
  then have "revision_of d' (pl_repository p) (pl_expected_current_version p + 1) = Some (revision_row p now)"
    by (simp add: revision_of_def c(1) find_append)
  then show ?thesis by (simp add: read_graph_def current_join_def v)
qed

text \<open>The sources a node of a committed plan was checked against and took its milestone from.\<close>

lemma insert_nodes_payload:
  assumes "fold_res (insert_node p d) ns e = Inr e'" and "snapshot_of e = snapshot_of d" and "n \<in> set ns"
  shows "\<exists>c s kvs. snapshot_of d (pl_repository p) (pn_issue_number n) = Inr (c, s) \<and> gs_payload_json s = Some (PDict kvs)"
  using assms
proof (induction ns arbitrary: e)
  case Nil
  then show ?case by simp
next
  case (Cons m ns)
  then obtain u where u: "insert_node p d m e = Inr u" and rest: "fold_res (insert_node p d) ns u = Inr e'"
    by (auto simp: guard_simps)
  have same: "snapshot_of u = snapshot_of d" using insert_node_Inr(1) [OF u Cons.prems(2)] Cons.prems(2) by simp
  show ?case
  proof (cases "n = m")
    case True
    with u Cons.prems(2) show ?thesis
      by (auto simp: insert_node_def guard_simps Let_def is_dict_cases split: prod.splits)
  next
    case False
    with Cons.IH [OF rest same] Cons.prems(3) show ?thesis by simp
  qed
qed

lemma replace_commit_payload:
  assumes "replace_commit d p now = Inr (d', rc)" and "n \<in> set (pl_nodes p)"
  shows "\<exists>c s kvs. snapshot_of d (pl_repository p) (pn_issue_number n) = Inr (c, s) \<and>
    gs_payload_json s = Some (PDict kvs) \<and> gc_payload_sha256 c = pn_source_payload_sha256 n"
proof -
  from assms(1) obtain e e' where ok: "check_sources d p = Inr ()" "insert_revision (revision_row p now) d = Inr e"
    "fold_res (insert_node p d) (pl_nodes p) e = Inr e'"
    by (auto simp: replace_commit_def guard_simps)
  then have "snapshot_of e = snapshot_of d" by (auto simp: insert_revision_def guard_simps)
  from insert_nodes_payload [OF ok(3) this assms(2)] check_sources_node [OF ok(1) assms(2)] show ?thesis by auto
qed

text \<open>
  What a stored node, relation and revision has to be for a plan \<open>p\<close>, column by column. The milestone is the
  one of the current source, with its rank in the plan's scope; \<open>prior\<close> are the nodes of the version before.
\<close>

definition planned_node :: "db \<Rightarrow> graph_plan \<Rightarrow> graph_node_row list \<Rightarrow> plan_node \<Rightarrow> graph_node_row \<Rightarrow> bool" where
  "planned_node d p prior n m \<longleftrightarrow>
     gn_repository m = pl_repository p \<and> gn_graph_version m = pl_expected_current_version p + 1 \<and>
     gn_node_key m = pn_node_key n \<and> gn_issue_number m = pn_issue_number n \<and> gn_role m = pn_role n \<and>
     gn_root_kind m = pn_root_kind n \<and> gn_root_reason m = pn_root_reason n \<and> gn_lane_key m = pn_lane_key n \<and>
     gn_lane_order m = pn_lane_order n \<and> gn_dispatchable m = pn_dispatchable n \<and>
     gn_priority_rank m = pn_priority_rank n \<and> gn_estimate_units m = pn_estimate_units n \<and>
     gn_development_units m = pn_development_units n \<and> gn_shared_units m = pn_shared_units n \<and>
     gn_sre_units m = pn_sre_units n \<and> gn_source_payload_sha256 m = pn_source_payload_sha256 n \<and>
     (\<exists>c s kvs. snapshot_of d (pl_repository p) (pn_issue_number n) = Inr (c, s) \<and>
        gc_payload_sha256 c = pn_source_payload_sha256 n \<and> gs_payload_json s = Some (PDict kvs) \<and>
        (case milestone_title_of (PDict kvs) of
           PStr t \<Rightarrow> gn_milestone_title m = Some t \<and> gn_milestone_rank m = map_of (scope_milestones (pl_scope p)) t
         | _ \<Rightarrow> gn_milestone_title m = None \<and> gn_milestone_rank m = None)) \<and>
     (if pn_node_key n \<in> gn_node_key ` set prior
      then \<exists>old \<in> set prior. gn_node_key old = pn_node_key n \<and> gn_ready_at m = gn_ready_at old
      else gn_ready_at m = pn_ready_at n)"

definition planned_relation :: "graph_plan \<Rightarrow> plan_relation \<Rightarrow> graph_relation_row \<Rightarrow> bool" where
  "planned_relation p r m \<longleftrightarrow>
     gl_repository m = pl_repository p \<and> gl_graph_version m = pl_expected_current_version p + 1 \<and>
     gl_left_node_key m = pr_left_node_key r \<and> gl_right_node_key m = pr_right_node_key r \<and>
     gl_relation_kind m = pr_relation_kind r \<and> gl_reason m = pr_reason r \<and>
     gl_source_payload_sha256 m = pr_source_payload_sha256 r"

definition planned_revision :: "graph_plan \<Rightarrow> loaded_graph \<Rightarrow> bool" where
  "planned_revision p g \<longleftrightarrow>
     gp_repository (lg_current g) = pl_repository p \<and> gp_version (lg_current g) = pl_expected_current_version p + 1 \<and>
     gp_observed_main_sha (lg_current g) = pl_accepted_main_sha p \<and> gp_health (lg_current g) = ''CURRENT'' \<and>
     gp_last_error (lg_current g) = None \<and>
     gr_repository (lg_revision g) = pl_repository p \<and> gr_version (lg_revision g) = pl_expected_current_version p + 1 \<and>
     gr_parent_version (lg_revision g) =
       (if pl_expected_current_version p = 0 then None else Some (pl_expected_current_version p)) \<and>
     gr_accepted_main_sha (lg_revision g) = pl_accepted_main_sha p \<and>
     gr_graph_sha256 (lg_revision g) = digest_json (graph_payload (pl_source p)) \<and>
     gr_scope_json (lg_revision g) = Some (scope_value (pl_scope p)) \<and>
     gr_exclusions_json (lg_revision g) = Some (py_get (pl_source p) ''excluded_issues'')"

lemma unplanned_ready_at:
  assumes "current_version d (pl_repository p) = pl_expected_current_version p"
    and "pn_node_key n \<notin> gn_node_key ` set (nodes_of d (pl_repository p) (current_version d (pl_repository p)))"
  shows "gn_ready_at (stored_node p d n) = pn_ready_at n"
proof -
  have "List.find (\<lambda>x. gn_repository x = pl_repository p \<and> gn_graph_version x = pl_expected_current_version p \<and>
      gn_node_key x = pn_node_key n) (portfolio_graph_nodes d) = None"
    using assms by (force simp: find_None_iff nodes_of_def)
  then show ?thesis by (simp add: stored_node_def node_row_def prior_ready_def)
qed

lemma planned_node_stored:
  assumes wf: "graph_wf d" and ok: "replace_commit d p now = Inr (d', rc)" and n: "n \<in> set (pl_nodes p)"
  shows "planned_node d p (nodes_of d (pl_repository p) (current_version d (pl_repository p))) n (stored_node p d n)"
proof -
  let ?prior = "nodes_of d (pl_repository p) (current_version d (pl_repository p))"
  note c = replace_commit_Inr [OF ok graph_wf_distinct [OF wf]]
  from replace_commit_payload [OF ok n] obtain cur s kvs where
    src: "snapshot_of d (pl_repository p) (pn_issue_number n) = Inr (cur, s)" "gs_payload_json s = Some (PDict kvs)"
    "gc_payload_sha256 cur = pn_source_payload_sha256 n" by blast
  have ready: "if pn_node_key n \<in> gn_node_key ` set ?prior
      then \<exists>old \<in> set ?prior. gn_node_key old = pn_node_key n \<and> gn_ready_at (stored_node p d n) = gn_ready_at old
      else gn_ready_at (stored_node p d n) = pn_ready_at n"
  proof (cases "pn_node_key n \<in> gn_node_key ` set ?prior")
    case True
    then obtain old where old: "old \<in> set ?prior" "gn_node_key old = pn_node_key n" by auto
    with stored_ready_at [OF wf c(2)] c(2) True show ?thesis by auto
  qed (use unplanned_ready_at [OF c(2)] in simp)
  show ?thesis unfolding planned_node_def
    using src ready
    by (auto simp: stored_node_def node_row_def split: pyval.split)
qed

text \<open>
  C34: what was planned is what is read back, whichever state the plan was checked against before
  the transaction. After the commit the graph loads as current, in the next version, with exactly the plan's
  nodes and relations of every kind, column by column and in the plan's order, and with the plan's main
  commit, digest, scope and exclusions; every node is bound to the source that is current and has its
  milestone; a node that was in the previous version keeps its queue age, and a new one has the planned one;
  and every older version reads exactly as before.
\<close>

theorem replace_graph_readback:
  assumes "graph_wf d" and "replace_commit d p now = Inr (d', rc)"
  shows "(\<exists>g. load_graph d' (pl_repository p) False = Inr (d', g) \<and> planned_revision p g \<and>
      list_all2 (planned_node d p (nodes_of d (pl_repository p) (current_version d (pl_repository p))))
        (pl_nodes p) (lg_nodes g) \<and>
      list_all2 (planned_relation p) (pl_relations p) (lg_relations g) \<and>
      hard_edges_of (lg_relations g) = plan_hard_edges p) \<and>
    (\<forall>repo ver. revision_of d repo ver \<noteq> None \<longrightarrow> revision_of d' repo ver = revision_of d repo ver \<and>
       nodes_of d' repo ver = nodes_of d repo ver \<and> relations_of d' repo ver = relations_of d repo ver)"
proof (intro conjI allI impI)
  note c = replace_commit_Inr [OF assms(2) graph_wf_distinct [OF assms(1)]]
  note v = replace_commit_views [OF assms]
  let ?g = "\<lparr>lg_current = current_row p now, lg_revision = revision_row p now,
     lg_nodes = map (stored_node p d) (pl_nodes p), lg_relations = map (relation_row p) (pl_relations p)\<rparr>"
  have "load_graph d' (pl_repository p) False = Inr (d', ?g)"
    using read_graph_after_commit [OF assms] by (simp add: load_graph_def)
  moreover have "planned_revision p ?g" by (simp add: planned_revision_def current_row_def revision_row_def)
  moreover have "list_all2 (planned_node d p (nodes_of d (pl_repository p) (current_version d (pl_repository p))))
      (pl_nodes p) (lg_nodes ?g)"
    using planned_node_stored [OF assms] by (simp add: list_all2_map2 list_all2_same)
  moreover have "list_all2 (planned_relation p) (pl_relations p) (lg_relations ?g)"
    by (simp add: list_all2_map2 list_all2_same planned_relation_def relation_row_def)
  moreover have "hard_edges_of (lg_relations ?g) = plan_hard_edges p" by (simp add: hard_edges_of_plan)
  ultimately show "\<exists>g. load_graph d' (pl_repository p) False = Inr (d', g) \<and> planned_revision p g \<and>
      list_all2 (planned_node d p (nodes_of d (pl_repository p) (current_version d (pl_repository p))))
        (pl_nodes p) (lg_nodes g) \<and>
      list_all2 (planned_relation p) (pl_relations p) (lg_relations g) \<and>
      hard_edges_of (lg_relations g) = plan_hard_edges p" by blast
  fix repo ver
  assume old: "revision_of d repo ver \<noteq> None"
  show "revision_of d' repo ver = revision_of d repo ver"
    using revision_of_append [OF old, of d'] by (simp add: c(1))
  have "\<not> (repo = pl_repository p \<and> ver = pl_expected_current_version p + 1)"
    using old [unfolded revision_of_iff] c(4) by auto
  then show "nodes_of d' repo ver = nodes_of d repo ver" "relations_of d' repo ver = relations_of d repo ver"
    by (auto simp: v)
qed

definition replace_step :: "db \<Rightarrow> pydict \<times> string \<Rightarrow> db res" where
  "replace_step d w = bind_res (replace_graph d (fst w) (snd w) True True) (\<lambda>x. Inr (fst x))"

interpretation graph_cas: versioned_store replace_step current_version
  "\<lambda>w. str_of (py_get (fst w) ''repository'')" "\<lambda>w. int_of (py_get (fst w) ''expected_current_version'')"
  graph_wf
proof
  fix d w d'
  assume wf: "graph_wf d" and "replace_step d w = Inr d'"
  then obtain rc where ok: "replace_graph d (fst w) (snd w) True True = Inr (d', rc)"
    by (auto simp: replace_step_def guard_simps)
  note facts = replace_graph_version_facts [OF wf ok]
  show "graph_wf d'" "current_version d (str_of (py_get (fst w) ''repository'')) =
      int_of (py_get (fst w) ''expected_current_version'')"
    "current_version d' (str_of (py_get (fst w) ''repository'')) =
      int_of (py_get (fst w) ''expected_current_version'') + 1"
    using facts by simp_all
  fix k
  assume "k \<noteq> str_of (py_get (fst w) ''repository'')"
  then show "current_version d' k = current_version d k" using facts by simp
qed

definition replace_run_step :: "pydict \<times> string \<Rightarrow> db \<Rightarrow> db res" where
  "replace_run_step w d = replace_step d w"

lemma replace_run_step_eq: "replace_run_step = graph_cas.write_step"
  by (simp add: fun_eq_iff replace_run_step_def graph_cas.write_step_def)

text \<open>
  No graph replacement is lost. Along any run of committed replacements the version of a
  repository counts exactly the replacements of that repository, and a plan that names a version
  another plan has already replaced is refused from then on.
\<close>

theorem replace_graph_no_lost_update:
  assumes "graph_wf d" and "replace_step d (plan, now) = Inr d1"
    and "fold_res replace_run_step ws d1 = Inr d2"
    and "py_get rival ''repository'' = py_get plan ''repository''"
    and "py_get rival ''expected_current_version'' = py_get plan ''expected_current_version''"
  shows "(\<exists>e. replace_step d2 (rival, later) = Inl e) \<and>
    current_version d2 repo = current_version d1 repo +
      int (length (filter (\<lambda>w. str_of (py_get (fst w) ''repository'') = repo) ws))"
proof -
  have run: "fold_res graph_cas.write_step ws d1 = Inr d2" using assms(3) by (simp add: replace_run_step_eq)
  from graph_cas.no_lost_update [OF assms(1,2) run, of "(rival, later)"] assms(4,5)
  have "\<exists>e. replace_step d2 (rival, later) = Inl e" by simp
  with graph_cas.run_version [OF graph_cas.write_inv [OF assms(1,2)] run] show ?thesis by simp
qed


text \<open>
  C38: the transaction of an issue-set plan that passed the checks commits exactly when the named
  version is still current and every source is still the one named. In particular no primary or
  foreign key of the graph tables can reject it.
\<close>

theorem replace_commit_succeeds_iff:
  assumes "graph_wf d" and "replace_prepare d0 plan = Inr p" and "is_issue_set (pl_scope p)"
  shows "(\<exists>d' rc. replace_commit d p now = Inr (d', rc)) \<longleftrightarrow>
    current_version d (pl_repository p) = pl_expected_current_version p \<and> check_sources d p = Inr ()"
proof
  assume "\<exists>d' rc. replace_commit d p now = Inr (d', rc)"
  then show "current_version d (pl_repository p) = pl_expected_current_version p \<and> check_sources d p = Inr ()"
    using replace_commit_Inr(2,8) graph_wf_distinct [OF assms(1)] by blast
next
  assume "current_version d (pl_repository p) = pl_expected_current_version p \<and> check_sources d p = Inr ()"
  then show "\<exists>d' rc. replace_commit d p now = Inr (d', rc)"
    using replace_commit_progress [OF assms(1) replace_prepare_prepared(1) [OF assms(2)] assms(3)] by blast
qed

subsection \<open>Moving the main cursor\<close>

lemma sync_head_Inr:
  assumes "sync_head d repo sha ev eo now ens tr = Inr (d', res)"
  obtains m where "sync_head_body (d\<lparr>sqlite_master := m\<rparr>) repo sha ev eo now = Inr (d', res)"
    "set (sqlite_master d) \<subseteq> set m"
proof (cases ens)
  case True
  with assms have "sync_head_body (d\<lparr>sqlite_master := sqlite_master d @
      filter (\<lambda>t. t \<notin> set (sqlite_master d)) graph_tables\<rparr>) repo sha ev eo now = Inr (d', res)"
    by (auto simp: sync_head_def ensure_portfolio_graph_schema_def guard_simps)
  then show thesis by (rule that) simp
next
  case False
  with assms have "sync_head_body (d\<lparr>sqlite_master := sqlite_master d\<rparr>) repo sha ev eo now = Inr (d', res)"
    by (auto simp: sync_head_def guard_simps)
  then show thesis by (rule that) simp
qed

definition moved_cursor ::
  "string \<Rightarrow> int \<Rightarrow> string \<Rightarrow> string \<Rightarrow> string \<Rightarrow> string \<Rightarrow> string option \<Rightarrow> db \<Rightarrow> db" where
  "moved_cursor repo ev eo sha now health err d =
     d\<lparr>portfolio_graph_current := update_where
        (\<lambda>x. gp_repository x = repo \<and> gp_version x = ev \<and> gp_observed_main_sha x = eo)
        (\<lambda>x. x\<lparr>gp_observed_main_sha := sha, gp_health := health, gp_updated_at := now, gp_last_error := err\<rparr>)
        (portfolio_graph_current d)\<rparr>"

lemma sync_head_body_Inr:
  assumes "sync_head_body d repo sha ev eo now = Inr (d', res)"
  obtains c r scope health err where "graph_current_of d repo = Some c" "gp_version c = ev"
    "gp_observed_main_sha c = eo" "revision_of d repo ev = Some r" "gr_scope_json r = Some scope"
    "synced_health (scope_is_issue_set scope) (gr_accepted_main_sha r) sha (gp_health c) (gp_last_error c)
       = (health, err)"
    "sy_health res = health" "sy_version res = ev"
    "if eo = sha then d' = moved_cursor repo ev eo sha now health err d
     else \<exists>n i. min_issue (nodes_of d repo ev) = Some n \<and>
       enqueue_convergence_dirty_event (moved_cursor repo ev eo sha now health err d)
         (cursor_request repo ev n eo sha) now False = Inr (d', i)"
proof -
  from assms obtain c r scope where c: "graph_current_of d repo = Some c" "gp_version c = ev"
    "gp_observed_main_sha c = eo" "revision_of d repo ev = Some r" "gr_scope_json r = Some scope"
    by (auto simp: sync_head_body_def guard_simps current_join_def split: option.splits)
  obtain health err where h: "synced_health (scope_is_issue_set scope) (gr_accepted_main_sha r) sha
     (gp_health c) (gp_last_error c) = (health, err)" by fastforce
  show thesis
    by (rule that [OF c h])
      (use assms c h in \<open>auto simp: sync_head_body_def guard_simps current_join_def moved_cursor_def Let_def
        split: if_splits\<close>)
qed

lemma graph_current_of_moved:
  assumes "graph_current_of d repo = Some c" "gp_version c = ev" "gp_observed_main_sha c = eo"
  shows "graph_current_of (moved_cursor repo ev eo sha now health err d) other =
     (if other = repo then Some (c\<lparr>gp_observed_main_sha := sha, gp_health := health, gp_updated_at := now,
        gp_last_error := err\<rparr>) else graph_current_of d other)"
proof -
  have "gp_repository c = repo" using assms(1) by (auto simp: graph_current_of_def dest: find_SomeD)
  show ?thesis
  proof (cases "other = repo")
    case True
    then show ?thesis using assms \<open>gp_repository c = repo\<close>
      by (simp add: graph_current_of_def moved_cursor_def find_update_where)
  next
    case False
    then show ?thesis
      by (simp add: graph_current_of_def moved_cursor_def) (rule find_update_where_other; auto)
  qed
qed

text \<open>The invariant reads only the repository and the version of a current row.\<close>

lemma find_version_pairs:
  assumes "map (\<lambda>c. (gp_repository c, gp_version c)) xs = map (\<lambda>c. (gp_repository c, gp_version c)) ys"
  shows "map_option gp_version (List.find (\<lambda>c. gp_repository c = r) xs) =
    map_option gp_version (List.find (\<lambda>c. gp_repository c = r) ys)"
  using assms by (induction xs arbitrary: ys) (auto simp: Cons_eq_map_conv)

lemma current_version_option:
  "current_version d r = (case map_option gp_version (graph_current_of d r) of None \<Rightarrow> 0 | Some v \<Rightarrow> v)"
  by (simp add: current_version_def split: option.splits)

lemma graph_wf_current_update:
  assumes wf: "graph_wf d"
    and same: "map (\<lambda>c. (gp_repository c, gp_version c)) cur =
      map (\<lambda>c. (gp_repository c, gp_version c)) (portfolio_graph_current d)"
  shows "graph_wf (d\<lparr>portfolio_graph_current := cur\<rparr>)"
    and "current_version (d\<lparr>portfolio_graph_current := cur\<rparr>) = current_version d"
proof -
  let ?e = "d\<lparr>portfolio_graph_current := cur\<rparr>"
  show ver: "current_version ?e = current_version d"
    using find_version_pairs [OF same]
    by (intro ext) (simp add: current_version_option graph_current_of_def)
  have "map gp_repository cur = map gp_repository (portfolio_graph_current d)"
    using arg_cong [OF same, of "map fst"] by (simp add: comp_def)
  moreover have "(\<lambda>c. (gp_repository c, gp_version c)) ` set cur =
      (\<lambda>c. (gp_repository c, gp_version c)) ` set (portfolio_graph_current d)"
    using arg_cong [OF same, of set] by simp
  then have "\<forall>c \<in> set cur. 0 < gp_version c \<and>
      (gp_repository c, gp_version c) \<in> revision_pk ` set (portfolio_graph_revisions d)"
    using wf unfolding graph_wf_def by (smt (verit) Pair_inject imageE image_eqI)
  moreover have "nodes_of ?e = nodes_of d" "relations_of ?e = relations_of d"
    by (simp_all add: fun_eq_iff nodes_of_def relations_of_def)
  ultimately show "graph_wf ?e" using wf by (simp add: graph_wf_def ver)
qed

lemma moved_cursor_wf: "graph_wf d \<Longrightarrow> graph_wf (moved_cursor repo ev eo sha now health err d)"
  unfolding moved_cursor_def by (rule graph_wf_current_update) (auto simp: map_update_where)

lemma without_wakes_graph:
  assumes "without_wakes d' = without_wakes d"
  shows "graph_current_of d' = graph_current_of d" "revision_of d' = revision_of d"
    "nodes_of d' = nodes_of d" "relations_of d' = relations_of d" "graph_wf d' = graph_wf d"
    "current_version d' = current_version d"
  using without_wakes_fields [OF assms]
  by (simp_all add: fun_eq_iff graph_current_of_def revision_of_def nodes_of_def relations_of_def
      graph_wf_def current_version_def)

lemma min_issue_pos:
  assumes "ns \<noteq> []" and "\<forall>n \<in> set ns. 0 < gn_issue_number n"
  shows "\<exists>k. min_issue ns = Some k \<and> 0 < k"
proof -
  have "0 < fold (\<lambda>m k. min (gn_issue_number m) k) ms k"
    if "\<forall>m \<in> set ms. 0 < gn_issue_number m" "0 < k" for ms k
    using that by (induction ms arbitrary: k) auto
  with assms show ?thesis by (cases ns) (auto simp: min_issue_def)
qed

lemma synced_health_cases:
  assumes "synced_health issue_set accepted sha health last_error = (h, e)"
  shows "issue_set \<and> h = ''CURRENT'' \<and> health \<in> {''CURRENT'', ''STALE''} \<longrightarrow> sha = accepted"
    and "health = ''STALE'' \<and> last_error \<notin> {None, Some ''GRAPH_MAIN_DRIFT''} \<longrightarrow>
      h = ''STALE'' \<and> e = last_error"
    and "issue_set \<and> sha \<noteq> accepted \<longrightarrow> h = ''STALE''"
  using assms by (auto simp: synced_health_def Let_def split: if_splits)

text \<open>
  Moving the observed main commit is a compare-and-swap on the pair of graph version and
  previously observed commit. It moves only that repository's cursor, keeps the store well formed
  and every stored graph unchanged, marks an issue-set graph stale whenever main is not the
  commit it was accepted at, never hides a staleness that has another cause, and leaves a wake in
  the convergence queue whenever the commit changed.
\<close>

theorem sync_head_effect:
  assumes "graph_wf d" and "sync_head d repo sha ev eo now ens tr = Inr (d', res)"
  shows "graph_wf d' \<and> (\<forall>r v. nodes_of d' r v = nodes_of d r v \<and> relations_of d' r v = relations_of d r v) \<and>
    (\<forall>other. other \<noteq> repo \<longrightarrow> graph_current_of d' other = graph_current_of d other) \<and>
    (\<exists>c c'. graph_current_of d repo = Some c \<and> graph_current_of d' repo = Some c' \<and>
       gp_version c = ev \<and> gp_observed_main_sha c = eo \<and> gp_version c' = ev \<and>
       gp_observed_main_sha c' = sha \<and> gp_health c' = sy_health res \<and>
       (gp_health c = ''STALE'' \<and> gp_last_error c \<notin> {None, Some ''GRAPH_MAIN_DRIFT''} \<longrightarrow>
          gp_health c' = ''STALE'' \<and> gp_last_error c' = gp_last_error c) \<and>
       (\<exists>r scope. revision_of d repo ev = Some r \<and> gr_scope_json r = Some scope \<and>
          (scope_is_issue_set scope \<and> sha \<noteq> gr_accepted_main_sha r \<longrightarrow> gp_health c' = ''STALE''))) \<and>
    (eo \<noteq> sha \<and> table_installed d ''portfolio_dirty_events'' \<longrightarrow>
       (\<exists>n e. dirty_event_of d' (dirty_event_key (cursor_request repo ev n eo sha)) = Some e \<and>
          dirty_matches (cursor_request repo ev n eo sha) e))"
proof -
  from assms(2) obtain m where body: "sync_head_body (d\<lparr>sqlite_master := m\<rparr>) repo sha ev eo now = Inr (d', res)"
    and m: "set (sqlite_master d) \<subseteq> set m" by (rule sync_head_Inr)
  let ?d = "d\<lparr>sqlite_master := m\<rparr>"
  have views: "graph_current_of ?d = graph_current_of d" "revision_of ?d = revision_of d"
    "nodes_of ?d = nodes_of d" "relations_of ?d = relations_of d" "graph_wf ?d"
    using assms(1) by (simp_all add: fun_eq_iff graph_current_of_def revision_of_def nodes_of_def relations_of_def)
  from body obtain c r scope health err where
    c: "graph_current_of ?d repo = Some c" "gp_version c = ev" "gp_observed_main_sha c = eo"
    and r: "revision_of ?d repo ev = Some r" "gr_scope_json r = Some scope"
    and h: "synced_health (scope_is_issue_set scope) (gr_accepted_main_sha r) sha (gp_health c) (gp_last_error c)
       = (health, err)" and res: "sy_health res = health"
    and d': "if eo = sha then d' = moved_cursor repo ev eo sha now health err ?d
     else \<exists>n i. min_issue (nodes_of ?d repo ev) = Some n \<and>
       enqueue_convergence_dirty_event (moved_cursor repo ev eo sha now health err ?d)
         (cursor_request repo ev n eo sha) now False = Inr (d', i)"
    by (rule sync_head_body_Inr)
  let ?e = "moved_cursor repo ev eo sha now health err ?d"
  have "without_wakes d' = without_wakes ?e"
    using d' enqueue_dirty_frame by (metis (no_types, lifting))
  note same = without_wakes_graph [OF this]
  have e: "nodes_of ?e = nodes_of d" "relations_of ?e = relations_of d"
    using views by (simp_all add: moved_cursor_def fun_eq_iff nodes_of_def relations_of_def)
  have wake: "\<exists>n e. dirty_event_of d' (dirty_event_key (cursor_request repo ev n eo sha)) = Some e \<and>
          dirty_matches (cursor_request repo ev n eo sha) e"
    if "eo \<noteq> sha" "table_installed d ''portfolio_dirty_events''"
  proof -
    from d' that(1) obtain n i where
      enq: "enqueue_convergence_dirty_event ?e (cursor_request repo ev n eo sha) now False = Inr (d', i)"
      by auto
    have "table_installed ?e ''portfolio_dirty_events''"
      using m that(2) by (auto simp: table_installed_def moved_cursor_def)
    from enqueue_dirty_present [OF enq this] show ?thesis by blast
  qed
  have "graph_wf d'" using moved_cursor_wf [OF views(5)] same(5) by simp
  moreover have "\<forall>r v. nodes_of d' r v = nodes_of d r v \<and> relations_of d' r v = relations_of d r v"
    using same e by simp
  moreover have "\<forall>other. other \<noteq> repo \<longrightarrow> graph_current_of d' other = graph_current_of d other"
    using same(1) views(1) by (simp add: graph_current_of_moved [OF c])
  moreover have "graph_current_of d' repo = Some (c\<lparr>gp_observed_main_sha := sha, gp_health := health,
      gp_updated_at := now, gp_last_error := err\<rparr>)"
    using same(1) by (simp add: graph_current_of_moved [OF c])
  moreover note synced_health_cases(2,3) [OF h] wake c r res views(1,2)
  ultimately show ?thesis by (auto simp: views)
qed

subsection \<open>A concrete replacement\<close>

definition example_issue :: "int \<Rightarrow> github_current_row" where
  "example_issue n = \<lparr>gc_repository = HARNESS_REPOSITORY, gc_object_kind = ''issue'',
     gc_object_number = n, gc_payload_sha256 = example_sha, gc_source_updated_at = ''t0'',
     gc_fetched_at = ''t0''\<rparr>"

definition example_snapshot :: "int \<Rightarrow> github_snapshot_row" where
  "example_snapshot n = \<lparr>gs_repository = HARNESS_REPOSITORY, gs_object_kind = ''issue'',
     gs_object_number = n, gs_payload_sha256 = example_sha, gs_source_updated_at = ''t0'',
     gs_fetched_at = ''t0'', gs_payload_json = Some (PDict [(''state'', PStr ''open'')])\<rparr>"

definition example_db :: db where
  "example_db = empty_db\<lparr>github_current := [example_issue 1, example_issue 2],
     github_snapshots := [example_snapshot 1, example_snapshot 2]\<rparr>"

lemma example_db_wf: "graph_wf example_db"
  by (simp add: graph_wf_def example_db_def empty_db_def relations_of_def hard_edges_of_def acyclic_def)

lemma example_db_schema:
  "ensure_portfolio_graph_schema example_db = Inr example_db" "\<not> in_transaction example_db"
  by (simp_all add: ensure_portfolio_graph_schema_def guard_eval example_db_def empty_db_def)

lemma example_prepare_checked:
  "case replace_prepare example_db example_plan of
     Inr p \<Rightarrow> is_issue_set (pl_scope p) \<and> map pn_node_key (pl_nodes p) = [''issue:1'', ''issue:2'']
   | Inl _ \<Rightarrow> False"
  by code_simp

lemma example_replacement:
  obtains p d' rc where "replace_prepare example_db example_plan = Inr p" "is_issue_set (pl_scope p)"
    "map pn_node_key (pl_nodes p) = [''issue:1'', ''issue:2'']"
    "replace_commit example_db p ''t1'' = Inr (d', rc)"
    "replace_graph example_db example_plan ''t1'' True True = Inr (d', rc)"
proof -
  from example_prepare_checked obtain p where p: "replace_prepare example_db example_plan = Inr p"
    "is_issue_set (pl_scope p)" "map pn_node_key (pl_nodes p) = [''issue:1'', ''issue:2'']"
    by (auto split: sum.splits)
  note pp = replace_prepare_prepared [OF p(1)]
  from replace_commit_progress [OF example_db_wf pp(1) p(2) pp(3,4)] obtain d' rc where
    c: "replace_commit example_db p ''t1'' = Inr (d', rc)" by blast
  then have "replace_graph example_db example_plan ''t1'' True True = Inr (d', rc)"
    using p(1) by (simp add: replace_graph_def guard_eval example_db_schema)
  with p c show thesis by (rule that)
qed

theorem replace_graph_wf_witness:
  "\<exists>d' rc. replace_graph example_db example_plan ''t1'' True True = Inr (d', rc) \<and> graph_wf d' \<and>
     current_version d' HARNESS_REPOSITORY = 1"
proof -
  from example_replacement obtain d' rc where
    r: "replace_graph example_db example_plan ''t1'' True True = Inr (d', rc)" by blast
  have "str_of (py_get example_plan ''repository'') = HARNESS_REPOSITORY"
    "current_version example_db HARNESS_REPOSITORY = 0" by code_simp+
  with replace_graph_wf [OF example_db_wf r] r show ?thesis by auto
qed

theorem replace_graph_readback_witness:
  "\<exists>p d' rc g. replace_commit example_db p ''t1'' = Inr (d', rc) \<and> load_graph d' (pl_repository p) False = Inr (d', g) \<and>
     map gn_node_key (lg_nodes g) = [''issue:1'', ''issue:2''] \<and> gp_version (lg_current g) = pl_expected_current_version p + 1"
proof -
  from example_replacement obtain p d' rc where
    r: "replace_commit example_db p ''t1'' = Inr (d', rc)"
       "map pn_node_key (pl_nodes p) = [''issue:1'', ''issue:2'']" by metis
  from replace_graph_readback [OF example_db_wf r(1)] obtain g where g: "load_graph d' (pl_repository p) False = Inr (d', g)"
    "planned_revision p g" "list_all2 (planned_node example_db p
        (nodes_of example_db (pl_repository p) (current_version example_db (pl_repository p)))) (pl_nodes p) (lg_nodes g)"
    by blast
  from g(3) have "map gn_node_key (lg_nodes g) = map pn_node_key (pl_nodes p)"
    by (induction rule: list_all2_induct) (simp_all add: planned_node_def)
  with r(2) have "map gn_node_key (lg_nodes g) = [''issue:1'', ''issue:2'']" by simp
  moreover have "gp_version (lg_current g) = pl_expected_current_version p + 1" using g(2) by (simp add: planned_revision_def)
  ultimately show ?thesis using r(1) g(1)
    by (intro exI [of _ p] exI [of _ d'] exI [of _ rc] exI [of _ g]) simp
qed

theorem replace_graph_no_lost_update_witness:
  "\<exists>d' e. replace_step example_db (example_plan, ''t1'') = Inr d' \<and>
     replace_step d' (example_plan, ''t2'') = Inl e"
proof -
  from example_replacement obtain d' rc where
    "replace_graph example_db example_plan ''t1'' True True = Inr (d', rc)" by blast
  then have step: "replace_step example_db (example_plan, ''t1'') = Inr d'"
    by (simp add: replace_step_def)
  from replace_graph_no_lost_update [OF example_db_wf step, of "[]" d' example_plan "''t2''"] step
  show ?thesis by auto
qed

theorem replace_commit_succeeds_iff_witness:
  "\<exists>p d' rc. replace_prepare example_db example_plan = Inr p \<and>
     current_version example_db (pl_repository p) = pl_expected_current_version p \<and>
     replace_commit example_db p ''t1'' = Inr (d', rc)"
proof -
  from example_replacement obtain p where
    p: "replace_prepare example_db example_plan = Inr p" "is_issue_set (pl_scope p)" by metis
  from replace_commit_succeeds_iff [OF example_db_wf p, of "''t1''"] replace_prepare_prepared(3,4) [OF p(1)] p(1)
  show ?thesis by blast
qed


lemma enqueue_dirty_fresh:
  assumes "dirty_row_inserted d r"
  shows "\<exists>d' i. enqueue_convergence_dirty_event d r now False = Inr (d', i)"
proof -
  have "dirty_event_of (d\<lparr>portfolio_dirty_events := portfolio_dirty_events d @ [new_dirty_event d r now]\<rparr>)
      (dirty_event_key r) = Some (new_dirty_event d r now)"
    using assms by (simp add: dirty_event_of_def find_append dirty_row_inserted_def)
  with assms show ?thesis
    by (simp add: enqueue_convergence_dirty_event_def Let_def guard_eval)
qed

lemma example_sync:
  obtains d d' res where "graph_wf d"
    "sync_head d HARNESS_REPOSITORY (replicate 40 (CHR ''c'')) 1 (replicate 40 (CHR ''b'')) ''t2'' False True
       = Inr (d', res)"
proof -
  from example_replacement obtain p d rc where p: "replace_prepare example_db example_plan = Inr p"
    and c: "replace_commit example_db p ''t1'' = Inr (d, rc)"
    and scope: "is_issue_set (pl_scope p)" and keys: "map pn_node_key (pl_nodes p) = [''issue:1'', ''issue:2'']" by metis
  have hd: "pl_repository p = HARNESS_REPOSITORY" "pl_expected_current_version p = 0"
    "pl_accepted_main_sha p = replicate 40 (CHR ''b'')"
    using validate_plan_header [OF replace_prepare_prepared(2) [OF p]]
    by (simp_all add: example_plan_def py_get_def)
  have nodes: "pl_nodes p \<noteq> []" "\<forall>n \<in> set (pl_nodes p). 0 < pn_issue_number n"
    using replace_prepare_prepared(1) [OF p] by (auto simp: prepared_def plan_wf_def nodes_ok_def node_ok_def)
  note cl = replace_commit_Inr(1) [OF c graph_wf_distinct [OF example_db_wf]]
  note v = replace_commit_views [OF example_db_wf c]
  have load: "current_join d HARNESS_REPOSITORY = Some (current_row p ''t1'', revision_row p ''t1'')"
    using read_graph_after_commit [OF example_db_wf c] hd by (auto simp: read_graph_def guard_simps)
  have cur: "portfolio_graph_current d = [current_row p ''t1'']"
    by (simp add: cl upsert_def example_db_def empty_db_def)
  obtain n where n: "min_issue (nodes_of d HARNESS_REPOSITORY 1) = Some n" "0 < n"
    using nodes min_issue_pos [of "nodes_of d HARNESS_REPOSITORY 1"] hd by (auto simp: v)
  let ?r = "cursor_request HARNESS_REPOSITORY 1 n (replicate 40 (CHR ''b'')) (replicate 40 (CHR ''c''))"
  have "dirty_row_inserted (d\<lparr>portfolio_graph_current := x\<rparr>) ?r" for x
    using n(2) by (simp add: dirty_row_inserted_def dirty_event_of_def cl example_db_def empty_db_def
        cursor_request_def)
  note enq = enqueue_dirty_fresh [OF this]
  have obs: "gp_observed_main_sha (current_row p ''t1'') = replicate 40 (CHR ''b'')"
    "gr_scope_json (revision_row p ''t1'') = Some (scope_value (pl_scope p))"
    by (simp_all add: current_row_def hd revision_row_def)
  have "\<exists>d' res. sync_head_body d HARNESS_REPOSITORY (replicate 40 (CHR ''c'')) 1 (replicate 40 (CHR ''b'')) ''t2''
       = Inr (d', res)"
  proof -
    obtain health err where h: "synced_health (scope_is_issue_set (scope_value (pl_scope p)))
        (gr_accepted_main_sha (revision_row p ''t1'')) (replicate 40 (CHR ''c''))
        ''CURRENT'' (gp_last_error (current_row p ''t1'')) = (health, err)"
      by fastforce
    from enq obtain d' i where "enqueue_convergence_dirty_event
        (moved_cursor HARNESS_REPOSITORY 1 (replicate 40 (CHR ''b'')) (replicate 40 (CHR ''c'')) ''t2'' health err d)
        ?r ''t2'' False = Inr (d', i)"
      unfolding moved_cursor_def by blast
    then show ?thesis
      using n(1) hd by (simp add: sync_head_body_def guard_eval load obs h cur moved_cursor_def)
  qed
  then obtain d' res where "sync_head_body d HARNESS_REPOSITORY (replicate 40 (CHR ''c'')) 1 (replicate 40 (CHR ''b'')) ''t2''
       = Inr (d', res)" by blast
  moreover have "\<not> in_transaction d" by (simp add: cl example_db_schema)
  moreover have "REPOSITORY HARNESS_REPOSITORY" "GIT_SHA (replicate 40 (CHR ''b''))" "GIT_SHA (replicate 40 (CHR ''c''))"
    by code_simp+
  ultimately show thesis
    using that [OF replace_commit_wf [OF example_db_wf c replace_prepare_prepared(1) [OF p]]]
    by (simp add: sync_head_def validate_repository_def guard_eval)
qed

theorem sync_head_effect_witness:
  "\<exists>d d' res c'. sync_head d HARNESS_REPOSITORY (replicate 40 (CHR ''c'')) 1 (replicate 40 (CHR ''b''))
       ''t2'' False True = Inr (d', res) \<and> graph_wf d' \<and>
     graph_current_of d' HARNESS_REPOSITORY = Some c' \<and> gp_observed_main_sha c' = replicate 40 (CHR ''c'')"
proof -
  from example_sync obtain d d' res where "graph_wf d" and
    s: "sync_head d HARNESS_REPOSITORY (replicate 40 (CHR ''c'')) 1 (replicate 40 (CHR ''b'')) ''t2'' False True
       = Inr (d', res)" by blast
  from sync_head_effect [OF this] s show ?thesis by blast
qed

end
