(* ===== verification/Graph_Eval.thy ===== *)
theory Graph_Eval
  imports Graph_Invariant
begin

section \<open>Evaluating the portfolio graph\<close>

text \<open>
  \<open>_terminal\<close> and \<open>evaluate_graph\<close> of portfolio_graph.py: which nodes of the current graph are
  finished, blocked or ready, how much work hangs on each, and why the graph may not be trusted.
  The dictionaries \<open>critical\<close> and \<open>descendants\<close> are functions from node keys, filled in reverse
  dependency order as in the source.

  Exclusions are stored by \<open>replace_graph\<close> after validation, so their issue numbers are integers;
  for the text of a stale reason a list or dictionary in that place is printed as JSON.
\<close>

subsection \<open>Finished issues\<close>

definition terminal_issue :: "db \<Rightarrow> string \<Rightarrow> int \<Rightarrow> bool res" where
  "terminal_issue d repository issue_number =
     (case item_of d repository issue_number of
        Some item \<Rightarrow> Inr (it_status item = ''DONE'')
      | None \<Rightarrow> (case snapshot_of d repository issue_number of
                   Inl _ \<Rightarrow> Inr False
                 | Inr (c, s) \<Rightarrow>
                     require_some (ValueError ''JSONDecodeError'') (gs_payload_json s) (\<lambda>payload.
                       guarded [(\<not> is_dict payload, AttributeError)]
                         (Inr (py_eq (py_get (dict_of payload) ''state'') (PStr ''closed''))))))"

subsection \<open>Stale reasons\<close>

definition node_stale_reason :: "db \<Rightarrow> string \<Rightarrow> graph_node_row \<Rightarrow> string list" where
  "node_stale_reason d repository n =
     (case snapshot_of d repository (gn_issue_number n) of
        Inl _ \<Rightarrow> [''GRAPH_SOURCE_MISSING:'' @ gn_node_key n]
      | Inr (c, s) \<Rightarrow> if gc_payload_sha256 c \<noteq> gn_source_payload_sha256 n
                      then [''GRAPH_SOURCE_DRIFT:'' @ gn_node_key n] else [])"

fun py_int_of :: "pyval \<Rightarrow> int option" where
  "py_int_of (PInt i) = Some i"
| "py_int_of (PBool b) = Some (if b then 1 else 0)"
| "py_int_of (PStr s) = (if s \<noteq> [] \<and> list_all is_digit s then Some (int (nat_of_digits s)) else None)"
| "py_int_of _ = None"

fun py_text :: "pyval \<Rightarrow> string" where
  "py_text PNone = ''None''"
| "py_text (PBool b) = (if b then ''True'' else ''False'')"
| "py_text (PStr s) = s"
| "py_text v = canonical_json v"

definition exclusion_stale_reason :: "db \<Rightarrow> string \<Rightarrow> pyval \<Rightarrow> string list" where
  "exclusion_stale_reason d repository x =
     (if \<not> is_dict x then [''GRAPH_SCOPE_INVALID'']
      else let number = py_get (dict_of x) ''issue_number'' in
        case py_int_of number of
          None \<Rightarrow> [''GRAPH_SOURCE_MISSING:issue:'' @ py_text number]
        | Some n \<Rightarrow> (case snapshot_of d repository n of
            Inl _ \<Rightarrow> [''GRAPH_SOURCE_MISSING:issue:'' @ py_text number]
          | Inr (c, s) \<Rightarrow>
              if PStr (gc_payload_sha256 c) \<noteq> py_get (dict_of x) ''source_payload_sha256''
              then [''GRAPH_SOURCE_DRIFT:issue:'' @ py_text number] else []))"

definition scope_stale_reasons :: "db \<Rightarrow> string \<Rightarrow> graph_revision_row \<Rightarrow> string list" where
  "scope_stale_reasons d repository r =
     (case (gr_scope_json r, gr_exclusions_json r) of
        (Some scope, Some exclusions) \<Rightarrow>
          if scope_is_issue_set scope then
            if is_list exclusions then concat (map (exclusion_stale_reason d repository) (list_of exclusions))
            else [''GRAPH_SCOPE_INVALID'']
          else []
      | _ \<Rightarrow> [''GRAPH_SCOPE_INVALID''])"

definition stale_reasons :: "db \<Rightarrow> string \<Rightarrow> string \<Rightarrow> loaded_graph \<Rightarrow> string list" where
  "stale_reasons d repository current_main g =
     (if gp_health (lg_current g) \<noteq> ''CURRENT''
      then [case gp_last_error (lg_current g) of None \<Rightarrow> ''GRAPH_STALE'' | Some e \<Rightarrow> if e = [] then ''GRAPH_STALE'' else e]
      else []) @
     (if gp_observed_main_sha (lg_current g) \<noteq> current_main then [''GRAPH_CURSOR_DRIFT''] else []) @
     concat (map (node_stale_reason d repository) (lg_nodes g)) @
     scope_stale_reasons d repository (lg_revision g)"

subsection \<open>Critical path and descendants\<close>

definition predecessors_of :: "(string \<times> string) list \<Rightarrow> string \<Rightarrow> string list" where
  "predecessors_of edges k = map fst (filter (\<lambda>e. snd e = k) edges)"

definition max_default :: "int list \<Rightarrow> int" where
  "max_default xs = (case xs of [] \<Rightarrow> 0 | x # ys \<Rightarrow> fold max ys x)"

definition critical_step ::
  "(string \<Rightarrow> bool) \<Rightarrow> (string \<Rightarrow> int) \<Rightarrow> (string \<times> string) list \<Rightarrow> string \<Rightarrow> (string \<Rightarrow> int) \<Rightarrow> (string \<Rightarrow> int)" where
  "critical_step terminal estimate edges k critical =
     critical(k := if terminal k then 0 else estimate k + max_default (map critical (outgoing edges k)))"

definition critical_paths ::
  "(string \<Rightarrow> bool) \<Rightarrow> (string \<Rightarrow> int) \<Rightarrow> (string \<times> string) list \<Rightarrow> string list \<Rightarrow> (string \<Rightarrow> int)" where
  "critical_paths terminal estimate edges order =
     fold (critical_step terminal estimate edges) (rev order) (\<lambda>_. 0)"

definition descendants_step ::
  "(string \<times> string) list \<Rightarrow> string \<Rightarrow> (string \<Rightarrow> string list) \<Rightarrow> (string \<Rightarrow> string list)" where
  "descendants_step edges k descendants =
     descendants(k := remdups (concat (map (\<lambda>c. c # descendants c) (outgoing edges k))))"

definition descendants_table :: "(string \<times> string) list \<Rightarrow> string list \<Rightarrow> (string \<Rightarrow> string list)" where
  "descendants_table edges order = fold (descendants_step edges) (rev order) (\<lambda>_. [])"

subsection \<open>Projections\<close>

record projection =
  pj_node_key :: string
  pj_issue_number :: int
  pj_role :: string
  pj_milestone_title :: "string option"
  pj_milestone_rank :: "int option"
  pj_item_status :: "string option"
  pj_terminal :: bool
  pj_blocked_by :: "string list"
  pj_structurally_ready :: bool
  pj_executable_ready :: bool
  pj_actionable_orphan :: bool
  pj_critical_path_units :: int
  pj_descendant_count :: nat
  pj_immediate_unlocks :: nat
  pj_critical_hold :: bool

record inversion =
  iv_predecessor :: string
  iv_successor :: string
  iv_predecessor_milestone :: "string option"
  iv_successor_milestone :: "string option"

record evaluation =
  gv_repository :: string
  gv_version :: int
  gv_graph_sha256 :: string
  gv_health :: string
  gv_stale_reasons :: "string list"
  gv_milestone_inversions :: "inversion list"
  gv_critical_path_holds :: "string list"
  gv_nodes :: "projection list"

definition node_named :: "graph_node_row list \<Rightarrow> string \<Rightarrow> graph_node_row option" where
  "node_named ns k = List.find (\<lambda>n. gn_node_key n = k) ns"

definition blockers_of :: "(string \<Rightarrow> bool) \<Rightarrow> (string \<times> string) list \<Rightarrow> string \<Rightarrow> string list" where
  "blockers_of terminal edges k = filter (\<lambda>p. \<not> terminal p) (sort (predecessors_of edges k))"

definition immediate_unlocks :: "(string \<Rightarrow> bool) \<Rightarrow> (string \<times> string) list \<Rightarrow> string \<Rightarrow> nat" where
  "immediate_unlocks terminal edges k =
     length (filter (\<lambda>c. \<forall>p \<in> set (predecessors_of edges c). terminal p \<or> p = k) (outgoing edges k))"

definition project_node ::
  "db \<Rightarrow> string \<Rightarrow> (string \<times> string) list \<Rightarrow> (string \<Rightarrow> bool) \<Rightarrow> (string \<Rightarrow> int) \<Rightarrow> (string \<Rightarrow> string list) \<Rightarrow>
   graph_node_row \<Rightarrow> projection" where
  "project_node d repository edges terminal critical descendants n =
     (let k = gn_node_key n; status = map_option it_status (item_of d repository (gn_issue_number n));
          blockers = blockers_of terminal edges k;
          ready = (gn_dispatchable n \<and> \<not> terminal k \<and> blockers = []) in
      \<lparr>pj_node_key = k, pj_issue_number = gn_issue_number n, pj_role = gn_role n,
       pj_milestone_title = gn_milestone_title n, pj_milestone_rank = gn_milestone_rank n,
       pj_item_status = status, pj_terminal = terminal k, pj_blocked_by = blockers,
       pj_structurally_ready = ready, pj_executable_ready = (ready \<and> status = Some ''READY''),
       pj_actionable_orphan = (\<not> terminal k \<and> gn_root_kind n = ''NORMAL'' \<and> predecessors_of edges k = []),
       pj_critical_path_units = critical k, pj_descendant_count = length (descendants k),
       pj_immediate_unlocks = immediate_unlocks terminal edges k,
       pj_critical_hold = (gn_role n = ''SERIAL_GATE'' \<and> status = Some ''HOLD'' \<and> descendants k \<noteq> [])\<rparr>)"

definition milestone_inversions :: "graph_node_row list \<Rightarrow> (string \<times> string) list \<Rightarrow> inversion list" where
  "milestone_inversions ns edges =
     List.map_filter (\<lambda>(l, r). case (node_named ns l, node_named ns r) of
        (Some left, Some right) \<Rightarrow>
          (case (gn_milestone_rank left, gn_milestone_rank right) of
             (Some a, Some b) \<Rightarrow> if a > b
               then Some \<lparr>iv_predecessor = l, iv_successor = r,
                          iv_predecessor_milestone = gn_milestone_title left,
                          iv_successor_milestone = gn_milestone_title right\<rparr>
               else None
           | _ \<Rightarrow> None)
      | _ \<Rightarrow> None) edges"

definition terminal_table :: "db \<Rightarrow> string \<Rightarrow> graph_node_row list \<Rightarrow> (string \<Rightarrow> bool) res" where
  "terminal_table d repository ns =
     bind_res (map_res (\<lambda>n. bind_res (terminal_issue d repository (gn_issue_number n))
                        (\<lambda>t. Inr (gn_node_key n, t))) ns)
       (\<lambda>table. Inr (\<lambda>k. map_of table k = Some True))"

definition estimate_of :: "graph_node_row list \<Rightarrow> string \<Rightarrow> int" where
  "estimate_of ns k = (case node_named ns k of None \<Rightarrow> 0 | Some n \<Rightarrow> gn_estimate_units n)"

definition evaluate_loaded :: "db \<Rightarrow> string \<Rightarrow> string \<Rightarrow> loaded_graph \<Rightarrow> evaluation res" where
  "evaluate_loaded d repository current_main g =
     (let reasons = stale_reasons d repository current_main g;
          ns = lg_nodes g; edges = hard_edges_of (lg_relations g) in
      bind_res (topological_order (map gn_node_key ns) edges) (\<lambda>order.
      bind_res (terminal_table d repository ns) (\<lambda>terminal.
      bind_res (map_res (\<lambda>k. require_some KeyError (node_named ns k) Inr) order) (\<lambda>ordered.
      let critical = critical_paths terminal (estimate_of ns) edges order;
          descendants = descendants_table edges order;
          projections = map (project_node d repository edges terminal critical descendants) ordered in
      Inr \<lparr>gv_repository = repository, gv_version = gp_version (lg_current g),
           gv_graph_sha256 = gr_graph_sha256 (lg_revision g),
           gv_health = (if reasons = [] then ''CURRENT'' else ''STALE''),
           gv_stale_reasons = sort (remdups reasons),
           gv_milestone_inversions = milestone_inversions ns edges,
           gv_critical_path_holds = map pj_node_key (filter pj_critical_hold projections),
           gv_nodes = projections\<rparr>))))"

text \<open>
  \<open>ensure_schema\<close> is the flag \<open>_ensure_schema\<close>, true by default, which \<open>_load_graph\<close> gets; the callers inside
  the program that already have a transaction pass false. The database is returned with the tables.
\<close>

definition evaluate_graph :: "db \<Rightarrow> string \<Rightarrow> string \<Rightarrow> bool \<Rightarrow> (db \<times> evaluation) res" where
  "evaluate_graph d repository current_main ensure_schema =
     bind_res (validate_repository (PStr repository)) (\<lambda>_.
     guarded [(\<not> GIT_SHA current_main, graph_error ''GRAPH_MAIN_INVALID'')]
     (bind_res (load_graph d repository ensure_schema) (\<lambda>(d, g).
      bind_res (evaluate_loaded d repository current_main g) (\<lambda>v. Inr (d, v)))))"

subsection \<open>Tables filled in reverse dependency order\<close>

text \<open>
  Both tables are filled from the end of a legal order, so that every successor of a node is in the
  table before the node itself. \<open>settled\<close> says so of a list; the table then solves its own
  defining equation.
\<close>

fun settled :: "('k \<Rightarrow> 'k list) \<Rightarrow> 'k list \<Rightarrow> bool" where
  "settled children [] = True"
| "settled children (k # ks) = (set (children k) \<subseteq> set ks \<and> k \<notin> set ks \<and> settled children ks)"

lemma legal_settled:
  assumes "legal edges P zs" and "snd ` set edges \<subseteq> P \<union> set zs"
    and "\<forall>e \<in> set edges. snd e \<in> P \<longrightarrow> fst e \<in> P"
  shows "settled (outgoing edges) zs"
  using assms
proof (induction zs arbitrary: P)
  case Nil
  then show ?case by simp
next
  case (Cons z zs)
  have "set (outgoing edges z) \<subseteq> set zs"
  proof
    fix c
    assume "c \<in> set (outgoing edges z)"
    then have e: "(z, c) \<in> set edges" by (auto simp: outgoing_def)
    with Cons.prems(1,3) have "c \<notin> P" "c \<noteq> z" by force+
    with e Cons.prems(2) show "c \<in> set zs" by force
  qed
  moreover have "settled (outgoing edges) zs"
    by (rule Cons.IH [of "insert z P"]) (use Cons.prems in auto)
  moreover have "z \<notin> set zs" using legal_distinct [OF Cons.prems(1)] by simp
  ultimately show ?case by simp
qed

lemma settled_children: "settled children ks \<Longrightarrow> k \<in> set ks \<Longrightarrow> set (children k) \<subseteq> set ks"
  by (induction ks) auto

lemma settled_induct:
  assumes "settled children ks"
    and "\<And>k. k \<in> set ks \<Longrightarrow> (\<And>c. c \<in> set (children k) \<Longrightarrow> P c) \<Longrightarrow> P k"
  shows "\<forall>k \<in> set ks. P k"
  using assms by (induction ks) auto

lemma settled_table:
  fixes F :: "'k \<Rightarrow> ('k \<times> 'v) list \<Rightarrow> 'v" and t0 :: "'k \<Rightarrow> 'v"
  assumes "settled children ks" and "k \<in> set ks"
  defines "T \<equiv> \<lambda>ks. foldr (\<lambda>k t. t(k := F k (map (\<lambda>c. (c, t c)) (children k)))) ks t0"
  shows "T ks k = F k (map (\<lambda>c. (c, T ks c)) (children k))"
  using assms(1,2)
proof (induction ks)
  case Nil
  then show ?case by simp
next
  case (Cons j js)
  have eq: "T (j # js) = (T js)(j := F j (map (\<lambda>c. (c, T js c)) (children j)))"
    by (simp add: T_def)
  have "set (children k) \<subseteq> set js"
    using Cons.prems settled_children [of children js k] by auto
  then have same: "map (\<lambda>c. (c, T (j # js) c)) (children k) = map (\<lambda>c. (c, T js c)) (children k)"
    using Cons.prems(1) by (auto simp: eq)
  have "T (j # js) k = F k (map (\<lambda>c. (c, T js c)) (children k))"
    using Cons by (cases "k = j") (auto simp: eq)
  then show ?case by (simp only: same)
qed

subsection \<open>Descendants are the transitive closure\<close>

lemma descendants_equation:
  assumes "settled (outgoing edges) order" and "k \<in> set order"
  shows "descendants_table edges order k =
    remdups (concat (map (\<lambda>c. c # descendants_table edges order c) (outgoing edges k)))"
  using settled_table [OF assms, of "\<lambda>k cs. remdups (concat (map (\<lambda>(c, ds). c # ds) cs))" "\<lambda>_. []"]
  by (simp add: descendants_table_def foldr_conv_fold descendants_step_def [abs_def] comp_def)

lemma trancl_first_step: "(k, x) \<in> R\<^sup>+ \<longleftrightarrow> (k, x) \<in> R \<or> (\<exists>c. (k, c) \<in> R \<and> (c, x) \<in> R\<^sup>+)"
  by (meson r_into_trancl' trancl_into_trancl2 converse_tranclE)

lemma set_outgoing: "set (outgoing edges k) = {c. (k, c) \<in> set edges}"
  by (force simp: outgoing_def)

lemma descendants_trancl:
  assumes "settled (outgoing edges) order"
  shows "\<forall>k \<in> set order. set (descendants_table edges order k) = {x. (k, x) \<in> (set edges)\<^sup>+}"
  using assms
proof (rule settled_induct)
  fix k
  assume k: "k \<in> set order" and ih: "\<And>c. c \<in> set (outgoing edges k) \<Longrightarrow>
     set (descendants_table edges order c) = {x. (c, x) \<in> (set edges)\<^sup>+}"
  have "set (descendants_table edges order k) =
      (\<Union>c \<in> set (outgoing edges k). insert c (set (descendants_table edges order c)))"
    by (subst descendants_equation [OF assms k]) simp
  also have "\<dots> = (\<Union>c \<in> set (outgoing edges k). insert c {x. (c, x) \<in> (set edges)\<^sup>+})" using ih by simp
  also have "\<dots> = {x. (k, x) \<in> (set edges)\<^sup>+}"
    by (auto simp: set_outgoing trancl_first_step [of k])
  finally show "set (descendants_table edges order k) = {x. (k, x) \<in> (set edges)\<^sup>+}" .
qed

lemma descendants_distinct:
  "settled (outgoing edges) order \<Longrightarrow> k \<in> set order \<Longrightarrow> distinct (descendants_table edges order k)"
  by (subst descendants_equation) auto

subsection \<open>The critical path is the heaviest chain of unfinished work\<close>

fun chain :: "(string \<Rightarrow> bool) \<Rightarrow> (string \<times> string) list \<Rightarrow> string list \<Rightarrow> bool" where
  "chain terminal edges [] = False"
| "chain terminal edges [k] = (\<not> terminal k)"
| "chain terminal edges (k # c # cs) =
     (\<not> terminal k \<and> (k, c) \<in> set edges \<and> chain terminal edges (c # cs))"

definition chain_weight :: "(string \<Rightarrow> int) \<Rightarrow> string list \<Rightarrow> int" where
  "chain_weight estimate ks = sum_list (map estimate ks)"

lemma chain_cong:
  assumes "\<forall>x \<in> N. t x = f x" and "set edges \<subseteq> N \<times> N" and "k \<in> N"
  shows "chain t edges (k # ks) = chain f edges (k # ks)"
  using assms(3)
proof (induction ks arbitrary: k)
  case Nil
  then show ?case using assms(1) by simp
next
  case (Cons c cs)
  then show ?case using assms(1,2) by auto
qed

lemma max_default_ge: "x \<in> set xs \<Longrightarrow> x \<le> max_default xs"
  by (cases xs) (auto simp: max_default_def Max.set_eq_fold [symmetric])

lemma max_default_mem: "xs \<noteq> [] \<Longrightarrow> max_default xs \<in> set xs"
  using Max_in [of "set xs"] by (cases xs) (auto simp: max_default_def Max.set_eq_fold [symmetric])

lemma critical_equation:
  assumes "settled (outgoing edges) order" and "k \<in> set order"
  shows "critical_paths terminal estimate edges order k =
    (if terminal k then 0
     else estimate k + max_default (map (critical_paths terminal estimate edges order) (outgoing edges k)))"
proof -
  let ?F = "\<lambda>k cs. if terminal k then 0 else estimate k + max_default (map snd cs)"
  have "critical_paths terminal estimate edges order =
      foldr (\<lambda>k t. t(k := ?F k (map (\<lambda>c. (c, t c)) (outgoing edges k)))) order (\<lambda>_. 0)"
    by (simp add: critical_paths_def foldr_conv_fold critical_step_def [abs_def] comp_def cong: if_cong)
  from settled_table [OF assms, of ?F "\<lambda>_. 0", folded this] show ?thesis
    by (simp add: comp_def)
qed

lemma critical_path_chain:
  assumes "settled (outgoing edges) order" and "\<forall>k \<in> set order. 0 < estimate k"
  shows "\<forall>k \<in> set order. 0 \<le> critical_paths terminal estimate edges order k \<and>
    (\<forall>ks. chain terminal edges (k # ks) \<longrightarrow>
       chain_weight estimate (k # ks) \<le> critical_paths terminal estimate edges order k) \<and>
    (\<not> terminal k \<longrightarrow> (\<exists>ks. chain terminal edges (k # ks) \<and>
       chain_weight estimate (k # ks) = critical_paths terminal estimate edges order k))"
  using assms(1)
proof (rule settled_induct)
  fix k
  let ?C = "critical_paths terminal estimate edges order"
  let ?P = "\<lambda>k. 0 \<le> ?C k \<and> (\<forall>ks. chain terminal edges (k # ks) \<longrightarrow> chain_weight estimate (k # ks) \<le> ?C k) \<and>
    (\<not> terminal k \<longrightarrow> (\<exists>ks. chain terminal edges (k # ks) \<and> chain_weight estimate (k # ks) = ?C k))"
  assume k: "k \<in> set order" and ih: "\<And>c. c \<in> set (outgoing edges k) \<Longrightarrow> ?P c"
  note eq = critical_equation [OF assms(1) k, of terminal estimate]
  let ?M = "max_default (map ?C (outgoing edges k))"
  have M: "0 \<le> ?M"
    using max_default_mem [of "map ?C (outgoing edges k)"] ih by (cases "outgoing edges k") (auto simp: max_default_def)
  show "?P k"
  proof (cases "terminal k")
    case True
    have "\<not> chain terminal edges (k # ks)" for ks using True by (cases ks) auto
    with True eq show ?thesis by simp
  next
    case False
    then have C: "?C k = estimate k + ?M" using eq by simp
    have upper: "chain_weight estimate (k # ks) \<le> ?C k" if "chain terminal edges (k # ks)" for ks
    proof (cases ks)
      case Nil
      then show ?thesis using C M by (simp add: chain_weight_def)
    next
      case (Cons c cs)
      with that have c: "c \<in> set (outgoing edges k)" "chain terminal edges (c # cs)"
        by (simp_all add: set_outgoing)
      with ih have "chain_weight estimate (c # cs) \<le> ?C c" by blast
      also have "\<dots> \<le> ?M" using c(1) by (intro max_default_ge) simp
      finally show ?thesis using C Cons by (simp add: chain_weight_def)
    qed
    have "\<exists>ks. chain terminal edges (k # ks) \<and> chain_weight estimate (k # ks) = ?C k"
    proof (cases "?M = 0")
      case True
      with False C show ?thesis by (intro exI [of _ "[]"]) (simp add: chain_weight_def)
    next
      case nonzero: False
      then have "map ?C (outgoing edges k) \<noteq> []" by (auto simp: max_default_def)
      from max_default_mem [OF this] obtain c where c: "c \<in> set (outgoing edges k)" "?M = ?C c" by auto
      with nonzero have "?C c \<noteq> 0" by simp
      moreover have "c \<in> set order" using settled_children [OF assms(1) k] c(1) by blast
      ultimately have "\<not> terminal c" using critical_equation [OF assms(1), of c terminal estimate] by auto
      with ih [OF c(1)] obtain cs where "chain terminal edges (c # cs)" "chain_weight estimate (c # cs) = ?C c"
        by blast
      with False c C show ?thesis
        by (intro exI [of _ "c # cs"]) (simp add: chain_weight_def set_outgoing)
    qed
    with upper C M assms(2) k show ?thesis by auto
  qed
qed

subsection \<open>The evaluation of a well-formed store\<close>

definition graph_nodes :: "db \<Rightarrow> string \<Rightarrow> graph_node_row list" where
  "graph_nodes d repo = nodes_of d repo (current_version d repo)"

definition graph_edges :: "db \<Rightarrow> string \<Rightarrow> (string \<times> string) list" where
  "graph_edges d repo = hard_edges_of (relations_of d repo (current_version d repo))"

definition finished :: "db \<Rightarrow> string \<Rightarrow> string \<Rightarrow> bool" where
  "finished d repo k \<longleftrightarrow>
     (\<exists>n \<in> set (graph_nodes d repo). gn_node_key n = k \<and> terminal_issue d repo (gn_issue_number n) = Inr True)"

text \<open>
  The evaluation of the tables as they are. What \<open>evaluate_graph\<close> creates of the schema changes nothing that
  is read.
\<close>

definition evaluate_stored :: "db \<Rightarrow> string \<Rightarrow> string \<Rightarrow> evaluation res" where
  "evaluate_stored d repository current_main =
     bind_res (validate_repository (PStr repository)) (\<lambda>_.
     guarded [(\<not> GIT_SHA current_main, graph_error ''GRAPH_MAIN_INVALID'')]
     (bind_res (read_graph d repository) (evaluate_loaded d repository current_main)))"

lemma load_graph_False [guard_simps]: "load_graph d repo False = Inr (d', g) \<longleftrightarrow> d' = d \<and> read_graph d repo = Inr g"
  by (auto simp: load_graph_def guard_simps)

lemma evaluate_graph_False [guard_simps]:
  "evaluate_graph d repo main False = Inr (d', v) \<longleftrightarrow> d' = d \<and> evaluate_stored d repo main = Inr v"
  by (auto simp: evaluate_graph_def evaluate_stored_def guard_simps)

lemma read_graph_schema: "read_graph (d\<lparr>sqlite_master := m\<rparr>) = read_graph d"
proof -
  let ?e = "d\<lparr>sqlite_master := m\<rparr>"
  have "graph_current_of ?e = graph_current_of d" "revision_of ?e = revision_of d" "nodes_of ?e = nodes_of d"
    "relations_of ?e = relations_of d"
    by (simp_all add: fun_eq_iff graph_current_of_def revision_of_def nodes_of_def relations_of_def)
  then show ?thesis by (intro ext) (simp only: read_graph_def current_join_def)
qed

lemma evaluate_loaded_schema: "evaluate_loaded (d\<lparr>sqlite_master := m\<rparr>) = evaluate_loaded d"
proof -
  let ?e = "d\<lparr>sqlite_master := m\<rparr>"
  have "source_join ?e = source_join d" by (rule source_join_cong) simp_all
  then have snap: "snapshot_of ?e = snapshot_of d" by (intro ext) (simp only: snapshot_of_def)
  have item: "item_of ?e = item_of d" by (simp add: fun_eq_iff item_of_def)
  have "terminal_issue ?e = terminal_issue d" by (intro ext) (simp only: terminal_issue_def snap item)
  then have table: "terminal_table ?e = terminal_table d" by (intro ext) (simp only: terminal_table_def)
  have "node_stale_reason ?e = node_stale_reason d" "exclusion_stale_reason ?e = exclusion_stale_reason d"
    by (intro ext; simp only: node_stale_reason_def exclusion_stale_reason_def snap)+
  then have reasons: "stale_reasons ?e = stale_reasons d"
    by (intro ext) (simp only: stale_reasons_def scope_stale_reasons_def)
  have "project_node ?e = project_node d" by (intro ext) (simp only: project_node_def item)
  with table reasons show ?thesis by (intro ext) (simp only: evaluate_loaded_def)
qed

lemma evaluate_graph_iff:
  "evaluate_graph d repo main ensure = Inr (d', v) \<longleftrightarrow> evaluate_stored d repo main = Inr v \<and>
     (if ensure then ensure_portfolio_graph_schema d else Inr d) = Inr d'"
  by (auto simp: evaluate_graph_def evaluate_stored_def load_graph_def ensure_portfolio_graph_schema_def
      read_graph_schema evaluate_loaded_schema guard_simps)

lemma evaluate_graph_stored: "evaluate_graph d repo main ensure = Inr (d', v) \<Longrightarrow> evaluate_stored d repo main = Inr v"
  by (simp add: evaluate_graph_iff)

lemma read_graph_Inr:
  assumes "read_graph d repo = Inr g"
  shows "lg_nodes g = graph_nodes d repo" and "hard_edges_of (lg_relations g) = graph_edges d repo"
    and "lg_relations g = relations_of d repo (current_version d repo)"
    and "graph_current_of d repo = Some (lg_current g)" and "gp_version (lg_current g) = current_version d repo"
    and "revision_of d repo (current_version d repo) = Some (lg_revision g)"
  using assms
  by (auto simp: read_graph_def guard_simps current_join_def graph_nodes_def graph_edges_def
      current_version_def split: option.splits)

lemma graph_wf_keys_distinct: "graph_wf d \<Longrightarrow> distinct (map gn_node_key (nodes_of d repo ver))"
proof -
  assume "graph_wf d"
  then have "distinct (map node_pk (nodes_of d repo ver))"
    by (simp add: graph_wf_def nodes_of_def distinct_map_filter)
  then show ?thesis
    by (auto simp: distinct_map inj_on_def node_pk_def nodes_of_def)
qed

lemma graph_wf_edges:
  assumes "graph_wf d"
  shows "set (hard_edges_of (relations_of d repo ver)) \<subseteq>
    gn_node_key ` set (nodes_of d repo ver) \<times> gn_node_key ` set (nodes_of d repo ver)"
proof -
  have "gl_left_node_key r \<in> gn_node_key ` set (nodes_of d repo ver) \<and>
      gl_right_node_key r \<in> gn_node_key ` set (nodes_of d repo ver)"
    if r: "r \<in> set (relations_of d repo ver)" for r
  proof -
    have "(repo, ver, gl_left_node_key r) \<in> node_pk ` set (portfolio_graph_nodes d)"
      "(repo, ver, gl_right_node_key r) \<in> node_pk ` set (portfolio_graph_nodes d)"
      using assms r by (auto simp: graph_wf_def relations_of_def)
    then show ?thesis by (auto simp: node_pk_def nodes_of_def)
  qed
  then show ?thesis by (auto simp: hard_edges_of_def)
qed

lemma node_named_mem:
  assumes "distinct (map gn_node_key ns)" and "n \<in> set ns"
  shows "node_named ns (gn_node_key n) = Some n"
proof -
  obtain m where m: "node_named ns (gn_node_key n) = Some m"
    using assms(2) by (cases "node_named ns (gn_node_key n)") (auto simp: node_named_def find_None_iff)
  then have "m \<in> set ns" "gn_node_key m = gn_node_key n"
    by (auto simp: node_named_def dest: find_SomeD)
  with assms m show ?thesis using distinct_map_eqD by metis
qed

lemma terminal_table_mem:
  assumes "terminal_table d repo ns = Inr t" and "distinct (map gn_node_key ns)" and "n \<in> set ns"
  shows "terminal_issue d repo (gn_issue_number n) = Inr (t (gn_node_key n))"
proof -
  from assms(1) obtain table where
    table: "list_all2 (\<lambda>n kt. bind_res (terminal_issue d repo (gn_issue_number n)) (\<lambda>t. Inr (gn_node_key n, t)) = Inr kt) ns table"
    and t: "t = (\<lambda>k. map_of table k = Some True)"
    by (auto simp: terminal_table_def guard_simps map_res_Inr_iff)
  have keys: "map fst table = map gn_node_key ns"
    using table by (induction rule: list_all2_induct) (auto simp: guard_simps)
  obtain b where b: "terminal_issue d repo (gn_issue_number n) = Inr b" "(gn_node_key n, b) \<in> set table"
    using table assms(3) by (induction rule: list_all2_induct) (auto simp: guard_simps)
  from keys assms(2) have "distinct (map fst table)" by simp
  with b(2) have "map_of table (gn_node_key n) = Some b" by simp
  with b(1) t show ?thesis by simp
qed

lemma evaluate_graph_Inr:
  assumes "evaluate_stored d repo main = Inr v" and "graph_wf d"
  obtains g order terminal where "read_graph d repo = Inr g"
    "topological_order (map gn_node_key (graph_nodes d repo)) (graph_edges d repo) = Inr order"
    "terminal_table d repo (graph_nodes d repo) = Inr terminal"
    "gv_nodes v = map (\<lambda>k. project_node d repo (graph_edges d repo) terminal
       (critical_paths terminal (estimate_of (graph_nodes d repo)) (graph_edges d repo) order)
       (descendants_table (graph_edges d repo) order) (the (node_named (graph_nodes d repo) k))) order"
    "gv_health v = (if stale_reasons d repo main g = [] then ''CURRENT'' else ''STALE'')"
    "gv_version v = current_version d repo"
    "gv_stale_reasons v = sort (remdups (stale_reasons d repo main g))"
proof -
  from assms(1) obtain g where g: "read_graph d repo = Inr g" and e: "evaluate_loaded d repo main g = Inr v"
    by (auto simp: evaluate_stored_def guard_simps)
  note lg = read_graph_Inr [OF g]
  from e obtain order terminal ordered where
    o: "topological_order (map gn_node_key (graph_nodes d repo)) (graph_edges d repo) = Inr order"
    and t: "terminal_table d repo (graph_nodes d repo) = Inr terminal"
    and ns: "map_res (\<lambda>k. require_some KeyError (node_named (graph_nodes d repo) k) Inr) order = Inr ordered"
    and v: "gv_nodes v = map (project_node d repo (graph_edges d repo) terminal
       (critical_paths terminal (estimate_of (graph_nodes d repo)) (graph_edges d repo) order)
       (descendants_table (graph_edges d repo) order)) ordered"
      "gv_health v = (if stale_reasons d repo main g = [] then ''CURRENT'' else ''STALE'')"
      "gv_version v = current_version d repo"
      "gv_stale_reasons v = sort (remdups (stale_reasons d repo main g))"
    by (auto simp: evaluate_loaded_def guard_simps Let_def lg(1,2,5))
  have "ordered = map (\<lambda>k. the (node_named (graph_nodes d repo) k)) order"
    using map_res_Inr [OF ns] by (induction rule: list_all2_induct) (auto simp: guard_simps)
  with g o t v show thesis by (intro that) auto
qed

lemma finished_iff:
  assumes "terminal_table d repo (graph_nodes d repo) = Inr terminal" and "graph_wf d"
    and "k \<in> gn_node_key ` set (graph_nodes d repo)"
  shows "terminal k \<longleftrightarrow> finished d repo k"
proof -
  have dist: "distinct (map gn_node_key (graph_nodes d repo))"
    using graph_wf_keys_distinct [OF assms(2)] by (simp add: graph_nodes_def)
  from assms(3) obtain n where n: "n \<in> set (graph_nodes d repo)" "gn_node_key n = k" by blast
  with terminal_table_mem [OF assms(1) dist] distinct_map_eqD [OF dist] show ?thesis
    by (auto simp: finished_def)
qed

lemma graph_order_settled:
  assumes "graph_wf d"
    and "topological_order (map gn_node_key (graph_nodes d repo)) (graph_edges d repo) = Inr order"
  shows "settled (outgoing (graph_edges d repo)) order" and "set order = gn_node_key ` set (graph_nodes d repo)"
    and "distinct order" and "legal (graph_edges d repo) {} order"
proof -
  note t = topological_order_Inr [OF assms(2)]
  show ord: "set order = gn_node_key ` set (graph_nodes d repo)" "distinct order"
    "legal (graph_edges d repo) {} order"
    using t by simp_all
  have "snd ` set (graph_edges d repo) \<subseteq> set order"
    using graph_wf_edges [OF assms(1), of repo "current_version d repo"] ord(1)
    by (auto simp: graph_edges_def graph_nodes_def)
  then show "settled (outgoing (graph_edges d repo)) order"
    using legal_settled [OF ord(3)] by auto
qed

text \<open>What a projection of the evaluation stands for, one lemma for its readers.\<close>

lemma evaluate_graph_projection:
  assumes wf: "graph_wf d" and ev: "evaluate_stored d repo main = Inr v" and pj: "pj \<in> set (gv_nodes v)"
  obtains g order terminal n where "read_graph d repo = Inr g"
    "topological_order (map gn_node_key (graph_nodes d repo)) (graph_edges d repo) = Inr order"
    "terminal_table d repo (graph_nodes d repo) = Inr terminal"
    "n \<in> set (graph_nodes d repo)" "gn_node_key n \<in> set order"
    "pj = project_node d repo (graph_edges d repo) terminal
       (critical_paths terminal (estimate_of (graph_nodes d repo)) (graph_edges d repo) order)
       (descendants_table (graph_edges d repo) order) n"
proof -
  from ev wf obtain g order terminal where g: "read_graph d repo = Inr g"
    and o: "topological_order (map gn_node_key (graph_nodes d repo)) (graph_edges d repo) = Inr order"
    and t: "terminal_table d repo (graph_nodes d repo) = Inr terminal"
    and v: "gv_nodes v = map (\<lambda>k. project_node d repo (graph_edges d repo) terminal
       (critical_paths terminal (estimate_of (graph_nodes d repo)) (graph_edges d repo) order)
       (descendants_table (graph_edges d repo) order) (the (node_named (graph_nodes d repo) k))) order"
    by (rule evaluate_graph_Inr)
  from pj v obtain k where k: "k \<in> set order" and pj': "pj = project_node d repo (graph_edges d repo) terminal
       (critical_paths terminal (estimate_of (graph_nodes d repo)) (graph_edges d repo) order)
       (descendants_table (graph_edges d repo) order) (the (node_named (graph_nodes d repo) k))" by auto
  from k graph_order_settled(2) [OF wf o] obtain n where n: "n \<in> set (graph_nodes d repo)" "gn_node_key n = k"
    by auto
  have "node_named (graph_nodes d repo) k = Some n"
    using node_named_mem [OF _ n(1)] graph_wf_keys_distinct [OF wf] n(2) by (simp add: graph_nodes_def)
  with g o t n k pj' show thesis by (intro that) auto
qed

lemma project_node_simps [simp]:
  "pj_node_key (project_node d repo edges t c ds n) = gn_node_key n"
  "pj_issue_number (project_node d repo edges t c ds n) = gn_issue_number n"
  "pj_critical_path_units (project_node d repo edges t c ds n) = c (gn_node_key n)"
  "pj_descendant_count (project_node d repo edges t c ds n) = length (ds (gn_node_key n))"
  "pj_terminal (project_node d repo edges t c ds n) = t (gn_node_key n)"
  "pj_item_status (project_node d repo edges t c ds n) = map_option it_status (item_of d repo (gn_issue_number n))"
  "pj_executable_ready (project_node d repo edges t c ds n) =
     (pj_structurally_ready (project_node d repo edges t c ds n) \<and>
      map_option it_status (item_of d repo (gn_issue_number n)) = Some ''READY'')"
  "pj_structurally_ready (project_node d repo edges t c ds n) =
     (gn_dispatchable n \<and> \<not> t (gn_node_key n) \<and> blockers_of t edges (gn_node_key n) = [])"
  by (simp_all add: project_node_def Let_def)

lemma blockers_of_Nil: "blockers_of t edges k = [] \<longleftrightarrow> (\<forall>p. (p, k) \<in> set edges \<longrightarrow> t p)"
  by (force simp: blockers_of_def filter_empty_conv predecessors_of_def)

lemma evaluate_graph_keys:
  assumes "graph_wf d" and "evaluate_stored d repo main = Inr v"
  shows "set (map pj_node_key (gv_nodes v)) = gn_node_key ` set (graph_nodes d repo)"
    and "legal (graph_edges d repo) {} (map pj_node_key (gv_nodes v))"
    and "distinct (map pj_node_key (gv_nodes v))"
proof -
  from assms(2,1) obtain g order terminal where
    o: "topological_order (map gn_node_key (graph_nodes d repo)) (graph_edges d repo) = Inr order"
    and v: "gv_nodes v = map (\<lambda>k. project_node d repo (graph_edges d repo) terminal
       (critical_paths terminal (estimate_of (graph_nodes d repo)) (graph_edges d repo) order)
       (descendants_table (graph_edges d repo) order) (the (node_named (graph_nodes d repo) k))) order"
    by (rule evaluate_graph_Inr)
  note s = graph_order_settled [OF assms(1) o]
  have "gn_node_key (the (node_named (graph_nodes d repo) k)) = k" if "k \<in> set order" for k
    using that s(2) node_named_mem [of "graph_nodes d repo"] graph_wf_keys_distinct [OF assms(1)]
    by (force simp: graph_nodes_def)
  then have keys: "map pj_node_key (gv_nodes v) = order" by (simp add: v map_idI)
  then show "legal (graph_edges d repo) {} (map pj_node_key (gv_nodes v))"
    "set (map pj_node_key (gv_nodes v)) = gn_node_key ` set (graph_nodes d repo)"
    "distinct (map pj_node_key (gv_nodes v))"
    using s by simp_all
qed

lemma evaluated_ready:
  assumes "graph_wf d" and "evaluate_stored d repo main = Inr v"
  shows "legal (graph_edges d repo) {} (map pj_node_key (gv_nodes v)) \<and>
    set (map pj_node_key (gv_nodes v)) = gn_node_key ` set (graph_nodes d repo) \<and>
    (\<forall>pj \<in> set (gv_nodes v). \<exists>n \<in> set (graph_nodes d repo). gn_node_key n = pj_node_key pj \<and>
       pj_issue_number pj = gn_issue_number n \<and>
       (pj_structurally_ready pj \<longleftrightarrow> gn_dispatchable n \<and> \<not> finished d repo (pj_node_key pj) \<and>
          (\<forall>p. (p, pj_node_key pj) \<in> set (graph_edges d repo) \<longrightarrow> finished d repo p)) \<and>
       (pj_executable_ready pj \<longleftrightarrow> pj_structurally_ready pj \<and>
          map_option it_status (item_of d repo (gn_issue_number n)) = Some ''READY''))"
proof (intro conjI ballI)
  show "legal (graph_edges d repo) {} (map pj_node_key (gv_nodes v))"
    "set (map pj_node_key (gv_nodes v)) = gn_node_key ` set (graph_nodes d repo)"
    using evaluate_graph_keys [OF assms] by blast+
  fix pj
  assume "pj \<in> set (gv_nodes v)"
  with assms obtain g' order' t n where t: "terminal_table d repo (graph_nodes d repo) = Inr t"
    and n: "n \<in> set (graph_nodes d repo)"
    and pj: "pj = project_node d repo (graph_edges d repo) t
       (critical_paths t (estimate_of (graph_nodes d repo)) (graph_edges d repo) order')
       (descendants_table (graph_edges d repo) order') n"
    by (rule evaluate_graph_projection)
  have "p \<in> gn_node_key ` set (graph_nodes d repo)" if "(p, q) \<in> set (graph_edges d repo)" for p q
    using graph_wf_edges [OF assms(1), of repo "current_version d repo"] that
    by (auto simp: graph_edges_def graph_nodes_def)
  note fin = finished_iff [OF t assms(1) this] finished_iff [OF t assms(1) imageI [OF n]]
  show "\<exists>n \<in> set (graph_nodes d repo). gn_node_key n = pj_node_key pj \<and>
       pj_issue_number pj = gn_issue_number n \<and>
       (pj_structurally_ready pj \<longleftrightarrow> gn_dispatchable n \<and> \<not> finished d repo (pj_node_key pj) \<and>
          (\<forall>p. (p, pj_node_key pj) \<in> set (graph_edges d repo) \<longrightarrow> finished d repo p)) \<and>
       (pj_executable_ready pj \<longleftrightarrow> pj_structurally_ready pj \<and>
          map_option it_status (item_of d repo (gn_issue_number n)) = Some ''READY'')"
    using n fin by (intro bexI [of _ n]) (auto simp: pj blockers_of_Nil)
qed

text \<open>
  The evaluation lists every node of the current graph once, in an order that respects the hard
  dependencies, and calls a node ready exactly when it may be dispatched, is not finished and all
  its hard predecessors are finished; executable when moreover its coordination item is READY.
\<close>

theorem evaluate_graph_ready:
  assumes "graph_wf d" and "evaluate_graph d repo main ensure = Inr (d', v)"
  shows "legal (graph_edges d repo) {} (map pj_node_key (gv_nodes v)) \<and>
    set (map pj_node_key (gv_nodes v)) = gn_node_key ` set (graph_nodes d repo) \<and>
    (\<forall>pj \<in> set (gv_nodes v). \<exists>n \<in> set (graph_nodes d repo). gn_node_key n = pj_node_key pj \<and>
       pj_issue_number pj = gn_issue_number n \<and>
       (pj_structurally_ready pj \<longleftrightarrow> gn_dispatchable n \<and> \<not> finished d repo (pj_node_key pj) \<and>
          (\<forall>p. (p, pj_node_key pj) \<in> set (graph_edges d repo) \<longrightarrow> finished d repo p)) \<and>
       (pj_executable_ready pj \<longleftrightarrow> pj_structurally_ready pj \<and>
          map_option it_status (item_of d repo (gn_issue_number n)) = Some ''READY''))"
  by (rule evaluated_ready [OF assms(1) evaluate_graph_stored [OF assms(2)]])

text \<open>
  C31: the work a projection reports is the work that depends on the node. The descendant count is
  the number of nodes reachable over hard dependencies, and the critical path of an unfinished node
  is the total estimate of the heaviest dependency chain of unfinished nodes that starts there.
\<close>

theorem evaluate_graph_work:
  assumes "graph_wf d" and "evaluate_graph d repo main ensure = Inr (d', v)" and "pj \<in> set (gv_nodes v)"
  shows "pj_descendant_count pj = card {k. (pj_node_key pj, k) \<in> (set (graph_edges d repo))\<^sup>+} \<and>
    (finished d repo (pj_node_key pj) \<longrightarrow> pj_critical_path_units pj = 0) \<and>
    (\<not> finished d repo (pj_node_key pj) \<longrightarrow>
       (\<forall>ks. chain (finished d repo) (graph_edges d repo) (pj_node_key pj # ks) \<longrightarrow>
          chain_weight (estimate_of (graph_nodes d repo)) (pj_node_key pj # ks) \<le> pj_critical_path_units pj) \<and>
       (\<exists>ks. chain (finished d repo) (graph_edges d repo) (pj_node_key pj # ks) \<and>
          chain_weight (estimate_of (graph_nodes d repo)) (pj_node_key pj # ks) = pj_critical_path_units pj))"
proof -
  from assms(1) evaluate_graph_stored [OF assms(2)] assms(3) obtain g order t n where
    o: "topological_order (map gn_node_key (graph_nodes d repo)) (graph_edges d repo) = Inr order"
    and t: "terminal_table d repo (graph_nodes d repo) = Inr t"
    and n: "n \<in> set (graph_nodes d repo)" "gn_node_key n \<in> set order"
    and pj: "pj = project_node d repo (graph_edges d repo) t
       (critical_paths t (estimate_of (graph_nodes d repo)) (graph_edges d repo) order)
       (descendants_table (graph_edges d repo) order) n"
    by (rule evaluate_graph_projection)
  note s = graph_order_settled [OF assms(1) o]
  have "\<forall>k \<in> set order. 0 < estimate_of (graph_nodes d repo) k"
  proof
    fix k
    assume "k \<in> set order"
    then obtain m where m: "m \<in> set (graph_nodes d repo)" "gn_node_key m = k" using s(2) by auto
    have "node_named (graph_nodes d repo) k = Some m"
      using node_named_mem [OF _ m(1)] graph_wf_keys_distinct [OF assms(1)] m(2) by (simp add: graph_nodes_def)
    moreover have "0 < gn_estimate_units m"
      using assms(1) m(1) by (auto simp: graph_wf_def node_units_ok_def graph_nodes_def nodes_of_def)
    ultimately show "0 < estimate_of (graph_nodes d repo) k" by (simp add: estimate_of_def)
  qed
  note crit = bspec [OF critical_path_chain [OF s(1) this, of t] n(2)]
  have fin: "\<forall>k \<in> gn_node_key ` set (graph_nodes d repo). t k = finished d repo k"
    using finished_iff [OF t assms(1)] by blast
  have count: "length (descendants_table (graph_edges d repo) order (gn_node_key n)) =
      card {k. (gn_node_key n, k) \<in> (set (graph_edges d repo))\<^sup>+}"
    using distinct_card [OF descendants_distinct [OF s(1) n(2)]] descendants_trancl [OF s(1)] n(2) by simp
  have tn: "t (gn_node_key n) = finished d repo (gn_node_key n)" using fin n(1) by blast
  have zero: "pj_critical_path_units pj = 0" if "finished d repo (pj_node_key pj)"
    using that tn critical_equation [OF s(1) n(2), of t] by (simp add: pj)
  have key: "pj_node_key pj = gn_node_key n" "pj_critical_path_units pj =
      critical_paths t (estimate_of (graph_nodes d repo)) (graph_edges d repo) order (gn_node_key n)"
    by (simp_all add: pj)
  have "chain t (graph_edges d repo) (gn_node_key n # ks) =
      chain (finished d repo) (graph_edges d repo) (gn_node_key n # ks)" for ks
    using fin graph_wf_edges [OF assms(1), of repo "current_version d repo"] n(1)
    by (intro chain_cong) (auto simp: graph_edges_def graph_nodes_def)
  note crit = crit [unfolded this]
  show ?thesis
  proof (intro conjI impI)
    show "pj_descendant_count pj = card {k. (pj_node_key pj, k) \<in> (set (graph_edges d repo))\<^sup>+}"
      using count by (simp add: pj)
  qed (use zero crit tn in \<open>auto simp only: key\<close>)
qed

lemma evaluated_current:
  assumes "graph_wf d" and "evaluate_stored d repo main = Inr v" and "gv_health v = ''CURRENT''"
  shows "\<exists>c r. graph_current_of d repo = Some c \<and> gp_health c = ''CURRENT'' \<and> gp_observed_main_sha c = main \<and>
    gp_version c = gv_version v \<and> revision_of d repo (gv_version v) = Some r \<and> gv_stale_reasons v = [] \<and>
    (\<forall>n \<in> set (graph_nodes d repo). \<exists>s. source_join d repo ''issue'' (gn_issue_number n) = Some s \<and>
       gc_payload_sha256 (fst s) = gn_source_payload_sha256 n) \<and>
    (\<forall>scope. gr_scope_json r = Some scope \<and> scope_is_issue_set scope \<longrightarrow>
      (\<exists>xs. gr_exclusions_json r = Some (PList xs) \<and> (\<forall>x \<in> set xs. exclusion_stale_reason d repo x = [])))"
proof -
  from assms(2,1) obtain g order t where g: "read_graph d repo = Inr g"
    and h: "gv_health v = (if stale_reasons d repo main g = [] then ''CURRENT'' else ''STALE'')"
    and ver: "gv_version v = current_version d repo"
    and sr: "gv_stale_reasons v = sort (remdups (stale_reasons d repo main g))"
    by (rule evaluate_graph_Inr)
  note lg = read_graph_Inr [OF g]
  from h assms(3) have none: "stale_reasons d repo main g = []" by (simp split: if_splits)
  then have parts: "gp_health (lg_current g) = ''CURRENT''" "gp_observed_main_sha (lg_current g) = main"
    "\<forall>n \<in> set (lg_nodes g). node_stale_reason d repo n = []" "scope_stale_reasons d repo (lg_revision g) = []"
    by (auto simp: stale_reasons_def split: if_splits)
  have nodes: "\<exists>s. source_join d repo ''issue'' (gn_issue_number n) = Some s \<and>
       gc_payload_sha256 (fst s) = gn_source_payload_sha256 n" if "n \<in> set (graph_nodes d repo)" for n
    using bspec [OF parts(3), of n] that lg(1)
    by (cases "source_join d repo ''issue'' (gn_issue_number n)")
      (auto simp: node_stale_reason_def snapshot_of_def split: if_splits)
  have scope: "\<exists>xs. gr_exclusions_json (lg_revision g) = Some (PList xs) \<and>
      (\<forall>x \<in> set xs. exclusion_stale_reason d repo x = [])"
    if "gr_scope_json (lg_revision g) = Some scope" "scope_is_issue_set scope" for scope
    using parts(4) that by (auto simp: scope_stale_reasons_def is_list_cases split: option.splits if_splits)
  show ?thesis
    using lg(4-6) ver none sr parts(1,2) nodes scope
    by (intro exI [of _ "lg_current g"] exI [of _ "lg_revision g"]) auto
qed

text \<open>
  An evaluation reported as current can be trusted. The recorded health was current, the graph
  was observed at the given main commit, every node is bound to the source that is current for its
  issue, and for an issue-set graph so is every excluded issue.
\<close>

theorem evaluate_graph_current:
  assumes "graph_wf d" and "evaluate_graph d repo main ensure = Inr (d', v)" and "gv_health v = ''CURRENT''"
  shows "\<exists>c r. graph_current_of d repo = Some c \<and> gp_health c = ''CURRENT'' \<and> gp_observed_main_sha c = main \<and>
    gp_version c = gv_version v \<and> revision_of d repo (gv_version v) = Some r \<and> gv_stale_reasons v = [] \<and>
    (\<forall>n \<in> set (graph_nodes d repo). \<exists>s. source_join d repo ''issue'' (gn_issue_number n) = Some s \<and>
       gc_payload_sha256 (fst s) = gn_source_payload_sha256 n) \<and>
    (\<forall>scope. gr_scope_json r = Some scope \<and> scope_is_issue_set scope \<longrightarrow>
      (\<exists>xs. gr_exclusions_json r = Some (PList xs) \<and> (\<forall>x \<in> set xs. exclusion_stale_reason d repo x = [])))"
  by (rule evaluated_current [OF assms(1) evaluate_graph_stored [OF assms(2)] assms(3)])

lemma terminal_issue_total:
  assumes "\<forall>s \<in> set (github_snapshots d). \<exists>kvs. gs_payload_json s = Some (PDict kvs)"
  shows "\<exists>b. terminal_issue d repo n = Inr b"
proof (cases "snapshot_of d repo n")
  case (Inl e)
  then show ?thesis by (auto simp: terminal_issue_def split: option.splits)
next
  case (Inr cs)
  obtain c s where cs: "cs = (c, s)" by (cases cs)
  with Inr have "s \<in> set (github_snapshots d)"
    by (auto simp: snapshot_of_def guard_simps source_join_def stored_snapshot_def dest: find_SomeD
        split: option.splits)
  with assms obtain kvs where "gs_payload_json s = Some (PDict kvs)" by blast
  with Inr cs show ?thesis by (auto simp: terminal_issue_def guard_eval split: option.splits)
qed

lemma map_res_total: "\<forall>x \<in> set xs. \<exists>y. f x = Inr y \<Longrightarrow> \<exists>ys. map_res f xs = Inr ys"
  by (induction xs) auto

lemma evaluate_graph_total_aux:
  assumes "graph_wf d" and "graph_current_of d repo \<noteq> None"
    and "\<forall>s \<in> set (github_snapshots d). \<exists>kvs. gs_payload_json s = Some (PDict kvs)"
    and "REPOSITORY repo" and "GIT_SHA main"
  shows "\<exists>v. evaluate_stored d repo main = Inr v"
proof -
  from assms(2) obtain c where c: "graph_current_of d repo = Some c" by blast
  then have mem: "c \<in> set (portfolio_graph_current d)" "gp_repository c = repo"
    by (auto simp: graph_current_of_def dest: find_SomeD)
  with assms(1) have "revision_of d repo (gp_version c) \<noteq> None"
    unfolding revision_of_iff by (auto simp: graph_wf_def)
  with c obtain g where g: "read_graph d repo = Inr g" by (auto simp: read_graph_def current_join_def)
  note lg = read_graph_Inr [OF g]
  have "set (graph_edges d repo) \<subseteq> set (map gn_node_key (graph_nodes d repo)) \<times> set (map gn_node_key (graph_nodes d repo))"
    using graph_wf_edges [OF assms(1)] by (simp add: graph_edges_def graph_nodes_def)
  moreover have "acyclic (set (graph_edges d repo))" using assms(1) by (simp add: graph_wf_def graph_edges_def)
  ultimately obtain order where
    o: "topological_order (map gn_node_key (graph_nodes d repo)) (graph_edges d repo) = Inr order"
    using topological_order_complete by blast
  have "\<exists>y. bind_res (terminal_issue d repo (gn_issue_number n)) (\<lambda>t. Inr (gn_node_key n, t)) = Inr y" for n
    using terminal_issue_total [OF assms(3), of repo "gn_issue_number n"] by auto
  then obtain table where "map_res (\<lambda>n. bind_res (terminal_issue d repo (gn_issue_number n))
      (\<lambda>t. Inr (gn_node_key n, t))) (graph_nodes d repo) = Inr table"
    using map_res_total [of "graph_nodes d repo" "\<lambda>n. bind_res (terminal_issue d repo (gn_issue_number n))
      (\<lambda>t. Inr (gn_node_key n, t))"] by metis
  then obtain t where t: "terminal_table d repo (graph_nodes d repo) = Inr t" by (simp add: terminal_table_def)
  have "\<exists>y. require_some KeyError (node_named (graph_nodes d repo) k) Inr = Inr y" if "k \<in> set order" for k
    using that graph_order_settled(2) [OF assms(1) o] node_named_mem [of "graph_nodes d repo"]
      graph_wf_keys_distinct [OF assms(1)] by (fastforce simp: graph_nodes_def)
  then obtain ordered where "map_res (\<lambda>k. require_some KeyError (node_named (graph_nodes d repo) k) Inr) order = Inr ordered"
    using map_res_total [of order "\<lambda>k. require_some KeyError (node_named (graph_nodes d repo) k) Inr"] by metis
  with g o t assms(4,5) show ?thesis
    by (simp add: evaluate_stored_def validate_repository_def guard_eval evaluate_loaded_def lg(1,2) Let_def)
qed

text \<open>
  C39: evaluating a stored graph never fails on the graph itself. Let the store be well formed, the repository
  name and the main commit be well formed, the repository have a graph and the stored issue payloads be
  JSON objects, as every writer of snapshots leaves them. Then \<open>evaluate_graph\<close> raises only where it is asked,
  inside a transaction, to create the schema: \<open>GRAPH_SCHEMA_TRANSACTION_CONFLICT\<close>. In every other case it
  returns, neither \<open>GRAPH_CYCLE\<close> nor a missing key can occur, the same evaluation whether it may create
  tables or not, and the database it leaves differs at most by tables of the schema that were missing.
\<close>

theorem evaluate_graph_total:
  assumes "graph_wf d" and "graph_current_of d repo \<noteq> None"
    and "\<forall>s \<in> set (github_snapshots d). \<exists>kvs. gs_payload_json s = Some (PDict kvs)"
    and "REPOSITORY repo" and "GIT_SHA main"
  shows "\<exists>v. \<forall>ensure. evaluate_graph d repo main ensure =
    (if ensure \<and> in_transaction d then Inl (graph_error ''GRAPH_SCHEMA_TRANSACTION_CONFLICT'')
     else Inr (if ensure then d\<lparr>sqlite_master := sqlite_master d @ filter (\<lambda>t. t \<notin> set (sqlite_master d)) graph_tables\<rparr> else d, v))"
proof -
  from evaluate_graph_total_aux [OF assms] obtain v where v: "evaluate_stored d repo main = Inr v" ..
  let ?e = "d\<lparr>sqlite_master := sqlite_master d @ filter (\<lambda>t. t \<notin> set (sqlite_master d)) graph_tables\<rparr>"
  show ?thesis
  proof (intro exI [of _ v] allI)
    fix ensure
    show "evaluate_graph d repo main ensure =
      (if ensure \<and> in_transaction d then Inl (graph_error ''GRAPH_SCHEMA_TRANSACTION_CONFLICT'')
       else Inr (if ensure then ?e else d, v))"
    proof (cases "ensure \<and> in_transaction d")
      case True
      then show ?thesis using assms(4,5)
        by (simp add: evaluate_graph_def validate_repository_def guard_eval load_graph_def ensure_portfolio_graph_schema_def)
    next
      case False
      then have "(if ensure then ensure_portfolio_graph_schema d else Inr d) = Inr (if ensure then ?e else d)"
        by (auto simp: ensure_portfolio_graph_schema_def guard_eval)
      with v have "evaluate_graph d repo main ensure = Inr (if ensure then ?e else d, v)" by (simp only: evaluate_graph_iff)
      with False show ?thesis by simp
    qed
  qed
qed

subsection \<open>A replaced graph is current\<close>

lemma fold_res_each:
  "fold_res f xs s = Inr t \<Longrightarrow> x \<in> set xs \<Longrightarrow> \<exists>u w. f x u = Inr w"
  by (induction xs arbitrary: s) (auto simp: guard_simps)

lemma validate_plan_exclusions:
  assumes "validate_plan plan = Inr p" and "is_issue_set (pl_scope p)"
    and "x \<in> set (list_of (py_get plan ''excluded_issues''))"
  shows "is_dict x" and "py_get (dict_of x) ''issue_number'' = PInt (px_issue_number (decode_exclusion x))"
    and "py_get (dict_of x) ''source_payload_sha256'' = PStr (px_source_payload_sha256 (decode_exclusion x))"
proof -
  from validate_plan_Inr [OF assms(1)] obtain exclusions where
    "fold_res (add_exclusion (is_issue_set (pl_scope p))) (list_of (py_get plan ''excluded_issues'')) [] = Inr exclusions"
    by (metis graph_plan.select_convs(4))
  with fold_res_each [OF this assms(3)] assms(2) obtain u w where "add_exclusion True x u = Inr w" by auto
  then show "is_dict x" "py_get (dict_of x) ''issue_number'' = PInt (px_issue_number (decode_exclusion x))"
    "py_get (dict_of x) ''source_payload_sha256'' = PStr (px_source_payload_sha256 (decode_exclusion x))"
    by (auto simp: add_exclusion_def Let_def guard_simps decode_exclusion_def is_int_cases sha_str_def is_str_cases)
qed

lemma check_source_snapshot:
  "check_source d p n sha = Inr () \<Longrightarrow> \<exists>c s. snapshot_of d (pl_repository p) n = Inr (c, s) \<and> gc_payload_sha256 c = sha"
  by (auto simp: check_source_def guard_simps)

lemma replaced_stale_reasons:
  assumes "graph_wf d" and "validate_plan plan = Inr p" and "replace_commit d p now = Inr (d', rc)"
    and "read_graph d' (pl_repository p) = Inr g"
  shows "stale_reasons d' (pl_repository p) (pl_accepted_main_sha p) g = []"
proof -
  note c = replace_commit_Inr [OF assms(3) graph_wf_distinct [OF assms(1)]]
  have "source_join d' = source_join d" by (rule source_join_cong) (simp_all add: c(1))
  then have snap: "snapshot_of d' = snapshot_of d" by (intro ext) (simp only: snapshot_of_def)
  have g: "g = \<lparr>lg_current = current_row p now, lg_revision = revision_row p now,
      lg_nodes = map (stored_node p d) (pl_nodes p), lg_relations = map (relation_row p) (pl_relations p)\<rparr>"
    using read_graph_after_commit [OF assms(1,3)] assms(4) by simp
  have nodes: "node_stale_reason d' (pl_repository p) (stored_node p d n) = []" if "n \<in> set (pl_nodes p)" for n
    using check_sources_node [OF c(8) that] by (auto simp: node_stale_reason_def snap)
  have src: "pl_source p = plan" "pl_exclusions p = map decode_exclusion (list_of (py_get plan ''excluded_issues''))"
    by (rule validate_plan_decodes(4) [OF assms(2)], rule validate_plan_decodes(3) [OF assms(2)])
  have list: "is_list (py_get plan ''excluded_issues'')"
    using assms(2) by (auto simp: validate_plan_def guard_simps)
  have excl: "exclusion_stale_reason d' (pl_repository p) x = []"
    if set_scope: "is_issue_set (pl_scope p)" and x: "x \<in> set (list_of (py_get plan ''excluded_issues''))" for x
  proof -
    from c(8) set_scope x src(2) have "check_source d p (px_issue_number (decode_exclusion x))
        (px_source_payload_sha256 (decode_exclusion x)) = Inr ()"
      by (auto simp: check_sources_def guard_simps)
    from check_source_snapshot [OF this] validate_plan_exclusions [OF assms(2) that] show ?thesis
      by (auto simp: exclusion_stale_reason_def Let_def snap)
  qed
  have "scope_is_issue_set (scope_value (pl_scope p)) = is_issue_set (pl_scope p)"
    by (cases "pl_scope p") (auto simp: scope_value_def scope_is_issue_set_def py_get_def)
  with excl list have "scope_stale_reasons d' (pl_repository p) (revision_row p now) = []"
    by (auto simp: scope_stale_reasons_def revision_row_def src(1))
  with nodes show ?thesis by (simp add: stale_reasons_def g current_row_def)
qed

text \<open>
  A graph that has just been replaced is current: evaluated at the commit it was accepted at,
  it has no stale reason, so the scheduler may act on it.
\<close>

theorem replace_then_evaluate_current:
  assumes "graph_wf d" and "replace_prepare d0 plan = Inr p" and "replace_commit d p now = Inr (d', rc)"
    and "evaluate_graph d' (pl_repository p) (pl_accepted_main_sha p) ensure = Inr (e, v)"
  shows "gv_health v = ''CURRENT'' \<and> gv_stale_reasons v = [] \<and> gv_version v = rc_version rc"
proof -
  note pp = replace_prepare_prepared [OF assms(2)]
  note wf = replace_commit_wf [OF assms(1,3) pp(1)]
  from evaluate_graph_stored [OF assms(4)] wf obtain g order t where g: "read_graph d' (pl_repository p) = Inr g"
    and h: "gv_health v = (if stale_reasons d' (pl_repository p) (pl_accepted_main_sha p) g = []
       then ''CURRENT'' else ''STALE'')"
    and ver: "gv_version v = current_version d' (pl_repository p)"
    and sr: "gv_stale_reasons v = sort (remdups (stale_reasons d' (pl_repository p) (pl_accepted_main_sha p) g))"
    by (rule evaluate_graph_Inr)
  from replaced_stale_reasons [OF assms(1) pp(2) assms(3) g] h ver sr
    replace_commit_views(4) [OF assms(1,3)] replace_commit_Inr(7) [OF assms(3) graph_wf_distinct [OF assms(1)]]
  show ?thesis by simp
qed

subsection \<open>A concrete evaluation\<close>

lemma example_evaluation:
  obtains p d rc v where "replace_prepare example_db example_plan = Inr p"
    "replace_commit example_db p ''t1'' = Inr (d, rc)" "pl_repository p = HARNESS_REPOSITORY"
    "pl_accepted_main_sha p = replicate 40 (CHR ''b'')"
    "graph_wf d" "graph_current_of d HARNESS_REPOSITORY \<noteq> None"
    "\<forall>s \<in> set (github_snapshots d). \<exists>kvs. gs_payload_json s = Some (PDict kvs)"
    "graph_nodes d HARNESS_REPOSITORY \<noteq> []"
    "evaluate_stored d HARNESS_REPOSITORY (replicate 40 (CHR ''b'')) = Inr v"
    "gv_health v = ''CURRENT''"
proof -
  from example_replacement obtain p d rc where p: "replace_prepare example_db example_plan = Inr p"
    and c: "replace_commit example_db p ''t1'' = Inr (d, rc)" by metis
  note pp = replace_prepare_prepared [OF p]
  have hd: "pl_repository p = HARNESS_REPOSITORY" "pl_accepted_main_sha p = replicate 40 (CHR ''b'')"
    using validate_plan_header [OF pp(2)] by (simp_all add: example_plan_def py_get_def)
  note v = replace_commit_views [OF example_db_wf c]
  note wf = replace_commit_wf [OF example_db_wf c pp(1)]
  have cur: "graph_current_of d HARNESS_REPOSITORY \<noteq> None" by (simp add: v(3) hd)
  have snaps: "\<forall>s \<in> set (github_snapshots d). \<exists>kvs. gs_payload_json s = Some (PDict kvs)"
    using replace_commit_Inr(1) [OF c graph_wf_distinct [OF example_db_wf]]
    by (simp add: example_db_def example_snapshot_def)
  have nodes: "graph_nodes d HARNESS_REPOSITORY \<noteq> []"
    using pp(1) by (simp add: graph_nodes_def v hd prepared_def plan_wf_def)
  have "REPOSITORY HARNESS_REPOSITORY" "GIT_SHA (replicate 40 (CHR ''b''))" by code_simp+
  from evaluate_graph_total_aux [OF wf cur snaps this] obtain w where
    w: "evaluate_stored d HARNESS_REPOSITORY (replicate 40 (CHR ''b'')) = Inr w" by blast
  have "gv_health w = ''CURRENT''"
  proof -
    from w wf obtain g order t where g: "read_graph d HARNESS_REPOSITORY = Inr g"
      and h: "gv_health w = (if stale_reasons d HARNESS_REPOSITORY (replicate 40 (CHR ''b'')) g = []
         then ''CURRENT'' else ''STALE'')"
      by (rule evaluate_graph_Inr)
    from replaced_stale_reasons [OF example_db_wf pp(2) c, of g] g h hd show ?thesis by simp
  qed
  with p c hd wf cur snaps nodes w show thesis by (rule that)
qed

theorem evaluate_graph_ready_witness:
  "\<exists>d v. evaluate_graph d HARNESS_REPOSITORY (replicate 40 (CHR ''b'')) False = Inr (d, v) \<and> gv_nodes v \<noteq> [] \<and>
     legal (graph_edges d HARNESS_REPOSITORY) {} (map pj_node_key (gv_nodes v))"
proof (rule example_evaluation)
  fix p d rc v
  assume d: "graph_wf d" "graph_nodes d HARNESS_REPOSITORY \<noteq> []"
    and v: "evaluate_stored d HARNESS_REPOSITORY (replicate 40 (CHR ''b'')) = Inr v"
  from v have ev: "evaluate_graph d HARNESS_REPOSITORY (replicate 40 (CHR ''b'')) False = Inr (d, v)" by (simp add: evaluate_graph_False)
  from evaluate_graph_ready [OF d(1) ev] d(2) ev show ?thesis
    by (intro exI [of _ d] exI [of _ v]) auto
qed

theorem evaluate_graph_work_witness:
  "\<exists>d v. evaluate_graph d HARNESS_REPOSITORY (replicate 40 (CHR ''b'')) False = Inr (d, v) \<and> gv_nodes v \<noteq> [] \<and>
     pj_descendant_count (hd (gv_nodes v)) =
       card {k. (pj_node_key (hd (gv_nodes v)), k) \<in> (set (graph_edges d HARNESS_REPOSITORY))\<^sup>+}"
proof (rule example_evaluation)
  fix p d rc v
  assume d: "graph_wf d" "graph_nodes d HARNESS_REPOSITORY \<noteq> []"
    and v: "evaluate_stored d HARNESS_REPOSITORY (replicate 40 (CHR ''b'')) = Inr v"
  obtain k where "k \<in> gn_node_key ` set (graph_nodes d HARNESS_REPOSITORY)"
    using d(2) by (cases "graph_nodes d HARNESS_REPOSITORY") auto
  then have "gv_nodes v \<noteq> []" using evaluate_graph_keys [OF d(1) v] by auto
  moreover from v have ev: "evaluate_graph d HARNESS_REPOSITORY (replicate 40 (CHR ''b'')) False = Inr (d, v)" by (simp add: evaluate_graph_False)
  ultimately show ?thesis using evaluate_graph_work [OF d(1) ev, of "hd (gv_nodes v)"]
    by (intro exI [of _ d] exI [of _ v]) simp
qed

theorem evaluate_graph_current_witness:
  "\<exists>d c. graph_current_of d HARNESS_REPOSITORY = Some c \<and> gp_health c = ''CURRENT'' \<and>
     gp_observed_main_sha c = replicate 40 (CHR ''b'')"
proof (rule example_evaluation)
  fix p d rc v
  assume d: "graph_wf d" and v: "evaluate_stored d HARNESS_REPOSITORY (replicate 40 (CHR ''b'')) = Inr v"
    "gv_health v = ''CURRENT''"
  from v(1) have ev: "evaluate_graph d HARNESS_REPOSITORY (replicate 40 (CHR ''b'')) False = Inr (d, v)" by (simp add: evaluate_graph_False)
  from evaluate_graph_current [OF d ev v(2)] show ?thesis by blast
qed

theorem evaluate_graph_total_witness:
  "\<exists>d v. graph_current_of d HARNESS_REPOSITORY \<noteq> None \<and> graph_nodes d HARNESS_REPOSITORY \<noteq> [] \<and>
     evaluate_graph d HARNESS_REPOSITORY (replicate 40 (CHR ''b'')) False = Inr (d, v) \<and>
     evaluate_graph (d\<lparr>in_transaction := True\<rparr>) HARNESS_REPOSITORY (replicate 40 (CHR ''b'')) True =
       Inl (graph_error ''GRAPH_SCHEMA_TRANSACTION_CONFLICT'')"
proof (rule example_evaluation)
  fix p d rc v
  assume d: "graph_wf d" "graph_current_of d HARNESS_REPOSITORY \<noteq> None"
    "\<forall>s \<in> set (github_snapshots d). \<exists>kvs. gs_payload_json s = Some (PDict kvs)"
    "graph_nodes d HARNESS_REPOSITORY \<noteq> []"
  have "REPOSITORY HARNESS_REPOSITORY" "GIT_SHA (replicate 40 (CHR ''b''))" by code_simp+
  note names = this
  let ?t = "d\<lparr>in_transaction := True\<rparr>"
  from evaluate_graph_total [OF d(1-3) names] have "\<exists>v. evaluate_graph d HARNESS_REPOSITORY (replicate 40 (CHR ''b'')) False = Inr (d, v)" by fastforce
  moreover have "evaluate_graph ?t HARNESS_REPOSITORY (replicate 40 (CHR ''b'')) True = Inl (graph_error ''GRAPH_SCHEMA_TRANSACTION_CONFLICT'')"
    using names by (simp add: evaluate_graph_def validate_repository_def guard_eval load_graph_def ensure_portfolio_graph_schema_def)
  ultimately show ?thesis using d(2,4) by blast
qed

theorem replace_then_evaluate_current_witness:
  "\<exists>p d rc v. replace_commit example_db p ''t1'' = Inr (d, rc) \<and>
     evaluate_graph d HARNESS_REPOSITORY (replicate 40 (CHR ''b'')) False = Inr (d, v) \<and> gv_stale_reasons v = []"
proof (rule example_evaluation)
  fix p d rc v
  assume p: "replace_prepare example_db example_plan = Inr p" "replace_commit example_db p ''t1'' = Inr (d, rc)"
    and hd: "pl_repository p = HARNESS_REPOSITORY" "pl_accepted_main_sha p = replicate 40 (CHR ''b'')"
    and v: "evaluate_stored d HARNESS_REPOSITORY (replicate 40 (CHR ''b'')) = Inr v"
  from v have ev: "evaluate_graph d HARNESS_REPOSITORY (replicate 40 (CHR ''b'')) False = Inr (d, v)"
    by (simp add: evaluate_graph_False)
  with replace_then_evaluate_current [OF example_db_wf p, of False d v] hd p(2) show ?thesis by auto
qed

end
