(* ===== verification/Scheduler.thy ===== *)
theory Scheduler
  imports Graph_Eval "HOL-Library.Product_Lexorder" "HOL-Library.Multiset"
begin

section \<open>The capacity-bounded scheduler\<close>

text \<open>
  \<open>_capacity_policy\<close>, \<open>reserved_hosted_sre_units\<close>, \<open>_schedule_decision\<close> and \<open>schedule\<close> of
  portfolio_graph.py: the ranked list of executable nodes, the greedy selection under the writer
  mutex, the collisions and the three capacity limits, and the decision log.
\<close>

subsection \<open>Capacity\<close>

definition capacity_policy :: "db \<Rightarrow> string \<Rightarrow> capacity_policy_row res" where
  "capacity_policy d repository =
     require_some (graph_error ''CAPACITY_POLICY_MISSING'')
       (case List.find (\<lambda>c. cc_repository c = repository) (coordination_capacity_current d) of
          None \<Rightarrow> None
        | Some c \<Rightarrow> List.find (\<lambda>p. cp_repository p = repository \<and> cp_version p = cc_version c)
            (coordination_capacity_policies d)) Inr"

definition reserved_hosted_sre_units :: "db \<Rightarrow> string \<Rightarrow> int" where
  "reserved_hosted_sre_units d repository =
     (if table_installed d ''hosted_operations''
      then sum_list (map ho_sre_units (filter (\<lambda>h. ho_repository h = repository \<and>
        (ho_state h = ''PREPARED'' \<or> ho_state h = ''CLAIMED'')) (hosted_operations d)))
      else 0)"

record capacity =
  ca_development :: int
  ca_shared :: int
  ca_sre :: int

definition remaining_capacity :: "db \<Rightarrow> string \<Rightarrow> capacity_policy_row \<Rightarrow> capacity" where
  "remaining_capacity d repository p =
     \<lparr>ca_development = cp_development_limit p - occupied_units it_development_units d repository,
      ca_shared = cp_shared_limit p - occupied_units it_shared_units d repository,
      ca_sre = cp_sre_limit p - occupied_units it_sre_units d repository -
        reserved_hosted_sre_units d repository\<rparr>"

definition take_capacity :: "graph_node_row \<Rightarrow> capacity \<Rightarrow> capacity" where
  "take_capacity n c =
     \<lparr>ca_development = ca_development c - gn_development_units n,
      ca_shared = ca_shared c - gn_shared_units n, ca_sre = ca_sre c - gn_sre_units n\<rparr>"

subsection \<open>Candidates\<close>

definition collision_pairs :: "graph_relation_row list \<Rightarrow> string set set" where
  "collision_pairs rs = (\<lambda>r. {gl_left_node_key r, gl_right_node_key r}) `
     set (filter (\<lambda>r. gl_relation_kind r = ''COLLISION'') rs)"

definition active_keys :: "db \<Rightarrow> string \<Rightarrow> graph_node_row list \<Rightarrow> string list" where
  "active_keys d repository ns =
     concat (map (\<lambda>i. map gn_node_key (filter (\<lambda>n. gn_issue_number n = it_issue_number i) ns))
       (reserved_items d repository))"

definition exclusive_writer :: "string \<Rightarrow> bool" where
  "exclusive_writer repository =
     (case policy_for_repository (PStr repository) of None \<Rightarrow> False | Some p \<Rightarrow> rp_exclusive_repository_writer p)"

definition rank_of :: "graph_node_row list \<Rightarrow> projection \<Rightarrow> int \<times> int \<times> string \<times> int \<times> int \<times> int \<times> string" where
  "rank_of ns pj =
     (let n = the (node_named ns (pj_node_key pj)) in
      (gn_priority_rank n, gn_lane_order n, gn_ready_at n, - pj_critical_path_units pj,
       - int (pj_immediate_unlocks pj), - int (pj_descendant_count pj), pj_node_key pj))"

definition candidates_of :: "graph_node_row list \<Rightarrow> evaluation \<Rightarrow> string list" where
  "candidates_of ns v = map pj_node_key (sort_key (rank_of ns) (filter pj_executable_ready (gv_nodes v)))"

subsection \<open>Greedy selection\<close>

record selection =
  sl_selected :: "string list"
  sl_skipped :: "(string \<times> string) list"
  sl_remaining :: capacity

definition skip_reason ::
  "bool \<Rightarrow> bool \<Rightarrow> string set set \<Rightarrow> string list \<Rightarrow> graph_node_row \<Rightarrow> selection \<Rightarrow> string option" where
  "skip_reason exclusive active_allocation collisions active n st =
     (if exclusive \<and> (active_allocation \<or> sl_selected st \<noteq> []) then Some ''REPOSITORY_WRITER_MUTEX''
      else if \<exists>other \<in> set active \<union> set (sl_selected st). {gn_node_key n, other} \<in> collisions
        then Some ''COLLISION''
      else if gn_development_units n > ca_development (sl_remaining st) then Some ''DEVELOPMENT_CAPACITY''
      else if gn_shared_units n > ca_shared (sl_remaining st) then Some ''SHARED_CAPACITY''
      else if gn_sre_units n > ca_sre (sl_remaining st) then Some ''SRE_CAPACITY''
      else None)"

definition select_step ::
  "bool \<Rightarrow> bool \<Rightarrow> string set set \<Rightarrow> string list \<Rightarrow> graph_node_row \<Rightarrow> selection \<Rightarrow> selection" where
  "select_step exclusive active_allocation collisions active n st =
     (case skip_reason exclusive active_allocation collisions active n st of
        Some reason \<Rightarrow> st\<lparr>sl_skipped := sl_skipped st @ [(gn_node_key n, reason)]\<rparr>
      | None \<Rightarrow> st\<lparr>sl_selected := sl_selected st @ [gn_node_key n],
                  sl_remaining := take_capacity n (sl_remaining st)\<rparr>)"

definition select_all ::
  "bool \<Rightarrow> bool \<Rightarrow> string set set \<Rightarrow> string list \<Rightarrow> capacity \<Rightarrow> graph_node_row list \<Rightarrow> selection" where
  "select_all exclusive active_allocation collisions active remaining ns =
     fold (select_step exclusive active_allocation collisions active) ns
       \<lparr>sl_selected = [], sl_skipped = [], sl_remaining = remaining\<rparr>"

subsection \<open>The decision\<close>

record decision =
  dc_repository :: string
  dc_graph_version :: int
  dc_capacity_policy_version :: int
  dc_ordered_ready :: "string list"
  dc_selected :: "string list"
  dc_skipped :: "(string \<times> string) list"
  dc_remaining_capacity :: capacity

definition decision_value :: "decision \<Rightarrow> pyval" where
  "decision_value x = PDict [(''repository'', PStr (dc_repository x)),
     (''graph_version'', PInt (dc_graph_version x)),
     (''capacity_policy_version'', PInt (dc_capacity_policy_version x)),
     (''ordered_ready'', PList (map PStr (dc_ordered_ready x))),
     (''selected'', PList (map PStr (dc_selected x))),
     (''skipped'', PList (map (\<lambda>s. PDict [(''node_key'', PStr (fst s)), (''reason'', PStr (snd s))]) (dc_skipped x))),
     (''remaining_capacity'', PDict [(''development'', PInt (ca_development (dc_remaining_capacity x))),
        (''shared'', PInt (ca_shared (dc_remaining_capacity x))),
        (''sre'', PInt (ca_sre (dc_remaining_capacity x)))])]"

definition log_decision_event ::
  "string \<Rightarrow> int \<Rightarrow> string \<Rightarrow> string \<Rightarrow> string \<times> string \<times> string \<Rightarrow> db \<Rightarrow> db" where
  "log_decision_event repository version sha now e d =
     (case e of (key, event_type, reason) \<Rightarrow>
      d\<lparr>portfolio_scheduler_events := insert_or_ignore
         (\<lambda>r. se_repository r = repository \<and> se_graph_version r = version \<and> se_decision_sha256 r = sha \<and>
            se_node_key r = key \<and> se_event_type r = event_type)
         \<lparr>se_repository = repository, se_graph_version = version, se_decision_sha256 = sha,
          se_node_key = key, se_event_type = event_type, se_reason_code = reason, se_created_at = now\<rparr>
         (portfolio_scheduler_events d)\<rparr>)"

definition record_decision :: "decision \<Rightarrow> string \<Rightarrow> string \<Rightarrow> db \<Rightarrow> db" where
  "record_decision x sha now d =
     fold (log_decision_event (dc_repository x) (dc_graph_version x) sha now)
       (map (\<lambda>k. (k, ''READY'', ''DEPENDENCIES_SATISFIED'')) (dc_ordered_ready x) @
        map (\<lambda>k. (k, ''SELECT'', ''FIFO_CAPACITY_FIT'')) (dc_selected x) @
        map (\<lambda>s. (fst s, ''SKIP'', snd s)) (dc_skipped x)) d"

definition decide :: "db \<Rightarrow> string \<Rightarrow> string \<Rightarrow> decision res" where
  "decide d repository current_main =
     bind_res (evaluate_graph d repository current_main False) (\<lambda>(_, v).
     guarded [(gv_health v \<noteq> ''CURRENT'', graph_error ''GRAPH_STALE'')]
     (bind_res (load_graph d repository False) (\<lambda>(_, g).
      bind_res (capacity_policy d repository) (\<lambda>p.
      let ns = lg_nodes g; cands = candidates_of ns v;
          st = select_all (exclusive_writer repository) (reserved_items d repository \<noteq> [])
            (collision_pairs (lg_relations g)) (active_keys d repository ns)
            (remaining_capacity d repository p) (map (\<lambda>k. the (node_named ns k)) cands) in
      Inr \<lparr>dc_repository = repository, dc_graph_version = gv_version v,
           dc_capacity_policy_version = cp_version p, dc_ordered_ready = cands,
           dc_selected = sl_selected st, dc_skipped = sl_skipped st,
           dc_remaining_capacity = sl_remaining st\<rparr>))))"

definition schedule_decision :: "db \<Rightarrow> string \<Rightarrow> string \<Rightarrow> bool \<Rightarrow> string \<Rightarrow> (db \<times> decision \<times> string) res" where
  "schedule_decision d repository current_main rec now =
     bind_res (decide d repository current_main) (\<lambda>x.
       let sha = digest_json (decision_value x) in
       Inr (if rec then record_decision x sha now d else d, x, sha))"

definition schedule :: "db \<Rightarrow> string \<Rightarrow> string \<Rightarrow> bool \<Rightarrow> string \<Rightarrow> (db \<times> decision \<times> string) res" where
  "schedule d repository current_main rec now =
     bind_res (ensure_portfolio_graph_schema d) (\<lambda>d. schedule_decision d repository current_main rec now)"

subsection \<open>What the greedy selection guarantees\<close>

definition units_nonneg :: "graph_node_row \<Rightarrow> bool" where
  "units_nonneg n \<longleftrightarrow> 0 \<le> gn_development_units n \<and> 0 \<le> gn_shared_units n \<and> 0 \<le> gn_sre_units n"

definition selected_nodes :: "graph_node_row list \<Rightarrow> string list \<Rightarrow> graph_node_row list" where
  "selected_nodes ns ks = filter (\<lambda>n. gn_node_key n \<in> set ks) ns"

lemma select_all_snoc:
  "select_all ex act co ak rem (ns @ [n]) = select_step ex act co ak n (select_all ex act co ak rem ns)"
  by (simp add: select_all_def)

lemma select_all_Nil [simp]:
  "select_all ex act co ak rem [] = \<lparr>sl_selected = [], sl_skipped = [], sl_remaining = rem\<rparr>"
  by (simp add: select_all_def)

lemma select_step_simps:
  "skip_reason ex act co ak n st = None \<Longrightarrow> select_step ex act co ak n st =
     st\<lparr>sl_selected := sl_selected st @ [gn_node_key n], sl_remaining := take_capacity n (sl_remaining st)\<rparr>"
  "skip_reason ex act co ak n st = Some r \<Longrightarrow> select_step ex act co ak n st =
     st\<lparr>sl_skipped := sl_skipped st @ [(gn_node_key n, r)]\<rparr>"
  by (simp_all add: select_step_def)

lemma skip_reason_None:
  assumes "skip_reason ex act co ak n st = None"
  shows "ex \<longrightarrow> \<not> act \<and> sl_selected st = []"
    and "\<forall>other \<in> set ak \<union> set (sl_selected st). {gn_node_key n, other} \<notin> co"
    and "gn_development_units n \<le> ca_development (sl_remaining st)"
    and "gn_shared_units n \<le> ca_shared (sl_remaining st)" and "gn_sre_units n \<le> ca_sre (sl_remaining st)"
  using assms by (auto simp: skip_reason_def split: if_splits)

text \<open>Keys: the candidates are split between the two lists, in their order.\<close>

lemma select_all_keys:
  "mset (sl_selected (select_all ex act co ak rem ns)) +
     mset (map fst (sl_skipped (select_all ex act co ak rem ns))) = mset (map gn_node_key ns)"
  "subseq (sl_selected (select_all ex act co ak rem ns)) (map gn_node_key ns)"
  "subseq (map fst (sl_skipped (select_all ex act co ak rem ns))) (map gn_node_key ns)"
proof (induction ns rule: rev_induct)
  case Nil
  {
    case 1
    then show ?case by simp
  next
    case 2
    then show ?case by simp
  next
    case 3
    then show ?case by simp
  }
next
  case (snoc n ns)
  let ?st = "select_all ex act co ak rem ns"
  show "mset (sl_selected (select_all ex act co ak rem (ns @ [n]))) +
     mset (map fst (sl_skipped (select_all ex act co ak rem (ns @ [n])))) = mset (map gn_node_key (ns @ [n]))"
    "subseq (sl_selected (select_all ex act co ak rem (ns @ [n]))) (map gn_node_key (ns @ [n]))"
    "subseq (map fst (sl_skipped (select_all ex act co ak rem (ns @ [n])))) (map gn_node_key (ns @ [n]))"
    using snoc by (cases "skip_reason ex act co ak n ?st";
        auto simp: select_all_snoc select_step_simps list_emb_append_mono intro: list_emb_append2)+
qed

lemma select_all_mem:
  "k \<in> set (sl_selected (select_all ex act co ak rem ns)) \<Longrightarrow> k \<in> gn_node_key ` set ns"
  using arg_cong [OF select_all_keys(1) [of ex act co ak rem ns], of set_mset] by auto

lemma selected_nodes_snoc:
  assumes "gn_node_key n \<notin> gn_node_key ` set ns"
  shows "selected_nodes (ns @ [n]) (ks @ [gn_node_key n]) = selected_nodes ns ks @ [n]"
    and "gn_node_key n \<notin> set ks \<Longrightarrow> selected_nodes (ns @ [n]) ks = selected_nodes ns ks"
  using assms by (auto simp: selected_nodes_def intro!: filter_cong) (metis imageI)

definition used :: "(graph_node_row \<Rightarrow> int) \<Rightarrow> graph_node_row list \<Rightarrow> string list \<Rightarrow> int" where
  "used units ns ks = sum_list (map units (selected_nodes ns ks))"

text \<open>Capacity: what is left is what there was less what the selected nodes use.\<close>

lemma select_all_remaining:
  fixes ex act :: bool and co :: "string set set" and ak :: "string list" and rem :: capacity
  assumes "distinct (map gn_node_key ns)"
  defines "st \<equiv> select_all ex act co ak rem ns"
  shows "sl_remaining st =
    \<lparr>ca_development = ca_development rem - used gn_development_units ns (sl_selected st),
     ca_shared = ca_shared rem - used gn_shared_units ns (sl_selected st),
     ca_sre = ca_sre rem - used gn_sre_units ns (sl_selected st)\<rparr>"
  unfolding st_def using assms(1)
proof (induction ns rule: rev_induct)
  case Nil
  then show ?case by (simp add: used_def selected_nodes_def)
next
  case (snoc n ns)
  let ?st = "select_all ex act co ak rem ns"
  have fresh: "gn_node_key n \<notin> gn_node_key ` set ns" using snoc.prems by simp
  then have out: "gn_node_key n \<notin> set (sl_selected ?st)" using select_all_mem by blast
  have ih: "sl_remaining ?st =
    \<lparr>ca_development = ca_development rem - used gn_development_units ns (sl_selected ?st),
     ca_shared = ca_shared rem - used gn_shared_units ns (sl_selected ?st),
     ca_sre = ca_sre rem - used gn_sre_units ns (sl_selected ?st)\<rparr>"
    using snoc by simp
  show ?case
    by (cases "skip_reason ex act co ak n ?st")
      (simp_all add: select_all_snoc select_step_simps ih take_capacity_def used_def
        selected_nodes_snoc [OF fresh] out)
qed

lemma select_all_fits:
  fixes ex act :: bool and co :: "string set set" and ak :: "string list" and rem :: capacity
  assumes "\<forall>n \<in> set ns. units_nonneg n"
  defines "st \<equiv> select_all ex act co ak rem ns"
  shows "sl_selected st \<noteq> [] \<longrightarrow> 0 \<le> ca_development (sl_remaining st) \<and>
    0 \<le> ca_shared (sl_remaining st) \<and> 0 \<le> ca_sre (sl_remaining st)"
  unfolding st_def using assms(1)
proof (induction ns rule: rev_induct)
  case Nil
  then show ?case by simp
next
  case (snoc n ns)
  let ?st = "select_all ex act co ak rem ns"
  show ?case
    using snoc skip_reason_None [of ex act co ak n ?st]
    by (cases "skip_reason ex act co ak n ?st")
      (auto simp: select_all_snoc select_step_simps take_capacity_def)
qed

lemma select_all_mutex:
  "ex \<Longrightarrow> length (sl_selected (select_all ex act co ak rem ns)) \<le> 1 \<and>
     (act \<longrightarrow> sl_selected (select_all ex act co ak rem ns) = [])"
proof (induction ns rule: rev_induct)
  case Nil
  then show ?case by simp
next
  case (snoc n ns)
  let ?st = "select_all ex act co ak rem ns"
  show ?case
    using snoc skip_reason_None(1) [of ex act co ak n ?st]
    by (cases "skip_reason ex act co ak n ?st") (auto simp: select_all_snoc select_step_simps)
qed

lemma select_all_collision_free:
  fixes ex act :: bool and co :: "string set set" and ak :: "string list" and rem :: capacity
  assumes "distinct (map gn_node_key ns)"
  defines "st \<equiv> select_all ex act co ak rem ns"
  shows "(\<forall>x \<in> set (sl_selected st). \<forall>y \<in> set (sl_selected st). x \<noteq> y \<longrightarrow> {x, y} \<notin> co) \<and>
    (\<forall>x \<in> set (sl_selected st). \<forall>y \<in> set ak. {x, y} \<notin> co)"
  unfolding st_def using assms(1)
proof (induction ns rule: rev_induct)
  case Nil
  then show ?case by simp
next
  case (snoc n ns)
  let ?st = "select_all ex act co ak rem ns"
  show ?case
  proof (cases "skip_reason ex act co ak n ?st")
    case None
    note ok = skip_reason_None(2) [OF None]
    have "{x, gn_node_key n} \<notin> co" if "x \<in> set (sl_selected ?st)" for x
      using ok that by (metis UnCI insert_commute)
    with snoc ok None show ?thesis by (auto simp: select_all_snoc select_step_simps)
  next
    case (Some r)
    then show ?thesis using snoc by (auto simp: select_all_snoc select_step_simps)
  qed
qed

text \<open>Skips stay justified: a reason that held when a node was passed over holds at the end.\<close>

lemma skip_reason_mono:
  assumes "set (sl_selected st) \<subseteq> set (sl_selected st')"
    and "ca_development (sl_remaining st') \<le> ca_development (sl_remaining st)"
    and "ca_shared (sl_remaining st') \<le> ca_shared (sl_remaining st)"
    and "ca_sre (sl_remaining st') \<le> ca_sre (sl_remaining st)"
    and "skip_reason ex act co ak n st \<noteq> None"
  shows "skip_reason ex act co ak n st' \<noteq> None"
proof
  assume "skip_reason ex act co ak n st' = None"
  note none = skip_reason_None [OF this]
  from none(1) assms(1) have "ex \<longrightarrow> \<not> act \<and> sl_selected st = []" by auto
  moreover have "\<forall>other \<in> set ak \<union> set (sl_selected st). {gn_node_key n, other} \<notin> co"
    using none(2) assms(1) by blast
  ultimately show False using none(3-5) assms(2-5) by (auto simp: skip_reason_def split: if_splits)
qed

lemma select_all_skips_justified:
  fixes ex act :: bool and co :: "string set set" and ak :: "string list" and rem :: capacity
  assumes "\<forall>n \<in> set ns. units_nonneg n"
  defines "st \<equiv> select_all ex act co ak rem ns"
  shows "\<forall>s \<in> set (sl_skipped st). \<exists>n \<in> set ns. gn_node_key n = fst s \<and>
    skip_reason ex act co ak n st \<noteq> None"
  unfolding st_def using assms(1)
proof (induction ns rule: rev_induct)
  case Nil
  then show ?case by simp
next
  case (snoc n ns)
  let ?st = "select_all ex act co ak rem ns"
  let ?st' = "select_all ex act co ak rem (ns @ [n])"
  have grow: "set (sl_selected ?st) \<subseteq> set (sl_selected ?st') \<and>
      ca_development (sl_remaining ?st') \<le> ca_development (sl_remaining ?st) \<and>
      ca_shared (sl_remaining ?st') \<le> ca_shared (sl_remaining ?st) \<and>
      ca_sre (sl_remaining ?st') \<le> ca_sre (sl_remaining ?st)"
    using snoc.prems by (cases "skip_reason ex act co ak n ?st")
      (simp_all add: select_all_snoc select_step_simps take_capacity_def units_nonneg_def subset_insertI)
  have keep: "skip_reason ex act co ak m ?st' \<noteq> None" if "skip_reason ex act co ak m ?st \<noteq> None" for m
    using grow that by (intro skip_reason_mono [of ?st ?st']) auto
  show ?case
  proof
    fix s
    assume s: "s \<in> set (sl_skipped ?st')"
    show "\<exists>m \<in> set (ns @ [n]). gn_node_key m = fst s \<and> skip_reason ex act co ak m ?st' \<noteq> None"
    proof (cases "s \<in> set (sl_skipped ?st)")
      case True
      with snoc.IH snoc.prems keep show ?thesis by fastforce
    next
      case False
      with s have "skip_reason ex act co ak n ?st \<noteq> None" "fst s = gn_node_key n"
        by (cases "skip_reason ex act co ak n ?st"; auto simp: select_all_snoc select_step_simps)+
      with keep show ?thesis by auto
    qed
  qed
qed

subsection \<open>What a decision guarantees\<close>

definition candidate_nodes :: "db \<Rightarrow> string \<Rightarrow> string list \<Rightarrow> graph_node_row list" where
  "candidate_nodes d repo ks = map (\<lambda>k. the (node_named (graph_nodes d repo) k)) ks"

definition final_selection :: "db \<Rightarrow> string \<Rightarrow> capacity_policy_row \<Rightarrow> string list \<Rightarrow> selection" where
  "final_selection d repo p ks = select_all (exclusive_writer repo) (reserved_items d repo \<noteq> [])
     (collision_pairs (relations_of d repo (current_version d repo))) (active_keys d repo (graph_nodes d repo))
     (remaining_capacity d repo p) (candidate_nodes d repo ks)"

lemma decide_Inr:
  assumes "decide d repo main = Inr x"
  obtains v p where "evaluate_stored d repo main = Inr v" "gv_health v = ''CURRENT''"
    "capacity_policy d repo = Inr p" "dc_ordered_ready x = candidates_of (graph_nodes d repo) v"
    "dc_selected x = sl_selected (final_selection d repo p (dc_ordered_ready x))"
    "dc_skipped x = sl_skipped (final_selection d repo p (dc_ordered_ready x))"
    "dc_remaining_capacity x = sl_remaining (final_selection d repo p (dc_ordered_ready x))"
proof -
  from assms obtain v g p where v: "evaluate_stored d repo main = Inr v" "gv_health v = ''CURRENT''"
    and g: "read_graph d repo = Inr g" and p: "capacity_policy d repo = Inr p"
    and x: "dc_ordered_ready x = candidates_of (lg_nodes g) v"
      "dc_selected x = sl_selected (select_all (exclusive_writer repo) (reserved_items d repo \<noteq> [])
            (collision_pairs (lg_relations g)) (active_keys d repo (lg_nodes g))
            (remaining_capacity d repo p) (map (\<lambda>k. the (node_named (lg_nodes g) k)) (dc_ordered_ready x)))"
      "dc_skipped x = sl_skipped (select_all (exclusive_writer repo) (reserved_items d repo \<noteq> [])
            (collision_pairs (lg_relations g)) (active_keys d repo (lg_nodes g))
            (remaining_capacity d repo p) (map (\<lambda>k. the (node_named (lg_nodes g) k)) (dc_ordered_ready x)))"
      "dc_remaining_capacity x = sl_remaining (select_all (exclusive_writer repo) (reserved_items d repo \<noteq> [])
            (collision_pairs (lg_relations g)) (active_keys d repo (lg_nodes g))
            (remaining_capacity d repo p) (map (\<lambda>k. the (node_named (lg_nodes g) k)) (dc_ordered_ready x)))"
    unfolding decide_def by (auto simp: guard_simps Let_def split: prod.splits)
  note lg = read_graph_Inr [OF g]
  from v p x show thesis
    by (intro that [of v p]) (simp_all add: lg(1,3) final_selection_def candidate_nodes_def)
qed

lemma candidates_of_props:
  assumes wf: "graph_wf d" and ev: "evaluate_stored d repo main = Inr v"
  defines "ks \<equiv> candidates_of (graph_nodes d repo) v"
  shows "distinct ks" and "set ks = pj_node_key ` {pj \<in> set (gv_nodes v). pj_executable_ready pj}"
    and "map gn_node_key (candidate_nodes d repo ks) = ks"
    and "set (candidate_nodes d repo ks) \<subseteq> set (graph_nodes d repo)"
    and "\<forall>n \<in> set (candidate_nodes d repo ks). units_nonneg n"
proof -
  note keys = evaluate_graph_keys [OF wf ev]
  show set_ks: "set ks = pj_node_key ` {pj \<in> set (gv_nodes v). pj_executable_ready pj}"
    by (simp add: ks_def candidates_of_def)
  have "distinct (map pj_node_key (filter pj_executable_ready (gv_nodes v)))"
    using keys(3) by (rule distinct_map_filter)
  then show "distinct ks"
    by (simp add: ks_def candidates_of_def distinct_map)
  have named: "\<exists>n \<in> set (graph_nodes d repo). node_named (graph_nodes d repo) k = Some n \<and> gn_node_key n = k"
    if "k \<in> set ks" for k
  proof -
    from that set_ks have "k \<in> set (map pj_node_key (gv_nodes v))" by auto
    then obtain n where n: "n \<in> set (graph_nodes d repo)" "gn_node_key n = k" unfolding keys(1) by blast
    with node_named_mem [OF _ n(1)] graph_wf_keys_distinct [OF wf] show ?thesis
      by (auto simp: graph_nodes_def)
  qed
  then show "map gn_node_key (candidate_nodes d repo ks) = ks"
    by (force simp: candidate_nodes_def intro: map_idI)
  show sub: "set (candidate_nodes d repo ks) \<subseteq> set (graph_nodes d repo)"
    using named by (force simp: candidate_nodes_def)
  show "\<forall>n \<in> set (candidate_nodes d repo ks). units_nonneg n"
    using sub wf by (auto simp: graph_wf_def node_units_ok_def units_nonneg_def graph_nodes_def nodes_of_def)
qed

lemma used_subset:
  assumes "distinct (map gn_node_key ns)" and "distinct (map gn_node_key ms)" and "set ms \<subseteq> set ns"
    and "set ks \<subseteq> gn_node_key ` set ms"
  shows "used units ns ks = used units ms ks"
proof -
  have "n \<in> set ms" if "n \<in> set ns" "gn_node_key n \<in> set ks" for n
  proof -
    from that(2) assms(4) obtain m where "m \<in> set ms" "gn_node_key m = gn_node_key n" by (metis imageE subsetD)
    with distinct_map_eqD [OF assms(1) _ that(1)] assms(3) show ?thesis by blast
  qed
  with assms(3) have "set (selected_nodes ns ks) = set (selected_nodes ms ks)"
    by (auto simp: selected_nodes_def)
  moreover have "distinct (selected_nodes ns ks)" "distinct (selected_nodes ms ks)"
    using assms(1,2) by (auto simp: selected_nodes_def distinct_map)
  ultimately show ?thesis by (simp add: used_def sum_list_distinct_conv_sum_set)
qed

text \<open>
  C4: a decision never oversubscribes capacity. Whenever it selects anything, in each of the three
  dimensions the units of the selected nodes, the units already held by active and retained items
  and, for SRE, the units fenced by hosted operations together stay within the current policy; and
  the remaining capacity it reports is exactly the difference.
\<close>

theorem schedule_within_capacity:
  assumes "graph_wf d" and "decide d repo main = Inr x"
  shows "\<exists>p. capacity_policy d repo = Inr p \<and>
    (dc_selected x = [] \<or>
      (occupied_units it_development_units d repo + used gn_development_units (graph_nodes d repo) (dc_selected x)
         \<le> cp_development_limit p \<and>
       occupied_units it_shared_units d repo + used gn_shared_units (graph_nodes d repo) (dc_selected x)
         \<le> cp_shared_limit p \<and>
       occupied_units it_sre_units d repo + reserved_hosted_sre_units d repo +
         used gn_sre_units (graph_nodes d repo) (dc_selected x) \<le> cp_sre_limit p)) \<and>
    ca_development (dc_remaining_capacity x) = cp_development_limit p -
      occupied_units it_development_units d repo - used gn_development_units (graph_nodes d repo) (dc_selected x) \<and>
    ca_shared (dc_remaining_capacity x) = cp_shared_limit p -
      occupied_units it_shared_units d repo - used gn_shared_units (graph_nodes d repo) (dc_selected x) \<and>
    ca_sre (dc_remaining_capacity x) = cp_sre_limit p - occupied_units it_sre_units d repo -
      reserved_hosted_sre_units d repo - used gn_sre_units (graph_nodes d repo) (dc_selected x)"
proof -
  from assms(2) obtain v p where v: "evaluate_stored d repo main = Inr v" and p: "capacity_policy d repo = Inr p"
    and ks: "dc_ordered_ready x = candidates_of (graph_nodes d repo) v"
    and sel: "dc_selected x = sl_selected (final_selection d repo p (dc_ordered_ready x))"
    and rem: "dc_remaining_capacity x = sl_remaining (final_selection d repo p (dc_ordered_ready x))"
    by (rule decide_Inr)
  note c = candidates_of_props [OF assms(1) v, folded ks]
  let ?ns = "candidate_nodes d repo (dc_ordered_ready x)"
  have dist: "distinct (map gn_node_key ?ns)" using c(1,3) by simp
  have "set (dc_selected x) \<subseteq> gn_node_key ` set ?ns"
    using select_all_mem unfolding sel final_selection_def by blast
  then have same: "used u (graph_nodes d repo) (dc_selected x) = used u ?ns (dc_selected x)" for u
    using graph_wf_keys_distinct [OF assms(1)] dist c(4) by (intro used_subset) (simp_all add: graph_nodes_def)
  note r = select_all_remaining [OF dist, of "exclusive_writer repo" "reserved_items d repo \<noteq> []"
      "collision_pairs (relations_of d repo (current_version d repo))" "active_keys d repo (graph_nodes d repo)"
      "remaining_capacity d repo p", folded final_selection_def, folded sel rem]
  have "dc_selected x \<noteq> [] \<longrightarrow> 0 \<le> ca_development (dc_remaining_capacity x) \<and>
      0 \<le> ca_shared (dc_remaining_capacity x) \<and> 0 \<le> ca_sre (dc_remaining_capacity x)"
    using select_all_fits [OF c(5)] unfolding sel rem final_selection_def by blast
  with p r show ?thesis by (auto simp: same remaining_capacity_def)
qed

lemma decide_exclusion:
  assumes "graph_wf d" and "decide d repo main = Inr x"
  shows "(\<forall>a \<in> set (dc_selected x). \<forall>b \<in> set (dc_selected x) \<union> set (active_keys d repo (graph_nodes d repo)).
      a = b \<or> {a, b} \<notin> collision_pairs (relations_of d repo (current_version d repo))) \<and>
    (exclusive_writer repo \<longrightarrow> length (dc_selected x) \<le> 1 \<and>
       (reserved_items d repo \<noteq> [] \<longrightarrow> dc_selected x = []))"
proof -
  from assms(2) obtain v p where v: "evaluate_stored d repo main = Inr v"
    and ks: "dc_ordered_ready x = candidates_of (graph_nodes d repo) v"
    and sel: "dc_selected x = sl_selected (final_selection d repo p (dc_ordered_ready x))"
    by (rule decide_Inr)
  note c = candidates_of_props [OF assms(1) v, folded ks]
  have "distinct (map gn_node_key (candidate_nodes d repo (dc_ordered_ready x)))" using c(1,3) by simp
  note free = select_all_collision_free [OF this, of "exclusive_writer repo" "reserved_items d repo \<noteq> []"
      "collision_pairs (relations_of d repo (current_version d repo))" "active_keys d repo (graph_nodes d repo)"
      "remaining_capacity d repo p", folded final_selection_def, folded sel]
  have "exclusive_writer repo \<longrightarrow> length (dc_selected x) \<le> 1 \<and>
       (reserved_items d repo \<noteq> [] \<longrightarrow> dc_selected x = [])"
    unfolding sel final_selection_def by (intro impI select_all_mutex)
  with free show ?thesis by blast
qed

text \<open>
  C28: selected work does not collide. No two selected nodes stand in a collision, none collides
  with a node of an active or retained item, and in a repository with an exclusive writer at most
  one node is selected and none at all while an item holds an allocation.
\<close>

theorem schedule_exclusion:
  assumes "graph_wf d" and "decide d repo main = Inr x"
  shows "(\<forall>a \<in> set (dc_selected x). \<forall>b \<in> set (dc_selected x) \<union> set (active_keys d repo (graph_nodes d repo)).
      a = b \<or> {a, b} \<notin> collision_pairs (relations_of d repo (current_version d repo))) \<and>
    (exclusive_writer repo \<longrightarrow> length (dc_selected x) \<le> 1 \<and>
       (reserved_items d repo \<noteq> [] \<longrightarrow> dc_selected x = []))"
  by (rule decide_exclusion [OF assms])

text \<open>
  The decision accounts for every ready node exactly once and in rank order. The candidates are
  the executable nodes of the evaluation sorted by priority, lane order, queue age, critical path,
  unlocks, descendants and key; each is either selected or skipped, never both, and the selected
  ones keep the rank order.
\<close>

theorem schedule_partition:
  assumes "graph_wf d" and "decide d repo main = Inr x"
  shows "\<exists>v pjs. evaluate_graph d repo main False = Inr (d, v) \<and> dc_ordered_ready x = map pj_node_key pjs \<and>
    sorted (map (rank_of (graph_nodes d repo)) pjs) \<and>
    set pjs = {pj \<in> set (gv_nodes v). pj_executable_ready pj} \<and> distinct (dc_ordered_ready x) \<and>
    mset (dc_selected x) + mset (map fst (dc_skipped x)) = mset (dc_ordered_ready x) \<and>
    subseq (dc_selected x) (dc_ordered_ready x)"
proof -
  from assms(2) obtain v p where v: "evaluate_stored d repo main = Inr v"
    and ks: "dc_ordered_ready x = candidates_of (graph_nodes d repo) v"
    and sel: "dc_selected x = sl_selected (final_selection d repo p (dc_ordered_ready x))"
    and skip: "dc_skipped x = sl_skipped (final_selection d repo p (dc_ordered_ready x))"
    by (rule decide_Inr)
  note c = candidates_of_props [OF assms(1) v, folded ks]
  let ?pjs = "sort_key (rank_of (graph_nodes d repo)) (filter pj_executable_ready (gv_nodes v))"
  have "mset (dc_selected x) + mset (map fst (dc_skipped x)) = mset (dc_ordered_ready x)"
    "subseq (dc_selected x) (dc_ordered_ready x)"
    using select_all_keys(1,2) [where ns = "candidate_nodes d repo (dc_ordered_ready x)"] c(3)
    unfolding sel skip final_selection_def by simp_all
  then show ?thesis
    using v ks c(1) by (intro exI [of _ v] exI [of _ ?pjs]) (simp add: candidates_of_def evaluate_graph_False)
qed

text \<open>
  The scheduler is work-conserving. At the end of the selection every skipped node still has a
  reason not to run: the writer mutex, a collision with active or selected work, or a lack of
  capacity. No skipped node could be added to the selection.
\<close>

theorem schedule_skips_justified:
  assumes "graph_wf d" and "decide d repo main = Inr x"
  shows "\<exists>p. capacity_policy d repo = Inr p \<and>
    (\<forall>s \<in> set (dc_skipped x). \<exists>n \<in> set (graph_nodes d repo). gn_node_key n = fst s \<and>
      skip_reason (exclusive_writer repo) (reserved_items d repo \<noteq> [])
        (collision_pairs (relations_of d repo (current_version d repo))) (active_keys d repo (graph_nodes d repo)) n
        \<lparr>sl_selected = dc_selected x, sl_skipped = dc_skipped x, sl_remaining = dc_remaining_capacity x\<rparr> \<noteq> None)"
proof -
  from assms(2) obtain v p where v: "evaluate_stored d repo main = Inr v" and p: "capacity_policy d repo = Inr p"
    and ks: "dc_ordered_ready x = candidates_of (graph_nodes d repo) v"
    and x: "dc_selected x = sl_selected (final_selection d repo p (dc_ordered_ready x))"
      "dc_skipped x = sl_skipped (final_selection d repo p (dc_ordered_ready x))"
      "dc_remaining_capacity x = sl_remaining (final_selection d repo p (dc_ordered_ready x))"
    by (rule decide_Inr)
  note c = candidates_of_props [OF assms(1) v, folded ks]
  have "\<lparr>sl_selected = dc_selected x, sl_skipped = dc_skipped x, sl_remaining = dc_remaining_capacity x\<rparr> =
      final_selection d repo p (dc_ordered_ready x)" by (simp add: x)
  with select_all_skips_justified [OF c(5)] c(4) p show ?thesis
    unfolding x(2) final_selection_def by (metis (no_types, lifting) subsetD)
qed

lemma decide_selects_ready:
  assumes "graph_wf d" and "decide d repo main = Inr x" and "k \<in> set (dc_selected x)"
  shows "\<exists>n \<in> set (graph_nodes d repo). gn_node_key n = k \<and> gn_dispatchable n \<and> \<not> finished d repo k \<and>
    (\<forall>q. (q, k) \<in> set (graph_edges d repo) \<longrightarrow> finished d repo q) \<and>
    (\<exists>i. item_of d repo (gn_issue_number n) = Some i \<and> it_status i = ''READY'') \<and>
    (\<exists>s. source_join d repo ''issue'' (gn_issue_number n) = Some s \<and>
       gc_payload_sha256 (fst s) = gn_source_payload_sha256 n) \<and>
    (\<exists>c. graph_current_of d repo = Some c \<and> gp_health c = ''CURRENT'' \<and> gp_observed_main_sha c = main)"
proof -
  from assms(2) obtain v p where v: "evaluate_stored d repo main = Inr v" "gv_health v = ''CURRENT''"
    and ks: "dc_ordered_ready x = candidates_of (graph_nodes d repo) v"
    and sel: "dc_selected x = sl_selected (final_selection d repo p (dc_ordered_ready x))"
    by (rule decide_Inr)
  note c = candidates_of_props [OF assms(1) v(1), folded ks]
  have "k \<in> gn_node_key ` set (candidate_nodes d repo (dc_ordered_ready x))"
    using assms(3) select_all_mem unfolding sel final_selection_def by blast
  then have "k \<in> set (dc_ordered_ready x)" using c(3) by (metis set_map)
  with c(2) obtain pj where pj: "pj \<in> set (gv_nodes v)" "pj_executable_ready pj" "pj_node_key pj = k" by auto
  with evaluated_ready [OF assms(1) v(1)] obtain n where n: "n \<in> set (graph_nodes d repo)" "gn_node_key n = k"
    "gn_dispatchable n" "\<not> finished d repo k" "\<forall>q. (q, k) \<in> set (graph_edges d repo) \<longrightarrow> finished d repo q"
    "map_option it_status (item_of d repo (gn_issue_number n)) = Some ''READY''"
    by (metis (no_types, lifting))
  moreover from n(6) have "\<exists>i. item_of d repo (gn_issue_number n) = Some i \<and> it_status i = ''READY''" by auto
  moreover note evaluated_current [OF assms(1) v]
  ultimately show ?thesis by blast
qed

text \<open>
  C24: only work that may start is selected. The graph is current at the given main commit, and the
  selected node is dispatchable and not finished, its coordination item is READY, all its hard
  predecessors are finished, and its source is the one the graph was reviewed against.
\<close>

theorem schedule_selects_ready:
  assumes "graph_wf d" and "decide d repo main = Inr x" and "k \<in> set (dc_selected x)"
  shows "\<exists>n \<in> set (graph_nodes d repo). gn_node_key n = k \<and> gn_dispatchable n \<and> \<not> finished d repo k \<and>
    (\<forall>q. (q, k) \<in> set (graph_edges d repo) \<longrightarrow> finished d repo q) \<and>
    (\<exists>i. item_of d repo (gn_issue_number n) = Some i \<and> it_status i = ''READY'') \<and>
    (\<exists>s. source_join d repo ''issue'' (gn_issue_number n) = Some s \<and>
       gc_payload_sha256 (fst s) = gn_source_payload_sha256 n) \<and>
    (\<exists>c. graph_current_of d repo = Some c \<and> gp_health c = ''CURRENT'' \<and> gp_observed_main_sha c = main)"
  by (rule decide_selects_ready [OF assms])

subsection \<open>The decision log\<close>

lemma log_decision_event_simps:
  "set (portfolio_scheduler_events d) \<subseteq> set (portfolio_scheduler_events (log_decision_event repo ver sha now e d))"
  "\<exists>r \<in> set (portfolio_scheduler_events (log_decision_event repo ver sha now e d)).
     se_repository r = repo \<and> se_graph_version r = ver \<and> se_decision_sha256 r = sha \<and>
     se_node_key r = fst e \<and> se_event_type r = fst (snd e)"
  by (auto simp: log_decision_event_def insert_or_ignore_def split: prod.splits)

lemma log_decision_event_known:
  assumes "\<exists>r \<in> set (portfolio_scheduler_events d). se_repository r = repo \<and> se_graph_version r = ver \<and>
     se_decision_sha256 r = sha \<and> se_node_key r = fst e \<and> se_event_type r = fst (snd e)"
  shows "log_decision_event repo ver sha now e d = d"
  using assms by (auto simp: log_decision_event_def insert_or_ignore_def split: prod.splits)

definition logged :: "string \<Rightarrow> int \<Rightarrow> string \<Rightarrow> db \<Rightarrow> string \<times> string \<times> string \<Rightarrow> bool" where
  "logged repo ver sha d e \<longleftrightarrow> (\<exists>r \<in> set (portfolio_scheduler_events d). se_repository r = repo \<and>
     se_graph_version r = ver \<and> se_decision_sha256 r = sha \<and> se_node_key r = fst e \<and> se_event_type r = fst (snd e))"

lemma fold_log_all:
  "(\<forall>e \<in> set es. logged repo ver sha (fold (log_decision_event repo ver sha now) es d) e) \<and>
   (\<forall>e. logged repo ver sha d e \<longrightarrow> logged repo ver sha (fold (log_decision_event repo ver sha now) es d) e)"
proof (induction es arbitrary: d)
  case Nil
  then show ?case by simp
next
  case (Cons e es)
  let ?d = "log_decision_event repo ver sha now e d"
  have "logged repo ver sha ?d e" using log_decision_event_simps(2) by (simp add: logged_def)
  moreover have "logged repo ver sha ?d f" if "logged repo ver sha d f" for f
    using that log_decision_event_simps(1) [of d repo ver sha now e] by (auto simp: logged_def)
  ultimately show ?case using Cons.IH [of ?d] by (simp del: split_paired_All)
qed

lemma fold_log_known:
  "\<forall>e \<in> set es. logged repo ver sha d e \<Longrightarrow> fold (log_decision_event repo ver sha now) es d = d"
  by (induction es) (auto simp: log_decision_event_known logged_def)

text \<open>
  Recording a decision logs every candidate as ready and every selected and skipped node with its
  outcome, and logging is idempotent: recording the same decision again, at any time, changes nothing.
\<close>

theorem record_decision_idempotent:
  "record_decision x sha later (record_decision x sha now d) = record_decision x sha now d \<and>
   (\<forall>k \<in> set (dc_ordered_ready x).
      logged (dc_repository x) (dc_graph_version x) sha (record_decision x sha now d) (k, ''READY'', ''DEPENDENCIES_SATISFIED'')) \<and>
   (\<forall>k \<in> set (dc_selected x).
      logged (dc_repository x) (dc_graph_version x) sha (record_decision x sha now d) (k, ''SELECT'', ''FIFO_CAPACITY_FIT'')) \<and>
   (\<forall>s \<in> set (dc_skipped x).
      logged (dc_repository x) (dc_graph_version x) sha (record_decision x sha now d) (fst s, ''SKIP'', snd s))"
proof -
  let ?es = "map (\<lambda>k. (k, ''READY'', ''DEPENDENCIES_SATISFIED'')) (dc_ordered_ready x) @
        map (\<lambda>k. (k, ''SELECT'', ''FIFO_CAPACITY_FIT'')) (dc_selected x) @
        map (\<lambda>s. (fst s, ''SKIP'', snd s)) (dc_skipped x)"
  have all: "\<forall>e \<in> set ?es. logged (dc_repository x) (dc_graph_version x) sha (record_decision x sha now d) e"
    using fold_log_all [of ?es] unfolding record_decision_def by blast
  then have "record_decision x sha later (record_decision x sha now d) = record_decision x sha now d"
    using fold_log_known [of ?es] unfolding record_decision_def [of x sha later] by blast
  with all show ?thesis by auto
qed

subsection \<open>A concrete decision\<close>

definition example_stored_node :: "string \<Rightarrow> int \<Rightarrow> string \<Rightarrow> graph_node_row" where
  "example_stored_node key issue root = \<lparr>gn_repository = HARNESS_REPOSITORY, gn_graph_version = 1,
     gn_node_key = key, gn_issue_number = issue, gn_role = ''DELIVERY'', gn_root_kind = root,
     gn_root_reason = None, gn_milestone_title = None, gn_milestone_rank = None, gn_lane_key = ''main'',
     gn_lane_order = issue, gn_dispatchable = True, gn_priority_rank = 1, gn_estimate_units = 2,
     gn_development_units = 1, gn_shared_units = 0, gn_sre_units = 0,
     gn_source_payload_sha256 = example_sha, gn_ready_at = ''t0''\<rparr>"

definition example_item :: "int \<Rightarrow> item_row" where
  "example_item n = \<lparr>it_repository = HARNESS_REPOSITORY, it_issue_number = n, it_status = ''READY'',
     it_allocation_class = ''NONE'', it_generation = 1, it_accountable_session_id = None,
     it_lease_manifest_sha256 = None, it_development_units = 0, it_shared_units = 0, it_sre_units = 0,
     it_source_payload_sha256 = example_sha, it_version = 1, it_updated_at = ''t0''\<rparr>"

definition scheduling_db :: db where
  "scheduling_db = example_db\<lparr>
     github_current := map example_issue [1, 2, 3], github_snapshots := map example_snapshot [1, 2, 3],
     coordination_items := map example_item [1, 2, 3],
     coordination_capacity_policies := [\<lparr>cp_repository = HARNESS_REPOSITORY, cp_version = 1,
       cp_development_limit = 2, cp_shared_limit = 1, cp_sre_limit = 1, cp_authority_sha256 = None,
       cp_created_at = ''t0''\<rparr>],
     coordination_capacity_current := [\<lparr>cc_repository = HARNESS_REPOSITORY, cc_version = 1, cc_updated_at = ''t0''\<rparr>],
     portfolio_graph_revisions := [\<lparr>gr_repository = HARNESS_REPOSITORY, gr_version = 1, gr_parent_version = None,
       gr_accepted_main_sha = replicate 40 (CHR ''b''), gr_graph_sha256 = example_sha,
       gr_scope_json = Some (PDict [(''kind'', PStr ''ISSUE_SET''), (''issue_numbers'', PList [PInt 1, PInt 2, PInt 3])]),
       gr_exclusions_json = Some (PList []), gr_created_at = ''t0''\<rparr>],
     portfolio_graph_current := [\<lparr>gp_repository = HARNESS_REPOSITORY, gp_version = 1,
       gp_observed_main_sha = replicate 40 (CHR ''b''), gp_health = ''CURRENT'', gp_updated_at = ''t0'',
       gp_last_error = None\<rparr>],
     portfolio_graph_nodes := [example_stored_node ''issue:1'' 1 ''INTENTIONAL'',
       example_stored_node ''issue:2'' 2 ''NORMAL'', example_stored_node ''issue:3'' 3 ''STANDALONE''],
     portfolio_graph_relations := [\<lparr>gl_repository = HARNESS_REPOSITORY, gl_graph_version = 1,
       gl_left_node_key = ''issue:1'', gl_right_node_key = ''issue:2'', gl_relation_kind = ''HARD_BLOCK'',
       gl_reason = ''builds on it'', gl_source_payload_sha256 = example_sha\<rparr>]\<rparr>"

lemma scheduling_db_wf: "graph_wf scheduling_db"
proof -
  have "acyclic (set (hard_edges_of (relations_of scheduling_db repo ver)))" for repo ver
  proof -
    have "set (hard_edges_of (relations_of scheduling_db repo ver)) \<subseteq> {(''issue:1'', ''issue:2'')}"
      by (auto simp: scheduling_db_def relations_of_def hard_edges_of_def)
    moreover have "acyclic {(''issue:1'', ''issue:2'')}" by (simp add: acyclic_insert acyclic_def [of "{}"])
    ultimately show ?thesis using acyclic_subset by blast
  qed
  moreover have "current_version scheduling_db HARNESS_REPOSITORY = 1" by code_simp
  moreover have "nodes_of scheduling_db HARNESS_REPOSITORY 1 \<noteq> []" by code_simp
  ultimately show ?thesis
    by (simp add: graph_wf_def) (simp add: scheduling_db_def example_db_def revision_pk_def node_pk_def
        relation_pk_def node_units_ok_def example_stored_node_def)
qed

lemma scheduling_decision:
  "case decide scheduling_db HARNESS_REPOSITORY (replicate 40 (CHR ''b'')) of
     Inr x \<Rightarrow> dc_selected x = [''issue:1''] \<and> dc_skipped x = [(''issue:3'', ''REPOSITORY_WRITER_MUTEX'')]
   | Inl _ \<Rightarrow> False"
  by code_simp

lemma scheduling_decision_made:
  obtains x where "decide scheduling_db HARNESS_REPOSITORY (replicate 40 (CHR ''b'')) = Inr x"
    "dc_selected x = [''issue:1'']" "dc_skipped x = [(''issue:3'', ''REPOSITORY_WRITER_MUTEX'')]"
  using scheduling_decision by (auto split: sum.splits)

theorem schedule_within_capacity_witness:
  "\<exists>x p. decide scheduling_db HARNESS_REPOSITORY (replicate 40 (CHR ''b'')) = Inr x \<and>
     capacity_policy scheduling_db HARNESS_REPOSITORY = Inr p \<and> dc_selected x = [''issue:1''] \<and>
     occupied_units it_development_units scheduling_db HARNESS_REPOSITORY +
       used gn_development_units (graph_nodes scheduling_db HARNESS_REPOSITORY) [''issue:1''] \<le> cp_development_limit p"
proof (rule scheduling_decision_made)
  fix x
  assume x: "decide scheduling_db HARNESS_REPOSITORY (replicate 40 (CHR ''b'')) = Inr x"
    "dc_selected x = [''issue:1'']"
  from schedule_within_capacity [OF scheduling_db_wf x(1)] x show ?thesis by auto
qed

theorem schedule_exclusion_witness:
  "\<exists>x. decide scheduling_db HARNESS_REPOSITORY (replicate 40 (CHR ''b'')) = Inr x \<and>
     exclusive_writer HARNESS_REPOSITORY \<and> length (dc_selected x) \<le> 1"
proof (rule scheduling_decision_made)
  fix x
  assume x: "decide scheduling_db HARNESS_REPOSITORY (replicate 40 (CHR ''b'')) = Inr x"
  have "exclusive_writer HARNESS_REPOSITORY" by code_simp
  with schedule_exclusion [OF scheduling_db_wf x] x show ?thesis by blast
qed

theorem schedule_partition_witness:
  "\<exists>x. decide scheduling_db HARNESS_REPOSITORY (replicate 40 (CHR ''b'')) = Inr x \<and>
     mset (dc_ordered_ready x) = {#''issue:1'', ''issue:3''#}"
proof (rule scheduling_decision_made)
  fix x
  assume x: "decide scheduling_db HARNESS_REPOSITORY (replicate 40 (CHR ''b'')) = Inr x"
    "dc_selected x = [''issue:1'']" "dc_skipped x = [(''issue:3'', ''REPOSITORY_WRITER_MUTEX'')]"
  from schedule_partition [OF scheduling_db_wf x(1)]
  have "mset (dc_selected x) + mset (map fst (dc_skipped x)) = mset (dc_ordered_ready x)" by blast
  with x show ?thesis by (auto simp: add_mset_commute)
qed

theorem schedule_skips_justified_witness:
  "\<exists>x n. decide scheduling_db HARNESS_REPOSITORY (replicate 40 (CHR ''b'')) = Inr x \<and>
     n \<in> set (graph_nodes scheduling_db HARNESS_REPOSITORY) \<and> gn_node_key n = ''issue:3'' \<and>
     fst ` set (dc_skipped x) = {''issue:3''}"
proof (rule scheduling_decision_made)
  fix x
  assume x: "decide scheduling_db HARNESS_REPOSITORY (replicate 40 (CHR ''b'')) = Inr x"
    "dc_skipped x = [(''issue:3'', ''REPOSITORY_WRITER_MUTEX'')]"
  from schedule_skips_justified [OF scheduling_db_wf x(1)] x show ?thesis by auto
qed

theorem schedule_selects_ready_witness:
  "\<exists>n. n \<in> set (graph_nodes scheduling_db HARNESS_REPOSITORY) \<and> gn_node_key n = ''issue:1'' \<and>
     gn_dispatchable n \<and> \<not> finished scheduling_db HARNESS_REPOSITORY ''issue:1''"
proof (rule scheduling_decision_made)
  fix x
  assume x: "decide scheduling_db HARNESS_REPOSITORY (replicate 40 (CHR ''b'')) = Inr x"
    "dc_selected x = [''issue:1'']"
  then have "''issue:1'' \<in> set (dc_selected x)" by simp
  from schedule_selects_ready [OF scheduling_db_wf x(1) this] show ?thesis by blast
qed

theorem record_decision_idempotent_witness:
  "\<exists>x :: decision. dc_selected x = [''issue:1''] \<and>
     logged (dc_repository x) (dc_graph_version x) ''s'' (record_decision x ''s'' ''t1'' scheduling_db)
       (''issue:1'', ''SELECT'', ''FIFO_CAPACITY_FIT'')"
proof (rule scheduling_decision_made)
  fix x :: decision
  assume x: "dc_selected x = [''issue:1'']"
  with record_decision_idempotent [of x "''s''" "''t2''" "''t1''" scheduling_db] show ?thesis
    by (intro exI [of _ x]) simp
qed

end
