(* ===== verification/Timestamps.thy ===== *)
theory Timestamps
  imports Prelude
begin

section \<open>Timestamps\<close>

text \<open>
  The part of Python's \<open>datetime\<close> the store uses: \<open>fromisoformat\<close>, \<open>timedelta\<close> addition and
  \<open>isoformat\<close>, on UTC instants, with the \<open>Z\<close>/\<open>+00:00\<close> exchange both \<open>timestamp_after\<close>
  (coordination_store.py) and \<open>_timestamp_after\<close> (portfolio_convergence.py) do. An instant counts
  microseconds from 0001-01-01T00:00:00. The texts read are the ones \<open>isoformat\<close> writes on a UTC
  value, which is what \<open>utc_now\<close> and GitHub produce; any other text is the \<open>ValueError\<close> of
  \<open>fromisoformat\<close>. A result outside the years 1 to 9999 is Python's \<open>OverflowError\<close>.
\<close>

subsection \<open>The calendar\<close>

definition is_leap :: "int \<Rightarrow> bool" where
  "is_leap y = (y mod 4 = 0 \<and> (y mod 100 \<noteq> 0 \<or> y mod 400 = 0))"

definition month_lengths :: "int \<Rightarrow> int list" where
  "month_lengths y = [31, if is_leap y then 29 else 28, 31, 30, 31, 30, 31, 31, 30, 31, 30, 31]"

definition year_length :: "int \<Rightarrow> int" where
  "year_length y = (if is_leap y then 366 else 365)"

text \<open>Days in the years 1 to \<open>y\<close>.\<close>

definition days_through :: "int \<Rightarrow> int" where
  "days_through y = y * 365 + y div 4 - y div 100 + y div 400"

lemma year_length_bounds: "365 \<le> year_length y" "year_length y \<le> 366"
  by (simp_all add: year_length_def)

lemma succ_div:
  assumes "0 < (k :: int)"
  shows "(y + 1) div k = y div k + (if (y + 1) mod k = 0 then 1 else 0)"
proof (cases "y mod k + 1 = k")
  case True
  have "y + 1 = k * (y div k) + (y mod k + 1)" by simp
  also have "\<dots> = k * (y div k + 1)" unfolding True by (simp add: algebra_simps)
  finally show ?thesis using assms by simp
next
  case False
  with pos_mod_bound [OF assms, of y] pos_mod_sign [OF assms, of y]
  have r: "0 < y mod k + 1" "y mod k + 1 < k" by linarith+
  have eq: "y + 1 = (y mod k + 1) + k * (y div k)" by simp
  have "(y + 1) div k = y div k + (y mod k + 1) div k"
    using assms by (subst eq, simp only: div_mult_self2)
  moreover have "(y mod k + 1) div k = 0" using r by (intro div_pos_pos_trivial) simp_all
  moreover have "(y + 1) mod k = (y mod k + 1) mod k" by (simp add: mod_simps)
  moreover have "(y mod k + 1) mod k = y mod k + 1" using r by (intro mod_pos_pos_trivial) simp_all
  ultimately have "(y + 1) div k = y div k" "(y + 1) mod k = y mod k + 1" by simp_all
  then show ?thesis using r(1) by simp
qed

lemma days_through_next: "days_through (y + 1) = days_through y + year_length (y + 1)"
proof -
  have "400 dvd y + 1 \<Longrightarrow> 100 dvd y + 1" "100 dvd y + 1 \<Longrightarrow> 4 dvd y + 1"
    by (erule dvd_trans [rotated], simp)+
  then have leaps: "(y + 1) mod 400 = 0 \<Longrightarrow> (y + 1) mod 100 = 0"
    "(y + 1) mod 100 = 0 \<Longrightarrow> (y + 1) mod 4 = 0" by (simp_all only: mod_eq_0_iff_dvd)
  have quot: "(y + 1) div 4 = y div 4 + (if (y + 1) mod 4 = 0 then 1 else 0)"
    "(y + 1) div 100 = y div 100 + (if (y + 1) mod 100 = 0 then 1 else 0)"
    "(y + 1) div 400 = y div 400 + (if (y + 1) mod 400 = 0 then 1 else 0)"
    by (rule succ_div, simp)+
  have sums: "(y + 1) * 365 + (a + i) - (b + j) + (c + k) = y * 365 + a - b + c + (365 + i - j + k)"
    for a b c i j k :: int by simp
  have "days_through (y + 1) = days_through y + (365 + (if (y + 1) mod 4 = 0 then 1 else 0) -
      (if (y + 1) mod 100 = 0 then 1 else 0) + (if (y + 1) mod 400 = 0 then 1 else 0))"
    unfolding days_through_def quot by (rule sums)
  also have "\<dots> = days_through y + year_length (y + 1)"
    unfolding year_length_def is_leap_def
    using leaps by (cases "(y + 1) mod 4 = 0"; cases "(y + 1) mod 100 = 0"; cases "(y + 1) mod 400 = 0") simp_all
  finally show ?thesis .
qed

lemma days_through_le: "0 \<le> y \<Longrightarrow> days_through y \<le> 366 * y"
proof (induction y rule: int_ge_induct)
  case base
  then show ?case by (simp add: days_through_def)
next
  case (step y)
  then show ?case using year_length_bounds [of "y + 1"] by (simp add: days_through_next)
qed

lemma days_through_mono: "a \<le> b \<Longrightarrow> days_through a \<le> days_through b"
proof (induction b rule: int_ge_induct)
  case base
  then show ?case by simp
next
  case (step b)
  then show ?case using year_length_bounds [of "b + 1"] by (simp add: days_through_next)
qed

lemma length_month_lengths [simp]: "length (month_lengths y) = 12"
  by (simp add: month_lengths_def)

lemma sum_list_month_lengths [simp]: "sum_list (month_lengths y) = year_length y"
  by (simp add: month_lengths_def year_length_def)

text \<open>The interval of a partition that contains a position, and the offset in it.\<close>

fun locate :: "int list \<Rightarrow> int \<Rightarrow> nat \<times> int" where
  "locate [] r = (0, r)"
| "locate (l # ls) r = (if r < l then (0, r) else (Suc (fst (locate ls (r - l))), snd (locate ls (r - l))))"

lemma locate_sound:
  "0 \<le> r \<Longrightarrow> r < sum_list ls \<Longrightarrow>
     fst (locate ls r) < length ls \<and> 0 \<le> snd (locate ls r) \<and> snd (locate ls r) < ls ! fst (locate ls r) \<and>
     sum_list (take (fst (locate ls r)) ls) + snd (locate ls r) = r"
proof (induction ls arbitrary: r)
  case Nil
  then show ?case by simp
next
  case (Cons l ls)
  show ?case
  proof (cases "r < l")
    case False
    with Cons.prems have "0 \<le> r - l" "r - l < sum_list ls" by simp_all
    from Cons.IH [OF this] False show ?thesis by simp
  qed (use Cons.prems in simp)
qed

function year_from :: "int \<Rightarrow> int \<Rightarrow> int \<times> int" where
  "year_from y r = (if r < year_length (y + 1) then (y, r) else year_from (y + 1) (r - year_length (y + 1)))"
  by auto
termination by (relation "measure (\<lambda>(y, r). nat r)") (auto simp: year_length_def split: if_splits)

declare year_from.simps [simp del]

lemma year_from_sound:
  "0 \<le> r \<Longrightarrow> 0 \<le> snd (year_from y r) \<and> snd (year_from y r) < year_length (fst (year_from y r) + 1) \<and>
   days_through (fst (year_from y r)) + snd (year_from y r) = days_through y + r \<and> y \<le> fst (year_from y r)"
proof (induction y r rule: year_from.induct)
  case (1 y r)
  show ?case
  proof (cases "r < year_length (y + 1)")
    case True
    then show ?thesis using "1.prems" by (simp add: year_from.simps [of y r])
  next
    case False
    then show ?thesis using 1 by (simp add: year_from.simps [of y r] days_through_next)
  qed
qed

record civil =
  cv_year :: int
  cv_month :: int
  cv_day :: int

definition civil_valid :: "civil \<Rightarrow> bool" where
  "civil_valid c = (1 \<le> cv_year c \<and> cv_year c \<le> 9999 \<and> 1 \<le> cv_month c \<and> cv_month c \<le> 12 \<and>
     1 \<le> cv_day c \<and> cv_day c \<le> month_lengths (cv_year c) ! nat (cv_month c - 1))"

text \<open>Days from 0001-01-01 to a date, and back.\<close>

definition day_number :: "civil \<Rightarrow> int" where
  "day_number c = days_through (cv_year c - 1) +
     sum_list (take (nat (cv_month c - 1)) (month_lengths (cv_year c))) + (cv_day c - 1)"

definition civil_of_day :: "int \<Rightarrow> civil" where
  "civil_of_day n =
     (let (y, r) = year_from (n div 366) (n - days_through (n div 366));
          (m, q) = locate (month_lengths (y + 1)) r in
      \<lparr>cv_year = y + 1, cv_month = int m + 1, cv_day = q + 1\<rparr>)"

definition max_day :: int where
  "max_day = days_through 9999"

lemma civil_of_day:
  assumes "0 \<le> n" "n < max_day"
  shows "civil_valid (civil_of_day n)" and "day_number (civil_of_day n) = n"
proof -
  obtain y r where yr: "year_from (n div 366) (n - days_through (n div 366)) = (y, r)" by fastforce
  obtain m q where mq: "locate (month_lengths (y + 1)) r = (m, q)" by fastforce
  from assms(1) have start: "0 \<le> n div 366" "366 * (n div 366) \<le> n" by simp_all
  with days_through_le [OF start(1)] have "0 \<le> n - days_through (n div 366)" by linarith
  from year_from_sound [OF this, of "n div 366"] yr start(1)
  have r: "0 \<le> r" "r < year_length (y + 1)" "days_through y + r = n" "0 \<le> y" by simp_all
  have "y < 9999"
  proof (rule ccontr)
    assume "\<not> y < 9999"
    with days_through_mono [of 9999 y] r assms show False by (simp add: max_day_def)
  qed
  moreover from locate_sound [of r "month_lengths (y + 1)"] r mq
  have m: "m < 12" "0 \<le> q" "q < month_lengths (y + 1) ! m"
    "sum_list (take m (month_lengths (y + 1))) + q = r"
    by simp_all
  moreover have eq: "civil_of_day n = \<lparr>cv_year = y + 1, cv_month = int m + 1, cv_day = q + 1\<rparr>"
    by (simp add: civil_of_day_def yr mq)
  ultimately show "civil_valid (civil_of_day n)" using r(4) by (simp add: civil_valid_def)
  from r(3) m(4) show "day_number (civil_of_day n) = n" by (simp add: eq day_number_def)
qed

subsection \<open>Texts\<close>

primrec pad :: "nat \<Rightarrow> int \<Rightarrow> string" where
  "pad 0 n = []"
| "pad (Suc w) n = pad w (n div 10) @ [char_of (48 + n mod 10)]"

definition int_of_digits :: "string \<Rightarrow> int" where
  "int_of_digits s = foldl (\<lambda>n c. 10 * n + (of_char c - 48)) 0 s"

lemma length_pad [simp]: "length (pad w n) = w"
  by (induction w arbitrary: n) auto

lemma digit_char:
  fixes n :: int
  shows "of_char (char_of (48 + n mod 10) :: char) = 48 + n mod 10" "is_digit (char_of (48 + n mod 10))"
proof -
  have range: "0 \<le> n mod 10" "n mod 10 < 10" by simp_all
  then show val: "of_char (char_of (48 + n mod 10) :: char) = 48 + n mod 10" by simp
  have "char_of (48 + n mod 10) = (char_of (48 + nat (n mod 10)) :: char)"
    using range by (metis char_of_nat int_nat_eq of_nat_add of_nat_numeral)
  then show "is_digit (char_of (48 + n mod 10))" using is_digit_char_of [of "nat (n mod 10)"] range by simp
qed

lemma digits_pad: "list_all is_digit (pad w n)"
  by (induction w arbitrary: n) (simp_all add: digit_char)

lemma int_of_digits_pad: "0 \<le> n \<Longrightarrow> n < 10 ^ w \<Longrightarrow> int_of_digits (pad w n) = n"
proof (induction w arbitrary: n)
  case 0
  then show ?case by (simp add: int_of_digits_def)
next
  case (Suc w)
  then have "n div 10 < 10 ^ w" by (simp add: div_less_iff_less_mult)
  with Suc have "int_of_digits (pad w (n div 10)) = n div 10" by simp
  then show ?case by (simp add: int_of_digits_def digit_char)
qed

definition day_micros :: int where
  "day_micros = 86400 * 1000000"

definition max_instant :: int where
  "max_instant = max_day * day_micros"

text \<open>\<open>isoformat()\<close> of a UTC instant: the fraction is written only when it is not zero.\<close>

definition isoformat :: "int \<Rightarrow> string" where
  "isoformat t =
     (let c = civil_of_day (t div day_micros); s = t mod day_micros;
          sec = s div 1000000; frac = s mod 1000000 in
      pad 4 (cv_year c) @ ''-'' @ pad 2 (cv_month c) @ ''-'' @ pad 2 (cv_day c) @ ''T'' @
      pad 2 (sec div 3600) @ '':'' @ pad 2 (sec div 60 mod 60) @ '':'' @ pad 2 (sec mod 60) @
      (if frac = 0 then [] else ''.'' @ pad 6 frac) @ ''+00:00'')"

definition field :: "nat \<Rightarrow> string \<Rightarrow> (int \<times> string) option" where
  "field w s = (if w \<le> length s \<and> list_all is_digit (take w s)
     then Some (int_of_digits (take w s), drop w s) else None)"

fun lit :: "char \<Rightarrow> string \<Rightarrow> string option" where
  "lit c (x # s) = (if x = c then Some s else None)"
| "lit c [] = None"

definition fraction :: "string \<Rightarrow> (int \<times> string) option" where
  "fraction s = (case lit (CHR ''.'') s of None \<Rightarrow> Some (0, s) | Some r \<Rightarrow> field 6 r)"

definition fields :: "string \<Rightarrow> (int \<times> int \<times> int \<times> int \<times> int \<times> int \<times> int \<times> string) option" where
  "fields s =
     Option.bind (field 4 s) (\<lambda>(y, s). Option.bind (lit (CHR ''-'') s) (\<lambda>s.
     Option.bind (field 2 s) (\<lambda>(mo, s). Option.bind (lit (CHR ''-'') s) (\<lambda>s.
     Option.bind (field 2 s) (\<lambda>(da, s). Option.bind (lit (CHR ''T'') s) (\<lambda>s.
     Option.bind (field 2 s) (\<lambda>(h, s). Option.bind (lit (CHR '':'') s) (\<lambda>s.
     Option.bind (field 2 s) (\<lambda>(mi, s). Option.bind (lit (CHR '':'') s) (\<lambda>s.
     Option.bind (field 2 s) (\<lambda>(se, s). Option.bind (fraction s) (\<lambda>(fr, s).
       Some (y, mo, da, h, mi, se, fr, s)))))))))))))"

definition fromisoformat :: "string \<Rightarrow> int option" where
  "fromisoformat s =
     (case fields s of
        None \<Rightarrow> None
      | Some (y, mo, da, h, mi, se, fr, rest) \<Rightarrow>
          let c = \<lparr>cv_year = y, cv_month = mo, cv_day = da\<rparr> in
          if civil_valid c \<and> h < 24 \<and> mi < 60 \<and> se < 60 \<and> rest = ''+00:00''
          then Some (day_number c * day_micros + ((h * 60 + mi) * 60 + se) * 1000000 + fr)
          else None)"

text \<open>\<open>s.replace("Z", "+00:00")\<close> and \<open>s.replace("+00:00", "Z")\<close>.\<close>

fun str_replace :: "string \<Rightarrow> string \<Rightarrow> string \<Rightarrow> string" where
  "str_replace old new [] = []"
| "str_replace old new (c # s) =
     (if old \<noteq> [] \<and> take (length old) (c # s) = old then new @ str_replace old new (drop (length old - 1) s)
      else c # str_replace old new s)"

definition parse_timestamp :: "string \<Rightarrow> int option" where
  "parse_timestamp s = fromisoformat (str_replace ''Z'' ''+00:00'' s)"

definition show_timestamp :: "int \<Rightarrow> string" where
  "show_timestamp t = str_replace ''+00:00'' ''Z'' (isoformat t)"

definition timestamp_after :: "string \<Rightarrow> int \<Rightarrow> string res" where
  "timestamp_after ts seconds =
     require_some (ValueError ''Invalid isoformat string'') (parse_timestamp ts) (\<lambda>t.
       guarded [(t + seconds * 1000000 < 0 \<or> max_instant \<le> t + seconds * 1000000, OverflowError)]
         (Inr (show_timestamp (t + seconds * 1000000))))"

subsection \<open>Reading back what is written\<close>

lemma field_pad [simp]:
  "0 \<le> n \<Longrightarrow> n < 10 ^ w \<Longrightarrow> field w (pad w n @ s) = Some (n, s)"
  by (simp add: field_def digits_pad int_of_digits_pad)

lemma fraction_plus [simp]: "fraction (CHR ''+'' # s) = Some (0, CHR ''+'' # s)"
  by (simp add: fraction_def)

lemma month_length_le: "m < 12 \<Longrightarrow> month_lengths y ! m \<le> 31"
  by (simp add: month_lengths_def nth_Cons split: nat.splits)

lemma civil_valid_bounds:
  assumes "civil_valid c"
  shows "0 \<le> cv_year c \<and> cv_year c < 10 ^ 4" "0 \<le> cv_month c \<and> cv_month c < 10 ^ 2"
    "0 \<le> cv_day c \<and> cv_day c < 10 ^ 2"
proof -
  from assms have "nat (cv_month c - 1) < 12" by (simp add: civil_valid_def nat_less_iff)
  from month_length_le [OF this, of "cv_year c"] assms
  show "0 \<le> cv_year c \<and> cv_year c < 10 ^ 4" "0 \<le> cv_month c \<and> cv_month c < 10 ^ 2"
    "0 \<le> cv_day c \<and> cv_day c < 10 ^ 2"
    by (simp_all add: civil_valid_def)
qed

lemma clock_split:
  fixes s :: int
  shows "((s div 3600) * 60 + s div 60 mod 60) * 60 + s mod 60 = s"
proof -
  have "s div 3600 = s div 60 div 60" by (simp add: zdiv_zmult2_eq [symmetric])
  then have "(s div 3600) * 60 + s div 60 mod 60 = s div 60" by simp
  then show ?thesis by simp
qed

lemma fromisoformat_isoformat:
  assumes "0 \<le> t" and "t < max_instant"
  shows "fromisoformat (isoformat t) = Some t"
proof -
  let ?c = "civil_of_day (t div day_micros)" and ?s = "t mod day_micros"
  let ?sec = "?s div 1000000" and ?frac = "?s mod 1000000"
  have "0 \<le> t div day_micros" "t div day_micros < max_day"
    using assms by (simp_all add: day_micros_def max_instant_def div_less_iff_less_mult pos_imp_zdiv_nonneg_iff)
  note day = civil_of_day [OF this]
  note c = civil_valid_bounds [OF day(1)]
  have s: "0 \<le> ?s" "?s < 86400 * 1000000" using assms by (simp_all add: day_micros_def)
  then have sec: "0 \<le> ?sec" "?sec < 86400" by (simp_all add: pos_imp_zdiv_nonneg_iff div_less_iff_less_mult)
  then have clock: "0 \<le> ?sec div 3600 \<and> ?sec div 3600 < 24"
    by (simp add: pos_imp_zdiv_nonneg_iff div_less_iff_less_mult)
  have "fields (isoformat t) = Some (cv_year ?c, cv_month ?c, cv_day ?c, ?sec div 3600,
      ?sec div 60 mod 60, ?sec mod 60, ?frac, ''+00:00'')"
    using c clock by (simp add: isoformat_def Let_def fields_def) (simp add: fraction_def)
  moreover have "day_number ?c * day_micros + ((?sec div 3600 * 60 + ?sec div 60 mod 60) * 60 +
      ?sec mod 60) * 1000000 + ?frac = t"
    by (simp only: clock_split day(2) add.assoc div_mult_mod_eq)
  moreover have "?sec div 60 mod 60 < 60" "?sec mod 60 < 60" by simp_all
  moreover have "\<lparr>cv_year = cv_year ?c, cv_month = cv_month ?c, cv_day = cv_day ?c\<rparr> = ?c" by simp
  ultimately show ?thesis using day(1) clock
    by (simp only: fromisoformat_def Let_def option.case prod.case if_True simp_thms)
qed

lemma str_replace_keep: "c \<notin> set s \<Longrightarrow> str_replace (c # old) new (s @ u) = s @ str_replace (c # old) new u"
  by (induction s) auto

lemma str_replace_id: "c \<notin> set s \<Longrightarrow> str_replace (c # old) new s = s"
  by (induction s) auto

lemma not_in_pad: "\<not> is_digit c \<Longrightarrow> c \<notin> set (pad w n)"
  using digits_pad [of w n] by (auto simp: list_all_iff)

text \<open>The part of a timestamp before its zone, where neither \<open>Z\<close> nor \<open>+\<close> can occur.\<close>

definition clock_text :: "int \<Rightarrow> string" where
  "clock_text t = take (length (isoformat t) - 6) (isoformat t)"

lemma isoformat_clock: "isoformat t = clock_text t @ ''+00:00''"
  by (simp add: clock_text_def isoformat_def Let_def)

lemma clock_text_chars: "CHR ''Z'' \<notin> set (clock_text t)" "CHR ''+'' \<notin> set (clock_text t)"
  by (auto simp: clock_text_def isoformat_def Let_def char_class_defs dest!: not_in_pad [THEN notE, rotated])

lemma show_timestamp_clock: "show_timestamp t = clock_text t @ ''Z''"
  by (simp add: show_timestamp_def isoformat_clock str_replace_keep clock_text_chars)

lemma parse_show_timestamp:
  "0 \<le> t \<Longrightarrow> t < max_instant \<Longrightarrow> parse_timestamp (show_timestamp t) = Some t"
  using fromisoformat_isoformat [of t]
  by (simp add: parse_timestamp_def show_timestamp_clock str_replace_keep clock_text_chars isoformat_clock)

text \<open>
  Adding seconds to a timestamp is exact. Unless the result leaves the years 1 to 9999, the
  text that is returned reads back as the instant that many seconds later.
\<close>

theorem timestamp_after_exact:
  assumes "parse_timestamp ts = Some t" and "0 \<le> t + seconds * 1000000"
    and "t + seconds * 1000000 < max_instant"
  shows "\<exists>later. timestamp_after ts seconds = Inr later \<and>
    parse_timestamp later = Some (t + seconds * 1000000)"
  using assms parse_show_timestamp [OF assms(2,3)] by (simp add: timestamp_after_def guard_eval)

lemma timestamp_after_leap_day:
  "timestamp_after ''2024-02-28T23:59:30Z'' 60 = Inr ''2024-02-29T00:00:30Z''"
  by code_simp

theorem timestamp_after_exact_witness:
  "parse_timestamp ''2024-02-29T00:00:30Z'' = Some 63844761630000000"
proof -
  have "parse_timestamp ''2024-02-28T23:59:30Z'' = Some 63844761570000000" by code_simp
  moreover have "63844761570000000 + 60 * 1000000 < max_instant" by code_simp
  ultimately show ?thesis
    using timestamp_after_exact [of "''2024-02-28T23:59:30Z''" 63844761570000000 60]
    by (auto simp: timestamp_after_leap_day)
qed

end
