(* ===== verification/Coordination_Base.thy ===== *)
theory Coordination_Base
  imports Dirty_Events Timestamps
begin

section \<open>Shared parts of the coordination store\<close>

text \<open>
  The helpers of coordination_store.py every operation of the store begins with (validation, the
  write transaction, the current snapshot of a source, the release wake) and the resolution of
  executor identities in executor_registry.py. The reviewed endpoint catalogue
  (\<open>load_registry_config\<close>) is a file of the deployment: the argument \<open>catalog\<close> is its lookup from
  endpoint id to role.

  A transaction is all or nothing: an operation that fails returns the error and no state, so
  the state before the call is the state after \<open>ROLLBACK\<close>.
\<close>

subsection \<open>Constants and validation\<close>

definition SOURCE_KINDS :: "string list" where
  "SOURCE_KINDS = [''issue'', ''pull_request'']"

definition ITEM_STATUSES :: "string list" where
  "ITEM_STATUSES = [''BACKLOG'', ''PREPARED'', ''QUEUED'', ''READY'', ''ACTIVE'', ''ACTIVE_FENCED'',
     ''MONITOR'', ''PUBLICATION_PENDING'', ''HOLD'', ''DONE'']"

definition STATUS_RANK :: "string \<rightharpoonup> int" where
  "STATUS_RANK = map_of [(''BACKLOG'', 0), (''PREPARED'', 1), (''QUEUED'', 2), (''READY'', 3),
     (''ACTIVE'', 4), (''ACTIVE_FENCED'', 4), (''MONITOR'', 4), (''PUBLICATION_PENDING'', 5),
     (''HOLD'', 6), (''DONE'', 7)]"

definition ALLOCATION_CLASSES :: "string list" where
  "ALLOCATION_CLASSES = [''ACTIVE'', ''RETAINED'', ''NONE'']"

definition ACTIVE_EXECUTION_STATUSES :: "string list" where
  "ACTIVE_EXECUTION_STATUSES = [''ACTIVE'', ''ACTIVE_FENCED'', ''MONITOR'', ''PUBLICATION_PENDING'']"

definition store_validate_repository :: "string \<Rightarrow> unit res" where
  "store_validate_repository value =
     guarded [(\<not> REPOSITORY value, CoordinationError ''INVALID_REPOSITORY'')] (Inr ())"

definition validate_sha256 :: "string \<Rightarrow> unit res" where
  "validate_sha256 value = guarded [(\<not> SHA256 value, CoordinationError ''INVALID_DIGEST'')] (Inr ())"

definition transaction :: "db \<Rightarrow> 'a res \<Rightarrow> 'a res" where
  "transaction d body =
     guarded [(in_transaction d, OperationalError ''cannot start a transaction within a transaction'')] body"

lemma transaction_Inr [guard_simps]: "transaction d m = Inr r \<longleftrightarrow> \<not> in_transaction d \<and> m = Inr r"
  by (simp add: transaction_def guard_simps)

lemma store_validate_repository_Inr [guard_simps]:
  "store_validate_repository value = Inr u \<longleftrightarrow> REPOSITORY value"
  by (simp add: store_validate_repository_def guard_simps)

lemma validate_sha256_Inr [guard_simps]: "validate_sha256 value = Inr u \<longleftrightarrow> SHA256 value"
  by (simp add: validate_sha256_def guard_simps)

text \<open>\<open>raise CoordinationError(str(exc)) from exc\<close> around a call of another module.\<close>

fun graph_as_coordination :: "'a res \<Rightarrow> 'a res" where
  "graph_as_coordination (Inl (PortfolioGraphError e)) = Inl (CoordinationError e)"
| "graph_as_coordination m = m"

fun registry_as_coordination :: "'a res \<Rightarrow> 'a res" where
  "registry_as_coordination (Inl (RegistryError e)) = Inl (CoordinationError e)"
| "registry_as_coordination m = m"

lemma graph_as_coordination_Inr [guard_simps]: "graph_as_coordination m = Inr r \<longleftrightarrow> m = Inr r"
  by (cases m rule: graph_as_coordination.cases) simp_all

lemma registry_as_coordination_Inr [guard_simps]: "registry_as_coordination m = Inr r \<longleftrightarrow> m = Inr r"
  by (cases m rule: registry_as_coordination.cases) simp_all

subsection \<open>The current snapshot of a source\<close>

definition current_snapshot :: "db \<Rightarrow> string \<Rightarrow> string \<Rightarrow> int \<Rightarrow> (github_current_row \<times> pyval) option res" where
  "current_snapshot d repository kind number =
     (case source_join d repository kind number of
        None \<Rightarrow> Inr None
      | Some (c, s) \<Rightarrow> require_some (ValueError ''JSONDecodeError'') (gs_payload_json s)
          (\<lambda>payload. Inr (Some (c, payload))))"

text \<open>\<open>source is None or source.payload_sha256 != expected\<close>, after a readable snapshot.\<close>

definition source_drifts :: "string \<Rightarrow> (github_current_row \<times> pyval) option \<Rightarrow> bool" where
  "source_drifts expected source =
     (case source of None \<Rightarrow> True | Some (c, _) \<Rightarrow> gc_payload_sha256 c \<noteq> expected)"

subsection \<open>Executor identities\<close>

definition ROLES :: "string list" where
  "ROLES = [''planner'', ''development'', ''sre'']"

text \<open>\<open>^[0-9a-f]{8}-[0-9a-f]{4}-[0-9a-f]{4}-[0-9a-f]{4}-[0-9a-f]{12}$\<close>\<close>

definition SESSION :: "string \<Rightarrow> bool" where
  "SESSION s = (length s = 36 \<and>
     list_all (\<lambda>(i, c). if i \<in> {8, 13, 18, 23} then c = CHR ''-'' else is_hex c) (enumerate 0 s))"

text \<open>\<open>^role\.(planner|development|sre)\.v[1-9][0-9]*$\<close>\<close>

definition ENDPOINT_ID :: "string \<Rightarrow> bool" where
  "ENDPOINT_ID s = list_ex (\<lambda>r. let stem = ''role.'' @ r @ ''.v''; n = drop (length stem) s in
     take (length stem) s = stem \<and> n \<noteq> [] \<and> list_all is_digit n \<and> hd n \<noteq> CHR ''0'') ROLES"

type_synonym catalog = "string \<Rightarrow> string option"

definition endpoint_of :: "db \<Rightarrow> string \<Rightarrow> endpoint_row option" where
  "endpoint_of d identity =
     List.find (\<lambda>e. ep_endpoint_id e = identity) (executor_role_endpoints d)"

definition identity_role :: "catalog \<Rightarrow> db \<Rightarrow> string \<Rightarrow> string option res" where
  "identity_role catalog d identity =
     (case catalog identity of
        None \<Rightarrow> Inr None
      | Some role \<Rightarrow>
          if \<not> table_installed d ''executor_role_endpoints'' then Inr (Some role)
          else case endpoint_of d identity of
              None \<Rightarrow> Inr None
            | Some e \<Rightarrow> guarded [(ep_role e \<noteq> role, RegistryError ''EXECUTOR_ENDPOINT_CATALOG_DRIFT'')]
                (Inr (Some role)))"

definition registry_cutover_complete :: "db \<Rightarrow> bool res" where
  "registry_cutover_complete d =
     (if table_installed d ''executor_registry_state'' then
        require_some (RegistryError ''REGISTRY_CUTOVER_STATE_INVALID'') (executor_registry_state d)
          (\<lambda>state. Inr (state = ''CUTOVER_COMPLETE''))
      else if table_installed d ''executor_role_endpoint_current''
        then Inr (executor_role_endpoint_current d \<noteq> [])
      else Inr False)"

definition pointer_set_incomplete :: "db \<Rightarrow> bool" where
  "pointer_set_incomplete d =
     (let rows = executor_role_endpoint_current d in
      length rows \<noteq> length ROLES \<or> set (map ep_role rows) \<noteq> set ROLES \<or>
      (\<exists>p \<in> set rows. map_option ep_role (endpoint_of d (ep_endpoint_id p)) \<noteq> Some (ep_role p) \<or>
         \<not> ENDPOINT_ID (ep_endpoint_id p)))"

definition require_complete_current_pointer_set :: "db \<Rightarrow> unit res" where
  "require_complete_current_pointer_set d =
     bind_res (registry_cutover_complete d) (\<lambda>complete.
       guarded [(complete \<and> pointer_set_incomplete d,
                 RegistryError ''REGISTRY_CURRENT_POINTER_SET_INCOMPLETE'')] (Inr ()))"

definition current_endpoint :: "db \<Rightarrow> string \<Rightarrow> endpoint_row option res" where
  "current_endpoint d role =
     guarded [(role \<notin> set ROLES, RegistryError ''REGISTRY_ROLE_INVALID'')]
     (bind_res (require_complete_current_pointer_set d) (\<lambda>_.
       Inr (case List.find (\<lambda>p. ep_role p = role) (executor_role_endpoint_current d) of
              None \<Rightarrow> None
            | Some p \<Rightarrow> endpoint_of d (ep_endpoint_id p))))"

definition require_current_endpoint_identity ::
  "catalog \<Rightarrow> db \<Rightarrow> string \<Rightarrow> string option \<Rightarrow> string res" where
  "require_current_endpoint_identity catalog d identity expected_role =
     guarded [(\<not> ENDPOINT_ID identity \<and> \<not> SESSION identity, RegistryError ''REGISTRY_IDENTITY_INVALID''),
              (expected_role \<noteq> None \<and> the expected_role \<notin> set ROLES, RegistryError ''REGISTRY_ROLE_INVALID'')]
     (bind_res (identity_role catalog d identity) (\<lambda>r.
      require_some (RegistryError ''CURRENT_ROLE_ENDPOINT_REQUIRED'') r (\<lambda>role.
      guarded [(expected_role \<noteq> None \<and> role \<noteq> the expected_role,
                RegistryError ''REGISTRY_IDENTITY_ROLE_MISMATCH'')]
      (bind_res (current_endpoint d role) (\<lambda>endpoint.
       guarded [(map_option ep_endpoint_id endpoint \<noteq> Some identity,
                 RegistryError ''CURRENT_ROLE_ENDPOINT_REQUIRED'')] (Inr identity))))))"

definition canonicalize_coordination_identity :: "catalog \<Rightarrow> db \<Rightarrow> string \<Rightarrow> string res" where
  "canonicalize_coordination_identity catalog d identity =
     guarded [(\<not> SESSION identity \<and> \<not> ENDPOINT_ID identity, CoordinationError ''INVALID_COORDINATION_IDENTITY'')]
       (registry_as_coordination (require_current_endpoint_identity catalog d identity None))"

lemma canonicalize_Inr:
  assumes "canonicalize_coordination_identity catalog d identity = Inr session"
  shows "session = identity" and
    "\<exists>role e. catalog identity = Some role \<and> identity_role catalog d identity = Inr (Some role) \<and>
       role \<in> set ROLES \<and> current_endpoint d role = Inr (Some e) \<and> ep_endpoint_id e = identity"
proof -
  from assms obtain role oe where r: "session = identity" "identity_role catalog d identity = Inr (Some role)"
    "current_endpoint d role = Inr oe" "map_option ep_endpoint_id oe = Some identity"
    by (auto simp: canonicalize_coordination_identity_def require_current_endpoint_identity_def guard_simps)
  then obtain e where e: "oe = Some e" "ep_endpoint_id e = identity" by auto
  from r(2) have "catalog identity = Some role"
    by (auto simp: identity_role_def guard_simps split: option.splits if_splits)
  moreover from r(3) have "role \<in> set ROLES" by (simp add: current_endpoint_def guard_simps)
  ultimately show "\<exists>role e. catalog identity = Some role \<and> identity_role catalog d identity = Inr (Some role) \<and>
       role \<in> set ROLES \<and> current_endpoint d role = Inr (Some e) \<and> ep_endpoint_id e = identity"
    using r e by blast
  show "session = identity" by (rule r(1))
qed

text \<open>
  At any time each executor role has at most one identity that may write. An identity the store
  accepts is returned as it is, belongs to one of the three roles by the reviewed catalogue, and is
  the endpoint the pointer of its role names; so two accepted identities of the same role are equal.
\<close>

theorem current_identity_unique:
  assumes "canonicalize_coordination_identity catalog d a = Inr a'"
    and "canonicalize_coordination_identity catalog d b = Inr b'"
    and "catalog a = catalog b"
  shows "a' = a \<and> (\<exists>role \<in> set ROLES. catalog a = Some role) \<and> a = b"
proof -
  from canonicalize_Inr(2) [OF assms(1)] canonicalize_Inr(2) [OF assms(2)] assms(3)
  show ?thesis using canonicalize_Inr(1) [OF assms(1)] by auto
qed

definition registry_db :: db where
  "registry_db = empty_db\<lparr>
     executor_role_endpoints := map (\<lambda>r. \<lparr>ep_endpoint_id = ''role.'' @ r @ ''.v1'', ep_role = r\<rparr>) ROLES,
     executor_role_endpoint_current := map (\<lambda>r. \<lparr>ep_endpoint_id = ''role.'' @ r @ ''.v1'', ep_role = r\<rparr>) ROLES,
     executor_registry_state := Some ''CUTOVER_COMPLETE''\<rparr>"

definition example_catalog :: catalog where
  "example_catalog = map_of (map (\<lambda>r. (''role.'' @ r @ ''.v1'', r)) ROLES)"

lemma registry_db_accepts:
  "canonicalize_coordination_identity example_catalog registry_db ''role.development.v1'' =
     Inr ''role.development.v1''"
  by code_simp

theorem current_identity_unique_witness:
  "\<exists>role \<in> set ROLES. example_catalog ''role.development.v1'' = Some role"
  using current_identity_unique [OF registry_db_accepts registry_db_accepts] by blast

subsection \<open>Keys and wakes\<close>

definition terminal_watch_key :: "string \<Rightarrow> int \<Rightarrow> int \<Rightarrow> string" where
  "terminal_watch_key repository issue_number generation =
     ''terminal:'' @ repository @ '':issue:'' @ str_of_int issue_number @ '':generation:'' @ str_of_int generation"

definition release_request ::
  "string \<Rightarrow> int \<Rightarrow> int \<Rightarrow> string \<Rightarrow> string \<Rightarrow> string \<Rightarrow> int \<Rightarrow> dirty_request" where
  "release_request repository issue_number item_version source prior_class status generation =
     \<lparr>dr_repository = repository, dr_trigger_kind = ''CAPACITY_RELEASE'', dr_issue_number = issue_number,
      dr_item_version = item_version, dr_source_sha256 = source, dr_status = status,
      dr_generation = generation,
      dr_details = [(''prior_allocation_class'', PStr prior_class), (''allocation_class'', PStr ''NONE'')]\<rparr>"

text \<open>A wake the store insists on: a missing queue is an error.\<close>

definition enqueue_required_wake :: "db \<Rightarrow> dirty_request \<Rightarrow> string \<Rightarrow> (db \<times> int) res" where
  "enqueue_required_wake d r now =
     bind_res (graph_as_coordination (enqueue_convergence_dirty_event d r now False)) (\<lambda>(d', event_id).
       require_some (CoordinationError ''PORTFOLIO_DIRTY_EVENT_SCHEMA_MISSING'') event_id
         (\<lambda>i. Inr (d', i)))"

definition enqueue_portfolio_dirty_event ::
  "db \<Rightarrow> string \<Rightarrow> int \<Rightarrow> int \<Rightarrow> string \<Rightarrow> string \<Rightarrow> string \<Rightarrow> int \<Rightarrow> string \<Rightarrow> (db \<times> int) res" where
  "enqueue_portfolio_dirty_event d repository issue_number item_version source prior_class status generation now =
     enqueue_required_wake d
       (release_request repository issue_number item_version source prior_class status generation) now"

lemma enqueue_required_wake_Inr:
  assumes "enqueue_required_wake d r now = Inr (d', i)"
  shows "enqueue_convergence_dirty_event d r now False = Inr (d', Some i)"
    and "without_wakes d' = without_wakes d"
    and "table_installed d ''portfolio_dirty_events''"
proof -
  from assms show e: "enqueue_convergence_dirty_event d r now False = Inr (d', Some i)"
    by (auto simp: enqueue_required_wake_def guard_simps)
  from enqueue_dirty_frame [OF e] show "without_wakes d' = without_wakes d" .
  from e show "table_installed d ''portfolio_dirty_events''"
    by (auto simp: enqueue_convergence_dirty_event_def split: if_splits)
qed

subsection \<open>The pre-push fence\<close>

text \<open>
  While a publication of an issue is reserved, the triggers \<open>coordination_pre_push_fence_item_update\<close> and
  \<open>coordination_pre_push_fence_source_update\<close> abort every update of the issue's item and of the pointer to
  its current source. This is their condition.
\<close>

definition publication_reserved :: "db \<Rightarrow> string \<Rightarrow> int \<Rightarrow> bool" where
  "publication_reserved d repository issue_number \<longleftrightarrow> (\<exists>p \<in> set (coordination_pre_push_publications d).
     pb_repository p = repository \<and> pb_issue_number p = issue_number \<and> pb_state p = ''RESERVED'')"

end
