(* ===== verification/Capacity.thy ===== *)
theory Capacity
  imports Scheduler Versioned_Store Coordination_Base
begin

section \<open>Capacity policies\<close>

text \<open>
  \<open>_ensure_capacity_policy\<close>, \<open>capacity_policy\<close>, \<open>bootstrap_capacity_policy\<close> and
  \<open>set_capacity_policy\<close> of coordination_store.py. A policy row is immutable; a repository's
  current policy is a pointer to a version, moved by compare-and-swap. A repository without a
  policy has the default one, which the first writer installs as version 1.
\<close>

definition DEFAULT_CAPACITY_LIMITS :: "int \<times> int \<times> int" where
  "DEFAULT_CAPACITY_LIMITS = (5, 2, 5)"

definition current_policy :: "db \<Rightarrow> string \<Rightarrow> capacity_policy_row option" where
  "current_policy d repository =
     (case List.find (\<lambda>c. cc_repository c = repository) (coordination_capacity_current d) of
        None \<Rightarrow> None
      | Some c \<Rightarrow> List.find (\<lambda>p. cp_repository p = repository \<and> cp_version p = cc_version c)
          (coordination_capacity_policies d))"

definition policy_row :: "string \<Rightarrow> int \<Rightarrow> int \<times> int \<times> int \<Rightarrow> string option \<Rightarrow> string \<Rightarrow> capacity_policy_row" where
  "policy_row repository version limits authority now =
     \<lparr>cp_repository = repository, cp_version = version, cp_development_limit = fst limits,
      cp_shared_limit = fst (snd limits), cp_sre_limit = snd (snd limits),
      cp_authority_sha256 = authority, cp_created_at = now\<rparr>"

definition install_default_policy :: "string \<Rightarrow> string \<Rightarrow> db \<Rightarrow> db" where
  "install_default_policy repository now d =
     d\<lparr>coordination_capacity_policies :=
         insert_or_ignore (\<lambda>p. cp_repository p = repository \<and> cp_version p = 1)
           (policy_row repository 1 DEFAULT_CAPACITY_LIMITS None now) (coordination_capacity_policies d),
       coordination_capacity_current :=
         insert_or_ignore (\<lambda>c. cc_repository c = repository)
           \<lparr>cc_repository = repository, cc_version = 1, cc_updated_at = now\<rparr> (coordination_capacity_current d)\<rparr>"

definition ensure_capacity_policy :: "db \<Rightarrow> string \<Rightarrow> string \<Rightarrow> (db \<times> capacity_policy_row) res" where
  "ensure_capacity_policy d repository now =
     (case current_policy d repository of
        Some p \<Rightarrow> Inr (d, p)
      | None \<Rightarrow> let d1 = install_default_policy repository now d in
          require_some (CoordinationError ''CAPACITY_POLICY_MISSING'') (current_policy d1 repository)
            (\<lambda>p. Inr (d1, p)))"

definition store_capacity_policy :: "db \<Rightarrow> string \<Rightarrow> string \<Rightarrow> (db \<times> capacity_policy_row) res" where
  "store_capacity_policy d repository now =
     bind_res (store_validate_repository repository) (\<lambda>_. ensure_capacity_policy d repository now)"

record policy_request =
  pq_repository :: string
  pq_development_limit :: int
  pq_shared_limit :: int
  pq_sre_limit :: int
  pq_authority_sha256 :: string
  pq_expected_version :: int

definition pq_limits :: "policy_request \<Rightarrow> int \<times> int \<times> int" where
  "pq_limits q = (pq_development_limit q, pq_shared_limit q, pq_sre_limit q)"

text \<open>\<open>INSERT INTO coordination_capacity_policies\<close> with its primary key.\<close>

definition insert_policy :: "capacity_policy_row \<Rightarrow> db \<Rightarrow> db res" where
  "insert_policy row d =
     guarded [(\<exists>p \<in> set (coordination_capacity_policies d).
                 cp_repository p = cp_repository row \<and> cp_version p = cp_version row,
               IntegrityError ''PRIMARY KEY'')]
       (Inr (d\<lparr>coordination_capacity_policies := coordination_capacity_policies d @ [row]\<rparr>))"

definition log_bootstrap :: "policy_request \<Rightarrow> string \<Rightarrow> db \<Rightarrow> db" where
  "log_bootstrap q now d =
     append_event ''CAPACITY_POLICY_BOOTSTRAPPED'' (pq_repository q @ '':capacity-policy:1'')
       (PDict [(''authority_sha256'', PStr (pq_authority_sha256 q)),
               (''development_limit'', PInt (pq_development_limit q)),
               (''shared_limit'', PInt (pq_shared_limit q)),
               (''sre_limit'', PInt (pq_sre_limit q))]) now d"

definition bootstrap_capacity_policy ::
  "db \<Rightarrow> policy_request \<Rightarrow> string \<Rightarrow> (db \<times> capacity_policy_row) res" where
  "bootstrap_capacity_policy d q now =
     bind_res (store_validate_repository (pq_repository q)) (\<lambda>_.
     bind_res (validate_sha256 (pq_authority_sha256 q)) (\<lambda>_.
     guarded [(pq_development_limit q \<le> 0 \<or> pq_shared_limit q < 0 \<or> pq_sre_limit q < 0,
               CoordinationError ''CAPACITY_POLICY_INVALID'')]
     (transaction d
       (guarded [(coordination_capacity_current d \<noteq> [] \<or> coordination_capacity_policies d \<noteq> [],
                  CoordinationError ''CAPACITY_POLICY_BOOTSTRAP_CONFLICT''),
                 (coordination_items d \<noteq> [], CoordinationError ''CAPACITY_POLICY_BOOTSTRAP_CONFLICT'')]
        (bind_res (insert_policy (policy_row (pq_repository q) 1 (pq_limits q)
                     (Some (pq_authority_sha256 q)) now) d) (\<lambda>d1.
         let d2 = d1\<lparr>coordination_capacity_current := coordination_capacity_current d1 @
                [\<lparr>cc_repository = pq_repository q, cc_version = 1, cc_updated_at = now\<rparr>]\<rparr>
         in store_capacity_policy (log_bootstrap q now d2) (pq_repository q) now))))))"

definition below_occupancy :: "db \<Rightarrow> policy_request \<Rightarrow> bool" where
  "below_occupancy d q =
     (occupied_units it_development_units d (pq_repository q) > pq_development_limit q \<or>
      occupied_units it_shared_units d (pq_repository q) > pq_shared_limit q \<or>
      occupied_units it_sre_units d (pq_repository q) + reserved_hosted_sre_units d (pq_repository q)
        > pq_sre_limit q)"

definition policy_wake :: "policy_request \<Rightarrow> dirty_request" where
  "policy_wake q =
     (let version = pq_expected_version q + 1 in
      \<lparr>dr_repository = pq_repository q, dr_trigger_kind = ''CAPACITY_POLICY_CHANGED'',
       dr_issue_number = version, dr_item_version = version, dr_source_sha256 = pq_authority_sha256 q,
       dr_status = ''CAPACITY_POLICY_CHANGED'', dr_generation = version,
       dr_details = [(''prior_capacity_policy_version'', PInt (pq_expected_version q)),
         (''capacity_policy_version'', PInt version), (''development_limit'', PInt (pq_development_limit q)),
         (''shared_limit'', PInt (pq_shared_limit q)), (''sre_limit'', PInt (pq_sre_limit q))]\<rparr>)"

text \<open>Retries that wait for their back-off window become due at once.\<close>

definition expedite_retries :: "string \<Rightarrow> string \<Rightarrow> db \<Rightarrow> db" where
  "expedite_retries repository now d =
     d\<lparr>portfolio_dirty_events := update_where
        (\<lambda>e. de_repository e = repository \<and> de_state e = ''RETRY'' \<and> now < de_next_attempt_at e)
        (\<lambda>e. e\<lparr>de_next_attempt_at := now, de_updated_at := now\<rparr>) (portfolio_dirty_events d)\<rparr>"

definition move_policy :: "policy_request \<Rightarrow> string \<Rightarrow> db \<Rightarrow> db res" where
  "move_policy q now d =
     (let hit = (\<lambda>c. cc_repository c = pq_repository q \<and> cc_version c = pq_expected_version q) in
      guarded [(length (filter hit (coordination_capacity_current d)) \<noteq> 1,
                CoordinationError ''CAPACITY_POLICY_VERSION_CONFLICT'')]
        (Inr (d\<lparr>coordination_capacity_current := update_where hit
           (\<lambda>c. c\<lparr>cc_version := pq_expected_version q + 1, cc_updated_at := now\<rparr>)
           (coordination_capacity_current d)\<rparr>)))"

definition log_policy_change :: "policy_request \<Rightarrow> string \<Rightarrow> db \<Rightarrow> db" where
  "log_policy_change q now d =
     (let version = pq_expected_version q + 1 in
      append_event ''CAPACITY_POLICY_CHANGED'' (pq_repository q @ '':capacity-policy:'' @ str_of_int version)
        (PDict [(''prior_version'', PInt (pq_expected_version q)),
                (''development_limit'', PInt (pq_development_limit q)),
                (''shared_limit'', PInt (pq_shared_limit q)), (''sre_limit'', PInt (pq_sre_limit q)),
                (''authority_sha256'', PStr (pq_authority_sha256 q))]) now d)"

definition set_capacity_policy ::
  "db \<Rightarrow> policy_request \<Rightarrow> string \<Rightarrow> (db \<times> capacity_policy_row) res" where
  "set_capacity_policy d q now =
     bind_res (store_validate_repository (pq_repository q)) (\<lambda>_.
     bind_res (validate_sha256 (pq_authority_sha256 q)) (\<lambda>_.
     guarded [(pq_development_limit q \<le> 0 \<or> pq_shared_limit q < 0 \<or> pq_sre_limit q < 0 \<or>
               pq_expected_version q \<le> 0, CoordinationError ''CAPACITY_POLICY_INVALID'')]
     (transaction d
       (bind_res (ensure_capacity_policy d (pq_repository q) now) (\<lambda>(d1, current).
        guarded [(cp_version current \<noteq> pq_expected_version q,
                  CoordinationError ''CAPACITY_POLICY_VERSION_CONFLICT''),
                 (below_occupancy d1 q, CoordinationError ''CAPACITY_POLICY_BELOW_OCCUPANCY'')]
        (bind_res (insert_policy (policy_row (pq_repository q) (pq_expected_version q + 1) (pq_limits q)
                     (Some (pq_authority_sha256 q)) now) d1) (\<lambda>d2.
         bind_res (move_policy q now d2) (\<lambda>d3.
         bind_res (enqueue_required_wake (log_policy_change q now d3) (policy_wake q) now) (\<lambda>(d5, event_id).
         store_capacity_policy (expedite_retries (pq_repository q) now d5) (pq_repository q) now)))))))))"

subsection \<open>What the policy tables keep\<close>

definition policy_key :: "capacity_policy_row \<Rightarrow> string \<times> int" where
  "policy_key p = (cp_repository p, cp_version p)"

definition policy_valid :: "capacity_policy_row \<Rightarrow> bool" where
  "policy_valid p \<longleftrightarrow> 0 < cp_version p \<and> 0 < cp_development_limit p \<and> 0 \<le> cp_shared_limit p \<and> 0 \<le> cp_sre_limit p"

definition policy_pointer :: "db \<Rightarrow> string \<Rightarrow> capacity_current_row option" where
  "policy_pointer d repository =
     List.find (\<lambda>c. cc_repository c = repository) (coordination_capacity_current d)"

definition capacity_wf :: "db \<Rightarrow> bool" where
  "capacity_wf d \<longleftrightarrow>
     distinct (map cc_repository (coordination_capacity_current d)) \<and>
     distinct (map policy_key (coordination_capacity_policies d)) \<and>
     (\<forall>p \<in> set (coordination_capacity_policies d). policy_valid p) \<and>
     (\<forall>c \<in> set (coordination_capacity_current d).
        (cc_repository c, cc_version c) \<in> policy_key ` set (coordination_capacity_policies d)) \<and>
     (\<forall>p \<in> set (coordination_capacity_policies d). \<exists>c \<in> set (coordination_capacity_current d).
        cc_repository c = cp_repository p \<and> cp_version p \<le> cc_version c)"

definition policy_version :: "db \<Rightarrow> string \<Rightarrow> int" where
  "policy_version d repository =
     (case policy_pointer d repository of None \<Rightarrow> 1 | Some c \<Rightarrow> cc_version c)"

definition limits_of :: "capacity_policy_row \<Rightarrow> int \<times> int \<times> int" where
  "limits_of p = (cp_development_limit p, cp_shared_limit p, cp_sre_limit p)"

definition effective_limits :: "db \<Rightarrow> string \<Rightarrow> int \<times> int \<times> int" where
  "effective_limits d repository =
     (case current_policy d repository of None \<Rightarrow> DEFAULT_CAPACITY_LIMITS | Some p \<Rightarrow> limits_of p)"

definition occupancy :: "db \<Rightarrow> string \<Rightarrow> int \<times> int \<times> int" where
  "occupancy d repository =
     (occupied_units it_development_units d repository, occupied_units it_shared_units d repository,
      occupied_units it_sre_units d repository + reserved_hosted_sre_units d repository)"

definition within :: "int \<times> int \<times> int \<Rightarrow> int \<times> int \<times> int \<Rightarrow> bool" where
  "within a b \<longleftrightarrow> fst a \<le> fst b \<and> fst (snd a) \<le> fst (snd b) \<and> snd (snd a) \<le> snd (snd b)"

definition capacity_respected :: "db \<Rightarrow> string \<Rightarrow> bool" where
  "capacity_respected d repository \<longleftrightarrow> within (occupancy d repository) (effective_limits d repository)"

definition without_capacity :: "db \<Rightarrow> db" where
  "without_capacity d = d\<lparr>coordination_capacity_policies := [], coordination_capacity_current := []\<rparr>"

lemma current_policy_pointer:
  "current_policy d repository =
     (case policy_pointer d repository of None \<Rightarrow> None
      | Some c \<Rightarrow> List.find (\<lambda>p. cp_repository p = repository \<and> cp_version p = cc_version c)
          (coordination_capacity_policies d))"
  by (simp add: current_policy_def policy_pointer_def)

lemma policy_pointer_SomeD:
  "policy_pointer d repo = Some c \<Longrightarrow> c \<in> set (coordination_capacity_current d) \<and> cc_repository c = repo"
  by (auto simp: policy_pointer_def dest: find_SomeD)

lemma policy_pointer_None: "policy_pointer d repo = None \<longleftrightarrow>
    (\<forall>c \<in> set (coordination_capacity_current d). cc_repository c \<noteq> repo)"
  by (auto simp: policy_pointer_def find_None_iff)

lemma policy_of_pointer:
  assumes "capacity_wf d" and "policy_pointer d repo = Some c"
  shows "\<exists>p. current_policy d repo = Some p \<and> p \<in> set (coordination_capacity_policies d) \<and>
    cp_repository p = repo \<and> cp_version p = cc_version c"
proof -
  from assms policy_pointer_SomeD [OF assms(2)]
  have "(repo, cc_version c) \<in> policy_key ` set (coordination_capacity_policies d)"
    by (auto simp: capacity_wf_def)
  then have "List.find (\<lambda>p. cp_repository p = repo \<and> cp_version p = cc_version c)
      (coordination_capacity_policies d) \<noteq> None"
    by (auto simp: find_None_iff policy_key_def)
  then obtain p where "List.find (\<lambda>p. cp_repository p = repo \<and> cp_version p = cc_version c)
      (coordination_capacity_policies d) = Some p" by auto
  then show ?thesis using assms(2) by (auto simp: current_policy_pointer dest: find_SomeD)
qed

lemma current_policy_None:
  "capacity_wf d \<Longrightarrow> current_policy d repo = None \<longleftrightarrow> policy_pointer d repo = None"
  using policy_of_pointer [of d repo] by (cases "policy_pointer d repo") (auto simp: current_policy_pointer)

lemma policy_version_current:
  "capacity_wf d \<Longrightarrow> current_policy d repo = Some p \<Longrightarrow>
     cp_version p = policy_version d repo \<and> cp_repository p = repo"
  using policy_of_pointer [of d repo]
  by (cases "policy_pointer d repo") (auto simp: current_policy_pointer policy_version_def)

lemma no_pointer_no_policy:
  "capacity_wf d \<Longrightarrow> policy_pointer d repo = None \<Longrightarrow> p \<in> set (coordination_capacity_policies d) \<Longrightarrow>
     cp_repository p \<noteq> repo"
  by (force simp: capacity_wf_def policy_pointer_None)

text \<open>Installing the default where there is none.\<close>

lemma install_default_rows:
  assumes "capacity_wf d" and "policy_pointer d repo = None"
  shows "coordination_capacity_policies (install_default_policy repo now d) =
      coordination_capacity_policies d @ [policy_row repo 1 DEFAULT_CAPACITY_LIMITS None now]"
    and "coordination_capacity_current (install_default_policy repo now d) =
      coordination_capacity_current d @ [\<lparr>cc_repository = repo, cc_version = 1, cc_updated_at = now\<rparr>]"
  using assms no_pointer_no_policy [OF assms]
  by (auto simp: install_default_policy_def insert_or_ignore_def policy_pointer_None)

lemma policy_row_simps [simp]:
  "cp_repository (policy_row r v l a t) = r" "cp_version (policy_row r v l a t) = v"
  "limits_of (policy_row r v l a t) = l" "policy_key (policy_row r v l a t) = (r, v)"
  by (simp_all add: policy_row_def limits_of_def policy_key_def)

lemma install_default_facts:
  fixes now :: string
  assumes wf: "capacity_wf d" and none: "policy_pointer d repo = None"
  defines "d1 \<equiv> install_default_policy repo now d"
  shows "capacity_wf d1" and "current_policy d1 repo = Some (policy_row repo 1 DEFAULT_CAPACITY_LIMITS None now)"
    and "policy_version d1 = policy_version d" and "effective_limits d1 = effective_limits d"
proof -
  note rows = install_default_rows [OF wf none, of now, folded d1_def]
  have fresh: "\<And>p. p \<in> set (coordination_capacity_policies d) \<Longrightarrow> cp_repository p \<noteq> repo"
    by (rule no_pointer_no_policy [OF wf none])
  have "policy_valid (policy_row repo 1 DEFAULT_CAPACITY_LIMITS None now)"
    by (simp add: policy_valid_def policy_row_def DEFAULT_CAPACITY_LIMITS_def)
  then show "capacity_wf d1"
    using wf none fresh unfolding capacity_wf_def rows policy_pointer_None
    by (auto simp: policy_key_def)
  have pointer: "policy_pointer d1 k = (if k = repo then
      Some \<lparr>cc_repository = repo, cc_version = 1, cc_updated_at = now\<rparr> else policy_pointer d k)" for k
    using none by (auto simp: policy_pointer_def rows find_append split: option.splits)
  then show "policy_version d1 = policy_version d"
    using none by (auto simp: policy_version_def fun_eq_iff)
  have "List.find (\<lambda>p. cp_repository p = repo \<and> cp_version p = 1) (coordination_capacity_policies d) = None"
    using fresh by (auto simp: find_None_iff)
  then show cur: "current_policy d1 repo = Some (policy_row repo 1 DEFAULT_CAPACITY_LIMITS None now)"
    by (simp add: current_policy_pointer pointer rows find_append)
  have "current_policy d1 k = current_policy d k" if "k \<noteq> repo" for k
    using that by (auto simp: current_policy_pointer pointer rows find_append split: option.splits)
  then have "effective_limits d1 k = effective_limits d k" for k
    using cur current_policy_None [OF wf, of repo] none
    by (cases "k = repo") (simp_all add: effective_limits_def)
  then show "effective_limits d1 = effective_limits d" by (rule ext)
qed

lemma ensure_capacity_policy_total:
  assumes "capacity_wf d"
  obtains d1 p where "ensure_capacity_policy d repo now = Inr (d1, p)" "capacity_wf d1"
    "current_policy d1 repo = Some p" "cp_version p = policy_version d repo"
    "policy_version d1 = policy_version d" "effective_limits d1 = effective_limits d"
    "set (coordination_capacity_policies d) \<subseteq> set (coordination_capacity_policies d1)"
    "without_capacity d1 = without_capacity d"
proof (cases "current_policy d repo")
  case (Some p)
  show thesis
    by (rule that [of d p])
      (use Some assms policy_version_current [OF assms Some] in \<open>simp_all add: ensure_capacity_policy_def\<close>)
next
  case None
  with current_policy_None [OF assms] have none: "policy_pointer d repo = None" by simp
  note facts = install_default_facts [OF assms none, of now]
  let ?d1 = "install_default_policy repo now d"
  show thesis
  proof (rule that [of ?d1])
    show "ensure_capacity_policy d repo now = Inr (?d1, policy_row repo 1 DEFAULT_CAPACITY_LIMITS None now)"
      using None facts(2) by (simp add: ensure_capacity_policy_def Let_def)
    show "cp_version (policy_row repo 1 DEFAULT_CAPACITY_LIMITS None now) = policy_version d repo"
      using none by (simp add: policy_version_def)
    show "without_capacity ?d1 = without_capacity d"
      by (simp add: without_capacity_def install_default_policy_def)
    show "set (coordination_capacity_policies d) \<subseteq> set (coordination_capacity_policies ?d1)"
      by (auto simp: install_default_rows [OF assms none])
  qed (use facts in simp_all)
qed

lemma ensure_capacity_policy_Inr:
  assumes "capacity_wf d" and "ensure_capacity_policy d repo now = Inr (d1, p)"
  shows "capacity_wf d1 \<and> current_policy d1 repo = Some p \<and> cp_version p = policy_version d repo \<and>
    policy_version d1 = policy_version d \<and> effective_limits d1 = effective_limits d \<and>
    set (coordination_capacity_policies d) \<subseteq> set (coordination_capacity_policies d1) \<and>
    without_capacity d1 = without_capacity d"
  by (rule ensure_capacity_policy_total [OF assms(1), of repo now]) (use assms(2) in simp)

subsection \<open>Changing a policy\<close>

lemma without_capacity_fields:
  assumes "without_capacity d' = without_capacity d"
  shows "coordination_items d' = coordination_items d" "hosted_operations d' = hosted_operations d"
    "sqlite_master d' = sqlite_master d" "in_transaction d' = in_transaction d"
    "portfolio_dirty_events d' = portfolio_dirty_events d"
    "github_current d' = github_current d" "github_snapshots d' = github_snapshots d"
    "coordination_terminal_watches d' = coordination_terminal_watches d"
    "executor_role_endpoints d' = executor_role_endpoints d"
    "executor_role_endpoint_current d' = executor_role_endpoint_current d"
    "executor_registry_state d' = executor_registry_state d"
    "coordination_pre_push_publications d' = coordination_pre_push_publications d"
  using assms by (cases d; cases d'; simp add: without_capacity_def)+

lemma occupancy_cong:
  "coordination_items d' = coordination_items d \<Longrightarrow> hosted_operations d' = hosted_operations d \<Longrightarrow>
   sqlite_master d' = sqlite_master d \<Longrightarrow> occupancy d' = occupancy d"
  by (auto simp: occupancy_def occupied_units_def reserved_items_def reserved_hosted_sre_units_def
      table_installed_def fun_eq_iff)

lemma policy_tables_cong:
  assumes "coordination_capacity_policies d' = coordination_capacity_policies d"
    and "coordination_capacity_current d' = coordination_capacity_current d"
  shows "capacity_wf d' = capacity_wf d" "policy_version d' = policy_version d"
    "current_policy d' = current_policy d" "effective_limits d' = effective_limits d"
proof -
  have pointer: "policy_pointer d' = policy_pointer d" using assms(2) by (simp add: policy_pointer_def fun_eq_iff)
  then show "policy_version d' = policy_version d" by (simp add: policy_version_def fun_eq_iff)
  from pointer show cur: "current_policy d' = current_policy d"
    by (intro ext) (simp only: current_policy_pointer assms(1))
  then show "effective_limits d' = effective_limits d" by (simp add: effective_limits_def fun_eq_iff)
  show "capacity_wf d' = capacity_wf d" by (simp add: capacity_wf_def assms)
qed

lemma capacity_wf_moved:
  fixes q :: policy_request
  assumes wf: "capacity_wf d" and c: "policy_pointer d (pq_repository q) = Some c"
    and cv: "cc_version c = pq_expected_version q"
    and fresh: "\<forall>p \<in> set (coordination_capacity_policies d). policy_key p \<noteq> policy_key row"
    and row: "policy_key row = (pq_repository q, pq_expected_version q + 1)" "policy_valid row"
    and d3: "d3 = d\<lparr>coordination_capacity_policies := coordination_capacity_policies d @ [row],
      coordination_capacity_current := update_where
        (\<lambda>c. cc_repository c = pq_repository q \<and> cc_version c = pq_expected_version q)
        (\<lambda>c. c\<lparr>cc_version := pq_expected_version q + 1, cc_updated_at := now\<rparr>)
        (coordination_capacity_current d)\<rparr>"
  shows "capacity_wf d3"
proof -
  let ?cur = "coordination_capacity_current d3" and ?pol = "coordination_capacity_policies d3"
  have set_pol: "set ?pol = insert row (set (coordination_capacity_policies d))" by (simp add: d3)
  have "map cc_repository ?cur = map cc_repository (coordination_capacity_current d)"
    by (simp add: d3 map_update_where)
  moreover have "distinct (map policy_key ?pol)" using wf fresh by (auto simp: d3 capacity_wf_def)
  moreover have "(cc_repository x, cc_version x) \<in> policy_key ` set ?pol" if "x \<in> set ?cur" for x
    using that wf row(1) unfolding set_pol
    by (auto simp: d3 set_update_where capacity_wf_def)
  moreover have "\<exists>x \<in> set ?cur. cc_repository x = cp_repository p \<and> cp_version p \<le> cc_version x"
    if p: "p \<in> set ?pol" for p
  proof (cases "p = row")
    case True
    let ?moved = "c\<lparr>cc_version := pq_expected_version q + 1, cc_updated_at := now\<rparr>"
    have "?moved \<in> set ?cur" using policy_pointer_SomeD [OF c] cv by (force simp: d3 set_update_where)
    then show ?thesis using True policy_pointer_SomeD [OF c] row(1)
      by (intro bexI [of _ ?moved]) (simp_all add: policy_key_def)
  next
    case False
    with p wf obtain x where "x \<in> set (coordination_capacity_current d)"
      "cc_repository x = cp_repository p" "cp_version p \<le> cc_version x"
      unfolding set_pol by (auto simp: capacity_wf_def)
    then show ?thesis
      by (intro bexI [of _ "if cc_repository x = pq_repository q \<and> cc_version x = pq_expected_version q
            then x\<lparr>cc_version := pq_expected_version q + 1, cc_updated_at := now\<rparr> else x"])
        (auto simp: d3 set_update_where)
  qed
  moreover have "\<forall>p \<in> set ?pol. policy_valid p" using wf row(2) unfolding set_pol by (simp add: capacity_wf_def)
  ultimately show ?thesis using wf by (simp add: capacity_wf_def)
qed

text \<open>The two writes of a policy change: the new row, then the pointer.\<close>

lemma move_policy_facts:
  assumes wf: "capacity_wf d" and v: "policy_version d (pq_repository q) = pq_expected_version q"
    and cur: "current_policy d (pq_repository q) = Some p"
    and ins: "insert_policy row d = Inr d2" and mov: "move_policy q now d2 = Inr d3"
    and row: "policy_key row = (pq_repository q, pq_expected_version q + 1)" "policy_valid row"
  shows "capacity_wf d3" and "policy_version d3 = (policy_version d)(pq_repository q := pq_expected_version q + 1)"
    and "effective_limits d3 = (effective_limits d)(pq_repository q := limits_of row)"
    and "set (coordination_capacity_policies d3) = insert row (set (coordination_capacity_policies d))"
    and "without_capacity d3 = without_capacity d" and "current_policy d3 (pq_repository q) = Some row"
proof -
  let ?r = "pq_repository q" and ?v = "pq_expected_version q"
  let ?hit = "\<lambda>c. cc_repository c = ?r \<and> cc_version c = ?v"
  let ?mv = "\<lambda>c. c\<lparr>cc_version := ?v + 1, cc_updated_at := now\<rparr>"
  from ins have fresh: "\<forall>p \<in> set (coordination_capacity_policies d). policy_key p \<noteq> policy_key row"
    and d2: "d2 = d\<lparr>coordination_capacity_policies := coordination_capacity_policies d @ [row]\<rparr>"
    by (auto simp: insert_policy_def guard_simps policy_key_def)
  with mov have d3: "d3 = d\<lparr>coordination_capacity_policies := coordination_capacity_policies d @ [row],
      coordination_capacity_current := update_where ?hit ?mv (coordination_capacity_current d)\<rparr>"
    by (auto simp: move_policy_def Let_def guard_simps)
  have rows3: "coordination_capacity_policies d3 = coordination_capacity_policies d @ [row]"
    by (simp add: d3)
  show "set (coordination_capacity_policies d3) = insert row (set (coordination_capacity_policies d))"
    by (simp add: d3)
  show "without_capacity d3 = without_capacity d" by (simp add: without_capacity_def d3)
  from cur obtain c where c: "policy_pointer d ?r = Some c" by (auto simp: current_policy_pointer split: option.splits)
  with v have cv: "cc_version c = ?v" by (simp add: policy_version_def)
  have pointer: "policy_pointer d3 k = (if k = ?r then Some (?mv c) else policy_pointer d k)" for k
  proof -
    have "policy_pointer d3 k = map_option (\<lambda>r. if ?hit r then ?mv r else r) (policy_pointer d k)"
      by (simp add: policy_pointer_def d3 find_update_where)
    then show ?thesis
      using c cv policy_pointer_SomeD [of d k] policy_pointer_SomeD [OF c]
      by (cases "policy_pointer d k") auto
  qed
  then show "policy_version d3 = (policy_version d)(?r := ?v + 1)"
    by (auto simp: policy_version_def fun_eq_iff)
  have rk: "cp_repository row = ?r" "cp_version row = ?v + 1" using row(1) by (simp_all add: policy_key_def)
  have "List.find (\<lambda>p. cp_repository p = ?r \<and> cp_version p = ?v + 1) (coordination_capacity_policies d) = None"
    using fresh row(1) by (auto simp: find_None_iff policy_key_def)
  then show new: "current_policy d3 ?r = Some row"
    using rk by (simp add: current_policy_pointer pointer rows3 find_append)
  have old: "current_policy d3 k = current_policy d k" if "k \<noteq> ?r" for k
    using that rk by (simp add: current_policy_pointer pointer rows3 find_append split: option.split)
  show "effective_limits d3 = (effective_limits d)(?r := limits_of row)"
    using new old by (auto simp: effective_limits_def fun_eq_iff)
  show "capacity_wf d3"
    by (rule capacity_wf_moved [OF wf c cv fresh row d3])
qed

lemma store_capacity_policy_current:
  assumes "capacity_wf d" and "store_capacity_policy d repo now = Inr (d', p)" and "current_policy d repo = Some p0"
  shows "d' = d" and "p = p0"
  using assms by (auto simp: store_capacity_policy_def ensure_capacity_policy_def guard_simps)

lemma set_capacity_policy_Inr:
  assumes "set_capacity_policy d q now = Inr (d', p)"
  obtains d1 p1 d2 d3 d5 i where
    "0 < pq_development_limit q" "0 \<le> pq_shared_limit q" "0 \<le> pq_sre_limit q" "0 < pq_expected_version q"
    "ensure_capacity_policy d (pq_repository q) now = Inr (d1, p1)"
    "cp_version p1 = pq_expected_version q" "\<not> below_occupancy d1 q"
    "insert_policy (policy_row (pq_repository q) (pq_expected_version q + 1) (pq_limits q)
       (Some (pq_authority_sha256 q)) now) d1 = Inr d2"
    "move_policy q now d2 = Inr d3"
    "enqueue_required_wake (log_policy_change q now d3) (policy_wake q) now = Inr (d5, i)"
    "store_capacity_policy (expedite_retries (pq_repository q) now d5) (pq_repository q) now = Inr (d', p)"
  using assms by (auto simp: set_capacity_policy_def guard_simps)

lemma log_policy_change_tables:
  "without_wakes (log_policy_change q now d) = without_wakes d"
  by (simp add: log_policy_change_def Let_def)

text \<open>What a change leaves of the tables: the moved policy tables, and otherwise only wakes.\<close>

lemma set_capacity_policy_result:
  assumes wf: "capacity_wf d" and set: "set_capacity_policy d q now = Inr (d', p)"
  obtains d1 d3 d5 where "capacity_wf d1" "policy_version d1 = policy_version d"
    "effective_limits d1 = effective_limits d" "without_capacity d1 = without_capacity d"
    "set (coordination_capacity_policies d) \<subseteq> set (coordination_capacity_policies d1)"
    "policy_version d (pq_repository q) = pq_expected_version q" "\<not> below_occupancy d1 q"
    "capacity_wf d3" "policy_version d3 = (policy_version d)(pq_repository q := pq_expected_version q + 1)"
    "effective_limits d3 = (effective_limits d)(pq_repository q := pq_limits q)"
    "set (coordination_capacity_policies d1) \<subseteq> set (coordination_capacity_policies d3)"
    "without_capacity d3 = without_capacity d1" "without_wakes d5 = without_wakes d3"
    "\<exists>row. dirty_event_of d5 (dirty_event_key (policy_wake q)) = Some row"
    "d' = expedite_retries (pq_repository q) now d5"
proof -
  let ?r = "pq_repository q" and ?row = "policy_row (pq_repository q) (pq_expected_version q + 1) (pq_limits q)
       (Some (pq_authority_sha256 q)) now"
  from set obtain d1 p1 d2 d3 d5 i where
    lim: "0 < pq_development_limit q" "0 \<le> pq_shared_limit q" "0 \<le> pq_sre_limit q" "0 < pq_expected_version q"
    and ens: "ensure_capacity_policy d ?r now = Inr (d1, p1)"
    and ver: "cp_version p1 = pq_expected_version q" and occ: "\<not> below_occupancy d1 q"
    and ins: "insert_policy ?row d1 = Inr d2" and mov: "move_policy q now d2 = Inr d3"
    and w: "enqueue_required_wake (log_policy_change q now d3) (policy_wake q) now = Inr (d5, i)"
    and fin: "store_capacity_policy (expedite_retries ?r now d5) ?r now = Inr (d', p)"
    by (rule set_capacity_policy_Inr)
  from ens have one: "capacity_wf d1" "current_policy d1 ?r = Some p1" "cp_version p1 = policy_version d ?r"
    "policy_version d1 = policy_version d" "effective_limits d1 = effective_limits d"
    "set (coordination_capacity_policies d) \<subseteq> set (coordination_capacity_policies d1)"
    "without_capacity d1 = without_capacity d"
    using ensure_capacity_policy_Inr [OF wf ens] by simp_all
  have v: "policy_version d ?r = pq_expected_version q" using ver one(3) by simp
  have "policy_valid ?row" using lim by (simp add: policy_valid_def policy_row_def pq_limits_def)
  from move_policy_facts [OF one(1) _ one(2) ins mov policy_row_simps(4) this, unfolded one(4,5)] v
  have three: "capacity_wf d3" "policy_version d3 = (policy_version d)(?r := pq_expected_version q + 1)"
    "effective_limits d3 = (effective_limits d)(?r := pq_limits q)"
    "set (coordination_capacity_policies d1) \<subseteq> set (coordination_capacity_policies d3)"
    "without_capacity d3 = without_capacity d1" "current_policy d3 ?r = Some ?row"
    by auto
  note wk = enqueue_required_wake_Inr [OF w]
  have five: "without_wakes d5 = without_wakes d3" using wk(2) by (simp add: log_policy_change_tables)
  have tables: "coordination_capacity_policies (expedite_retries ?r now d5) = coordination_capacity_policies d3"
    "coordination_capacity_current (expedite_retries ?r now d5) = coordination_capacity_current d3"
    using without_wakes_fields [OF five] by (simp_all add: expedite_retries_def)
  note cong = policy_tables_cong [OF tables]
  have "d' = expedite_retries ?r now d5"
    using store_capacity_policy_current [OF _ fin] three(1,6) cong by simp
  with one three five occ v enqueue_dirty_present [OF wk(1,3)] show thesis by (intro that [of d1 d3 d5]) auto
qed

lemma expedited:
  assumes "e \<in> set (portfolio_dirty_events (expedite_retries repo now d))"
    and "de_repository e = repo" and "de_state e = ''RETRY''"
  shows "de_next_attempt_at e \<le> now"
proof -
  let ?hit = "\<lambda>e. de_repository e = repo \<and> de_state e = ''RETRY'' \<and> now < de_next_attempt_at e"
  from assms(1) obtain r where r: "e = (if ?hit r then r\<lparr>de_next_attempt_at := now, de_updated_at := now\<rparr> else r)"
    using update_where_mem by (fastforce simp: expedite_retries_def)
  show ?thesis
  proof (cases "?hit r")
    case True
    with r show ?thesis by simp
  next
    case False
    with r have "e = r" by simp
    with False assms(2,3) show ?thesis by (simp add: not_less)
  qed
qed

lemma set_capacity_policy_tables:
  assumes "capacity_wf d" and "set_capacity_policy d q now = Inr (d', p)"
  shows "coordination_items d' = coordination_items d" and "hosted_operations d' = hosted_operations d"
    and "sqlite_master d' = sqlite_master d"
proof -
  from assms obtain d1 d3 d5 where r: "without_capacity d1 = without_capacity d" "without_capacity d3 = without_capacity d1"
    "without_wakes d5 = without_wakes d3" "d' = expedite_retries (pq_repository q) now d5"
    by (rule set_capacity_policy_result) blast
  show "coordination_items d' = coordination_items d" "hosted_operations d' = hosted_operations d"
    "sqlite_master d' = sqlite_master d"
    using without_wakes_fields(1,5,13) [OF r(3)] without_capacity_fields(1-3) [OF r(2)]
      without_capacity_fields(1-3) [OF r(1)]
    by (simp_all add: r(4) expedite_retries_def)
qed

lemma set_capacity_policy_facts:
  assumes "capacity_wf d" and "set_capacity_policy d q now = Inr (d', p)"
  shows "capacity_wf d'" and "policy_version d (pq_repository q) = pq_expected_version q"
    and "policy_version d' = (policy_version d)(pq_repository q := pq_expected_version q + 1)"
    and "effective_limits d' = (effective_limits d)(pq_repository q := pq_limits q)"
    and "set (coordination_capacity_policies d) \<subseteq> set (coordination_capacity_policies d')"
    and "occupancy d' = occupancy d" and "within (occupancy d (pq_repository q)) (pq_limits q)"
    and "\<exists>row. dirty_event_of d' (dirty_event_key (policy_wake q)) = Some row"
    and "e \<in> set (portfolio_dirty_events d') \<Longrightarrow> de_repository e = pq_repository q \<Longrightarrow>
      de_state e = ''RETRY'' \<Longrightarrow> de_next_attempt_at e \<le> now"
proof -
  from assms obtain d1 d3 d5 where r: "capacity_wf d1" "without_capacity d1 = without_capacity d"
    "set (coordination_capacity_policies d) \<subseteq> set (coordination_capacity_policies d1)"
    "policy_version d (pq_repository q) = pq_expected_version q" "\<not> below_occupancy d1 q"
    "capacity_wf d3" "policy_version d3 = (policy_version d)(pq_repository q := pq_expected_version q + 1)"
    "effective_limits d3 = (effective_limits d)(pq_repository q := pq_limits q)"
    "set (coordination_capacity_policies d1) \<subseteq> set (coordination_capacity_policies d3)"
    "without_capacity d3 = without_capacity d1" "without_wakes d5 = without_wakes d3"
    "\<exists>row. dirty_event_of d5 (dirty_event_key (policy_wake q)) = Some row"
    "d' = expedite_retries (pq_repository q) now d5"
    by (rule set_capacity_policy_result) blast
  have tables: "coordination_capacity_policies d' = coordination_capacity_policies d3"
    "coordination_capacity_current d' = coordination_capacity_current d3"
    using without_wakes_fields [OF r(11)] by (simp_all add: r(13) expedite_retries_def)
  note cong = policy_tables_cong [OF tables]
  show "capacity_wf d'" "policy_version d (pq_repository q) = pq_expected_version q"
    "policy_version d' = (policy_version d)(pq_repository q := pq_expected_version q + 1)"
    "effective_limits d' = (effective_limits d)(pq_repository q := pq_limits q)"
    using r cong by simp_all
  show "set (coordination_capacity_policies d) \<subseteq> set (coordination_capacity_policies d')"
    unfolding tables by (rule subset_trans [OF r(3) r(9)])
  show "occupancy d' = occupancy d" by (rule occupancy_cong) (rule set_capacity_policy_tables [OF assms])+
  have "occupancy d1 = occupancy d" using without_capacity_fields [OF r(2)] by (intro occupancy_cong)
  with r(5) show "within (occupancy d (pq_repository q)) (pq_limits q)"
    by (auto simp: below_occupancy_def occupancy_def within_def pq_limits_def fun_eq_iff)
  show "e \<in> set (portfolio_dirty_events d') \<Longrightarrow> de_repository e = pq_repository q \<Longrightarrow>
      de_state e = ''RETRY'' \<Longrightarrow> de_next_attempt_at e \<le> now"
    using expedited r(13) by blast
  have "dirty_event_of d' = (\<lambda>k. map_option (\<lambda>e. if de_repository e = pq_repository q \<and>
      de_state e = ''RETRY'' \<and> now < de_next_attempt_at e then e\<lparr>de_next_attempt_at := now, de_updated_at := now\<rparr>
      else e) (dirty_event_of d5 k))"
    by (simp add: r(13) expedite_retries_def dirty_event_of_def [abs_def] find_update_where)
  with r(12) show "\<exists>row. dirty_event_of d' (dirty_event_key (policy_wake q)) = Some row" by auto
qed

definition set_policy_step :: "db \<Rightarrow> policy_request \<times> string \<Rightarrow> db res" where
  "set_policy_step d w = bind_res (set_capacity_policy d (fst w) (snd w)) (\<lambda>x. Inr (fst x))"

lemma set_policy_step_Inr:
  "set_policy_step d w = Inr d' \<longleftrightarrow> (\<exists>p. set_capacity_policy d (fst w) (snd w) = Inr (d', p))"
  by (auto simp: set_policy_step_def guard_simps)

interpretation policy_cas: versioned_store set_policy_step policy_version
  "\<lambda>w. pq_repository (fst w)" "\<lambda>w. pq_expected_version (fst w)" capacity_wf
proof
  fix d w d'
  assume wf: "capacity_wf d" and "set_policy_step d w = Inr d'"
  then obtain p where ok: "set_capacity_policy d (fst w) (snd w) = Inr (d', p)"
    by (auto simp: set_policy_step_Inr)
  note facts = set_capacity_policy_facts [OF wf ok]
  show "capacity_wf d'" "policy_version d (pq_repository (fst w)) = pq_expected_version (fst w)"
    "policy_version d' (pq_repository (fst w)) = pq_expected_version (fst w) + 1"
    using facts(1-3) by simp_all
  fix k
  assume "k \<noteq> pq_repository (fst w)"
  then show "policy_version d' k = policy_version d k" using facts(3) by simp
qed

definition policy_run_step :: "policy_request \<times> string \<Rightarrow> db \<Rightarrow> db res" where
  "policy_run_step w d = set_policy_step d w"

lemma policy_run_step_eq: "policy_run_step = policy_cas.write_step"
  by (simp add: fun_eq_iff policy_run_step_def policy_cas.write_step_def)

text \<open>
  A capacity policy never drops below what is in use. A committed change moves the policy of its
  repository from the version the caller read to the next one with exactly the requested limits,
  leaves every other repository's policy and every older policy row as they were, finds the occupied
  and hosted units within the new limits, leaves a wake for the convergence consumer in the queue, and
  leaves no retry of the repository waiting for a time later than now.
\<close>

theorem set_capacity_policy_safe:
  assumes "capacity_wf d" and "\<forall>repo. capacity_respected d repo"
    and "set_capacity_policy d q now = Inr (d', p)"
  shows "capacity_wf d' \<and> (\<forall>repo. capacity_respected d' repo) \<and>
    policy_version d (pq_repository q) = pq_expected_version q \<and>
    policy_version d' = (policy_version d)(pq_repository q := pq_expected_version q + 1) \<and>
    effective_limits d' = (effective_limits d)(pq_repository q := pq_limits q) \<and>
    set (coordination_capacity_policies d) \<subseteq> set (coordination_capacity_policies d') \<and>
    (\<exists>row. dirty_event_of d' (dirty_event_key (policy_wake q)) = Some row) \<and>
    (\<forall>e \<in> set (portfolio_dirty_events d'). de_repository e = pq_repository q \<and> de_state e = ''RETRY'' \<longrightarrow>
      de_next_attempt_at e \<le> now)"
proof -
  note facts = set_capacity_policy_facts [OF assms(1,3)]
  have "capacity_respected d' repo" for repo
    using facts(4,6,7) assms(2) by (simp add: capacity_respected_def)
  with facts(1-5,8,9) show ?thesis by simp
qed

text \<open>
  Of two policy changes that name the same version of a repository only the first is committed,
  whatever other changes are committed in between, and the version counts the committed changes.
\<close>

theorem set_capacity_policy_no_lost_update:
  assumes "capacity_wf d" and "set_policy_step d (q, now) = Inr d1"
    and "fold_res policy_run_step ws d1 = Inr d2"
    and "pq_repository rival = pq_repository q" and "pq_expected_version rival = pq_expected_version q"
  shows "(\<exists>e. set_capacity_policy d2 rival later = Inl e) \<and>
    policy_version d2 repo = policy_version d1 repo +
      int (length (filter (\<lambda>w. pq_repository (fst w) = repo) ws))"
proof -
  have run: "fold_res policy_cas.write_step ws d1 = Inr d2" using assms(3) by (simp add: policy_run_step_eq)
  from policy_cas.no_lost_update [OF assms(1,2) run, of "(rival, later)"] assms(4,5)
  have "\<exists>e. set_policy_step d2 (rival, later) = Inl e" by simp
  then have "\<exists>e. set_capacity_policy d2 rival later = Inl e"
    by (auto simp: set_policy_step_def bind_res_Inl)
  with policy_cas.run_version [OF policy_cas.write_inv [OF assms(1,2)] run, of repo] show ?thesis by simp
qed

subsection \<open>Bootstrap\<close>

text \<open>
  A store is bootstrapped once. A bootstrap that succeeds installs version 1 with exactly the
  reviewed limits, in tables that are well formed from then on, and every later bootstrap, of
  whatever repository, is refused.
\<close>

theorem bootstrap_capacity_policy_once:
  assumes "bootstrap_capacity_policy d q now = Inr (d', p)"
  shows "capacity_wf d' \<and> coordination_capacity_policies d' = [p] \<and> cp_repository p = pq_repository q \<and>
    cp_version p = 1 \<and> limits_of p = pq_limits q \<and>
    (\<exists>e. bootstrap_capacity_policy d' q' later = Inl e)"
proof -
  let ?row = "policy_row (pq_repository q) 1 (pq_limits q) (Some (pq_authority_sha256 q)) now"
  let ?cur = "\<lparr>cc_repository = pq_repository q, cc_version = 1, cc_updated_at = now\<rparr>"
  let ?d2 = "d\<lparr>coordination_capacity_policies := [?row], coordination_capacity_current := [?cur]\<rparr>"
  define d3 where "d3 = log_bootstrap q now ?d2"
  then have d3: "coordination_capacity_policies d3 = [?row]" "coordination_capacity_current d3 = [?cur]"
    by (simp_all add: log_bootstrap_def)
  from assms have lim: "0 < pq_development_limit q" "0 \<le> pq_shared_limit q" "0 \<le> pq_sre_limit q"
    and fin: "store_capacity_policy d3 (pq_repository q) now = Inr (d', p)"
    by (auto simp: bootstrap_capacity_policy_def insert_policy_def Let_def guard_simps d3_def)
  have "current_policy d3 (pq_repository q) = Some ?row" by (simp add: current_policy_def d3)
  then have "d' = d3" "p = ?row" using fin
    by (auto simp: store_capacity_policy_def ensure_capacity_policy_def guard_simps)
  moreover have "capacity_wf d3"
    using lim by (simp add: capacity_wf_def d3 policy_valid_def) (simp add: policy_row_def pq_limits_def)
  moreover have "\<exists>e. bootstrap_capacity_policy d3 q' later = Inl e"
    by (cases "bootstrap_capacity_policy d3 q' later")
      (auto simp: bootstrap_capacity_policy_def d3 guard_simps)
  ultimately show ?thesis using d3 by simp
qed

subsection \<open>An example\<close>

definition example_policy :: policy_request where
  "example_policy = \<lparr>pq_repository = ''o/r'', pq_development_limit = 3, pq_shared_limit = 1,
     pq_sre_limit = 0, pq_authority_sha256 = replicate 64 (CHR ''a''), pq_expected_version = 1\<rparr>"

lemma capacity_wf_empty: "capacity_wf empty_db"
  by (simp add: capacity_wf_def empty_db_def)

lemma capacity_respected_empty: "capacity_respected empty_db repo"
  by (simp add: capacity_respected_def within_def occupancy_def effective_limits_def current_policy_def
      empty_db_def occupied_units_def reserved_items_def reserved_hosted_sre_units_def
      DEFAULT_CAPACITY_LIMITS_def)

lemma example_policy_set: "\<exists>d p. set_capacity_policy empty_db example_policy ''t1'' = Inr (d, p)"
proof -
  have ok: "REPOSITORY ''o/r''" "SHA256 (replicate 64 (CHR ''a''))" by code_simp+
  show ?thesis
    using ok
    by (simp add: set_capacity_policy_def example_policy_def store_validate_repository_def validate_sha256_def
        transaction_def guard_eval empty_db_def ensure_capacity_policy_def current_policy_def Let_def
        install_default_policy_def insert_or_ignore_def policy_row_def DEFAULT_CAPACITY_LIMITS_def
        below_occupancy_def occupied_units_def reserved_items_def reserved_hosted_sre_units_def
        table_installed_def graph_tables_def store_tables_def insert_policy_def pq_limits_def move_policy_def
        update_where_def log_policy_change_def append_event_def policy_wake_def enqueue_required_wake_def
        enqueue_convergence_dirty_event_def dirty_row_inserted_def dirty_event_of_def new_dirty_event_def
        dirty_matches_def same_json_text_def expedite_retries_def store_capacity_policy_def)
qed

theorem set_capacity_policy_safe_witness:
  "\<exists>d. capacity_wf d \<and> policy_version d ''o/r'' = 2 \<and> effective_limits d ''o/r'' = (3, 1, 0)"
proof -
  from example_policy_set obtain d p where
    "set_capacity_policy empty_db example_policy ''t1'' = Inr (d, p)" by blast
  from set_capacity_policy_safe [OF capacity_wf_empty _ this] show ?thesis
    by (intro exI [of _ d]) (simp add: capacity_respected_empty example_policy_def pq_limits_def)
qed

theorem set_capacity_policy_no_lost_update_witness:
  "\<exists>d e. set_policy_step empty_db (example_policy, ''t1'') = Inr d \<and>
     set_capacity_policy d example_policy ''t2'' = Inl e"
proof -
  from example_policy_set obtain d where d: "set_policy_step empty_db (example_policy, ''t1'') = Inr d"
    by (auto simp: set_policy_step_Inr)
  from set_capacity_policy_no_lost_update [OF capacity_wf_empty d, of "[]" d example_policy "''t2''"] d
  show ?thesis by auto
qed

theorem bootstrap_capacity_policy_once_witness:
  "\<exists>d p e. bootstrap_capacity_policy empty_db example_policy ''t1'' = Inr (d, p) \<and>
     bootstrap_capacity_policy d example_policy ''t2'' = Inl e"
proof -
  have ok: "REPOSITORY ''o/r''" "SHA256 (replicate 64 (CHR ''a''))" by code_simp+
  then have "\<exists>d p. bootstrap_capacity_policy empty_db example_policy ''t1'' = Inr (d, p)"
    by (simp add: bootstrap_capacity_policy_def example_policy_def store_validate_repository_def
        validate_sha256_def transaction_def guard_eval empty_db_def insert_policy_def Let_def
        store_capacity_policy_def ensure_capacity_policy_def current_policy_def append_event_def policy_row_def log_bootstrap_def)
  then show ?thesis using bootstrap_capacity_policy_once by blast
qed

end
