(* ===== verification/Transition_Guard.thy ===== *)
theory Transition_Guard
  imports Scheduler
begin

section \<open>The graph's veto on item transitions\<close>

text \<open>
  \<open>validate_portfolio_transition\<close> of portfolio_graph.py: every change of a coordination item is
  checked against the current graph before it is written. An item the graph does not govern may
  move freely, and closing work whose issue is closed is always allowed; otherwise the graph must
  be current, the source reviewed, the hard predecessors finished before execution, no active item
  may collide, and a serial gate may not be parked while work hangs on it.

  The recursive query over \<open>portfolio_graph_relations\<close> is \<open>closure\<close>, a worklist with the rows
  already produced (\<open>UNION\<close> drops duplicates). Rows of a join come in the order of the relations;
  the order decides only which colliding issue an error names.
\<close>

definition EXECUTION_STATUSES :: "string list" where
  "EXECUTION_STATUSES = [''READY'', ''ACTIVE'', ''ACTIVE_FENCED'']"

definition STABLE_PARK_STATUSES :: "string list" where
  "STABLE_PARK_STATUSES = [''BACKLOG'', ''PREPARED'', ''QUEUED'', ''MONITOR'']"

subsection \<open>Reachable nodes\<close>

lemma outgoing_targets: "set (outgoing edges k) \<subseteq> snd ` set edges"
  by (force simp: outgoing_def)

function closure :: "(string \<times> string) list \<Rightarrow> string list \<Rightarrow> string list \<Rightarrow> string list" where
  "closure edges seen [] = seen"
| "closure edges seen (k # ks) =
     (if k \<in> set seen then closure edges seen ks
      else closure edges (seen @ [k]) (ks @ outgoing edges k))"
  by pat_completeness auto

termination
proof (relation "measures [\<lambda>(edges, seen, ks). card ((set ks \<union> snd ` set edges) - set seen), \<lambda>(_, _, ks). length ks]")
  fix edges :: "(string \<times> string) list" and seen ks :: "string list" and k
  assume "k \<in> set seen"
  then have "(set (k # ks) \<union> snd ` set edges) - set seen = (set ks \<union> snd ` set edges) - set seen" by auto
  then show "((edges, seen, ks), edges, seen, k # ks) \<in>
    measures [\<lambda>(edges, seen, ks). card ((set ks \<union> snd ` set edges) - set seen), \<lambda>(_, _, ks). length ks]"
    by simp
next
  fix edges :: "(string \<times> string) list" and seen ks :: "string list" and k
  assume "k \<notin> set seen"
  then have "(set (ks @ outgoing edges k) \<union> snd ` set edges) - set (seen @ [k]) \<subset>
      (set (k # ks) \<union> snd ` set edges) - set seen"
    using outgoing_targets [of edges k] by auto
  then have "card ((set (ks @ outgoing edges k) \<union> snd ` set edges) - set (seen @ [k])) <
      card ((set (k # ks) \<union> snd ` set edges) - set seen)"
    by (intro psubset_card_mono) auto
  then show "((edges, seen @ [k], ks @ outgoing edges k), edges, seen, k # ks) \<in>
    measures [\<lambda>(edges, seen, ks). card ((set ks \<union> snd ` set edges) - set seen), \<lambda>(_, _, ks). length ks]"
    by simp
qed simp

text \<open>The worklist holds what is known and not yet produced; what is produced is closed under edges.\<close>

lemma closure_sound:
  assumes "\<forall>x \<in> set seen \<union> set ks. (r, x) \<in> (set edges)\<^sup>+"
  shows "\<forall>x \<in> set (closure edges seen ks). (r, x) \<in> (set edges)\<^sup>+"
  using assms
proof (induction edges seen ks rule: closure.induct)
  case (2 edges seen k ks)
  show ?case
  proof (cases "k \<in> set seen")
    case True
    then show ?thesis using 2(1) [OF True] 2(3) by simp
  next
    case False
    have k: "(r, k) \<in> (set edges)\<^sup>+" using 2(3) by simp
    have "\<forall>x \<in> set (seen @ [k]) \<union> set (ks @ outgoing edges k). (r, x) \<in> (set edges)\<^sup>+"
    proof
      fix x
      assume "x \<in> set (seen @ [k]) \<union> set (ks @ outgoing edges k)"
      then consider "x \<in> set seen \<union> set (k # ks)" | "(k, x) \<in> set edges" by (auto simp: set_outgoing)
      then show "(r, x) \<in> (set edges)\<^sup>+"
      proof cases
        case 1
        with 2(3) show ?thesis by blast
      next
        case 2
        show ?thesis by (rule trancl_into_trancl [OF k 2])
      qed
    qed
    from 2(2) [OF False this] False show ?thesis by simp
  qed
qed simp

lemma closure_complete:
  assumes "\<forall>x \<in> set seen. set (outgoing edges x) \<subseteq> set seen \<union> set ks"
  shows "set seen \<union> set ks \<subseteq> set (closure edges seen ks) \<and>
    (\<forall>x \<in> set (closure edges seen ks). set (outgoing edges x) \<subseteq> set (closure edges seen ks))"
  using assms
proof (induction edges seen ks rule: closure.induct)
  case (2 edges seen k ks)
  show ?case
  proof (cases "k \<in> set seen")
    case True
    moreover have "\<forall>x \<in> set seen. set (outgoing edges x) \<subseteq> set seen \<union> set ks" using 2(3) True by auto
    ultimately show ?thesis using 2(1) [OF True] by auto
  next
    case False
    have "\<forall>x \<in> set (seen @ [k]). set (outgoing edges x) \<subseteq> set (seen @ [k]) \<union> set (ks @ outgoing edges k)"
      using 2(3) by auto
    from 2(2) [OF False this] False show ?thesis by simp
  qed
qed simp

lemma closure_trancl: "set (closure edges [] (outgoing edges k)) = {x. (k, x) \<in> (set edges)\<^sup>+}"
proof
  show "set (closure edges [] (outgoing edges k)) \<subseteq> {x. (k, x) \<in> (set edges)\<^sup>+}"
    using closure_sound [of "[]" "outgoing edges k" k edges] by (auto simp: set_outgoing)
  note c = closure_complete [of "[]" edges "outgoing edges k", simplified]
  show "{x. (k, x) \<in> (set edges)\<^sup>+} \<subseteq> set (closure edges [] (outgoing edges k))"
  proof safe
    fix x
    assume "(k, x) \<in> (set edges)\<^sup>+"
    then show "x \<in> set (closure edges [] (outgoing edges k))"
      by (induction rule: trancl_induct) (use c in \<open>auto simp: set_outgoing\<close>)
  qed
qed

subsection \<open>The queries\<close>

definition issues_of :: "graph_node_row list \<Rightarrow> string \<Rightarrow> int list" where
  "issues_of ns k = map gn_issue_number (filter (\<lambda>n. gn_node_key n = k) ns)"

definition hard_predecessors :: "db \<Rightarrow> string \<Rightarrow> int \<Rightarrow> string \<Rightarrow> int list" where
  "hard_predecessors d repository version k =
     concat (map (issues_of (nodes_of d repository version))
       (predecessors_of (hard_edges_of (relations_of d repository version)) k))"

definition gate_descendants :: "db \<Rightarrow> string \<Rightarrow> int \<Rightarrow> string \<Rightarrow> int list" where
  "gate_descendants d repository version k =
     (let edges = hard_edges_of (relations_of d repository version) in
      concat (map (issues_of (nodes_of d repository version)) (closure edges [] (outgoing edges k))))"

definition unfinished :: "db \<Rightarrow> string \<Rightarrow> int list \<Rightarrow> int list res" where
  "unfinished d repository ns =
     bind_res (map_res (\<lambda>n. bind_res (terminal_issue d repository n) (\<lambda>t. Inr (n, t))) ns)
       (\<lambda>table. Inr (map fst (filter (\<lambda>x. \<not> snd x) table)))"

definition collision_partners :: "db \<Rightarrow> string \<Rightarrow> int \<Rightarrow> string \<Rightarrow> string list" where
  "collision_partners d repository version k =
     map (\<lambda>r. if gl_left_node_key r = k then gl_right_node_key r else gl_left_node_key r)
       (filter (\<lambda>r. gl_relation_kind r = ''COLLISION'' \<and> (gl_left_node_key r = k \<or> gl_right_node_key r = k))
          (relations_of d repository version))"

definition active_collisions :: "db \<Rightarrow> string \<Rightarrow> int \<Rightarrow> string \<Rightarrow> int \<Rightarrow> int list" where
  "active_collisions d repository version k issue_number =
     filter (\<lambda>n. n \<noteq> issue_number \<and> n \<in> set (map it_issue_number (reserved_items d repository)))
       (concat (map (issues_of (nodes_of d repository version)) (collision_partners d repository version k)))"

subsection \<open>The check\<close>

definition closes_closed_work :: "db \<Rightarrow> string \<Rightarrow> int \<Rightarrow> string \<Rightarrow> string \<Rightarrow> bool res" where
  "closes_closed_work d repository issue_number status allocation_class =
     (if status = ''DONE'' \<and> allocation_class = ''NONE'' then
        bind_res (snapshot_of d repository issue_number) (\<lambda>(c, s).
          (case item_of d repository issue_number of
             None \<Rightarrow> Inr False
           | Some item \<Rightarrow>
               if \<not> reserves_capacity item then Inr False
               else require_some (ValueError ''JSONDecodeError'') (gs_payload_json s) (\<lambda>payload.
                 guarded [(\<not> is_dict payload, AttributeError)]
                   (Inr (py_eq (py_get (dict_of payload) ''state'') (PStr ''closed''))))))
      else Inr False)"

definition parks :: "string \<Rightarrow> string \<Rightarrow> bool" where
  "parks status allocation_class =
     (status \<in> set STABLE_PARK_STATUSES \<or> (allocation_class = ''NONE'' \<and> status \<notin> {''READY'', ''DONE''}))"

definition check_serial_gate :: "db \<Rightarrow> string \<Rightarrow> int \<Rightarrow> string \<Rightarrow> string \<Rightarrow> graph_node_row \<Rightarrow> unit res" where
  "check_serial_gate d repository version status allocation_class n =
     (if gn_role n = ''SERIAL_GATE'' then
        bind_res (unfinished d repository (gate_descendants d repository version (gn_node_key n))) (\<lambda>open_work.
          guarded [(open_work \<noteq> [] \<and> parks status allocation_class, graph_error ''GRAPH_SERIAL_GATE_PARKED'')]
            (Inr ()))
      else Inr ())"

definition check_node_transition ::
  "db \<Rightarrow> string \<Rightarrow> int \<Rightarrow> int \<Rightarrow> string \<Rightarrow> string \<Rightarrow> graph_node_row \<Rightarrow> unit res" where
  "check_node_transition d repository version issue_number status allocation_class n =
     bind_res (snapshot_of d repository issue_number) (\<lambda>(c, s).
     guarded [(gc_payload_sha256 c \<noteq> gn_source_payload_sha256 n, graph_error ''GRAPH_SOURCE_DRIFT'')]
     (bind_res (unfinished d repository (hard_predecessors d repository version (gn_node_key n))) (\<lambda>blockers.
      guarded [(status \<in> set EXECUTION_STATUSES \<and> blockers \<noteq> [],
                graph_error (''GRAPH_HARD_PREDECESSOR_UNSATISFIED:'' @
                  join '','' (map str_of_int (sort blockers)))),
               (status \<in> {''ACTIVE'', ''ACTIVE_FENCED''} \<and>
                active_collisions d repository version (gn_node_key n) issue_number \<noteq> [],
                graph_error (''GRAPH_COLLISION_ACTIVE:'' @
                  str_of_int (hd (active_collisions d repository version (gn_node_key n) issue_number))))]
      (check_serial_gate d repository version status allocation_class n))))"

definition governing_nodes :: "db \<Rightarrow> string \<Rightarrow> int \<Rightarrow> int \<Rightarrow> graph_node_row list" where
  "governing_nodes d repository version issue_number =
     filter (\<lambda>n. gn_issue_number n = issue_number) (nodes_of d repository version)"

definition validate_portfolio_transition ::
  "db \<Rightarrow> string \<Rightarrow> int \<Rightarrow> string \<Rightarrow> string \<Rightarrow> string option \<Rightarrow> unit res" where
  "validate_portfolio_transition d repository issue_number status allocation_class current_main =
     (if \<not> (table_installed d ''portfolio_graph_current'' \<and> table_installed d ''portfolio_graph_nodes'')
      then Inr ()
      else case current_join d repository of
        None \<Rightarrow> Inr ()
      | Some (c, r) \<Rightarrow>
          let nodes = governing_nodes d repository (gp_version c) issue_number in
          if nodes = [] then Inr ()
          else bind_res (closes_closed_work d repository issue_number status allocation_class) (\<lambda>closes.
            if closes then Inr ()
            else guarded [(gp_health c \<noteq> ''CURRENT'', graph_error ''GRAPH_STALE''),
                          (current_main \<noteq> None \<and> gp_observed_main_sha c \<noteq> the current_main,
                           graph_error ''GRAPH_CURSOR_DRIFT'')]
              (check_each (check_node_transition d repository (gp_version c) issue_number status allocation_class)
                 nodes)))"

subsection \<open>What an accepted transition guarantees\<close>

lemma unfinished_Inr:
  "unfinished d repo ns = Inr us \<Longrightarrow>
     set us = {n \<in> set ns. terminal_issue d repo n = Inr False} \<and>
     (\<forall>n \<in> set ns. terminal_issue d repo n = Inr True \<or> terminal_issue d repo n = Inr False)"
proof (induction ns arbitrary: us)
  case Nil
  then show ?case by (simp add: unfinished_def)
next
  case (Cons n ns)
  from Cons.prems obtain t vs where t: "terminal_issue d repo n = Inr t"
    and vs: "unfinished d repo ns = Inr vs" and us: "us = (if t then vs else n # vs)"
    by (auto simp: unfinished_def guard_simps)
  from Cons.IH [OF vs] t us show ?case by (cases t) auto
qed

lemma unfinished_total:
  "\<forall>n \<in> set ns. \<exists>t. terminal_issue d repo n = Inr t \<Longrightarrow> \<exists>us. unfinished d repo ns = Inr us"
proof (induction ns)
  case Nil
  then show ?case by (simp add: unfinished_def)
next
  case (Cons n ns)
  then obtain t vs where "terminal_issue d repo n = Inr t" "unfinished d repo ns = Inr vs" by auto
  then show ?case by (auto simp: unfinished_def guard_simps)
qed

lemma unfinished_none:
  assumes "\<And>n. n \<in> set ns \<Longrightarrow> terminal_issue d repo n = Inr True"
  shows "unfinished d repo ns = Inr []"
proof -
  from assms have "\<exists>us. unfinished d repo ns = Inr us" by (intro unfinished_total) blast
  then obtain us where us: "unfinished d repo ns = Inr us" ..
  from unfinished_Inr [OF us] assms have "set us = {}" by auto
  with us show ?thesis by simp
qed

lemma issues_of_mem: "n \<in> set ns \<Longrightarrow> gn_issue_number n \<in> set (issues_of ns (gn_node_key n))"
  by (simp add: issues_of_def)

lemma hard_predecessors_mem:
  assumes "n \<in> set (nodes_of d repo ver)" and "(gn_node_key n, k) \<in> set (hard_edges_of (relations_of d repo ver))"
  shows "gn_issue_number n \<in> set (hard_predecessors d repo ver k)"
  using assms issues_of_mem [OF assms(1)] by (force simp: hard_predecessors_def predecessors_of_def)

lemma gate_descendants_mem:
  assumes "n \<in> set (nodes_of d repo ver)" and "(k, gn_node_key n) \<in> (set (hard_edges_of (relations_of d repo ver)))\<^sup>+"
  shows "gn_issue_number n \<in> set (gate_descendants d repo ver k)"
  using assms issues_of_mem [OF assms(1)] by (force simp: gate_descendants_def Let_def closure_trancl)

lemma active_collisions_mem:
  assumes "n \<in> set (nodes_of d repo ver)" and "r \<in> set (relations_of d repo ver)"
    and "gl_relation_kind r = ''COLLISION''" and "{gl_left_node_key r, gl_right_node_key r} = {k, gn_node_key n}"
    and "item_of d repo (gn_issue_number n) = Some i" and "reserves_capacity i" and "gn_issue_number n \<noteq> issue"
  shows "gn_issue_number n \<in> set (active_collisions d repo ver k issue)"
proof -
  have "gn_node_key n \<in> set (collision_partners d repo ver k)"
    using assms(2-4) by (force simp: collision_partners_def doubleton_eq_iff)
  moreover have "gn_issue_number n \<in> set (map it_issue_number (reserved_items d repo))"
    using assms(5,6) item_of_SomeD [OF assms(5)] by (force simp: reserved_items_def)
  ultimately show ?thesis
    using assms(7) issues_of_mem [OF assms(1)] by (auto simp: active_collisions_def)
qed

lemma check_serial_gate_Inr:
  assumes "check_serial_gate d repo ver status alloc n = Inr u" and "gn_role n = ''SERIAL_GATE''"
    and "parks status alloc"
  shows "\<forall>p \<in> set (gate_descendants d repo ver (gn_node_key n)). terminal_issue d repo p = Inr True"
proof -
  from assms have "unfinished d repo (gate_descendants d repo ver (gn_node_key n)) = Inr []"
    by (auto simp: check_serial_gate_def guard_simps)
  from unfinished_Inr [OF this] show ?thesis by auto
qed

lemma check_node_transition_Inr:
  assumes "check_node_transition d repo ver issue status alloc n = Inr u"
  shows "\<exists>c s. snapshot_of d repo issue = Inr (c, s) \<and> gc_payload_sha256 c = gn_source_payload_sha256 n"
    and "status \<in> set EXECUTION_STATUSES \<Longrightarrow>
      \<forall>p \<in> set (hard_predecessors d repo ver (gn_node_key n)). terminal_issue d repo p = Inr True"
    and "status \<in> {''ACTIVE'', ''ACTIVE_FENCED''} \<Longrightarrow> active_collisions d repo ver (gn_node_key n) issue = []"
    and "check_serial_gate d repo ver status alloc n = Inr ()"
proof -
  from assms obtain x blockers where x: "snapshot_of d repo issue = Inr x"
    "gc_payload_sha256 (fst x) = gn_source_payload_sha256 n"
    and b: "unfinished d repo (hard_predecessors d repo ver (gn_node_key n)) = Inr blockers"
    "\<not> (status \<in> set EXECUTION_STATUSES \<and> blockers \<noteq> [])"
    "\<not> (status \<in> {''ACTIVE'', ''ACTIVE_FENCED''} \<and> active_collisions d repo ver (gn_node_key n) issue \<noteq> [])"
    "check_serial_gate d repo ver status alloc n = Inr ()"
    by (simp only: check_node_transition_def guard_simps split_beta list.set ball_simps fst_conv insert_iff) auto
  show "\<exists>c s. snapshot_of d repo issue = Inr (c, s) \<and> gc_payload_sha256 c = gn_source_payload_sha256 n"
    using x by (cases x) simp
  show "\<forall>p \<in> set (hard_predecessors d repo ver (gn_node_key n)). terminal_issue d repo p = Inr True"
    if "status \<in> set EXECUTION_STATUSES" using unfinished_Inr [OF b(1)] b(2) that by auto
  show "active_collisions d repo ver (gn_node_key n) issue = []"
    if "status \<in> {''ACTIVE'', ''ACTIVE_FENCED''}" using b(3) that by blast
  show "check_serial_gate d repo ver status alloc n = Inr ()" by (rule b(4))
qed

lemma validate_transition_Inr:
  assumes "validate_portfolio_transition d repo issue status alloc main = Inr ()"
    and "table_installed d ''portfolio_graph_current''" and "table_installed d ''portfolio_graph_nodes''"
    and "current_join d repo = Some (c, r)" and "n \<in> set (governing_nodes d repo (gp_version c) issue)"
    and "closes_closed_work d repo issue status alloc \<noteq> Inr True"
  shows "gp_health c = ''CURRENT''" and "main = None \<or> main = Some (gp_observed_main_sha c)"
    and "check_node_transition d repo (gp_version c) issue status alloc n = Inr ()"
proof -
  from assms(5) have "governing_nodes d repo (gp_version c) issue \<noteq> []" by auto
  with assms have r: "gp_health c = ''CURRENT''" "\<not> (main \<noteq> None \<and> gp_observed_main_sha c \<noteq> the main)"
    "check_node_transition d repo (gp_version c) issue status alloc n = Inr ()"
    by (auto simp: validate_portfolio_transition_def Let_def guard_simps split: if_splits)
  then show "gp_health c = ''CURRENT''" "main = None \<or> main = Some (gp_observed_main_sha c)"
    "check_node_transition d repo (gp_version c) issue status alloc n = Inr ()"
    by (cases main; simp)+
qed

text \<open>
  C26: work the graph governs starts only when the graph allows it. If the check lets an issue with a
  node \<open>n\<close> of the current graph move to \<open>READY\<close>, \<open>ACTIVE\<close> or \<open>ACTIVE_FENCED\<close>, the graph is current
  (at the given main commit, if one is given), the issue's source is the one the node was reviewed
  against, every node with a hard edge into \<open>n\<close> is finished, and for the two active statuses no
  issue of a node in collision with \<open>n\<close> holds an allocation.
\<close>

theorem transition_needs_ready_graph:
  assumes "validate_portfolio_transition d repo issue status alloc main = Inr ()"
    and "table_installed d ''portfolio_graph_current''" and "table_installed d ''portfolio_graph_nodes''"
    and "current_join d repo = Some (c, r)" and "n \<in> set (nodes_of d repo (gp_version c))"
    and "gn_issue_number n = issue" and "status \<in> set EXECUTION_STATUSES"
  shows "gp_health c = ''CURRENT'' \<and> (main = None \<or> main = Some (gp_observed_main_sha c)) \<and>
    (\<exists>cur s. snapshot_of d repo issue = Inr (cur, s) \<and> gc_payload_sha256 cur = gn_source_payload_sha256 n) \<and>
    (\<forall>p \<in> set (nodes_of d repo (gp_version c)).
       (gn_node_key p, gn_node_key n) \<in> set (hard_edges_of (relations_of d repo (gp_version c))) \<longrightarrow>
       terminal_issue d repo (gn_issue_number p) = Inr True) \<and>
    (status \<noteq> ''READY'' \<longrightarrow> (\<forall>p \<in> set (nodes_of d repo (gp_version c)). \<forall>x \<in> set (relations_of d repo (gp_version c)).
       \<forall>i. gl_relation_kind x = ''COLLISION'' \<and>
         {gl_left_node_key x, gl_right_node_key x} = {gn_node_key n, gn_node_key p} \<and>
         gn_issue_number p \<noteq> issue \<and> item_of d repo (gn_issue_number p) = Some i \<longrightarrow> \<not> reserves_capacity i))"
proof -
  have "status \<noteq> ''DONE''" using assms(7) by (auto simp: EXECUTION_STATUSES_def)
  then have "closes_closed_work d repo issue status alloc \<noteq> Inr True" by (simp add: closes_closed_work_def)
  moreover have "n \<in> set (governing_nodes d repo (gp_version c) issue)"
    using assms(5,6) by (simp add: governing_nodes_def)
  ultimately have v: "gp_health c = ''CURRENT''" "main = None \<or> main = Some (gp_observed_main_sha c)"
    "check_node_transition d repo (gp_version c) issue status alloc n = Inr ()"
    using validate_transition_Inr [OF assms(1-4)] by blast+
  note node = check_node_transition_Inr [OF v(3)]
  have active: "active_collisions d repo (gp_version c) (gn_node_key n) issue = []" if "status \<noteq> ''READY''"
    using that assms(7) node(3) by (auto simp: EXECUTION_STATUSES_def)
  have "\<not> reserves_capacity i" if "status \<noteq> ''READY''" "p \<in> set (nodes_of d repo (gp_version c))"
    "x \<in> set (relations_of d repo (gp_version c))" "gl_relation_kind x = ''COLLISION''"
    "{gl_left_node_key x, gl_right_node_key x} = {gn_node_key n, gn_node_key p}"
    "gn_issue_number p \<noteq> issue" "item_of d repo (gn_issue_number p) = Some i" for p x i
    using active_collisions_mem [OF that(2-5,7) _ that(6)] active [OF that(1)] by auto
  moreover have "terminal_issue d repo (gn_issue_number p) = Inr True"
    if "p \<in> set (nodes_of d repo (gp_version c))"
      "(gn_node_key p, gn_node_key n) \<in> set (hard_edges_of (relations_of d repo (gp_version c)))" for p
    using node(2) [OF assms(7)] hard_predecessors_mem [OF that] by blast
  ultimately show ?thesis using v(1,2) node(1) by blast
qed

text \<open>
  A serial gate is not parked under its dependants. If the check lets the issue of a serial gate
  move to a parked status, or give up its allocation for anything but \<open>READY\<close> or \<open>DONE\<close>, then every
  node reachable from the gate over hard edges, however far, is finished.
\<close>

theorem serial_gate_not_parked:
  assumes "validate_portfolio_transition d repo issue status alloc main = Inr ()"
    and "table_installed d ''portfolio_graph_current''" and "table_installed d ''portfolio_graph_nodes''"
    and "current_join d repo = Some (c, r)" and "n \<in> set (nodes_of d repo (gp_version c))"
    and "gn_issue_number n = issue" and "gn_role n = ''SERIAL_GATE''" and "parks status alloc"
    and "p \<in> set (nodes_of d repo (gp_version c))"
    and "(gn_node_key n, gn_node_key p) \<in> (set (hard_edges_of (relations_of d repo (gp_version c))))\<^sup>+"
  shows "terminal_issue d repo (gn_issue_number p) = Inr True"
proof -
  have "\<not> (status = ''DONE'' \<and> alloc = ''NONE'')"
    using assms(8) by (auto simp: parks_def STABLE_PARK_STATUSES_def)
  then have "closes_closed_work d repo issue status alloc \<noteq> Inr True" by (auto simp: closes_closed_work_def)
  moreover have "n \<in> set (governing_nodes d repo (gp_version c) issue)"
    using assms(5,6) by (simp add: governing_nodes_def)
  ultimately have "check_node_transition d repo (gp_version c) issue status alloc n = Inr ()"
    using validate_transition_Inr [OF assms(1-4)] by blast
  from check_serial_gate_Inr [OF check_node_transition_Inr(4) [OF this] assms(7,8)]
  show ?thesis using gate_descendants_mem [OF assms(9,10)] by blast
qed

subsection \<open>The scheduler and the veto agree\<close>

lemma issues_of_terminal:
  assumes wf: "graph_wf d" and t: "terminal_table d repo (graph_nodes d repo) = Inr t"
    and "i \<in> set (issues_of (graph_nodes d repo) k)"
  shows "\<exists>b. terminal_issue d repo i = Inr b \<and> (finished d repo k \<longrightarrow> b)"
proof -
  have dist: "distinct (map gn_node_key (graph_nodes d repo))"
    using graph_wf_keys_distinct [OF wf] by (simp add: graph_nodes_def)
  from assms(3) obtain m where m: "m \<in> set (graph_nodes d repo)" "gn_node_key m = k" "i = gn_issue_number m"
    by (auto simp: issues_of_def)
  with terminal_table_mem [OF t dist m(1)] finished_iff [OF t wf] show ?thesis by auto
qed

lemma selected_collision_free:
  assumes wf: "graph_wf d" and dec: "decide d repo main = Inr x" and k: "gn_node_key n \<in> set (dc_selected x)"
    and n: "n \<in> set (graph_nodes d repo)"
  shows "active_collisions d repo (current_version d repo) (gn_node_key n) (gn_issue_number n) = []"
proof (rule ccontr)
  assume "active_collisions d repo (current_version d repo) (gn_node_key n) (gn_issue_number n) \<noteq> []"
  then obtain i where "i \<in> set (active_collisions d repo (current_version d repo) (gn_node_key n) (gn_issue_number n))"
    by (meson hd_in_set)
  then obtain q where q: "q \<in> set (collision_partners d repo (current_version d repo) (gn_node_key n))"
    and i: "i \<in> set (issues_of (graph_nodes d repo) q)" "i \<noteq> gn_issue_number n"
      "i \<in> it_issue_number ` set (reserved_items d repo)"
    by (auto simp: active_collisions_def graph_nodes_def)
  from i(1) obtain m where m: "m \<in> set (graph_nodes d repo)" "gn_node_key m = q" "gn_issue_number m = i"
    by (auto simp: issues_of_def)
  have "q \<in> set (active_keys d repo (graph_nodes d repo))"
    using m i(3) by (force simp: active_keys_def)
  moreover have "{gn_node_key n, q} \<in> collision_pairs (relations_of d repo (current_version d repo))"
    using q by (force simp: collision_partners_def collision_pairs_def insert_commute split: if_splits)
  ultimately have "gn_node_key n = q" using decide_exclusion [OF wf dec] k by blast
  then have "n = m"
    using m n distinct_map_eqD [OF graph_wf_keys_distinct [OF wf]] by (auto simp: graph_nodes_def)
  with m i(2) show False by simp
qed

text \<open>
  C30: the scheduler never selects work the store would refuse on the graph's account. When a decision
  at main commit \<open>main\<close> selects a node whose issue no other node of the graph shares, the check of
  the transition of that issue to \<open>ACTIVE\<close> at that commit succeeds.
\<close>

theorem schedule_selection_admissible:
  assumes "graph_wf d" and "decide d repo main = Inr x" and "gn_node_key n \<in> set (dc_selected x)"
    and "n \<in> set (graph_nodes d repo)"
    and "\<forall>m \<in> set (graph_nodes d repo). gn_issue_number m = gn_issue_number n \<longrightarrow> m = n"
  shows "validate_portfolio_transition d repo (gn_issue_number n) ''ACTIVE'' ''ACTIVE'' (Some main) = Inr ()"
proof -
  let ?v = "current_version d repo" and ?i = "gn_issue_number n"
  obtain m where m: "m \<in> set (graph_nodes d repo)" "gn_node_key m = gn_node_key n"
    and pred: "\<forall>q. (q, gn_node_key n) \<in> set (graph_edges d repo) \<longrightarrow> finished d repo q"
    and src: "\<exists>s. source_join d repo ''issue'' (gn_issue_number m) = Some s \<and>
      gc_payload_sha256 (fst s) = gn_source_payload_sha256 m"
    and cur: "\<exists>c. graph_current_of d repo = Some c \<and> gp_health c = ''CURRENT'' \<and> gp_observed_main_sha c = main"
    using decide_selects_ready [OF assms(1-3)] by blast
  have "m = n"
    using m assms(4) distinct_map_eqD [OF graph_wf_keys_distinct [OF assms(1)]] by (auto simp: graph_nodes_def)
  from assms(2) obtain v p where ev: "evaluate_stored d repo main = Inr v" by (rule decide_Inr)
  from ev assms(1) obtain g order t where g: "read_graph d repo = Inr g"
    and t: "terminal_table d repo (graph_nodes d repo) = Inr t" by (rule evaluate_graph_Inr)
  note lg = read_graph_Inr [OF g]
  have join: "current_join d repo = Some (lg_current g, lg_revision g)"
    using lg by (simp add: current_join_def)
  have gov: "set (governing_nodes d repo (gp_version (lg_current g)) ?i) = {n}"
    using assms(4,5) lg(5) by (auto simp: governing_nodes_def graph_nodes_def)
  have ver: "gp_version (lg_current g) = ?v" by (rule lg(5))
  have "terminal_issue d repo j = Inr True" if "j \<in> set (hard_predecessors d repo ?v (gn_node_key n))" for j
  proof -
    from that obtain q where q: "(q, gn_node_key n) \<in> set (graph_edges d repo)"
      and j: "j \<in> set (issues_of (graph_nodes d repo) q)"
      by (auto simp: hard_predecessors_def predecessors_of_def graph_nodes_def graph_edges_def)
    from issues_of_terminal [OF assms(1) t j] pred q show ?thesis by auto
  qed
  then have blockers: "unfinished d repo (hard_predecessors d repo ?v (gn_node_key n)) = Inr []"
    by (rule unfinished_none)
  have "\<exists>w. unfinished d repo (gate_descendants d repo ?v (gn_node_key n)) = Inr w"
  proof (intro unfinished_total ballI)
    fix j
    assume "j \<in> set (gate_descendants d repo ?v (gn_node_key n))"
    then obtain q where "j \<in> set (issues_of (graph_nodes d repo) q)"
      by (auto simp: gate_descendants_def Let_def graph_nodes_def)
    from issues_of_terminal [OF assms(1) t this] show "\<exists>b. terminal_issue d repo j = Inr b" by blast
  qed
  then have gate: "check_serial_gate d repo ?v ''ACTIVE'' ''ACTIVE'' n = Inr ()"
    by (auto simp: check_serial_gate_def parks_def STABLE_PARK_STATUSES_def guard_simps)
  have "check_node_transition d repo ?v ?i ''ACTIVE'' ''ACTIVE'' n = Inr ()"
    using src \<open>m = n\<close> blockers gate selected_collision_free [OF assms(1-4)]
    by (auto simp: check_node_transition_def snapshot_of_def guard_eval)
  then have each: "check_each (check_node_transition d repo ?v ?i ''ACTIVE'' ''ACTIVE'')
      (governing_nodes d repo ?v ?i) = Inr ()"
    using gov ver by (simp add: guard_simps)
  show ?thesis
    using join ver each cur lg(4)
    by (auto simp: validate_portfolio_transition_def closes_closed_work_def Let_def guard_eval)
qed

subsection \<open>Witnesses\<close>

lemma scheduling_nodes: "graph_nodes scheduling_db HARNESS_REPOSITORY =
    [example_stored_node ''issue:1'' 1 ''INTENTIONAL'', example_stored_node ''issue:2'' 2 ''NORMAL'',
     example_stored_node ''issue:3'' 3 ''STANDALONE'']"
proof -
  have "current_version scheduling_db HARNESS_REPOSITORY = 1" by code_simp
  then show ?thesis by (simp add: graph_nodes_def nodes_of_def scheduling_db_def example_stored_node_def)
qed

theorem schedule_selection_admissible_witness:
  "validate_portfolio_transition scheduling_db HARNESS_REPOSITORY 1 ''ACTIVE'' ''ACTIVE''
     (Some (replicate 40 (CHR ''b''))) = Inr ()"
proof (rule scheduling_decision_made)
  fix x
  assume x: "decide scheduling_db HARNESS_REPOSITORY (replicate 40 (CHR ''b'')) = Inr x"
    "dc_selected x = [''issue:1'']"
  have nodes: "graph_nodes scheduling_db HARNESS_REPOSITORY = [example_stored_node ''issue:1'' 1 ''INTENTIONAL'',
      example_stored_node ''issue:2'' 2 ''NORMAL'', example_stored_node ''issue:3'' 3 ''STANDALONE'']"
    by (rule scheduling_nodes)
  have "gn_node_key (example_stored_node ''issue:1'' 1 ''INTENTIONAL'') \<in> set (dc_selected x)"
    by (simp add: x(2) example_stored_node_def)
  from schedule_selection_admissible [OF scheduling_db_wf x(1) this]
  show ?thesis by (simp add: nodes) (simp add: example_stored_node_def)
qed

text \<open>A gate with one finished dependant, two hard edges away.\<close>

definition example_gate_db :: db where
  "example_gate_db = scheduling_db\<lparr>
     coordination_items := [example_item 1, (example_item 2)\<lparr>it_status := ''DONE''\<rparr>,
       (example_item 3)\<lparr>it_status := ''DONE''\<rparr>],
     portfolio_graph_nodes := [(example_stored_node ''issue:1'' 1 ''INTENTIONAL'')\<lparr>gn_role := ''SERIAL_GATE''\<rparr>,
       example_stored_node ''issue:2'' 2 ''NORMAL'', example_stored_node ''issue:3'' 3 ''NORMAL''],
     portfolio_graph_relations := map (\<lambda>(a, b). \<lparr>gl_repository = HARNESS_REPOSITORY, gl_graph_version = 1,
       gl_left_node_key = a, gl_right_node_key = b, gl_relation_kind = ''HARD_BLOCK'',
       gl_reason = ''builds on it'', gl_source_payload_sha256 = example_sha\<rparr>)
       [(''issue:1'', ''issue:2''), (''issue:2'', ''issue:3'')]\<rparr>"

lemma example_gate_join:
  obtains c r where "current_join example_gate_db HARNESS_REPOSITORY = Some (c, r)" "gp_version c = 1"
    "gp_observed_main_sha c = replicate 40 (CHR ''b'')"
proof -
  have "case current_join example_gate_db HARNESS_REPOSITORY of None \<Rightarrow> False
    | Some (c, r) \<Rightarrow> gp_version c = 1 \<and> gp_observed_main_sha c = replicate 40 (CHR ''b'')" by code_simp
  then show thesis using that by (auto split: option.splits)
qed

lemma example_gate_installed:
  "table_installed example_gate_db ''portfolio_graph_current''"
  "table_installed example_gate_db ''portfolio_graph_nodes''"
  by code_simp+

lemma example_gate_nodes: "nodes_of example_gate_db HARNESS_REPOSITORY 1 =
    [(example_stored_node ''issue:1'' 1 ''INTENTIONAL'')\<lparr>gn_role := ''SERIAL_GATE''\<rparr>,
     example_stored_node ''issue:2'' 2 ''NORMAL'', example_stored_node ''issue:3'' 3 ''NORMAL'']"
  by (simp add: nodes_of_def example_gate_db_def example_stored_node_def)

lemma example_gate_edges: "hard_edges_of (relations_of example_gate_db HARNESS_REPOSITORY 1) =
    [(''issue:1'', ''issue:2''), (''issue:2'', ''issue:3'')]"
  by (simp add: relations_of_def hard_edges_of_def example_gate_db_def)

theorem transition_needs_ready_graph_witness:
  "\<exists>c r. current_join example_gate_db HARNESS_REPOSITORY = Some (c, r) \<and> gp_health c = ''CURRENT''"
proof (rule example_gate_join)
  fix c r
  assume c: "current_join example_gate_db HARNESS_REPOSITORY = Some (c, r)" "gp_version c = 1"
  have "validate_portfolio_transition example_gate_db HARNESS_REPOSITORY 1 ''ACTIVE'' ''ACTIVE'' None = Inr ()"
    by code_simp
  from transition_needs_ready_graph [OF this example_gate_installed c(1),
      of "(example_stored_node ''issue:1'' 1 ''INTENTIONAL'')\<lparr>gn_role := ''SERIAL_GATE''\<rparr>"] c
  show ?thesis by (simp add: example_gate_nodes) (simp add: example_stored_node_def EXECUTION_STATUSES_def)
qed

theorem serial_gate_not_parked_witness:
  "terminal_issue example_gate_db HARNESS_REPOSITORY 3 = Inr True"
proof (rule example_gate_join)
  fix c r
  assume c: "current_join example_gate_db HARNESS_REPOSITORY = Some (c, r)" "gp_version c = 1"
  let ?n = "(example_stored_node ''issue:1'' 1 ''INTENTIONAL'')\<lparr>gn_role := ''SERIAL_GATE''\<rparr>"
  let ?p = "example_stored_node ''issue:3'' 3 ''NORMAL''"
  have v: "validate_portfolio_transition example_gate_db HARNESS_REPOSITORY 1 ''MONITOR'' ''NONE'' None = Inr ()"
    by code_simp
  have "(gn_node_key ?n, gn_node_key ?p) \<in> (set (hard_edges_of (relations_of example_gate_db HARNESS_REPOSITORY (gp_version c))))\<^sup>+"
    unfolding c(2) example_gate_edges
    by (rule trancl_into_trancl [of _ "''issue:2''"]) (auto simp: example_stored_node_def)
  moreover have "?n \<in> set (nodes_of example_gate_db HARNESS_REPOSITORY (gp_version c))"
    "?p \<in> set (nodes_of example_gate_db HARNESS_REPOSITORY (gp_version c))"
    by (simp_all add: c(2) example_gate_nodes)
  moreover have "gn_issue_number ?n = 1" "gn_role ?n = ''SERIAL_GATE''" "gn_issue_number ?p = 3"
    by (simp_all add: example_stored_node_def)
  moreover have "parks ''MONITOR'' ''NONE''" by (simp add: parks_def STABLE_PARK_STATUSES_def)
  ultimately show ?thesis
    using serial_gate_not_parked [OF v example_gate_installed c(1), of ?n ?p] by simp
qed

end
