(* ===== verification/Item_Status.thy ===== *)
theory Item_Status
  imports Capacity Transition_Guard
begin

section \<open>Issue status transitions\<close>

text \<open>
  \<open>_set_issue_status_locked\<close> of coordination_store.py and the entry points around it: the
  change of the status of a coordination item. A gateway is the capability of the caller; an ordinary
  caller has none (\<open>None\<close>). The operation validates the request, checks it against the item, the
  source, the portfolio graph, the capacity policy and the leases, writes the item under the next
  version, opens or closes the terminal watch of its execution, and leaves a wake when capacity is
  released.

  The body is cut where the code changes from checking to writing: \<open>validate_item_request\<close>,
  \<open>check_item\<close> (everything before the capacity policy is read), \<open>check_capacity\<close>, \<open>check_lease\<close>,
  \<open>write_item\<close>, \<open>watch_item\<close>, \<open>release_item\<close> and the log entry, in that order.
\<close>

datatype gateway = READY_FINALIZATION_GATEWAY | ADMISSION_ACTIVATION_GATEWAY | TRANSFER_ACTIVATION_GATEWAY
  | TERMINAL_FINALIZATION_GATEWAY | CLAIMED_NO_DELIVERY_PARK_GATEWAY | TEST_FIXTURE_GATEWAY

record item_request =
  iq_repository :: string
  iq_issue_number :: int
  iq_status :: string
  iq_allocation_class :: string
  iq_generation :: int
  iq_accountable_session_id :: "string option"
  iq_lease_manifest_sha256 :: "string option"
  iq_development_units :: int
  iq_shared_units :: int
  iq_sre_units :: int
  iq_expected_source_sha256 :: string
  iq_expected_version :: int

definition reserves :: "string \<Rightarrow> bool" where
  "reserves allocation_class \<longleftrightarrow> allocation_class = ''ACTIVE'' \<or> allocation_class = ''RETAINED''"

definition current_of :: "db \<Rightarrow> item_request \<Rightarrow> item_row option" where
  "current_of d q = item_of d (iq_repository q) (iq_issue_number q)"

definition currently_reserved :: "db \<Rightarrow> item_request \<Rightarrow> bool" where
  "currently_reserved d q = (case current_of d q of None \<Rightarrow> False | Some i \<Rightarrow> reserves (it_allocation_class i))"

definition other_reserved :: "db \<Rightarrow> item_request \<Rightarrow> item_row list" where
  "other_reserved d q =
     filter (\<lambda>i. it_repository i = iq_repository q \<and> it_issue_number i \<noteq> iq_issue_number q \<and>
       reserves (it_allocation_class i)) (coordination_items d)"

definition executes :: "item_request \<Rightarrow> bool" where
  "executes q \<longleftrightarrow> iq_allocation_class q = ''ACTIVE'' \<and> iq_status q \<in> set ACTIVE_EXECUTION_STATUSES"

subsection \<open>The checks\<close>

definition validate_item_request :: "catalog \<Rightarrow> db \<Rightarrow> item_request \<Rightarrow> unit res" where
  "validate_item_request catalog d q =
     bind_res (store_validate_repository (iq_repository q)) (\<lambda>_.
     bind_res (validate_sha256 (iq_expected_source_sha256 q)) (\<lambda>_.
     guarded [(iq_status q \<notin> set ITEM_STATUSES \<or> iq_allocation_class q \<notin> set ALLOCATION_CLASSES \<or>
               iq_issue_number q \<le> 0 \<or> iq_generation q < 0, CoordinationError ''INVALID_ITEM_STATUS'')]
     (bind_res (case iq_accountable_session_id q of None \<Rightarrow> Inr None
                | Some s \<Rightarrow> bind_res (canonicalize_coordination_identity catalog d s) (\<lambda>c. Inr (Some c))) (\<lambda>session.
      bind_res (case iq_lease_manifest_sha256 q of None \<Rightarrow> Inr () | Some l \<Rightarrow> validate_sha256 l) (\<lambda>_.
      guarded [(iq_repository q = HARNESS_REPOSITORY \<and> iq_allocation_class q = ''NONE'' \<and>
                (session \<noteq> None \<or> iq_lease_manifest_sha256 q \<noteq> None),
                CoordinationError ''HARNESS_ZERO_WIP_LINEAGE_INVALID''),
               (iq_development_units q < 0 \<or> iq_shared_units q < 0 \<or> iq_sre_units q < 0 \<or>
                iq_expected_version q < 0, CoordinationError ''INVALID_ITEM_STATUS''),
               (reserves (iq_allocation_class q) \<and> iq_development_units q = 0 \<and> iq_shared_units q = 0 \<and>
                iq_sre_units q = 0, CoordinationError ''INVALID_CAPACITY_ALLOCATION'')]
        (Inr ()))))))"

definition gc_inflight :: "db \<Rightarrow> item_request \<Rightarrow> bool" where
  "gc_inflight d q \<longleftrightarrow> (\<exists>a \<in> set (coordination_artifacts d).
     ar_repository a = iq_repository q \<and> ar_issue_number a = iq_issue_number q \<and>
     (ar_state a = ''MOVE_RESERVED'' \<or> ar_state a = ''PURGE_RESERVED''))"

text \<open>The checks on the caller's capability, from the harness repository's to \<open>creating_execution\<close>.\<close>

definition harness_guards :: "gateway option \<Rightarrow> db \<Rightarrow> item_request \<Rightarrow> (bool \<times> error) list" where
  "harness_guards gateway d q =
     (if iq_repository q = HARNESS_REPOSITORY then
        [(reserves (iq_allocation_class q) \<and>
            (iq_development_units q, iq_shared_units q, iq_sre_units q) \<noteq> (0, 1, 0),
          CoordinationError ''HARNESS_SOURCE_CAPACITY_INVALID''),
         (gateway = Some TRANSFER_ACTIVATION_GATEWAY, CoordinationError ''HARNESS_SOURCE_TRANSFER_FORBIDDEN''),
         (gateway = None \<and> (currently_reserved d q \<or> reserves (iq_allocation_class q)),
          CoordinationError ''HARNESS_RESERVATION_GATEWAY_REQUIRED'')]
      else [])"

definition releases_or_finishes :: "db \<Rightarrow> item_request \<Rightarrow> bool" where
  "releases_or_finishes d q \<longleftrightarrow>
     currently_reserved d q \<and> (iq_allocation_class q = ''NONE'' \<or> iq_status q = ''DONE'')"

definition creating_execution :: "db \<Rightarrow> item_request \<Rightarrow> bool" where
  "creating_execution d q \<longleftrightarrow> iq_status q \<in> set ACTIVE_EXECUTION_STATUSES \<and>
     (case current_of d q of None \<Rightarrow> True
      | Some i \<Rightarrow> it_status i \<notin> set ACTIVE_EXECUTION_STATUSES \<or> it_allocation_class i \<noteq> ''ACTIVE'')"

definition creating_ready :: "db \<Rightarrow> item_request \<Rightarrow> bool" where
  "creating_ready d q \<longleftrightarrow> iq_status q = ''READY'' \<and>
     (case current_of d q of None \<Rightarrow> True | Some i \<Rightarrow> it_status i \<noteq> ''READY'')"

definition gateway_guards :: "gateway option \<Rightarrow> db \<Rightarrow> item_request \<Rightarrow> (bool \<times> error) list" where
  "gateway_guards gateway d q =
     [(exclusive_writer (iq_repository q) \<and> reserves (iq_allocation_class q) \<and> other_reserved d q \<noteq> [],
       CoordinationError ''ADMISSION_REPOSITORY_WRITER_MUTEX''),
      (releases_or_finishes d q \<and>
       gateway \<notin> {Some TERMINAL_FINALIZATION_GATEWAY, Some CLAIMED_NO_DELIVERY_PARK_GATEWAY, Some TEST_FIXTURE_GATEWAY} \<and>
       \<not> (gateway = Some TRANSFER_ACTIVATION_GATEWAY \<and> iq_status q = ''MONITOR'' \<and> iq_allocation_class q = ''NONE''),
       CoordinationError ''TERMINAL_FINALIZATION_REQUIRED''),
      (iq_status q = ''PUBLICATION_PENDING'' \<and>
       gateway \<notin> {Some TERMINAL_FINALIZATION_GATEWAY, Some TEST_FIXTURE_GATEWAY},
       CoordinationError ''TERMINAL_CLOSEOUT_PACKET_REQUIRED''),
      (creating_execution d q \<and>
       gateway \<notin> {Some ADMISSION_ACTIVATION_GATEWAY, Some TRANSFER_ACTIVATION_GATEWAY, Some TEST_FIXTURE_GATEWAY},
       CoordinationError ''ADMISSION_ACTIVATION_REQUIRED'')]"

definition check_generation :: "db \<Rightarrow> item_request \<Rightarrow> unit res" where
  "check_generation d q =
     (case current_of d q of
        None \<Rightarrow> Inr ()
      | Some i \<Rightarrow>
          guarded [(iq_generation q < it_generation i, CoordinationError ''GENERATION_REGRESSION'')]
          (if iq_generation q = it_generation i then
             guarded [(it_status i = ''HOLD'' \<and> iq_status q \<noteq> ''HOLD'', CoordinationError ''NEW_GENERATION_REQUIRED'')]
             (require_some KeyError (STATUS_RANK (iq_status q)) (\<lambda>new.
              require_some KeyError (STATUS_RANK (it_status i)) (\<lambda>old.
              guarded [(new < old, CoordinationError ''STATUS_REGRESSION'')] (Inr ()))))
           else Inr ()))"

definition check_item :: "gateway option \<Rightarrow> db \<Rightarrow> item_request \<Rightarrow> unit res" where
  "check_item gateway d q =
     guarded [(gc_inflight d q, CoordinationError ''ARTIFACT_GC_INFLIGHT'')]
     (bind_res (current_snapshot d (iq_repository q) ''issue'' (iq_issue_number q)) (\<lambda>source.
      guarded ([(source_drifts (iq_expected_source_sha256 q) source, CoordinationError ''SOURCE_SNAPSHOT_DRIFT''),
                ((case current_of d q of None \<Rightarrow> 0 | Some i \<Rightarrow> it_version i) \<noteq> iq_expected_version q,
                 CoordinationError ''ITEM_VERSION_CONFLICT'')] @
               harness_guards gateway d q @ gateway_guards gateway d q)
      (bind_res (check_generation d q) (\<lambda>_.
       bind_res (graph_as_coordination (validate_portfolio_transition d (iq_repository q) (iq_issue_number q)
                   (iq_status q) (iq_allocation_class q) None)) (\<lambda>_.
       guarded [(creating_ready d q \<and> gateway \<noteq> Some READY_FINALIZATION_GATEWAY,
                 CoordinationError ''READY_FINALIZATION_REQUIRED'')] (Inr ()))))))"

definition proposed_units :: "db \<Rightarrow> item_request \<Rightarrow> int \<times> int \<times> int" where
  "proposed_units d q =
     (let none = (iq_allocation_class q = ''NONE''); rows = other_reserved d q in
      (sum_list (map it_development_units rows) + (if none then 0 else iq_development_units q),
       sum_list (map it_shared_units rows) + (if none then 0 else iq_shared_units q),
       sum_list (map it_sre_units rows) + reserved_hosted_sre_units d (iq_repository q) +
         (if none then 0 else iq_sre_units q)))"

definition check_capacity :: "db \<Rightarrow> item_request \<Rightarrow> string \<Rightarrow> db res" where
  "check_capacity d q now =
     bind_res (ensure_capacity_policy d (iq_repository q) now) (\<lambda>(d1, policy).
       guarded [(fst (proposed_units d q) > cp_development_limit policy \<or>
                 fst (snd (proposed_units d q)) > cp_shared_limit policy \<or>
                 snd (snd (proposed_units d q)) > cp_sre_limit policy, CoordinationError ''CAPACITY_EXCEEDED'')]
         (Inr d1))"

definition check_lease :: "db \<Rightarrow> item_request \<Rightarrow> unit res" where
  "check_lease d q =
     guarded [(reserves (iq_allocation_class q) \<and> iq_lease_manifest_sha256 q \<noteq> None \<and>
               (\<exists>i \<in> set (other_reserved d q). it_lease_manifest_sha256 i = iq_lease_manifest_sha256 q),
               CoordinationError ''LEASE_COLLISION'')] (Inr ())"

subsection \<open>The writes\<close>

definition item_row_of :: "item_request \<Rightarrow> string \<Rightarrow> item_row" where
  "item_row_of q now =
     \<lparr>it_repository = iq_repository q, it_issue_number = iq_issue_number q, it_status = iq_status q,
      it_allocation_class = iq_allocation_class q, it_generation = iq_generation q,
      it_accountable_session_id = iq_accountable_session_id q,
      it_lease_manifest_sha256 = iq_lease_manifest_sha256 q,
      it_development_units = iq_development_units q, it_shared_units = iq_shared_units q,
      it_sre_units = iq_sre_units q, it_source_payload_sha256 = iq_expected_source_sha256 q,
      it_version = iq_expected_version q + 1, it_updated_at = now\<rparr>"

definition is_item :: "string \<Rightarrow> int \<Rightarrow> item_row \<Rightarrow> bool" where
  "is_item repository issue_number i \<longleftrightarrow> it_repository i = repository \<and> it_issue_number i = issue_number"

text \<open>An upsert fires the trigger \<open>coordination_pre_push_fence_item_update\<close> only on a conflict.\<close>

definition write_item :: "db \<Rightarrow> item_request \<Rightarrow> string \<Rightarrow> db res" where
  "write_item d q now =
     guarded [(current_of d q \<noteq> None \<and> publication_reserved d (iq_repository q) (iq_issue_number q),
               IntegrityError ''PREPUSH_PUBLICATION_RESERVED'')]
       (Inr (d\<lparr>coordination_items := upsert (is_item (iq_repository q) (iq_issue_number q))
          (item_row_of q now) (\<lambda>_. item_row_of q now) (coordination_items d)\<rparr>))"

definition is_watch :: "string \<Rightarrow> int \<Rightarrow> terminal_watch_row \<Rightarrow> bool" where
  "is_watch repository issue_number w \<longleftrightarrow> tw_repository w = repository \<and> tw_issue_number w = issue_number"

definition open_watch :: "terminal_watch_row \<Rightarrow> bool" where
  "open_watch w \<longleftrightarrow> tw_state w = ''PENDING_CLAIM'' \<or> tw_state w = ''ACTIVE''"

definition log_superseded :: "item_request \<Rightarrow> nat \<Rightarrow> string \<Rightarrow> db \<Rightarrow> db" where
  "log_superseded q n now d =
     append_event ''TERMINAL_WATCH_SUPERSEDED''
       (iq_repository q @ '':issue:'' @ str_of_int (iq_issue_number q) @ '':generation:'' @ str_of_int (iq_generation q))
       (PDict [(''completed_watch_count'', PInt (int n)), (''item_version'', PInt (iq_expected_version q + 1))]) now d"

definition superseded :: "item_request \<Rightarrow> terminal_watch_row \<Rightarrow> bool" where
  "superseded q w \<longleftrightarrow> is_watch (iq_repository q) (iq_issue_number q) w \<and>
     tw_generation w < iq_generation q \<and> tw_state w = ''ACTIVE''"

definition supersede_watches :: "item_request \<Rightarrow> string \<Rightarrow> db \<Rightarrow> db" where
  "supersede_watches q now d =
     (let hit = superseded q; n = length (filter hit (coordination_terminal_watches d));
          d1 = d\<lparr>coordination_terminal_watches := update_where hit
            (\<lambda>w. w\<lparr>tw_state := ''COMPLETE'', tw_process_id := None, tw_updated_at := now,
                   tw_last_error := Some ''SUPERSEDED_BY_NEW_GENERATION''\<rparr>) (coordination_terminal_watches d)\<rparr>
      in if n = 0 then d1 else log_superseded q n now d1)"

definition new_watch :: "item_request \<Rightarrow> string \<Rightarrow> string \<Rightarrow> bool \<Rightarrow> string \<Rightarrow> string \<Rightarrow> terminal_watch_row" where
  "new_watch q session lease pending next_wake now =
     \<lparr>tw_watch_key = terminal_watch_key (iq_repository q) (iq_issue_number q) (iq_generation q),
      tw_repository = iq_repository q, tw_issue_number = iq_issue_number q, tw_generation = iq_generation q,
      tw_accountable_session_id = session, tw_lease_manifest_sha256 = lease,
      tw_state = (if pending then ''PENDING_CLAIM'' else ''ACTIVE''), tw_admission_message_id = None,
      tw_admission_payload_sha256 = None, tw_claim_attempt_id = None, tw_attempts = 0, tw_process_id = None,
      tw_target_progress_sha256 = None, tw_last_heartbeat_at = now, tw_next_wake_at = next_wake,
      tw_updated_at = now, tw_last_error = None\<rparr>"

definition log_watch_opened :: "item_request \<Rightarrow> string \<Rightarrow> string \<Rightarrow> db \<Rightarrow> db" where
  "log_watch_opened q session now d =
     append_event ''TERMINAL_WATCH_OPENED''
       (terminal_watch_key (iq_repository q) (iq_issue_number q) (iq_generation q))
       (PDict [(''item_version'', PInt (iq_expected_version q + 1)), (''accountable_session_id'', PStr session)]) now d"

definition watch_of :: "db \<Rightarrow> string \<Rightarrow> int \<Rightarrow> int \<Rightarrow> terminal_watch_row option" where
  "watch_of d repository issue_number generation =
     List.find (\<lambda>w. is_watch repository issue_number w \<and> tw_generation w = generation)
       (coordination_terminal_watches d)"

text \<open>
  \<open>INSERT INTO coordination_terminal_watches\<close>: the session column is NOT NULL and the key unique.
\<close>

definition insert_watch :: "item_request \<Rightarrow> string \<Rightarrow> bool \<Rightarrow> string \<Rightarrow> db \<Rightarrow> db res" where
  "insert_watch q lease pending now d =
     bind_res (timestamp_after now 60) (\<lambda>next_wake.
     require_some (IntegrityError ''NOT NULL'') (iq_accountable_session_id q) (\<lambda>session.
     guarded [(terminal_watch_key (iq_repository q) (iq_issue_number q) (iq_generation q) \<in>
                 tw_watch_key ` set (coordination_terminal_watches d), IntegrityError ''UNIQUE'')]
       (Inr (log_watch_opened q session now (d\<lparr>coordination_terminal_watches :=
          coordination_terminal_watches d @ [new_watch q session lease pending next_wake now]\<rparr>)))))"

definition open_item_watch ::
  "catalog \<Rightarrow> gateway option \<Rightarrow> bool \<Rightarrow> db \<Rightarrow> item_row option \<Rightarrow> item_request \<Rightarrow> string \<Rightarrow> db res" where
  "open_item_watch catalog gateway pending_claim d current q now =
     bind_res (identity_role catalog d (case iq_accountable_session_id q of None \<Rightarrow> [] | Some s \<Rightarrow> s)) (\<lambda>role.
     guarded [(role \<notin> {Some ''development'', Some ''sre''} \<and>
               \<not> (executor_role_endpoint_current d = [] \<and>
                  (case iq_accountable_session_id q of None \<Rightarrow> False | Some s \<Rightarrow> SESSION s)),
               CoordinationError ''MESSAGE_ROLE_MISMATCH'')]
     (require_some (CoordinationError ''INVALID_TERMINAL_WATCH_LEASE'') (iq_lease_manifest_sha256 q) (\<lambda>lease.
      let d1 = (case current of None \<Rightarrow> d
                | Some i \<Rightarrow> if iq_generation q > it_generation i then supersede_watches q now d else d)
      in case watch_of d1 (iq_repository q) (iq_issue_number q) (iq_generation q) of
           None \<Rightarrow> insert_watch q lease
             (gateway \<in> {Some ADMISSION_ACTIVATION_GATEWAY, Some TRANSFER_ACTIVATION_GATEWAY} \<and> pending_claim) now d1
         | Some w \<Rightarrow>
             guarded [(Some (tw_accountable_session_id w) \<noteq> iq_accountable_session_id q \<or>
                       tw_lease_manifest_sha256 w \<noteq> lease, CoordinationError ''TERMINAL_WATCH_LINEAGE_MISMATCH''),
                      (\<not> open_watch w, CoordinationError ''TERMINAL_WATCH_STATE_CONFLICT'')]
               (Inr d1))))"

definition log_watch_completed :: "item_request \<Rightarrow> string \<Rightarrow> db \<Rightarrow> db" where
  "log_watch_completed q now d =
     append_event ''TERMINAL_WATCH_COMPLETED'' (iq_repository q @ '':issue:'' @ str_of_int (iq_issue_number q))
       (PDict [(''status'', PStr (iq_status q)), (''allocation_class'', PStr (iq_allocation_class q)),
               (''item_version'', PInt (iq_expected_version q + 1))]) now d"

definition close_item_watches :: "item_request \<Rightarrow> string \<Rightarrow> db \<Rightarrow> db" where
  "close_item_watches q now d =
     (let hit = (\<lambda>w. is_watch (iq_repository q) (iq_issue_number q) w \<and> open_watch w);
          d1 = d\<lparr>coordination_terminal_watches := update_where hit
            (\<lambda>w. w\<lparr>tw_state := ''COMPLETE'', tw_process_id := None, tw_updated_at := now, tw_last_error := None\<rparr>)
            (coordination_terminal_watches d)\<rparr>
      in if list_ex hit (coordination_terminal_watches d) then log_watch_completed q now d1 else d1)"

definition watch_item ::
  "catalog \<Rightarrow> gateway option \<Rightarrow> bool \<Rightarrow> db \<Rightarrow> item_row option \<Rightarrow> item_request \<Rightarrow> string \<Rightarrow> db res" where
  "watch_item catalog gateway pending_claim d current q now =
     (if executes q then open_item_watch catalog gateway pending_claim d current q now
      else Inr (close_item_watches q now d))"

definition item_result :: "item_request \<Rightarrow> int option \<Rightarrow> pydict" where
  "item_result q event_id =
     [(''repository'', PStr (iq_repository q)), (''issue_number'', PInt (iq_issue_number q)),
      (''status'', PStr (iq_status q)), (''allocation_class'', PStr (iq_allocation_class q)),
      (''generation'', PInt (iq_generation q)), (''version'', PInt (iq_expected_version q + 1)),
      (''source_payload_sha256'', PStr (iq_expected_source_sha256 q))] @
     (case event_id of None \<Rightarrow> [] | Some i \<Rightarrow> [(''portfolio_dirty_event_id'', PInt i)])"

definition release_item :: "db \<Rightarrow> item_row option \<Rightarrow> item_request \<Rightarrow> string \<Rightarrow> (db \<times> int option) res" where
  "release_item d current q now =
     (case current of
        None \<Rightarrow> Inr (d, None)
      | Some i \<Rightarrow>
          if reserves (it_allocation_class i) \<and> iq_allocation_class q = ''NONE''
          then bind_res (enqueue_portfolio_dirty_event d (iq_repository q) (iq_issue_number q)
                 (iq_expected_version q + 1) (iq_expected_source_sha256 q) (it_allocation_class i)
                 (iq_status q) (iq_generation q) now) (\<lambda>(d', event_id). Inr (d', Some event_id))
          else Inr (d, None))"

definition log_status_change :: "item_request \<Rightarrow> pydict \<Rightarrow> string \<Rightarrow> db \<Rightarrow> db" where
  "log_status_change q result now d =
     append_event ''ISSUE_STATUS_CHANGED'' (iq_repository q @ '':issue:'' @ str_of_int (iq_issue_number q))
       (PDict result) now d"

subsection \<open>The operation and its entry points\<close>

definition change_item ::
  "catalog \<Rightarrow> gateway option \<Rightarrow> bool \<Rightarrow> db \<Rightarrow> item_request \<Rightarrow> string \<Rightarrow> (db \<times> pydict) res" where
  "change_item catalog gateway pending_claim d q now =
     bind_res (check_item gateway d q) (\<lambda>_.
     bind_res (check_capacity d q now) (\<lambda>d1.
     bind_res (check_lease d1 q) (\<lambda>_.
     bind_res (write_item d1 q now) (\<lambda>d2.
     bind_res (watch_item catalog gateway pending_claim d2 (current_of d q) q now) (\<lambda>d3.
     bind_res (release_item d3 (current_of d q) q now) (\<lambda>(d4, event_id).
     Inr (log_status_change q (item_result q event_id) now d4, item_result q event_id)))))))"

definition set_issue_status_locked ::
  "catalog \<Rightarrow> bool \<Rightarrow> gateway option \<Rightarrow> bool \<Rightarrow> db \<Rightarrow> item_request \<Rightarrow> string \<Rightarrow> (db \<times> pydict) res" where
  "set_issue_status_locked catalog in_own_transaction gateway pending_claim d q now =
     bind_res (validate_item_request catalog d q) (\<lambda>_.
       if in_own_transaction then transaction d (change_item catalog gateway pending_claim d q now)
       else change_item catalog gateway pending_claim d q now)"

definition set_issue_status :: "catalog \<Rightarrow> bool \<Rightarrow> db \<Rightarrow> item_request \<Rightarrow> string \<Rightarrow> (db \<times> pydict) res" where
  "set_issue_status catalog in_own_transaction d q now =
     set_issue_status_locked catalog in_own_transaction None False d q now"

definition set_issue_status_from_admission ::
  "catalog \<Rightarrow> bool \<Rightarrow> db \<Rightarrow> item_request \<Rightarrow> string \<Rightarrow> (db \<times> pydict) res" where
  "set_issue_status_from_admission catalog pending_claim d q now =
     guarded [(\<not> in_transaction d, CoordinationError ''COORDINATOR_TRANSACTION_REQUIRED'')]
       (set_issue_status_locked catalog False (Some ADMISSION_ACTIVATION_GATEWAY) pending_claim d q now)"

definition set_issue_status_from_transfer ::
  "catalog \<Rightarrow> bool \<Rightarrow> db \<Rightarrow> item_request \<Rightarrow> string \<Rightarrow> (db \<times> pydict) res" where
  "set_issue_status_from_transfer catalog pending_claim d q now =
     guarded [(\<not> in_transaction d, CoordinationError ''COORDINATOR_TRANSACTION_REQUIRED''),
              (\<not> ((iq_status q = ''MONITOR'' \<and> iq_allocation_class q = ''NONE'') \<or>
                  (iq_status q \<in> {''ACTIVE'', ''ACTIVE_FENCED''} \<and> iq_allocation_class q = ''ACTIVE'')),
               CoordinationError ''TRANSFER_ITEM_TRANSITION_INVALID'')]
       (set_issue_status_locked catalog False (Some TRANSFER_ACTIVATION_GATEWAY) pending_claim d q now)"

text \<open>
  \<open>apply_issue_plan\<close>. An entry with the keys and types the code insists on is an \<open>item_request\<close>.
\<close>

definition item_key :: "item_request \<Rightarrow> string \<times> int" where
  "item_key q = (iq_repository q, iq_issue_number q)"

definition log_plan_applied :: "item_request list \<Rightarrow> string \<Rightarrow> db \<Rightarrow> db" where
  "log_plan_applied entries now d =
     append_event ''ISSUE_PLAN_APPLIED'' ''portfolio-plan''
       (PDict [(''count'', PInt (int (length entries))),
         (''items'', PList (map (\<lambda>q. PDict [(''repository'', PStr (iq_repository q)),
            (''issue_number'', PInt (iq_issue_number q)), (''version'', PInt (iq_expected_version q + 1))]) entries))])
       now d"

definition apply_entry :: "catalog \<Rightarrow> string \<Rightarrow> item_request \<Rightarrow> db \<times> pydict list \<Rightarrow> (db \<times> pydict list) res" where
  "apply_entry catalog now q s =
     bind_res (set_issue_status catalog False (fst s) q now) (\<lambda>(d', result). Inr (d', snd s @ [result]))"

definition apply_issue_plan :: "catalog \<Rightarrow> db \<Rightarrow> item_request list \<Rightarrow> string \<Rightarrow> (db \<times> pydict list) res" where
  "apply_issue_plan catalog d entries now =
     guarded [(entries = [] \<or> length entries > 100, CoordinationError ''INVALID_ISSUE_PLAN''),
              (\<not> distinct (map item_key entries), CoordinationError ''DUPLICATE_ISSUE_PLAN_ITEM'')]
     (transaction d
       (bind_res (fold_res (apply_entry catalog now) entries (d, [])) (\<lambda>(d', results).
          Inr (log_plan_applied entries now d', results))))"

end
