(* ===== verification/Item_Invariant.thy ===== *)
theory Item_Invariant
  imports Item_Status
begin

section \<open>What status transitions keep\<close>

text \<open>
  The invariant of the item table and the guarantees of \<open>_set_issue_status_locked\<close>: capacity, the
  writer mutex and leases are respected after every committed transition, versions and generations
  only grow, an executing item is watched, and a release leaves a wake.
\<close>

subsection \<open>One row per key\<close>

definition item_pk :: "item_row \<Rightarrow> string \<times> int" where
  "item_pk i = (it_repository i, it_issue_number i)"

definition items_wf :: "db \<Rightarrow> bool" where
  "items_wf d \<longleftrightarrow> distinct (map item_pk (coordination_items d))"

lemma is_item_pk: "is_item r n i \<longleftrightarrow> item_pk i = (r, n)"
  by (simp add: is_item_def item_pk_def)

lemma mset_upsert:
  assumes "distinct (map key rows)" and "\<And>r. p r \<longleftrightarrow> key r = k"
  shows "mset (upsert p new (\<lambda>_. new) rows) = add_mset new (mset (filter (\<lambda>r. \<not> p r) rows))"
  using assms(1)
proof (induction rows)
  case Nil
  then show ?case by (simp add: upsert_def)
next
  case (Cons r rows)
  show ?case
  proof (cases "p r")
    case True
    then have "\<not> p s" if "s \<in> set rows" for s
      using Cons.prems that assms(2) [of r] assms(2) [of s] by (metis distinct.simps(2) image_eqI image_set list.simps(9))
    then have "filter (\<lambda>r. \<not> p r) rows = rows" "update_where p (\<lambda>_. new) rows = rows"
      by (auto simp: filter_id_conv update_where_id)
    with True show ?thesis by (simp add: upsert_def update_where_def)
  next
    case False
    then have "upsert p new (\<lambda>_. new) (r # rows) = r # upsert p new (\<lambda>_. new) rows"
      by (simp add: upsert_def update_where_def)
    with False Cons show ?thesis by simp
  qed
qed

lemma distinct_replace:
  assumes "distinct (map key rows)" and "\<And>r. p r \<longleftrightarrow> key r = k" and "key new = k"
  shows "distinct (map key (upsert p new (\<lambda>_. new) rows))"
proof -
  have "mset (map key (upsert p new (\<lambda>_. new) rows)) = mset (map key (new # filter (\<lambda>r. \<not> p r) rows))"
    by (simp only: mset_map mset_upsert [OF assms(1,2)] mset.simps)
  moreover have "distinct (map key (new # filter (\<lambda>r. \<not> p r) rows))"
    using distinct_map_filter [OF assms(1)] by (auto simp: assms(2,3))
  ultimately show ?thesis by (metis mset_eq_imp_distinct_iff)
qed

lemma filter_upsert:
  assumes "distinct (map key rows)" and "\<And>r. p r \<longleftrightarrow> key r = k"
  shows "mset (filter Q (upsert p new (\<lambda>_. new) rows)) =
    (if Q new then {#new#} else {#}) + mset (filter (\<lambda>r. Q r \<and> \<not> p r) rows)"
proof -
  have "mset (filter Q (upsert p new (\<lambda>_. new) rows)) =
      filter_mset Q (add_mset new (mset (filter (\<lambda>r. \<not> p r) rows)))"
    by (simp only: mset_filter mset_upsert [OF assms])
  then show ?thesis by (simp add: mset_filter [symmetric] filter_filter conj_commute del: mset_filter)
qed

subsection \<open>The stages of a transition\<close>

lemma change_item_stages:
  assumes "change_item catalog g pend d q now = Inr (d', r)"
  obtains d1 d2 d3 d4 ev where "check_item g d q = Inr ()" "check_capacity d q now = Inr d1"
    "check_lease d1 q = Inr ()" "write_item d1 q now = Inr d2"
    "watch_item catalog g pend d2 (current_of d q) q now = Inr d3"
    "release_item d3 (current_of d q) q now = Inr (d4, ev)"
    "d' = log_status_change q (item_result q ev) now d4" "r = item_result q ev"
  using assms by (auto simp: change_item_def guard_simps)

definition without_watches :: "db \<Rightarrow> db" where
  "without_watches d = without_wakes (d\<lparr>coordination_terminal_watches := []\<rparr>)"

lemma without_watches_update [simp]:
  "without_watches (d\<lparr>coordination_terminal_watches := ws\<rparr>) = without_watches d"
  by (simp add: without_watches_def)

lemma without_watches_append_event [simp]:
  "without_watches (append_event t k p now d) = without_watches d"
  by (simp add: without_watches_def without_wakes_def append_event_def)

lemma without_watches_fields:
  assumes "without_watches d' = without_watches d"
  shows "coordination_items d' = coordination_items d" "hosted_operations d' = hosted_operations d"
    "sqlite_master d' = sqlite_master d"
    "coordination_capacity_policies d' = coordination_capacity_policies d"
    "coordination_capacity_current d' = coordination_capacity_current d"
    "in_transaction d' = in_transaction d"
  using assms by (cases d; cases d'; simp add: without_watches_def without_wakes_def)+

lemma supersede_watches_frame: "without_watches (supersede_watches q now d) = without_watches d"
  by (simp add: supersede_watches_def Let_def log_superseded_def)

lemma close_item_watches_frame: "without_watches (close_item_watches q now d) = without_watches d"
  by (simp add: close_item_watches_def Let_def log_watch_completed_def)

lemma insert_watch_Inr:
  assumes "insert_watch q lease pend now d = Inr d'"
  obtains session next_wake where "iq_accountable_session_id q = Some session"
    "coordination_terminal_watches d' =
       coordination_terminal_watches d @ [new_watch q session lease pend next_wake now]"
    "without_watches d' = without_watches d"
proof -
  from assms obtain session next_wake where s: "iq_accountable_session_id q = Some session"
    "d' = log_watch_opened q session now (d\<lparr>coordination_terminal_watches :=
       coordination_terminal_watches d @ [new_watch q session lease pend next_wake now]\<rparr>)"
    by (auto simp: insert_watch_def guard_simps)
  then show thesis by (intro that [of session next_wake]) (simp_all add: log_watch_opened_def)
qed

lemma open_item_watch_Inr:
  fixes now :: string
  assumes "open_item_watch catalog g pend d current q now = Inr d'"
  obtains (opened) d1 lease p where
      "d1 = (case current of None \<Rightarrow> d
        | Some i \<Rightarrow> if iq_generation q > it_generation i then supersede_watches q now d else d)"
      "iq_lease_manifest_sha256 q = Some lease"
      "watch_of d1 (iq_repository q) (iq_issue_number q) (iq_generation q) = None"
      "insert_watch q lease p now d1 = Inr d'"
    | (kept) w where
      "d' = (case current of None \<Rightarrow> d
        | Some i \<Rightarrow> if iq_generation q > it_generation i then supersede_watches q now d else d)"
      "watch_of d' (iq_repository q) (iq_issue_number q) (iq_generation q) = Some w"
      "iq_accountable_session_id q = Some (tw_accountable_session_id w)"
      "iq_lease_manifest_sha256 q = Some (tw_lease_manifest_sha256 w)" "open_watch w"
proof -
  define d1 where "d1 = (case current of None \<Rightarrow> d
    | Some i \<Rightarrow> if iq_generation q > it_generation i then supersede_watches q now d else d)"
  define pp where "pp = (g \<in> {Some ADMISSION_ACTIVATION_GATEWAY, Some TRANSFER_ACTIVATION_GATEWAY} \<and> pend)"
  from assms obtain lease where lease: "iq_lease_manifest_sha256 q = Some lease"
    and r: "(case watch_of d1 (iq_repository q) (iq_issue_number q) (iq_generation q) of
           None \<Rightarrow> insert_watch q lease pp now d1
         | Some w \<Rightarrow>
             guarded [(Some (tw_accountable_session_id w) \<noteq> iq_accountable_session_id q \<or>
                       tw_lease_manifest_sha256 w \<noteq> lease, CoordinationError ''TERMINAL_WATCH_LINEAGE_MISMATCH''),
                      (\<not> open_watch w, CoordinationError ''TERMINAL_WATCH_STATE_CONFLICT'')]
               (Inr d1)) = Inr d'"
    unfolding open_item_watch_def Let_def d1_def [symmetric] pp_def [symmetric] bind_res_Inr guarded_Inr require_some_Inr
    by blast
  show thesis
  proof (cases "watch_of d1 (iq_repository q) (iq_issue_number q) (iq_generation q)")
    case None
    with r have "insert_watch q lease pp now d1 = Inr d'" by simp
    then show thesis using opened [OF d1_def lease None] by blast
  next
    case (Some w)
    with r lease have "d' = d1" "iq_accountable_session_id q = Some (tw_accountable_session_id w)"
      "iq_lease_manifest_sha256 q = Some (tw_lease_manifest_sha256 w)" "open_watch w"
      by (auto simp: guard_simps)
    then show thesis using kept [of w] Some d1_def by simp
  qed
qed

lemma watch_item_frame:
  assumes "watch_item catalog g pend d current q now = Inr d'"
  shows "without_watches d' = without_watches d"
proof (cases "executes q")
  case False
  with assms show ?thesis by (auto simp: watch_item_def close_item_watches_frame)
next
  case True
  have super: "without_watches (case current of None \<Rightarrow> d
      | Some i \<Rightarrow> if iq_generation q > it_generation i then supersede_watches q now d else d) = without_watches d"
    by (simp add: supersede_watches_frame split: option.splits)
  from True assms have "open_item_watch catalog g pend d current q now = Inr d'" by (simp add: watch_item_def)
  then show ?thesis
  proof (cases rule: open_item_watch_Inr)
    case (opened d1 lease p)
    from opened(4) show ?thesis using super opened(1) by (elim insert_watch_Inr) simp
  next
    case (kept w)
    then show ?thesis using super by simp
  qed
qed

lemma release_item_frame:
  assumes "release_item d current q now = Inr (d', ev)"
  shows "without_wakes d' = without_wakes d"
proof (cases ev)
  case None
  with assms show ?thesis
    by (auto simp: release_item_def guard_simps split: option.splits if_splits)
next
  case (Some i)
  with assms obtain row :: item_row where "enqueue_portfolio_dirty_event d (iq_repository q) (iq_issue_number q)
      (iq_expected_version q + 1) (iq_expected_source_sha256 q) (it_allocation_class row)
      (iq_status q) (iq_generation q) now = Inr (d', i)"
    by (auto simp: release_item_def guard_simps split: option.splits if_splits)
  then show ?thesis unfolding enqueue_portfolio_dirty_event_def by (rule enqueue_required_wake_Inr(2))
qed

text \<open>Everything a committed transition leaves of the tables the checks read.\<close>

lemma write_item_Inr:
  "write_item d q now = Inr d' \<Longrightarrow>
     d' = d\<lparr>coordination_items := upsert (is_item (iq_repository q) (iq_issue_number q))
       (item_row_of q now) (\<lambda>_. item_row_of q now) (coordination_items d)\<rparr>"
  by (simp add: write_item_def guard_simps)

lemma check_capacity_Inr:
  assumes "check_capacity d q now = Inr d1"
  obtains policy where "ensure_capacity_policy d (iq_repository q) now = Inr (d1, policy)"
    "within (proposed_units d q) (limits_of policy)"
  using assms by (auto simp: check_capacity_def guard_simps within_def limits_of_def)

lemma change_item_tables:
  fixes now :: string
  assumes "change_item catalog g pend d q now = Inr (d', r)" and "capacity_wf d"
  shows "coordination_items d' = upsert (is_item (iq_repository q) (iq_issue_number q))
      (item_row_of q now) (\<lambda>_. item_row_of q now) (coordination_items d)"
    and "hosted_operations d' = hosted_operations d" and "sqlite_master d' = sqlite_master d"
    and "in_transaction d' = in_transaction d"
    and "capacity_wf d'" and "effective_limits d' = effective_limits d"
    and "within (proposed_units d q) (effective_limits d (iq_repository q))"
    and "check_item g d q = Inr ()" and "check_lease d q = Inr ()"
proof -
  from assms(1) obtain d1 d2 d3 d4 ev where s: "check_item g d q = Inr ()" "check_capacity d q now = Inr d1"
    "check_lease d1 q = Inr ()" "write_item d1 q now = Inr d2"
    "watch_item catalog g pend d2 (current_of d q) q now = Inr d3"
    "release_item d3 (current_of d q) q now = Inr (d4, ev)"
    "d' = log_status_change q (item_result q ev) now d4" by (rule change_item_stages)
  from s(2) obtain policy where p: "ensure_capacity_policy d (iq_repository q) now = Inr (d1, policy)"
    "within (proposed_units d q) (limits_of policy)" by (rule check_capacity_Inr)
  from ensure_capacity_policy_Inr [OF assms(2) p(1)]
  have one: "capacity_wf d1" "current_policy d1 (iq_repository q) = Some policy"
    "effective_limits d1 = effective_limits d" "without_capacity d1 = without_capacity d" by simp_all
  note f1 = without_capacity_fields [OF one(4)]
  note d2 = write_item_Inr [OF s(4)]
  note f3 = without_watches_fields [OF watch_item_frame [OF s(5)]]
  note f4 = without_wakes_fields [OF release_item_frame [OF s(6)]]
  show "coordination_items d' = upsert (is_item (iq_repository q) (iq_issue_number q))
      (item_row_of q now) (\<lambda>_. item_row_of q now) (coordination_items d)"
    by (simp add: s(7) log_status_change_def f4(5) f3(1) d2 f1(1))
  show "hosted_operations d' = hosted_operations d" "sqlite_master d' = sqlite_master d"
    "in_transaction d' = in_transaction d"
    by (simp_all add: s(7) log_status_change_def f4(1,2,13) f3(2,3,6) d2 f1(2-4))
  have tables: "coordination_capacity_policies d' = coordination_capacity_policies d1"
    "coordination_capacity_current d' = coordination_capacity_current d1"
    by (simp_all add: s(7) log_status_change_def f4(6,7) f3(4,5) d2)
  from policy_tables_cong [OF tables] one show "capacity_wf d'" "effective_limits d' = effective_limits d"
    by simp_all
  have "effective_limits d1 (iq_repository q) = limits_of policy" using one(2) by (simp add: effective_limits_def)
  then have "effective_limits d (iq_repository q) = limits_of policy" by (simp add: one(3))
  with p(2) show "within (proposed_units d q) (effective_limits d (iq_repository q))" by simp
  show "check_item g d q = Inr ()" by (rule s(1))
  show "check_lease d q = Inr ()" using s(3) f1(1) by (simp add: check_lease_def other_reserved_def)
qed

subsection \<open>Capacity, the writer mutex and leases\<close>

definition writers_exclusive :: "db \<Rightarrow> bool" where
  "writers_exclusive d \<longleftrightarrow> (\<forall>repo. exclusive_writer repo \<longrightarrow> length (reserved_items d repo) \<le> 1)"

definition leases_unique :: "db \<Rightarrow> bool" where
  "leases_unique d \<longleftrightarrow> (\<forall>i \<in> set (coordination_items d). \<forall>j \<in> set (coordination_items d).
     reserves_capacity i \<and> reserves_capacity j \<and> it_repository i = it_repository j \<and>
     it_lease_manifest_sha256 i = it_lease_manifest_sha256 j \<and> it_lease_manifest_sha256 i \<noteq> None \<longrightarrow> i = j)"

definition item_store_inv :: "db \<Rightarrow> bool" where
  "item_store_inv d \<longleftrightarrow> items_wf d \<and> capacity_wf d \<and> (\<forall>repo. capacity_respected d repo) \<and>
     writers_exclusive d \<and> leases_unique d"

lemma reserves_capacity_iff: "reserves_capacity i \<longleftrightarrow> reserves (it_allocation_class i)"
  by (simp add: reserves_capacity_def reserves_def)

lemma item_row_of_simps [simp]:
  "it_repository (item_row_of q now) = iq_repository q" "it_issue_number (item_row_of q now) = iq_issue_number q"
  "it_status (item_row_of q now) = iq_status q" "it_allocation_class (item_row_of q now) = iq_allocation_class q"
  "it_generation (item_row_of q now) = iq_generation q" "it_version (item_row_of q now) = iq_expected_version q + 1"
  "it_lease_manifest_sha256 (item_row_of q now) = iq_lease_manifest_sha256 q"
  "it_accountable_session_id (item_row_of q now) = iq_accountable_session_id q"
  "it_development_units (item_row_of q now) = iq_development_units q"
  "it_shared_units (item_row_of q now) = iq_shared_units q" "it_sre_units (item_row_of q now) = iq_sre_units q"
  "it_source_payload_sha256 (item_row_of q now) = iq_expected_source_sha256 q"
  by (simp_all add: item_row_of_def)

lemma reserved_after:
  assumes "items_wf d" and items: "coordination_items d' = upsert (is_item (iq_repository q) (iq_issue_number q))
      (item_row_of q now) (\<lambda>_. item_row_of q now) (coordination_items d)"
  shows "repo = iq_repository q \<Longrightarrow> mset (reserved_items d' repo) =
      (if reserves (iq_allocation_class q) then {#item_row_of q now#} else {#}) + mset (other_reserved d q)"
    and "repo \<noteq> iq_repository q \<Longrightarrow> mset (reserved_items d' repo) = mset (reserved_items d repo)"
proof -
  note f = filter_upsert [OF assms(1) [unfolded items_wf_def], of "is_item (iq_repository q) (iq_issue_number q)",
      OF is_item_pk, where new = "item_row_of q now" and Q = "\<lambda>r. it_repository r = repo \<and> reserves_capacity r"]
  show "repo = iq_repository q \<Longrightarrow> mset (reserved_items d' repo) =
      (if reserves (iq_allocation_class q) then {#item_row_of q now#} else {#}) + mset (other_reserved d q)"
  proof -
    assume repo: "repo = iq_repository q"
    have "filter (\<lambda>r. (it_repository r = repo \<and> reserves_capacity r) \<and> \<not> is_item (iq_repository q) (iq_issue_number q) r)
        (coordination_items d) = other_reserved d q"
      unfolding other_reserved_def by (rule filter_cong) (auto simp: repo is_item_def reserves_capacity_iff)
    with f show ?thesis by (simp add: reserved_items_def items repo reserves_capacity_iff del: mset_filter)
  qed
  show "repo \<noteq> iq_repository q \<Longrightarrow> mset (reserved_items d' repo) = mset (reserved_items d repo)"
  proof -
    assume repo: "repo \<noteq> iq_repository q"
    have "filter (\<lambda>r. (it_repository r = repo \<and> reserves_capacity r) \<and> \<not> is_item (iq_repository q) (iq_issue_number q) r)
        (coordination_items d) = reserved_items d repo"
      unfolding reserved_items_def by (rule filter_cong) (use repo in \<open>auto simp: is_item_def\<close>)
    with f repo show ?thesis by (simp add: reserved_items_def items del: mset_filter)
  qed
qed

lemma occupied_units_mset: "occupied_units u d repo = sum_mset (image_mset u (mset (reserved_items d repo)))"
  by (simp add: occupied_units_def sum_mset_sum_list [symmetric])

lemma occupancy_after:
  assumes "items_wf d" and "coordination_items d' = upsert (is_item (iq_repository q) (iq_issue_number q))
      (item_row_of q now) (\<lambda>_. item_row_of q now) (coordination_items d)"
    and h: "hosted_operations d' = hosted_operations d" "sqlite_master d' = sqlite_master d"
    and cls: "iq_allocation_class q \<in> set ALLOCATION_CLASSES"
  shows "occupancy d' repo = (if repo = iq_repository q then proposed_units d q else occupancy d repo)"
proof -
  have none: "iq_allocation_class q = ''NONE'' \<longleftrightarrow> \<not> reserves (iq_allocation_class q)"
    using cls by (auto simp: ALLOCATION_CLASSES_def reserves_def)
  have hosted: "reserved_hosted_sre_units d' = reserved_hosted_sre_units d"
    using h by (simp add: fun_eq_iff reserved_hosted_sre_units_def table_installed_def)
  note r = reserved_after [OF assms(1,2)]
  show ?thesis
  proof (cases "repo = iq_repository q")
    case True
    have "sum_mset (image_mset u (mset (other_reserved d q))) = sum_list (map u (other_reserved d q))" for u :: "item_row \<Rightarrow> int"
      by (simp add: sum_mset_sum_list [symmetric])
    then show ?thesis
      using True by (simp add: occupancy_def occupied_units_mset r(1) proposed_units_def Let_def none hosted)
  next
    case False
    then show ?thesis by (simp add: occupancy_def occupied_units_mset r(2) hosted)
  qed
qed

lemma check_item_Inr:
  assumes "check_item g d q = Inr ()"
  shows "\<exists>c s. source_join d (iq_repository q) ''issue'' (iq_issue_number q) = Some (c, s) \<and>
      gc_payload_sha256 c = iq_expected_source_sha256 q"
    and "(case current_of d q of None \<Rightarrow> 0 | Some i \<Rightarrow> it_version i) = iq_expected_version q"
    and "\<forall>x \<in> set (harness_guards g d q @ gateway_guards g d q). \<not> fst x"
    and "check_generation d q = Inr ()"
    and "validate_portfolio_transition d (iq_repository q) (iq_issue_number q) (iq_status q) (iq_allocation_class q) None = Inr ()"
    and "creating_ready d q \<Longrightarrow> g = Some READY_FINALIZATION_GATEWAY"
proof -
  from assms obtain source where src: "current_snapshot d (iq_repository q) ''issue'' (iq_issue_number q) = Inr source"
    "\<not> source_drifts (iq_expected_source_sha256 q) source"
    and v: "(case current_of d q of None \<Rightarrow> 0 | Some i \<Rightarrow> it_version i) = iq_expected_version q"
    and gs: "\<forall>x \<in> set (harness_guards g d q @ gateway_guards g d q). \<not> fst x"
    and rest: "check_generation d q = Inr ()"
      "validate_portfolio_transition d (iq_repository q) (iq_issue_number q) (iq_status q) (iq_allocation_class q) None = Inr ()"
      "\<not> (creating_ready d q \<and> g \<noteq> Some READY_FINALIZATION_GATEWAY)"
    unfolding check_item_def bind_res_Inr guarded_Inr graph_as_coordination_Inr set_append ball_Un list.set ball_simps fst_conv
    by auto
  then show "(case current_of d q of None \<Rightarrow> 0 | Some i \<Rightarrow> it_version i) = iq_expected_version q"
    "\<forall>x \<in> set (harness_guards g d q @ gateway_guards g d q). \<not> fst x" "check_generation d q = Inr ()"
    "validate_portfolio_transition d (iq_repository q) (iq_issue_number q) (iq_status q) (iq_allocation_class q) None = Inr ()"
    "creating_ready d q \<Longrightarrow> g = Some READY_FINALIZATION_GATEWAY" by blast+
  from src show "\<exists>c s. source_join d (iq_repository q) ''issue'' (iq_issue_number q) = Some (c, s) \<and>
      gc_payload_sha256 c = iq_expected_source_sha256 q"
    by (auto simp: current_snapshot_def source_drifts_def guard_simps split: option.splits)
qed

lemma writers_exclusive_after:
  assumes "items_wf d" and "writers_exclusive d" and items: "coordination_items d' =
      upsert (is_item (iq_repository q) (iq_issue_number q)) (item_row_of q now) (\<lambda>_. item_row_of q now) (coordination_items d)"
    and guards: "\<forall>x \<in> set (harness_guards g d q @ gateway_guards g d q). \<not> fst x"
  shows "writers_exclusive d'"
  unfolding writers_exclusive_def
proof (intro allI impI)
  fix repo
  assume ex: "exclusive_writer repo"
  note r = reserved_after [OF assms(1) items, of repo]
  show "length (reserved_items d' repo) \<le> 1"
  proof (cases "repo = iq_repository q")
    case False
    with r(2) have "length (reserved_items d' repo) = length (reserved_items d repo)" by (metis size_mset)
    with assms(2) ex show ?thesis by (simp add: writers_exclusive_def)
  next
    case True
    have "size (mset (reserved_items d' repo)) =
        (if reserves (iq_allocation_class q) then 1 else 0) + length (other_reserved d q)"
      unfolding r(1) [OF True] by simp
    then have len: "length (reserved_items d' repo) =
        (if reserves (iq_allocation_class q) then 1 else 0) + length (other_reserved d q)" by simp
    have "other_reserved d q = filter (\<lambda>i. it_issue_number i \<noteq> iq_issue_number q) (reserved_items d repo)"
      by (simp add: other_reserved_def reserved_items_def True reserves_capacity_iff conj_ac)
    then have "length (other_reserved d q) \<le> length (reserved_items d repo)" by simp
    also have "\<dots> \<le> 1" using assms(2) ex by (simp add: writers_exclusive_def)
    finally show ?thesis using len guards ex True by (auto simp: gateway_guards_def)
  qed
qed

lemma item_of_after:
  assumes "coordination_items d' = upsert (is_item (iq_repository q) (iq_issue_number q)) (item_row_of q now)
      (\<lambda>_. item_row_of q now) (coordination_items d)"
  shows "item_of d' r n = (if (r, n) = item_key q then Some (item_row_of q now) else item_of d r n)"
proof (cases "(r, n) = item_key q")
  case True
  then have k: "r = iq_repository q" "n = iq_issue_number q" by (simp_all add: item_key_def)
  have "List.find (is_item r n) (coordination_items d') = Some (item_row_of q now)"
    unfolding assms k by (subst find_upsert) (auto simp: is_item_def split: option.splits)
  then show ?thesis using True by (simp add: item_of_def is_item_def [abs_def])
next
  case False
  have "List.find (is_item r n) (coordination_items d') = List.find (is_item r n) (coordination_items d)"
    unfolding assms by (rule find_upsert_other) (use False in \<open>auto simp: is_item_def item_key_def\<close>)
  then show ?thesis using False by (simp add: item_of_def is_item_def [abs_def])
qed

lemma items_after_mem:
  "i \<in> set (upsert (is_item r n) row (\<lambda>_. row) rows) \<Longrightarrow> i = row \<or> (i \<in> set rows \<and> \<not> is_item r n i)"
  using set_upsert_subset by fastforce

lemma leases_unique_after:
  assumes "leases_unique d" and items: "coordination_items d' =
      upsert (is_item (iq_repository q) (iq_issue_number q)) (item_row_of q now) (\<lambda>_. item_row_of q now) (coordination_items d)"
    and lease: "check_lease d q = Inr ()"
  shows "leases_unique d'"
proof -
  let ?row = "item_row_of q now"
  have clash: False if "j \<in> set (coordination_items d)" "\<not> is_item (iq_repository q) (iq_issue_number q) j"
    "reserves_capacity j" "reserves_capacity ?row" "it_repository j = iq_repository q"
    "it_lease_manifest_sha256 j = iq_lease_manifest_sha256 q" "iq_lease_manifest_sha256 q \<noteq> None" for j
  proof -
    have "j \<in> set (other_reserved d q)" using that by (auto simp: other_reserved_def is_item_def reserves_capacity_iff)
    with that lease show False by (auto simp: check_lease_def guard_simps reserves_capacity_iff)
  qed
  show ?thesis
    unfolding leases_unique_def items
  proof (intro ballI impI, elim conjE)
    fix i j
    assume "i \<in> set (upsert (is_item (iq_repository q) (iq_issue_number q)) ?row (\<lambda>_. ?row) (coordination_items d))"
      "j \<in> set (upsert (is_item (iq_repository q) (iq_issue_number q)) ?row (\<lambda>_. ?row) (coordination_items d))"
      and ij: "reserves_capacity i" "reserves_capacity j" "it_repository i = it_repository j"
      "it_lease_manifest_sha256 i = it_lease_manifest_sha256 j" "it_lease_manifest_sha256 i \<noteq> None"
    then consider "i = ?row" "j = ?row" | "i = ?row" "j \<in> set (coordination_items d)" "\<not> is_item (iq_repository q) (iq_issue_number q) j"
      | "j = ?row" "i \<in> set (coordination_items d)" "\<not> is_item (iq_repository q) (iq_issue_number q) i"
      | "i \<in> set (coordination_items d)" "j \<in> set (coordination_items d)"
      by (blast dest: items_after_mem)
    then show "i = j"
    proof cases
      case 1
      then show ?thesis by simp
    next
      case 2
      with clash [of j] ij show ?thesis by simp
    next
      case 3
      with clash [of i] ij show ?thesis by simp
    next
      case 4
      with assms(1) ij show ?thesis by (simp add: leases_unique_def)
    qed
  qed
qed

lemma change_item_inv:
  assumes inv: "item_store_inv d" and ok: "change_item catalog g pend d q now = Inr (d', r)"
    and cls: "iq_allocation_class q \<in> set ALLOCATION_CLASSES"
  shows "item_store_inv d'"
proof -
  from inv have wf: "items_wf d" "capacity_wf d" "\<forall>repo. capacity_respected d repo" "writers_exclusive d" "leases_unique d"
    by (simp_all add: item_store_inv_def)
  note t = change_item_tables [OF ok wf(2)]
  have "items_wf d'"
    unfolding items_wf_def t(1)
    by (rule distinct_replace [OF wf(1) [unfolded items_wf_def] is_item_pk]) (simp add: item_pk_def)
  moreover have "capacity_respected d' repo" for repo
    using wf(3) t(7) by (simp add: capacity_respected_def occupancy_after [OF wf(1) t(1-3) cls] t(6))
  moreover have "writers_exclusive d'"
    by (rule writers_exclusive_after [OF wf(1,4) t(1) check_item_Inr(3) [OF t(8)]])
  moreover have "leases_unique d'" by (rule leases_unique_after [OF wf(5) t(1,9)])
  ultimately show ?thesis using t(5) by (simp add: item_store_inv_def)
qed

subsection \<open>Watches of executing items\<close>

definition executing :: "item_row \<Rightarrow> bool" where
  "executing i \<longleftrightarrow> it_allocation_class i = ''ACTIVE'' \<and> it_status i \<in> set ACTIVE_EXECUTION_STATUSES"

definition watch_pk :: "terminal_watch_row \<Rightarrow> string \<times> int \<times> int" where
  "watch_pk w = (tw_repository w, tw_issue_number w, tw_generation w)"

definition watches :: "terminal_watch_row \<Rightarrow> item_row \<Rightarrow> bool" where
  "watches w i \<longleftrightarrow> watch_pk w = (it_repository i, it_issue_number i, it_generation i) \<and> open_watch w \<and>
     it_accountable_session_id i = Some (tw_accountable_session_id w) \<and>
     it_lease_manifest_sha256 i = Some (tw_lease_manifest_sha256 w)"

definition watch_inv :: "db \<Rightarrow> bool" where
  "watch_inv d \<longleftrightarrow> distinct (map watch_pk (coordination_terminal_watches d)) \<and>
     (\<forall>i \<in> set (coordination_items d). executing i \<longrightarrow> (\<exists>w \<in> set (coordination_terminal_watches d). watches w i)) \<and>
     (\<forall>w \<in> set (coordination_terminal_watches d). tw_state w = ''ACTIVE'' \<longrightarrow>
        (\<exists>i. item_of d (tw_repository w) (tw_issue_number w) = Some i \<and> executing i \<and>
          it_generation i = tw_generation w))"

lemma new_watch_simps [simp]:
  "watch_pk (new_watch q s l p nw now) = (iq_repository q, iq_issue_number q, iq_generation q)"
  "open_watch (new_watch q s l p nw now)" "tw_accountable_session_id (new_watch q s l p nw now) = s"
  "tw_lease_manifest_sha256 (new_watch q s l p nw now) = l" "tw_generation (new_watch q s l p nw now) = iq_generation q"
  "tw_repository (new_watch q s l p nw now) = iq_repository q" "tw_issue_number (new_watch q s l p nw now) = iq_issue_number q"
  by (simp_all add: new_watch_def watch_pk_def open_watch_def)

text \<open>Completing watches of the issue leaves the keys and the watches of other issues.\<close>

definition completes :: "string \<Rightarrow> int \<Rightarrow> terminal_watch_row list \<Rightarrow> terminal_watch_row list \<Rightarrow> bool" where
  "completes repo n ws ws' \<longleftrightarrow> map watch_pk ws' = map watch_pk ws \<and>
     (\<forall>w \<in> set ws. \<not> is_watch repo n w \<longrightarrow> w \<in> set ws') \<and>
     (\<forall>w \<in> set ws'. tw_state w = ''COMPLETE'' \<and> is_watch repo n w \<or> w \<in> set ws)"

lemma completes_refl: "completes repo n ws ws"
  by (simp add: completes_def)

lemma completes_update:
  assumes "\<And>w. p w \<Longrightarrow> is_watch repo n w" and "\<And>w. watch_pk (f w) = watch_pk w" and "\<And>w. tw_state (f w) = ''COMPLETE''"
  shows "completes repo n ws (update_where p f ws)"
proof -
  have "w \<in> set (update_where p f ws)" if "w \<in> set ws" "\<not> is_watch repo n w" for w
    using that assms(1) by (force simp: set_update_where)
  moreover have "tw_state w = ''COMPLETE'' \<and> is_watch repo n w \<or> w \<in> set ws" if "w \<in> set (update_where p f ws)" for w
  proof -
    from update_where_mem [OF that] obtain v where v: "v \<in> set ws" "w = (if p v then f v else v)" ..
    have "is_watch repo n (f v) = is_watch repo n v" using assms(2) [of v] by (simp add: watch_pk_def is_watch_def)
    with v assms(1,3) show ?thesis by auto
  qed
  ultimately show ?thesis using assms(2) by (simp add: completes_def map_update_where)
qed

lemma supersede_watches_rows: "coordination_terminal_watches (supersede_watches q now d) = update_where (superseded q)
    (\<lambda>w. w\<lparr>tw_state := ''COMPLETE'', tw_process_id := None, tw_updated_at := now,
           tw_last_error := Some ''SUPERSEDED_BY_NEW_GENERATION''\<rparr>) (coordination_terminal_watches d)"
  by (simp add: supersede_watches_def Let_def log_superseded_def)

lemma supersede_completes:
  "completes (iq_repository q) (iq_issue_number q) (coordination_terminal_watches d)
     (coordination_terminal_watches (supersede_watches q now d))"
  unfolding supersede_watches_rows by (rule completes_update) (simp_all add: superseded_def watch_pk_def)

lemma supersede_none_left:
  assumes "w \<in> set (coordination_terminal_watches (supersede_watches q now d))" and "tw_state w = ''ACTIVE''"
    and "is_watch (iq_repository q) (iq_issue_number q) w"
  shows "iq_generation q \<le> tw_generation w"
proof -
  from update_where_mem [OF assms(1) [unfolded supersede_watches_rows]]
  obtain v :: terminal_watch_row where "w = (if superseded q v then v\<lparr>tw_state := ''COMPLETE'', tw_process_id := None,
      tw_updated_at := now, tw_last_error := Some ''SUPERSEDED_BY_NEW_GENERATION''\<rparr> else v)" by blast
  with assms(2,3) show ?thesis by (auto simp: superseded_def split: if_splits)
qed

lemma close_watches_facts:
  shows "completes (iq_repository q) (iq_issue_number q) (coordination_terminal_watches d)
      (coordination_terminal_watches (close_item_watches q now d))"
    and "w \<in> set (coordination_terminal_watches (close_item_watches q now d)) \<Longrightarrow>
      is_watch (iq_repository q) (iq_issue_number q) w \<Longrightarrow> \<not> open_watch w"
proof -
  let ?hit = "\<lambda>w. is_watch (iq_repository q) (iq_issue_number q) w \<and> open_watch w"
  let ?f = "\<lambda>w. w\<lparr>tw_state := ''COMPLETE'', tw_process_id := None, tw_updated_at := now, tw_last_error := None\<rparr>"
  have ws: "coordination_terminal_watches (close_item_watches q now d) = update_where ?hit ?f (coordination_terminal_watches d)"
    by (simp add: close_item_watches_def Let_def log_watch_completed_def)
  show "completes (iq_repository q) (iq_issue_number q) (coordination_terminal_watches d)
      (coordination_terminal_watches (close_item_watches q now d))"
    unfolding ws by (rule completes_update) (simp_all add: watch_pk_def)
  assume mem: "w \<in> set (coordination_terminal_watches (close_item_watches q now d))"
    and own: "is_watch (iq_repository q) (iq_issue_number q) w"
  from update_where_mem [OF mem [unfolded ws]] obtain v :: terminal_watch_row
    where "w = (if ?hit v then ?f v else v)" by blast
  with own show "\<not> open_watch w" by (auto simp: open_watch_def split: if_splits)
qed

text \<open>
  What a transition does to the watches: it completes some of the issue's, or, when the item
  executes, also leaves an open one with the item's lineage and none running for an older generation.
\<close>

lemma watch_item_rows:
  fixes now :: string
  assumes "watch_item catalog g pend d current q now = Inr d'"
  obtains (closed) "\<not> executes q" "completes (iq_repository q) (iq_issue_number q)
        (coordination_terminal_watches d) (coordination_terminal_watches d')"
      "\<forall>w \<in> set (coordination_terminal_watches d'). is_watch (iq_repository q) (iq_issue_number q) w \<longrightarrow> \<not> open_watch w"
    | (opened) ws ns w where "executes q" "coordination_terminal_watches d' = ws @ ns"
      "completes (iq_repository q) (iq_issue_number q) (coordination_terminal_watches d) ws"
      "ns = [] \<or> (ns = [w] \<and> (iq_repository q, iq_issue_number q, iq_generation q) \<notin> watch_pk ` set ws)"
      "w \<in> set (ws @ ns)" "watches w (item_row_of q now)"
      "current \<noteq> None \<Longrightarrow> it_generation (the current) < iq_generation q \<Longrightarrow>
         \<forall>w \<in> set ws. tw_state w = ''ACTIVE'' \<and> is_watch (iq_repository q) (iq_issue_number q) w \<longrightarrow>
           iq_generation q \<le> tw_generation w"
proof (cases "executes q")
  case False
  with assms have "d' = close_item_watches q now d" by (simp add: watch_item_def)
  then show thesis using False close_watches_facts [where q = q and d = d and now = now] by (intro closed) simp_all
next
  case True
  define d1 where "d1 = (case current of None \<Rightarrow> d
    | Some i \<Rightarrow> if iq_generation q > it_generation i then supersede_watches q now d else d)"
  have c: "completes (iq_repository q) (iq_issue_number q) (coordination_terminal_watches d) (coordination_terminal_watches d1)"
    by (simp add: d1_def completes_refl supersede_completes split: option.splits)
  have left: "current \<noteq> None \<Longrightarrow> it_generation (the current) < iq_generation q \<Longrightarrow>
      \<forall>w \<in> set (coordination_terminal_watches d1). tw_state w = ''ACTIVE'' \<and>
        is_watch (iq_repository q) (iq_issue_number q) w \<longrightarrow> iq_generation q \<le> tw_generation w"
    using supersede_none_left [of _ q now d] by (auto simp: d1_def)
  from True assms have "open_item_watch catalog g pend d current q now = Inr d'" by (simp add: watch_item_def)
  then show thesis
  proof (cases rule: open_item_watch_Inr)
    case (opened e lease p)
    from opened(1) have e: "e = d1" by (simp add: d1_def)
    from opened(4) obtain session next_wake where n: "iq_accountable_session_id q = Some session"
      "coordination_terminal_watches d' = coordination_terminal_watches e @ [new_watch q session lease p next_wake now]"
      by (rule insert_watch_Inr)
    have fresh: "(iq_repository q, iq_issue_number q, iq_generation q) \<notin> watch_pk ` set (coordination_terminal_watches d1)"
      using opened(3) by (auto simp: e watch_of_def find_None_iff is_watch_def watch_pk_def)
    show thesis
      by (rule that(2) [of "coordination_terminal_watches d1" "[new_watch q session lease p next_wake now]"
            "new_watch q session lease p next_wake now"])
        (use True n c left fresh opened(2) in \<open>simp_all add: e watches_def\<close>)
  next
    case (kept w)
    from kept(1) have d': "d' = d1" by (simp add: d1_def)
    from kept(2) have w: "w \<in> set (coordination_terminal_watches d1)"
      "watch_pk w = (iq_repository q, iq_issue_number q, iq_generation q)"
      by (auto simp: d' watch_of_def is_watch_def watch_pk_def dest: find_SomeD)
    show thesis
      by (rule that(2) [of "coordination_terminal_watches d1" "[]" w])
        (use True c left w kept(3-5) in \<open>simp_all add: d' watches_def\<close>)
  qed
qed

lemma check_generation_Inr:
  "check_generation d q = Inr () \<Longrightarrow> current_of d q = Some i \<Longrightarrow> it_generation i \<le> iq_generation q \<and>
     (iq_generation q = it_generation i \<longrightarrow>
       (it_status i = ''HOLD'' \<longrightarrow> iq_status q = ''HOLD'') \<and>
       (\<exists>old new. STATUS_RANK (it_status i) = Some old \<and> STATUS_RANK (iq_status q) = Some new \<and> old \<le> new))"
  by (auto simp: check_generation_def guard_simps split: if_splits)

text \<open>Other items keep their watches, and watches of other issues keep running for theirs.\<close>

lemma other_item_watched:
  assumes inv: "watch_inv d" and c: "completes (iq_repository q) (iq_issue_number q) (coordination_terminal_watches d) ws"
    and i: "i \<in> set (coordination_items d)" "\<not> is_item (iq_repository q) (iq_issue_number q) i" "executing i"
  shows "\<exists>w \<in> set ws. watches w i"
proof -
  from inv i(1,3) obtain w where w: "w \<in> set (coordination_terminal_watches d)" "watches w i"
    by (auto simp: watch_inv_def)
  have "\<not> is_watch (iq_repository q) (iq_issue_number q) w"
    using w(2) i(2) by (auto simp: watches_def watch_pk_def is_watch_def is_item_def)
  with c w show ?thesis by (auto simp: completes_def)
qed

lemma other_watch_running:
  assumes inv: "watch_inv d" and items: "coordination_items d' =
      upsert (is_item (iq_repository q) (iq_issue_number q)) (item_row_of q now) (\<lambda>_. item_row_of q now) (coordination_items d)"
    and c: "completes (iq_repository q) (iq_issue_number q) (coordination_terminal_watches d) ws"
    and w: "w \<in> set ws" "tw_state w = ''ACTIVE''" "\<not> is_watch (iq_repository q) (iq_issue_number q) w"
  shows "\<exists>i. item_of d' (tw_repository w) (tw_issue_number w) = Some i \<and> executing i \<and> it_generation i = tw_generation w"
proof -
  have "w \<in> set (coordination_terminal_watches d)" using c w(1,2) by (auto simp: completes_def)
  then show ?thesis using inv w item_of_after [OF items] by (auto simp: watch_inv_def is_watch_def item_key_def)
qed

text \<open>A watch of the issue that still runs after the transition runs for the generation just written.\<close>

lemma running_generation:
  assumes inv: "watch_inv d" and gen: "check_generation d q = Inr ()"
    and c: "completes (iq_repository q) (iq_issue_number q) (coordination_terminal_watches d) ws"
    and left: "current_of d q \<noteq> None \<Longrightarrow> it_generation (the (current_of d q)) < iq_generation q \<Longrightarrow>
      \<forall>w \<in> set ws. tw_state w = ''ACTIVE'' \<and> is_watch (iq_repository q) (iq_issue_number q) w \<longrightarrow>
        iq_generation q \<le> tw_generation w"
    and w: "w \<in> set ws" "tw_state w = ''ACTIVE''" "is_watch (iq_repository q) (iq_issue_number q) w"
  shows "tw_generation w = iq_generation q"
proof -
  have "w \<in> set (coordination_terminal_watches d)" using c w(1,2) by (auto simp: completes_def)
  with inv w(2,3) obtain i where i: "current_of d q = Some i" "it_generation i = tw_generation w"
    by (force simp: watch_inv_def current_of_def is_watch_def)
  from check_generation_Inr [OF gen i(1)] left w i show ?thesis by force
qed

lemma watch_inv_after:
  fixes now :: string
  assumes inv: "watch_inv d" and wf: "items_wf d" and items: "coordination_items d' =
      upsert (is_item (iq_repository q) (iq_issue_number q)) (item_row_of q now) (\<lambda>_. item_row_of q now) (coordination_items d)"
    and gen: "check_generation d q = Inr ()"
    and ok: "watch_item catalog g pend e (current_of d q) q now = Inr e'"
    and rows: "coordination_terminal_watches e = coordination_terminal_watches d"
      "coordination_terminal_watches d' = coordination_terminal_watches e'"
  shows "watch_inv d'"
proof -
  let ?row = "item_row_of q now" and ?own = "is_item (iq_repository q) (iq_issue_number q)"
  have exec: "executing ?row \<longleftrightarrow> executes q" by (simp add: executing_def executes_def)
  have keys: "distinct (map watch_pk (coordination_terminal_watches d))" using inv by (simp add: watch_inv_def)
  from ok show ?thesis
  proof (cases rule: watch_item_rows)
    case closed
    have c: "completes (iq_repository q) (iq_issue_number q) (coordination_terminal_watches d) (coordination_terminal_watches d')"
      using closed(2) rows by simp
    have "\<exists>w \<in> set (coordination_terminal_watches d'). watches w i" if "i \<in> set (coordination_items d')" "executing i" for i
      using items_after_mem [OF that(1) [unfolded items]] other_item_watched [OF inv c, of i] exec closed(1) that(2) by blast
    moreover have "\<exists>i. item_of d' (tw_repository w) (tw_issue_number w) = Some i \<and> executing i \<and> it_generation i = tw_generation w"
      if w: "w \<in> set (coordination_terminal_watches d')" "tw_state w = ''ACTIVE''" for w
      using other_watch_running [OF inv items c w] closed(3) w rows(2) by (auto simp: open_watch_def)
    moreover have "distinct (map watch_pk (coordination_terminal_watches d'))" using keys c by (simp add: completes_def)
    ultimately show ?thesis by (simp add: watch_inv_def)
  next
    case (opened ws ns w)
    have c: "completes (iq_repository q) (iq_issue_number q) (coordination_terminal_watches d) ws"
      and d': "coordination_terminal_watches d' = ws @ ns" using opened(2,3) rows by simp_all
    have "\<exists>w \<in> set (coordination_terminal_watches d'). watches w i" if "i \<in> set (coordination_items d')" "executing i" for i
      using items_after_mem [OF that(1) [unfolded items]] other_item_watched [OF inv c, of i] opened(5,6) that(2)
      unfolding d' by auto
    moreover have "\<exists>i. item_of d' (tw_repository v) (tw_issue_number v) = Some i \<and> executing i \<and> it_generation i = tw_generation v"
      if v: "v \<in> set (coordination_terminal_watches d')" "tw_state v = ''ACTIVE''" for v
    proof (cases "is_watch (iq_repository q) (iq_issue_number q) v")
      case own: True
      have "tw_generation v = iq_generation q"
      proof (cases "v \<in> set ws")
        case True
        show ?thesis by (rule running_generation [OF inv gen c opened(7) True v(2) own]) assumption+
      next
        case False
        then have "v = w" using v(1) opened(4) by (auto simp: d')
        then show ?thesis using opened(6) by (simp add: watches_def watch_pk_def)
      qed
      then show ?thesis
        using own exec opened(1) item_of_after [OF items] by (simp add: is_watch_def item_key_def)
    next
      case False
      have "v \<in> set ws" using v(1) False opened(4,6) by (auto simp: d' watches_def watch_pk_def is_watch_def)
      then show ?thesis using other_watch_running [OF inv items c] v(2) False by blast
    qed
    moreover have "distinct (map watch_pk (coordination_terminal_watches d'))"
    proof -
      have "distinct (map watch_pk ws)" using keys c by (simp add: completes_def)
      then show ?thesis using opened(4,6) by (auto simp: d' watches_def)
    qed
    ultimately show ?thesis by (simp add: watch_inv_def)
  qed
qed

subsection \<open>Committed transitions\<close>

lemma validate_item_request_Inr:
  assumes "validate_item_request catalog d q = Inr u"
  shows "iq_allocation_class q \<in> set ALLOCATION_CLASSES" and "iq_status q \<in> set ITEM_STATUSES"
    and "0 < iq_issue_number q" and "0 \<le> iq_generation q" and "0 \<le> iq_expected_version q"
  using assms by (auto simp: validate_item_request_def guard_simps)

lemma set_issue_status_locked_Inr:
  "set_issue_status_locked catalog own g pend d q now = Inr x \<Longrightarrow>
     validate_item_request catalog d q = Inr () \<and> change_item catalog g pend d q now = Inr x"
  by (auto simp: set_issue_status_locked_def guard_simps split: if_splits)

lemma locked_inv:
  assumes "item_store_inv d" and "set_issue_status_locked catalog own g pend d q now = Inr (d', r)"
  shows "item_store_inv d'"
  using change_item_inv [OF assms(1)] validate_item_request_Inr(1) set_issue_status_locked_Inr [OF assms(2)] by blast

lemma locked_watch_inv:
  assumes inv: "item_store_inv d" and w: "watch_inv d"
    and ok: "set_issue_status_locked catalog own g pend d q now = Inr (d', r)"
  shows "watch_inv d'"
proof -
  from set_issue_status_locked_Inr [OF ok] have ch: "change_item catalog g pend d q now = Inr (d', r)" ..
  have wf: "items_wf d" "capacity_wf d" using inv by (simp_all add: item_store_inv_def)
  note t = change_item_tables [OF ch wf(2)]
  from ch obtain d1 d2 d3 d4 ev where s: "check_capacity d q now = Inr d1" "write_item d1 q now = Inr d2"
    "watch_item catalog g pend d2 (current_of d q) q now = Inr d3"
    "release_item d3 (current_of d q) q now = Inr (d4, ev)"
    "d' = log_status_change q (item_result q ev) now d4" by (rule change_item_stages)
  from s(1) obtain policy where "ensure_capacity_policy d (iq_repository q) now = Inr (d1, policy)"
    by (rule check_capacity_Inr)
  from ensure_capacity_policy_Inr [OF wf(2) this] have "without_capacity d1 = without_capacity d" by simp
  from without_capacity_fields(8) [OF this] have "coordination_terminal_watches d2 = coordination_terminal_watches d"
    by (simp add: write_item_Inr [OF s(2)])
  moreover have "coordination_terminal_watches d' = coordination_terminal_watches d3"
    using without_wakes_fields(14) [OF release_item_frame [OF s(4)]] by (simp add: s(5) log_status_change_def)
  ultimately show ?thesis
    using watch_inv_after [OF w wf(1) t(1) check_item_Inr(4) [OF t(8)] s(3)] by simp
qed

lemma plan_inv:
  assumes "fold_res (apply_entry catalog now) es (d, rs) = Inr (d', rs')"
    and "P d" and "\<And>d q d' r. P d \<Longrightarrow> set_issue_status catalog False d q now = Inr (d', r) \<Longrightarrow> P d'"
  shows "P d'"
proof -
  have "P (fst (d', rs'))"
    by (rule fold_res_invariant [where P = "\<lambda>x. P (fst x)", OF assms(1)])
      (use assms(2,3) in \<open>auto simp: apply_entry_def guard_simps\<close>)
  then show ?thesis by simp
qed

lemma item_store_inv_cong:
  assumes "coordination_items d' = coordination_items d" and "hosted_operations d' = hosted_operations d"
    and "sqlite_master d' = sqlite_master d"
    and "coordination_capacity_policies d' = coordination_capacity_policies d"
    and "coordination_capacity_current d' = coordination_capacity_current d"
  shows "item_store_inv d' = item_store_inv d"
  using policy_tables_cong [OF assms(4,5)] occupancy_cong [OF assms(1-3)]
  by (simp add: item_store_inv_def items_wf_def writers_exclusive_def leases_unique_def reserved_items_def
      capacity_respected_def assms(1))

text \<open>
  C1: the item table keeps its invariant under every status change, whatever capability the caller
  has, and under every applied plan: one row per issue, occupied and hosted units within the current
  capacity policy of every repository, at most one item that holds capacity in a repository with an
  exclusive writer, and no two such items of a repository with the same lease.
\<close>

theorem item_store_inv_preserved:
  assumes "item_store_inv d"
  shows "(set_issue_status_locked catalog own g pend d q now = Inr (d', r) \<longrightarrow> item_store_inv d') \<and>
    (apply_issue_plan catalog d es now = Inr (d'', rs) \<longrightarrow> item_store_inv d'')"
proof (intro conjI impI)
  show "set_issue_status_locked catalog own g pend d q now = Inr (d', r) \<Longrightarrow> item_store_inv d'"
    by (rule locked_inv [OF assms])
  assume "apply_issue_plan catalog d es now = Inr (d'', rs)"
  then obtain e where e: "fold_res (apply_entry catalog now) es (d, []) = Inr (e, rs)" "d'' = log_plan_applied es now e"
    by (auto simp: apply_issue_plan_def guard_simps)
  have "item_store_inv e"
    by (rule plan_inv [where P = item_store_inv, OF e(1) assms]) (auto simp: set_issue_status_def intro: locked_inv)
  moreover have "item_store_inv d'' = item_store_inv e"
    by (rule item_store_inv_cong) (simp_all add: e(2) log_plan_applied_def)
  ultimately show "item_store_inv d''" by simp
qed

text \<open>What a committed change does to the table of watches, in any state of the table.\<close>

lemma locked_watch_item:
  assumes wf: "capacity_wf d" and ok: "set_issue_status_locked catalog own g pend d q now = Inr (d', r)"
  obtains e e' where "watch_item catalog g pend e (current_of d q) q now = Inr e'"
    "coordination_terminal_watches e = coordination_terminal_watches d"
    "coordination_terminal_watches d' = coordination_terminal_watches e'"
proof -
  from set_issue_status_locked_Inr [OF ok] have ch: "change_item catalog g pend d q now = Inr (d', r)" ..
  from ch obtain d1 d2 d3 d4 ev where s: "check_capacity d q now = Inr d1" "write_item d1 q now = Inr d2"
    "watch_item catalog g pend d2 (current_of d q) q now = Inr d3"
    "release_item d3 (current_of d q) q now = Inr (d4, ev)"
    "d' = log_status_change q (item_result q ev) now d4" by (rule change_item_stages)
  from s(1) obtain policy where "ensure_capacity_policy d (iq_repository q) now = Inr (d1, policy)"
    by (rule check_capacity_Inr)
  from ensure_capacity_policy_Inr [OF wf this] have "without_capacity d1 = without_capacity d" by simp
  from without_capacity_fields(8) [OF this] have "coordination_terminal_watches d2 = coordination_terminal_watches d"
    by (simp add: write_item_Inr [OF s(2)])
  moreover have "coordination_terminal_watches d' = coordination_terminal_watches d3"
    using without_wakes_fields(14) [OF release_item_frame [OF s(4)]] by (simp add: s(5) log_status_change_def)
  ultimately show thesis by (rule that [OF s(3)])
qed

lemma item_is_watch: "is_watch (iq_repository q) (iq_issue_number q) w \<longleftrightarrow> (tw_repository w, tw_issue_number w) = item_key q"
  by (auto simp: is_watch_def item_key_def)

text \<open>
  C12: a change that makes an item execute leaves it watched. Whatever the watches were before, after a
  committed status change an item that executes (allocation class \<open>ACTIVE\<close> and an executing status) has an
  open terminal watch of its own generation, session and lease, and when the change began a new generation
  no watch of an older one still runs; an item that does not execute has no open watch at all. Every watch
  the change opens is that of the item's generation, no watch is deleted, and the watches of other issues
  are left as they were. If moreover every executing item was watched and every watch in state \<open>ACTIVE\<close> ran
  for an executing item of its generation, the same holds afterwards. Between status changes the supervisor
  (coordination_supervisor.py) can put the watch of an executing item on hold: that is outside the modelled
  operations, and no later change to an executing status commits over such a watch within its generation.
\<close>

theorem execution_watched:
  assumes "capacity_wf d" and "set_issue_status_locked catalog own g pend d q now = Inr (d', r)"
  shows "item_of d' (iq_repository q) (iq_issue_number q) = Some (item_row_of q now) \<and>
    (executing (item_row_of q now) \<longrightarrow> (\<exists>w \<in> set (coordination_terminal_watches d'). watches w (item_row_of q now))) \<and>
    (executing (item_row_of q now) \<and> current_of d q \<noteq> None \<and> it_generation (the (current_of d q)) < iq_generation q \<longrightarrow>
      (\<forall>w \<in> set (coordination_terminal_watches d'). (tw_repository w, tw_issue_number w) = item_key q \<and> tw_state w = ''ACTIVE'' \<longrightarrow>
         iq_generation q \<le> tw_generation w)) \<and>
    (\<not> executing (item_row_of q now) \<longrightarrow>
      (\<forall>w \<in> set (coordination_terminal_watches d'). (tw_repository w, tw_issue_number w) = item_key q \<longrightarrow> \<not> open_watch w)) \<and>
    (\<forall>w \<in> set (coordination_terminal_watches d'). open_watch w \<longrightarrow>
       w \<in> set (coordination_terminal_watches d) \<or> watches w (item_row_of q now)) \<and>
    watch_pk ` set (coordination_terminal_watches d) \<subseteq> watch_pk ` set (coordination_terminal_watches d') \<and>
    (\<forall>w. (tw_repository w, tw_issue_number w) \<noteq> item_key q \<longrightarrow>
       (w \<in> set (coordination_terminal_watches d') \<longleftrightarrow> w \<in> set (coordination_terminal_watches d))) \<and>
    (item_store_inv d \<and> watch_inv d \<longrightarrow> watch_inv d')"
proof -
  let ?ws = "coordination_terminal_watches d" and ?ws' = "coordination_terminal_watches d'" and ?row = "item_row_of q now"
  have exec: "executing ?row \<longleftrightarrow> executes q" by (simp add: executing_def executes_def)
  from set_issue_status_locked_Inr [OF assms(2)] have "change_item catalog g pend d q now = Inr (d', r)" ..
  from item_of_after [OF change_item_tables(1) [OF this assms(1)]]
  have stored: "item_of d' (iq_repository q) (iq_issue_number q) = Some ?row" by (simp add: item_key_def)
  have kept: "item_store_inv d \<and> watch_inv d \<longrightarrow> watch_inv d'" using locked_watch_inv assms(2) by blast
  from assms obtain e e' where w: "watch_item catalog g pend e (current_of d q) q now = Inr e'"
    "coordination_terminal_watches e = ?ws" "?ws' = coordination_terminal_watches e'" by (rule locked_watch_item)
  from w(1) show ?thesis
  proof (cases rule: watch_item_rows)
    case closed
    have c: "completes (iq_repository q) (iq_issue_number q) ?ws ?ws'" using closed(2) w by simp
    have "\<not> open_watch v" if "tw_state v = ''COMPLETE''" for v using that by (simp add: open_watch_def)
    moreover have "watch_pk ` set ?ws' = watch_pk ` set ?ws" using c by (simp add: completes_def flip: set_map)
    ultimately show ?thesis using stored c closed(1,3) exec kept unfolding completes_def item_is_watch w(3) [symmetric]
      by (intro conjI) (blast | force)+
  next
    case (opened us ns w')
    have c: "completes (iq_repository q) (iq_issue_number q) ?ws us" and ws': "?ws' = us @ ns"
      using opened(2,3) w by simp_all
    have own: "(tw_repository w', tw_issue_number w') = item_key q" "tw_generation w' = iq_generation q"
      using opened(6) by (simp_all add: watches_def watch_pk_def item_key_def)
    have new: "v \<in> set us \<or> v = w'" if "v \<in> set ?ws'" for v using that opened(4) by (auto simp: ws')
    have shut: "\<not> open_watch v" if "tw_state v = ''COMPLETE''" for v using that by (simp add: open_watch_def)
    have others: "v \<in> set ?ws \<Longrightarrow> (tw_repository v, tw_issue_number v) \<noteq> item_key q \<Longrightarrow> v \<in> set us" for v
      using c by (simp add: completes_def item_is_watch)
    have old: "v \<in> set us \<Longrightarrow> tw_state v = ''COMPLETE'' \<and> (tw_repository v, tw_issue_number v) = item_key q \<or> v \<in> set ?ws" for v
      using c by (simp add: completes_def item_is_watch)
    show ?thesis
    proof (intro conjI)
      show "executing ?row \<longrightarrow> (\<exists>w \<in> set ?ws'. watches w ?row)" using opened(5,6) ws' by auto
      show "executing ?row \<and> current_of d q \<noteq> None \<and> it_generation (the (current_of d q)) < iq_generation q \<longrightarrow>
        (\<forall>w \<in> set ?ws'. (tw_repository w, tw_issue_number w) = item_key q \<and> tw_state w = ''ACTIVE'' \<longrightarrow>
           iq_generation q \<le> tw_generation w)"
      proof (intro impI ballI)
        fix v
        assume cond: "executing ?row \<and> current_of d q \<noteq> None \<and> it_generation (the (current_of d q)) < iq_generation q"
          and v: "v \<in> set ?ws'" "(tw_repository v, tw_issue_number v) = item_key q \<and> tw_state v = ''ACTIVE''"
        from cond opened(7) have "\<forall>w \<in> set us. tw_state w = ''ACTIVE'' \<and> is_watch (iq_repository q) (iq_issue_number q) w \<longrightarrow>
          iq_generation q \<le> tw_generation w" by blast
        then show "iq_generation q \<le> tw_generation v" using new [OF v(1)] v(2) own(2) by (auto simp: item_is_watch)
      qed
      show "\<not> executing ?row \<longrightarrow> (\<forall>w \<in> set ?ws'. (tw_repository w, tw_issue_number w) = item_key q \<longrightarrow> \<not> open_watch w)"
        using opened(1) exec by simp
      show "\<forall>w \<in> set ?ws'. open_watch w \<longrightarrow> w \<in> set ?ws \<or> watches w ?row" using new old shut opened(6) by blast
      have "watch_pk ` set us = watch_pk ` set ?ws" using c by (simp add: completes_def flip: set_map)
      then show "watch_pk ` set ?ws \<subseteq> watch_pk ` set ?ws'" by (auto simp: ws')
      show "\<forall>w. (tw_repository w, tw_issue_number w) \<noteq> item_key q \<longrightarrow> (w \<in> set ?ws' \<longleftrightarrow> w \<in> set ?ws)"
      proof (intro allI impI iffI)
        fix v :: terminal_watch_row
        assume v: "(tw_repository v, tw_issue_number v) \<noteq> item_key q"
        show "v \<in> set ?ws' \<Longrightarrow> v \<in> set ?ws" using new [of v] old [of v] own(1) v by auto
        show "v \<in> set ?ws \<Longrightarrow> v \<in> set ?ws'" using others [OF _ v] by (simp add: ws')
      qed
    qed (rule stored, rule kept)
  qed
qed

subsection \<open>What a transition writes\<close>

lemma release_item_wakes:
  assumes "release_item d (Some i) q now = Inr (d', ev)" and "reserves (it_allocation_class i)"
    and "iq_allocation_class q = ''NONE''"
  shows "\<exists>row. dirty_event_of d' (dirty_event_key (release_request (iq_repository q) (iq_issue_number q)
      (iq_expected_version q + 1) (iq_expected_source_sha256 q) (it_allocation_class i) (iq_status q)
      (iq_generation q))) = Some row \<and> ev = Some (de_id row)"
proof -
  from assms obtain k where "enqueue_required_wake d (release_request (iq_repository q) (iq_issue_number q)
      (iq_expected_version q + 1) (iq_expected_source_sha256 q) (it_allocation_class i) (iq_status q)
      (iq_generation q)) now = Inr (d', k)" and k: "ev = Some k"
    by (auto simp: release_item_def enqueue_portfolio_dirty_event_def guard_simps)
  note w = enqueue_required_wake_Inr [OF this(1)]
  from enqueue_dirty_present [OF w(1,3)] k show ?thesis by auto
qed

text \<open>
  C21: what a committed status change has done. The issue's row is the requested one under the next
  version, and no other row has changed; the version the caller named was the current one and the
  source it named the current snapshot; the generation did not go back, and within a generation an
  item never leaves \<open>HOLD\<close> and never falls in rank; the portfolio graph allowed the move; and if the
  item gave up its capacity, the queue holds the wake of this release, whose id is returned.
\<close>

theorem status_change_effect:
  assumes "capacity_wf d" and "set_issue_status_locked catalog own g pend d q now = Inr (d', r)"
  shows "(\<forall>repo n. item_of d' repo n = (if (repo, n) = item_key q then Some (item_row_of q now) else item_of d repo n)) \<and>
    (case current_of d q of None \<Rightarrow> 0 | Some i \<Rightarrow> it_version i) = iq_expected_version q \<and>
    (\<exists>c s. source_join d (iq_repository q) ''issue'' (iq_issue_number q) = Some (c, s) \<and>
       gc_payload_sha256 c = iq_expected_source_sha256 q) \<and>
    (\<forall>i. current_of d q = Some i \<longrightarrow> it_generation i \<le> iq_generation q \<and>
       (iq_generation q = it_generation i \<longrightarrow> (it_status i = ''HOLD'' \<longrightarrow> iq_status q = ''HOLD'') \<and>
         (\<exists>old new. STATUS_RANK (it_status i) = Some old \<and> STATUS_RANK (iq_status q) = Some new \<and> old \<le> new))) \<and>
    validate_portfolio_transition d (iq_repository q) (iq_issue_number q) (iq_status q) (iq_allocation_class q) None = Inr () \<and>
    (\<forall>i. current_of d q = Some i \<and> reserves (it_allocation_class i) \<and> iq_allocation_class q = ''NONE'' \<longrightarrow>
       (\<exists>row. dirty_event_of d' (dirty_event_key (release_request (iq_repository q) (iq_issue_number q)
          (iq_expected_version q + 1) (iq_expected_source_sha256 q) (it_allocation_class i) (iq_status q)
          (iq_generation q))) = Some row \<and> r = item_result q (Some (de_id row))))"
proof -
  from set_issue_status_locked_Inr [OF assms(2)] have ch: "change_item catalog g pend d q now = Inr (d', r)" ..
  note t = change_item_tables [OF ch assms(1)]
  note c = check_item_Inr [OF t(8)]
  from ch obtain d3 d4 ev where s: "release_item d3 (current_of d q) q now = Inr (d4, ev)"
    "d' = log_status_change q (item_result q ev) now d4" "r = item_result q ev" by (rule change_item_stages)
  have wake: "\<exists>row. dirty_event_of d' (dirty_event_key (release_request (iq_repository q) (iq_issue_number q)
      (iq_expected_version q + 1) (iq_expected_source_sha256 q) (it_allocation_class i) (iq_status q)
      (iq_generation q))) = Some row \<and> r = item_result q (Some (de_id row))"
    if "current_of d q = Some i" "reserves (it_allocation_class i)" "iq_allocation_class q = ''NONE''" for i
    using release_item_wakes [of d3 i q now d4 ev] s(1) that by (auto simp: s(2,3) log_status_change_def)
  show ?thesis
    using item_of_after [OF t(1)] c(1,2,5) check_generation_Inr [OF c(4)] wake by (intro conjI) blast+
qed

text \<open>
  C27: without a capability a caller can move work only in the ways that need none. An ordinary status
  change never gives up or finishes work that holds capacity, never starts an execution (an executing
  status is reached only by an item that already executes), never publishes, never makes an item ready,
  and in the harness repository touches no item that holds or asks for capacity.
\<close>

theorem ordinary_change_needs_no_gateway:
  assumes "capacity_wf d" and "set_issue_status catalog own d q now = Inr (d', r)"
  shows "\<not> releases_or_finishes d q \<and> \<not> creating_execution d q \<and> iq_status q \<noteq> ''PUBLICATION_PENDING'' \<and>
    \<not> creating_ready d q \<and>
    (iq_repository q = HARNESS_REPOSITORY \<longrightarrow> \<not> currently_reserved d q \<and> \<not> reserves (iq_allocation_class q))"
proof -
  from assms(2) have "set_issue_status_locked catalog own None False d q now = Inr (d', r)"
    by (simp add: set_issue_status_def)
  from set_issue_status_locked_Inr [OF this] have "change_item catalog None False d q now = Inr (d', r)" ..
  note c = check_item_Inr [OF change_item_tables(8) [OF this assms(1)]]
  from c(3) have "\<not> releases_or_finishes d q" "iq_status q \<noteq> ''PUBLICATION_PENDING''" "\<not> creating_execution d q"
    by (simp_all add: gateway_guards_def)
  moreover have "\<not> creating_ready d q" using c(6) by blast
  moreover from c(3) have "\<not> currently_reserved d q \<and> \<not> reserves (iq_allocation_class q)"
    if "iq_repository q = HARNESS_REPOSITORY" using that by (simp add: harness_guards_def)
  ultimately show ?thesis by blast
qed

subsection \<open>Versions\<close>

definition item_version :: "db \<Rightarrow> string \<times> int \<Rightarrow> int" where
  "item_version d k = (case item_of d (fst k) (snd k) of None \<Rightarrow> 0 | Some i \<Rightarrow> it_version i)"

type_synonym item_write = "catalog \<times> bool \<times> gateway option \<times> bool \<times> item_request \<times> string"

fun write_status :: "db \<Rightarrow> item_write \<Rightarrow> db res" where
  "write_status d (catalog, own, g, pend, q, now) =
     bind_res (set_issue_status_locked catalog own g pend d q now) (\<lambda>x. Inr (fst x))"

fun write_request :: "item_write \<Rightarrow> item_request" where
  "write_request (catalog, own, g, pend, q, now) = q"

lemma locked_versions:
  assumes wf: "capacity_wf d" and ok: "set_issue_status_locked catalog own g pend d q now = Inr (d', r)"
  shows "capacity_wf d'" and "item_version d (item_key q) = iq_expected_version q"
    and "item_of d' repo n = (if (repo, n) = item_key q then Some (item_row_of q now) else item_of d repo n)"
proof -
  from set_issue_status_locked_Inr [OF ok] have ch: "change_item catalog g pend d q now = Inr (d', r)" ..
  note t = change_item_tables [OF ch wf]
  show "capacity_wf d'" by (rule t(5))
  show "item_version d (item_key q) = iq_expected_version q"
    using check_item_Inr(2) [OF t(8)] by (simp add: item_version_def item_key_def current_of_def)
  show "item_of d' repo n = (if (repo, n) = item_key q then Some (item_row_of q now) else item_of d repo n)"
    by (rule item_of_after [OF t(1)])
qed

interpretation item_cas: versioned_store write_status item_version "\<lambda>w. item_key (write_request w)"
  "\<lambda>w. iq_expected_version (write_request w)" capacity_wf
proof
  fix d and w :: item_write and d'
  assume wf: "capacity_wf d" and "write_status d w = Inr d'"
  then obtain catalog own g pend q now r where w: "w = (catalog, own, g, pend, q, now)"
    and ok: "set_issue_status_locked catalog own g pend d q now = Inr (d', r)"
    by (cases w) (auto simp: guard_simps)
  note v = locked_versions [OF wf ok]
  show "capacity_wf d'" by (rule v(1))
  show "item_version d (item_key (write_request w)) = iq_expected_version (write_request w)"
    using v(2) by (simp add: w)
  show "item_version d' (item_key (write_request w)) = iq_expected_version (write_request w) + 1"
    by (simp add: w item_version_def v(3))
  show "k \<noteq> item_key (write_request w) \<Longrightarrow> item_version d' k = item_version d k" for k
    by (cases k) (auto simp: w item_version_def v(3))
qed

definition write_next :: "item_write \<Rightarrow> db \<Rightarrow> db res" where
  "write_next w d = write_status d w"

lemma write_next_eq: "write_next = item_cas.write_step"
  by (simp add: fun_eq_iff write_next_def item_cas.write_step_def)

text \<open>
  Who else writes items. Next to status changes the program updates an item in eight places: the closeout,
  the hold and the recovery of terminal work (coordination_store.py), quarantine, drift recovery and the
  retirement of an admission (kanban_pull_buffer.py), and routing repair and its rollback
  (reconcile_routing_artifacts.py). Each is an \<open>UPDATE ... SET version=version+1 ... WHERE version=?\<close>
  of the row of one issue: \<open>fenced\<close>, whatever its further conditions and columns are. Every other
  transaction, and the schema migrations, leaves the versions of items alone.
\<close>

inductive item_step :: "db \<Rightarrow> db \<Rightarrow> bool" where
  status: "set_issue_status_locked catalog own g pend d q now = Inr (d', r) \<Longrightarrow> item_step d d'"
| fenced: "(\<And>i. it_repository (f i) = it_repository i \<and> it_issue_number (f i) = it_issue_number i \<and>
      it_version (f i) = it_version i + 1) \<Longrightarrow>
    coordination_items d' = update_where (\<lambda>i. is_item repo n i \<and> it_version i = v \<and> p i) f (coordination_items d) \<Longrightarrow>
    item_step d d'"
| elsewhere: "item_version d' = item_version d \<Longrightarrow> item_step d d'"

lemma locked_checks_version:
  assumes "set_issue_status_locked catalog own g pend d q now = Inr (d', r)"
  shows "item_version d (item_key q) = iq_expected_version q"
proof -
  from set_issue_status_locked_Inr [OF assms] have "change_item catalog g pend d q now = Inr (d', r)" ..
  then obtain "check_item g d q = Inr ()" by (rule change_item_stages)
  from check_item_Inr(2) [OF this] show ?thesis by (simp add: item_version_def item_key_def current_of_def)
qed

lemma ensure_policy_items:
  "ensure_capacity_policy d repo now = Inr (d', p) \<Longrightarrow> coordination_items d' = coordination_items d"
  by (auto simp: ensure_capacity_policy_def install_default_policy_def guard_simps Let_def split: option.splits)

lemma locked_bumps_version:
  assumes "set_issue_status_locked catalog own g pend d q now = Inr (d', r)"
  shows "item_version d' k = (if k = item_key q then iq_expected_version q + 1 else item_version d k)"
proof -
  from set_issue_status_locked_Inr [OF assms] have "change_item catalog g pend d q now = Inr (d', r)" ..
  then obtain d1 d2 d3 d4 ev where s: "check_capacity d q now = Inr d1" "write_item d1 q now = Inr d2"
    "watch_item catalog g pend d2 (current_of d q) q now = Inr d3" "release_item d3 (current_of d q) q now = Inr (d4, ev)"
    "d' = log_status_change q (item_result q ev) now d4" by (rule change_item_stages)
  from s(1) obtain policy where "ensure_capacity_policy d (iq_repository q) now = Inr (d1, policy)" by (rule check_capacity_Inr)
  from ensure_policy_items [OF this] have "coordination_items d' = upsert (is_item (iq_repository q) (iq_issue_number q))
      (item_row_of q now) (\<lambda>_. item_row_of q now) (coordination_items d)"
    by (simp add: s(5) log_status_change_def without_wakes_fields(5) [OF release_item_frame [OF s(4)]]
        without_watches_fields(1) [OF watch_item_frame [OF s(3)]] write_item_Inr [OF s(2)])
  from item_of_after [OF this] show ?thesis by (cases k) (simp add: item_version_def)
qed

lemma item_step_mono:
  assumes "item_step d d'"
  shows "item_version d k \<le> item_version d' k"
  using assms
proof cases
  case (status catalog own g pend q now r)
  show ?thesis using locked_checks_version [OF status] locked_bumps_version [OF status, of k] by simp
next
  case (fenced f repo n v p)
  have "item_of d' (fst k) (snd k) = map_option (\<lambda>i. if is_item repo n i \<and> it_version i = v \<and> p i then f i else i)
      (item_of d (fst k) (snd k))"
    unfolding item_of_def fenced(2) by (rule find_update_where) (simp add: fenced(1))
  then show ?thesis by (simp add: item_version_def fenced(1) split: option.split)
next
  case elsewhere
  then show ?thesis by simp
qed

lemma item_run_mono: "item_step\<^sup>*\<^sup>* d d' \<Longrightarrow> item_version d k \<le> item_version d' k"
  by (induction rule: rtranclp_induct) (auto intro: order_trans item_step_mono)

text \<open>
  C25: no status change is lost. Of two changes of an issue that name the same version, from any callers,
  only the first is committed, whatever is committed in between: further status changes, any fenced update
  of any item, and any transaction that leaves the versions of items alone. And where only status changes
  are committed, the version of an issue counts them.
\<close>

theorem status_change_no_lost_update:
  assumes "capacity_wf d" and "set_issue_status_locked catalog own g pend d q now = Inr (d1, r)"
    and "item_step\<^sup>*\<^sup>* d1 d2"
    and "item_key rival = item_key q" and "iq_expected_version rival = iq_expected_version q"
  shows "(\<exists>e. set_issue_status_locked catalog' own' g' pend' d2 rival later = Inl e) \<and>
    iq_expected_version rival < item_version d2 (item_key rival) \<and>
    (\<forall>ws d3. fold_res write_next ws d1 = Inr d3 \<longrightarrow>
       item_version d3 k = item_version d1 k + int (length (filter (\<lambda>w. item_key (write_request w) = k) ws)))"
proof -
  have one: "write_status d (catalog, own, g, pend, q, now) = Inr d1" using assms(2) by simp
  have past: "iq_expected_version rival < item_version d2 (item_key rival)"
    using item_run_mono [OF assms(3), of "item_key q"] locked_bumps_version [OF assms(2), of "item_key q"] assms(4,5) by simp
  have "\<exists>e. set_issue_status_locked catalog' own' g' pend' d2 rival later = Inl e"
  proof (cases "set_issue_status_locked catalog' own' g' pend' d2 rival later")
    case (Inr x)
    then show ?thesis using locked_checks_version [of catalog' own' g' pend' d2 rival later "fst x" "snd x"] past by simp
  qed simp
  moreover have "item_version d3 k = item_version d1 k + int (length (filter (\<lambda>w. item_key (write_request w) = k) ws))"
    if "fold_res write_next ws d1 = Inr d3" for ws d3
    using item_cas.run_version [OF item_cas.write_inv [OF assms(1) one], of ws d3 k] that by (simp add: write_next_eq)
  ultimately show ?thesis using past by blast
qed

lemma apply_entry_Inr:
  "apply_entry catalog now q s = Inr t \<longleftrightarrow>
     (\<exists>d r. set_issue_status_locked catalog False None False (fst s) q now = Inr (d, r) \<and> t = (d, snd s @ [r]))"
  by (auto simp: apply_entry_def set_issue_status_def guard_simps)

lemma plan_effect:
  assumes "fold_res (apply_entry catalog now) es (d, rs) = Inr (d', rs')" and "capacity_wf d"
    and "distinct (map item_key es)"
  shows "length rs' = length rs + length es \<and>
    (\<forall>q \<in> set es. item_of d' (iq_repository q) (iq_issue_number q) = Some (item_row_of q now) \<and>
       item_version d (item_key q) = iq_expected_version q) \<and>
    (\<forall>repo n. (repo, n) \<notin> item_key ` set es \<longrightarrow> item_of d' repo n = item_of d repo n)"
  using assms
proof (induction es arbitrary: d rs)
  case Nil
  then show ?case by simp
next
  case (Cons q es)
  then obtain e r where e: "set_issue_status_locked catalog False None False d q now = Inr (e, r)"
    and rest: "fold_res (apply_entry catalog now) es (e, rs @ [r]) = Inr (d', rs')"
    by (auto simp: apply_entry_Inr bind_res_Inr)
  note v = locked_versions [OF Cons.prems(2) e]
  from Cons.IH [OF rest v(1)] Cons.prems(3)
  have ih: "length rs' = length (rs @ [r]) + length es"
    "\<forall>p \<in> set es. item_of d' (iq_repository p) (iq_issue_number p) = Some (item_row_of p now) \<and>
       item_version e (item_key p) = iq_expected_version p"
    "\<forall>repo n. (repo, n) \<notin> item_key ` set es \<longrightarrow> item_of d' repo n = item_of e repo n" by auto
  have "item_version e (item_key p) = item_version d (item_key p)" if "p \<in> set es" for p
  proof -
    have "item_key q \<notin> item_key ` set es" using Cons.prems(3) by simp
    with that have "item_key p \<noteq> item_key q" by (metis image_eqI)
    then show ?thesis by (simp add: item_version_def v(3))
  qed
  moreover have "item_of d' (iq_repository q) (iq_issue_number q) = Some (item_row_of q now)"
    using ih(3) Cons.prems(3) v(3) by (force simp: item_key_def)
  moreover have "item_of d' repo n = item_of d repo n" if "(repo, n) \<notin> item_key ` set (q # es)" for repo n
    using that ih(3) v(3) by auto
  ultimately show ?case using ih(1,2) v(2) by auto
qed

text \<open>
  A plan is applied whole. An accepted plan has between 1 and 100 entries, one per issue; every
  entry named the version its issue had before the plan; afterwards every planned issue has the row of
  its entry, and no other issue has changed. A plan with a repeated issue or more than 100 entries is refused.
\<close>

theorem issue_plan_atomic:
  assumes "capacity_wf d"
  shows "(apply_issue_plan catalog d es now = Inr (d', rs) \<longrightarrow>
      es \<noteq> [] \<and> length es \<le> 100 \<and> length rs = length es \<and> distinct (map item_key es) \<and>
      (\<forall>q \<in> set es. item_of d' (iq_repository q) (iq_issue_number q) = Some (item_row_of q now) \<and>
         item_version d (item_key q) = iq_expected_version q) \<and>
      (\<forall>repo n. (repo, n) \<notin> item_key ` set es \<longrightarrow> item_of d' repo n = item_of d repo n)) \<and>
    (100 < length es \<longrightarrow> apply_issue_plan catalog d es now = Inl (CoordinationError ''INVALID_ISSUE_PLAN''))"
proof (intro conjI impI)
  show "100 < length es \<Longrightarrow> apply_issue_plan catalog d es now = Inl (CoordinationError ''INVALID_ISSUE_PLAN'')"
    by (simp add: apply_issue_plan_def guard_eval)
next
  assume "apply_issue_plan catalog d es now = Inr (d', rs)"
  then obtain e where e: "fold_res (apply_entry catalog now) es (d, []) = Inr (e, rs)" "d' = log_plan_applied es now e"
    and es: "es \<noteq> []" "length es \<le> 100" "distinct (map item_key es)"
    by (auto simp: apply_issue_plan_def guard_simps)
  have "item_of d' = item_of e" by (simp add: e(2) log_plan_applied_def item_of_def fun_eq_iff)
  with es plan_effect [OF e(1) assms es(3)]
  show "es \<noteq> []" "length es \<le> 100" "length rs = length es" "distinct (map item_key es)"
    "\<forall>q \<in> set es. item_of d' (iq_repository q) (iq_issue_number q) = Some (item_row_of q now) \<and>
       item_version d (item_key q) = iq_expected_version q"
    "\<forall>repo n. (repo, n) \<notin> item_key ` set es \<longrightarrow> item_of d' repo n = item_of d repo n" by simp_all
qed

subsection \<open>An admitted item\<close>

definition example_item_db :: db where
  "example_item_db = registry_db\<lparr>
     github_current := [\<lparr>gc_repository = ''o/r'', gc_object_kind = ''issue'', gc_object_number = 1,
       gc_payload_sha256 = replicate 64 (CHR ''a''), gc_source_updated_at = ''t0'', gc_fetched_at = ''t0''\<rparr>],
     github_snapshots := [\<lparr>gs_repository = ''o/r'', gs_object_kind = ''issue'', gs_object_number = 1,
       gs_payload_sha256 = replicate 64 (CHR ''a''), gs_source_updated_at = ''t0'', gs_fetched_at = ''t0'',
       gs_payload_json = Some (PDict [])\<rparr>]\<rparr>"

definition example_admission :: item_request where
  "example_admission = \<lparr>iq_repository = ''o/r'', iq_issue_number = 1, iq_status = ''ACTIVE'',
     iq_allocation_class = ''ACTIVE'', iq_generation = 1, iq_accountable_session_id = Some ''role.development.v1'',
     iq_lease_manifest_sha256 = Some (replicate 64 (CHR ''b'')), iq_development_units = 1, iq_shared_units = 0,
     iq_sre_units = 0, iq_expected_source_sha256 = replicate 64 (CHR ''a''), iq_expected_version = 0\<rparr>"

definition example_intake :: item_request where
  "example_intake = example_admission\<lparr>iq_status := ''BACKLOG'', iq_allocation_class := ''NONE'',
     iq_accountable_session_id := None, iq_lease_manifest_sha256 := None\<rparr>"

definition example_now :: string where
  "example_now = ''2024-02-28T23:59:30Z''"

lemma example_item_db_tables:
  "coordination_items example_item_db = []" "coordination_terminal_watches example_item_db = []"
  "coordination_capacity_policies example_item_db = []" "coordination_capacity_current example_item_db = []"
  "hosted_operations example_item_db = []" "coordination_pre_push_publications example_item_db = []"
  by (simp_all add: example_item_db_def registry_db_def empty_db_def)

lemma example_item_db_inv: "item_store_inv example_item_db" "watch_inv example_item_db" "capacity_wf example_item_db"
proof -
  show wf: "capacity_wf example_item_db" by (simp add: capacity_wf_def example_item_db_tables)
  have "capacity_respected example_item_db repo" for repo
    by (simp add: capacity_respected_def within_def occupancy_def effective_limits_def current_policy_def
        example_item_db_tables occupied_units_def reserved_items_def reserved_hosted_sre_units_def
        DEFAULT_CAPACITY_LIMITS_def)
  with wf show "item_store_inv example_item_db"
    by (simp add: item_store_inv_def items_wf_def writers_exclusive_def leases_unique_def reserved_items_def
        example_item_db_tables)
  show "watch_inv example_item_db" by (simp add: watch_inv_def example_item_db_tables)
qed

lemma example_item_checks:
  "validate_item_request example_catalog example_item_db example_admission = Inr ()"
  "validate_item_request example_catalog example_item_db example_intake = Inr ()"
  "check_item (Some ADMISSION_ACTIVATION_GATEWAY) example_item_db example_admission = Inr ()"
  "check_item None example_item_db example_intake = Inr ()"
  "identity_role example_catalog example_item_db ''role.development.v1'' = Inr (Some ''development'')"
  by code_simp+

lemma example_capacity_checks:
  "check_capacity example_item_db example_admission now = Inr (install_default_policy ''o/r'' now example_item_db)"
  "check_capacity example_item_db example_intake now = Inr (install_default_policy ''o/r'' now example_item_db)"
  by (simp_all add: check_capacity_def ensure_capacity_policy_def current_policy_def example_item_db_tables
      install_default_policy_def insert_or_ignore_def example_admission_def example_intake_def policy_row_def
      DEFAULT_CAPACITY_LIMITS_def Let_def proposed_units_def other_reserved_def reserved_hosted_sre_units_def guard_eval)

lemma identity_role_cong:
  assumes "executor_role_endpoints d' = executor_role_endpoints d" and "sqlite_master d' = sqlite_master d"
  shows "identity_role catalog d' = identity_role catalog d"
proof -
  have "table_installed d' = table_installed d" "endpoint_of d' = endpoint_of d"
    by (simp_all add: fun_eq_iff table_installed_def endpoint_of_def assms)
  then show ?thesis by (intro ext) (simp only: identity_role_def)
qed

lemma example_admitted:
  "\<exists>d r. set_issue_status_locked example_catalog False (Some ADMISSION_ACTIVATION_GATEWAY) True
     example_item_db example_admission example_now = Inr (d, r)"
proof -
  let ?d1 = "install_default_policy ''o/r'' example_now example_item_db"
  have d1: "coordination_items ?d1 = []" "coordination_terminal_watches ?d1 = []" "coordination_pre_push_publications ?d1 = []"
    by (simp_all add: install_default_policy_def example_item_db_tables)
  have role: "identity_role example_catalog (?d1\<lparr>coordination_items := xs\<rparr>) ''role.development.v1'' = Inr (Some ''development'')" for xs
    using example_item_checks(5) identity_role_cong [of "?d1\<lparr>coordination_items := xs\<rparr>" example_item_db]
    by (simp add: install_default_policy_def)
  have "check_lease ?d1 example_admission = Inr ()"
    by (simp add: check_lease_def other_reserved_def d1 guard_eval)
  moreover have "\<exists>d2. write_item ?d1 example_admission example_now = Inr d2 \<and>
      (\<exists>d3. watch_item example_catalog (Some ADMISSION_ACTIVATION_GATEWAY) True d2 None example_admission example_now = Inr d3)"
    using timestamp_after_leap_day [folded example_now_def] role
    by (simp add: write_item_def current_of_def item_of_def d1 guard_eval watch_item_def executes_def
        example_admission_def ACTIVE_EXECUTION_STATUSES_def open_item_watch_def watch_of_def insert_watch_def)
  moreover have "current_of example_item_db example_admission = None"
    by (simp add: current_of_def item_of_def example_item_db_tables)
  ultimately show ?thesis
    by (auto simp: set_issue_status_locked_def change_item_def example_item_checks example_capacity_checks release_item_def)
qed

lemma example_taken_in:
  "\<exists>d r. set_issue_status_locked example_catalog False None False example_item_db example_intake now = Inr (d, r)"
proof -
  let ?d1 = "install_default_policy ''o/r'' now example_item_db"
  have d1: "coordination_items ?d1 = []" "coordination_pre_push_publications ?d1 = []"
    by (simp_all add: install_default_policy_def example_item_db_tables)
  have "check_lease ?d1 example_intake = Inr ()"
    by (simp add: check_lease_def other_reserved_def d1 guard_eval)
  moreover have "\<exists>d2. write_item ?d1 example_intake now = Inr d2"
    by (simp add: write_item_def current_of_def item_of_def d1 guard_eval)
  moreover have "\<not> executes example_intake" "current_of example_item_db example_intake = None"
    by (simp_all add: executes_def example_intake_def current_of_def item_of_def example_item_db_tables)
  ultimately show ?thesis
    by (auto simp: set_issue_status_locked_def change_item_def example_item_checks example_capacity_checks
        release_item_def watch_item_def)
qed

theorem item_store_inv_preserved_witness: "\<exists>d. item_store_inv d \<and> item_version d (''o/r'', 1) = 1"
proof -
  from example_admitted obtain d r where ok: "set_issue_status_locked example_catalog False
      (Some ADMISSION_ACTIVATION_GATEWAY) True example_item_db example_admission example_now = Inr (d, r)" by blast
  from item_store_inv_preserved [OF example_item_db_inv(1)] ok have "item_store_inv d" by blast
  moreover have "item_version d (''o/r'', 1) = 1"
    using locked_versions(3) [OF example_item_db_inv(3) ok] by (simp add: item_version_def item_key_def example_admission_def)
  ultimately show ?thesis by blast
qed

theorem execution_watched_witness:
  "\<exists>d i. watch_inv d \<and> item_of d ''o/r'' 1 = Some i \<and> executing i \<and>
     (\<exists>w \<in> set (coordination_terminal_watches d). watches w i)"
proof -
  from example_admitted obtain d r where ok: "set_issue_status_locked example_catalog False
      (Some ADMISSION_ACTIVATION_GATEWAY) True example_item_db example_admission example_now = Inr (d, r)" by blast
  have "item_of d ''o/r'' 1 = Some (item_row_of example_admission example_now)"
    using locked_versions(3) [OF example_item_db_inv(3) ok] by (simp add: item_key_def example_admission_def)
  moreover have "executing (item_row_of example_admission example_now)"
    by (simp add: executing_def example_admission_def ACTIVE_EXECUTION_STATUSES_def)
  ultimately show ?thesis using execution_watched [OF example_item_db_inv(3) ok] example_item_db_inv(1,2) by blast
qed

theorem status_change_effect_witness:
  "\<exists>d. item_of d ''o/r'' 1 = Some (item_row_of example_admission example_now)"
proof -
  from example_admitted obtain d r where ok: "set_issue_status_locked example_catalog False
      (Some ADMISSION_ACTIVATION_GATEWAY) True example_item_db example_admission example_now = Inr (d, r)" by blast
  from status_change_effect [OF example_item_db_inv(3) ok]
  have "item_of d ''o/r'' 1 = (if (''o/r'', 1) = item_key example_admission
      then Some (item_row_of example_admission example_now) else item_of example_item_db ''o/r'' 1)" by blast
  moreover have "(''o/r'', 1) = item_key example_admission" by (simp add: item_key_def example_admission_def)
  ultimately show ?thesis by auto
qed

theorem ordinary_change_needs_no_gateway_witness:
  "\<not> creating_execution example_item_db example_intake \<and> \<not> releases_or_finishes example_item_db example_intake"
proof -
  from example_taken_in [of example_now] obtain d r where
    "set_issue_status example_catalog False example_item_db example_intake example_now = Inr (d, r)"
    by (auto simp: set_issue_status_def)
  from ordinary_change_needs_no_gateway [OF example_item_db_inv(3) this] show ?thesis by blast
qed

text \<open>Between the two changes the issue is quarantined.\<close>

theorem status_change_no_lost_update_witness:
  "\<exists>d r e f. set_issue_status_locked example_catalog False None False example_item_db example_intake example_now = Inr (d, r) \<and>
     set_issue_status_locked example_catalog False None False (d\<lparr>coordination_items := map f (coordination_items d)\<rparr>)
       example_intake example_now = Inl e \<and> item_version (d\<lparr>coordination_items := map f (coordination_items d)\<rparr>) (''o/r'', 1) = 2"
proof -
  from example_taken_in [of example_now] obtain d r where
    ok: "set_issue_status_locked example_catalog False None False example_item_db example_intake example_now = Inr (d, r)"
    by blast
  define hit where "hit = (\<lambda>i. is_item ''o/r'' 1 i \<and> it_version i = 1 \<and> it_status i = ''BACKLOG'')"
  define f where "f = (\<lambda>i :: item_row. i\<lparr>it_status := ''HOLD'', it_version := it_version i + 1\<rparr>)"
  define h where "h = (\<lambda>i. if hit i then f i else i)"
  let ?e = "d\<lparr>coordination_items := map h (coordination_items d)\<rparr>"
  have "item_step d ?e" by (rule item_step.fenced [where f = f and repo = "''o/r''" and n = 1 and v = 1 and p = "\<lambda>i. it_status i = ''BACKLOG''"])
    (simp_all add: update_where_def h_def hit_def f_def)
  then have run: "item_step\<^sup>*\<^sup>* d ?e" by blast
  from status_change_no_lost_update [OF example_item_db_inv(3) ok run refl refl]
  obtain err where err: "set_issue_status_locked example_catalog False None False ?e example_intake example_now = Inl err" by blast
  have row: "item_of d ''o/r'' 1 = Some (item_row_of example_intake example_now)"
    using locked_versions(3) [OF example_item_db_inv(3) ok] by (simp add: item_key_def example_intake_def example_admission_def)
  have "item_of ?e ''o/r'' 1 = map_option h (item_of d ''o/r'' 1)"
  proof -
    have "is_item ''o/r'' 1 (f x) = is_item ''o/r'' 1 x" for x by (simp add: is_item_def f_def)
    from find_update_where [of "is_item ''o/r'' 1" f, OF this, of hit "coordination_items d"]
    show ?thesis by (simp add: item_of_def update_where_def is_item_def [abs_def] h_def)
  qed
  with row have "item_version ?e (''o/r'', 1) = 2"
    by (simp add: item_version_def is_item_def example_intake_def example_admission_def h_def hit_def f_def)
  with ok err show ?thesis by (intro exI [of _ d] exI [of _ r] exI [of _ err] exI [of _ h]) simp
qed

theorem issue_plan_atomic_witness:
  "\<exists>d rs. apply_issue_plan example_catalog example_item_db [example_intake] example_now = Inr (d, rs) \<and>
     item_of d ''o/r'' 1 = Some (item_row_of example_intake example_now)"
proof -
  have "\<not> in_transaction example_item_db" by (simp add: example_item_db_def registry_db_def empty_db_def)
  with example_taken_in [of example_now] obtain d rs where
    ok: "apply_issue_plan example_catalog example_item_db [example_intake] example_now = Inr (d, rs)"
    by (auto simp: apply_issue_plan_def guard_eval transaction_def apply_entry_def set_issue_status_def)
  from issue_plan_atomic [OF example_item_db_inv(3)] ok
  have "item_of d (iq_repository example_intake) (iq_issue_number example_intake) =
      Some (item_row_of example_intake example_now)" by fastforce
  with ok show ?thesis by (simp add: example_intake_def example_admission_def)
qed

end
