(* ===== verification/Source_Equivalence.thy ===== *)
theory Source_Equivalence
  imports Transition_Guard Coordination_Base
begin

section \<open>Source equivalence of an admission\<close>

text \<open>
  admission_source_equivalence.py and its two clients in portfolio_graph.py. A claimed admission is
  bound to the snapshot it was admitted with. When only volatile fields of the issue change, a receipt
  lets that one lineage go on under the new snapshot: \<open>active_admission_source_equivalence\<close> looks the
  receipt up, \<open>admission_lineage_source_is_current\<close> accepts a source for a lineage, and
  \<open>evaluate_graph_for_admission_lineage\<close> forgives a graph that is stale for that reason alone.

  The receipt column is kept as text and as its decoded value, since the code compares the text with
  the canonical one. A column of a nullable text that goes through \<open>str\<close> reads \<open>None\<close> as \<open>''None''\<close>.
\<close>

subsection \<open>Projections of an issue\<close>

definition volatile_key :: "string \<Rightarrow> bool" where
  "volatile_key k \<longleftrightarrow> k = ''updated_at'' \<or> prefix ''_projection_'' k"

definition stable_issue_projection :: "pyval \<Rightarrow> pyval res" where
  "stable_issue_projection payload =
     guarded [(\<not> is_dict payload, ValueError ''SOURCE_EQUIVALENCE_PAYLOAD_INVALID'')]
       (Inr (PDict (filter (\<lambda>kv. \<not> volatile_key (fst kv)) (dict_of payload))))"

definition stable_issue_digest :: "pyval \<Rightarrow> string res" where
  "stable_issue_digest payload =
     bind_res (stable_issue_projection payload) (\<lambda>p. Inr (digest_json p))"

definition require_stable_issue_equivalence :: "pyval \<Rightarrow> pyval \<Rightarrow> string res" where
  "require_stable_issue_equivalence bound current =
     bind_res (stable_issue_digest bound) (\<lambda>bound_digest.
     bind_res (stable_issue_digest current) (\<lambda>current_digest.
     guarded [(bound_digest \<noteq> current_digest, ValueError ''SOURCE_EQUIVALENCE_MATERIAL_DRIFT'')]
       (Inr bound_digest)))"

subsection \<open>Receipts\<close>

record lineage =
  ln_repository :: string
  ln_issue_number :: int
  ln_generation :: int
  ln_message_id :: int
  ln_watch_key :: string
  ln_item_version :: int
  ln_bound_source_sha256 :: string
  ln_current_source_sha256 :: string
  ln_endpoint_id :: string
  ln_claimant :: string
  ln_claim_attempt_id :: string
  ln_lease_manifest_sha256 :: string

definition receipt_row_matches :: "lineage \<Rightarrow> equivalence_row \<Rightarrow> bool" where
  "receipt_row_matches l r \<longleftrightarrow>
     eq_repository r = ln_repository l \<and> eq_issue_number r = ln_issue_number l \<and>
     eq_generation r = ln_generation l \<and> eq_message_id r = ln_message_id l \<and>
     eq_watch_key r = ln_watch_key l \<and> eq_item_version r = ln_item_version l \<and>
     eq_bound_source_sha256 r = ln_bound_source_sha256 l \<and>
     eq_current_source_sha256 r = ln_current_source_sha256 l \<and>
     eq_endpoint_id r = ln_endpoint_id l \<and> eq_claimant r = ln_claimant l \<and>
     eq_claim_attempt_id r = ln_claim_attempt_id l \<and>
     eq_lease_manifest_sha256 r = ln_lease_manifest_sha256 l"

definition intact_receipt :: "equivalence_row \<Rightarrow> bool" where
  "intact_receipt r \<longleftrightarrow>
     (case eq_receipt_json r of
        None \<Rightarrow> False
      | Some receipt \<Rightarrow> is_dict receipt \<and> canonical_json receipt = eq_receipt_text r \<and>
          digest_json receipt = eq_receipt_sha256 r \<and>
          py_get (dict_of receipt) ''kind'' = PStr ''TWINFINITY_ADMISSION_SOURCE_EQUIVALENCE_RECEIPT_V1'' \<and>
          py_get (dict_of receipt) ''receipt_key'' = PStr (eq_receipt_key r) \<and>
          py_get (dict_of receipt) ''preview_sha256'' = PStr (eq_preview_sha256 r))"

definition lineage_well_formed :: "lineage \<Rightarrow> bool" where
  "lineage_well_formed l \<longleftrightarrow>
     [] \<notin> {ln_repository l, ln_watch_key l, ln_endpoint_id l, ln_claimant l, ln_claim_attempt_id l,
            ln_lease_manifest_sha256 l} \<and>
     SHA256 (ln_bound_source_sha256 l) \<and> SHA256 (ln_current_source_sha256 l) \<and>
     SHA256 (ln_lease_manifest_sha256 l)"

definition active_admission_source_equivalence :: "db \<Rightarrow> lineage \<Rightarrow> bool" where
  "active_admission_source_equivalence d l \<longleftrightarrow>
     lineage_well_formed l \<and> table_installed d ''coordination_admission_source_equivalence'' \<and>
     (case List.find (receipt_row_matches l) (coordination_admission_source_equivalence d) of
        None \<Rightarrow> False | Some r \<Rightarrow> intact_receipt r)"

subsection \<open>The current source of a lineage\<close>

definition str_of_option :: "string option \<Rightarrow> string" where
  "str_of_option x = (case x of None \<Rightarrow> ''None'' | Some s \<Rightarrow> s)"

definition claims_lineage :: "item_row \<Rightarrow> message_row \<Rightarrow> terminal_watch_row \<Rightarrow> bool" where
  "claims_lineage item message watch \<longleftrightarrow>
     ms_state message = ''CLAIMED'' \<and> tw_state watch = ''ACTIVE'' \<and>
     (case tw_admission_message_id watch of None \<Rightarrow> 0 | Some i \<Rightarrow> i) = ms_id message \<and>
     tw_admission_payload_sha256 watch = Some (ms_payload_sha256 message) \<and>
     ms_claimed_by message = it_accountable_session_id item \<and>
     Some (tw_accountable_session_id watch) = it_accountable_session_id item \<and>
     Some (tw_lease_manifest_sha256 watch) = it_lease_manifest_sha256 item \<and>
     tw_claim_attempt_id watch \<noteq> None"

definition lineage_of ::
  "item_row \<Rightarrow> message_row \<Rightarrow> terminal_watch_row \<Rightarrow> string \<Rightarrow> int option \<Rightarrow> lineage" where
  "lineage_of item message watch source receipt_item_version =
     \<lparr>ln_repository = it_repository item, ln_issue_number = it_issue_number item,
      ln_generation = it_generation item, ln_message_id = ms_id message, ln_watch_key = tw_watch_key watch,
      ln_item_version = (case receipt_item_version of None \<Rightarrow> it_version item | Some v \<Rightarrow> v),
      ln_bound_source_sha256 = it_source_payload_sha256 item, ln_current_source_sha256 = source,
      ln_endpoint_id = str_of_option (it_accountable_session_id item),
      ln_claimant = str_of_option (ms_claimed_by message),
      ln_claim_attempt_id = str_of_option (tw_claim_attempt_id watch),
      ln_lease_manifest_sha256 = str_of_option (it_lease_manifest_sha256 item)\<rparr>"

definition admission_lineage_source_is_current ::
  "db \<Rightarrow> item_row \<Rightarrow> message_row \<Rightarrow> terminal_watch_row \<Rightarrow> string \<Rightarrow> int option \<Rightarrow> bool" where
  "admission_lineage_source_is_current d item message watch source receipt_item_version =
     (if source = it_source_payload_sha256 item then True
      else if \<not> claims_lineage item message watch then False
      else active_admission_source_equivalence d
             (lineage_of item message watch source receipt_item_version))"

subsection \<open>The graph, for one lineage\<close>

definition node_of_issue :: "db \<Rightarrow> string \<Rightarrow> int \<Rightarrow> int \<Rightarrow> graph_node_row option" where
  "node_of_issue d repository version issue_number =
     List.find (\<lambda>n. gn_issue_number n = issue_number) (nodes_of d repository version)"

definition drift_reasons :: "int \<Rightarrow> string option \<Rightarrow> string list" where
  "drift_reasons issue_number key =
     [''GRAPH_SOURCE_DRIFT'', ''GRAPH_SOURCE_DRIFT:issue:'' @ str_of_int issue_number] @
     (case key of None \<Rightarrow> [] | Some k \<Rightarrow> [''GRAPH_SOURCE_DRIFT:'' @ k])"

text \<open>The second component of the result is the key \<open>source_equivalence\<close>.\<close>

definition evaluate_graph_for_admission_lineage ::
  "db \<Rightarrow> string \<Rightarrow> string \<Rightarrow> item_row \<Rightarrow> message_row \<Rightarrow> terminal_watch_row \<Rightarrow> int option \<Rightarrow>
   (evaluation \<times> bool) res" where
  "evaluate_graph_for_admission_lineage d repository current_main item message watch receipt_item_version =
     bind_res (evaluate_graph d repository current_main False) (\<lambda>(_, result).
       if gv_health result = ''CURRENT'' then Inr (result, False)
       else case current_source d repository ''issue'' (it_issue_number item) of
           None \<Rightarrow> Inr (result, False)
         | Some current \<Rightarrow>
             let node = node_of_issue d repository (gv_version result) (it_issue_number item);
                 allowed = drift_reasons (it_issue_number item) (map_option gn_node_key node) in
             if gv_stale_reasons result \<noteq> [] \<and> set (gv_stale_reasons result) \<subseteq> set allowed \<and>
                admission_lineage_source_is_current d item message watch (gc_payload_sha256 current)
                  receipt_item_version
             then Inr (result\<lparr>gv_health := ''CURRENT'', gv_stale_reasons := []\<rparr>, True)
             else Inr (result, False))"

subsection \<open>The graph, for one pair of sources\<close>

text \<open>The join of a ready finalization with the candidate it finalized.\<close>

definition finalized_candidates :: "db \<Rightarrow> string \<Rightarrow> int \<Rightarrow> int \<Rightarrow> candidate_row list" where
  "finalized_candidates d repository issue_number generation =
     concat (map (\<lambda>f. filter (\<lambda>c. cd_id c = fz_ready_candidate_id f) (portfolio_pull_buffer_candidates d))
       (filter (\<lambda>f. fz_repository f = repository \<and> fz_issue_number f = issue_number \<and>
          fz_generation f = generation) (portfolio_ready_finalizations d)))"

definition pull_tables_installed :: "db \<Rightarrow> bool" where
  "pull_tables_installed d \<longleftrightarrow> table_installed d ''portfolio_ready_finalizations'' \<and>
     table_installed d ''portfolio_pull_buffer_candidates''"

definition binding_fits ::
  "item_row \<Rightarrow> candidate_row \<Rightarrow> graph_node_row \<Rightarrow> projection \<Rightarrow> graph_current_row \<Rightarrow> graph_revision_row \<Rightarrow>
   string \<Rightarrow> string \<Rightarrow> string \<Rightarrow> bool" where
  "binding_fits item b n pj c r node_source bound current \<longleftrightarrow>
     cd_state b = ''READY'' \<and> cd_source_payload_sha256 b = bound \<and>
     cd_accepted_main_sha b = gr_accepted_main_sha r \<and> cd_accepted_main_sha b = gp_observed_main_sha c \<and>
     node_source = current \<and> gn_dispatchable n \<and> pj_structurally_ready pj \<and> gn_lane_key n = cd_lane_key b \<and>
     (it_development_units item, it_shared_units item, it_sre_units item) =
       (cd_development_units b, cd_shared_units b, cd_sre_units b) \<and>
     (it_development_units item, it_shared_units item, it_sre_units item) =
       (gn_development_units n, gn_shared_units n, gn_sre_units n)"

text \<open>\<open>except PortfolioGraphError: return False\<close>\<close>

fun transition_allowed :: "unit res \<Rightarrow> bool res" where
  "transition_allowed (Inr ()) = Inr True"
| "transition_allowed (Inl (PortfolioGraphError e)) = Inr False"
| "transition_allowed (Inl e) = Inl e"

definition current_pair_allowed ::
  "db \<Rightarrow> string \<Rightarrow> int \<Rightarrow> string \<Rightarrow> string \<Rightarrow> graph_current_row \<Rightarrow> graph_revision_row \<Rightarrow> graph_node_row \<Rightarrow>
   evaluation \<Rightarrow> bool res" where
  "current_pair_allowed d repository issue_number bound current c r row result =
     (if \<not> pull_tables_installed d then Inr False
      else case item_of d repository issue_number of
          None \<Rightarrow> Inr False
        | Some item \<Rightarrow>
            (case (finalized_candidates d repository issue_number (it_generation item),
                   filter (\<lambda>n. gn_issue_number n = issue_number) (nodes_of d repository (gv_version result)),
                   filter (\<lambda>pj. pj_issue_number pj = issue_number) (gv_nodes result)) of
               ([b], [n], [pj]) \<Rightarrow>
                 if it_status item \<in> set EXECUTION_STATUSES - {''READY''} \<and>
                    it_allocation_class item = ''ACTIVE'' \<and> it_source_payload_sha256 item = bound \<and>
                    binding_fits item b n pj c r (gn_source_payload_sha256 row) bound current
                 then transition_allowed (validate_portfolio_transition d repository issue_number
                        (it_status item) (it_allocation_class item) (Some (cd_accepted_main_sha b)))
                 else Inr False
             | _ \<Rightarrow> Inr False))"

definition graph_allows_admission_source_pair ::
  "db \<Rightarrow> string \<Rightarrow> int \<Rightarrow> string \<Rightarrow> string \<Rightarrow> bool res" where
  "graph_allows_admission_source_pair d repository issue_number bound current =
     (case current_join d repository of
        None \<Rightarrow> Inr False
      | Some (c, r) \<Rightarrow>
          (case (node_of_issue d repository (gp_version c) issue_number,
                 current_source d repository ''issue'' issue_number) of
             (Some row, Some source) \<Rightarrow>
               if gp_observed_main_sha c \<noteq> gr_accepted_main_sha r \<or> gc_payload_sha256 source \<noteq> current
               then Inr False
               else bind_res (evaluate_graph d repository (gr_accepted_main_sha r) False) (\<lambda>(_, result).
                 if gv_health result = ''CURRENT''
                 then current_pair_allowed d repository issue_number bound current c r row result
                 else if gn_source_payload_sha256 row \<noteq> bound then Inr False
                 else Inr (gv_stale_reasons result \<noteq> [] \<and> set (gv_stale_reasons result) \<subseteq>
                        set (drift_reasons issue_number (Some (gn_node_key row)))))
           | _ \<Rightarrow> Inr False))"

subsection \<open>What a lineage is forgiven\<close>

text \<open>
  The drift that belongs to issue \<open>i\<close>: the keys and the reasons an admission of the issue may be forgiven.
  The text \<open>issue:N\<close> is the name the evaluation gives an excluded issue; nothing keeps a node of another
  issue from having it as its key.
\<close>

definition own_key :: "db \<Rightarrow> string \<Rightarrow> int \<Rightarrow> string \<Rightarrow> bool" where
  "own_key d repository i k \<longleftrightarrow> k = ''issue:'' @ str_of_int i \<or>
     (\<exists>n \<in> set (graph_nodes d repository). gn_issue_number n = i \<and> gn_node_key n = k)"

definition own_drift :: "db \<Rightarrow> string \<Rightarrow> int \<Rightarrow> string \<Rightarrow> bool" where
  "own_drift d repository i reason \<longleftrightarrow> reason = ''GRAPH_SOURCE_DRIFT'' \<or>
     (\<exists>k. own_key d repository i k \<and> reason = ''GRAPH_SOURCE_DRIFT:'' @ k)"

lemma own_drift_kinds:
  "\<not> own_drift d repo i ''GRAPH_CURSOR_DRIFT''" "\<not> own_drift d repo i ''GRAPH_STALE''"
  "\<not> own_drift d repo i (''GRAPH_SOURCE_MISSING:'' @ x)" "\<not> own_drift d repo i ''GRAPH_SCOPE_INVALID''"
  "own_drift d repo i (''GRAPH_SOURCE_DRIFT:'' @ x) \<longleftrightarrow> own_key d repo i x"
  by (simp_all add: own_drift_def)

lemma set_drift_reasons:
  "set (drift_reasons i k) = {''GRAPH_SOURCE_DRIFT'', ''GRAPH_SOURCE_DRIFT:'' @ ''issue:'' @ str_of_int i} \<union>
     (\<lambda>x. ''GRAPH_SOURCE_DRIFT:'' @ x) ` set_option k"
  by (cases k) (simp_all add: drift_reasons_def insert_commute)

lemma drift_reasons_own:
  assumes "x \<in> set (drift_reasons i (map_option gn_node_key (node_of_issue d repo (current_version d repo) i)))"
  shows "own_drift d repo i x"
proof -
  have "own_key d repo i (''issue:'' @ str_of_int i)" by (simp add: own_key_def)
  moreover have "own_key d repo i k"
    if "k \<in> set_option (map_option gn_node_key (node_of_issue d repo (current_version d repo) i))" for k
    using that find_SomeD by (fastforce simp: own_key_def node_of_issue_def graph_nodes_def)
  ultimately show ?thesis using assms unfolding own_drift_def set_drift_reasons by blast
qed

lemma lineage_cases:
  assumes "graph_wf d"
    and "evaluate_graph_for_admission_lineage d repo main item message watch riv = Inr (v, forgiven)"
  shows "\<exists>result. evaluate_stored d repo main = Inr result \<and> (\<not> forgiven \<longrightarrow> v = result) \<and>
    (forgiven \<longrightarrow> gv_health result \<noteq> ''CURRENT'' \<and> gv_stale_reasons result \<noteq> [] \<and>
       (\<forall>x \<in> set (gv_stale_reasons result). own_drift d repo (it_issue_number item) x) \<and>
       v = result\<lparr>gv_health := ''CURRENT'', gv_stale_reasons := []\<rparr> \<and>
       (\<exists>c. current_source d repo ''issue'' (it_issue_number item) = Some c \<and>
          admission_lineage_source_is_current d item message watch (gc_payload_sha256 c) riv))"
proof -
  from assms(2) obtain result where r: "evaluate_stored d repo main = Inr result"
    unfolding evaluate_graph_for_admission_lineage_def by (auto simp: guard_simps)
  from r assms(1) have ver: "gv_version result = current_version d repo" by (rule evaluate_graph_Inr)
  from r assms(2) have "(forgiven \<longrightarrow> gv_health result \<noteq> ''CURRENT'' \<and> gv_stale_reasons result \<noteq> [] \<and>
       set (gv_stale_reasons result) \<subseteq> set (drift_reasons (it_issue_number item)
         (map_option gn_node_key (node_of_issue d repo (current_version d repo) (it_issue_number item)))) \<and>
       v = result\<lparr>gv_health := ''CURRENT'', gv_stale_reasons := []\<rparr> \<and>
       (\<exists>c. current_source d repo ''issue'' (it_issue_number item) = Some c \<and>
          admission_lineage_source_is_current d item message watch (gc_payload_sha256 c) riv)) \<and>
     (\<not> forgiven \<longrightarrow> v = result)"
    unfolding evaluate_graph_for_admission_lineage_def Let_def
    by (auto simp: guard_simps ver split: if_splits option.splits)
  with r drift_reasons_own show ?thesis by (intro exI [of _ result]) blast
qed

text \<open>
  What an evaluation says of the graph when every stale reason is one of a set of forgivable reasons.
\<close>

lemma forgivable_node:
  assumes "\<forall>x \<in> set (node_stale_reason d repo n). forgiven \<and> own_drift d repo i x"
  shows "\<exists>s. source_join d repo ''issue'' (gn_issue_number n) = Some s \<and>
    (gc_payload_sha256 (fst s) = gn_source_payload_sha256 n \<or> forgiven \<and> own_key d repo i (gn_node_key n))"
  using assms own_drift_kinds(3,5) [of d repo i "gn_node_key n"]
  by (cases "source_join d repo ''issue'' (gn_issue_number n)")
    (auto simp: node_stale_reason_def snapshot_of_def simp del: append_Cons split: if_splits)

lemma forgivable_exclusion:
  assumes "\<forall>x \<in> set (exclusion_stale_reason d repo e). forgiven \<and> own_drift d repo i x"
  shows "is_dict e \<and> (\<exists>j c s. py_int_of (py_get (dict_of e) ''issue_number'') = Some j \<and>
    snapshot_of d repo j = Inr (c, s) \<and>
    (PStr (gc_payload_sha256 c) = py_get (dict_of e) ''source_payload_sha256'' \<or>
     forgiven \<and> own_key d repo i (''issue:'' @ py_text (py_get (dict_of e) ''issue_number''))))"
  using assms own_drift_kinds(4) [of d repo i]
    own_drift_kinds(3) [of d repo i "''issue:'' @ py_text (py_get (dict_of e) ''issue_number'')"]
    own_drift_kinds(5) [of d repo i "''issue:'' @ py_text (py_get (dict_of e) ''issue_number'')"]
  by (auto simp: exclusion_stale_reason_def Let_def split: if_splits option.splits sum.splits prod.splits)

lemma forgivable_scope:
  assumes "\<forall>x \<in> set (scope_stale_reasons d repo r). forgiven \<and> own_drift d repo i x"
  shows "\<exists>scope exclusions. gr_scope_json r = Some scope \<and> gr_exclusions_json r = Some exclusions \<and>
    (scope_is_issue_set scope \<longrightarrow> is_list exclusions \<and>
       (\<forall>e \<in> set (list_of exclusions). \<forall>x \<in> set (exclusion_stale_reason d repo e). forgiven \<and> own_drift d repo i x))"
  using assms own_drift_kinds(4) [of d repo i]
  by (auto simp: scope_stale_reasons_def split: if_splits option.splits)

text \<open>
  C29: a graph is accepted for an admission only if it is current or nothing but the drift of the
  admission's own issue keeps it from being so. Let an evaluation for a lineage be \<open>CURRENT\<close>. If nothing was
  forgiven it is the ordinary evaluation. If something was, the ordinary evaluation is stale, every one of
  its reasons is \<open>GRAPH_SOURCE_DRIFT\<close>, \<open>GRAPH_SOURCE_DRIFT:issue:N\<close> for the item's number \<open>N\<close>, or
  \<open>GRAPH_SOURCE_DRIFT:\<close> and the key of the issue's node, only health and reasons differ in the result, and
  the current source of the issue is the one the item is bound to or an intact receipt covers exactly this
  message, watch, claim and lease. Either way the graph was observed at the given main commit, its
  recorded mark is current or such a drift, every node's and every excluded issue's source is on record
  and unchanged unless the name of the node or exclusion is forgiven, and the scope reads back. A node of
  another issue is forgiven only if its key is literally \<open>issue:N\<close>.
\<close>

theorem lineage_graph_current:
  assumes "graph_wf d"
    and "evaluate_graph_for_admission_lineage d repo main item message watch riv = Inr (v, forgiven)"
    and "gv_health v = ''CURRENT''"
  shows "\<exists>result c r scope exclusions.
    evaluate_graph d repo main False = Inr (d, result) \<and> (\<not> forgiven \<longrightarrow> v = result) \<and>
    (forgiven \<longrightarrow> gv_health result \<noteq> ''CURRENT'' \<and> gv_stale_reasons result \<noteq> [] \<and>
       (\<forall>x \<in> set (gv_stale_reasons result). x = ''GRAPH_SOURCE_DRIFT'' \<or>
          x = ''GRAPH_SOURCE_DRIFT:issue:'' @ str_of_int (it_issue_number item) \<or>
          (\<exists>n \<in> set (graph_nodes d repo). gn_issue_number n = it_issue_number item \<and>
             x = ''GRAPH_SOURCE_DRIFT:'' @ gn_node_key n)) \<and>
       v = result\<lparr>gv_health := ''CURRENT'', gv_stale_reasons := []\<rparr> \<and>
       (\<exists>s. current_source d repo ''issue'' (it_issue_number item) = Some s \<and>
         (gc_payload_sha256 s = it_source_payload_sha256 item \<or>
          (claims_lineage item message watch \<and>
           (\<exists>q \<in> set (coordination_admission_source_equivalence d).
              receipt_row_matches (lineage_of item message watch (gc_payload_sha256 s) riv) q \<and> intact_receipt q))))) \<and>
    graph_current_of d repo = Some c \<and> gp_observed_main_sha c = main \<and>
    (gp_health c = ''CURRENT'' \<or> forgiven \<and>
       (\<exists>e. gp_last_error c = Some e \<and> own_drift d repo (it_issue_number item) e)) \<and>
    (\<forall>n \<in> set (graph_nodes d repo). \<exists>s. source_join d repo ''issue'' (gn_issue_number n) = Some s \<and>
       (gc_payload_sha256 (fst s) = gn_source_payload_sha256 n \<or>
        forgiven \<and> own_key d repo (it_issue_number item) (gn_node_key n))) \<and>
    revision_of d repo (gv_version v) = Some r \<and> gr_scope_json r = Some scope \<and>
    gr_exclusions_json r = Some exclusions \<and>
    (scope_is_issue_set scope \<longrightarrow> is_list exclusions \<and> (\<forall>e \<in> set (list_of exclusions).
       is_dict e \<and> (\<exists>j cs s. py_int_of (py_get (dict_of e) ''issue_number'') = Some j \<and>
         snapshot_of d repo j = Inr (cs, s) \<and>
         (PStr (gc_payload_sha256 cs) = py_get (dict_of e) ''source_payload_sha256'' \<or>
          forgiven \<and> own_key d repo (it_issue_number item)
            (''issue:'' @ py_text (py_get (dict_of e) ''issue_number''))))))"
proof -
  let ?i = "it_issue_number item"
  let ?P = "\<lambda>x. forgiven \<and> own_drift d repo ?i x"
  obtain result where ev: "evaluate_stored d repo main = Inr result" and same: "\<not> forgiven \<longrightarrow> v = result"
    and f: "forgiven \<longrightarrow> gv_health result \<noteq> ''CURRENT'' \<and> gv_stale_reasons result \<noteq> [] \<and>
       (\<forall>x \<in> set (gv_stale_reasons result). own_drift d repo ?i x) \<and>
       v = result\<lparr>gv_health := ''CURRENT'', gv_stale_reasons := []\<rparr> \<and>
       (\<exists>c. current_source d repo ''issue'' ?i = Some c \<and>
          admission_lineage_source_is_current d item message watch (gc_payload_sha256 c) riv)"
    using lineage_cases [OF assms(1,2)] by blast
  from ev assms(1) obtain g where g: "read_graph d repo = Inr g"
    and h: "gv_health result = (if stale_reasons d repo main g = [] then ''CURRENT'' else ''STALE'')"
    and ver: "gv_version result = current_version d repo"
    and reasons: "gv_stale_reasons result = sort (remdups (stale_reasons d repo main g))"
    by (rule evaluate_graph_Inr)
  note lg = read_graph_Inr [OF g]
  have all: "\<forall>x \<in> set (stale_reasons d repo main g). ?P x"
    using f same h reasons assms(3) by (cases forgiven) (auto split: if_splits)
  have version: "gv_version v = current_version d repo" using same f ver by (cases forgiven) auto
  have cursor: "gp_observed_main_sha (lg_current g) = main"
    using all own_drift_kinds(1) [of d repo ?i] by (auto simp: stale_reasons_def split: if_splits)
  have mark: "gp_health (lg_current g) = ''CURRENT'' \<or> forgiven \<and>
      (\<exists>e. gp_last_error (lg_current g) = Some e \<and> own_drift d repo ?i e)"
    using all own_drift_kinds(2) [of d repo ?i] by (auto simp: stale_reasons_def split: if_splits option.splits)
  have nodes: "\<forall>n \<in> set (graph_nodes d repo). \<exists>s. source_join d repo ''issue'' (gn_issue_number n) = Some s \<and>
      (gc_payload_sha256 (fst s) = gn_source_payload_sha256 n \<or> forgiven \<and> own_key d repo ?i (gn_node_key n))"
    using all lg(1) by (intro ballI forgivable_node) (auto simp: stale_reasons_def)
  have "\<forall>x \<in> set (scope_stale_reasons d repo (lg_revision g)). ?P x" using all by (auto simp: stale_reasons_def)
  from forgivable_scope [OF this] obtain scope exclusions where
    sc: "gr_scope_json (lg_revision g) = Some scope" "gr_exclusions_json (lg_revision g) = Some exclusions"
    and ex: "scope_is_issue_set scope \<longrightarrow> is_list exclusions \<and>
      (\<forall>e \<in> set (list_of exclusions). \<forall>x \<in> set (exclusion_stale_reason d repo e). ?P x)" by blast
  have src: "gc_payload_sha256 c = it_source_payload_sha256 item \<or> (claims_lineage item message watch \<and>
      (\<exists>r \<in> set (coordination_admission_source_equivalence d).
         receipt_row_matches (lineage_of item message watch (gc_payload_sha256 c) riv) r \<and> intact_receipt r))"
    if "admission_lineage_source_is_current d item message watch (gc_payload_sha256 c) riv" for c
    using that by (auto simp: admission_lineage_source_is_current_def active_admission_source_equivalence_def
        split: if_splits option.splits dest!: find_SomeD)
  have names: "\<forall>x \<in> set (gv_stale_reasons result). x = ''GRAPH_SOURCE_DRIFT'' \<or>
      x = ''GRAPH_SOURCE_DRIFT:issue:'' @ str_of_int ?i \<or>
      (\<exists>n \<in> set (graph_nodes d repo). gn_issue_number n = ?i \<and> x = ''GRAPH_SOURCE_DRIFT:'' @ gn_node_key n)"
    if forgiven
    using f that by (auto simp: own_drift_def own_key_def)
  have excluded: "scope_is_issue_set scope \<longrightarrow> is_list exclusions \<and> (\<forall>e \<in> set (list_of exclusions).
       is_dict e \<and> (\<exists>j cs s. py_int_of (py_get (dict_of e) ''issue_number'') = Some j \<and>
         snapshot_of d repo j = Inr (cs, s) \<and>
         (PStr (gc_payload_sha256 cs) = py_get (dict_of e) ''source_payload_sha256'' \<or>
          forgiven \<and> own_key d repo ?i (''issue:'' @ py_text (py_get (dict_of e) ''issue_number'')))))"
    using ex by (intro impI conjI ballI forgivable_exclusion) simp_all
  have forgiving: "gv_health result \<noteq> ''CURRENT'' \<and> gv_stale_reasons result \<noteq> [] \<and>
      v = result\<lparr>gv_health := ''CURRENT'', gv_stale_reasons := []\<rparr>"
    "\<exists>s. current_source d repo ''issue'' ?i = Some s \<and>
      admission_lineage_source_is_current d item message watch (gc_payload_sha256 s) riv" if forgiven
    using f that by (simp_all only: simp_thms)
  show ?thesis
    apply (rule exI [of _ result], rule exI [of _ "lg_current g"], rule exI [of _ "lg_revision g"])
    apply (rule exI [of _ scope], rule exI [of _ exclusions])
    apply (intro conjI impI)
    subgoal using ev by (simp only: evaluate_graph_False simp_thms)
    subgoal using same by (simp only: simp_thms)
    subgoal by (simp only: forgiving(1) simp_thms)
    subgoal by (simp only: forgiving(1) simp_thms)
    subgoal by (rule names)
    subgoal by (simp only: forgiving(1) simp_thms)
    subgoal using forgiving(2) src by blast
    subgoal by (rule lg(4))
    subgoal by (rule cursor)
    subgoal by (rule mark)
    subgoal by (rule nodes)
    subgoal using lg(6) by (simp only: version)
    subgoal by (rule sc(1))
    subgoal by (rule sc(2))
    subgoal by (drule mp [OF excluded]) (erule conjunct1)
    subgoal by (drule mp [OF excluded]) (erule conjunct2)
    done
qed

subsection \<open>A graph marked stale\<close>

definition example_stale_db :: db where
  "example_stale_db = scheduling_db\<lparr>portfolio_graph_current :=
     map (\<lambda>c. c\<lparr>gp_health := ''STALE'', gp_last_error := Some ''GRAPH_SOURCE_DRIFT''\<rparr>)
       (portfolio_graph_current scheduling_db)\<rparr>"

definition example_message :: message_row where
  "example_message = \<lparr>ms_id = 1, ms_idempotency_key = ''m'', ms_recipient_session_id = ''role.development.v1'',
     ms_topic = ''development.admission'', ms_payload_sha256 = example_sha, ms_payload_json = None,
     ms_state = ''CLAIMED'', ms_claimed_by = None, ms_created_at = ''t0'', ms_updated_at = ''t0'', ms_last_error = None\<rparr>"

definition example_watch :: terminal_watch_row where
  "example_watch = \<lparr>tw_watch_key = ''w'', tw_repository = HARNESS_REPOSITORY, tw_issue_number = 1,
     tw_generation = 1, tw_accountable_session_id = ''role.development.v1'', tw_lease_manifest_sha256 = example_sha,
     tw_state = ''ACTIVE'', tw_admission_message_id = Some 1, tw_admission_payload_sha256 = None,
     tw_claim_attempt_id = None, tw_attempts = 0, tw_process_id = None, tw_target_progress_sha256 = None,
     tw_last_heartbeat_at = ''t0'', tw_next_wake_at = ''t0'', tw_updated_at = ''t0'', tw_last_error = None\<rparr>"

text \<open>
  The docstring allows only a receipt-bound reason. The code also clears the mark of a graph none of
  whose sources drifts, for an item whose bound source is the current one, with no receipt at all.
\<close>

lemma forgiven_without_receipt:
  "coordination_admission_source_equivalence example_stale_db = [] \<and>
   (case evaluate_graph_for_admission_lineage example_stale_db HARNESS_REPOSITORY (replicate 40 (CHR ''b''))
      (example_item 1) example_message example_watch None of
      Inr (v, forgiven) \<Rightarrow> gv_health v = ''CURRENT'' \<and> forgiven | Inl _ \<Rightarrow> False)"
  by code_simp

text \<open>
  A reason is matched by its text alone. With a node of issue 2 whose key is \<open>issue:1\<close>, the drift of issue 2 is
  forgiven for an admission of issue 1.
\<close>

definition example_named_db :: db where
  "example_named_db = scheduling_db\<lparr>portfolio_graph_relations := [],
     portfolio_graph_nodes := [(example_stored_node ''issue:1'' 2 ''INTENTIONAL'')
       \<lparr>gn_source_payload_sha256 := replicate 64 (CHR ''0'')\<rparr>]\<rparr>"

lemma forgiven_for_another_issue:
  "(case evaluate_stored example_named_db HARNESS_REPOSITORY (replicate 40 (CHR ''b'')) of
      Inr v \<Rightarrow> gv_stale_reasons v = [''GRAPH_SOURCE_DRIFT:issue:1''] | Inl _ \<Rightarrow> False) \<and>
   (case evaluate_graph_for_admission_lineage example_named_db HARNESS_REPOSITORY (replicate 40 (CHR ''b''))
      (example_item 1) example_message example_watch None of
      Inr (v, forgiven) \<Rightarrow> gv_health v = ''CURRENT'' \<and> forgiven | Inl _ \<Rightarrow> False)"
  by code_simp

lemma example_stale_db_wf: "graph_wf example_stale_db"
proof -
  have "current_version example_stale_db = current_version scheduling_db"
    by (simp add: fun_eq_iff current_version_def graph_current_of_def example_stale_db_def scheduling_db_def)
  with scheduling_db_wf show ?thesis
    by (simp add: graph_wf_def example_stale_db_def relations_of_def nodes_of_def comp_def)
qed

theorem lineage_graph_current_witness:
  "\<exists>c. graph_current_of example_stale_db HARNESS_REPOSITORY = Some c \<and>
     gp_observed_main_sha c = replicate 40 (CHR ''b'')"
proof -
  from forgiven_without_receipt obtain v where
    "evaluate_graph_for_admission_lineage example_stale_db HARNESS_REPOSITORY (replicate 40 (CHR ''b''))
      (example_item 1) example_message example_watch None = Inr (v, True)" "gv_health v = ''CURRENT''"
    by (auto split: sum.splits prod.splits)
  from lineage_graph_current [OF example_stale_db_wf this] show ?thesis by blast
qed

end
