(* ===== verification/Outbox.thy ===== *)
theory Outbox
  imports Item_Status Source_Equivalence
begin

section \<open>The GitHub outbox\<close>

text \<open>
  The outbox of coordination_store.py: a comment is prepared once under an idempotency key, reserved
  by a publisher, and completed with the receipt of the remote comment or held. The comment that
  closes an issue (its row has a closeout packet) is completed only from a read-back of the published
  body by the bound publisher; when the read-back misses, a bounded recovery prepares it again.

  \<open>outbox_of\<close>, \<open>packet_of\<close>, \<open>publisher_of\<close>, \<open>recovery_of\<close> and \<open>readback_of\<close> are the queries by outbox id.
\<close>

definition TERMINAL_OUTBOX_READBACK_ATTEMPTS_PER_RETRY :: int where
  "TERMINAL_OUTBOX_READBACK_ATTEMPTS_PER_RETRY = 3"

definition TERMINAL_OUTBOX_MAX_RETRY_ROUNDS :: int where
  "TERMINAL_OUTBOX_MAX_RETRY_ROUNDS = 3"

definition outbox_of :: "db \<Rightarrow> int \<Rightarrow> outbox_row option" where
  "outbox_of d i = List.find (\<lambda>r. ob_id r = i) (github_outbox d)"

definition packet_of :: "db \<Rightarrow> int \<Rightarrow> closeout_packet_row option" where
  "packet_of d i = List.find (\<lambda>p. ck_outbox_id p = i) (coordination_terminal_closeout_packets d)"

definition publisher_of :: "db \<Rightarrow> int \<Rightarrow> outbox_publisher_row option" where
  "publisher_of d i = List.find (\<lambda>p. op_outbox_id p = i) (coordination_terminal_outbox_publishers d)"

definition recovery_of :: "db \<Rightarrow> int \<Rightarrow> outbox_recovery_row option" where
  "recovery_of d i = List.find (\<lambda>r. rv_outbox_id r = i) (coordination_terminal_outbox_recovery d)"

definition readback_of :: "db \<Rightarrow> int \<Rightarrow> outbox_readback_row option" where
  "readback_of d i = List.find (\<lambda>r. rb_outbox_id r = i) (coordination_terminal_outbox_readbacks d)"

definition unsettled :: "outbox_row \<Rightarrow> bool" where
  "unsettled r \<longleftrightarrow> ob_state r = ''PREPARED'' \<or> ob_state r = ''INFLIGHT'' \<or> ob_state r = ''HOLD''"

definition update_outbox :: "(outbox_row \<Rightarrow> bool) \<Rightarrow> (outbox_row \<Rightarrow> outbox_row) \<Rightarrow> db \<Rightarrow> db" where
  "update_outbox p f d = d\<lparr>github_outbox := update_where p f (github_outbox d)\<rparr>"

definition update_recovery :: "(outbox_recovery_row \<Rightarrow> bool) \<Rightarrow> (outbox_recovery_row \<Rightarrow> outbox_recovery_row) \<Rightarrow> db \<Rightarrow> db" where
  "update_recovery p f d = d\<lparr>coordination_terminal_outbox_recovery :=
     update_where p f (coordination_terminal_outbox_recovery d)\<rparr>"

definition log_outbox :: "string \<Rightarrow> int \<Rightarrow> pyval \<Rightarrow> string \<Rightarrow> db \<Rightarrow> db" where
  "log_outbox event i payload now d = append_event event (''outbox:'' @ str_of_int i) payload now d"

subsection \<open>The graph a closeout is bound to\<close>

record terminal_binding =
  tb_graph_version :: int
  tb_graph_binding_sha256 :: string

definition message_of :: "db \<Rightarrow> int \<Rightarrow> message_row option" where
  "message_of d i = List.find (\<lambda>m. ms_id m = i) (coordination_messages d)"

definition binding_rows :: "db \<Rightarrow> string \<Rightarrow> int \<Rightarrow> (graph_current_row \<times> graph_revision_row \<times> graph_node_row) list" where
  "binding_rows d repository issue_number =
     (case current_join d repository of
        None \<Rightarrow> []
      | Some (c, r) \<Rightarrow> map (\<lambda>n. (c, r, n))
          (filter (\<lambda>n. gn_issue_number n = issue_number) (nodes_of d repository (gp_version c))))"

definition closeout_item_version :: "db \<Rightarrow> string \<Rightarrow> int \<Rightarrow> string \<Rightarrow> int option" where
  "closeout_item_version d repository issue_number source =
     map_option ck_expected_item_version
       (List.find (\<lambda>p. ck_repository p = repository \<and> ck_issue_number p = issue_number \<and>
          ck_source_payload_sha256 p = source) (coordination_terminal_closeout_packets d))"

text \<open>Whether a stale graph is forgiven for the issue's admission; \<open>None\<close> of item, watch or message: no.\<close>

definition lineage_forgives :: "db \<Rightarrow> string \<Rightarrow> int \<Rightarrow> string \<Rightarrow> string \<Rightarrow> bool res" where
  "lineage_forgives d repository issue_number source main =
     (case item_of d repository issue_number of
        None \<Rightarrow> Inr False
      | Some item \<Rightarrow> (case watch_of d repository issue_number (it_generation item) of
          None \<Rightarrow> Inr False
        | Some watch \<Rightarrow> (case Option.bind (tw_admission_message_id watch) (message_of d) of
            None \<Rightarrow> Inr False
          | Some message \<Rightarrow>
              bind_res (evaluate_graph_for_admission_lineage d repository main item message watch
                (closeout_item_version d repository issue_number source))
                (\<lambda>(v, forgiven). Inr (gv_health v = ''CURRENT'' \<and> forgiven)))))"

definition binding_descriptor :: "string \<Rightarrow> int \<Rightarrow> string \<Rightarrow> graph_current_row \<Rightarrow> graph_revision_row \<Rightarrow> graph_node_row \<Rightarrow> pyval" where
  "binding_descriptor repository issue_number source c r n =
     PDict [(''repository'', PStr repository), (''issue_number'', PInt issue_number),
       (''graph_version'', PInt (gp_version c)), (''graph_sha256'', PStr (gr_graph_sha256 r)),
       (''graph_main_sha'', PStr (gp_observed_main_sha c)), (''graph_node_key'', PStr (gn_node_key n)),
       (''source_payload_sha256'', PStr source)]"

definition current_terminal_graph_binding :: "db \<Rightarrow> string \<Rightarrow> int \<Rightarrow> string \<Rightarrow> terminal_binding res" where
  "current_terminal_graph_binding d repository issue_number source =
     (case binding_rows d repository issue_number of
        [(c, r, n)] \<Rightarrow>
          let fits = (gp_observed_main_sha c = gr_accepted_main_sha r \<and> gn_source_payload_sha256 n = source);
              binding = \<lparr>tb_graph_version = gp_version c,
                tb_graph_binding_sha256 = digest_json (binding_descriptor repository issue_number source c r n)\<rparr> in
          if gp_health c = ''CURRENT'' \<and> fits then Inr binding
          else bind_res (lineage_forgives d repository issue_number source (gr_accepted_main_sha r)) (\<lambda>forgiven.
            guarded [(\<not> (fits \<and> forgiven), CoordinationError ''TERMINAL_GRAPH_BINDING_DRIFT'')] (Inr binding))
      | _ \<Rightarrow> Inl (CoordinationError ''TERMINAL_GRAPH_BINDING_UNAVAILABLE''))"

definition packet_binding :: "db \<Rightarrow> closeout_packet_row \<Rightarrow> terminal_binding res" where
  "packet_binding d p =
     current_terminal_graph_binding d (ck_repository p) (ck_issue_number p) (ck_source_payload_sha256 p)"

definition binding_agrees :: "closeout_packet_row \<Rightarrow> terminal_binding \<Rightarrow> bool" where
  "binding_agrees p b \<longleftrightarrow> ck_graph_version p = tb_graph_version b \<and>
     ck_graph_binding_sha256 p = tb_graph_binding_sha256 b"

subsection \<open>Preparing and publishing a comment\<close>

record comment_request =
  cq_idempotency_key :: string
  cq_repository :: string
  cq_object_kind :: string
  cq_object_number :: int
  cq_expected_source_sha256 :: string
  cq_body :: string

definition comment_payload :: "comment_request \<Rightarrow> pyval" where
  "comment_payload q = PDict [(''body'', PStr (cq_body q))]"

definition comment_of :: "db \<Rightarrow> string \<Rightarrow> outbox_row option" where
  "comment_of d k = List.find (\<lambda>r. ob_idempotency_key r = k) (github_outbox d)"

definition comment_matches :: "comment_request \<Rightarrow> outbox_row \<Rightarrow> bool" where
  "comment_matches q r \<longleftrightarrow> ob_repository r = cq_repository q \<and> ob_object_kind r = cq_object_kind q \<and>
     ob_object_number r = cq_object_number q \<and> ob_expected_source_sha256 r = cq_expected_source_sha256 q \<and>
     ob_payload_sha256 r = digest_json (comment_payload q)"

definition new_comment :: "db \<Rightarrow> comment_request \<Rightarrow> string \<Rightarrow> outbox_row" where
  "new_comment d q now =
     \<lparr>ob_id = next_rowid ob_id (github_outbox d), ob_idempotency_key = cq_idempotency_key q,
      ob_repository = cq_repository q, ob_object_kind = cq_object_kind q, ob_object_number = cq_object_number q,
      ob_operation = ''comment'', ob_expected_source_sha256 = cq_expected_source_sha256 q,
      ob_payload_sha256 = digest_json (comment_payload q), ob_payload_json = Some (comment_payload q),
      ob_state = ''PREPARED'', ob_remote_receipt = None, ob_created_at = now, ob_updated_at = now,
      ob_last_error = None\<rparr>"

definition prepare_comment :: "bool \<Rightarrow> db \<Rightarrow> comment_request \<Rightarrow> string \<Rightarrow> (db \<times> int) res" where
  "prepare_comment allow_source_equivalence d q now =
     bind_res (current_snapshot d (cq_repository q) (cq_object_kind q) (cq_object_number q)) (\<lambda>source.
     guarded [(source = None \<or> (source_drifts (cq_expected_source_sha256 q) source \<and> \<not> allow_source_equivalence),
               CoordinationError ''SOURCE_SNAPSHOT_DRIFT'')]
     (case comment_of d (cq_idempotency_key q) of
        Some r \<Rightarrow> guarded [(\<not> comment_matches q r, CoordinationError ''IDEMPOTENCY_CONFLICT'')] (Inr (d, ob_id r))
      | None \<Rightarrow>
          let row = new_comment d q now in
          Inr (log_outbox ''OUTBOX_PREPARED'' (ob_id row) (comment_payload q) now
                 (d\<lparr>github_outbox := github_outbox d @ [row]\<rparr>), ob_id row)))"

definition enqueue_comment :: "bool \<Rightarrow> bool \<Rightarrow> db \<Rightarrow> comment_request \<Rightarrow> string \<Rightarrow> (db \<times> int) res" where
  "enqueue_comment own_transaction allow_source_equivalence d q now =
     bind_res (store_validate_repository (cq_repository q)) (\<lambda>_.
     bind_res (validate_sha256 (cq_expected_source_sha256 q)) (\<lambda>_.
     guarded [(cq_object_kind q \<notin> set SOURCE_KINDS \<or> cq_object_number q \<le> 0 \<or> cq_body q = [],
               CoordinationError ''INVALID_OUTBOX_ITEM'')]
       (if own_transaction then transaction d (prepare_comment allow_source_equivalence d q now)
        else prepare_comment allow_source_equivalence d q now)))"

text \<open>The source a row is published against, directly or through the lineage of its closeout.\<close>

definition closeout_source_current :: "db \<Rightarrow> closeout_packet_row \<Rightarrow> string \<Rightarrow> bool" where
  "closeout_source_current d p source =
     (case (item_of d (ck_repository p) (ck_issue_number p), message_of d (ck_activation_message_id p),
            List.find (\<lambda>w. tw_watch_key w = ck_terminal_watch_key p) (coordination_terminal_watches d)) of
        (Some item, Some message, Some watch) \<Rightarrow>
          admission_lineage_source_is_current d item message watch source (Some (ck_expected_item_version p))
      | _ \<Rightarrow> False)"

definition publication_source_current :: "db \<Rightarrow> outbox_row \<Rightarrow> (github_current_row \<times> pyval) option \<Rightarrow> bool" where
  "publication_source_current d r source \<longleftrightarrow>
     (case source of
        None \<Rightarrow> False
      | Some (c, _) \<Rightarrow> gc_payload_sha256 c = ob_expected_source_sha256 r \<or>
          (case packet_of d (ob_id r) of None \<Rightarrow> False
           | Some p \<Rightarrow> closeout_source_current d p (gc_payload_sha256 c)))"

text \<open>\<open>outbox_source_is_current\<close>: the publisher's own check, before it reserves the row.\<close>

definition outbox_source_is_current :: "db \<Rightarrow> int \<Rightarrow> string \<Rightarrow> bool" where
  "outbox_source_is_current d i source =
     (case outbox_of d i of
        None \<Rightarrow> False
      | Some r \<Rightarrow> ob_expected_source_sha256 r = source \<or>
          (case packet_of d i of
             None \<Rightarrow> False
           | Some p \<Rightarrow> ob_repository r = ck_repository p \<and> ob_object_number r = ck_issue_number p \<and>
               ob_expected_source_sha256 r = ck_source_payload_sha256 p \<and> closeout_source_current d p source))"

definition check_closeout_publication :: "db \<Rightarrow> closeout_packet_row \<Rightarrow> unit res" where
  "check_closeout_publication d p =
     guarded [(map_option op_closeout_key (publisher_of d (ck_outbox_id p)) \<noteq> Some (ck_closeout_key p),
               CoordinationError ''TERMINAL_OUTBOX_PUBLISHER_UNBOUND'')]
     (bind_res (packet_binding d p) (\<lambda>b.
        guarded [(\<not> binding_agrees p b, CoordinationError ''TERMINAL_CLOSEOUT_GRAPH_DRIFT'')] (Inr ())))"

definition inflight :: "int \<Rightarrow> string \<Rightarrow> db \<Rightarrow> db" where
  "inflight i now d =
     update_recovery (\<lambda>r. rv_outbox_id r = i \<and> rv_state r = ''RETRY_READY'')
       (\<lambda>r. r\<lparr>rv_state := ''PENDING'', rv_updated_at := now, rv_last_error := None\<rparr>)
     (update_outbox (\<lambda>r. ob_id r = i \<and> ob_state r = ''PREPARED'')
       (\<lambda>r. r\<lparr>ob_state := ''INFLIGHT'', ob_updated_at := now\<rparr>) d)"

definition reserve_outbox :: "db \<Rightarrow> int \<Rightarrow> string \<Rightarrow> (db \<times> outbox_row) res" where
  "reserve_outbox d i now =
     transaction d
     (require_some (CoordinationError ''OUTBOX_NOT_FOUND'') (outbox_of d i) (\<lambda>row.
      guarded [(ob_state row \<noteq> ''PREPARED'', CoordinationError ''OUTBOX_STATE_CONFLICT'')]
      (bind_res (current_snapshot d (ob_repository row) (ob_object_kind row) (ob_object_number row)) (\<lambda>source.
       guarded [(\<not> publication_source_current d row source, CoordinationError ''SOURCE_SNAPSHOT_DRIFT'')]
       (bind_res (case packet_of d i of None \<Rightarrow> Inr () | Some p \<Rightarrow> check_closeout_publication d p) (\<lambda>_.
        require_some TypeError (outbox_of (inflight i now d) i) (\<lambda>reserved.
        Inr (log_outbox ''OUTBOX_INFLIGHT'' i (PDict [(''payload_sha256'', PStr (ob_payload_sha256 row))]) now
               (inflight i now d), reserved))))))))"

definition complete_outbox :: "db \<Rightarrow> int \<Rightarrow> string \<Rightarrow> string \<Rightarrow> db res" where
  "complete_outbox d i remote_receipt now =
     guarded [(remote_receipt = [], CoordinationError ''INVALID_REMOTE_RECEIPT'')]
     (transaction d
       (let hit = (\<lambda>r. ob_id r = i \<and> ob_state r = ''INFLIGHT'') in
        guarded [(packet_of d i \<noteq> None, CoordinationError ''TERMINAL_OUTBOX_READBACK_REQUIRED''),
                 (length (filter hit (github_outbox d)) \<noteq> 1, CoordinationError ''OUTBOX_STATE_CONFLICT'')]
        (Inr (log_outbox ''OUTBOX_COMPLETED'' i (PDict [(''remote_receipt'', PStr remote_receipt)]) now
           (update_outbox hit (\<lambda>r. r\<lparr>ob_state := ''COMPLETE'', ob_remote_receipt := Some remote_receipt,
              ob_updated_at := now, ob_last_error := None\<rparr>) d)))))"

text \<open>\<open>[A-Z][A-Z0-9_]*\<close>\<close>

definition error_code :: "string \<Rightarrow> bool" where
  "error_code s \<longleftrightarrow> s \<noteq> [] \<and> is_upper (hd s) \<and> list_all (\<lambda>c. is_upper c \<or> is_digit c \<or> c = CHR ''_'') (tl s)"

definition hold_recovery :: "int \<Rightarrow> string \<Rightarrow> string \<Rightarrow> db \<Rightarrow> db" where
  "hold_recovery i error now d =
     update_recovery (\<lambda>r. rv_outbox_id r = i)
       (\<lambda>r. r\<lparr>rv_state := ''HOLD'', rv_updated_at := now, rv_last_error := Some error\<rparr>) d"

definition hold_outbox :: "db \<Rightarrow> int \<Rightarrow> string \<Rightarrow> string \<Rightarrow> db res" where
  "hold_outbox d i error0 now =
     (let error = (if error_code error0 then error0 else ''OUTBOX_FAILED'');
          hit = (\<lambda>r. ob_id r = i \<and> (ob_state r = ''PREPARED'' \<or> ob_state r = ''INFLIGHT'')) in
      transaction d
        (guarded [(length (filter hit (github_outbox d)) \<noteq> 1, CoordinationError ''OUTBOX_STATE_CONFLICT'')]
         (Inr (log_outbox ''OUTBOX_HELD'' i (PDict [(''error'', PStr error)]) now
            (hold_recovery i error now
              (update_outbox hit (\<lambda>r. r\<lparr>ob_state := ''HOLD'', ob_updated_at := now, ob_last_error := Some error\<rparr>) d))))))"

subsection \<open>The publisher of a closeout\<close>

text \<open>
  Text is UTF-8: its length counts the bytes that start a character, and \<open>isspace\<close> is true of the ASCII
  white space and separators and of the other white-space characters listed by their bytes.
\<close>

definition utf8_length :: "string \<Rightarrow> nat" where
  "utf8_length s = length (filter (\<lambda>c. of_char c < (128 :: int) \<or> 192 \<le> (of_char c :: int)) s)"

definition SPACES :: "string list" where
  "SPACES = map (map char_of) ([[9 :: nat], [10], [11], [12], [13], [28], [29], [30], [31], [32],
     [194, 133], [194, 160], [225, 154, 128], [226, 128, 168], [226, 128, 169], [226, 128, 175],
     [226, 129, 159], [227, 128, 128]] @ map (\<lambda>b. [226, 128, b]) [128 ..< 139])"

definition has_space :: "string \<Rightarrow> bool" where
  "has_space s \<longleftrightarrow> list_ex (\<lambda>w. sublist w s) SPACES"

definition publisher_descriptor :: "int \<Rightarrow> string \<Rightarrow> string \<Rightarrow> pyval" where
  "publisher_descriptor i closeout_key login =
     PDict [(''schema'', PStr ''twinfinity-terminal-outbox-publisher/v1''), (''outbox_id'', PInt i),
       (''closeout_key'', PStr closeout_key), (''publisher_login'', PStr login)]"

text \<open>\<open>INSERT INTO coordination_terminal_outbox_publishers\<close> with its unique columns.\<close>

definition insert_publisher :: "outbox_publisher_row \<Rightarrow> db \<Rightarrow> db res" where
  "insert_publisher row d =
     guarded [(\<exists>p \<in> set (coordination_terminal_outbox_publishers d).
                 op_closeout_key p = op_closeout_key row \<or> op_binding_sha256 p = op_binding_sha256 row,
               IntegrityError ''UNIQUE'')]
       (Inr (d\<lparr>coordination_terminal_outbox_publishers := coordination_terminal_outbox_publishers d @ [row]\<rparr>))"

definition bind_terminal_outbox_publisher :: "db \<Rightarrow> int \<Rightarrow> string \<Rightarrow> string \<Rightarrow> (db \<times> outbox_publisher_row) res" where
  "bind_terminal_outbox_publisher d i login now =
     guarded [(login = [] \<or> utf8_length login > 100 \<or> has_space login,
               CoordinationError ''TERMINAL_OUTBOX_PUBLISHER_INVALID'')]
     (transaction d
       (require_some (CoordinationError ''TERMINAL_OUTBOX_NOT_FOUND'') (outbox_of d i) (\<lambda>outbox.
        require_some (CoordinationError ''TERMINAL_OUTBOX_NOT_FOUND'') (packet_of d i) (\<lambda>packet.
        require_some (CoordinationError ''TERMINAL_OUTBOX_NOT_FOUND'') (recovery_of d i) (\<lambda>recovery.
        let sha = digest_json (publisher_descriptor i (ck_closeout_key packet) login) in
        case publisher_of d i of
          Some p \<Rightarrow> guarded [(op_closeout_key p \<noteq> ck_closeout_key packet \<or> op_publisher_login p \<noteq> login \<or>
                             op_binding_sha256 p \<noteq> sha,
                             CoordinationError ''TERMINAL_OUTBOX_PUBLISHER_IDENTITY_MISMATCH'')] (Inr (d, p))
        | None \<Rightarrow>
            guarded [(ob_state outbox \<noteq> ''PREPARED'' \<or> ob_remote_receipt outbox \<noteq> None \<or>
                      rv_state recovery \<notin> {''PENDING'', ''RETRY_READY''},
                      CoordinationError ''TERMINAL_OUTBOX_PUBLISHER_UNBOUND'')]
            (let row = \<lparr>op_outbox_id = i, op_closeout_key = ck_closeout_key packet, op_publisher_login = login,
                        op_binding_sha256 = sha, op_bound_at = now\<rparr> in
             bind_res (insert_publisher row d) (\<lambda>d1.
               Inr (log_outbox ''TERMINAL_OUTBOX_PUBLISHER_BOUND'' i (PDict [(''binding_sha256'', PStr sha)]) now d1,
                    row))))))))"

definition publisher_conflict :: "db \<Rightarrow> int \<Rightarrow> string \<Rightarrow> string \<Rightarrow> bool" where
  "publisher_conflict d i observed error \<longleftrightarrow>
     (case (outbox_of d i, packet_of d i) of
        (Some outbox, Some packet) \<Rightarrow>
          \<not> unsettled outbox \<or> ob_remote_receipt outbox \<noteq> None \<or>
          (error = ''TERMINAL_OUTBOX_PUBLISHER_IDENTITY_MISMATCH'' \<and>
             (case publisher_of d i of None \<Rightarrow> True | Some p \<Rightarrow> op_publisher_login p = observed)) \<or>
          (error = ''TERMINAL_OUTBOX_PUBLISHER_UNBOUND'' \<and> publisher_of d i \<noteq> None)
      | _ \<Rightarrow> True)"

definition hold_terminal_outbox_publisher_identity :: "db \<Rightarrow> int \<Rightarrow> string \<Rightarrow> string \<Rightarrow> string \<Rightarrow> db res" where
  "hold_terminal_outbox_publisher_identity d i observed error now =
     guarded [(error \<notin> {''TERMINAL_OUTBOX_PUBLISHER_IDENTITY_MISMATCH'', ''TERMINAL_OUTBOX_PUBLISHER_UNBOUND''},
               CoordinationError ''TERMINAL_OUTBOX_PUBLISHER_ERROR_INVALID'')]
     (transaction d
       (guarded [(publisher_conflict d i observed error,
                  CoordinationError ''TERMINAL_OUTBOX_PUBLISHER_STATE_CONFLICT'')]
        (Inr (log_outbox ''TERMINAL_OUTBOX_PUBLISHER_HELD'' i (PDict [(''error'', PStr error)]) now
           (hold_recovery i error now
             (update_outbox (\<lambda>r. ob_id r = i)
               (\<lambda>r. r\<lparr>ob_state := ''HOLD'', ob_updated_at := now, ob_last_error := Some error\<rparr>) d))))))"

subsection \<open>Read-back of a closeout\<close>

text \<open>\<open>^comment:[1-9][0-9]*$\<close>\<close>

definition REMOTE_COMMENT_RECEIPT :: "string \<Rightarrow> bool" where
  "REMOTE_COMMENT_RECEIPT s \<longleftrightarrow> prefix ''comment:'' s \<and>
     (let n = drop 8 s in n \<noteq> [] \<and> list_all is_digit n \<and> hd n \<noteq> CHR ''0'')"

definition terminal_published_body :: "string \<Rightarrow> string \<Rightarrow> string" where
  "terminal_published_body body idempotency_key =
     body @ [CHR 0x0A, CHR 0x0A] @ ''<!-- twinfinity-outbox:'' @ sha256_hex idempotency_key @ '' -->''"

definition expected_body :: "outbox_row \<Rightarrow> string res" where
  "expected_body r =
     require_some (ValueError ''JSONDecodeError'') (ob_payload_json r) (\<lambda>payload.
     guarded [(\<not> is_dict payload, TypeError)]
     (require_some KeyError (map_of (dict_of payload) ''body'') (\<lambda>body.
        Inr (terminal_published_body (py_text body) (ob_idempotency_key r)))))"

definition readback_row :: "int \<Rightarrow> closeout_packet_row \<Rightarrow> string \<Rightarrow> string \<Rightarrow> string \<Rightarrow> string \<Rightarrow> outbox_readback_row" where
  "readback_row i packet remote_receipt body login now =
     \<lparr>rb_outbox_id = i, rb_closeout_key = ck_closeout_key packet, rb_remote_receipt = remote_receipt,
      rb_remote_receipt_sha256 = sha256_hex remote_receipt, rb_published_body_sha256 = sha256_hex body,
      rb_publisher_login = login, rb_observed_at = now\<rparr>"

definition readback_repeats :: "outbox_row \<Rightarrow> outbox_readback_row \<Rightarrow> outbox_readback_row \<Rightarrow> bool" where
  "readback_repeats outbox existing new \<longleftrightarrow>
     ob_state outbox = ''COMPLETE'' \<and> ob_remote_receipt outbox = Some (rb_remote_receipt new) \<and>
     rb_closeout_key existing = rb_closeout_key new \<and> rb_remote_receipt existing = rb_remote_receipt new \<and>
     rb_remote_receipt_sha256 existing = rb_remote_receipt_sha256 new \<and>
     rb_published_body_sha256 existing = rb_published_body_sha256 new \<and>
     rb_publisher_login existing = rb_publisher_login new"

definition insert_readback :: "outbox_readback_row \<Rightarrow> db \<Rightarrow> db res" where
  "insert_readback row d =
     guarded [(\<exists>r \<in> set (coordination_terminal_outbox_readbacks d).
                 rb_closeout_key r = rb_closeout_key row \<or> rb_remote_receipt r = rb_remote_receipt row,
               IntegrityError ''UNIQUE'')]
       (Inr (d\<lparr>coordination_terminal_outbox_readbacks := coordination_terminal_outbox_readbacks d @ [row]\<rparr>))"

definition settle_readback :: "int \<Rightarrow> string \<Rightarrow> string \<Rightarrow> db \<Rightarrow> db res" where
  "settle_readback i remote_receipt now d =
     (let hit = (\<lambda>r. ob_id r = i \<and> unsettled r \<and> ob_remote_receipt r = None) in
      guarded [(length (filter hit (github_outbox d)) \<noteq> 1, CoordinationError ''OUTBOX_STATE_CONFLICT'')]
      (Inr (log_outbox ''OUTBOX_COMPLETED'' i
         (PDict [(''remote_receipt'', PStr remote_receipt), (''readback'', PStr ''EXACT_MARKER'')]) now
         (update_recovery (\<lambda>r. rv_outbox_id r = i)
            (\<lambda>r. r\<lparr>rv_state := ''COMPLETE'', rv_updated_at := now, rv_last_error := None\<rparr>)
          (update_outbox hit (\<lambda>r. r\<lparr>ob_state := ''COMPLETE'', ob_remote_receipt := Some remote_receipt,
             ob_updated_at := now, ob_last_error := None\<rparr>) d)))))"

definition complete_terminal_outbox_from_readback ::
  "db \<Rightarrow> int \<Rightarrow> string \<Rightarrow> string \<Rightarrow> string \<Rightarrow> string \<Rightarrow> db res" where
  "complete_terminal_outbox_from_readback d i remote_receipt body login now =
     guarded [(\<not> REMOTE_COMMENT_RECEIPT remote_receipt \<or> body = [] \<or> login = [],
               CoordinationError ''TERMINAL_OUTBOX_READBACK_INVALID'')]
     (transaction d
       (require_some (CoordinationError ''TERMINAL_OUTBOX_NOT_FOUND'') (outbox_of d i) (\<lambda>outbox.
        require_some (CoordinationError ''TERMINAL_OUTBOX_NOT_FOUND'') (packet_of d i) (\<lambda>packet.
        guarded [(case publisher_of d i of None \<Rightarrow> True
                  | Some p \<Rightarrow> op_closeout_key p \<noteq> ck_closeout_key packet \<or> op_publisher_login p \<noteq> login,
                  CoordinationError ''TERMINAL_OUTBOX_PUBLISHER_IDENTITY_MISMATCH'')]
        (bind_res (expected_body outbox) (\<lambda>expected.
         let row = readback_row i packet remote_receipt body login now in
         case readback_of d i of
           Some existing \<Rightarrow>
             guarded [(\<not> readback_repeats outbox existing row \<or> body \<noteq> expected,
                       CoordinationError ''TERMINAL_OUTBOX_READBACK_CONFLICT'')] (Inr d)
         | None \<Rightarrow>
             guarded [(\<not> unsettled outbox \<or> ob_remote_receipt outbox \<noteq> None \<or>
                       ob_idempotency_key outbox \<noteq> ck_closeout_key packet \<or> body \<noteq> expected,
                       CoordinationError ''TERMINAL_OUTBOX_READBACK_CONFLICT'')]
             (bind_res (insert_readback row d) (settle_readback i remote_receipt now))))))))"

subsection \<open>A read-back that misses\<close>

record recovery_step =
  rs_attempts :: int
  rs_rounds :: int
  rs_outbox_state :: string
  rs_state :: string
  rs_next_retry_at :: string

definition retry_delay :: "int \<Rightarrow> int" where
  "retry_delay attempts = min (60 * 2 ^ nat (attempts - 1)) 900"

text \<open>\<open>except CoordinationError: binding = None\<close>\<close>

fun binding_or_none :: "terminal_binding res \<Rightarrow> terminal_binding option res" where
  "binding_or_none (Inr b) = Inr (Some b)"
| "binding_or_none (Inl (CoordinationError e)) = Inr None"
| "binding_or_none (Inl e) = Inl e"

definition may_retry :: "closeout_packet_row \<Rightarrow> int \<Rightarrow> terminal_binding option \<Rightarrow> (github_current_row \<times> pyval) option \<Rightarrow> bool" where
  "may_retry packet rounds binding source \<longleftrightarrow>
     rounds < TERMINAL_OUTBOX_MAX_RETRY_ROUNDS \<and> \<not> source_drifts (ck_source_payload_sha256 packet) source \<and>
     (case binding of None \<Rightarrow> False | Some b \<Rightarrow> binding_agrees packet b)"

definition next_recovery :: "db \<Rightarrow> closeout_packet_row \<Rightarrow> outbox_recovery_row \<Rightarrow> string \<Rightarrow> string \<Rightarrow> recovery_step res" where
  "next_recovery d packet recovery error now =
     (let attempts = rv_readback_attempts recovery + 1; rounds = rv_retry_rounds recovery;
          held = (\<lambda>at. \<lparr>rs_attempts = attempts, rs_rounds = rounds, rs_outbox_state = ''HOLD'',
                        rs_state = ''HOLD'', rs_next_retry_at = at\<rparr>) in
      bind_res (timestamp_after now (retry_delay attempts)) (\<lambda>waiting.
      if error = ''GITHUB_READBACK_DUPLICATE'' then bind_res (timestamp_after now 900) (\<lambda>at. Inr (held at))
      else if attempts \<ge> TERMINAL_OUTBOX_READBACK_ATTEMPTS_PER_RETRY then
        bind_res (binding_or_none (packet_binding d packet)) (\<lambda>binding.
        bind_res (current_snapshot d (ck_repository packet) ''issue'' (ck_issue_number packet)) (\<lambda>source.
        if may_retry packet rounds binding source
        then Inr \<lparr>rs_attempts = 0, rs_rounds = rounds + 1, rs_outbox_state = ''PREPARED'',
                  rs_state = ''RETRY_READY'', rs_next_retry_at = now\<rparr>
        else bind_res (timestamp_after now 900) (\<lambda>at. Inr (held at))))
      else Inr ((held waiting)\<lparr>rs_state := ''RETRY_WAIT''\<rparr>)))"

definition apply_recovery :: "int \<Rightarrow> recovery_step \<Rightarrow> string \<Rightarrow> string \<Rightarrow> db \<Rightarrow> db" where
  "apply_recovery i s error now d =
     log_outbox ''TERMINAL_OUTBOX_RECONCILED'' i
       (PDict [(''error'', PStr error), (''readback_attempts'', PInt (rs_attempts s)),
         (''retry_rounds'', PInt (rs_rounds s)), (''state'', PStr (rs_state s))]) now
     (update_recovery (\<lambda>r. rv_outbox_id r = i)
        (\<lambda>r. r\<lparr>rv_readback_attempts := rs_attempts s, rv_retry_rounds := rs_rounds s,
               rv_next_retry_at := rs_next_retry_at s, rv_state := rs_state s, rv_updated_at := now,
               rv_last_error := Some error\<rparr>)
      (update_outbox (\<lambda>r. ob_id r = i \<and> unsettled r \<and> ob_remote_receipt r = None)
        (\<lambda>r. r\<lparr>ob_state := rs_outbox_state s, ob_updated_at := now, ob_last_error := Some error\<rparr>) d))"

definition record_terminal_outbox_readback_miss ::
  "db \<Rightarrow> int \<Rightarrow> string \<Rightarrow> string \<Rightarrow> string \<Rightarrow> (db \<times> recovery_step) res" where
  "record_terminal_outbox_readback_miss d i error login now =
     guarded [(error \<notin> {''GITHUB_READBACK_MISSING'', ''GITHUB_READBACK_DUPLICATE''},
               CoordinationError ''TERMINAL_OUTBOX_RECOVERY_ERROR_INVALID'')]
     (transaction d
       (require_some (CoordinationError ''TERMINAL_OUTBOX_NOT_FOUND'') (outbox_of d i) (\<lambda>outbox.
        require_some (CoordinationError ''TERMINAL_OUTBOX_NOT_FOUND'') (packet_of d i) (\<lambda>packet.
        require_some (CoordinationError ''TERMINAL_OUTBOX_NOT_FOUND'') (recovery_of d i) (\<lambda>recovery.
        require_some (CoordinationError ''TERMINAL_OUTBOX_PUBLISHER_UNBOUND'') (publisher_of d i) (\<lambda>publisher.
        guarded [(op_publisher_login publisher \<noteq> login,
                  CoordinationError ''TERMINAL_OUTBOX_PUBLISHER_IDENTITY_MISMATCH''),
                 (\<not> unsettled outbox, CoordinationError ''OUTBOX_STATE_CONFLICT''),
                 (rv_state recovery = ''COMPLETE'', CoordinationError ''OUTBOX_STATE_CONFLICT''),
                 (rv_next_retry_at recovery > now, CoordinationError ''TERMINAL_OUTBOX_RETRY_NOT_DUE'')]
        (bind_res (next_recovery d packet recovery error now) (\<lambda>s.
           Inr (apply_recovery i s error now d, s)))))))))"

end
