(* ===== verification/Outbox_Refinement.thy ===== *)
theory Outbox_Refinement
  imports Outbox Versioned_Store
begin

section \<open>What the outbox promises\<close>

text \<open>
  An abstract publication has five states; every operation of the outbox moves the publication of each
  id by one step of \<open>publication_step\<close>, or not at all (the refinement). A completed publication is final,
  and the number of times one comment can be reserved for publishing is bounded by the retry rounds.
\<close>

subsection \<open>The abstract publication\<close>

datatype publication = Absent | Prepared | Inflight | Held | Completed "string option"

inductive publication_step :: "publication \<Rightarrow> publication \<Rightarrow> bool" where
  stay: "publication_step s s"
| prepare: "publication_step Absent Prepared"
| reserve: "publication_step Prepared Inflight"
| hold: "s \<in> {Prepared, Inflight, Held} \<Longrightarrow> publication_step s Held"
| retry: "s \<in> {Prepared, Inflight, Held} \<Longrightarrow> publication_step s Prepared"
| finish: "s \<in> {Prepared, Inflight, Held} \<Longrightarrow> publication_step s (Completed (Some receipt))"

inductive_simps publication_step_Completed: "publication_step (Completed r) s"

definition row_publication :: "outbox_row \<Rightarrow> publication" where
  "row_publication r =
     (if ob_state r = ''PREPARED'' then Prepared else if ob_state r = ''INFLIGHT'' then Inflight
      else if ob_state r = ''HOLD'' then Held else Completed (ob_remote_receipt r))"

definition publication_of :: "db \<Rightarrow> int \<Rightarrow> publication" where
  "publication_of d i = (case outbox_of d i of None \<Rightarrow> Absent | Some r \<Rightarrow> row_publication r)"

lemma row_publication_states:
  "ob_state r = ''PREPARED'' \<Longrightarrow> row_publication r = Prepared"
  "ob_state r = ''INFLIGHT'' \<Longrightarrow> row_publication r = Inflight"
  "ob_state r = ''HOLD'' \<Longrightarrow> row_publication r = Held"
  "ob_state r = ''COMPLETE'' \<Longrightarrow> row_publication r = Completed (ob_remote_receipt r)"
  by (simp_all add: row_publication_def)

lemma unsettled_publication: "unsettled r \<longleftrightarrow> row_publication r \<in> {Prepared, Inflight, Held}"
  by (auto simp: unsettled_def row_publication_def)

subsection \<open>The operations as one type\<close>

datatype outbox_op =
    Enqueue bool bool comment_request
  | BindPublisher int string
  | HoldPublisher int string string
  | Reserve int
  | Complete int string
  | Hold int string
  | Readback int string string string
  | Miss int string string

fun outbox_step :: "outbox_op \<times> string \<Rightarrow> db \<Rightarrow> db res" where
  "outbox_step (Enqueue own allow q, now) d = bind_res (enqueue_comment own allow d q now) (\<lambda>x. Inr (fst x))"
| "outbox_step (BindPublisher i login, now) d =
     bind_res (bind_terminal_outbox_publisher d i login now) (\<lambda>x. Inr (fst x))"
| "outbox_step (HoldPublisher i observed error, now) d =
     hold_terminal_outbox_publisher_identity d i observed error now"
| "outbox_step (Reserve i, now) d = bind_res (reserve_outbox d i now) (\<lambda>x. Inr (fst x))"
| "outbox_step (Complete i receipt, now) d = complete_outbox d i receipt now"
| "outbox_step (Hold i error, now) d = hold_outbox d i error now"
| "outbox_step (Readback i receipt body login, now) d =
     complete_terminal_outbox_from_readback d i receipt body login now"
| "outbox_step (Miss i error login, now) d =
     bind_res (record_terminal_outbox_readback_miss d i error login now) (\<lambda>x. Inr (fst x))"

subsection \<open>Table updates\<close>

lemma outbox_update_fields [simp]:
  "github_outbox (update_outbox p f d) = update_where p f (github_outbox d)"
  "github_outbox (update_recovery q g d) = github_outbox d"
  "github_outbox (log_outbox e i v now d) = github_outbox d"
  "coordination_terminal_outbox_recovery (update_outbox p f d) = coordination_terminal_outbox_recovery d"
  "coordination_terminal_outbox_recovery (update_recovery q g d) =
     update_where q g (coordination_terminal_outbox_recovery d)"
  "coordination_terminal_outbox_recovery (log_outbox e i v now d) = coordination_terminal_outbox_recovery d"
  "coordination_terminal_closeout_packets (update_outbox p f d) = coordination_terminal_closeout_packets d"
  "coordination_terminal_closeout_packets (update_recovery q g d) = coordination_terminal_closeout_packets d"
  "coordination_terminal_closeout_packets (log_outbox e i v now d) = coordination_terminal_closeout_packets d"
  by (simp_all add: update_outbox_def update_recovery_def log_outbox_def)

definition outbox_wf :: "db \<Rightarrow> bool" where
  "outbox_wf d \<longleftrightarrow> distinct (map ob_id (github_outbox d)) \<and> distinct (map ob_idempotency_key (github_outbox d))"

definition retry_rounds :: "db \<Rightarrow> int \<Rightarrow> int" where
  "retry_rounds d i = (case recovery_of d i of None \<Rightarrow> 0 | Some r \<Rightarrow> rv_retry_rounds r)"

text \<open>An update of the rows of one id, which moves the publication of each by \<open>step\<close>.\<close>

definition moves :: "int \<Rightarrow> (publication \<Rightarrow> publication \<Rightarrow> bool) \<Rightarrow> db \<Rightarrow> db \<Rightarrow> bool" where
  "moves i step d d' \<longleftrightarrow>
     (\<exists>p f. github_outbox d' = update_where p f (github_outbox d) \<and>
        (\<forall>r. ob_id (f r) = ob_id r \<and> ob_idempotency_key (f r) = ob_idempotency_key r) \<and>
        (\<forall>r. p r \<longrightarrow> ob_id r = i \<and> step (row_publication r) (row_publication (f r))))"

lemma movesI:
  assumes "github_outbox d' = update_where p f (github_outbox d)"
    and "\<And>r. ob_id (f r) = ob_id r" and "\<And>r. ob_idempotency_key (f r) = ob_idempotency_key r"
    and "\<And>r. p r \<Longrightarrow> ob_id r = i" and "\<And>r. p r \<Longrightarrow> step (row_publication r) (row_publication (f r))"
  shows "moves i step d d'"
  using assms unfolding moves_def by blast

lemma moves_publication:
  assumes "moves i step d d'"
  shows "j \<noteq> i \<Longrightarrow> publication_of d' j = publication_of d j"
    and "publication_of d' i = publication_of d i \<or> step (publication_of d i) (publication_of d' i)"
proof -
  from assms obtain p f where d': "github_outbox d' = update_where p f (github_outbox d)"
    and f: "\<And>r. ob_id (f r) = ob_id r" and p: "\<And>r. p r \<Longrightarrow> ob_id r = i \<and> step (row_publication r) (row_publication (f r))"
    unfolding moves_def by blast
  have row: "outbox_of d' j = map_option (\<lambda>r. if p r then f r else r) (outbox_of d j)" for j
    unfolding outbox_of_def d' by (rule find_update_where) (simp add: f)
  show "j \<noteq> i \<Longrightarrow> publication_of d' j = publication_of d j"
  proof (cases "outbox_of d j")
    case (Some r)
    assume "j \<noteq> i"
    then have "\<not> p r" using p [of r] Some by (auto simp: outbox_of_def dest: find_SomeD)
    with Some show ?thesis by (simp add: publication_of_def row)
  qed (simp add: publication_of_def row)
  show "publication_of d' i = publication_of d i \<or> step (publication_of d i) (publication_of d' i)"
    using p by (cases "outbox_of d i") (auto simp: publication_of_def row)
qed

lemma moves_wf: "moves i step d d' \<Longrightarrow> outbox_wf d \<Longrightarrow> outbox_wf d'"
  by (auto simp: moves_def outbox_wf_def map_update_where)

lemma outbox_of_SomeD: "outbox_of d i = Some r \<Longrightarrow> r \<in> set (github_outbox d) \<and> ob_id r = i"
  unfolding outbox_of_def by (blast dest: find_SomeD)

lemma outbox_row_unique:
  assumes "outbox_wf d" and "outbox_of d i = Some r" and "s \<in> set (github_outbox d)" and "ob_id s = i"
  shows "s = r"
  by (rule distinct_map_eqD [of ob_id "github_outbox d"])
    (use assms outbox_of_SomeD [OF assms(2)] in \<open>simp_all add: outbox_wf_def\<close>)

lemma retry_rounds_kept:
  assumes "coordination_terminal_outbox_recovery d' = update_where q g (coordination_terminal_outbox_recovery d)"
    and "\<And>r. rv_outbox_id (g r) = rv_outbox_id r" and "\<And>r. rv_retry_rounds (g r) = rv_retry_rounds r"
  shows "retry_rounds d' = retry_rounds d"
proof
  fix j
  have "recovery_of d' j = map_option (\<lambda>r. if q r then g r else r) (recovery_of d j)"
    unfolding recovery_of_def assms(1) by (rule find_update_where) (simp add: assms(2))
  then show "retry_rounds d' j = retry_rounds d j"
    by (cases "recovery_of d j") (simp_all add: retry_rounds_def assms(3))
qed

lemma retry_rounds_same:
  "coordination_terminal_outbox_recovery d' = coordination_terminal_outbox_recovery d \<Longrightarrow>
     retry_rounds d' = retry_rounds d"
  by (simp add: fun_eq_iff retry_rounds_def recovery_of_def)

subsection \<open>The effect of each operation\<close>

lemma enqueue_comment_effect:
  assumes "enqueue_comment own allow d q now = Inr (d', i)"
  shows "(d' = d \<and> (\<exists>r. comment_of d (cq_idempotency_key q) = Some r \<and> comment_matches q r \<and> i = ob_id r)) \<or>
    (github_outbox d' = github_outbox d @ [new_comment d q now] \<and> comment_of d (cq_idempotency_key q) = None \<and>
     i = ob_id (new_comment d q now) \<and> coordination_terminal_outbox_recovery d' = coordination_terminal_outbox_recovery d \<and>
     coordination_terminal_closeout_packets d' = coordination_terminal_closeout_packets d \<and>
     github_current d' = github_current d \<and> github_snapshots d' = github_snapshots d \<and> in_transaction d' = in_transaction d)"
proof -
  from assms have "prepare_comment allow d q now = Inr (d', i)"
    by (auto simp: enqueue_comment_def guard_simps split: if_splits)
  then show ?thesis
    by (cases "comment_of d (cq_idempotency_key q)") (auto simp: prepare_comment_def guard_simps Let_def log_outbox_def)
qed

lemma bind_publisher_effect:
  assumes "bind_terminal_outbox_publisher d i login now = Inr (d', row)"
  shows "github_outbox d' = github_outbox d \<and> retry_rounds d' = retry_rounds d \<and>
    coordination_terminal_closeout_packets d' = coordination_terminal_closeout_packets d"
proof -
  have "retry_rounds d' = retry_rounds d"
    if "coordination_terminal_outbox_recovery d' = coordination_terminal_outbox_recovery d"
    using that by (rule retry_rounds_same)
  then show ?thesis
    using assms by (cases "publisher_of d i")
      (auto simp: bind_terminal_outbox_publisher_def insert_publisher_def guard_simps Let_def)
qed

definition settles :: "publication \<Rightarrow> publication \<Rightarrow> bool" where
  "settles s t \<longleftrightarrow> s \<in> {Prepared, Inflight, Held} \<and> (t = Held \<or> (\<exists>receipt. t = Completed (Some receipt)))"

definition settled_step :: "int \<Rightarrow> db \<Rightarrow> db \<Rightarrow> bool" where
  "settled_step i d d' \<longleftrightarrow> moves i settles d d' \<and> retry_rounds d' = retry_rounds d \<and>
     coordination_terminal_closeout_packets d' = coordination_terminal_closeout_packets d"

lemma settles_rows:
  "unsettled r \<Longrightarrow> ob_state s = ''HOLD'' \<Longrightarrow> settles (row_publication r) (row_publication s)"
  "unsettled r \<Longrightarrow> ob_state s = ''COMPLETE'' \<Longrightarrow> ob_remote_receipt s = Some receipt \<Longrightarrow>
     settles (row_publication r) (row_publication s)"
  by (auto simp: settles_def unsettled_publication row_publication_states)

lemma settled_stepI:
  assumes "github_outbox d' = update_where p f (github_outbox d)"
    and "coordination_terminal_outbox_recovery d' = update_where q g (coordination_terminal_outbox_recovery d)"
    and "coordination_terminal_closeout_packets d' = coordination_terminal_closeout_packets d"
    and "\<And>r. ob_id (f r) = ob_id r" and "\<And>r. ob_idempotency_key (f r) = ob_idempotency_key r"
    and "\<And>r. rv_outbox_id (g r) = rv_outbox_id r" and "\<And>r. rv_retry_rounds (g r) = rv_retry_rounds r"
    and "\<And>r. p r \<Longrightarrow> ob_id r = i \<and> unsettled r"
    and "\<And>r. ob_state (f r) = ''HOLD'' \<or> (ob_state (f r) = ''COMPLETE'' \<and> (\<exists>receipt. ob_remote_receipt (f r) = Some receipt))"
  shows "settled_step i d d'"
  unfolding settled_step_def
proof (intro conjI)
  have "settles (row_publication r) (row_publication (f r))" if "p r" for r
    using settles_rows assms(8) [OF that] assms(9) [of r] by blast
  then show "moves i settles d d'" using assms(8) by (intro movesI [OF assms(1,4,5)]) blast+
qed (use assms(3) retry_rounds_kept [OF assms(2,6,7)] in simp_all)

lemma update_where_False: "update_where (\<lambda>_. False) g rows = rows"
  by (simp add: update_where_def)

lemma complete_effect:
  assumes "complete_outbox d i receipt now = Inr d'"
  shows "settled_step i d d'"
proof -
  from assms have d': "d' = log_outbox ''OUTBOX_COMPLETED'' i (PDict [(''remote_receipt'', PStr receipt)]) now
      (update_outbox (\<lambda>r. ob_id r = i \<and> ob_state r = ''INFLIGHT'') (\<lambda>r. r\<lparr>ob_state := ''COMPLETE'',
         ob_remote_receipt := Some receipt, ob_updated_at := now, ob_last_error := None\<rparr>) d)"
    by (simp add: complete_outbox_def guard_simps Let_def)
  have rows: "github_outbox d' = update_where (\<lambda>r. ob_id r = i \<and> ob_state r = ''INFLIGHT'')
      (\<lambda>r. r\<lparr>ob_state := ''COMPLETE'', ob_remote_receipt := Some receipt, ob_updated_at := now, ob_last_error := None\<rparr>)
      (github_outbox d)" by (simp add: d')
  have recs: "coordination_terminal_outbox_recovery d' =
      update_where (\<lambda>_. False) (\<lambda>r. r) (coordination_terminal_outbox_recovery d)" by (simp add: d' update_where_False)
  show ?thesis by (rule settled_stepI [OF rows recs]) (simp_all add: d' unsettled_def)
qed

lemma hold_effect:
  assumes "hold_outbox d i error now = Inr d'"
  shows "settled_step i d d'"
proof -
  define err where "err = (if error_code error then error else ''OUTBOX_FAILED'')"
  from assms have d': "d' = log_outbox ''OUTBOX_HELD'' i (PDict [(''error'', PStr err)]) now
      (hold_recovery i err now (update_outbox (\<lambda>r. ob_id r = i \<and> (ob_state r = ''PREPARED'' \<or> ob_state r = ''INFLIGHT''))
        (\<lambda>r. r\<lparr>ob_state := ''HOLD'', ob_updated_at := now, ob_last_error := Some err\<rparr>) d))"
    by (simp add: hold_outbox_def guard_simps Let_def err_def)
  have rows: "github_outbox d' = update_where (\<lambda>r. ob_id r = i \<and> (ob_state r = ''PREPARED'' \<or> ob_state r = ''INFLIGHT''))
      (\<lambda>r. r\<lparr>ob_state := ''HOLD'', ob_updated_at := now, ob_last_error := Some err\<rparr>) (github_outbox d)"
    by (simp add: d' hold_recovery_def)
  have recs: "coordination_terminal_outbox_recovery d' = update_where (\<lambda>r. rv_outbox_id r = i)
      (\<lambda>r. r\<lparr>rv_state := ''HOLD'', rv_updated_at := now, rv_last_error := Some err\<rparr>)
      (coordination_terminal_outbox_recovery d)" by (simp add: d' hold_recovery_def)
  show ?thesis by (rule settled_stepI [OF rows recs]) (simp_all add: d' hold_recovery_def unsettled_def, blast)
qed

text \<open>An update of every row of an id, where the one row of the id is unsettled.\<close>

lemma update_unsettled:
  assumes "outbox_wf d" and "outbox_of d i = Some r" and "unsettled r"
  shows "update_where (\<lambda>r. ob_id r = i) f (github_outbox d) =
    update_where (\<lambda>r. ob_id r = i \<and> unsettled r) f (github_outbox d)"
  unfolding update_where_def
proof (rule map_cong [OF refl])
  fix s
  assume "s \<in> set (github_outbox d)"
  then have "ob_id s = i \<Longrightarrow> unsettled s" using outbox_row_unique [OF assms(1,2)] assms(3) by blast
  then show "(if ob_id s = i then f s else s) = (if ob_id s = i \<and> unsettled s then f s else s)" by simp
qed

lemma hold_publisher_effect:
  assumes "hold_terminal_outbox_publisher_identity d i observed error now = Inr d'" and wf: "outbox_wf d"
  shows "settled_step i d d'"
proof -
  from assms(1) have ok: "\<not> publisher_conflict d i observed error"
    and d': "d' = log_outbox ''TERMINAL_OUTBOX_PUBLISHER_HELD'' i (PDict [(''error'', PStr error)]) now
      (hold_recovery i error now (update_outbox (\<lambda>r. ob_id r = i)
        (\<lambda>r. r\<lparr>ob_state := ''HOLD'', ob_updated_at := now, ob_last_error := Some error\<rparr>) d))"
    by (simp_all add: hold_terminal_outbox_publisher_identity_def guard_simps)
  from ok obtain r where r: "outbox_of d i = Some r" "unsettled r"
    by (auto simp: publisher_conflict_def split: option.splits)
  have rows: "github_outbox d' = update_where (\<lambda>r. ob_id r = i \<and> unsettled r)
      (\<lambda>r. r\<lparr>ob_state := ''HOLD'', ob_updated_at := now, ob_last_error := Some error\<rparr>) (github_outbox d)"
    by (simp add: d' hold_recovery_def update_unsettled [OF wf r])
  have recs: "coordination_terminal_outbox_recovery d' = update_where (\<lambda>r. rv_outbox_id r = i)
      (\<lambda>r. r\<lparr>rv_state := ''HOLD'', rv_updated_at := now, rv_last_error := Some error\<rparr>)
      (coordination_terminal_outbox_recovery d)" by (simp add: d' hold_recovery_def)
  show ?thesis by (rule settled_stepI [OF rows recs]) (simp_all add: d' hold_recovery_def)
qed

lemma readback_effect:
  assumes "complete_terminal_outbox_from_readback d i receipt body login now = Inr d'"
  shows "d' = d \<or> settled_step i d d'"
proof (cases "readback_of d i")
  case (Some existing)
  with assms show ?thesis by (auto simp: complete_terminal_outbox_from_readback_def guard_simps Let_def)
next
  case None
  with assms obtain row d1 where d1: "insert_readback row d = Inr d1" "settle_readback i receipt now d1 = Inr d'"
    by (auto simp: complete_terminal_outbox_from_readback_def guard_simps Let_def)
  let ?p = "\<lambda>r. ob_id r = i \<and> unsettled r \<and> ob_remote_receipt r = None"
  let ?f = "\<lambda>r. r\<lparr>ob_state := ''COMPLETE'', ob_remote_receipt := Some receipt, ob_updated_at := now, ob_last_error := None\<rparr>"
  let ?g = "\<lambda>r. r\<lparr>rv_state := ''COMPLETE'', rv_updated_at := now, rv_last_error := None\<rparr>"
  from d1(1) have t: "github_outbox d1 = github_outbox d"
    "coordination_terminal_outbox_recovery d1 = coordination_terminal_outbox_recovery d"
    "coordination_terminal_closeout_packets d1 = coordination_terminal_closeout_packets d"
    by (auto simp: insert_readback_def guard_simps)
  from d1(2) t have rows: "github_outbox d' = update_where ?p ?f (github_outbox d)"
    and recs: "coordination_terminal_outbox_recovery d' =
      update_where (\<lambda>r. rv_outbox_id r = i) ?g (coordination_terminal_outbox_recovery d)"
    and packets: "coordination_terminal_closeout_packets d' = coordination_terminal_closeout_packets d"
    by (auto simp: settle_readback_def Let_def guard_simps)
  have "settled_step i d d'" by (rule settled_stepI [OF rows recs packets]) simp_all
  then show ?thesis ..
qed

lemma reserve_effect:
  assumes "reserve_outbox d i now = Inr (d', row)"
  shows "moves i (\<lambda>s t. s = Prepared \<and> t = Inflight) d d' \<and> retry_rounds d' = retry_rounds d \<and>
    coordination_terminal_closeout_packets d' = coordination_terminal_closeout_packets d \<and>
    publication_of d i = Prepared \<and> publication_of d' i = Inflight"
proof -
  let ?p = "\<lambda>r. ob_id r = i \<and> ob_state r = ''PREPARED''"
  let ?f = "\<lambda>r. r\<lparr>ob_state := ''INFLIGHT'', ob_updated_at := now\<rparr>"
  from assms obtain r v where r: "outbox_of d i = Some r" "ob_state r = ''PREPARED''"
    and d': "d' = log_outbox ''OUTBOX_INFLIGHT'' i v now (inflight i now d)"
    by (auto simp: reserve_outbox_def guard_simps)
  have rows: "github_outbox d' = update_where ?p ?f (github_outbox d)" by (simp add: d' inflight_def)
  have recs: "coordination_terminal_outbox_recovery d' = update_where (\<lambda>r. rv_outbox_id r = i \<and> rv_state r = ''RETRY_READY'')
      (\<lambda>r. r\<lparr>rv_state := ''PENDING'', rv_updated_at := now, rv_last_error := None\<rparr>)
      (coordination_terminal_outbox_recovery d)" by (simp add: d' inflight_def)
  have "moves i (\<lambda>s t. s = Prepared \<and> t = Inflight) d d'"
    by (rule movesI [OF rows]) (simp_all add: row_publication_states)
  moreover have "retry_rounds d' = retry_rounds d" by (rule retry_rounds_kept [OF recs]) simp_all
  moreover have "outbox_of d' i = map_option (\<lambda>r. if ?p r then ?f r else r) (outbox_of d i)"
    unfolding outbox_of_def rows by (rule find_update_where) simp
  moreover have "ob_id r = i" using outbox_of_SomeD [OF r(1)] by blast
  ultimately show ?thesis using r by (simp add: publication_of_def row_publication_states d' inflight_def)
qed

text \<open>What the publisher's own check accepts, the reservation accepts.\<close>

lemma outbox_source_is_current_reserves:
  assumes "outbox_source_is_current d i (gc_payload_sha256 c)" and "outbox_of d i = Some r"
  shows "publication_source_current d r (Some (c, payload))"
proof -
  have "ob_id r = i" using outbox_of_SomeD [OF assms(2)] by blast
  with assms show ?thesis
    by (auto simp: outbox_source_is_current_def publication_source_current_def split: option.splits)
qed

lemma next_recovery_Inr:
  assumes "next_recovery d packet recovery error now = Inr s"
  shows "(rs_outbox_state s = ''HOLD'' \<and> rs_rounds s = rv_retry_rounds recovery) \<or>
    (rs_outbox_state s = ''PREPARED'' \<and> rs_rounds s = rv_retry_rounds recovery + 1 \<and>
     rs_rounds s \<le> TERMINAL_OUTBOX_MAX_RETRY_ROUNDS)"
  using assms by (auto simp: next_recovery_def Let_def guard_simps may_retry_def split: if_splits)

definition retried_step :: "int \<Rightarrow> db \<Rightarrow> db \<Rightarrow> bool" where
  "retried_step i d d' \<longleftrightarrow> moves i (\<lambda>s t. s \<in> {Prepared, Inflight, Held} \<and> t = Prepared) d d' \<and>
     retry_rounds d' = (retry_rounds d)(i := retry_rounds d i + 1) \<and>
     retry_rounds d' i \<le> TERMINAL_OUTBOX_MAX_RETRY_ROUNDS \<and> packet_of d i \<noteq> None \<and>
     coordination_terminal_closeout_packets d' = coordination_terminal_closeout_packets d"

lemma miss_effect:
  assumes "record_terminal_outbox_readback_miss d i error login now = Inr (d', s)"
  shows "settled_step i d d' \<or> retried_step i d d'"
proof -
  let ?p = "\<lambda>r. ob_id r = i \<and> unsettled r \<and> ob_remote_receipt r = None"
  let ?f = "\<lambda>r. r\<lparr>ob_state := rs_outbox_state s, ob_updated_at := now, ob_last_error := Some error\<rparr>"
  let ?g = "\<lambda>r. r\<lparr>rv_readback_attempts := rs_attempts s, rv_retry_rounds := rs_rounds s,
               rv_next_retry_at := rs_next_retry_at s, rv_state := rs_state s, rv_updated_at := now,
               rv_last_error := Some error\<rparr>"
  from assms obtain packet recovery where packet: "packet_of d i = Some packet" and rec: "recovery_of d i = Some recovery"
    and nr: "next_recovery d packet recovery error now = Inr s" and d': "d' = apply_recovery i s error now d"
    by (auto simp: record_terminal_outbox_readback_miss_def guard_simps)
  have rows: "github_outbox d' = update_where ?p ?f (github_outbox d)" by (simp add: d' apply_recovery_def)
  have recs: "coordination_terminal_outbox_recovery d' =
      update_where (\<lambda>r. rv_outbox_id r = i) ?g (coordination_terminal_outbox_recovery d)"
    by (simp add: d' apply_recovery_def)
  have packets: "coordination_terminal_closeout_packets d' = coordination_terminal_closeout_packets d"
    by (simp add: d' apply_recovery_def)
  have "recovery_of d' j = map_option (\<lambda>r. if rv_outbox_id r = i then ?g r else r) (recovery_of d j)" for j
    unfolding recovery_of_def recs by (rule find_update_where) simp
  moreover have "rv_outbox_id r = j" if "recovery_of d j = Some r" for j r
    using that by (auto simp: recovery_of_def dest: find_SomeD)
  ultimately have rounds: "retry_rounds d' j = (if j = i then rs_rounds s else retry_rounds d j)" for j
    using rec by (cases "recovery_of d j") (auto simp: retry_rounds_def)
  have old: "retry_rounds d i = rv_retry_rounds recovery" by (simp add: retry_rounds_def rec)
  from next_recovery_Inr [OF nr] show ?thesis
  proof
    assume h: "rs_outbox_state s = ''HOLD'' \<and> rs_rounds s = rv_retry_rounds recovery"
    have "moves i settles d d'" by (rule movesI [OF rows]) (simp_all add: settles_rows h)
    moreover have "retry_rounds d' = retry_rounds d" using rounds h old by (simp add: fun_eq_iff)
    ultimately show ?thesis using packets by (simp add: settled_step_def)
  next
    assume h: "rs_outbox_state s = ''PREPARED'' \<and> rs_rounds s = rv_retry_rounds recovery + 1 \<and>
      rs_rounds s \<le> TERMINAL_OUTBOX_MAX_RETRY_ROUNDS"
    have "moves i (\<lambda>s t. s \<in> {Prepared, Inflight, Held} \<and> t = Prepared) d d'"
      by (rule movesI [OF rows]) (use h unsettled_publication in \<open>simp_all add: row_publication_states\<close>)
    moreover have "retry_rounds d' = (retry_rounds d)(i := retry_rounds d i + 1)"
      using rounds h old by (simp add: fun_eq_iff)
    moreover have "retry_rounds d' i \<le> TERMINAL_OUTBOX_MAX_RETRY_ROUNDS" using rounds [of i] h by simp
    ultimately have "retried_step i d d'" unfolding retried_step_def using packets packet by blast
    then show ?thesis ..
  qed
qed

subsection \<open>One step\<close>

definition quiet_step :: "db \<Rightarrow> db \<Rightarrow> bool" where
  "quiet_step d d' \<longleftrightarrow> outbox_wf d' \<and> retry_rounds d' = retry_rounds d \<and>
     coordination_terminal_closeout_packets d' = coordination_terminal_closeout_packets d \<and>
     (\<forall>i. publication_of d' i = publication_of d i \<or> (publication_of d i = Absent \<and> publication_of d' i = Prepared))"

lemma enqueue_quiet:
  assumes "enqueue_comment own allow d q now = Inr (d', i)" and wf: "outbox_wf d"
  shows "quiet_step d d'"
proof -
  let ?row = "new_comment d q now"
  have "d' = d \<or> (github_outbox d' = github_outbox d @ [?row] \<and> comment_of d (cq_idempotency_key q) = None \<and>
      coordination_terminal_outbox_recovery d' = coordination_terminal_outbox_recovery d \<and>
      coordination_terminal_closeout_packets d' = coordination_terminal_closeout_packets d)"
    by (rule disjE [OF enqueue_comment_effect [OF assms(1)]]) (simp, simp only: simp_thms)
  then consider "d' = d"
    | "github_outbox d' = github_outbox d @ [?row]" "comment_of d (cq_idempotency_key q) = None"
      "coordination_terminal_outbox_recovery d' = coordination_terminal_outbox_recovery d"
      "coordination_terminal_closeout_packets d' = coordination_terminal_closeout_packets d"
    by (elim disjE conjE)
  then show ?thesis
  proof cases
    case 1
    then show ?thesis using wf by (simp add: quiet_step_def)
  next
    case 2
    have fresh: "ob_id ?row \<notin> ob_id ` set (github_outbox d)"
      using next_rowid_fresh [of _ "github_outbox d" ob_id] by (force simp: new_comment_def)
    have key: "ob_idempotency_key ?row \<notin> ob_idempotency_key ` set (github_outbox d)"
      using 2(2) by (auto simp: comment_of_def find_None_iff new_comment_def)
    have "outbox_wf d'" using wf fresh key by (simp add: outbox_wf_def 2(1))
    moreover have "publication_of d' i = publication_of d i \<or> (publication_of d i = Absent \<and> publication_of d' i = Prepared)" for i
    proof (cases "outbox_of d i")
      case None
      then show ?thesis
        by (simp add: publication_of_def outbox_of_def 2(1) find_append) (simp add: new_comment_def row_publication_def)
    qed (simp add: publication_of_def outbox_of_def 2(1) find_append)
    moreover have "retry_rounds d' = retry_rounds d" by (rule retry_rounds_same [OF 2(3)])
    ultimately show ?thesis unfolding quiet_step_def using 2(4) by blast
  qed
qed

lemma outbox_step_cases:
  assumes "outbox_step (act, now) d = Inr d'" and wf: "outbox_wf d"
  obtains (quiet) "quiet_step d d'" "\<forall>i. act \<noteq> Reserve i"
    | (reserved) i where "act = Reserve i" "moves i (\<lambda>s t. s = Prepared \<and> t = Inflight) d d'"
      "retry_rounds d' = retry_rounds d" "publication_of d i = Prepared" "publication_of d' i = Inflight"
      "coordination_terminal_closeout_packets d' = coordination_terminal_closeout_packets d"
    | (settled) i where "settled_step i d d'" "\<forall>i. act \<noteq> Reserve i"
    | (retried) i where "retried_step i d d'" "\<forall>i. act \<noteq> Reserve i"
proof (cases act)
  case (Enqueue own allow q)
  with assms obtain i where "enqueue_comment own allow d q now = Inr (d', i)" by (auto simp: guard_simps)
  from enqueue_quiet [OF this wf] Enqueue show thesis by (intro quiet) simp_all
next
  case (BindPublisher i login)
  with assms obtain row where "bind_terminal_outbox_publisher d i login now = Inr (d', row)" by (auto simp: guard_simps)
  note e = bind_publisher_effect [OF this]
  then have "quiet_step d d'" using wf by (simp add: quiet_step_def outbox_wf_def publication_of_def outbox_of_def)
  then show thesis using BindPublisher by (intro quiet) simp_all
next
  case (HoldPublisher i observed error)
  with assms hold_publisher_effect [of d i observed error now d'] show thesis by (intro settled [of i]) simp_all
next
  case (Reserve i)
  with assms obtain row where "reserve_outbox d i now = Inr (d', row)" by (auto simp: guard_simps)
  from reserve_effect [OF this] Reserve show thesis by (intro reserved [of i]) simp_all
next
  case (Complete i receipt)
  with assms complete_effect [of d i receipt now d'] show thesis by (intro settled [of i]) simp_all
next
  case (Hold i error)
  with assms hold_effect [of d i error now d'] show thesis by (intro settled [of i]) simp_all
next
  case (Readback i receipt body login)
  with assms have "d' = d \<or> settled_step i d d'" using readback_effect [of d i receipt body login now d'] by simp
  then show thesis
  proof
    assume "d' = d"
    then have "quiet_step d d'" using wf by (simp add: quiet_step_def)
    then show thesis using Readback by (intro quiet) simp_all
  qed (use Readback settled in blast)
next
  case (Miss i error login)
  with assms obtain s where "record_terminal_outbox_readback_miss d i error login now = Inr (d', s)"
    by (auto simp: guard_simps)
  from miss_effect [OF this] show thesis using Miss settled retried by blast
qed

subsection \<open>Runs of operations\<close>

lemma settles_publication_step: "settles s t \<Longrightarrow> publication_step s t"
  by (auto simp: settles_def intro: publication_step.intros)

lemma outbox_step_refines:
  assumes "outbox_step (act, now) d = Inr d'" and wf: "outbox_wf d"
  shows "outbox_wf d' \<and> publication_step (publication_of d i) (publication_of d' i)"
  using assms
proof (cases rule: outbox_step_cases)
  case quiet
  then have "outbox_wf d'" unfolding quiet_step_def by blast
  moreover from quiet have "publication_of d' i = publication_of d i \<or>
      (publication_of d i = Absent \<and> publication_of d' i = Prepared)" unfolding quiet_step_def by blast
  ultimately show ?thesis by (auto intro: publication_step.intros)
next
  case (reserved j)
  have "publication_step (publication_of d i) (publication_of d' i)"
    using moves_publication(1) [OF reserved(2), of i] reserved(4,5)
    by (cases "i = j") (simp_all add: publication_step.reserve publication_step.stay)
  then show ?thesis using moves_wf [OF reserved(2) wf] by simp
next
  case (settled j)
  then have m: "moves j settles d d'" by (simp add: settled_step_def)
  have "publication_step (publication_of d i) (publication_of d' i)"
    using moves_publication(1) [OF m, of i] moves_publication(2) [OF m]
    by (cases "i = j") (auto intro: publication_step.stay settles_publication_step)
  then show ?thesis using moves_wf [OF m wf] by simp
next
  case (retried j)
  then have m: "moves j (\<lambda>s t. s \<in> {Prepared, Inflight, Held} \<and> t = Prepared) d d'" by (simp add: retried_step_def)
  have "publication_step (publication_of d i) (publication_of d' i)"
  proof (cases "i = j")
    case True
    with moves_publication(2) [OF m] show ?thesis by (elim disjE conjE) (simp_all add: publication_step.stay publication_step.retry)
  next
    case False
    with moves_publication(1) [OF m, of i] show ?thesis by (simp add: publication_step.stay)
  qed
  then show ?thesis using moves_wf [OF m wf] by simp
qed

lemma publication_steps_Completed:
  "publication_step\<^sup>*\<^sup>* s t \<Longrightarrow> s = Completed r \<Longrightarrow> t = Completed r"
  by (induction rule: rtranclp_induct) (auto simp: publication_step_Completed)

lemma outbox_run_induct [consumes 2, case_names base step]:
  assumes "fold_res outbox_step ops d = Inr d'" and "outbox_wf d"
    and "\<And>d. outbox_wf d \<Longrightarrow> P [] d d"
    and "\<And>act now ops d d1 d'. outbox_wf d \<Longrightarrow> outbox_step (act, now) d = Inr d1 \<Longrightarrow>
      fold_res outbox_step ops d1 = Inr d' \<Longrightarrow> P ops d1 d' \<Longrightarrow> P ((act, now) # ops) d d'"
  shows "P ops d d'"
  using assms(1,2)
proof (induction ops arbitrary: d)
  case (Cons x ops)
  obtain act now where x: "x = (act, now)" by force
  with Cons.prems obtain d1 where d1: "outbox_step (act, now) d = Inr d1" "fold_res outbox_step ops d1 = Inr d'"
    by (auto simp: guard_simps)
  have "outbox_wf d1" using outbox_step_refines [OF d1(1) Cons.prems(2)] by blast
  from assms(4) [OF Cons.prems(2) d1 Cons.IH [OF d1(2) this]] show ?case by (simp add: x)
qed (simp add: assms(3))

text \<open>
  C5: the outbox implements the abstract publication. Over any run of its operations, the publication of
  each id moves along \<open>publication_step\<close> only (absent, prepared, in flight, held, completed), and a
  completed publication stays completed with the receipt it has.
\<close>

theorem outbox_refines_publication:
  assumes "outbox_wf d" and "fold_res outbox_step ops d = Inr d'"
  shows "outbox_wf d' \<and> publication_step\<^sup>*\<^sup>* (publication_of d i) (publication_of d' i) \<and>
    (\<forall>r. publication_of d i = Completed r \<longrightarrow> publication_of d' i = Completed r)"
proof -
  from assms(2,1) have "outbox_wf d' \<and> publication_step\<^sup>*\<^sup>* (publication_of d i) (publication_of d' i)"
  proof (induction rule: outbox_run_induct)
    case (step act now ops d d1 d')
    from outbox_step_refines [OF step(2,1)] step(4) show ?case by (blast intro: converse_rtranclp_into_rtranclp)
  qed simp
  then show ?thesis by (blast dest: publication_steps_Completed)
qed

subsection \<open>How often a comment is published\<close>

definition reservations :: "int \<Rightarrow> (outbox_op \<times> string) list \<Rightarrow> int" where
  "reservations i ops = int (length (filter (\<lambda>x. fst x = Reserve i) ops))"

definition budget :: "db \<Rightarrow> int \<Rightarrow> int" where
  "budget d i = (if publication_of d i = Absent \<or> publication_of d i = Prepared then 1 else 0)"

lemma budget_range: "0 \<le> budget d i" "budget d i \<le> 1"
  by (simp_all add: budget_def)

definition rounds_fit :: "db \<Rightarrow> int \<Rightarrow> bool" where
  "rounds_fit d i \<longleftrightarrow> 0 \<le> retry_rounds d i \<and> retry_rounds d i \<le> TERMINAL_OUTBOX_MAX_RETRY_ROUNDS \<and>
     (packet_of d i = None \<longrightarrow> retry_rounds d i = 0)"

lemma packet_of_cong:
  "coordination_terminal_closeout_packets d' = coordination_terminal_closeout_packets d \<Longrightarrow> packet_of d' i = packet_of d i"
  by (simp add: packet_of_def)

text \<open>Each reservation spends the budget, which only a further retry round restores.\<close>

lemma outbox_step_budget:
  assumes "outbox_step (act, now) d = Inr d'" and wf: "outbox_wf d" and fit: "rounds_fit d i"
  shows "rounds_fit d' i \<and> packet_of d' i = packet_of d i \<and>
    reservations i [(act, now)] + budget d' i + retry_rounds d i \<le> budget d i + retry_rounds d' i"
  using assms(1,2)
proof (cases rule: outbox_step_cases)
  case quiet
  then have q: "retry_rounds d' = retry_rounds d" "packet_of d' i = packet_of d i"
    "publication_of d' i = publication_of d i \<or> (publication_of d i = Absent \<and> publication_of d' i = Prepared)"
    unfolding quiet_step_def by (blast intro: packet_of_cong)+
  then show ?thesis using fit quiet(2) by (auto simp: rounds_fit_def reservations_def budget_def)
next
  case (reserved j)
  have "reservations i [(act, now)] + budget d' i \<le> budget d i"
    using moves_publication(1) [OF reserved(2), of i] reserved(1,4,5)
    by (cases "i = j") (simp_all add: reservations_def budget_def)
  then show ?thesis using fit packet_of_cong [OF reserved(6)] reserved(3) by (simp add: rounds_fit_def)
next
  case (settled j)
  then have s: "moves j settles d d'" "retry_rounds d' = retry_rounds d" "packet_of d' i = packet_of d i"
    by (simp_all add: settled_step_def packet_of_def)
  have "budget d' i \<le> budget d i"
    using moves_publication(1) [OF s(1), of i] moves_publication(2) [OF s(1)]
    by (cases "i = j") (auto simp: budget_def settles_def)
  then show ?thesis using fit s settled(2) by (simp add: rounds_fit_def reservations_def)
next
  case (retried j)
  then have r: "moves j (\<lambda>s t. s \<in> {Prepared, Inflight, Held} \<and> t = Prepared) d d'"
    "retry_rounds d' = (retry_rounds d)(j := retry_rounds d j + 1)" "packet_of d' i = packet_of d i"
    "retry_rounds d' j \<le> TERMINAL_OUTBOX_MAX_RETRY_ROUNDS" "packet_of d j \<noteq> None"
    unfolding retried_step_def by (blast intro: packet_of_cong)+
  have none: "reservations i [(act, now)] = 0" using retried(2) by (simp add: reservations_def)
  show ?thesis
  proof (cases "i = j")
    case True
    then show ?thesis using none r(2-5) fit budget_range(1) [of d i] budget_range(2) [of d' i]
      by (simp add: rounds_fit_def)
  next
    case False
    then show ?thesis using none r(2,3) fit moves_publication(1) [OF r(1), of i] by (simp add: rounds_fit_def budget_def)
  qed
qed

text \<open>
  C13: a comment is handed to a publisher a bounded number of times. In any run of the outbox's operations
  an ordinary comment is reserved at most once, and the comment that closes an issue at most once more
  than there are retry rounds; a comment that was already reserved has the first one less.
\<close>

theorem reservations_bounded:
  assumes "outbox_wf d" and "fold_res outbox_step ops d = Inr d'" and "rounds_fit d i"
  shows "reservations i ops \<le> budget d i + (retry_rounds d' i - retry_rounds d i) \<and>
    (packet_of d i = None \<longrightarrow> reservations i ops \<le> 1) \<and>
    reservations i ops \<le> 1 + TERMINAL_OUTBOX_MAX_RETRY_ROUNDS"
proof -
  from assms(2,1,3) have "rounds_fit d' i \<and> packet_of d' i = packet_of d i \<and>
      reservations i ops + budget d' i + retry_rounds d i \<le> budget d i + retry_rounds d' i"
  proof (induction rule: outbox_run_induct)
    case (step act now ops d d1 d')
    note one = outbox_step_budget [OF step(2,1,5)]
    have "reservations i ((act, now) # ops) = reservations i [(act, now)] + reservations i ops"
      by (simp add: reservations_def)
    with one step(4) show ?case by auto
  qed (simp add: reservations_def)
  then show ?thesis using assms(3) budget_range(1) [of d' i] budget_range(2) [of d i]
    by (auto simp: rounds_fit_def)
qed

subsection \<open>Replay of a comment\<close>

definition enqueue_one :: "db \<Rightarrow> comment_request \<times> string \<Rightarrow> (db \<times> int) res" where
  "enqueue_one d qn = enqueue_comment True False d (fst qn) (snd qn)"

definition comment_admitted :: "db \<Rightarrow> comment_request \<times> string \<Rightarrow> bool" where
  "comment_admitted d qn \<longleftrightarrow> (let q = fst qn in
     \<not> in_transaction d \<and> REPOSITORY (cq_repository q) \<and> SHA256 (cq_expected_source_sha256 q) \<and>
     cq_object_kind q \<in> set SOURCE_KINDS \<and> 0 < cq_object_number q \<and> cq_body q \<noteq> [] \<and>
     (\<exists>source. current_snapshot d (cq_repository q) (cq_object_kind q) (cq_object_number q) = Inr source \<and>
        \<not> source_drifts (cq_expected_source_sha256 q) source))"

lemma current_snapshot_cong:
  assumes "github_current d' = github_current d" and "github_snapshots d' = github_snapshots d"
  shows "current_snapshot d' repository kind number = current_snapshot d repository kind number"
proof -
  have "current_source d' = current_source d" "stored_snapshot d' = stored_snapshot d"
    by (simp_all add: fun_eq_iff current_source_def stored_snapshot_def assms)
  then show ?thesis by (simp only: current_snapshot_def source_join_def)
qed

lemma admitted_prepare:
  assumes "comment_admitted d (q, now)"
  shows "enqueue_comment True False d q now =
    (case comment_of d (cq_idempotency_key q) of
       Some r \<Rightarrow> guarded [(\<not> comment_matches q r, CoordinationError ''IDEMPOTENCY_CONFLICT'')] (Inr (d, ob_id r))
     | None \<Rightarrow> Inr (log_outbox ''OUTBOX_PREPARED'' (ob_id (new_comment d q now)) (comment_payload q) now
         (d\<lparr>github_outbox := github_outbox d @ [new_comment d q now]\<rparr>), ob_id (new_comment d q now)))"
proof -
  from assms obtain source where source:
    "current_snapshot d (cq_repository q) (cq_object_kind q) (cq_object_number q) = Inr source"
    "\<not> source_drifts (cq_expected_source_sha256 q) source"
    unfolding comment_admitted_def by (auto simp: Let_def)
  moreover from source(2) obtain x where "source = Some x" by (cases source) (simp_all add: source_drifts_def)
  ultimately show ?thesis
    using assms by (cases "comment_of d (cq_idempotency_key q)") (simp_all add: enqueue_comment_def prepare_comment_def comment_admitted_def Let_def transaction_def
        store_validate_repository_def validate_sha256_def guard_eval)
qed

lemma enqueue_one_admitted:
  assumes "enqueue_one d qn = Inr (d', i)"
  shows "comment_admitted d (fst qn, later)" and "comment_admitted d x \<Longrightarrow> comment_admitted d' x"
proof -
  show "comment_admitted d (fst qn, later)"
    using assms by (auto simp: enqueue_one_def enqueue_comment_def prepare_comment_def comment_admitted_def guard_simps Let_def)
  have "in_transaction d' = in_transaction d" "github_current d' = github_current d" "github_snapshots d' = github_snapshots d"
    using enqueue_comment_effect [OF assms [unfolded enqueue_one_def]] by auto
  then show "comment_admitted d x \<Longrightarrow> comment_admitted d' x"
    by (simp add: comment_admitted_def Let_def current_snapshot_cong [of d' d])
qed

lemma comment_of_SomeD: "comment_of d k = Some r \<Longrightarrow> r \<in> set (github_outbox d) \<and> ob_idempotency_key r = k"
  unfolding comment_of_def by (blast dest: find_SomeD)

lemma enqueue_one_rows:
  assumes "enqueue_one d qn = Inr (d', i)"
  shows "\<exists>r. comment_of d' (cq_idempotency_key (fst qn)) = Some r \<and> ob_id r = i \<and> comment_matches (fst qn) r"
    and "comment_of d k = Some row \<Longrightarrow> comment_of d' k = Some row"
proof -
  let ?new = "new_comment d (fst qn) (snd qn)"
  have new: "ob_idempotency_key ?new = cq_idempotency_key (fst qn)" "comment_matches (fst qn) ?new"
    by (simp_all add: new_comment_def comment_matches_def)
  note e = enqueue_comment_effect [OF assms [unfolded enqueue_one_def]]
  show "\<exists>r. comment_of d' (cq_idempotency_key (fst qn)) = Some r \<and> ob_id r = i \<and> comment_matches (fst qn) r"
    using e
  proof (elim disjE conjE exE)
    assume "github_outbox d' = github_outbox d @ [?new]" "comment_of d (cq_idempotency_key (fst qn)) = None" "i = ob_id ?new"
    then show ?thesis using new by (simp add: comment_of_def find_append)
  qed blast
  show "comment_of d k = Some row \<Longrightarrow> comment_of d' k = Some row"
    using e by (elim disjE conjE exE) (simp_all add: comment_of_def find_append)
qed

interpretation comments: idempotent_enqueue enqueue_one "\<lambda>qn. cq_idempotency_key (fst qn)" comment_of ob_id
  "\<lambda>qn. comment_matches (fst qn)" comment_admitted outbox_wf
proof
  fix d qn d' i
  assume inv: "outbox_wf d" and enq: "enqueue_one d qn = Inr (d', i)"
  show "outbox_wf d'" using enqueue_quiet [OF enq [unfolded enqueue_one_def] inv] unfolding quiet_step_def by blast
  show "\<exists>row. comment_of d' (cq_idempotency_key (fst qn)) = Some row \<and> ob_id row = i \<and> comment_matches (fst qn) row"
    by (rule enqueue_one_rows [OF enq])
  fix k row
  assume "comment_of d k = Some row"
  then show "comment_of d' k = Some row" by (rule enqueue_one_rows [OF enq])
next
  fix d and qn :: "comment_request \<times> string" and row
  assume ok: "comment_admitted d qn" and known: "comment_of d (cq_idempotency_key (fst qn)) = Some row"
    "comment_matches (fst qn) row"
  from ok admitted_prepare [of d "fst qn" "snd qn"] known show "enqueue_one d qn = Inr (d, ob_id row)"
    by (simp add: enqueue_one_def guard_eval)
next
  fix d k row k' row'
  assume "outbox_wf d" "comment_of d k = Some row" "comment_of d k' = Some row'" "ob_id row = ob_id row'"
  then have "row = row'"
    using distinct_map_eqD [of ob_id "github_outbox d" row row'] by (simp add: outbox_wf_def comment_of_SomeD)
  then show "k = k'" using \<open>comment_of d k = Some row\<close> \<open>comment_of d k' = Some row'\<close> by (blast dest: comment_of_SomeD)
qed

definition enqueue_one_db :: "comment_request \<times> string \<Rightarrow> db \<Rightarrow> db res" where
  "enqueue_one_db qn d = bind_res (enqueue_one d qn) (\<lambda>x. Inr (fst x))"

lemma enqueue_one_db_eq: "enqueue_one_db = comments.enqueue_db"
  by (simp add: fun_eq_iff enqueue_one_db_def comments.enqueue_db_def)

text \<open>
  A comment is prepared once. Whatever comments are prepared after it, preparing the same request again,
  at any later time, returns the id of the first row and changes nothing, so a caller that crashed may repeat it.
\<close>

theorem comment_replay:
  assumes "outbox_wf d" and "enqueue_comment True False d q now = Inr (d', i)"
    and "fold_res enqueue_one_db qs d' = Inr d''"
  shows "enqueue_comment True False d'' q later = Inr (d'', i)"
proof -
  have enq: "enqueue_one d (q, now) = Inr (d', i)" using assms(2) by (simp add: enqueue_one_def)
  have "comment_admitted d' (q, later)" using enqueue_one_admitted [OF enq] by simp
  with assms(3) have ok: "comment_admitted d'' (q, later)"
    by (rule fold_res_invariant) (auto simp: enqueue_one_db_def guard_simps dest: enqueue_one_admitted(2))
  from comments.replay [OF assms(1) enq, of qs d'' "(q, later)"] assms(3) ok show ?thesis
    by (simp add: enqueue_one_db_eq enqueue_one_def)
qed


subsection \<open>Instances\<close>

definition example_source_db :: db where
  "example_source_db = empty_db\<lparr>
     github_current := [\<lparr>gc_repository = ''o/r'', gc_object_kind = ''issue'', gc_object_number = 1,
       gc_payload_sha256 = replicate 64 (CHR ''a''), gc_source_updated_at = ''t0'', gc_fetched_at = ''t0''\<rparr>],
     github_snapshots := [\<lparr>gs_repository = ''o/r'', gs_object_kind = ''issue'', gs_object_number = 1,
       gs_payload_sha256 = replicate 64 (CHR ''a''), gs_source_updated_at = ''t0'', gs_fetched_at = ''t0'',
       gs_payload_json = Some (PDict [])\<rparr>]\<rparr>"

definition example_comment :: comment_request where
  "example_comment = \<lparr>cq_idempotency_key = ''k1'', cq_repository = ''o/r'', cq_object_kind = ''issue'',
     cq_object_number = 1, cq_expected_source_sha256 = replicate 64 (CHR ''a''), cq_body = ''done''\<rparr>"

lemma example_source_db_wf: "outbox_wf example_source_db" "rounds_fit example_source_db 1"
  "publication_of example_source_db 1 = Absent"
  by (simp_all add: outbox_wf_def rounds_fit_def retry_rounds_def recovery_of_def TERMINAL_OUTBOX_MAX_RETRY_ROUNDS_def
      publication_of_def outbox_of_def example_source_db_def empty_db_def)

lemma example_admissible: "comment_admitted example_source_db (example_comment, now)"
proof -
  have "current_snapshot example_source_db ''o/r'' ''issue'' 1 = Inr (Some (hd (github_current example_source_db), PDict []))"
    by code_simp
  moreover have "REPOSITORY ''o/r''" "SHA256 (replicate 64 (CHR ''a''))" by code_simp+
  ultimately show ?thesis
    by (simp add: comment_admitted_def example_comment_def SOURCE_KINDS_def source_drifts_def Let_def)
      (simp add: example_source_db_def empty_db_def)
qed

definition example_prepared_db :: db where
  "example_prepared_db = log_outbox ''OUTBOX_PREPARED'' 1 (comment_payload example_comment) ''t1''
     (example_source_db\<lparr>github_outbox := [new_comment example_source_db example_comment ''t1'']\<rparr>)"

lemma example_prepared: "enqueue_comment True False example_source_db example_comment ''t1'' = Inr (example_prepared_db, 1)"
proof -
  have "github_outbox example_source_db = []" by (simp add: example_source_db_def empty_db_def)
  then show ?thesis
    using admitted_prepare [OF example_admissible, of "''t1''"]
    by (simp add: example_prepared_db_def comment_of_def new_comment_def next_rowid_def)
qed

definition example_ops :: "(outbox_op \<times> string) list" where
  "example_ops = [(Enqueue True False example_comment, ''t1''), (Reserve 1, ''t2''), (Complete 1 ''comment:5'', ''t3'')]"

lemma example_reserved: "\<exists>d row. reserve_outbox example_prepared_db 1 ''t2'' = Inr (d, row) \<and>
  github_outbox d = [(new_comment example_source_db example_comment ''t1'')\<lparr>ob_state := ''INFLIGHT'', ob_updated_at := ''t2''\<rparr>] \<and>
  \<not> in_transaction d \<and> coordination_terminal_closeout_packets d = []"
proof -
  let ?row = "new_comment example_source_db example_comment ''t1''"
  have row: "ob_id ?row = 1" "ob_state ?row = ''PREPARED''" "ob_repository ?row = ''o/r''" "ob_object_kind ?row = ''issue''"
    "ob_object_number ?row = 1" "ob_expected_source_sha256 ?row = replicate 64 (CHR ''a'')"
    by (simp_all add: new_comment_def example_comment_def next_rowid_def example_source_db_def empty_db_def)
  have t: "github_outbox example_prepared_db = [?row]" "\<not> in_transaction example_prepared_db"
    "coordination_terminal_closeout_packets example_prepared_db = []"
    by (simp_all add: example_prepared_db_def log_outbox_def append_event_def example_source_db_def empty_db_def)
  have "github_current example_prepared_db = github_current example_source_db"
    "github_snapshots example_prepared_db = github_snapshots example_source_db"
    by (simp_all add: example_prepared_db_def log_outbox_def append_event_def)
  then have "current_snapshot example_prepared_db ''o/r'' ''issue'' 1 = current_snapshot example_source_db ''o/r'' ''issue'' 1"
    by (rule current_snapshot_cong)
  also have "\<dots> = Inr (Some (hd (github_current example_source_db), PDict []))" by code_simp
  finally have s: "current_snapshot example_prepared_db ''o/r'' ''issue'' 1 = \<dots>" .
  have "gc_payload_sha256 (hd (github_current example_source_db)) = replicate 64 (CHR ''a'')"
    by (simp add: example_source_db_def)
  then show ?thesis
    by (simp add: reserve_outbox_def transaction_def t row s outbox_of_def packet_of_def publication_source_current_def
        guard_eval inflight_def update_outbox_def update_recovery_def update_where_def log_outbox_def append_event_def)
qed

lemma example_published: "\<exists>d. fold_res outbox_step example_ops example_source_db = Inr d"
proof -
  from example_reserved obtain d row where d: "reserve_outbox example_prepared_db 1 ''t2'' = Inr (d, row)"
    "github_outbox d = [(new_comment example_source_db example_comment ''t1'')\<lparr>ob_state := ''INFLIGHT'', ob_updated_at := ''t2''\<rparr>]"
    "\<not> in_transaction d" "coordination_terminal_closeout_packets d = []" by blast
  have "ob_id (new_comment example_source_db example_comment ''t1'') = 1"
    by (simp add: new_comment_def next_rowid_def example_source_db_def empty_db_def)
  then have "\<exists>d2. complete_outbox d 1 ''comment:5'' ''t3'' = Inr d2"
    by (simp add: complete_outbox_def transaction_def d packet_of_def guard_eval Let_def)
  then show ?thesis by (auto simp: example_ops_def example_prepared d(1))
qed

theorem outbox_refines_publication_witness:
  "\<exists>d. fold_res outbox_step example_ops example_source_db = Inr d \<and>
     publication_step\<^sup>*\<^sup>* (publication_of example_source_db 1) (publication_of d 1) \<and>
     publication_of example_source_db 1 = Absent"
  using example_published outbox_refines_publication [OF example_source_db_wf(1), of example_ops] example_source_db_wf(3)
  by blast

theorem reservations_bounded_witness: "reservations 1 example_ops = 1 \<and> reservations 1 example_ops \<le> 1"
proof -
  from example_published obtain d where "fold_res outbox_step example_ops example_source_db = Inr d" by blast
  from reservations_bounded [OF example_source_db_wf(1) this example_source_db_wf(2)]
  have "packet_of example_source_db 1 = None \<longrightarrow> reservations 1 example_ops \<le> 1" by blast
  moreover have "packet_of example_source_db 1 = None" by (simp add: packet_of_def example_source_db_def empty_db_def)
  moreover have "reservations 1 example_ops = 1" by (simp add: reservations_def example_ops_def)
  ultimately show ?thesis by blast
qed

theorem comment_replay_witness:
  "enqueue_comment True False example_prepared_db example_comment ''t9'' = Inr (example_prepared_db, 1)"
  using comment_replay [OF example_source_db_wf(1) example_prepared, of "[]" example_prepared_db "''t9''"] by simp

end
