(* ===== verification/Snapshots.thy ===== *)
theory Snapshots
  imports Coordination_Base Graph_Eval
begin

section \<open>Source snapshots\<close>

text \<open>
  \<open>ingest_snapshot\<close> of coordination_store.py: a fetched GitHub object is stored as an immutable snapshot
  under the digest of its payload, and the pointer of the object is moved to it, unless the object on
  record is newer. The writes to \<open>github_current\<close> run the staleness triggers of the portfolio graph, and
  the source of an issue with a reserved publication is fenced.

  The theory joins them with the graph store: over every run of ingests, replacements and cursor moves,
  the recorded health of a graph is never better than the sources of its nodes.
\<close>

record source_snapshot =
  ss_repository :: string
  ss_object_kind :: string
  ss_object_number :: int
  ss_payload_sha256 :: string
  ss_source_updated_at :: string
  ss_fetched_at :: string
  ss_payload :: pyval

record snapshot_request =
  sr_repository :: string
  sr_object_kind :: string
  sr_object_number :: int
  sr_payload :: pyval
  sr_source_updated_at :: string
  sr_fetched_at :: string

subsection \<open>The version of a projection\<close>

definition projection_version :: "pydict \<Rightarrow> int res" where
  "projection_version payload =
     (if has_key payload ''_projection_version'' then py_int (py_get payload ''_projection_version'') else Inr 1)"

subsection \<open>Ingestion\<close>

definition check_newer :: "db \<Rightarrow> snapshot_request \<Rightarrow> unit res" where
  "check_newer d q =
     (case source_join d (sr_repository q) (sr_object_kind q) (sr_object_number q) of
        None \<Rightarrow> Inr ()
      | Some (c, s) \<Rightarrow>
          guarded [(sr_source_updated_at q < gc_source_updated_at c, CoordinationError ''STALE_SOURCE_SNAPSHOT'')]
          (if sr_source_updated_at q = gc_source_updated_at c \<and> digest_json (sr_payload q) \<noteq> gc_payload_sha256 c
           then require_some (ValueError ''JSONDecodeError'') (gs_payload_json s) (\<lambda>previous.
             guarded [(\<not> is_dict previous, AttributeError)]
             (bind_res (projection_version (dict_of previous)) (\<lambda>p.
              bind_res (projection_version (dict_of (sr_payload q))) (\<lambda>n.
              guarded [(n \<le> p, CoordinationError ''SOURCE_VERSION_CONFLICT'')] (Inr ())))))
           else Inr ()))"

definition snapshot_row :: "snapshot_request \<Rightarrow> github_snapshot_row" where
  "snapshot_row q =
     \<lparr>gs_repository = sr_repository q, gs_object_kind = sr_object_kind q, gs_object_number = sr_object_number q,
      gs_payload_sha256 = digest_json (sr_payload q), gs_source_updated_at = sr_source_updated_at q,
      gs_fetched_at = sr_fetched_at q, gs_payload_json = Some (sr_payload q)\<rparr>"

definition pointer_row :: "snapshot_request \<Rightarrow> github_current_row" where
  "pointer_row q =
     \<lparr>gc_repository = sr_repository q, gc_object_kind = sr_object_kind q, gc_object_number = sr_object_number q,
      gc_payload_sha256 = digest_json (sr_payload q), gc_source_updated_at = sr_source_updated_at q,
      gc_fetched_at = sr_fetched_at q\<rparr>"

definition same_snapshot :: "snapshot_request \<Rightarrow> github_snapshot_row \<Rightarrow> bool" where
  "same_snapshot q s \<longleftrightarrow> gs_repository s = sr_repository q \<and> gs_object_kind s = sr_object_kind q \<and>
     gs_object_number s = sr_object_number q \<and> gs_payload_sha256 s = digest_json (sr_payload q)"

definition same_object :: "snapshot_request \<Rightarrow> github_current_row \<Rightarrow> bool" where
  "same_object q c \<longleftrightarrow> gc_repository c = sr_repository q \<and> gc_object_kind c = sr_object_kind q \<and>
     gc_object_number c = sr_object_number q"

definition put_source :: "snapshot_request \<Rightarrow> db \<Rightarrow> db" where
  "put_source q d =
     d\<lparr>github_snapshots := insert_or_ignore (same_snapshot q) (snapshot_row q) (github_snapshots d),
       github_current := upsert (same_object q) (pointer_row q)
         (\<lambda>c. c\<lparr>gc_payload_sha256 := digest_json (sr_payload q), gc_source_updated_at := sr_source_updated_at q,
                gc_fetched_at := sr_fetched_at q\<rparr>) (github_current d)\<rparr>"

text \<open>
  The upsert of the pointer updates a row where there is one, and the trigger
  \<open>coordination_pre_push_fence_source_update\<close> aborts that while a publication of the issue is reserved.
\<close>

definition write_source :: "snapshot_request \<Rightarrow> db \<Rightarrow> db res" where
  "write_source q d =
     guarded [(current_source d (sr_repository q) (sr_object_kind q) (sr_object_number q) \<noteq> None \<and>
               sr_object_kind q = ''issue'' \<and> publication_reserved d (sr_repository q) (sr_object_number q),
               IntegrityError ''PREPUSH_PUBLICATION_RESERVED'')]
       (Inr (put_source q d))"

text \<open>The triggers of \<open>github_current\<close> an upsert fires: on update where the row existed, else on insert.\<close>

definition fire_stale :: "github_current_row option \<Rightarrow> snapshot_request \<Rightarrow> db \<Rightarrow> db" where
  "fire_stale old q d =
     (case old of None \<Rightarrow> stale_on_scoped_issue_insert (pointer_row q) d
      | Some c \<Rightarrow> stale_on_issue_update c (pointer_row q) d)"

definition snapshot_of_request :: "snapshot_request \<Rightarrow> source_snapshot" where
  "snapshot_of_request q =
     \<lparr>ss_repository = sr_repository q, ss_object_kind = sr_object_kind q, ss_object_number = sr_object_number q,
      ss_payload_sha256 = digest_json (sr_payload q), ss_source_updated_at = sr_source_updated_at q,
      ss_fetched_at = sr_fetched_at q, ss_payload = sr_payload q\<rparr>"

definition log_refreshed :: "snapshot_request \<Rightarrow> db \<Rightarrow> db" where
  "log_refreshed q d =
     append_event ''SOURCE_REFRESHED''
       (sr_repository q @ '':'' @ sr_object_kind q @ '':'' @ str_of_int (sr_object_number q))
       (PDict [(''repository'', PStr (sr_repository q)), (''object_kind'', PStr (sr_object_kind q)),
         (''object_number'', PInt (sr_object_number q)), (''payload_sha256'', PStr (digest_json (sr_payload q))),
         (''source_updated_at'', PStr (sr_source_updated_at q)), (''fetched_at'', PStr (sr_fetched_at q)),
         (''payload'', sr_payload q)]) (sr_fetched_at q) d"

definition ingest_snapshot_in_transaction ::
  "db \<Rightarrow> snapshot_request \<Rightarrow> string option \<Rightarrow> (db \<times> source_snapshot) res" where
  "ingest_snapshot_in_transaction d q expected =
     guarded [(\<not> in_transaction d, CoordinationError ''COORDINATOR_TRANSACTION_REQUIRED'')]
     (bind_res (store_validate_repository (sr_repository q)) (\<lambda>_.
      guarded [(sr_object_kind q \<notin> set SOURCE_KINDS \<or> sr_object_number q \<le> 0, CoordinationError ''INVALID_SOURCE_OBJECT''),
               (\<not> is_dict (sr_payload q) \<or> sr_source_updated_at q = [] \<or> sr_fetched_at q = [],
                CoordinationError ''INVALID_SOURCE_SNAPSHOT''),
               (expected \<noteq> None \<and> expected \<noteq> Some (digest_json (sr_payload q)),
                CoordinationError ''SOURCE_SNAPSHOT_DIGEST_DRIFT'')]
      (bind_res (check_newer d q) (\<lambda>_.
       bind_res (write_source q d) (\<lambda>written.
       Inr (log_refreshed q (fire_stale (current_source d (sr_repository q) (sr_object_kind q) (sr_object_number q)) q
              written), snapshot_of_request q))))))"

definition ingest_snapshot :: "db \<Rightarrow> snapshot_request \<Rightarrow> (db \<times> source_snapshot) res" where
  "ingest_snapshot d q =
     transaction d (bind_res (ingest_snapshot_in_transaction (d\<lparr>in_transaction := True\<rparr>) q None)
       (\<lambda>(d', snapshot). Inr (d'\<lparr>in_transaction := False\<rparr>, snapshot)))"

subsection \<open>What an ingest changes\<close>

lemma ingest_Inr:
  assumes "ingest_snapshot_in_transaction d q expected = Inr (d', snapshot)"
  shows "d' = log_refreshed q (fire_stale (current_source d (sr_repository q) (sr_object_kind q) (sr_object_number q)) q
      (put_source q d))"
    and "check_newer d q = Inr ()" and "sr_object_kind q \<in> set SOURCE_KINDS" and "0 < sr_object_number q"
    and "snapshot = snapshot_of_request q"
  using assms by (auto simp: ingest_snapshot_in_transaction_def write_source_def guard_simps)

text \<open>A reserved publication fences the source of its issue: no ingest replaces it.\<close>

lemma ingest_fenced:
  assumes "ingest_snapshot_in_transaction d q expected = Inr (d', snapshot)"
    and "publication_reserved d (sr_repository q) (sr_object_number q)" and "sr_object_kind q = ''issue''"
  shows "current_source d (sr_repository q) ''issue'' (sr_object_number q) = None"
  using assms by (auto simp: ingest_snapshot_in_transaction_def write_source_def guard_simps)

lemma ingest_snapshot_Inr:
  assumes "ingest_snapshot d q = Inr (d', snapshot)"
  obtains e where "ingest_snapshot_in_transaction (d\<lparr>in_transaction := True\<rparr>) q None = Inr (e, snapshot)"
    "d' = e\<lparr>in_transaction := False\<rparr>"
  using assms by (auto simp: ingest_snapshot_def guard_simps)

lemma pointer_row_simps [simp]:
  "gc_repository (pointer_row q) = sr_repository q" "gc_object_kind (pointer_row q) = sr_object_kind q"
  "gc_object_number (pointer_row q) = sr_object_number q"
  "gc_payload_sha256 (pointer_row q) = digest_json (sr_payload q)"
  "gc_source_updated_at (pointer_row q) = sr_source_updated_at q"
  "gc_fetched_at (pointer_row q) = sr_fetched_at q"
  by (simp_all add: pointer_row_def)

lemma mark_stale_fields [simp]:
  "github_current (mark_stale hit at reason d) = github_current d"
  "github_snapshots (mark_stale hit at reason d) = github_snapshots d"
  "portfolio_graph_nodes (mark_stale hit at reason d) = portfolio_graph_nodes d"
  "portfolio_graph_relations (mark_stale hit at reason d) = portfolio_graph_relations d"
  "portfolio_graph_revisions (mark_stale hit at reason d) = portfolio_graph_revisions d"
  by (simp_all add: mark_stale_def)

lemma fire_stale_fields [simp]:
  "github_current (fire_stale old q d) = github_current d"
  "github_snapshots (fire_stale old q d) = github_snapshots d"
  "portfolio_graph_nodes (fire_stale old q d) = portfolio_graph_nodes d"
  "portfolio_graph_relations (fire_stale old q d) = portfolio_graph_relations d"
  "portfolio_graph_revisions (fire_stale old q d) = portfolio_graph_revisions d"
  by (auto simp: fire_stale_def stale_on_scoped_issue_insert_def stale_on_issue_update_def split: option.split)

lemma log_refreshed_fields [simp]:
  "github_current (log_refreshed q d) = github_current d"
  "github_snapshots (log_refreshed q d) = github_snapshots d"
  "portfolio_graph_current (log_refreshed q d) = portfolio_graph_current d"
  "portfolio_graph_nodes (log_refreshed q d) = portfolio_graph_nodes d"
  "portfolio_graph_relations (log_refreshed q d) = portfolio_graph_relations d"
  "portfolio_graph_revisions (log_refreshed q d) = portfolio_graph_revisions d"
  by (simp_all add: log_refreshed_def)

lemma put_source_fields [simp]:
  "portfolio_graph_current (put_source q d) = portfolio_graph_current d"
  "portfolio_graph_nodes (put_source q d) = portfolio_graph_nodes d"
  "portfolio_graph_relations (put_source q d) = portfolio_graph_relations d"
  "portfolio_graph_revisions (put_source q d) = portfolio_graph_revisions d"
  by (simp_all add: put_source_def)

lemma same_object_update:
  "same_object q c \<Longrightarrow> c\<lparr>gc_payload_sha256 := digest_json (sr_payload q),
     gc_source_updated_at := sr_source_updated_at q, gc_fetched_at := sr_fetched_at q\<rparr> = pointer_row q"
  by (simp add: same_object_def pointer_row_def)

lemma current_source_written:
  "current_source (put_source q d) repo kind n =
     (if repo = sr_repository q \<and> kind = sr_object_kind q \<and> n = sr_object_number q then Some (pointer_row q)
      else current_source d repo kind n)"
proof (cases "repo = sr_repository q \<and> kind = sr_object_kind q \<and> n = sr_object_number q")
  case True
  then have key: "(\<lambda>r. gc_repository r = repo \<and> gc_object_kind r = kind \<and> gc_object_number r = n) = same_object q"
    by (auto simp: same_object_def)
  let ?f = "\<lambda>c. c\<lparr>gc_payload_sha256 := digest_json (sr_payload q),
     gc_source_updated_at := sr_source_updated_at q, gc_fetched_at := sr_fetched_at q\<rparr>"
  have "List.find (same_object q) (upsert (same_object q) (pointer_row q) ?f (github_current d)) =
      Some (case List.find (same_object q) (github_current d) of None \<Rightarrow> pointer_row q | Some r \<Rightarrow> ?f r)"
    by (rule find_upsert) (simp_all add: same_object_def)
  also have "\<dots> = Some (pointer_row q)"
    by (cases "List.find (same_object q) (github_current d)") (auto dest: find_SomeD same_object_update)
  finally have "current_source (put_source q d) repo kind n = Some (pointer_row q)"
    unfolding current_source_def key by (simp add: put_source_def)
  with True show ?thesis by simp
next
  case False
  let ?q = "\<lambda>r. gc_repository r = repo \<and> gc_object_kind r = kind \<and> gc_object_number r = n"
  have "List.find ?q (upsert (same_object q) (pointer_row q)
      (\<lambda>c. c\<lparr>gc_payload_sha256 := digest_json (sr_payload q), gc_source_updated_at := sr_source_updated_at q,
             gc_fetched_at := sr_fetched_at q\<rparr>) (github_current d)) = List.find ?q (github_current d)"
    by (rule find_upsert_other) (use False in \<open>auto simp: same_object_def\<close>)
  then have "current_source (put_source q d) repo kind n = current_source d repo kind n"
    unfolding current_source_def by (simp add: put_source_def)
  then show ?thesis using False by (simp only: if_False)
qed

lemma stored_snapshot_written:
  "stored_snapshot d c = Some s \<Longrightarrow> stored_snapshot (put_source q d) c = Some s"
  "\<exists>s. stored_snapshot (put_source q d) (pointer_row q) = Some s"
proof -
  show "stored_snapshot d c = Some s \<Longrightarrow> stored_snapshot (put_source q d) c = Some s"
    by (simp add: stored_snapshot_def put_source_def insert_or_ignore_def find_append)
  have "\<exists>s \<in> set (github_snapshots (put_source q d)). same_snapshot q s"
    by (auto simp: put_source_def insert_or_ignore_def same_snapshot_def snapshot_row_def)
  then have "stored_snapshot (put_source q d) (pointer_row q) \<noteq> None"
    by (auto simp: stored_snapshot_def find_None_iff same_snapshot_def)
  then show "\<exists>s. stored_snapshot (put_source q d) (pointer_row q) = Some s" by auto
qed

lemma source_join_written:
  "\<exists>s. source_join (put_source q d) (sr_repository q) (sr_object_kind q) (sr_object_number q) = Some (pointer_row q, s)"
  "(repo, kind, n) \<noteq> (sr_repository q, sr_object_kind q, sr_object_number q) \<Longrightarrow>
     source_join d repo kind n = Some x \<Longrightarrow> source_join (put_source q d) repo kind n = Some x"
proof -
  from stored_snapshot_written(2) obtain s where "stored_snapshot (put_source q d) (pointer_row q) = Some s" by blast
  then show "\<exists>s. source_join (put_source q d) (sr_repository q) (sr_object_kind q) (sr_object_number q) =
      Some (pointer_row q, s)" by (simp add: source_join_def current_source_written)
  show "source_join (put_source q d) repo kind n = Some x"
    if "(repo, kind, n) \<noteq> (sr_repository q, sr_object_kind q, sr_object_number q)" "source_join d repo kind n = Some x"
    using that stored_snapshot_written(1)
    by (auto simp: source_join_def current_source_written split: option.splits)
qed

text \<open>
  The record of a source only moves forward. A committed ingest makes the fetched payload the current
  source of its object and leaves the current source of every other object, and every stored snapshot, as
  they were; the source it replaces is not newer, and when the two have the same time the payload is the
  same or comes from a later version of the projection.
\<close>

theorem ingest_snapshot_forward:
  assumes "ingest_snapshot d q = Inr (d', snapshot)"
  shows "(\<exists>s. source_join d' (sr_repository q) (sr_object_kind q) (sr_object_number q) = Some (pointer_row q, s) \<and>
       gs_payload_sha256 s = digest_json (sr_payload q)) \<and>
    (\<forall>repo kind n. (repo, kind, n) \<noteq> (sr_repository q, sr_object_kind q, sr_object_number q) \<longrightarrow>
       current_source d' repo kind n = current_source d repo kind n) \<and>
    prefix (github_snapshots d) (github_snapshots d') \<and>
    (\<forall>c s. source_join d (sr_repository q) (sr_object_kind q) (sr_object_number q) = Some (c, s) \<longrightarrow>
       gc_source_updated_at c < sr_source_updated_at q \<or>
       gc_source_updated_at c = sr_source_updated_at q \<and>
         (gc_payload_sha256 c = digest_json (sr_payload q) \<or>
          (\<exists>payload p v. gs_payload_json s = Some payload \<and> projection_version (dict_of payload) = Inr p \<and>
             projection_version (dict_of (sr_payload q)) = Inr v \<and> p < v)))"
proof -
  let ?d = "d\<lparr>in_transaction := True\<rparr>"
  from assms obtain e where e: "ingest_snapshot_in_transaction ?d q None = Inr (e, snapshot)"
    and d': "d' = e\<lparr>in_transaction := False\<rparr>" by (rule ingest_snapshot_Inr)
  note i = ingest_Inr [OF e]
  have tables: "github_current d' = github_current (put_source q d)" "github_snapshots d' = github_snapshots (put_source q d)"
    by (simp_all add: d' i(1) put_source_def)
  note same = source_join_cong [OF tables]
  have "\<exists>s. source_join d' (sr_repository q) (sr_object_kind q) (sr_object_number q) = Some (pointer_row q, s) \<and>
      gs_payload_sha256 s = digest_json (sr_payload q)"
    using source_join_written(1) [of q d] unfolding same
    by (auto simp: source_join_def stored_snapshot_def split: option.splits dest: find_SomeD)
  moreover have "current_source d' repo kind n = current_source (put_source q d) repo kind n" for repo kind n
    by (simp add: current_source_def tables)
  moreover have "prefix (github_snapshots d) (github_snapshots d')"
    by (simp add: tables put_source_def insert_or_ignore_def)
  moreover have "gc_source_updated_at c < sr_source_updated_at q \<or> gc_source_updated_at c = sr_source_updated_at q \<and>
       (gc_payload_sha256 c = digest_json (sr_payload q) \<or>
        (\<exists>payload p v. gs_payload_json s = Some payload \<and> projection_version (dict_of payload) = Inr p \<and>
           projection_version (dict_of (sr_payload q)) = Inr v \<and> p < v))"
    if "source_join d (sr_repository q) (sr_object_kind q) (sr_object_number q) = Some (c, s)" for c s
  proof -
    have "source_join ?d = source_join d" by (intro ext source_join_cong) simp_all
    with i(2) that show ?thesis by (auto simp: check_newer_def guard_simps not_less split: if_splits)
  qed
  ultimately show ?thesis by (simp add: current_source_written)
qed

subsection \<open>The recorded health of a graph\<close>

text \<open>
  A current row is trusted if the cursor may report it as current again: it is not stale, or stale for
  no recorded reason but main.
\<close>

definition trusted :: "graph_current_row \<Rightarrow> bool" where
  "trusted c \<longleftrightarrow> gp_health c \<noteq> ''STALE'' \<or> gp_last_error c \<in> {None, Some ''GRAPH_MAIN_DRIFT''}"

definition node_source_current :: "db \<Rightarrow> string \<Rightarrow> graph_node_row \<Rightarrow> bool" where
  "node_source_current d repo n \<longleftrightarrow>
     (\<exists>s. source_join d repo ''issue'' (gn_issue_number n) = Some s \<and> gc_payload_sha256 (fst s) = gn_source_payload_sha256 n)"

definition sources_tracked :: "db \<Rightarrow> bool" where
  "sources_tracked d \<longleftrightarrow> (\<forall>repo c. graph_current_of d repo = Some c \<and> trusted c \<longrightarrow>
     (\<forall>n \<in> set (nodes_of d repo (gp_version c)). node_source_current d repo n))"

lemma node_source_current_iff: "node_source_current d repo n \<longleftrightarrow> node_stale_reason d repo n = []"
  by (cases "source_join d repo ''issue'' (gn_issue_number n)")
    (auto simp: node_source_current_def node_stale_reason_def snapshot_of_def split: if_splits)

lemma graph_tables_cong:
  assumes "portfolio_graph_current d' = portfolio_graph_current d" "portfolio_graph_nodes d' = portfolio_graph_nodes d"
    "portfolio_graph_relations d' = portfolio_graph_relations d" "portfolio_graph_revisions d' = portfolio_graph_revisions d"
  shows "graph_current_of d' = graph_current_of d" "nodes_of d' = nodes_of d" "graph_wf d' = graph_wf d"
  using assms by (simp_all add: fun_eq_iff graph_current_of_def nodes_of_def relations_of_def graph_wf_def current_version_def)

lemma node_source_current_cong:
  assumes "github_current d' = github_current d" and "github_snapshots d' = github_snapshots d"
  shows "node_source_current d' = node_source_current d"
  by (simp add: fun_eq_iff node_source_current_def source_join_cong [OF assms])

lemma find_marked:
  "graph_current_of (mark_stale hit at reason d) repo =
     map_option (\<lambda>c. if hit c then c\<lparr>gp_health := ''STALE'', gp_updated_at := at, gp_last_error := Some reason\<rparr> else c)
       (graph_current_of d repo)"
  unfolding graph_current_of_def mark_stale_def by (simp, rule find_update_where) simp

lemma mark_stale_wf: "graph_wf d \<Longrightarrow> graph_wf (mark_stale hit at reason d)"
  unfolding mark_stale_def by (rule graph_wf_current_update) (auto simp: map_update_where)

lemma fire_stale_wf: "graph_wf d \<Longrightarrow> graph_wf (fire_stale old q d)"
  by (simp add: fire_stale_def stale_on_scoped_issue_insert_def stale_on_issue_update_def mark_stale_wf
      split: option.split)

text \<open>The trigger leaves a trusted row only if it was trusted and no node of it has a changed source.\<close>

lemma fire_stale_trusted:
  assumes "graph_current_of (fire_stale old q d) repo = Some c" and "trusted c"
  shows "graph_current_of d repo = Some c"
    and "old = Some o' \<Longrightarrow> repo = sr_repository q \<Longrightarrow> sr_object_kind q = ''issue'' \<Longrightarrow>
      n \<in> set (nodes_of d repo (gp_version c)) \<Longrightarrow> gn_issue_number n = sr_object_number q \<Longrightarrow>
      gc_payload_sha256 o' = digest_json (sr_payload q) \<or> gn_source_payload_sha256 n = digest_json (sr_payload q)"
proof -
  have marked: "graph_current_of d repo = Some c \<and> \<not> hit c"
    if "graph_current_of (mark_stale hit at reason d) repo = Some c" "reason \<noteq> ''GRAPH_MAIN_DRIFT''" for hit at reason
  proof -
    from that(1) obtain c0 where c0: "graph_current_of d repo = Some c0"
      "c = (if hit c0 then c0\<lparr>gp_health := ''STALE'', gp_updated_at := at, gp_last_error := Some reason\<rparr> else c0)"
      by (auto simp: find_marked)
    have "\<not> hit c0"
    proof
      assume "hit c0"
      with c0(2) have "gp_health c = ''STALE''" "gp_last_error c = Some reason" by simp_all
      with assms(2) that(2) show False by (simp add: trusted_def)
    qed
    with c0 show ?thesis by simp
  qed
  show cur: "graph_current_of d repo = Some c"
    using assms(1) marked
    by (auto simp: fire_stale_def stale_on_scoped_issue_insert_def stale_on_issue_update_def split: option.splits if_splits)
  have repo: "gp_repository c = repo" using cur by (auto simp: graph_current_of_def dest: find_SomeD)
  show "gc_payload_sha256 o' = digest_json (sr_payload q) \<or> gn_source_payload_sha256 n = digest_json (sr_payload q)"
    if h: "old = Some o'" "repo = sr_repository q" "sr_object_kind q = ''issue''" "n \<in> set (nodes_of d repo (gp_version c))"
      "gn_issue_number n = sr_object_number q"
  proof (rule ccontr)
    assume neg: "\<not> ?thesis"
    then have "digest_json (sr_payload q) \<noteq> gc_payload_sha256 o'" by auto
    then have "fire_stale old q d = mark_stale (\<lambda>c. gp_repository c = gc_repository (pointer_row q) \<and>
          ((\<exists>n \<in> set (nodes_of d (gp_repository c) (gp_version c)).
              gn_issue_number n = gc_object_number (pointer_row q) \<and>
              gn_source_payload_sha256 n \<noteq> gc_payload_sha256 (pointer_row q)) \<or>
           (in_milestone_scope d c (pointer_row q) \<and> \<not> represented d c (gc_object_number (pointer_row q))) \<or>
           (in_issue_set_scope d c (gc_object_number (pointer_row q)) \<and> \<not> represented d c (gc_object_number (pointer_row q)))))
          (gc_fetched_at (pointer_row q)) ''GRAPH_SOURCE_DRIFT'' d"
      using h by (simp add: fire_stale_def stale_on_issue_update_def)
    with assms(1) marked have "\<not> (gp_repository c = sr_repository q \<and>
        (\<exists>n \<in> set (nodes_of d (gp_repository c) (gp_version c)).
           gn_issue_number n = sr_object_number q \<and> gn_source_payload_sha256 n \<noteq> digest_json (sr_payload q)))"
      by fastforce
    with h repo neg show False by auto
  qed
qed

lemma ingest_tracked:
  assumes "ingest_snapshot_in_transaction d q expected = Inr (d', snapshot)" and wf: "graph_wf d" and inv: "sources_tracked d"
  shows "graph_wf d' \<and> sources_tracked d'"
proof -
  let ?old = "current_source d (sr_repository q) (sr_object_kind q) (sr_object_number q)"
  let ?e = "fire_stale ?old q (put_source q d)"
  note i = ingest_Inr [OF assms(1)]
  have d': "graph_current_of d' = graph_current_of ?e" "nodes_of d' = nodes_of ?e" "graph_wf d' = graph_wf ?e"
    by (rule graph_tables_cong; simp add: i(1))+
  have w: "graph_current_of (put_source q d) = graph_current_of d" "nodes_of (put_source q d) = nodes_of d"
    "graph_wf (put_source q d) = graph_wf d" by (rule graph_tables_cong; simp)+
  have nodes: "nodes_of d' = nodes_of d" by (simp add: d'(2) fun_eq_iff nodes_of_def)
  have source: "node_source_current d' = node_source_current (put_source q d)"
    by (rule node_source_current_cong) (simp_all add: i(1))
  have "sources_tracked d'"
    unfolding sources_tracked_def
  proof (intro allI impI ballI)
    fix repo c n
    assume c: "graph_current_of d' repo = Some c \<and> trusted c" and n: "n \<in> set (nodes_of d' repo (gp_version c))"
    then have c': "graph_current_of ?e repo = Some c" "trusted c" by (simp_all add: d'(1))
    note keep = fire_stale_trusted [OF c', unfolded w]
    from keep(1) c'(2) n inv have "node_source_current d repo n" by (simp add: sources_tracked_def nodes)
    then obtain s where s: "source_join d repo ''issue'' (gn_issue_number n) = Some s"
      "gc_payload_sha256 (fst s) = gn_source_payload_sha256 n" by (auto simp: node_source_current_def)
    show "node_source_current d' repo n"
    proof (cases "(repo, ''issue'', gn_issue_number n) = (sr_repository q, sr_object_kind q, sr_object_number q)")
      case False
      then show ?thesis using source_join_written(2) [OF False s(1)] s(2)
        by (auto simp: source node_source_current_def)
    next
      case True
      from s(1) True have old: "?old = Some (fst s)" by (auto simp: source_join_def split: option.splits)
      have "gc_payload_sha256 (fst s) = digest_json (sr_payload q) \<or> gn_source_payload_sha256 n = digest_json (sr_payload q)"
        by (rule keep(2) [OF old]) (use True n in \<open>simp_all add: nodes\<close>)
      then have "gn_source_payload_sha256 n = digest_json (sr_payload q)" using s(2) by simp
      then show ?thesis using source_join_written(1) [of q d] True
        by (auto simp: source node_source_current_def)
    qed
  qed
  then show ?thesis using wf fire_stale_wf [of "put_source q d"] by (simp add: d'(3) w(3))
qed

lemma replace_tracked:
  assumes wf: "graph_wf d" and inv: "sources_tracked d" and ok: "replace_graph d plan now tr ens = Inr (d', rc)"
  shows "graph_wf d' \<and> sources_tracked d'"
proof -
  from ok obtain m p where p: "replace_prepare (d\<lparr>sqlite_master := m\<rparr>) plan = Inr p"
    and c: "replace_commit (d\<lparr>sqlite_master := m\<rparr>) p now = Inr (d', rc)" by (rule replace_graph_Inr)
  let ?d = "d\<lparr>sqlite_master := m\<rparr>"
  have wf': "graph_wf ?d" using wf by simp
  have d: "graph_current_of ?d = graph_current_of d" "nodes_of ?d = nodes_of d" by (rule graph_tables_cong; simp)+
  note v = replace_commit_views [OF wf' c] note r = replace_commit_Inr [OF c graph_wf_distinct [OF wf']]
  have tables: "github_current d' = github_current d" "github_snapshots d' = github_snapshots d" by (simp_all add: r(1))
  note source = node_source_current_cong [OF tables]
  have "sources_tracked d'"
    unfolding sources_tracked_def
  proof (intro allI impI ballI)
    fix repo c' n
    assume c': "graph_current_of d' repo = Some c' \<and> trusted c'" and n: "n \<in> set (nodes_of d' repo (gp_version c'))"
    show "node_source_current d' repo n"
    proof (cases "repo = pl_repository p")
      case True
      with c' have "c' = current_row p now" by (simp add: v(3))
      with n True obtain pn where pn: "pn \<in> set (pl_nodes p)" "n = stored_node p ?d pn" by (auto simp: v(1))
      from check_sources_node [OF r(8) pn(1)] have "node_source_current ?d repo n"
        using True pn(2) by (auto simp: node_source_current_def snapshot_of_def guard_simps)
      moreover have "node_source_current ?d = node_source_current d" by (rule node_source_current_cong) simp_all
      ultimately show ?thesis by (simp add: source)
    next
      case False
      with c' n have "graph_current_of d repo = Some c'" "n \<in> set (nodes_of d repo (gp_version c'))"
        by (simp_all add: v(1,3) d)
      with inv c' show ?thesis unfolding sources_tracked_def source by blast
    qed
  qed
  then show ?thesis using replace_commit_wf [OF wf' c replace_prepare_prepared(1) [OF p]] by simp
qed

lemma sync_tracked:
  assumes wf: "graph_wf d" and inv: "sources_tracked d" and ok: "sync_head d repo sha ev eo now ens tr = Inr (d', res)"
  shows "graph_wf d' \<and> sources_tracked d'"
proof -
  from ok obtain m where body: "sync_head_body (d\<lparr>sqlite_master := m\<rparr>) repo sha ev eo now = Inr (d', res)"
    by (rule sync_head_Inr)
  let ?d = "d\<lparr>sqlite_master := m\<rparr>"
  have views: "graph_current_of ?d = graph_current_of d" "nodes_of ?d = nodes_of d" "graph_wf ?d = graph_wf d"
    by (rule graph_tables_cong; simp)+
  from body obtain c :: graph_current_row and r :: graph_revision_row and scope health err where
    c: "graph_current_of ?d repo = Some c" "gp_version c = ev" "gp_observed_main_sha c = eo"
    and h: "synced_health (scope_is_issue_set scope) (gr_accepted_main_sha r) sha (gp_health c) (gp_last_error c) = (health, err)"
    and d': "if eo = sha then d' = moved_cursor repo ev eo sha now health err ?d
     else \<exists>n i. min_issue (nodes_of ?d repo ev) = Some n \<and>
       enqueue_convergence_dirty_event (moved_cursor repo ev eo sha now health err ?d)
         (cursor_request repo ev n eo sha) now False = Inr (d', i)"
    by (rule sync_head_body_Inr)
  let ?e = "moved_cursor repo ev eo sha now health err ?d"
  have same: "without_wakes d' = without_wakes ?e" using d' by (auto split: if_splits dest: enqueue_dirty_frame)
  note g = without_wakes_graph [OF same] note f = without_wakes_fields [OF same]
  have nodes: "nodes_of ?e = nodes_of d" by (simp add: fun_eq_iff moved_cursor_def nodes_of_def)
  have source: "node_source_current d' = node_source_current d"
    by (rule node_source_current_cong) (simp_all add: f moved_cursor_def)
  have trust: "trusted c" if "trusted (c\<lparr>gp_observed_main_sha := sha, gp_health := health, gp_updated_at := now, gp_last_error := err\<rparr>)"
    using that h by (auto simp: trusted_def synced_health_def Let_def split: if_splits)
  have "sources_tracked d'"
    unfolding sources_tracked_def
  proof (intro allI impI ballI)
    fix other c' n
    assume c': "graph_current_of d' other = Some c' \<and> trusted c'" and n: "n \<in> set (nodes_of d' other (gp_version c'))"
    have "\<exists>c0. graph_current_of d other = Some c0 \<and> trusted c0 \<and> gp_version c0 = gp_version c'"
      using c' c trust by (auto simp: g(1) graph_current_of_moved [OF c] views split: if_splits)
    with n inv show "node_source_current d' other n" by (auto simp: sources_tracked_def source g(3) nodes)
  qed
  then show ?thesis using wf moved_cursor_wf [of ?d] by (simp add: g(5) views)
qed

subsection \<open>Runs\<close>

datatype source_op =
    Ingest snapshot_request
  | Replace pydict bool bool
  | MoveCursor string string int string bool bool

fun source_step :: "source_op \<times> string \<Rightarrow> db \<Rightarrow> db res" where
  "source_step (Ingest q, now) d = bind_res (ingest_snapshot d q) (\<lambda>x. Inr (fst x))"
| "source_step (Replace plan tr ens, now) d = bind_res (replace_graph d plan now tr ens) (\<lambda>x. Inr (fst x))"
| "source_step (MoveCursor repo sha ev eo ens tr, now) d =
     bind_res (sync_head d repo sha ev eo now ens tr) (\<lambda>x. Inr (fst x))"

lemma ingest_snapshot_tracked:
  assumes "ingest_snapshot d q = Inr (d', snapshot)" and "graph_wf d" and "sources_tracked d"
  shows "graph_wf d' \<and> sources_tracked d'"
proof -
  let ?d = "d\<lparr>in_transaction := True\<rparr>"
  from assms(1) obtain e where e: "ingest_snapshot_in_transaction ?d q None = Inr (e, snapshot)"
    and d': "d' = e\<lparr>in_transaction := False\<rparr>" by (rule ingest_snapshot_Inr)
  have flag: "graph_wf (x\<lparr>in_transaction := b\<rparr>) = graph_wf x \<and> sources_tracked (x\<lparr>in_transaction := b\<rparr>) = sources_tracked x" for x b
  proof -
    have v: "graph_current_of (x\<lparr>in_transaction := b\<rparr>) = graph_current_of x" "nodes_of (x\<lparr>in_transaction := b\<rparr>) = nodes_of x"
      "graph_wf (x\<lparr>in_transaction := b\<rparr>) = graph_wf x" by (rule graph_tables_cong; simp)+
    moreover have "node_source_current (x\<lparr>in_transaction := b\<rparr>) = node_source_current x"
      by (rule node_source_current_cong) simp_all
    ultimately show ?thesis by (simp add: sources_tracked_def)
  qed
  from ingest_tracked [OF e] assms(2,3) show ?thesis by (simp add: flag d')
qed

lemma source_step_tracked:
  assumes "source_step x d = Inr d'" and "graph_wf d \<and> sources_tracked d"
  shows "graph_wf d' \<and> sources_tracked d'"
proof -
  obtain act now where x: "x = (act, now)" by force
  show ?thesis
  proof (cases act)
    case (Ingest q)
    with x assms(1) obtain s where "ingest_snapshot d q = Inr (d', s)" by (auto simp: guard_simps)
    from ingest_snapshot_tracked [OF this] assms(2) show ?thesis by simp
  next
    case (Replace plan tr ens)
    with x assms(1) obtain rc where "replace_graph d plan now tr ens = Inr (d', rc)" by (auto simp: guard_simps)
    from replace_tracked [OF _ _ this] assms(2) show ?thesis by simp
  next
    case (MoveCursor repo sha ev eo ens tr)
    with x assms(1) obtain res where "sync_head d repo sha ev eo now ens tr = Inr (d', res)" by (auto simp: guard_simps)
    from sync_tracked [OF _ _ this] assms(2) show ?thesis by simp
  qed
qed

text \<open>
  C7: the health on record is never better than the sources. Over any run of ingests, graph replacements
  and cursor moves, the tables stay well formed, and whenever a repository's graph is recorded as
  \<open>CURRENT\<close> every node of it is bound to the current snapshot of its issue, so the evaluation finds no
  stale node.
\<close>

theorem recorded_health_sound:
  assumes "graph_wf d" and "sources_tracked d" and "fold_res source_step ops d = Inr d'"
  shows "graph_wf d' \<and> sources_tracked d' \<and>
    (\<forall>repo c. graph_current_of d' repo = Some c \<and> gp_health c = ''CURRENT'' \<longrightarrow>
       (\<forall>n \<in> set (graph_nodes d' repo). node_stale_reason d' repo n = []))"
proof -
  have inv: "graph_wf d' \<and> sources_tracked d'"
    using assms(3) by (rule fold_res_invariant) (use assms(1,2) source_step_tracked in blast)+
  moreover have "node_stale_reason d' repo n = []"
    if "graph_current_of d' repo = Some c" "gp_health c = ''CURRENT''" "n \<in> set (graph_nodes d' repo)" for repo c n
  proof -
    have "trusted c" using that(2) by (simp add: trusted_def)
    moreover have "n \<in> set (nodes_of d' repo (gp_version c))"
      using that(1,3) by (simp add: graph_nodes_def current_version_def)
    ultimately have "node_source_current d' repo n" using inv that(1) unfolding sources_tracked_def by blast
    then show ?thesis by (simp only: node_source_current_iff)
  qed
  ultimately show ?thesis by blast
qed

subsection \<open>Instances\<close>

definition example_ingest :: snapshot_request where
  "example_ingest = \<lparr>sr_repository = ''o/r'', sr_object_kind = ''issue'', sr_object_number = 1,
     sr_payload = PDict [(''title'', PStr ''first'')], sr_source_updated_at = ''t1'', sr_fetched_at = ''t2''\<rparr>"

lemma example_ingested: "\<exists>d snapshot. ingest_snapshot empty_db example_ingest = Inr (d, snapshot)"
proof -
  have "REPOSITORY ''o/r''" by code_simp
  then show ?thesis
    by (simp add: ingest_snapshot_def ingest_snapshot_in_transaction_def transaction_def example_ingest_def
        store_validate_repository_def SOURCE_KINDS_def check_newer_def source_join_def current_source_def
        write_source_def publication_reserved_def empty_db_def guard_eval)
qed

theorem ingest_snapshot_forward_witness:
  "\<exists>d s. source_join d ''o/r'' ''issue'' 1 = Some (pointer_row example_ingest, s)"
proof -
  from example_ingested obtain d snapshot where "ingest_snapshot empty_db example_ingest = Inr (d, snapshot)" by blast
  from ingest_snapshot_forward [OF this] show ?thesis by (auto simp: example_ingest_def)
qed

lemma example_db_tracked: "sources_tracked example_db"
  by (simp add: sources_tracked_def graph_current_of_def example_db_def empty_db_def)

theorem recorded_health_sound_witness:
  "\<exists>d repo n. fold_res source_step [(Replace example_plan True True, ''t1'')] example_db = Inr d \<and>
     n \<in> set (graph_nodes d repo) \<and> node_stale_reason d repo n = []"
proof -
  obtain p d rc where p: "map pn_node_key (pl_nodes p) = [''issue:1'', ''issue:2'']"
    and c: "replace_commit example_db p ''t1'' = Inr (d, rc)"
    and ok: "replace_graph example_db example_plan ''t1'' True True = Inr (d, rc)" by (rule example_replacement)
  have run: "fold_res source_step [(Replace example_plan True True, ''t1'')] example_db = Inr d" by (simp add: ok)
  note v = replace_commit_views [OF example_db_wf c]
  let ?repo = "pl_repository p"
  have nodes: "graph_nodes d ?repo = map (stored_node p example_db) (pl_nodes p)" by (simp add: graph_nodes_def v)
  moreover have "pl_nodes p \<noteq> []" using p by auto
  ultimately have "hd (graph_nodes d ?repo) \<in> set (graph_nodes d ?repo)" by (intro list.set_sel(1)) simp
  moreover from recorded_health_sound [OF example_db_wf example_db_tracked run] v(3) [of ?repo]
  have "\<forall>n \<in> set (graph_nodes d ?repo). node_stale_reason d ?repo n = []" by simp
  ultimately show ?thesis using run by blast
qed

end
