(* ===== verification/Convergence.thy ===== *)
theory Convergence
  imports Capacity Timestamps
begin

section \<open>Consuming convergence wakes\<close>

text \<open>
  The event handling of portfolio_convergence.py: the next due wake, the fence that ties it to what was
  read before the transaction, and the three ways an attempt at it ends (completed, deferred with
  blockers, failed with an error). The choice of a successor and its admission, which decide how an
  attempt ends, are not modelled here.

  \<open>wake_of\<close> is the query by id. A result keeps \<open>outcome\<close> and \<open>blockers\<close> apart from its other keys.
\<close>

definition MAX_ATTEMPTS :: int where "MAX_ATTEMPTS = 5"

definition RETRY_BASE_SECONDS :: int where "RETRY_BASE_SECONDS = 5"

definition MAX_RETRY_SECONDS :: int where "MAX_RETRY_SECONDS = 60"

definition retry_seconds :: "int \<Rightarrow> int" where
  "retry_seconds attempts = min (RETRY_BASE_SECONDS * 2 ^ nat (max 0 (attempts - 1))) MAX_RETRY_SECONDS"

text \<open>\<open>_timestamp_after\<close>: on UTC instants \<open>astimezone(timezone.utc)\<close> changes nothing.\<close>

definition convergence_timestamp_after :: "string \<Rightarrow> int \<Rightarrow> string res" where
  "convergence_timestamp_after ts seconds = timestamp_after ts seconds"

definition armed :: "dirty_event_row \<Rightarrow> bool" where
  "armed e \<longleftrightarrow> de_state e = ''PENDING'' \<or> de_state e = ''RETRY''"

definition wake_of :: "db \<Rightarrow> int \<Rightarrow> dirty_event_row option" where
  "wake_of d i = List.find (\<lambda>e. de_id e = i) (portfolio_dirty_events d)"

definition due :: "string \<Rightarrow> string option \<Rightarrow> dirty_event_row \<Rightarrow> bool" where
  "due now repository e \<longleftrightarrow> armed e \<and> de_next_attempt_at e \<le> now \<and>
     (case repository of None \<Rightarrow> True | Some r \<Rightarrow> de_repository e = r)"

definition next_event :: "db \<Rightarrow> string \<Rightarrow> string option \<Rightarrow> dirty_event_row option" where
  "next_event d now repository =
     (case sort_key de_id (filter (due now repository) (portfolio_dirty_events d)) of
        [] \<Rightarrow> None | e # _ \<Rightarrow> Some e)"

definition payload_agrees :: "dirty_event_row \<Rightarrow> pydict \<Rightarrow> bool" where
  "payload_agrees row payload \<longleftrightarrow>
     py_eq (py_get payload ''repository'') (PStr (de_repository row)) \<and>
     py_eq (py_get payload ''issue_number'') (PInt (de_issue_number row)) \<and>
     py_eq (py_get payload ''release_item_version'') (PInt (de_release_item_version row)) \<and>
     py_eq (py_get payload ''release_source_sha256'') (PStr (de_release_source_sha256 row))"

definition validate_event :: "dirty_event_row \<Rightarrow> dirty_event_row \<Rightarrow> pydict res" where
  "validate_event row expected =
     guarded [(de_id row \<noteq> de_id expected, PortfolioConvergenceError ''PORTFOLIO_EVENT_FENCE_LOST'')]
     (require_some (PortfolioConvergenceError ''PORTFOLIO_EVENT_PAYLOAD_INVALID'') (de_payload_json row) (\<lambda>payload.
      guarded [(digest_json payload \<noteq> de_event_sha256 row \<or> de_event_sha256 row \<noteq> de_event_sha256 expected \<or>
                \<not> same_json_text (de_payload_json expected) payload,
                PortfolioConvergenceError ''PORTFOLIO_EVENT_PAYLOAD_MISMATCH''),
               (\<not> is_dict payload, AttributeError),
               (\<not> payload_agrees row (dict_of payload),
                PortfolioConvergenceError ''PORTFOLIO_EVENT_PAYLOAD_MISMATCH'')]
        (Inr (dict_of payload))))"

record convergence_result =
  cr_outcome :: string
  cr_blockers :: "string list"
  cr_fields :: pydict

definition result_value :: "convergence_result \<Rightarrow> pyval" where
  "result_value r = PDict ([(''outcome'', PStr (cr_outcome r)), (''blockers'', PList (map PStr (cr_blockers r)))] @ cr_fields r)"

definition update_wakes :: "(dirty_event_row \<Rightarrow> bool) \<Rightarrow> (dirty_event_row \<Rightarrow> dirty_event_row) \<Rightarrow> db \<Rightarrow> db" where
  "update_wakes p f d = d\<lparr>portfolio_dirty_events := update_where p f (portfolio_dirty_events d)\<rparr>"

definition fenced :: "dirty_event_row \<Rightarrow> dirty_event_row \<Rightarrow> bool" where
  "fenced row e \<longleftrightarrow> de_id e = de_id row \<and> de_event_sha256 e = de_event_sha256 row \<and> armed e"

text \<open>\<open>cursor.rowcount != 1\<close>\<close>

definition fence_lost :: "db \<Rightarrow> dirty_event_row \<Rightarrow> bool" where
  "fence_lost d row \<longleftrightarrow> length (filter (fenced row) (portfolio_dirty_events d)) \<noteq> 1"

definition complete_event :: "db \<Rightarrow> dirty_event_row \<Rightarrow> convergence_result \<Rightarrow> string \<Rightarrow> db res" where
  "complete_event d row result now =
     guarded [(fence_lost d row, PortfolioConvergenceError ''PORTFOLIO_EVENT_FENCE_LOST'')]
     (Inr (append_event ''PORTFOLIO_CONVERGED'' (de_event_key row)
        (PDict [(''result_sha256'', PStr (digest_json (result_value result))), (''outcome'', PStr (cr_outcome result))]) now
        (update_wakes (fenced row) (\<lambda>e. e\<lparr>de_state := ''COMPLETE'', de_attempts := de_attempts e + 1,
            de_result_sha256 := Some (digest_json (result_value result)), de_result_json := Some (result_value result),
            de_updated_at := now, de_last_error := None\<rparr>) d)))"

definition state_after :: "bool \<Rightarrow> int \<Rightarrow> string" where
  "state_after terminal attempts = (if terminal \<or> attempts \<ge> MAX_ATTEMPTS then ''HOLD'' else ''RETRY'')"

definition defer_event :: "db \<Rightarrow> dirty_event_row \<Rightarrow> convergence_result \<Rightarrow> string \<Rightarrow> (db \<times> string) res" where
  "defer_event d row result now =
     (let attempts = de_attempts row + 1; state = state_after False attempts; sha = digest_json (result_value result) in
      bind_res (convergence_timestamp_after now (retry_seconds attempts)) (\<lambda>next_attempt.
      guarded [(fence_lost d row, PortfolioConvergenceError ''PORTFOLIO_EVENT_FENCE_LOST'')]
      (Inr (append_event (if state = ''RETRY'' then ''PORTFOLIO_CONVERGENCE_DEFICIT'' else ''PORTFOLIO_CONVERGENCE_HOLD'')
          (de_event_key row)
          (PDict [(''attempts'', PInt attempts), (''result_sha256'', PStr sha),
            (''blockers'', PList (map PStr (cr_blockers result)))]) now
          (update_wakes (fenced row) (\<lambda>e. e\<lparr>de_state := state, de_attempts := attempts, de_next_attempt_at := next_attempt,
             de_result_sha256 := Some sha, de_result_json := Some (result_value result), de_updated_at := now,
             de_last_error := Some (join '','' (cr_blockers result))\<rparr>) d), state))))"

text \<open>The second component is \<open>None\<close> for \<open>ALREADY_COMPLETE\<close>, else state, attempts and next attempt.\<close>

definition record_retry ::
  "db \<Rightarrow> dirty_event_row \<Rightarrow> string \<Rightarrow> string \<Rightarrow> bool \<Rightarrow> (db \<times> (string \<times> int \<times> string) option) res" where
  "record_retry d expected error now terminal =
     transaction d
     (case wake_of d (de_id expected) of
        None \<Rightarrow> Inr (d, None)
      | Some row \<Rightarrow>
          if de_state row = ''COMPLETE'' then Inr (d, None)
          else guarded [(de_event_sha256 row \<noteq> de_event_sha256 expected,
                         PortfolioConvergenceError ''PORTFOLIO_EVENT_FENCE_LOST'')]
          (let attempts = de_attempts row + 1; state = state_after terminal attempts in
           bind_res (convergence_timestamp_after now (retry_seconds attempts)) (\<lambda>next_attempt.
           Inr (append_event (if state = ''RETRY'' then ''PORTFOLIO_CONVERGENCE_RETRY'' else ''PORTFOLIO_CONVERGENCE_HOLD'')
                  (de_event_key row) (PDict [(''attempts'', PInt attempts), (''error'', PStr error)]) now
                  (update_wakes (\<lambda>e. de_id e = de_id row \<and> de_event_sha256 e = de_event_sha256 row \<and>
                       (armed e \<or> de_state e = ''HOLD''))
                     (\<lambda>e. e\<lparr>de_state := state, de_attempts := attempts, de_next_attempt_at := next_attempt,
                            de_updated_at := now, de_last_error := Some error\<rparr>) d),
                Some (state, attempts, next_attempt)))))"

definition trigger_result_fields :: "dirty_event_row \<Rightarrow> pydict \<Rightarrow> pydict res" where
  "trigger_result_fields row payload =
     (let trigger_kind = (if has_key payload ''trigger_kind'' then py_get payload ''trigger_kind'' else PStr ''CAPACITY_RELEASE'');
          is_release = (trigger_kind = PStr ''CAPACITY_RELEASE'') in
      guarded [(unhashable trigger_kind, TypeError)]
      (Inr [(''trigger_kind'', trigger_kind),
       (''trigger_issue_number'',
        if trigger_kind \<in> {PStr ''MAIN_CURSOR_ADVANCED'', PStr ''CAPACITY_POLICY_CHANGED''} then PNone
        else PInt (de_issue_number row)),
       (''released_issue_number'', if is_release then PInt (de_issue_number row) else PNone),
       (''released_item_version'', if is_release then PInt (de_release_item_version row) else PNone)]))"

subsection \<open>The next wake\<close>

lemma next_event_least:
  "next_event d now repository = None \<longleftrightarrow> (\<forall>e \<in> set (portfolio_dirty_events d). \<not> due now repository e)"
  "next_event d now repository = Some e \<Longrightarrow> e \<in> set (portfolio_dirty_events d) \<and> due now repository e \<and>
     (\<forall>x \<in> set (portfolio_dirty_events d). due now repository x \<longrightarrow> de_id e \<le> de_id x)"
proof -
  let ?rows = "filter (due now repository) (portfolio_dirty_events d)"
  have rows: "set (sort_key de_id ?rows) = set ?rows" by simp
  show "next_event d now repository = None \<longleftrightarrow> (\<forall>e \<in> set (portfolio_dirty_events d). \<not> due now repository e)"
    using rows by (cases "sort_key de_id ?rows") (auto simp: next_event_def)
  assume "next_event d now repository = Some e"
  then obtain es where es: "sort_key de_id ?rows = e # es" by (auto simp: next_event_def split: list.splits)
  have "sorted (map de_id (e # es))" unfolding es [symmetric] by (rule sorted_sort_key)
  then have "\<forall>x \<in> set (e # es). de_id e \<le> de_id x" by simp
  then show "e \<in> set (portfolio_dirty_events d) \<and> due now repository e \<and>
     (\<forall>x \<in> set (portfolio_dirty_events d). due now repository x \<longrightarrow> de_id e \<le> de_id x)"
    using rows es by auto
qed

text \<open>
  A hold is not final: a consumer that read the wake before it was held, and then fails, arms it again
  while attempts are left, also where the hold was terminal.
\<close>

lemma held_wake_rearmed:
  assumes "wake_of d (de_id expected) = Some row" and "de_state row = ''HOLD''" and "\<not> in_transaction d"
    and "de_event_sha256 row = de_event_sha256 expected" and "de_attempts row + 1 < MAX_ATTEMPTS"
    and "timestamp_after now (retry_seconds (de_attempts row + 1)) = Inr at"
  shows "\<exists>d'. record_retry d expected error now False = Inr (d', Some (''RETRY'', de_attempts row + 1, at))"
  using assms by (simp add: record_retry_def transaction_def guard_eval Let_def state_after_def
      convergence_timestamp_after_def)

subsection \<open>The delay between attempts\<close>

lemma retry_seconds_bounds: "RETRY_BASE_SECONDS \<le> retry_seconds n" "retry_seconds n \<le> MAX_RETRY_SECONDS"
proof -
  have "(1 :: int) \<le> 2 ^ k" for k :: nat by simp
  then show "RETRY_BASE_SECONDS \<le> retry_seconds n"
    by (simp add: retry_seconds_def RETRY_BASE_SECONDS_def MAX_RETRY_SECONDS_def)
  show "retry_seconds n \<le> MAX_RETRY_SECONDS" by (simp add: retry_seconds_def)
qed

lemma retry_seconds_mono: "m \<le> n \<Longrightarrow> retry_seconds m \<le> retry_seconds n"
proof -
  assume "m \<le> n"
  then have "nat (max 0 (m - 1)) \<le> nat (max 0 (n - 1))" by simp
  then have "(2 :: int) ^ nat (max 0 (m - 1)) \<le> 2 ^ nat (max 0 (n - 1))" by (rule power_increasing) simp
  then show ?thesis unfolding retry_seconds_def RETRY_BASE_SECONDS_def
    by (intro min.mono mult_left_mono) simp_all
qed

subsection \<open>The life of a wake\<close>

datatype wake_op =
    EnqueueWake dirty_request
  | CompleteWake int convergence_result
  | DeferWake int convergence_result
  | RetryWake dirty_event_row string bool
  | ExpediteWakes string

text \<open>The consumer completes or defers the row it reads in the same transaction.\<close>

fun wake_step :: "wake_op \<times> string \<Rightarrow> db \<Rightarrow> db res" where
  "wake_step (EnqueueWake r, now) d = bind_res (enqueue_convergence_dirty_event d r now False) (\<lambda>x. Inr (fst x))"
| "wake_step (CompleteWake i result, now) d =
     require_some (PortfolioConvergenceError ''PORTFOLIO_EVENT_FENCE_LOST'') (wake_of d i) (\<lambda>row. complete_event d row result now)"
| "wake_step (DeferWake i result, now) d =
     require_some (PortfolioConvergenceError ''PORTFOLIO_EVENT_FENCE_LOST'') (wake_of d i) (\<lambda>row.
       bind_res (defer_event d row result now) (\<lambda>x. Inr (fst x)))"
| "wake_step (RetryWake expected error terminal, now) d =
     bind_res (record_retry d expected error now terminal) (\<lambda>x. Inr (fst x))"
| "wake_step (ExpediteWakes repository, now) d = Inr (expedite_retries repository now d)"

definition wakes_inv :: "db \<Rightarrow> bool" where
  "wakes_inv d \<longleftrightarrow> dirty_queue_wf d \<and> (\<forall>e \<in> set (portfolio_dirty_events d).
     0 \<le> de_attempts e \<and> (armed e \<longrightarrow> de_attempts e < MAX_ATTEMPTS))"

text \<open>How often a wake can still be attempted: a held wake with attempts left can be armed again by a late failure.\<close>

definition chances :: "dirty_event_row \<Rightarrow> int" where
  "chances e = (if armed e then MAX_ATTEMPTS - de_attempts e
     else if de_state e = ''HOLD'' then max 0 (MAX_ATTEMPTS - de_attempts e) else 0)"

definition chances_of :: "db \<Rightarrow> int \<Rightarrow> int" where
  "chances_of d i = (case wake_of d i of None \<Rightarrow> MAX_ATTEMPTS | Some e \<Rightarrow> chances e)"

text \<open>One row of the queue before and after a step, which takes up the wake or not.\<close>

definition row_moves :: "bool \<Rightarrow> dirty_event_row \<Rightarrow> dirty_event_row \<Rightarrow> bool" where
  "row_moves taken e e' \<longleftrightarrow>
     de_id e' = de_id e \<and> de_event_key e' = de_event_key e \<and> de_event_sha256 e' = de_event_sha256 e \<and>
     de_payload_json e' = de_payload_json e \<and> de_attempts e + (if taken then 1 else 0) \<le> de_attempts e' \<and>
     (armed e' \<longrightarrow> de_attempts e' < MAX_ATTEMPTS) \<and> (de_state e = ''COMPLETE'' \<longrightarrow> e' = e) \<and>
     chances e' + (if taken then 1 else 0) \<le> chances e"

lemma row_moves_refl: "armed e \<longrightarrow> de_attempts e < MAX_ATTEMPTS \<Longrightarrow> row_moves False e e"
  by (simp add: row_moves_def)

lemma update_wakes_step:
  assumes d': "portfolio_dirty_events d' = update_where p f (portfolio_dirty_events d)" and m: "sqlite_master d' = sqlite_master d"
    and inv: "wakes_inv d"
    and f: "\<And>e. e \<in> set (portfolio_dirty_events d) \<Longrightarrow> p e \<Longrightarrow> row_moves (taken (de_id e)) e (f e)"
    and k: "\<And>e. de_id (f e) = de_id e" "\<And>e. de_event_key (f e) = de_event_key e"
    and t: "\<And>e. e \<in> set (portfolio_dirty_events d) \<Longrightarrow> \<not> p e \<Longrightarrow> \<not> taken (de_id e)"
  shows "wakes_inv d'" and "wake_of d i = Some e \<Longrightarrow> \<exists>e'. wake_of d' i = Some e' \<and> row_moves (taken i) e e'"
    and "wake_of d i = None \<Longrightarrow> wake_of d' i = None"
proof -
  have old: "0 \<le> de_attempts e" "armed e \<longrightarrow> de_attempts e < MAX_ATTEMPTS" if "e \<in> set (portfolio_dirty_events d)" for e
    using inv that by (auto simp: wakes_inv_def)
  have row: "row_moves (taken (de_id e)) e (if p e then f e else e)" if "e \<in> set (portfolio_dirty_events d)" for e
    using f [OF that] t [OF that] row_moves_refl [OF old(2) [OF that]] by simp
  have "0 \<le> de_attempts e' \<and> (armed e' \<longrightarrow> de_attempts e' < MAX_ATTEMPTS)" if "e' \<in> set (portfolio_dirty_events d')" for e'
  proof -
    from that obtain e where e: "e \<in> set (portfolio_dirty_events d)" "e' = (if p e then f e else e)"
      by (auto simp: d' set_update_where)
    with row [OF e(1)] old(1) [OF e(1)] show ?thesis by (auto simp: row_moves_def split: if_splits)
  qed
  moreover have "dirty_queue_wf d'"
    using inv by (simp add: wakes_inv_def dirty_queue_wf_def table_installed_def d' m map_update_where k)
  ultimately show "wakes_inv d'" by (simp add: wakes_inv_def)
  have look: "wake_of d' i = map_option (\<lambda>e. if p e then f e else e) (wake_of d i)"
    unfolding wake_of_def d' by (rule find_update_where) (simp add: k)
  show "wake_of d i = None \<Longrightarrow> wake_of d' i = None" by (simp add: look)
  assume e: "wake_of d i = Some e"
  then have "e \<in> set (portfolio_dirty_events d)" "de_id e = i" by (auto simp: wake_of_def dest: find_SomeD)
  with row [of e] look e show "\<exists>e'. wake_of d' i = Some e' \<and> row_moves (taken i) e e'" by simp
qed

text \<open>
  An attempt at a wake: it is completed, deferred, or a failure is recorded, also a late one that finds the
  wake held by another consumer with attempts left. A failure at a wake held after its last attempt is none.
\<close>

definition takes :: "wake_op \<Rightarrow> db \<Rightarrow> int \<Rightarrow> bool" where
  "takes act d i \<longleftrightarrow> (case act of
       CompleteWake j _ \<Rightarrow> j = i
     | DeferWake j _ \<Rightarrow> j = i
     | RetryWake expected _ _ \<Rightarrow> de_id expected = i \<and> (case wake_of d i of None \<Rightarrow> False
       | Some row \<Rightarrow> armed row \<or> de_state row = ''HOLD'' \<and> de_attempts row < MAX_ATTEMPTS)
     | _ \<Rightarrow> False)"

definition wake_advances :: "(int \<Rightarrow> bool) \<Rightarrow> db \<Rightarrow> db \<Rightarrow> bool" where
  "wake_advances taken d d' \<longleftrightarrow> wakes_inv d' \<and>
     (\<forall>i e. wake_of d i = Some e \<longrightarrow> (\<exists>e'. wake_of d' i = Some e' \<and> row_moves (taken i) e e')) \<and>
     (\<forall>i. wake_of d i = None \<longrightarrow> \<not> taken i \<and> (\<forall>e'. wake_of d' i = Some e' \<longrightarrow> chances e' \<le> MAX_ATTEMPTS))"

lemma update_wakes_advances:
  assumes "portfolio_dirty_events d' = update_where p f (portfolio_dirty_events d)" "sqlite_master d' = sqlite_master d" "wakes_inv d"
    and "\<And>e. e \<in> set (portfolio_dirty_events d) \<Longrightarrow> p e \<Longrightarrow> row_moves (taken (de_id e)) e (f e)"
    and "\<And>e. de_id (f e) = de_id e" "\<And>e. de_event_key (f e) = de_event_key e"
    and "\<And>e. e \<in> set (portfolio_dirty_events d) \<Longrightarrow> \<not> p e \<Longrightarrow> \<not> taken (de_id e)"
    and "\<And>i. wake_of d i = None \<Longrightarrow> \<not> taken i"
  shows "wake_advances taken d d'"
  unfolding wake_advances_def
  using update_wakes_step(1) [OF assms(1-7)] update_wakes_step(2) [OF assms(1-7)] update_wakes_step(3) [OF assms(1-7)] assms(8)
  by auto

lemma wake_of_SomeD: "wake_of d i = Some e \<Longrightarrow> e \<in> set (portfolio_dirty_events d) \<and> de_id e = i"
  unfolding wake_of_def by (blast dest: find_SomeD)

lemma wake_unique:
  assumes "wakes_inv d" and "wake_of d i = Some row" and "e \<in> set (portfolio_dirty_events d)" and "de_id e = i"
  shows "e = row"
  by (rule distinct_map_eqD [of de_id "portfolio_dirty_events d"])
    (use assms wake_of_SomeD [OF assms(2)] in \<open>simp_all add: wakes_inv_def dirty_queue_wf_def\<close>)

lemma fenced_row:
  assumes "wakes_inv d" and "wake_of d i = Some row" and "\<not> fence_lost d row"
  shows "armed row" and "e \<in> set (portfolio_dirty_events d) \<Longrightarrow> fenced row e \<longleftrightarrow> de_id e = i"
proof -
  from assms(3) have "filter (fenced row) (portfolio_dirty_events d) \<noteq> []" by (auto simp: fence_lost_def)
  then obtain x where x: "x \<in> set (portfolio_dirty_events d)" "fenced row x" by (auto simp: filter_empty_conv)
  moreover have id: "de_id row = i" using wake_of_SomeD [OF assms(2)] by simp
  ultimately have "x = row" using wake_unique [OF assms(1,2)] by (simp add: fenced_def)
  with x show ar: "armed row" by (simp add: fenced_def)
  show "e \<in> set (portfolio_dirty_events d) \<Longrightarrow> fenced row e \<longleftrightarrow> de_id e = i"
    using wake_unique [OF assms(1,2)] ar id by (auto simp: fenced_def)
qed

lemma armed_states:
  "armed e \<Longrightarrow> de_state e \<noteq> ''COMPLETE'' \<and> de_state e \<noteq> ''HOLD''"
  "de_state e = ''COMPLETE'' \<Longrightarrow> \<not> armed e" "de_state e = ''HOLD'' \<Longrightarrow> \<not> armed e" "de_state e = ''RETRY'' \<Longrightarrow> armed e"
  by (auto simp: armed_def)

lemma attempt_inv:
  "wakes_inv d \<Longrightarrow> wake_of d i = Some row \<Longrightarrow> armed row \<Longrightarrow> 0 \<le> de_attempts row \<and> de_attempts row < MAX_ATTEMPTS"
  using wake_of_SomeD [of d i row] by (auto simp: wakes_inv_def)

text \<open>The row after an attempt that did not complete.\<close>

lemma attempted_row_moves:
  assumes "armed e \<or> de_state e = ''HOLD'' \<and> (taken \<longrightarrow> de_attempts e < MAX_ATTEMPTS)" and "armed e \<longrightarrow> de_attempts e < MAX_ATTEMPTS"
    and e': "de_id e' = de_id e" "de_event_key e' = de_event_key e" "de_event_sha256 e' = de_event_sha256 e"
      "de_payload_json e' = de_payload_json e" "de_attempts e' = de_attempts e + 1"
      "de_state e' = state_after terminal (de_attempts e + 1)"
  shows "row_moves taken e e'"
proof (cases "terminal \<or> de_attempts e + 1 \<ge> MAX_ATTEMPTS")
  case True
  then have s: "de_state e' = ''HOLD''" by (simp add: e'(6) state_after_def)
  show ?thesis unfolding row_moves_def
    using assms(1,2) e'(1-5) armed_states(1) [of e] armed_states(3) [OF s]
    by (auto simp: chances_def s)
next
  case False
  then have s: "de_state e' = ''RETRY''" by (simp add: e'(6) state_after_def)
  show ?thesis unfolding row_moves_def
    using False assms(1,2) e'(1-5) armed_states(1) [of e] armed_states(3) [of e] armed_states(4) [OF s]
    by (auto simp: chances_def s)
qed

lemma complete_advances:
  assumes "complete_event d row result now = Inr d'" and inv: "wakes_inv d" and row: "wake_of d i = Some row"
  shows "wake_advances (\<lambda>j. j = i) d d'"
proof -
  from assms(1) have ok: "\<not> fence_lost d row" by (simp add: complete_event_def guard_simps)
  let ?f = "\<lambda>e. e\<lparr>de_state := ''COMPLETE'', de_attempts := de_attempts e + 1,
            de_result_sha256 := Some (digest_json (result_value result)), de_result_json := Some (result_value result),
            de_updated_at := now, de_last_error := None\<rparr>"
  from assms(1) have rows: "portfolio_dirty_events d' = update_where (fenced row) ?f (portfolio_dirty_events d)"
    and m: "sqlite_master d' = sqlite_master d"
    by (auto simp: complete_event_def guard_simps update_wakes_def)
  note hit = fenced_row [OF inv row ok]
  show ?thesis
  proof (rule update_wakes_advances [OF rows m inv])
    fix e
    assume e: "e \<in> set (portfolio_dirty_events d)" "fenced row e"
    then have er: "e = row" "de_id e = i" using hit(2) wake_unique [OF inv row] by blast+
    have done': "\<not> armed (?f row)" by (simp add: armed_def)
    show "row_moves (de_id e = i) e (?f e)"
      using attempt_inv [OF inv row hit(1)] hit(1) armed_states(1) [OF hit(1)] done' er
      by (simp add: row_moves_def chances_def)
  qed (use hit(2) row in auto)
qed

lemma defer_advances:
  assumes "defer_event d row result now = Inr (d', state)" and inv: "wakes_inv d" and row: "wake_of d i = Some row"
  shows "wake_advances (\<lambda>j. j = i) d d'"
proof -
  from assms(1) obtain at where ok: "\<not> fence_lost d row" and
    rows: "portfolio_dirty_events d' = update_where (fenced row) (\<lambda>e. e\<lparr>de_state := state_after False (de_attempts row + 1),
       de_attempts := de_attempts row + 1, de_next_attempt_at := at,
       de_result_sha256 := Some (digest_json (result_value result)), de_result_json := Some (result_value result),
       de_updated_at := now, de_last_error := Some (join '','' (cr_blockers result))\<rparr>) (portfolio_dirty_events d)"
    and m: "sqlite_master d' = sqlite_master d"
    by (auto simp: defer_event_def Let_def guard_simps update_wakes_def)
  note hit = fenced_row [OF inv row ok]
  show ?thesis
  proof (rule update_wakes_advances [OF rows m inv])
    fix e
    assume e: "e \<in> set (portfolio_dirty_events d)" "fenced row e"
    then have er: "e = row" "de_id e = i" using hit(2) wake_unique [OF inv row] by blast+
    show "row_moves (de_id e = i) e (e\<lparr>de_state := state_after False (de_attempts row + 1),
       de_attempts := de_attempts row + 1, de_next_attempt_at := at,
       de_result_sha256 := Some (digest_json (result_value result)), de_result_json := Some (result_value result),
       de_updated_at := now, de_last_error := Some (join '','' (cr_blockers result))\<rparr>)"
      by (rule attempted_row_moves [where terminal = False])
        (use er hit(1) attempt_inv [OF inv row hit(1)] in simp_all)
  qed (use hit(2) row in auto)
qed

lemma unchanged_advances:
  assumes "wakes_inv d"
  shows "wake_advances (\<lambda>_. False) d d"
proof -
  have "row_moves False e e" if "wake_of d i = Some e" for i e
    by (rule row_moves_refl) (use assms wake_of_SomeD [OF that] in \<open>simp add: wakes_inv_def\<close>)
  then show ?thesis using assms by (simp add: wake_advances_def)
qed

lemma retry_advances:
  assumes "record_retry d expected error now terminal = Inr (d', out)" and inv: "wakes_inv d"
  shows "wake_advances (takes (RetryWake expected error terminal) d) d d'"
proof (cases "case wake_of d (de_id expected) of None \<Rightarrow> True | Some row \<Rightarrow> de_state row = ''COMPLETE''")
  case True
  with assms(1) have "d' = d" by (auto simp: record_retry_def guard_simps split: option.splits if_splits)
  moreover have "takes (RetryWake expected error terminal) d = (\<lambda>_. False)"
    using True armed_states(2,3) by (auto simp: fun_eq_iff takes_def split: option.splits)
  ultimately show ?thesis using unchanged_advances [OF inv] by simp
next
  case False
  with assms(1) obtain row at where row: "wake_of d (de_id expected) = Some row" and
    rows: "portfolio_dirty_events d' = update_where (\<lambda>e. de_id e = de_id row \<and> de_event_sha256 e = de_event_sha256 row \<and>
        (armed e \<or> de_state e = ''HOLD'')) (\<lambda>e. e\<lparr>de_state := state_after terminal (de_attempts row + 1),
        de_attempts := de_attempts row + 1, de_next_attempt_at := at, de_updated_at := now, de_last_error := Some error\<rparr>)
        (portfolio_dirty_events d)"
    and m: "sqlite_master d' = sqlite_master d"
    by (auto simp: record_retry_def Let_def guard_simps update_wakes_def split: option.splits if_splits)
  have id: "de_id row = de_id expected" using wake_of_SomeD [OF row] by simp
  have taken: "takes (RetryWake expected error terminal) d i \<longleftrightarrow> 
      i = de_id row \<and> (armed row \<or> de_state row = ''HOLD'' \<and> de_attempts row < MAX_ATTEMPTS)" for i
    using row id by (auto simp: takes_def split: option.splits)
  show ?thesis
  proof (rule update_wakes_advances [OF rows m inv])
    fix e
    assume e: "e \<in> set (portfolio_dirty_events d)" "de_id e = de_id row \<and> de_event_sha256 e = de_event_sha256 row \<and>
        (armed e \<or> de_state e = ''HOLD'')"
    then have er: "e = row" using wake_unique [OF inv row e(1)] id by simp
    have lim: "armed e \<longrightarrow> de_attempts e < MAX_ATTEMPTS" using inv e(1) by (simp add: wakes_inv_def)
    show "row_moves (takes (RetryWake expected error terminal) d (de_id e)) e
        (e\<lparr>de_state := state_after terminal (de_attempts row + 1),
        de_attempts := de_attempts row + 1, de_next_attempt_at := at, de_updated_at := now, de_last_error := Some error\<rparr>)"
      by (rule attempted_row_moves [where terminal = terminal]) (use e(2) er lim in \<open>auto simp: taken\<close>)
  next
    fix e
    assume e: "e \<in> set (portfolio_dirty_events d)" "\<not> (de_id e = de_id row \<and> de_event_sha256 e = de_event_sha256 row \<and>
        (armed e \<or> de_state e = ''HOLD''))"
    show "\<not> takes (RetryWake expected error terminal) d (de_id e)"
      using e wake_unique [OF inv row e(1)] id by (auto simp: taken)
  next
    fix i
    assume "wake_of d i = None"
    then show "\<not> takes (RetryWake expected error terminal) d i" using row id by (auto simp: taken)
  qed simp_all
qed

lemma expedite_advances:
  assumes inv: "wakes_inv d"
  shows "wake_advances (\<lambda>_. False) d (expedite_retries repository now d)"
proof (rule update_wakes_advances)
  let ?f = "\<lambda>e. e\<lparr>de_next_attempt_at := now, de_updated_at := now\<rparr>"
  show "portfolio_dirty_events (expedite_retries repository now d) = update_where (\<lambda>e. de_repository e = repository \<and>
      de_state e = ''RETRY'' \<and> now < de_next_attempt_at e) ?f (portfolio_dirty_events d)"
    by (simp add: expedite_retries_def)
  fix e
  assume e: "e \<in> set (portfolio_dirty_events d)" "de_repository e = repository \<and> de_state e = ''RETRY'' \<and> now < de_next_attempt_at e"
  then have lim: "de_attempts e < MAX_ATTEMPTS" using inv armed_states(4) [of e] by (simp add: wakes_inv_def)
  have "chances (?f e) = chances e" by (simp add: chances_def armed_def)
  then show "row_moves False e (?f e)" using e(2) lim by (simp add: row_moves_def)
qed (simp_all add: inv expedite_retries_def)

lemma enqueue_advances:
  assumes "enqueue_convergence_dirty_event d r now False = Inr (d', out)" and inv: "wakes_inv d"
  shows "wake_advances (\<lambda>_. False) d d'"
proof -
  have wf: "dirty_queue_wf d" using inv by (simp add: wakes_inv_def)
  have enq: "enqueue_dirty d (r, now) = Inr (d', the out)" using assms(1) by (simp add: enqueue_dirty_def)
  have wf': "dirty_queue_wf d'" by (rule dirty.enqueue_inv [OF wf enq])
  from wf enq show ?thesis
  proof (cases rule: enqueue_dirty_cases)
    case inserted
    let ?new = "new_dirty_event d r now"
    have rows: "portfolio_dirty_events d' = portfolio_dirty_events d @ [?new]" using inserted(2) by simp
    have new: "de_attempts ?new = 0" "armed ?new" by (simp_all add: new_dirty_event_def armed_def)
    have "wakes_inv d'" using inv wf' new by (auto simp: wakes_inv_def rows MAX_ATTEMPTS_def)
    moreover have "wake_of d' i = Some e \<and> row_moves False e e" if "wake_of d i = Some e" for i e
      using that unchanged_advances [OF inv] by (auto simp: wake_advances_def wake_of_def rows find_append)
    moreover have "chances e' \<le> MAX_ATTEMPTS" if "wake_of d i = None" "wake_of d' i = Some e'" for i e'
      using that new by (auto simp: wake_of_def rows find_append chances_def split: if_splits)
    ultimately show ?thesis unfolding wake_advances_def by blast
  next
    case (known row)
    then show ?thesis using unchanged_advances [OF inv] by simp
  qed
qed

lemma takes_simps:
  "takes (EnqueueWake r) d = (\<lambda>_. False)" "takes (CompleteWake i x) d = (\<lambda>j. j = i)"
  "takes (DeferWake i x) d = (\<lambda>j. j = i)" "takes (ExpediteWakes repo) d = (\<lambda>_. False)"
  by (auto simp: fun_eq_iff takes_def)

lemma wake_step_advances:
  assumes "wake_step (act, now) d = Inr d'" and inv: "wakes_inv d"
  shows "wake_advances (takes act d) d d'"
proof (cases act)
  case (EnqueueWake r)
  with assms(1) obtain out where "enqueue_convergence_dirty_event d r now False = Inr (d', out)" by (auto simp: guard_simps)
  from enqueue_advances [OF this inv] show ?thesis by (simp add: EnqueueWake takes_simps)
next
  case (CompleteWake i result)
  with assms(1) obtain row where "wake_of d i = Some row" "complete_event d row result now = Inr d'" by (auto simp: guard_simps)
  from complete_advances [OF this(2) inv this(1)] show ?thesis by (simp add: CompleteWake takes_simps)
next
  case (DeferWake i result)
  with assms(1) obtain row s where "wake_of d i = Some row" "defer_event d row result now = Inr (d', s)" by (auto simp: guard_simps)
  from defer_advances [OF this(2) inv this(1)] show ?thesis by (simp add: DeferWake takes_simps)
next
  case (RetryWake expected error terminal)
  with assms(1) obtain out where "record_retry d expected error now terminal = Inr (d', out)" by (auto simp: guard_simps)
  from retry_advances [OF this inv] show ?thesis by (simp add: RetryWake)
next
  case (ExpediteWakes repository)
  with assms(1) have "d' = expedite_retries repository now d" by simp
  then show ?thesis using expedite_advances [OF inv] by (simp add: ExpediteWakes takes_simps)
qed

text \<open>The attempts a run makes at a wake, each judged in the state it starts from.\<close>

fun attempts_at :: "int \<Rightarrow> (wake_op \<times> string) list \<Rightarrow> db \<Rightarrow> int" where
  "attempts_at i [] d = 0"
| "attempts_at i (x # ops) d = (if takes (fst x) d i then 1 else 0) +
     (case wake_step x d of Inl _ \<Rightarrow> 0 | Inr d1 \<Rightarrow> attempts_at i ops d1)"

lemma chances_of_step:
  assumes "wake_advances taken d d'"
  shows "(if taken i then 1 else 0) + chances_of d' i \<le> chances_of d i"
proof (cases "wake_of d i")
  case (Some e)
  with assms obtain e' where "wake_of d' i = Some e'" "row_moves (taken i) e e'" unfolding wake_advances_def by blast
  then show ?thesis using Some by (simp add: chances_of_def row_moves_def)
next
  case None
  with assms have "\<not> taken i" "\<forall>e'. wake_of d' i = Some e' \<longrightarrow> chances e' \<le> MAX_ATTEMPTS"
    unfolding wake_advances_def by blast+
  then show ?thesis using None by (cases "wake_of d' i") (simp_all add: chances_of_def)
qed

lemma chances_of_range: "wakes_inv d \<Longrightarrow> 0 \<le> chances_of d i \<and> chances_of d i \<le> MAX_ATTEMPTS"
  using wake_of_SomeD [of d i]
  by (cases "wake_of d i") (auto simp: chances_of_def chances_def wakes_inv_def MAX_ATTEMPTS_def split: if_splits)

lemma wake_run:
  assumes "fold_res wake_step ops d = Inr d'" and "wakes_inv d"
  shows "attempts_at i ops d + chances_of d' i \<le> chances_of d i \<and> wakes_inv d' \<and>
      (\<forall>e. wake_of d i = Some e \<longrightarrow> (\<exists>e'. wake_of d' i = Some e' \<and> de_event_key e' = de_event_key e \<and>
       de_payload_json e' = de_payload_json e \<and> de_attempts e + attempts_at i ops d \<le> de_attempts e' \<and>
       (de_state e = ''COMPLETE'' \<longrightarrow> e' = e)))"
  using assms
proof (induction ops arbitrary: d)
  case Nil
  then show ?case by simp
next
  case (Cons x ops)
  obtain act now where x: "x = (act, now)" by force
  with Cons.prems(1) obtain d1 where d1: "wake_step (act, now) d = Inr d1" "fold_res wake_step ops d1 = Inr d'"
    by (auto simp: guard_simps)
  note a = wake_step_advances [OF d1(1) Cons.prems(2)]
  then have inv1: "wakes_inv d1" and rows: "\<And>e. wake_of d i = Some e \<Longrightarrow>
      \<exists>e'. wake_of d1 i = Some e' \<and> row_moves (takes act d i) e e'" unfolding wake_advances_def by blast+
  note ih = Cons.IH [OF d1(2) inv1]
  have n: "attempts_at i (x # ops) d = (if takes act d i then 1 else 0) + attempts_at i ops d1" by (simp add: x d1(1))
  have "\<exists>e'. wake_of d' i = Some e' \<and> de_event_key e' = de_event_key e \<and> de_payload_json e' = de_payload_json e \<and>
      de_attempts e + attempts_at i (x # ops) d \<le> de_attempts e' \<and> (de_state e = ''COMPLETE'' \<longrightarrow> e' = e)"
    if "wake_of d i = Some e" for e
  proof -
    from rows [OF that] obtain e1 where e1: "wake_of d1 i = Some e1" "row_moves (takes act d i) e e1" by blast
    with ih obtain e' where "wake_of d' i = Some e'" "de_event_key e' = de_event_key e1" "de_payload_json e' = de_payload_json e1"
      "de_attempts e1 + attempts_at i ops d1 \<le> de_attempts e'" "de_state e1 = ''COMPLETE'' \<longrightarrow> e' = e1" by blast
    with e1(2) n show ?thesis by (auto simp: row_moves_def)
  qed
  then show ?case using ih chances_of_step [OF a, of i] n by auto
qed

text \<open>
  C8: a wake is never lost and never retried without end. Over any run of the queue's operations a wake
  keeps its key and its payload, one that is complete is not changed again, and at most five attempts,
  the ones before the run included, are made at it: completions, deferrals and recorded failures, those
  included that report late and arm a wake again that another consumer has held. Only failures that find
  the wake held with all its attempts used up are not counted; they leave it held, and what a consumer is
  handed next always has attempts left.
\<close>

theorem wake_attempts_bounded:
  assumes "wakes_inv d" and "fold_res wake_step ops d = Inr d'"
  shows "attempts_at i ops d \<le> MAX_ATTEMPTS \<and>
    (\<forall>e. wake_of d i = Some e \<longrightarrow> attempts_at i ops d \<le> max 0 (MAX_ATTEMPTS - de_attempts e)) \<and>
    (\<forall>now repository e. next_event d' now repository = Some e \<longrightarrow> de_attempts e < MAX_ATTEMPTS) \<and>
    (\<forall>e. wake_of d i = Some e \<longrightarrow> (\<exists>e'. wake_of d' i = Some e' \<and> de_event_key e' = de_event_key e \<and>
       de_payload_json e' = de_payload_json e \<and> de_attempts e + attempts_at i ops d \<le> de_attempts e' \<and>
       (armed e' \<longrightarrow> de_attempts e' < MAX_ATTEMPTS) \<and> (de_state e = ''COMPLETE'' \<longrightarrow> e' = e)))"
proof -
  have "attempts_at i ops d + chances_of d' i \<le> chances_of d i \<and> wakes_inv d' \<and>
      (\<forall>e. wake_of d i = Some e \<longrightarrow> (\<exists>e'. wake_of d' i = Some e' \<and> de_event_key e' = de_event_key e \<and>
       de_payload_json e' = de_payload_json e \<and> de_attempts e + attempts_at i ops d \<le> de_attempts e' \<and>
       (de_state e = ''COMPLETE'' \<longrightarrow> e' = e)))"
    by (rule wake_run [OF assms(2,1)])
  moreover from this have "de_attempts e < MAX_ATTEMPTS" if "next_event d' now repository = Some e" for now repository e
    using next_event_least(2) [OF that] by (simp add: wakes_inv_def due_def)
  moreover have "chances_of d i \<le> max 0 (MAX_ATTEMPTS - de_attempts e)" if "wake_of d i = Some e" for e
    using that by (auto simp: chances_of_def chances_def)
  moreover have "armed e' \<longrightarrow> de_attempts e' < MAX_ATTEMPTS" if "wakes_inv d'" "wake_of d' i = Some e'" for e'
    using that wake_of_SomeD [OF that(2)] by (simp add: wakes_inv_def)
  ultimately show ?thesis using chances_of_range [OF assms(1), of i] chances_of_range [of d' i] by fastforce
qed

subsection \<open>An instance\<close>

definition example_result :: convergence_result where
  "example_result = \<lparr>cr_outcome = ''ADMITTED'', cr_blockers = [], cr_fields = []\<rparr>"

definition example_wake :: dirty_event_row where
  "example_wake = new_dirty_event empty_db (example_request 1) ''t1''"

text \<open>A wake whose first attempt fails and whose second completes it.\<close>

definition example_wakes :: "(wake_op \<times> string) list" where
  "example_wakes = [(EnqueueWake (example_request 1), ''t1''),
     (RetryWake example_wake ''OSError'' False, ''2024-02-28T23:59:30Z''), (CompleteWake 1 example_result, ''t2'')]"

lemma wakes_inv_empty: "wakes_inv empty_db"
  by (simp add: wakes_inv_def dirty_queue_wf_def table_installed_def empty_db_def store_tables_def)

lemma example_wakes_run:
  "\<exists>d. fold_res wake_step example_wakes empty_db = Inr d \<and> attempts_at 1 example_wakes empty_db = 2"
proof -
  let ?r = "example_request 1"
  from enqueue_dirty_empty obtain d where d: "enqueue_dirty empty_db (?r, ''t1'') = Inr (d, 1)" "dirty_queue_wf d" by blast
  from d(1) obtain out where enq: "enqueue_convergence_dirty_event empty_db ?r ''t1'' False = Inr (d, out)"
    by (auto simp: enqueue_dirty_def guard_simps)
  have "dirty_queue_wf empty_db" using wakes_inv_empty by (simp add: wakes_inv_def)
  from this d(1) have "portfolio_dirty_events d = [new_dirty_event empty_db ?r ''t1'']"
    by (cases rule: enqueue_dirty_cases) (auto simp: empty_db_def dirty_event_of_def)
  then have rows: "portfolio_dirty_events d = [example_wake]" by (simp only: example_wake_def)
  have free: "\<not> in_transaction d" using without_wakes_fields(2) [OF enqueue_dirty_frame [OF enq]] by (simp add: empty_db_def)
  have wake: "de_id example_wake = 1" "armed example_wake" "de_attempts example_wake = 0"
    by (simp_all add: example_wake_def new_dirty_event_def next_rowid_def empty_db_def armed_def)
  have old: "wake_of d 1 = Some example_wake" by (simp add: wake_of_def rows wake)
  have at: "timestamp_after ''2024-02-28T23:59:30Z'' 5 = Inr ''2024-02-28T23:59:35Z''" by code_simp
  have sec: "retry_seconds 1 = 5" by (simp add: retry_seconds_def RETRY_BASE_SECONDS_def MAX_RETRY_SECONDS_def)
  define e where "e = example_wake\<lparr>de_state := ''RETRY'', de_attempts := 1, de_next_attempt_at := ''2024-02-28T23:59:35Z'',
    de_updated_at := ''2024-02-28T23:59:30Z'', de_last_error := Some ''OSError''\<rparr>"
  have e': "de_id e = 1" "armed e" by (simp_all add: e_def wake armed_def)
  have "de_state example_wake \<noteq> ''COMPLETE''" using armed_states(1) [OF wake(2)] by simp
  then have "\<exists>d1. wake_step (RetryWake example_wake ''OSError'' False, ''2024-02-28T23:59:30Z'') d = Inr d1 \<and>
      portfolio_dirty_events d1 = [e]"
    using old wake free by (simp add: record_retry_def transaction_def guard_eval Let_def state_after_def sec at
        convergence_timestamp_after_def MAX_ATTEMPTS_def update_wakes_def update_where_def rows e_def)
  then obtain d1 where d1: "wake_step (RetryWake example_wake ''OSError'' False, ''2024-02-28T23:59:30Z'') d = Inr d1"
    and e1: "portfolio_dirty_events d1 = [e]" by blast
  note e = e1 e'
  have new: "wake_of d1 1 = Some e" by (simp add: wake_of_def e)
  have "fenced e e" using e(3) by (simp add: fenced_def)
  then obtain d2 where d2: "complete_event d1 e example_result ''t2'' = Inr d2"
    by (auto simp: complete_event_def fence_lost_def e guard_eval)
  have "wake_step (EnqueueWake ?r, ''t1'') empty_db = Inr d" "wake_step (CompleteWake 1 example_result, ''t2'') d1 = Inr d2"
    using enq new d2 by simp_all
  then show ?thesis using d1 by (simp add: example_wakes_def takes_def old wake del: wake_step.simps)
qed

theorem wake_attempts_bounded_witness:
  "attempts_at 1 example_wakes empty_db = 2 \<and> attempts_at 1 example_wakes empty_db \<le> MAX_ATTEMPTS"
proof -
  from example_wakes_run obtain d where run: "fold_res wake_step example_wakes empty_db = Inr d"
    "attempts_at 1 example_wakes empty_db = 2" by blast
  from wake_attempts_bounded [OF wakes_inv_empty run(1), of 1]
  have "attempts_at 1 example_wakes empty_db \<le> MAX_ATTEMPTS" by linarith
  then show ?thesis using run(2) by simp
qed

end
