(* ===== verification/Executor_Targets.thy ===== *)
theory Executor_Targets
  imports Coordination_Base
begin

section \<open>Targets of executor attempts\<close>

text \<open>
  The part of executor_registry.py that says what an executor works on: a message, a terminal watch or a
  hosted operation. A target has a delivery lineage (which issue, generation and lease it advances), a
  repository scope, a digest of its progress and a fixed systemd unit name. All of it is read from the
  database; nothing here writes.

  \<open>SystemdUnitEvidence\<close> is what \<open>probe_systemd_unit\<close> reports of a unit.
\<close>

definition ATTEMPT_STATES :: "string list" where
  "ATTEMPT_STATES = [''RESERVED'', ''LAUNCHING'', ''RUNNING'', ''COMPLETE'', ''HOLD'', ''LAUNCH_FAILED'']"

definition ACTIVE_ATTEMPT_STATES :: "string list" where
  "ACTIVE_ATTEMPT_STATES = [''RESERVED'', ''LAUNCHING'', ''RUNNING'']"

definition TARGET_KINDS :: "string list" where
  "TARGET_KINDS = [''message'', ''terminal_watch'', ''hosted_operation'']"

definition NONMUTATING_MESSAGE_TOPIC :: string where
  "NONMUTATING_MESSAGE_TOPIC = ''coordination.notice''"

abbreviation registry_error :: "string \<Rightarrow> error" where
  "registry_error \<equiv> RegistryError"

subsection \<open>Texts\<close>

text \<open>\<open>_role_executor_child_ack_timestamp\<close>: the pattern \<open>RFC3339_UTC\<close> and the calendar, with one to six fraction digits.\<close>

definition ack_fraction :: "string \<Rightarrow> int option" where
  "ack_fraction s =
     (if s = ''Z'' then Some 0
      else if s \<noteq> [] \<and> hd s = CHR ''.'' \<and> last s = CHR ''Z'' then
        (let digits = butlast (tl s) in
         if 1 \<le> length digits \<and> length digits \<le> 6 \<and> list_all is_digit digits
         then Some (int_of_digits digits * 10 ^ (6 - length digits)) else None)
      else None)"

definition ack_timestamp :: "string \<Rightarrow> int option" where
  "ack_timestamp value =
     Option.bind (ack_fraction (drop 19 value)) (\<lambda>fraction.
       Option.bind (fromisoformat (take 19 value @ ''+00:00'')) (\<lambda>seconds. Some (seconds + fraction)))"

definition role_executor_child_ack_timestamp :: "string \<Rightarrow> string \<Rightarrow> int res" where
  "role_executor_child_ack_timestamp value error = require_some (registry_error error) (ack_timestamp value) Inr"

text \<open>
  \<open>_role_executor_integer_target_value\<close>: the texts SQLite would read as an integer. A \<open>Decimal\<close> is a
  coefficient and a power of ten; \<open>Decimal(text)\<close> raises \<open>InvalidOperation\<close> where the exponent leaves the
  range of the library.
\<close>

definition signed :: "string \<Rightarrow> bool \<times> string" where
  "signed s = (case s of [] \<Rightarrow> (False, []) | c # t \<Rightarrow>
     if c = CHR ''-'' then (True, t) else if c = CHR ''+'' then (False, t) else (False, c # t))"

definition exponent_text :: "string \<Rightarrow> int option" where
  "exponent_text s =
     (case s of [] \<Rightarrow> Some 0 | c # t \<Rightarrow>
        (let (negative, digits) = signed t in
         if (c = CHR ''e'' \<or> c = CHR ''E'') \<and> digits \<noteq> [] \<and> list_all is_digit digits
         then Some ((if negative then -1 else 1) * int_of_digits digits) else None))"

definition decimal_text :: "string \<Rightarrow> (int \<times> int) option" where
  "decimal_text s =
     (let (negative, u) = signed s; whole = takeWhile is_digit u; r = dropWhile is_digit u;
          point = (r \<noteq> [] \<and> hd r = CHR ''.'');
          fraction = (if point then takeWhile is_digit (tl r) else []);
          rest = (if point then dropWhile is_digit (tl r) else r) in
      if whole = [] \<and> fraction = [] then None
      else map_option (\<lambda>e. ((if negative then -1 else 1) * int_of_digits (whole @ fraction), e - int (length fraction)))
        (exponent_text rest))"

definition decimal_converts :: "int \<times> int \<Rightarrow> bool" where
  "decimal_converts n =
     (if fst n = 0 then - 1999999999999999997 \<le> snd n \<and> snd n \<le> 999999999999999999
      else snd n + int (length (str_of_nat (nat \<bar>fst n\<bar>))) - 1 \<le> 999999999999999999)"

definition decimal_integral :: "int \<times> int \<Rightarrow> bool" where
  "decimal_integral n \<longleftrightarrow> fst n = 0 \<or> 0 \<le> snd n \<or> (- snd n \<le> 128 \<and> 10 ^ nat (- snd n) dvd fst n)"

definition role_executor_integer_target_value :: "string \<Rightarrow> (int \<times> int) option" where
  "role_executor_integer_target_value value =
     (let candidate = strip value in
      if candidate = [] \<or> 128 < length candidate then None
      else case decimal_text candidate of
          None \<Rightarrow> None
        | Some n \<Rightarrow> if decimal_converts n \<and> decimal_integral n then Some n else None)"

definition CANONICAL_INTEGER_TARGET :: "string \<Rightarrow> bool" where
  "CANONICAL_INTEGER_TARGET s \<longleftrightarrow> s \<noteq> [] \<and> list_all is_digit s \<and> hd s \<noteq> CHR ''0''"

text \<open>\<open>casefold\<close> on the ASCII letters a repository name can have.\<close>

definition ascii_lower :: "char \<Rightarrow> char" where
  "ascii_lower c = (if is_upper c then char_of (of_char c + 32 :: nat) else c)"

definition canonical_repository_scope :: "pyval \<Rightarrow> string res" where
  "canonical_repository_scope repository =
     guarded [(\<not> is_str repository \<or> \<not> REPOSITORY (str_of repository),
               registry_error ''EXECUTOR_REPOSITORY_SCOPE_INVALID'')]
       (Inr (map ascii_lower (str_of repository)))"

subsection \<open>Lineages\<close>

record attempt_lineage =
  ln_repository :: string
  ln_issue_number :: int
  ln_generation :: int
  ln_lease_manifest_sha256 :: string

text \<open>\<open>AttemptLineage(...)\<close> with its \<open>__post_init__\<close>.\<close>

definition AttemptLineage :: "pyval \<Rightarrow> pyval \<Rightarrow> pyval \<Rightarrow> pyval \<Rightarrow> attempt_lineage res" where
  "AttemptLineage repository issue_number generation lease =
     guarded [(\<not> nonempty_str repository \<or> \<not> is_int issue_number \<or> int_of issue_number \<le> 0 \<or>
               \<not> is_int generation \<or> int_of generation < 0 \<or> \<not> sha_str lease,
               registry_error ''EXECUTOR_LINEAGE_INVALID'')]
       (Inr \<lparr>ln_repository = str_of repository, ln_issue_number = int_of issue_number,
             ln_generation = int_of generation, ln_lease_manifest_sha256 = str_of lease\<rparr>)"

definition lineage_sha256 :: "attempt_lineage \<Rightarrow> string" where
  "lineage_sha256 l =
     digest_json (PDict [(''generation'', PInt (ln_generation l)), (''issue_number'', PInt (ln_issue_number l)),
       (''lease_manifest_sha256'', PStr (ln_lease_manifest_sha256 l)), (''repository'', PStr (ln_repository l))])"

definition message_by_id :: "db \<Rightarrow> int \<Rightarrow> message_row option" where
  "message_by_id d i = List.find (\<lambda>m. ms_id m = i) (coordination_messages d)"

definition watch_by_key :: "db \<Rightarrow> string \<Rightarrow> terminal_watch_row option" where
  "watch_by_key d k = List.find (\<lambda>w. tw_watch_key w = k) (coordination_terminal_watches d)"

definition hosted_by_id :: "db \<Rightarrow> int \<Rightarrow> hosted_operation_row option" where
  "hosted_by_id d i = List.find (\<lambda>h. ho_id h = i) (hosted_operations d)"

text \<open>\<open>payload.get("source") if isinstance(payload, dict) else None\<close>\<close>

definition get_if_dict :: "pyval \<Rightarrow> string \<Rightarrow> pyval" where
  "get_if_dict v k = (if is_dict v then py_get (dict_of v) k else PNone)"

definition message_lineage :: "message_row \<Rightarrow> pyval \<Rightarrow> attempt_lineage option res" where
  "message_lineage row payload =
     (if ms_topic row = NONMUTATING_MESSAGE_TOPIC
      then guarded [(get_if_dict payload ''mutation_authority'' \<noteq> PBool False, registry_error ''EXECUTOR_LINEAGE_INVALID'')]
             (Inr None)
      else
        let source = get_if_dict payload ''source''; issue_number = get_if_dict payload ''issue_number'' in
        guarded [(\<not> is_dict source \<or> \<not> py_eq (py_get (dict_of source) ''object_kind'') (PStr ''issue'') \<or>
                  \<not> py_eq (py_get (dict_of source) ''object_number'') issue_number,
                  registry_error ''EXECUTOR_LINEAGE_INVALID'')]
        (bind_res (AttemptLineage (py_get (dict_of source) ''repository'') issue_number
             (get_if_dict payload ''generation'') (get_if_dict payload ''lease_manifest_sha256''))
           (\<lambda>l. Inr (Some l))))"

definition attempt_lineage_for_target :: "db \<Rightarrow> string \<Rightarrow> string \<Rightarrow> attempt_lineage option res" where
  "attempt_lineage_for_target d target_kind target_key =
     (let invalid = registry_error ''EXECUTOR_LINEAGE_INVALID'' in
      if target_kind = ''message'' then
        require_some invalid (int_text target_key) (\<lambda>message_id.
        require_some invalid (message_by_id d message_id) (\<lambda>row.
        require_some invalid (ms_payload_json row) (message_lineage row)))
      else if target_kind = ''terminal_watch'' then
        require_some invalid (watch_by_key d target_key) (\<lambda>w.
          bind_res (AttemptLineage (PStr (tw_repository w)) (PInt (tw_issue_number w)) (PInt (tw_generation w))
            (PStr (tw_lease_manifest_sha256 w))) (\<lambda>l. Inr (Some l)))
      else if target_kind = ''hosted_operation'' then Inr None
      else Inl invalid)"

subsection \<open>Scope and progress\<close>

definition repository_scope_for_target :: "db \<Rightarrow> string \<Rightarrow> string \<Rightarrow> string option res" where
  "repository_scope_for_target d target_kind target_key =
     (let scope = (\<lambda>r. bind_res (canonical_repository_scope r) (\<lambda>s. Inr (Some s))) in
      if target_kind = ''message'' then
        (case Option.bind (int_text target_key) (message_by_id d) of
           None \<Rightarrow> Inr None
         | Some row \<Rightarrow>
             require_some (registry_error ''EXECUTOR_REPOSITORY_SCOPE_INVALID'') (ms_payload_json row) (\<lambda>payload.
               scope (get_if_dict (get_if_dict payload ''source'') ''repository'')))
      else if target_kind = ''terminal_watch'' then
        (case watch_by_key d target_key of None \<Rightarrow> Inr None | Some w \<Rightarrow> scope (PStr (tw_repository w)))
      else if target_kind = ''hosted_operation'' then
        (if \<not> table_installed d ''hosted_operations'' then Inr None
         else case Option.bind (int_text target_key) (hosted_by_id d) of
             None \<Rightarrow> Inr None | Some h \<Rightarrow> scope (PStr (ho_repository h)))
      else Inl (registry_error ''EXECUTOR_REPOSITORY_SCOPE_INVALID''))"

definition py_text :: "string option \<Rightarrow> pyval" where
  "py_text x = (case x of None \<Rightarrow> PNone | Some s \<Rightarrow> PStr s)"

definition py_number :: "int option \<Rightarrow> pyval" where
  "py_number x = (case x of None \<Rightarrow> PNone | Some i \<Rightarrow> PInt i)"

definition item_progress :: "item_row option \<Rightarrow> pyval" where
  "item_progress row =
     (case row of None \<Rightarrow> PNone | Some i \<Rightarrow>
        PDict [(''status'', PStr (it_status i)), (''allocation_class'', PStr (it_allocation_class i)),
          (''generation'', PInt (it_generation i)),
          (''accountable_session_id'', py_text (it_accountable_session_id i)),
          (''lease_manifest_sha256'', py_text (it_lease_manifest_sha256 i)),
          (''source_payload_sha256'', PStr (it_source_payload_sha256 i)), (''version'', PInt (it_version i))])"

definition watch_of_generation :: "db \<Rightarrow> string \<Rightarrow> int \<Rightarrow> int \<Rightarrow> terminal_watch_row option" where
  "watch_of_generation d repository issue_number generation =
     List.find (\<lambda>w. tw_repository w = repository \<and> tw_issue_number w = issue_number \<and> tw_generation w = generation)
       (coordination_terminal_watches d)"

definition watch_progress :: "terminal_watch_row \<Rightarrow> pydict" where
  "watch_progress w =
     [(''state'', PStr (tw_state w)), (''last_heartbeat_at'', PStr (tw_last_heartbeat_at w)),
      (''generation'', PInt (tw_generation w)), (''accountable_session_id'', PStr (tw_accountable_session_id w)),
      (''lease_manifest_sha256'', PStr (tw_lease_manifest_sha256 w))]"

definition delivery_progress :: "db \<Rightarrow> string \<Rightarrow> int \<Rightarrow> pyval \<Rightarrow> pydict" where
  "delivery_progress d repository issue_number generation =
     [(''item'', item_progress (item_of d repository issue_number)),
      (''terminal_watch'',
       if is_int generation then
         (case watch_of_generation d repository issue_number (int_of generation) of
            None \<Rightarrow> PNone | Some w \<Rightarrow> PDict (watch_progress w))
       else PNone)]"

definition message_progress :: "db \<Rightarrow> message_row \<Rightarrow> pyval \<Rightarrow> pydict" where
  "message_progress d row payload =
     (let source = get_if_dict payload ''source''; repository = get_if_dict source ''repository'';
          own = get_if_dict payload ''issue_number'';
          issue_number = (if \<not> is_int own \<and> is_dict source then py_get (dict_of source) ''object_number'' else own) in
      [(''claimed_by'', py_text (ms_claimed_by row)), (''payload_sha256'', PStr (ms_payload_sha256 row)),
       (''state'', PStr (ms_state row)), (''topic'', PStr (ms_topic row))] @
      (if ms_topic row \<noteq> NONMUTATING_MESSAGE_TOPIC \<and> is_str repository \<and> is_int issue_number
       then delivery_progress d (str_of repository) (int_of issue_number) (get_if_dict payload ''generation'')
       else []))"

definition hosted_progress :: "hosted_operation_row \<Rightarrow> pydict" where
  "hosted_progress h =
     [(''state'', PStr (ho_state h)), (''claimed_by'', py_text (ho_claimed_by h)),
      (''scope_sha256'', PStr (ho_scope_sha256 h)), (''receipt_outbox_id'', py_number (ho_receipt_outbox_id h)),
      (''remote_receipt'', py_text (ho_remote_receipt h)), (''receipt_outcome'', py_text (ho_receipt_outcome h)),
      (''receipt_payload_sha256'', py_text (ho_receipt_payload_sha256 h)),
      (''retired_by_idempotency_key'', py_text (ho_retired_by_idempotency_key h)),
      (''retired_at'', py_text (ho_retired_at h))]"

text \<open>The query of an absent \<open>hosted_operations\<close> table is SQLite's error.\<close>

definition target_progress_digest :: "db \<Rightarrow> string \<Rightarrow> string \<Rightarrow> string res" where
  "target_progress_digest d target_kind target_key =
     (let invalid = registry_error ''EXECUTOR_TARGET_PROGRESS_INVALID'' in
      if target_kind = ''message'' then
        require_some invalid (int_text target_key) (\<lambda>message_id.
        require_some invalid (message_by_id d message_id) (\<lambda>row.
        require_some invalid (ms_payload_json row) (\<lambda>payload.
          Inr (digest_json (PDict (message_progress d row payload))))))
      else if target_kind = ''terminal_watch'' then
        require_some invalid (watch_by_key d target_key) (\<lambda>w.
          Inr (digest_json (PDict
            [(''item'', item_progress (item_of d (tw_repository w) (tw_issue_number w))),
             (''watch'', PDict ([(''repository'', PStr (tw_repository w)), (''issue_number'', PInt (tw_issue_number w))] @
                watch_progress w))])))
      else if target_kind = ''hosted_operation'' then
        require_some invalid (int_text target_key) (\<lambda>operation_id.
          guarded [(\<not> table_installed d ''hosted_operations'', OperationalError ''no such table: hosted_operations'')]
          (require_some invalid (hosted_by_id d operation_id) (\<lambda>h.
            Inr (digest_json (PDict (hosted_progress h))))))
      else Inl invalid)"

definition planner_repository_for_target :: "catalog \<Rightarrow> db \<Rightarrow> string \<Rightarrow> string \<Rightarrow> string option res" where
  "planner_repository_for_target catalog d target_kind target_key =
     (if target_kind \<noteq> ''message'' then Inr None
      else require_some (registry_error ''EXECUTOR_REPOSITORY_SCOPE_INVALID'') (int_text target_key) (\<lambda>message_id.
        case message_by_id d message_id of
          None \<Rightarrow> Inr None
        | Some row \<Rightarrow>
            bind_res (identity_role catalog d (ms_recipient_session_id row)) (\<lambda>role.
              if role \<noteq> Some ''planner'' then Inr None
              else repository_scope_for_target d target_kind target_key)))"

subsection \<open>Units\<close>

record systemd_unit_evidence =
  su_unit :: string
  su_load_state :: string
  su_active_state :: string
  su_sub_state :: string
  su_invocation_id :: string
  su_control_group :: string
  su_result :: string
  su_memory_max :: string
  su_tasks_max :: string
  su_runtime_max_usec :: string
  su_cpu_quota_per_sec_usec :: string

definition evidence_payload :: "systemd_unit_evidence \<Rightarrow> pyval" where
  "evidence_payload e =
     PDict [(''unit'', PStr (su_unit e)), (''load_state'', PStr (su_load_state e)),
       (''active_state'', PStr (su_active_state e)), (''sub_state'', PStr (su_sub_state e)),
       (''invocation_id'', PStr (su_invocation_id e)), (''control_group'', PStr (su_control_group e)),
       (''result'', PStr (su_result e)), (''memory_max'', PStr (su_memory_max e)),
       (''tasks_max'', PStr (su_tasks_max e)), (''runtime_max_usec'', PStr (su_runtime_max_usec e)),
       (''cpu_quota_per_sec_usec'', PStr (su_cpu_quota_per_sec_usec e))]"

definition SYSTEMD_INVOCATION_ID :: "string \<Rightarrow> bool" where
  "SYSTEMD_INVOCATION_ID s \<longleftrightarrow> length s = 32 \<and> list_all is_hex s"

definition stable_systemd_unit :: "string \<Rightarrow> string \<Rightarrow> string \<Rightarrow> string res" where
  "stable_systemd_unit role target_kind target_key =
     guarded [(role \<notin> set ROLES \<or> target_kind \<notin> set TARGET_KINDS \<or> target_key = [],
               registry_error ''EXECUTOR_TARGET_INVALID'')]
       (Inr (''twinfinity-role-executor-'' @ role @ ''-'' @ str_replace ''_'' ''-'' target_kind @ ''-'' @
         take 16 (sha256_hex (canonical_json (PList [PStr role, PStr target_kind, PStr target_key]))) @ ''.service''))"

text \<open>A control group that ends in the unit: \<open>startswith("/")\<close> and \<open>endswith("/" + unit)\<close>.\<close>

definition control_group_of_unit :: "string \<Rightarrow> string \<Rightarrow> bool" where
  "control_group_of_unit control_group unit \<longleftrightarrow> prefix ''/'' control_group \<and> suffix (CHR ''/'' # unit) control_group"

definition validate_launch_systemd_evidence ::
  "string \<Rightarrow> string \<Rightarrow> string \<Rightarrow> string \<Rightarrow> systemd_unit_evidence \<Rightarrow> unit res" where
  "validate_launch_systemd_evidence role target_kind target_key invocation_id evidence =
     bind_res (stable_systemd_unit role target_kind target_key) (\<lambda>unit.
       guarded [(\<not> SYSTEMD_INVOCATION_ID invocation_id \<or> su_unit evidence \<noteq> unit \<or>
                 su_invocation_id evidence \<noteq> invocation_id \<or> su_load_state evidence \<noteq> ''loaded'' \<or>
                 su_active_state evidence \<notin> {''active'', ''activating''} \<or>
                 su_sub_state evidence \<notin> {''running'', ''start''} \<or>
                 \<not> control_group_of_unit (su_control_group evidence) unit,
                 registry_error ''SYSTEMD_LAUNCH_IDENTITY_INVALID'')] (Inr ()))"

subsection \<open>Historical identities\<close>

definition historical_identity_role :: "catalog \<Rightarrow> db \<Rightarrow> string \<Rightarrow> string option res" where
  "historical_identity_role catalog d identity =
     bind_res (identity_role catalog d identity) (\<lambda>role.
       Inr (if role \<noteq> None then role
            else if \<not> table_installed d ''executor_role_endpoint_aliases'' then None
            else map_option al_role (List.find (\<lambda>a. al_alias a = identity) (executor_role_endpoint_aliases d))))"

definition identities_role_equivalent :: "catalog \<Rightarrow> db \<Rightarrow> string \<Rightarrow> string \<Rightarrow> bool res" where
  "identities_role_equivalent catalog d left right =
     bind_res (historical_identity_role catalog d left) (\<lambda>left_role.
       if left_role = None then Inr False
       else bind_res (historical_identity_role catalog d right) (\<lambda>right_role. Inr (left_role = right_role)))"

definition canonical_endpoint_id :: "catalog \<Rightarrow> db \<Rightarrow> string \<Rightarrow> string option res" where
  "canonical_endpoint_id catalog d identity =
     bind_res (historical_identity_role catalog d identity) (\<lambda>r.
       case r of None \<Rightarrow> Inr None
       | Some role \<Rightarrow> bind_res (current_endpoint d role) (\<lambda>e. Inr (map_option ep_endpoint_id e)))"

definition endpoint_is_current :: "catalog \<Rightarrow> db \<Rightarrow> string \<Rightarrow> bool res" where
  "endpoint_is_current catalog d endpoint_id =
     bind_res (identity_role catalog d endpoint_id) (\<lambda>r.
       case r of None \<Rightarrow> Inr False
       | Some role \<Rightarrow> bind_res (current_endpoint d role) (\<lambda>e. Inr (map_option ep_endpoint_id e = Some endpoint_id)))"

definition timestamp_before :: "string \<Rightarrow> int \<Rightarrow> string res" where
  "timestamp_before ts seconds = timestamp_after ts (- seconds)"


end
