(* ===== verification/Executor_Attempts.thy ===== *)
theory Executor_Attempts
  imports Executor_Targets
begin

section \<open>Executor attempts\<close>

text \<open>
  \<open>reserve_attempt\<close>, \<open>transition_attempt\<close> and the two recoveries of executor_registry.py. An attempt is one
  run of an executor at a target: it is reserved under the fences of its target, lineage and repository,
  moves by compare-and-swap under its secret token, and every change appends an event.

  The random values a reservation draws (token, attempt id, instance id) and the callback
  \<open>precondition\<close>, with which the caller validates the target, are arguments; so is the reader of systemd
  evidence, \<open>None\<close> where it raises. \<open>ensure_executor_registry_schema\<close> runs before the transaction of each
  operation; an installed table has the current schema, and the partial unique indexes, \<open>CHECK\<close>s and the
  identity trigger of \<open>executor_attempts\<close> are what \<open>attempt_conflicts\<close>, \<open>attempt_check\<close> and
  \<open>identity_changed\<close> state. \<open>immediate_transaction\<close> nests by savepoints, so it never fails to start.
\<close>

subsection \<open>The table\<close>

definition registry_tables :: "string list" where
  "registry_tables = [''executor_role_endpoints'', ''executor_registry_state'', ''executor_role_endpoint_current'',
     ''executor_role_endpoint_aliases'', ''executor_attempts'', ''executor_attempt_events'', ''executor_registry_changes'']"

definition ensure_executor_registry_schema :: "db \<Rightarrow> db" where
  "ensure_executor_registry_schema d =
     d\<lparr>sqlite_master := sqlite_master d @ filter (\<lambda>t. \<not> table_installed d t) registry_tables,
       executor_registry_state :=
         (let state = (case executor_registry_state d of None \<Rightarrow> ''PRE_CUTOVER'' | Some s \<Rightarrow> s) in
          Some (if executor_role_endpoint_current d \<noteq> [] \<and> state = ''PRE_CUTOVER'' then ''CUTOVER_COMPLETE'' else state))\<rparr>"

definition attempt_schema_is_current :: "db \<Rightarrow> bool" where
  "attempt_schema_is_current d \<longleftrightarrow> table_installed d ''executor_attempts''"

definition active_attempt :: "attempt_row \<Rightarrow> bool" where
  "active_attempt r \<longleftrightarrow> at_state r \<in> set ACTIVE_ATTEMPT_STATES"

definition same_target :: "attempt_row \<Rightarrow> attempt_row \<Rightarrow> bool" where
  "same_target q r \<longleftrightarrow> at_role q = at_role r \<and> at_target_kind q = at_target_kind r \<and> at_target_key q = at_target_key r"

definition same_lineage :: "attempt_row \<Rightarrow> attempt_row \<Rightarrow> bool" where
  "same_lineage q r \<longleftrightarrow> at_lineage_sha256 q \<noteq> None \<and> at_lineage_sha256 q = at_lineage_sha256 r"

definition same_planner_scope :: "attempt_row \<Rightarrow> attempt_row \<Rightarrow> bool" where
  "same_planner_scope q r \<longleftrightarrow> at_role q = ''planner'' \<and> at_role r = ''planner'' \<and>
     at_repository_scope q \<noteq> None \<and> at_repository_scope q = at_repository_scope r"

definition attempt_conflicts :: "attempt_row list \<Rightarrow> attempt_row \<Rightarrow> bool" where
  "attempt_conflicts others r \<longleftrightarrow> (\<exists>q \<in> set others.
     at_attempt_id q = at_attempt_id r \<or> at_instance_id q = at_instance_id r \<or>
     (active_attempt q \<and> active_attempt r \<and> (same_target q r \<or> same_lineage q r \<or> same_planner_scope q r)))"

definition digest_column :: "string option \<Rightarrow> bool" where
  "digest_column x \<longleftrightarrow> (case x of None \<Rightarrow> True | Some s \<Rightarrow> length s = 64)"

definition lineage_columns :: "attempt_row \<Rightarrow> bool" where
  "lineage_columns r \<longleftrightarrow>
     (at_lineage_sha256 r = None \<and> at_lineage_repository r = None \<and> at_lineage_issue_number r = None \<and>
      at_lineage_generation r = None \<and> at_lineage_lease_sha256 r = None) \<or>
     (case (at_lineage_sha256 r, at_lineage_repository r, at_lineage_issue_number r, at_lineage_generation r,
            at_lineage_lease_sha256 r) of
        (Some s, Some _, Some n, Some g, Some l) \<Rightarrow> length s = 64 \<and> 0 < n \<and> 0 \<le> g \<and> length l = 64
      | _ \<Rightarrow> False)"

definition attempt_check :: "attempt_row \<Rightarrow> bool" where
  "attempt_check r \<longleftrightarrow> at_role r \<in> set ROLES \<and> at_target_kind r \<in> set TARGET_KINDS \<and> at_state r \<in> set ATTEMPT_STATES \<and>
     0 < at_version r \<and> digest_column (at_target_progress_sha256 r) \<and> digest_column (at_terminal_progress_sha256 r) \<and>
     lineage_columns r"

text \<open>The columns the trigger \<open>executor_attempt_identity_immutable\<close> fixes, from the start or once they are set.\<close>

definition attempt_identity :: "attempt_row \<Rightarrow> string list \<times> string option list \<times> int option list" where
  "attempt_identity r =
     ([at_attempt_id r, at_role r, at_endpoint_id r, at_instance_id r, at_token_sha256 r, at_target_kind r,
       at_target_key r, at_created_at r],
      [at_repository_scope r, at_target_progress_sha256 r, at_lineage_repository r, at_lineage_lease_sha256 r,
       at_lineage_sha256 r],
      [at_lineage_issue_number r, at_lineage_generation r])"

definition set_once :: "'a option \<Rightarrow> 'a option \<Rightarrow> bool" where
  "set_once old new \<longleftrightarrow> old = None \<or> new = old"

definition identity_changed :: "attempt_row \<Rightarrow> attempt_row \<Rightarrow> bool" where
  "identity_changed old new \<longleftrightarrow> attempt_identity new \<noteq> attempt_identity old \<or>
     \<not> set_once (at_terminal_progress_sha256 old) (at_terminal_progress_sha256 new) \<or>
     \<not> set_once (at_systemd_unit old) (at_systemd_unit new) \<or>
     \<not> set_once (at_systemd_invocation_id old) (at_systemd_invocation_id new) \<or>
     \<not> set_once (at_systemd_control_group old) (at_systemd_control_group new) \<or>
     \<not> set_once (at_process_id old) (at_process_id new)"

definition attempt_by_id :: "db \<Rightarrow> string \<Rightarrow> attempt_row option" where
  "attempt_by_id d i = List.find (\<lambda>r. at_attempt_id r = i) (executor_attempts d)"

definition insert_attempt :: "attempt_row \<Rightarrow> db \<Rightarrow> db res" where
  "insert_attempt r d =
     guarded [(\<not> attempt_check r, IntegrityError ''CHECK constraint failed''),
              (attempt_conflicts (executor_attempts d) r, IntegrityError ''UNIQUE constraint failed''),
              (endpoint_of d (at_endpoint_id r) = None, IntegrityError ''FOREIGN KEY constraint failed'')]
       (Inr (d\<lparr>executor_attempts := executor_attempts d @ [r]\<rparr>))"

text \<open>\<open>UPDATE executor_attempts SET \<dots> WHERE \<dots>\<close> with the number of rows it changed.\<close>

definition update_attempts :: "(attempt_row \<Rightarrow> bool) \<Rightarrow> (attempt_row \<Rightarrow> attempt_row) \<Rightarrow> db \<Rightarrow> (db \<times> nat) res" where
  "update_attempts p f d =
     (let rows = executor_attempts d; hit = filter p rows in
      guarded [(\<exists>r \<in> set hit. identity_changed r (f r), IntegrityError ''EXECUTOR_ATTEMPT_IDENTITY_IMMUTABLE''),
               (\<exists>r \<in> set hit. \<not> attempt_check (f r), IntegrityError ''CHECK constraint failed''),
               (\<exists>r \<in> set hit. attempt_conflicts (filter (\<lambda>q. at_attempt_id q \<noteq> at_attempt_id r) rows) (f r),
                IntegrityError ''UNIQUE constraint failed'')]
        (Inr (d\<lparr>executor_attempts := update_where p f rows\<rparr>, length hit)))"

definition insert_attempt_event ::
  "string \<Rightarrow> string option \<Rightarrow> string \<Rightarrow> int option \<Rightarrow> int \<Rightarrow> string option \<Rightarrow> pyval option \<Rightarrow> string \<Rightarrow> db \<Rightarrow> db" where
  "insert_attempt_event attempt_id from_state to_state from_version to_version reason evidence recorded_at d =
     d\<lparr>executor_attempt_events := executor_attempt_events d @
        [\<lparr>ae_attempt_id = attempt_id, ae_from_state = from_state, ae_to_state = to_state,
          ae_from_version = from_version, ae_to_version = to_version, ae_reason = reason,
          ae_evidence_sha256 = map_option digest_json evidence, ae_evidence_json = evidence,
          ae_recorded_at = recorded_at\<rparr>]\<rparr>"

subsection \<open>Reservation\<close>

record reserve_request =
  rq_role :: string
  rq_endpoint_id :: string
  rq_target_kind :: string
  rq_target_key :: string
  rq_now :: string

record fresh_values =
  fv_token :: string
  fv_attempt_id :: string
  fv_instance_id :: string

definition integer_alias :: "string \<Rightarrow> bool" where
  "integer_alias key =
     (case role_executor_integer_target_value key of
        None \<Rightarrow> False | Some n \<Rightarrow> fst n \<le> 0 \<or> \<not> CANONICAL_INTEGER_TARGET key)"

definition validate_reserve_request :: "reserve_request \<Rightarrow> unit res" where
  "validate_reserve_request q =
     guarded [(rq_role q \<notin> set ROLES \<or> rq_target_kind q \<notin> set TARGET_KINDS \<or> rq_target_key q = [],
               registry_error ''EXECUTOR_ATTEMPT_INVALID''),
              (rq_target_kind q \<in> {''message'', ''hosted_operation''} \<and> integer_alias (rq_target_key q),
               registry_error ''EXECUTOR_ATTEMPT_INVALID''),
              (ack_timestamp (rq_now q) = None, registry_error ''EXECUTOR_ATTEMPT_INVALID'')] (Inr ())"

definition reserved_attempt ::
  "reserve_request \<Rightarrow> fresh_values \<Rightarrow> attempt_lineage option \<Rightarrow> string option \<Rightarrow> string option \<Rightarrow> attempt_row" where
  "reserved_attempt q v lineage scope progress =
     \<lparr>at_attempt_id = fv_attempt_id v, at_role = rq_role q, at_endpoint_id = rq_endpoint_id q,
      at_instance_id = fv_instance_id v, at_token_sha256 = sha256_hex (fv_token v),
      at_target_kind = rq_target_kind q, at_target_key = rq_target_key q, at_repository_scope = scope,
      at_target_progress_sha256 = progress, at_terminal_progress_sha256 = None,
      at_lineage_repository = map_option ln_repository lineage,
      at_lineage_issue_number = map_option ln_issue_number lineage,
      at_lineage_generation = map_option ln_generation lineage,
      at_lineage_lease_sha256 = map_option ln_lease_manifest_sha256 lineage,
      at_lineage_sha256 = map_option lineage_sha256 lineage,
      at_state = ''RESERVED'', at_process_id = None, at_exit_code = None, at_systemd_unit = None,
      at_systemd_invocation_id = None, at_systemd_control_group = None, at_heartbeat_at = rq_now q,
      at_version = 1, at_created_at = rq_now q, at_updated_at = rq_now q, at_last_error = None\<rparr>"

text \<open>\<open>except RegistryError: target_progress_sha256 = None\<close>\<close>

fun progress_or_none :: "string res \<Rightarrow> string option res" where
  "progress_or_none (Inl (RegistryError _)) = Inr None"
| "progress_or_none (Inl e) = Inl e"
| "progress_or_none (Inr s) = Inr (Some s)"

definition busy_with :: "(attempt_row \<Rightarrow> bool) \<Rightarrow> db \<Rightarrow> bool" where
  "busy_with p d \<longleftrightarrow> (\<exists>r \<in> set (executor_attempts d). p r \<and> active_attempt r)"

definition reserve_guards :: "db \<Rightarrow> reserve_request \<Rightarrow> attempt_lineage option \<Rightarrow> string option \<Rightarrow> 'a res \<Rightarrow> 'a res" where
  "reserve_guards d q lineage scope k =
     guarded [(rq_role q = ''planner'' \<and> scope = None, registry_error ''EXECUTOR_REPOSITORY_SCOPE_INVALID'')]
     (bind_res (current_endpoint d (rq_role q)) (\<lambda>endpoint.
      guarded [(map_option ep_endpoint_id endpoint \<noteq> Some (rq_endpoint_id q), registry_error ''EXECUTOR_ENDPOINT_NOT_CURRENT''),
               (busy_with (\<lambda>r. at_role r = rq_role q \<and> at_target_kind r = rq_target_kind q \<and>
                   at_target_key r = rq_target_key q) d, registry_error ''EXECUTOR_TARGET_BUSY''),
               (lineage \<noteq> None \<and> busy_with (\<lambda>r. at_lineage_sha256 r = map_option lineage_sha256 lineage) d,
                registry_error ''EXECUTOR_LINEAGE_BUSY''),
               (rq_role q = ''planner'' \<and> busy_with (\<lambda>r. at_role r = ''planner'' \<and> at_repository_scope r = scope) d,
                registry_error ''EXECUTOR_REPOSITORY_BUSY'')] k))"

definition reserve_attempt ::
  "(db \<Rightarrow> attempt_lineage option res) \<Rightarrow> db \<Rightarrow> reserve_request \<Rightarrow> fresh_values \<Rightarrow> (db \<times> attempt_row) res" where
  "reserve_attempt precondition d0 q v =
     bind_res (validate_reserve_request q) (\<lambda>_.
     (let d = ensure_executor_registry_schema d0 in
      guarded [(\<not> attempt_schema_is_current d, registry_error ''EXECUTOR_ATTEMPT_SCHEMA_MIGRATION_REQUIRED'')]
      (bind_res (precondition d) (\<lambda>lineage.
       bind_res (repository_scope_for_target d (rq_target_kind q) (rq_target_key q)) (\<lambda>scope.
       bind_res (progress_or_none (target_progress_digest d (rq_target_kind q) (rq_target_key q))) (\<lambda>progress.
       reserve_guards d q lineage scope
         (let row = reserved_attempt q v lineage scope progress in
          bind_res (insert_attempt row d) (\<lambda>d'.
          Inr (insert_attempt_event (fv_attempt_id v) None ''RESERVED'' None 1 (Some ''ATTEMPT_RESERVED'') None
                 (rq_now q) d', row)))))))))"

subsection \<open>Queries\<close>

definition active_attempt_for_lineage :: "db \<Rightarrow> string \<Rightarrow> attempt_row option res" where
  "active_attempt_for_lineage d sha =
     guarded [(\<not> SHA256 sha \<or> \<not> attempt_schema_is_current d, registry_error ''EXECUTOR_LINEAGE_FENCE_UNAVAILABLE'')]
       (Inr (List.find (\<lambda>r. at_lineage_sha256 r = Some sha \<and> active_attempt r) (executor_attempts d)))"

definition active_planner_attempt_for_repository :: "db \<Rightarrow> pyval \<Rightarrow> attempt_row option res" where
  "active_planner_attempt_for_repository d repository =
     bind_res (canonical_repository_scope repository) (\<lambda>scope.
       guarded [(\<not> attempt_schema_is_current d, registry_error ''EXECUTOR_REPOSITORY_FENCE_UNAVAILABLE'')]
         (Inr (List.find (\<lambda>r. at_role r = ''planner'' \<and> at_repository_scope r = Some scope \<and> active_attempt r)
            (executor_attempts d))))"

text \<open>The newest active attempt; rows of one creation time keep the order of the table.\<close>

definition active_attempt_for_target :: "catalog \<Rightarrow> db \<Rightarrow> string \<Rightarrow> string \<Rightarrow> string \<Rightarrow> attempt_row option res" where
  "active_attempt_for_target catalog d identity target_kind target_key =
     bind_res (identity_role catalog d identity) (\<lambda>r.
       Inr (case r of None \<Rightarrow> None | Some role \<Rightarrow>
         if target_kind \<notin> set TARGET_KINDS \<or> target_key = [] then None
         else let rows = filter (\<lambda>a. at_role a = role \<and> at_target_kind a = target_kind \<and> at_target_key a = target_key \<and>
                    active_attempt a) (executor_attempts d) in
           List.find (\<lambda>a. \<forall>b \<in> set rows. at_created_at b \<le> at_created_at a) rows))"

subsection \<open>Transitions\<close>

definition EXECUTOR_PRIVATE_ERROR_REDACTED :: string where
  "EXECUTOR_PRIVATE_ERROR_REDACTED = ''EXECUTOR_PRIVATE_ERROR_REDACTED''"

record transition_request =
  tn_attempt_id :: string
  tn_token :: string
  tn_expected_version :: int
  tn_new_state :: string
  tn_now :: string
  tn_process_id :: "int option"
  tn_exit_code :: "int option"
  tn_last_error :: "string option"
  tn_systemd_unit :: "string option"
  tn_systemd_invocation_id :: "string option"
  tn_systemd_control_group :: "string option"
  tn_terminal_progress_sha256 :: "string option"

text \<open>\<open>token in value\<close> for the texts among some values.\<close>

definition leaks :: "string \<Rightarrow> string option list \<Rightarrow> bool" where
  "leaks token values \<longleftrightarrow> (\<exists>v \<in> set values. case v of None \<Rightarrow> False | Some s \<Rightarrow> sublist token s)"

definition effective_last_error :: "transition_request \<Rightarrow> string option" where
  "effective_last_error q =
     (if leaks (tn_token q) [tn_last_error q] then Some EXECUTOR_PRIVATE_ERROR_REDACTED else tn_last_error q)"

definition durable_inputs :: "transition_request \<Rightarrow> string option list" where
  "durable_inputs q =
     [Some (tn_now q), tn_systemd_unit q, tn_systemd_invocation_id q, tn_systemd_control_group q,
      tn_terminal_progress_sha256 q, map_option str_of_int (tn_exit_code q), map_option str_of_int (tn_process_id q)]"

definition attempt_texts :: "attempt_row \<Rightarrow> string option list" where
  "attempt_texts r =
     [Some (at_attempt_id r), Some (at_role r), Some (at_endpoint_id r), Some (at_instance_id r),
      Some (at_token_sha256 r), Some (at_target_kind r), Some (at_target_key r), at_repository_scope r,
      at_target_progress_sha256 r, at_terminal_progress_sha256 r, at_lineage_repository r, at_lineage_lease_sha256 r,
      at_lineage_sha256 r, Some (at_state r), at_systemd_unit r, at_systemd_invocation_id r,
      at_systemd_control_group r, Some (at_heartbeat_at r), Some (at_created_at r), Some (at_updated_at r),
      at_last_error r]"

definition allowed_transitions :: "string \<rightharpoonup> string list" where
  "allowed_transitions = map_of
     [(''RESERVED'', [''LAUNCHING'', ''LAUNCH_FAILED'', ''HOLD'']),
      (''LAUNCHING'', [''RUNNING'', ''LAUNCH_FAILED'', ''HOLD'']),
      (''RUNNING'', [''RUNNING'', ''COMPLETE'', ''HOLD'']),
      (''COMPLETE'', [''COMPLETE'']), (''HOLD'', [''HOLD'']), (''LAUNCH_FAILED'', [''LAUNCH_FAILED''])]"

definition FINAL_ATTEMPT_STATES :: "string list" where
  "FINAL_ATTEMPT_STATES = [''COMPLETE'', ''HOLD'', ''LAUNCH_FAILED'']"

definition validate_transition_request :: "transition_request \<Rightarrow> unit res" where
  "validate_transition_request q =
     guarded [(\<not> SESSION (tn_attempt_id q) \<or> tn_token q = [] \<or> tn_expected_version q \<le> 0 \<or>
               tn_new_state q \<notin> set ATTEMPT_STATES, registry_error ''EXECUTOR_ATTEMPT_INVALID''),
              (leaks (tn_token q) (durable_inputs q), registry_error ''EXECUTOR_PRIVATE_VALUE_REJECTED''),
              (ack_timestamp (tn_now q) = None, registry_error ''EXECUTOR_ATTEMPT_INVALID'')] (Inr ())"

definition timestamp_regresses :: "string \<Rightarrow> string \<Rightarrow> bool" where
  "timestamp_regresses now prior =
     (case (ack_timestamp prior, ack_timestamp now) of (Some p, Some n) \<Rightarrow> n < p | _ \<Rightarrow> False)"

definition or_else :: "'a option \<Rightarrow> 'a option \<Rightarrow> 'a option" where
  "or_else new old = (case new of None \<Rightarrow> old | Some _ \<Rightarrow> new)"

definition effective_process_id :: "transition_request \<Rightarrow> attempt_row \<Rightarrow> int option" where
  "effective_process_id q r =
     (if tn_new_state q = ''RUNNING'' then or_else (tn_process_id q) (at_process_id r) else at_process_id r)"

definition moved_attempt :: "transition_request \<Rightarrow> attempt_row \<Rightarrow> attempt_row" where
  "moved_attempt q r =
     r\<lparr>at_state := tn_new_state q, at_process_id := effective_process_id q r, at_exit_code := tn_exit_code q,
       at_systemd_unit := or_else (tn_systemd_unit q) (at_systemd_unit r),
       at_systemd_invocation_id := or_else (tn_systemd_invocation_id q) (at_systemd_invocation_id r),
       at_systemd_control_group := or_else (tn_systemd_control_group q) (at_systemd_control_group r),
       at_heartbeat_at := tn_now q,
       at_terminal_progress_sha256 := or_else (tn_terminal_progress_sha256 q) (at_terminal_progress_sha256 r),
       at_version := tn_expected_version q + 1, at_updated_at := tn_now q, at_last_error := effective_last_error q\<rparr>"

text \<open>The checks from the row found to the launch identity, on the row as it would be.\<close>

definition check_row :: "transition_request \<Rightarrow> attempt_row \<Rightarrow> unit res" where
  "check_row q r =
     guarded [(at_token_sha256 r \<noteq> sha256_hex (tn_token q), registry_error ''EXECUTOR_TOKEN_MISMATCH''),
              (leaks (tn_token q) (attempt_texts r), registry_error ''EXECUTOR_PRIVATE_VALUE_REJECTED''),
              (at_version r \<noteq> tn_expected_version q, registry_error ''EXECUTOR_ATTEMPT_VERSION_CONFLICT''),
              (ack_timestamp (at_updated_at r) = None, registry_error ''EXECUTOR_ATTEMPT_INVALID''),
              (timestamp_regresses (tn_now q) (at_updated_at r), registry_error ''EXECUTOR_ATTEMPT_TIMESTAMP_REGRESSION'')]
     (require_some KeyError (allowed_transitions (at_state r)) (\<lambda>allowed.
      guarded [(tn_new_state q \<notin> set allowed, registry_error ''EXECUTOR_ATTEMPT_STATE_CONFLICT''),
               (tn_terminal_progress_sha256 q \<noteq> None \<and>
                (tn_new_state q \<notin> set FINAL_ATTEMPT_STATES \<or> \<not> SHA256 (the (tn_terminal_progress_sha256 q))),
                registry_error ''EXECUTOR_TARGET_PROGRESS_INVALID''),
               (at_terminal_progress_sha256 r \<noteq> None \<and> tn_terminal_progress_sha256 q \<noteq> None \<and>
                tn_terminal_progress_sha256 q \<noteq> at_terminal_progress_sha256 r,
                registry_error ''EXECUTOR_TARGET_PROGRESS_CONFLICT'')] (Inr ())))"

definition launch_identity :: "string \<Rightarrow> attempt_row \<Rightarrow> bool" where
  "launch_identity unit r \<longleftrightarrow> at_systemd_unit r = Some unit \<and>
     (case at_systemd_invocation_id r of None \<Rightarrow> False | Some i \<Rightarrow> SYSTEMD_INVOCATION_ID i) \<and>
     (case at_systemd_control_group r of None \<Rightarrow> False | Some c \<Rightarrow> control_group_of_unit c unit)"

definition check_launch :: "transition_request \<Rightarrow> attempt_row \<Rightarrow> unit res" where
  "check_launch q r =
     (if tn_new_state q = ''LAUNCHING''
      then guarded [(at_state r \<noteq> ''RESERVED'', registry_error ''EXECUTOR_LAUNCH_IDENTITY_INVALID'')]
        (bind_res (stable_systemd_unit (at_role r) (at_target_kind r) (at_target_key r)) (\<lambda>unit.
         guarded [(\<not> launch_identity unit (moved_attempt q r) \<or> tn_process_id q \<noteq> None,
                   registry_error ''EXECUTOR_LAUNCH_IDENTITY_INVALID'')] (Inr ())))
      else Inr ())"

definition same_launch :: "attempt_row \<Rightarrow> attempt_row \<Rightarrow> bool" where
  "same_launch q r \<longleftrightarrow> at_systemd_unit q = at_systemd_unit r \<and>
     at_systemd_invocation_id q = at_systemd_invocation_id r \<and> at_systemd_control_group q = at_systemd_control_group r"

definition check_launch_kept :: "transition_request \<Rightarrow> attempt_row \<Rightarrow> unit res" where
  "check_launch_kept q r =
     guarded [(at_state r \<in> {''LAUNCHING'', ''RUNNING''} \<and> \<not> same_launch (moved_attempt q r) r,
               registry_error ''EXECUTOR_LAUNCH_IDENTITY_CONFLICT'')] (Inr ())"

text \<open>A finished attempt accepts only the exact repetition of its last transition.\<close>

definition replays :: "transition_request \<Rightarrow> attempt_row \<Rightarrow> bool" where
  "replays q r \<longleftrightarrow> tn_now q = at_updated_at r \<and> tn_process_id q = at_process_id r \<and>
     tn_systemd_unit q = at_systemd_unit r \<and> tn_systemd_invocation_id q = at_systemd_invocation_id r \<and>
     tn_systemd_control_group q = at_systemd_control_group r \<and> tn_exit_code q = at_exit_code r \<and>
     effective_last_error q = at_last_error r \<and> tn_terminal_progress_sha256 q = at_terminal_progress_sha256 r"

definition check_process :: "transition_request \<Rightarrow> attempt_row \<Rightarrow> unit res" where
  "check_process q r =
     (let pid = effective_process_id q r in
      guarded [(if tn_new_state q = ''RUNNING''
                then (at_state r = ''LAUNCHING'' \<and> (case pid of None \<Rightarrow> True | Some p \<Rightarrow> p \<le> 0)) \<or>
                     (at_state r = ''RUNNING'' \<and> pid \<noteq> at_process_id r)
                else tn_process_id q \<noteq> None, registry_error ''EXECUTOR_PROCESS_ID_INVALID'')] (Inr ()))"

definition transition_evidence :: "transition_request \<Rightarrow> attempt_row \<Rightarrow> pyval option" where
  "transition_evidence q r =
     (let moved = moved_attempt q r in
      if tn_new_state q = ''LAUNCHING''
      then Some (PDict [(''systemd_unit'', py_text (at_systemd_unit moved)),
             (''systemd_invocation_id'', py_text (at_systemd_invocation_id moved)),
             (''systemd_control_group'', py_text (at_systemd_control_group moved))])
      else if tn_terminal_progress_sha256 q \<noteq> None
      then Some (PDict [(''target_progress_sha256'', py_text (at_target_progress_sha256 r)),
             (''terminal_progress_sha256'', py_text (tn_terminal_progress_sha256 q))])
      else None)"

definition write_transition :: "transition_request \<Rightarrow> attempt_row \<Rightarrow> db \<Rightarrow> (db \<times> attempt_row) res" where
  "write_transition q r d =
     bind_res (update_attempts (\<lambda>x. at_attempt_id x = tn_attempt_id q \<and> at_version x = tn_expected_version q)
        (\<lambda>_. moved_attempt q r) d) (\<lambda>(d', count).
      guarded [(count \<noteq> 1, registry_error ''EXECUTOR_ATTEMPT_VERSION_CONFLICT'')]
       (Inr (insert_attempt_event (tn_attempt_id q) (Some (at_state r)) (tn_new_state q) (Some (tn_expected_version q))
          (tn_expected_version q + 1) (effective_last_error q) (transition_evidence q r) (tn_now q) d',
        moved_attempt q r)))"

definition transition_attempt :: "db \<Rightarrow> transition_request \<Rightarrow> (db \<times> attempt_row) res" where
  "transition_attempt d0 q =
     bind_res (validate_transition_request q) (\<lambda>_.
     (let d = ensure_executor_registry_schema d0 in
      guarded [(\<not> attempt_schema_is_current d, registry_error ''EXECUTOR_ATTEMPT_SCHEMA_MIGRATION_REQUIRED'')]
      (require_some (registry_error ''EXECUTOR_ATTEMPT_NOT_FOUND'') (attempt_by_id d (tn_attempt_id q)) (\<lambda>r.
       bind_res (check_row q r) (\<lambda>_.
       bind_res (check_launch q r) (\<lambda>_.
       bind_res (check_launch_kept q r) (\<lambda>_.
       if at_state r \<in> set FINAL_ATTEMPT_STATES
       then guarded [(\<not> replays q r, registry_error ''EXECUTOR_ATTEMPT_STATE_CONFLICT'')] (Inr (d, r))
       else bind_res (check_process q r) (\<lambda>_. write_transition q r d))))))))"

subsection \<open>Recovery\<close>

definition broker_owns :: "db \<Rightarrow> string \<Rightarrow> bool" where
  "broker_owns d attempt_id \<longleftrightarrow> table_installed d ''role_executor_broker_runs'' \<and>
     (\<exists>b \<in> set (role_executor_broker_runs d). br_attempt_id b = attempt_id \<and>
        br_state b \<in> {''PREPARING'', ''LAUNCHING'', ''RUNNING''})"

definition stale_attempts :: "string list \<Rightarrow> db \<Rightarrow> string \<Rightarrow> attempt_row list" where
  "stale_attempts states d before =
     sort_key at_created_at (filter (\<lambda>r. at_state r \<in> set states \<and> at_heartbeat_at r < before \<and>
       \<not> broker_owns d (at_attempt_id r)) (executor_attempts d))"

definition fail_reserved :: "string \<Rightarrow> attempt_row \<Rightarrow> db \<times> string list \<Rightarrow> (db \<times> string list) res" where
  "fail_reserved now row s =
     bind_res (update_attempts (\<lambda>r. at_attempt_id r = at_attempt_id row \<and> at_state r = ''RESERVED'' \<and> at_version r = at_version row)
        (\<lambda>r. r\<lparr>at_state := ''LAUNCH_FAILED'', at_version := at_version r + 1, at_updated_at := now,
               at_last_error := Some ''RECOVERED_RESERVED_LAUNCH_FAILURE''\<rparr>) (fst s)) (\<lambda>(d, count).
      Inr (if count = 1
           then (insert_attempt_event (at_attempt_id row) (Some ''RESERVED'') ''LAUNCH_FAILED'' (Some (at_version row))
                   (at_version row + 1) (Some ''RECOVERED_RESERVED_LAUNCH_FAILURE'') None now d,
                 snd s @ [at_attempt_id row])
           else (d, snd s)))"

definition recover_reserved_attempts :: "db \<Rightarrow> string \<Rightarrow> string \<Rightarrow> (db \<times> string list) res" where
  "recover_reserved_attempts d0 before now =
     (let d = ensure_executor_registry_schema d0 in
      guarded [(\<not> attempt_schema_is_current d, registry_error ''EXECUTOR_ATTEMPT_SCHEMA_MIGRATION_REQUIRED'')]
        (fold_res (fail_reserved now) (stale_attempts [''RESERVED''] d before) (d, [])))"

text \<open>
  A result of the stale recovery: attempt, phase, and the error or the state. \<open>screen_stale\<close> is what is
  checked before the transaction, on the row as it was read; \<open>recover_stale\<close> is the transaction.
\<close>

type_synonym stale_result = "string \<times> string \<times> string"

definition column_text :: "string option \<Rightarrow> string" where
  "column_text x = (case x of None \<Rightarrow> [] | Some s \<Rightarrow> s)"

definition screen_stale ::
  "(string \<Rightarrow> systemd_unit_evidence option) \<Rightarrow> attempt_row \<Rightarrow> (string + systemd_unit_evidence) res" where
  "screen_stale evidence_reader c =
     (let unit = column_text (at_systemd_unit c); invocation_id = column_text (at_systemd_invocation_id c);
          control_group = column_text (at_systemd_control_group c) in
      bind_res (stable_systemd_unit (at_role c) (at_target_kind c) (at_target_key c)) (\<lambda>expected_unit.
      Inr (if unit \<noteq> expected_unit \<or> \<not> SYSTEMD_INVOCATION_ID invocation_id \<or> \<not> control_group_of_unit control_group unit
           then Inl ''STALE_RECOVERY_STORED_IDENTITY_INVALID''
           else case evidence_reader unit of
               None \<Rightarrow> Inl ''STALE_RECOVERY_SYSTEMD_EVIDENCE_FAILED''
             | Some e \<Rightarrow>
                 if su_unit e \<noteq> unit \<or> su_invocation_id e \<noteq> invocation_id \<or> su_control_group e \<noteq> control_group
                 then Inl ''STALE_RECOVERY_SYSTEMD_IDENTITY_MISMATCH''
                 else if su_load_state e \<noteq> ''loaded'' \<or> su_active_state e \<noteq> ''inactive'' \<or> su_sub_state e \<noteq> ''dead'' \<or>
                   su_result e \<notin> set [''success'', ''exit-code'', ''signal'', ''core-dump'', ''watchdog'', ''timeout'',
                     ''resources'', ''protocol'']
                 then Inl ''STALE_RECOVERY_SYSTEMD_NOT_PROVEN_INACTIVE''
                 else Inr e)))"

definition events_of :: "db \<Rightarrow> string \<Rightarrow> attempt_event_row list" where
  "events_of d attempt_id = filter (\<lambda>e. ae_attempt_id e = attempt_id) (executor_attempt_events d)"

definition launch_evidence :: "attempt_row \<Rightarrow> pyval" where
  "launch_evidence c =
     PDict [(''systemd_control_group'', PStr (column_text (at_systemd_control_group c))),
       (''systemd_invocation_id'', PStr (column_text (at_systemd_invocation_id c))),
       (''systemd_unit'', PStr (column_text (at_systemd_unit c)))]"

definition history_incomplete :: "db \<Rightarrow> attempt_row \<Rightarrow> attempt_row \<Rightarrow> bool" where
  "history_incomplete d candidate current =
     ((case rev (events_of d (at_attempt_id candidate)) of
         [] \<Rightarrow> True
       | e # _ \<Rightarrow> ae_to_state e \<noteq> at_state current \<or> ae_to_version e \<noteq> at_version current) \<or>
      (case rev (filter (\<lambda>e. ae_to_state e = ''LAUNCHING'') (events_of d (at_attempt_id candidate))) of
         [] \<Rightarrow> True
       | e # _ \<Rightarrow> \<not> same_json_text (ae_evidence_json e) (launch_evidence candidate)))"

definition attempt_moved_on :: "string \<Rightarrow> attempt_row \<Rightarrow> attempt_row option \<Rightarrow> bool" where
  "attempt_moved_on before candidate current =
     (case current of None \<Rightarrow> True | Some r \<Rightarrow>
        at_state r \<noteq> at_state candidate \<or> at_version r \<noteq> at_version candidate \<or>
        at_heartbeat_at r \<noteq> at_heartbeat_at candidate \<or> before \<le> at_heartbeat_at r \<or>
        at_systemd_unit r \<noteq> Some (column_text (at_systemd_unit candidate)) \<or>
        at_systemd_invocation_id r \<noteq> Some (column_text (at_systemd_invocation_id candidate)) \<or>
        at_systemd_control_group r \<noteq> Some (column_text (at_systemd_control_group candidate)))"

definition held :: "string \<Rightarrow> attempt_row \<Rightarrow> attempt_row" where
  "held now r = r\<lparr>at_state := ''HOLD'', at_version := at_version r + 1, at_updated_at := now,
     at_last_error := Some ''RECOVERED_STALE_ACTIVE_SYSTEMD_INACTIVE''\<rparr>"

definition recover_stale ::
  "string \<Rightarrow> string \<Rightarrow> attempt_row \<Rightarrow> systemd_unit_evidence \<Rightarrow> db \<Rightarrow> (db \<times> stale_result) res" where
  "recover_stale before now c evidence d =
     (let attempt_id = at_attempt_id c; hold = (\<lambda>e. Inr (d, (attempt_id, ''HOLD'', e))) in
      if broker_owns d attempt_id then hold ''STALE_RECOVERY_BROKER_OWNS_ATTEMPT''
      else if attempt_moved_on before c (attempt_by_id d attempt_id) then hold ''STALE_RECOVERY_ATTEMPT_CAS_CONFLICT''
      else if history_incomplete d c (the (attempt_by_id d attempt_id)) then hold ''STALE_RECOVERY_EVENT_HISTORY_INCOMPLETE''
      else bind_res (update_attempts (\<lambda>r. at_attempt_id r = attempt_id \<and> at_state r = at_state c \<and>
                at_version r = at_version c \<and> at_heartbeat_at r = at_heartbeat_at c)
              (held now) d) (\<lambda>(d', count).
           guarded [(count \<noteq> 1, registry_error ''EXECUTOR_ATTEMPT_VERSION_CONFLICT'')]
           (Inr (insert_attempt_event attempt_id (Some (at_state c)) ''HOLD'' (Some (at_version c)) (at_version c + 1)
                   (Some ''RECOVERED_STALE_ACTIVE_SYSTEMD_INACTIVE'') (Some (evidence_payload evidence)) now d',
                 (attempt_id, ''RECOVERED'', ''HOLD'')))))"

definition recover_stale_candidate ::
  "(string \<Rightarrow> systemd_unit_evidence option) \<Rightarrow> string \<Rightarrow> string \<Rightarrow> attempt_row \<Rightarrow>
     db \<times> stale_result list \<Rightarrow> (db \<times> stale_result list) res" where
  "recover_stale_candidate evidence_reader before now c s =
     bind_res (screen_stale evidence_reader c) (\<lambda>x.
       case x of
         Inl error \<Rightarrow> Inr (fst s, snd s @ [(at_attempt_id c, ''HOLD'', error)])
       | Inr evidence \<Rightarrow>
           bind_res (recover_stale before now c evidence (fst s)) (\<lambda>(d, result). Inr (d, snd s @ [result])))"

definition recover_stale_active_attempts ::
  "(string \<Rightarrow> systemd_unit_evidence option) \<Rightarrow> db \<Rightarrow> string \<Rightarrow> string \<Rightarrow> (db \<times> stale_result list) res" where
  "recover_stale_active_attempts evidence_reader d0 before now =
     (let d = ensure_executor_registry_schema d0 in
      guarded [(\<not> attempt_schema_is_current d, registry_error ''EXECUTOR_ATTEMPT_SCHEMA_MIGRATION_REQUIRED'')]
        (fold_res (recover_stale_candidate evidence_reader before now)
           (stale_attempts [''LAUNCHING'', ''RUNNING''] d before) (d, [])))"


end
