(* ===== verification/Attempt_Invariant.thy ===== *)
theory Attempt_Invariant
  imports Executor_Attempts
begin

section \<open>What executor attempts promise\<close>

text \<open>
  The invariant of the attempt tables: keys are unique, no two active attempts share a target, a lineage
  or, for planners, a repository, a launched attempt carries the identity of its unit, and the events of
  an attempt are a gapless history of it. Every operation keeps it; an attempt keeps its identity, and a
  finished one never changes again.
\<close>

subsection \<open>The invariant\<close>

definition attempt_moves :: "string \<Rightarrow> string \<Rightarrow> bool" where
  "attempt_moves s t \<longleftrightarrow> s \<in> set ACTIVE_ATTEMPT_STATES \<and> (\<exists>ts. allowed_transitions s = Some ts \<and> t \<in> set ts)"

text \<open>The events of one attempt, newest first.\<close>

fun linked :: "attempt_event_row list \<Rightarrow> bool" where
  "linked [] = False"
| "linked [e] = (ae_from_state e = None \<and> ae_from_version e = None \<and> ae_to_state e = ''RESERVED'' \<and> ae_to_version e = 1)"
| "linked (e # p # es) =
     (ae_from_state e = Some (ae_to_state p) \<and> ae_from_version e = Some (ae_to_version p) \<and>
      ae_to_version e = ae_to_version p + 1 \<and> attempt_moves (ae_to_state p) (ae_to_state e) \<and> linked (p # es))"

definition launched :: "string \<Rightarrow> bool" where
  "launched s \<longleftrightarrow> s = ''LAUNCHING'' \<or> s = ''RUNNING''"

definition launch_recorded :: "attempt_row \<Rightarrow> attempt_event_row list \<Rightarrow> bool" where
  "launch_recorded r es \<longleftrightarrow>
     (\<exists>u. stable_systemd_unit (at_role r) (at_target_kind r) (at_target_key r) = Inr u \<and> launch_identity u r) \<and>
     (\<exists>e rest v. filter (\<lambda>e. ae_to_state e = ''LAUNCHING'') es = e # rest \<and> ae_evidence_json e = Some v \<and>
        canonical_json v = canonical_json (launch_evidence r))"

definition attempt_history :: "attempt_row \<Rightarrow> attempt_event_row list \<Rightarrow> bool" where
  "attempt_history r es \<longleftrightarrow> linked es \<and> ae_to_state (hd es) = at_state r \<and> ae_to_version (hd es) = at_version r \<and>
     (launched (at_state r) \<longrightarrow> launch_recorded r es)"

definition exclusive_attempts :: "db \<Rightarrow> bool" where
  "exclusive_attempts d \<longleftrightarrow> (\<forall>q \<in> set (executor_attempts d). \<forall>r \<in> set (executor_attempts d).
     at_attempt_id q \<noteq> at_attempt_id r \<longrightarrow> \<not> attempt_conflicts [q] r)"

definition attempts_wf :: "db \<Rightarrow> bool" where
  "attempts_wf d \<longleftrightarrow> distinct (map at_attempt_id (executor_attempts d)) \<and> exclusive_attempts d \<and>
     (\<forall>r \<in> set (executor_attempts d). attempt_check r \<and> at_target_key r \<noteq> [] \<and>
        attempt_history r (rev (events_of d (at_attempt_id r)))) \<and>
     (\<forall>e \<in> set (executor_attempt_events d). ae_attempt_id e \<in> set (map at_attempt_id (executor_attempts d)))"

lemma attempts_wf_cong:
  assumes "executor_attempts e = executor_attempts d" and "executor_attempt_events e = executor_attempt_events d"
  shows "attempts_wf e = attempts_wf d"
  using assms by (simp add: attempts_wf_def exclusive_attempts_def events_of_def)

lemma ensure_schema_tables [simp]:
  "executor_attempts (ensure_executor_registry_schema d) = executor_attempts d"
  "executor_attempt_events (ensure_executor_registry_schema d) = executor_attempt_events d"
  "role_executor_broker_runs (ensure_executor_registry_schema d) = role_executor_broker_runs d"
  by (simp_all add: ensure_executor_registry_schema_def)

lemma attempts_wf_ensure [simp]: "attempts_wf (ensure_executor_registry_schema d) = attempts_wf d"
  by (rule attempts_wf_cong) simp_all

lemma schema_current_ensure [simp]: "attempt_schema_is_current (ensure_executor_registry_schema d)"
  by (auto simp: attempt_schema_is_current_def ensure_executor_registry_schema_def table_installed_def registry_tables_def)

lemma attempts_wfD:
  assumes "attempts_wf d" and "r \<in> set (executor_attempts d)"
  shows "attempt_check r" and "at_target_key r \<noteq> []" and "attempt_history r (rev (events_of d (at_attempt_id r)))"
  using assms by (simp_all add: attempts_wf_def)

lemma attempt_by_id_iff:
  assumes "attempts_wf d"
  shows "attempt_by_id d i = Some r \<longleftrightarrow> r \<in> set (executor_attempts d) \<and> at_attempt_id r = i"
proof
  show "attempt_by_id d i = Some r \<Longrightarrow> r \<in> set (executor_attempts d) \<and> at_attempt_id r = i"
    by (auto simp: attempt_by_id_def dest: find_SomeD)
  assume r: "r \<in> set (executor_attempts d) \<and> at_attempt_id r = i"
  then obtain q where q: "attempt_by_id d i = Some q"
    unfolding attempt_by_id_def by (cases "List.find (\<lambda>r. at_attempt_id r = i) (executor_attempts d)") (auto simp: find_None_iff)
  then have "q \<in> set (executor_attempts d)" "at_attempt_id q = i" by (auto simp: attempt_by_id_def dest: find_SomeD)
  with r assms have "q = r" by (auto simp: attempts_wf_def distinct_map inj_on_def)
  with q show "attempt_by_id d i = Some r" by simp
qed

lemma same_attempt:
  assumes "attempts_wf d" and "q \<in> set (executor_attempts d)" and "r \<in> set (executor_attempts d)"
    and "at_attempt_id q = at_attempt_id r"
  shows "q = r"
  using assms by (auto simp: attempts_wf_def distinct_map inj_on_def)

subsection \<open>One attempt moves\<close>

definition advance_attempt :: "attempt_row \<Rightarrow> attempt_event_row \<Rightarrow> db \<Rightarrow> db" where
  "advance_attempt r' e d =
     d\<lparr>executor_attempts := update_where (\<lambda>x. at_attempt_id x = at_attempt_id r') (\<lambda>_. r') (executor_attempts d),
       executor_attempt_events := executor_attempt_events d @ [e]\<rparr>"

text \<open>What a step of one attempt must be like for the tables to stay well formed.\<close>

definition attempt_step_ok :: "attempt_row \<Rightarrow> attempt_row \<Rightarrow> attempt_event_row \<Rightarrow> bool" where
  "attempt_step_ok r r' e \<longleftrightarrow> \<not> identity_changed r r' \<and> attempt_check r' \<and> attempt_moves (at_state r) (at_state r') \<and>
     at_version r' = at_version r + 1 \<and> ae_attempt_id e = at_attempt_id r \<and> ae_from_state e = Some (at_state r) \<and>
     ae_to_state e = at_state r' \<and> ae_from_version e = Some (at_version r) \<and> ae_to_version e = at_version r' \<and>
     (at_state r' = ''LAUNCHING'' \<longrightarrow> launch_recorded r' [e]) \<and>
     (at_state r' = ''RUNNING'' \<longrightarrow> launched (at_state r) \<and> same_launch r' r)"

lemma identity_kept:
  assumes "\<not> identity_changed r r'"
  shows "at_attempt_id r' = at_attempt_id r" "at_instance_id r' = at_instance_id r" "at_role r' = at_role r"
    "at_target_kind r' = at_target_kind r" "at_target_key r' = at_target_key r"
    "at_repository_scope r' = at_repository_scope r" "at_lineage_sha256 r' = at_lineage_sha256 r"
  using assms by (simp_all add: identity_changed_def attempt_identity_def)

lemma conflict_kept:
  assumes "\<not> identity_changed r r'" and "active_attempt r" and "\<not> attempt_conflicts [q] r"
  shows "\<not> attempt_conflicts [q] r'"
  using assms(2,3) identity_kept [OF assms(1)]
  by (auto simp: attempt_conflicts_def same_target_def same_lineage_def same_planner_scope_def)

lemma conflict_sym: "attempt_conflicts [q] r \<longleftrightarrow> attempt_conflicts [r] q"
proof -
  have "attempt_conflicts [r] q" if "attempt_conflicts [q] r" for q r
    using that unfolding attempt_conflicts_def same_target_def same_lineage_def same_planner_scope_def
    by (simp, metis)
  then show ?thesis by blast
qed

lemma attempt_moves_active: "attempt_moves (at_state r) t \<Longrightarrow> active_attempt r"
  by (simp add: attempt_moves_def active_attempt_def)

lemma launch_recorded_kept:
  assumes "launch_recorded r es" and "same_launch r' r" and "\<not> identity_changed r r'" and "ae_to_state e \<noteq> ''LAUNCHING''"
  shows "launch_recorded r' (e # es)"
  using assms(1,2,4) identity_kept [OF assms(3)]
  by (simp add: launch_recorded_def launch_identity_def same_launch_def launch_evidence_def)

lemma attempt_history_step:
  assumes "attempt_history r es" and "attempt_step_ok r r' e"
  shows "attempt_history r' (e # es)"
proof -
  from assms(1) obtain p ps where es: "es = p # ps" by (cases es) (auto simp: attempt_history_def)
  have "launch_recorded r' (e # es)" if l: "launched (at_state r')"
  proof (cases "at_state r' = ''LAUNCHING''")
    case True
    with assms(2) show ?thesis by (auto simp: attempt_step_ok_def launch_recorded_def)
  next
    case False
    with l have "at_state r' = ''RUNNING''" by (simp add: launched_def)
    with assms show ?thesis
      by (intro launch_recorded_kept [of r]) (auto simp: attempt_step_ok_def attempt_history_def)
  qed
  with assms es show ?thesis by (auto simp: attempt_history_def attempt_step_ok_def)
qed

lemma advance_attempts:
  assumes "attempts_wf d" and "r \<in> set (executor_attempts d)" and "at_attempt_id r' = at_attempt_id r"
  shows "x \<in> set (executor_attempts (advance_attempt r' e d)) \<longleftrightarrow>
    x = r' \<or> (x \<in> set (executor_attempts d) \<and> x \<noteq> r)"
  using assms same_attempt [OF assms(1)] by (auto simp: advance_attempt_def set_update_where image_iff)

lemma advance_ids: "map at_attempt_id (executor_attempts (advance_attempt r' e d)) = map at_attempt_id (executor_attempts d)"
  by (simp add: advance_attempt_def map_update_where)

lemma advance_attempt_wf:
  assumes wf: "attempts_wf d" and r: "r \<in> set (executor_attempts d)" and ok: "attempt_step_ok r r' e"
  shows "attempts_wf (advance_attempt r' e d)"
proof -
  let ?d = "advance_attempt r' e d"
  from ok have kept: "\<not> identity_changed r r'" and active: "active_attempt r" and e: "ae_attempt_id e = at_attempt_id r"
    by (auto simp: attempt_step_ok_def attempt_moves_def active_attempt_def)
  note id = identity_kept [OF kept]
  note mem = advance_attempts [OF wf r id(1)]
  have events: "events_of ?d i = events_of d i @ (if i = at_attempt_id r then [e] else [])" for i
    using e by (simp add: events_of_def advance_attempt_def)
  have "exclusive_attempts ?d"
    unfolding exclusive_attempts_def
  proof (intro ballI impI)
    fix x y assume x: "x \<in> set (executor_attempts ?d)" and y: "y \<in> set (executor_attempts ?d)"
      and ne: "at_attempt_id x \<noteq> at_attempt_id y"
    have old: "\<not> attempt_conflicts [q] r'" if "q \<in> set (executor_attempts d)" "at_attempt_id q \<noteq> at_attempt_id r" for q
      using wf r that by (intro conflict_kept [OF kept active]) (auto simp: attempts_wf_def exclusive_attempts_def)
    show "\<not> attempt_conflicts [x] y"
    proof (cases "x = r' \<or> y = r'")
      case True
      with x y ne old id(1) show ?thesis using mem conflict_sym [of x y] by auto
    next
      case False
      with x y mem ne wf show ?thesis by (auto simp: attempts_wf_def exclusive_attempts_def)
    qed
  qed
  moreover have "attempt_check x \<and> at_target_key x \<noteq> [] \<and> attempt_history x (rev (events_of ?d (at_attempt_id x)))"
    if "x \<in> set (executor_attempts ?d)" for x
  proof (cases "x = r'")
    case True
    with ok attempt_history_step [OF attempts_wfD(3) [OF wf r] ok] attempts_wfD(2) [OF wf r] id show ?thesis
      by (simp add: events attempt_step_ok_def)
  next
    case False
    with that mem have x: "x \<in> set (executor_attempts d)" "x \<noteq> r" by auto
    then have "at_attempt_id x \<noteq> at_attempt_id r" using same_attempt [OF wf] r by blast
    with attempts_wfD [OF wf x(1)] show ?thesis by (simp add: events)
  qed
  moreover have "ae_attempt_id x \<in> set (map at_attempt_id (executor_attempts ?d))"
    if "x \<in> set (executor_attempt_events ?d)" for x
  proof -
    from that have "x = e \<or> x \<in> set (executor_attempt_events d)" by (auto simp: advance_attempt_def)
    with wf r e show ?thesis unfolding advance_ids attempts_wf_def by auto
  qed
  moreover have "distinct (map at_attempt_id (executor_attempts ?d))" using wf by (simp add: advance_ids attempts_wf_def)
  ultimately show ?thesis unfolding attempts_wf_def by blast
qed

subsection \<open>Every operation keeps it\<close>

definition attempt_advances :: "attempt_row \<Rightarrow> attempt_row \<Rightarrow> bool" where
  "attempt_advances r r' \<longleftrightarrow> \<not> identity_changed r r' \<and> at_version r \<le> at_version r' \<and> (\<not> active_attempt r \<longrightarrow> r' = r)"

definition attempts_advance :: "db \<Rightarrow> db \<Rightarrow> bool" where
  "attempts_advance d d' \<longleftrightarrow>
     (\<forall>r \<in> set (executor_attempts d). \<exists>r' \<in> set (executor_attempts d'). attempt_advances r r')"

lemma attempt_advances_refl [simp]: "attempt_advances r r"
  by (simp add: attempt_advances_def identity_changed_def set_once_def)

lemma set_once_trans: "set_once a b \<Longrightarrow> set_once b c \<Longrightarrow> set_once a c"
  by (auto simp: set_once_def)

lemma identity_changed_trans: "\<not> identity_changed a b \<Longrightarrow> \<not> identity_changed b c \<Longrightarrow> \<not> identity_changed a c"
  unfolding identity_changed_def de_Morgan_disj not_not by (metis set_once_trans)

lemma attempt_advances_trans: "attempt_advances a b \<Longrightarrow> attempt_advances b c \<Longrightarrow> attempt_advances a c"
  unfolding attempt_advances_def by (metis identity_changed_trans order_trans)

lemma attempts_advance_trans: "attempts_advance d e \<Longrightarrow> attempts_advance e f \<Longrightarrow> attempts_advance d f"
  unfolding attempts_advance_def by (meson attempt_advances_trans)

lemma attempts_advance_subset:
  "set (executor_attempts d) \<subseteq> set (executor_attempts e) \<Longrightarrow> attempts_advance d e"
  unfolding attempts_advance_def by (meson attempt_advances_refl subsetD)

lemma advance_attempt_advances:
  assumes "attempts_wf d" and "r \<in> set (executor_attempts d)" and "attempt_step_ok r r' e"
  shows "attempts_advance d (advance_attempt r' e d)"
proof -
  from assms(3) have k: "\<not> identity_changed r r'" and a: "attempt_advances r r'"
    by (auto simp: attempt_step_ok_def attempt_advances_def dest: attempt_moves_active)
  note mem = advance_attempts [OF assms(1,2) identity_kept(1) [OF k]]
  have "\<exists>x' \<in> set (executor_attempts (advance_attempt r' e d)). attempt_advances x x'"
    if "x \<in> set (executor_attempts d)" for x
  proof (cases "x = r")
    case True
    with a mem [of r' e] show ?thesis by auto
  next
    case False
    with that have "x \<in> set (executor_attempts (advance_attempt r' e d))" using mem [of x e] by simp
    then show ?thesis using attempt_advances_refl by blast
  qed
  then show ?thesis by (simp add: attempts_advance_def)
qed

lemma update_attempts_Inr:
  assumes "update_attempts p f d = Inr (d', n)"
  shows "d' = d\<lparr>executor_attempts := update_where p f (executor_attempts d)\<rparr>"
    and "n = length (filter p (executor_attempts d))"
    and "r \<in> set (executor_attempts d) \<Longrightarrow> p r \<Longrightarrow> \<not> identity_changed r (f r) \<and> attempt_check (f r)"
  using assms by (auto simp: update_attempts_def Let_def guard_simps)

lemma filter_the_one: "distinct xs \<Longrightarrow> x \<in> set xs \<Longrightarrow> filter (\<lambda>y. y = x) xs = [x]"
  by (induction xs) (auto simp: filter_empty_conv)

text \<open>A condition that names the attempt and holds of it selects exactly its row.\<close>

lemma update_one:
  assumes "attempts_wf d" and "r \<in> set (executor_attempts d)" and "p r" and "\<And>x. p x \<Longrightarrow> at_attempt_id x = at_attempt_id r"
  shows "update_where p f (executor_attempts d) =
      update_where (\<lambda>x. at_attempt_id x = at_attempt_id r) (\<lambda>_. f r) (executor_attempts d)"
    and "filter p (executor_attempts d) = [r]"
proof -
  have i: "at_attempt_id x = at_attempt_id r \<longleftrightarrow> x = r" if "x \<in> set (executor_attempts d)" for x
    using same_attempt [OF assms(1) that assms(2)] by (rule iffI) (assumption, rule arg_cong)
  have p: "p x \<longleftrightarrow> x = r" if "x \<in> set (executor_attempts d)" for x
    using i [OF that] assms(3) assms(4) [of x] by metis
  show "update_where p f (executor_attempts d) =
      update_where (\<lambda>x. at_attempt_id x = at_attempt_id r) (\<lambda>_. f r) (executor_attempts d)"
    unfolding update_where_def by (rule map_cong [OF refl]) (simp only: p i split: if_split, simp)
  have "distinct (executor_attempts d)" using assms(1) by (simp add: attempts_wf_def distinct_map)
  then have "filter (\<lambda>x. x = r) (executor_attempts d) = [r]" using assms(2) by (rule filter_the_one)
  moreover have "filter p (executor_attempts d) = filter (\<lambda>x. x = r) (executor_attempts d)"
    by (rule filter_cong [OF refl]) (rule p)
  ultimately show "filter p (executor_attempts d) = [r]" by simp
qed

lemma not_final_moves:
  assumes "allowed_transitions s = Some ts" and "s \<notin> set FINAL_ATTEMPT_STATES" and "t \<in> set ts"
  shows "attempt_moves s t"
proof -
  from assms(1,2) have "s \<in> set ACTIVE_ATTEMPT_STATES"
    by (auto simp: allowed_transitions_def FINAL_ATTEMPT_STATES_def ACTIVE_ATTEMPT_STATES_def split: if_splits)
  with assms(1,3) show ?thesis by (auto simp: attempt_moves_def)
qed

lemma moves_to_running: "attempt_moves s ''RUNNING'' \<Longrightarrow> launched s"
  by (auto simp: attempt_moves_def ACTIVE_ATTEMPT_STATES_def allowed_transitions_def launched_def)

lemma launch_evidence_written:
  assumes "launch_identity u (moved_attempt q r)"
  shows "\<exists>v. Some (PDict [(''systemd_unit'', py_text (at_systemd_unit (moved_attempt q r))),
      (''systemd_invocation_id'', py_text (at_systemd_invocation_id (moved_attempt q r))),
      (''systemd_control_group'', py_text (at_systemd_control_group (moved_attempt q r)))]) = Some v \<and>
    canonical_json v = canonical_json (launch_evidence (moved_attempt q r))"
proof -
  let ?m = "moved_attempt q r"
  from assms obtain i c where l: "at_systemd_unit ?m = Some u" "at_systemd_invocation_id ?m = Some i"
    "at_systemd_control_group ?m = Some c" by (auto simp: launch_identity_def split: option.splits)
  have "canonical_json (PDict [(''systemd_unit'', PStr u), (''systemd_invocation_id'', PStr i),
      (''systemd_control_group'', PStr c)]) =
    canonical_json (PDict [(''systemd_control_group'', PStr c), (''systemd_invocation_id'', PStr i),
      (''systemd_unit'', PStr u)])"
    by (rule canonical_json_dict_order) auto
  with l show ?thesis by (simp add: py_text_def launch_evidence_def column_text_def)
qed


lemma check_row_Inr:
  assumes "check_row q r = Inr ()"
  shows "at_token_sha256 r = sha256_hex (tn_token q)" and "\<not> leaks (tn_token q) (attempt_texts r)"
    and "at_version r = tn_expected_version q"
    and "\<exists>ts. allowed_transitions (at_state r) = Some ts \<and> tn_new_state q \<in> set ts"
    and "\<not> timestamp_regresses (tn_now q) (at_updated_at r)"
  using assms by (auto simp: check_row_def guard_simps)

lemma transition_attempt_Inr:
  assumes "transition_attempt d0 q = Inr (d', r')"
  obtains r where "attempt_by_id d0 (tn_attempt_id q) = Some r" "validate_transition_request q = Inr ()" "check_row q r = Inr ()"
    "at_state r \<in> set FINAL_ATTEMPT_STATES" "d' = ensure_executor_registry_schema d0" "r' = r"
  | r where "attempt_by_id d0 (tn_attempt_id q) = Some r" "validate_transition_request q = Inr ()" "check_row q r = Inr ()"
    "at_state r \<notin> set FINAL_ATTEMPT_STATES" "check_launch q r = Inr ()" "check_launch_kept q r = Inr ()"
    "write_transition q r (ensure_executor_registry_schema d0) = Inr (d', r')"
proof -
  let ?d = "ensure_executor_registry_schema d0"
  have same: "attempt_by_id ?d i = attempt_by_id d0 i" for i by (simp add: attempt_by_id_def)
  from assms obtain r where r: "attempt_by_id d0 (tn_attempt_id q) = Some r" "validate_transition_request q = Inr ()"
    "check_row q r = Inr ()" "check_launch q r = Inr ()" "check_launch_kept q r = Inr ()"
    and fin: "(if at_state r \<in> set FINAL_ATTEMPT_STATES
       then guarded [(\<not> replays q r, registry_error ''EXECUTOR_ATTEMPT_STATE_CONFLICT'')] (Inr (?d, r))
       else bind_res (check_process q r) (\<lambda>_. write_transition q r ?d)) = Inr (d', r')"
    by (auto simp: transition_attempt_def Let_def guard_simps same)
  show thesis
  proof (cases "at_state r \<in> set FINAL_ATTEMPT_STATES")
    case True
    with fin have "d' = ?d" "r' = r" by (simp_all add: guard_simps)
    with r True that(1) show thesis by blast
  next
    case False
    with fin have "write_transition q r ?d = Inr (d', r')" by (simp add: guard_simps)
    with r False that(2) show thesis by blast
  qed
qed

definition transition_event :: "transition_request \<Rightarrow> attempt_row \<Rightarrow> attempt_event_row" where
  "transition_event q r =
     \<lparr>ae_attempt_id = tn_attempt_id q, ae_from_state = Some (at_state r), ae_to_state = tn_new_state q,
      ae_from_version = Some (tn_expected_version q), ae_to_version = tn_expected_version q + 1,
      ae_reason = effective_last_error q, ae_evidence_sha256 = map_option digest_json (transition_evidence q r),
      ae_evidence_json = transition_evidence q r, ae_recorded_at = tn_now q\<rparr>"

lemma moved_attempt_fields [simp]:
  "at_state (moved_attempt q r) = tn_new_state q" "at_version (moved_attempt q r) = tn_expected_version q + 1"
  "at_attempt_id (moved_attempt q r) = at_attempt_id r" "at_role (moved_attempt q r) = at_role r"
  "at_target_kind (moved_attempt q r) = at_target_kind r" "at_target_key (moved_attempt q r) = at_target_key r"
  by (simp_all add: moved_attempt_def)

lemma check_launch_Inr:
  assumes "check_launch q r = Inr ()" and "tn_new_state q = ''LAUNCHING''"
  shows "launch_recorded (moved_attempt q r) [transition_event q r]"
proof -
  from assms obtain u where u: "stable_systemd_unit (at_role r) (at_target_kind r) (at_target_key r) = Inr u"
    "launch_identity u (moved_attempt q r)" by (auto simp: check_launch_def guard_simps)
  have "transition_evidence q r = Some (PDict [(''systemd_unit'', py_text (at_systemd_unit (moved_attempt q r))),
      (''systemd_invocation_id'', py_text (at_systemd_invocation_id (moved_attempt q r))),
      (''systemd_control_group'', py_text (at_systemd_control_group (moved_attempt q r)))])"
    by (simp add: transition_evidence_def Let_def assms(2))
  with launch_evidence_written [OF u(2)] u assms(2) show ?thesis
    by (simp add: launch_recorded_def transition_event_def)
qed

lemma write_transition_step:
  assumes wf: "attempts_wf d" and r: "attempt_by_id d (tn_attempt_id q) = Some r" and c: "check_row q r = Inr ()"
    and fin: "at_state r \<notin> set FINAL_ATTEMPT_STATES" and l: "check_launch q r = Inr ()" "check_launch_kept q r = Inr ()"
    and w: "write_transition q r d = Inr (d', r')"
  shows "r' = moved_attempt q r" and "d' = advance_attempt r' (transition_event q r) d"
    and "attempt_step_ok r r' (transition_event q r)"
proof -
  from r wf have mem: "r \<in> set (executor_attempts d)" and id: "at_attempt_id r = tn_attempt_id q"
    by (simp_all add: attempt_by_id_iff)
  let ?p = "\<lambda>x. at_attempt_id x = tn_attempt_id q \<and> at_version x = tn_expected_version q"
  from w obtain d1 n where u: "update_attempts ?p (\<lambda>_. moved_attempt q r) d = Inr (d1, n)"
    and d': "d' = insert_attempt_event (tn_attempt_id q) (Some (at_state r)) (tn_new_state q) (Some (tn_expected_version q))
          (tn_expected_version q + 1) (effective_last_error q) (transition_evidence q r) (tn_now q) d1"
    and r': "r' = moved_attempt q r"
    by (auto simp: write_transition_def guard_simps)
  have p: "?p r" using id check_row_Inr(3) [OF c] by simp
  note one = update_one(1) [OF wf mem, of ?p "\<lambda>_. moved_attempt q r", OF p]
  show "d' = advance_attempt r' (transition_event q r) d"
    using update_attempts_Inr(1) [OF u] one id
    by (simp add: d' r' advance_attempt_def transition_event_def insert_attempt_event_def)
  from check_row_Inr(4) [OF c] fin have moves: "attempt_moves (at_state r) (tn_new_state q)" by (auto intro: not_final_moves)
  have "same_launch (moved_attempt q r) r" if "launched (at_state r)"
    using l(2) that by (auto simp: check_launch_kept_def guard_simps launched_def)
  with moves_to_running moves have "tn_new_state q = ''RUNNING'' \<longrightarrow> launched (at_state r) \<and> same_launch (moved_attempt q r) r"
    by auto
  with update_attempts_Inr(3) [OF u mem p] moves check_row_Inr(3) [OF c] id check_launch_Inr [OF l(1)]
  show "attempt_step_ok r r' (transition_event q r)"
    by (simp add: attempt_step_ok_def r' transition_event_def)
  show "r' = moved_attempt q r" by (rule r')
qed

lemma transition_keeps:
  assumes "attempts_wf d" and "transition_attempt d q = Inr (d', r')"
  shows "attempts_wf d'" and "attempts_advance d d'"
proof -
  let ?d = "ensure_executor_registry_schema d"
  have ens: "attempts_advance d ?d" by (rule attempts_advance_subset) simp
  have wf: "attempts_wf ?d" using assms(1) by simp
  from assms(2) have "attempts_wf d' \<and> attempts_advance d d'"
  proof (cases rule: transition_attempt_Inr)
    case (1 r)
    with wf ens show ?thesis by simp
  next
    case (2 r)
    have r: "attempt_by_id ?d (tn_attempt_id q) = Some r" using 2(1) by (simp add: attempt_by_id_def)
    note s = write_transition_step [OF wf r 2(3-7)]
    have mem: "r \<in> set (executor_attempts ?d)" using r attempt_by_id_iff [OF wf] by blast
    from advance_attempt_wf [OF wf mem s(3)] attempts_advance_trans [OF ens advance_attempt_advances [OF wf mem s(3)]]
    show ?thesis by (simp add: s(2))
  qed
  then show "attempts_wf d'" "attempts_advance d d'" by simp_all
qed


lemma attempts_wf_insert:
  assumes wf: "attempts_wf d" and check: "attempt_check r" and free: "\<not> attempt_conflicts (executor_attempts d) r"
    and key: "at_target_key r \<noteq> []" and new: "at_state r = ''RESERVED''" "at_version r = 1"
    and e: "ae_attempt_id e = at_attempt_id r" "linked [e]"
  shows "attempts_wf (d\<lparr>executor_attempts := executor_attempts d @ [r],
      executor_attempt_events := executor_attempt_events d @ [e]\<rparr>)" (is "attempts_wf ?d")
proof -
  have ids: "at_attempt_id q \<noteq> at_attempt_id r" and cf: "\<not> attempt_conflicts [q] r"
    if "q \<in> set (executor_attempts d)" for q
    using free that by (auto simp: attempt_conflicts_def)
  have old: "\<forall>x \<in> set (executor_attempt_events d). ae_attempt_id x \<in> set (map at_attempt_id (executor_attempts d))"
    using wf unfolding attempts_wf_def by blast
  then have none: "events_of d (at_attempt_id r) = []" using ids by (force simp: events_of_def filter_empty_conv)
  have events: "events_of ?d i = events_of d i @ (if i = at_attempt_id r then [e] else [])" for i
    by (simp add: events_of_def e(1))
  have "attempt_history r [e]" using e(2) new by (simp add: attempt_history_def launched_def)
  then have "attempt_check x \<and> at_target_key x \<noteq> [] \<and> attempt_history x (rev (events_of ?d (at_attempt_id x)))"
    if "x \<in> set (executor_attempts ?d)" for x
    using that attempts_wfD [OF wf, of x] ids [of x] check key none by (auto simp: events)
  moreover have "exclusive_attempts ?d"
    using wf ids cf conflict_sym by (auto simp: exclusive_attempts_def attempts_wf_def)
  moreover have "distinct (map at_attempt_id (executor_attempts ?d))"
    using wf by (auto simp: attempts_wf_def dest: ids)
  ultimately show ?thesis using old e(1) unfolding attempts_wf_def by auto
qed

lemma reserve_guards_Inr:
  assumes "reserve_guards d q lineage scope k = Inr x"
  shows "k = Inr x"
    and "\<not> busy_with (\<lambda>r. at_role r = rq_role q \<and> at_target_kind r = rq_target_kind q \<and> at_target_key r = rq_target_key q) d"
    and "lineage \<noteq> None \<Longrightarrow> \<not> busy_with (\<lambda>r. at_lineage_sha256 r = map_option lineage_sha256 lineage) d"
    and "rq_role q = ''planner'' \<Longrightarrow> scope \<noteq> None \<and> \<not> busy_with (\<lambda>r. at_role r = ''planner'' \<and> at_repository_scope r = scope) d"
    and "\<exists>e. current_endpoint d (rq_role q) = Inr (Some e) \<and> ep_endpoint_id e = rq_endpoint_id q"
  using assms by (auto simp: reserve_guards_def guard_simps)

lemma reserve_attempt_Inr:
  assumes "reserve_attempt precondition d0 q v = Inr (d', r)"
  obtains lineage scope progress where
    "validate_reserve_request q = Inr ()" "precondition (ensure_executor_registry_schema d0) = Inr lineage"
    "reserve_guards (ensure_executor_registry_schema d0) q lineage scope (Inr ()) = Inr ()"
    "r = reserved_attempt q v lineage scope progress"
    "insert_attempt r (ensure_executor_registry_schema d0) =
       Inr ((ensure_executor_registry_schema d0)\<lparr>executor_attempts := executor_attempts d0 @ [r]\<rparr>)"
    "d' = insert_attempt_event (fv_attempt_id v) None ''RESERVED'' None 1 (Some ''ATTEMPT_RESERVED'') None (rq_now q)
       ((ensure_executor_registry_schema d0)\<lparr>executor_attempts := executor_attempts d0 @ [r]\<rparr>)"
proof -
  let ?d = "ensure_executor_registry_schema d0"
  from assms obtain lineage scope progress where a: "validate_reserve_request q = Inr ()" "precondition ?d = Inr lineage"
    and g: "reserve_guards ?d q lineage scope
         (let row = reserved_attempt q v lineage scope progress in
          bind_res (insert_attempt row ?d) (\<lambda>d'.
          Inr (insert_attempt_event (fv_attempt_id v) None ''RESERVED'' None 1 (Some ''ATTEMPT_RESERVED'') None
                 (rq_now q) d', row))) = Inr (d', r)"
    by (auto simp: reserve_attempt_def Let_def guard_simps)
  from reserve_guards_Inr(1) [OF g] obtain d1 where i: "r = reserved_attempt q v lineage scope progress"
    "insert_attempt r ?d = Inr d1"
    "d' = insert_attempt_event (fv_attempt_id v) None ''RESERVED'' None 1 (Some ''ATTEMPT_RESERVED'') None (rq_now q) d1"
    by (auto simp: Let_def guard_simps)
  moreover from i(2) have "d1 = ?d\<lparr>executor_attempts := executor_attempts d0 @ [r]\<rparr>"
    by (simp add: insert_attempt_def guard_simps)
  moreover have "reserve_guards ?d q lineage scope (Inr ()) = Inr ()"
    using g by (auto simp: reserve_guards_def guard_simps)
  ultimately show thesis using a that by blast
qed

lemma reserve_keeps:
  assumes "attempts_wf d" and "reserve_attempt precondition d q v = Inr (d', r)"
  shows "attempts_wf d'" and "attempts_advance d d'"
proof -
  let ?d = "ensure_executor_registry_schema d"
  from assms(2) obtain lineage scope progress where i: "validate_reserve_request q = Inr ()"
    "r = reserved_attempt q v lineage scope progress"
    "insert_attempt r ?d = Inr (?d\<lparr>executor_attempts := executor_attempts d @ [r]\<rparr>)"
    "d' = insert_attempt_event (fv_attempt_id v) None ''RESERVED'' None 1 (Some ''ATTEMPT_RESERVED'') None (rq_now q)
       (?d\<lparr>executor_attempts := executor_attempts d @ [r]\<rparr>)"
    by (rule reserve_attempt_Inr)
  let ?e = "last (executor_attempt_events d')"
  have d': "d' = ?d\<lparr>executor_attempts := executor_attempts ?d @ [r],
      executor_attempt_events := executor_attempt_events ?d @ [?e]\<rparr>"
    by (simp add: i(4) insert_attempt_event_def)
  have "attempts_wf (?d\<lparr>executor_attempts := executor_attempts ?d @ [r],
      executor_attempt_events := executor_attempt_events ?d @ [?e]\<rparr>)"
  proof (rule attempts_wf_insert)
    show "attempt_check r" "\<not> attempt_conflicts (executor_attempts ?d) r"
      using i(3) by (simp_all add: insert_attempt_def guard_simps)
    show "at_target_key r \<noteq> []" using i(1) by (simp add: i(2) reserved_attempt_def validate_reserve_request_def guard_simps)
    show "linked [?e]" "ae_attempt_id ?e = at_attempt_id r"
      by (simp_all add: i(2,4) insert_attempt_event_def reserved_attempt_def)
  qed (use assms(1) in \<open>simp_all add: i(2) reserved_attempt_def\<close>)
  with d' show "attempts_wf d'" by simp
  show "attempts_advance d d'"
    by (rule attempts_advance_subset) (auto simp: i(4) insert_attempt_event_def)
qed

text \<open>The recoveries move rows of their own choice, without a token.\<close>

lemma recovery_step_ok:
  assumes "\<not> identity_changed r r'" and "attempt_check r'" and "attempt_moves (at_state r) (at_state r')"
    and "at_version r' = at_version r + 1" and "at_state r' \<in> {''HOLD'', ''LAUNCH_FAILED''}"
    and "e = \<lparr>ae_attempt_id = at_attempt_id r, ae_from_state = Some (at_state r), ae_to_state = at_state r',
        ae_from_version = Some (at_version r), ae_to_version = at_version r + 1, ae_reason = reason,
        ae_evidence_sha256 = sha, ae_evidence_json = evidence, ae_recorded_at = now\<rparr>"
  shows "attempt_step_ok r r' e"
  using assms by (auto simp: attempt_step_ok_def)

lemma fail_reserved_keeps:
  assumes wf: "attempts_wf (fst s)" and f: "fail_reserved now row s = Inr t"
  shows "attempts_wf (fst t) \<and> attempts_advance (fst s) (fst t)"
proof -
  let ?p = "\<lambda>r. at_attempt_id r = at_attempt_id row \<and> at_state r = ''RESERVED'' \<and> at_version r = at_version row"
  let ?f = "\<lambda>r. r\<lparr>at_state := ''LAUNCH_FAILED'', at_version := at_version r + 1, at_updated_at := now,
               at_last_error := Some ''RECOVERED_RESERVED_LAUNCH_FAILURE''\<rparr>"
  from f obtain d n where u: "update_attempts ?p ?f (fst s) = Inr (d, n)"
    and t: "t = (if n = 1
           then (insert_attempt_event (at_attempt_id row) (Some ''RESERVED'') ''LAUNCH_FAILED'' (Some (at_version row))
                   (at_version row + 1) (Some ''RECOVERED_RESERVED_LAUNCH_FAILURE'') None now d,
                 snd s @ [at_attempt_id row])
           else (d, snd s))"
    by (auto simp: fail_reserved_def guard_simps)
  note U = update_attempts_Inr [OF u]
  show ?thesis
  proof (cases "\<exists>r \<in> set (executor_attempts (fst s)). ?p r")
    case True
    then obtain r where r: "r \<in> set (executor_attempts (fst s))" "?p r" by blast
    have p: "at_attempt_id x = at_attempt_id r" if "?p x" for x using that r(2) by simp
    note one = update_one [OF wf r(1), of ?p, OF r(2) p]
    let ?e = "\<lparr>ae_attempt_id = at_attempt_id r, ae_from_state = Some (at_state r), ae_to_state = at_state (?f r),
        ae_from_version = Some (at_version r), ae_to_version = at_version r + 1,
        ae_reason = Some ''RECOVERED_RESERVED_LAUNCH_FAILURE'', ae_evidence_sha256 = None, ae_evidence_json = None,
        ae_recorded_at = now\<rparr>"
    have "n = 1" using U(2) one(2) by simp
    then have t: "fst t = advance_attempt (?f r) ?e (fst s)"
      using U(1) one(1) [of ?f] r(2) by (simp add: t advance_attempt_def insert_attempt_event_def)
    have "attempt_moves (at_state r) (at_state (?f r))"
      using r(2) by (auto simp: attempt_moves_def ACTIVE_ATTEMPT_STATES_def allowed_transitions_def)
    with U(3) [OF r] have "attempt_step_ok r (?f r) ?e" by (intro recovery_step_ok) simp_all
    with wf r(1) show ?thesis unfolding t by (blast intro: advance_attempt_wf advance_attempt_advances)
  next
    case False
    then have "filter ?p (executor_attempts (fst s)) = []" by (auto simp: filter_empty_conv)
    with U(2) have "n = 0" by simp
    moreover have "update_where ?p ?f (executor_attempts (fst s)) = executor_attempts (fst s)"
      using False by (intro update_where_id) blast
    ultimately have "fst t = fst s" using U(1) by (simp add: t)
    with wf show ?thesis by (simp add: attempts_advance_subset)
  qed
qed


lemma held_fields [simp]:
  "at_state (held now r) = ''HOLD''" "at_version (held now r) = at_version r + 1"
  "at_attempt_id (held now r) = at_attempt_id r"
  by (simp_all add: held_def)

lemma recover_stale_cases:
  assumes wf: "attempts_wf d" and s: "recover_stale before now c evidence d = Inr (d', result)"
    and c: "launched (at_state c)"
  obtains "d' = d" "fst (snd result) = ''HOLD''"
  | r e where "attempt_by_id d (at_attempt_id c) = Some r" "at_state r = at_state c" "d' = advance_attempt (held now r) e d"
    "attempt_step_ok r (held now r) e"
    "result = (at_attempt_id c, ''RECOVERED'', ''HOLD'')"
proof -
  let ?p = "\<lambda>r. at_attempt_id r = at_attempt_id c \<and> at_state r = at_state c \<and>
                at_version r = at_version c \<and> at_heartbeat_at r = at_heartbeat_at c"
  let ?f = "held now"
  show thesis
  proof (cases "broker_owns d (at_attempt_id c) \<or> attempt_moved_on before c (attempt_by_id d (at_attempt_id c)) \<or>
      history_incomplete d c (the (attempt_by_id d (at_attempt_id c)))")
    case True
    with s have "d' = d \<and> fst (snd result) = ''HOLD''" by (auto simp: recover_stale_def Let_def split: if_splits)
    with that(1) show thesis by blast
  next
    case False
    then obtain r where r: "attempt_by_id d (at_attempt_id c) = Some r"
      by (cases "attempt_by_id d (at_attempt_id c)") (auto simp: attempt_moved_on_def)
    then have mem: "r \<in> set (executor_attempts d)" and id: "at_attempt_id r = at_attempt_id c"
      by (simp_all add: attempt_by_id_iff [OF wf])
    from False r id have p: "?p r" by (auto simp: attempt_moved_on_def)
    from False s obtain d1 n where u: "update_attempts ?p ?f d = Inr (d1, n)"
      and d': "d' = insert_attempt_event (at_attempt_id c) (Some (at_state c)) ''HOLD'' (Some (at_version c)) (at_version c + 1)
                   (Some ''RECOVERED_STALE_ACTIVE_SYSTEMD_INACTIVE'') (Some (evidence_payload evidence)) now d1"
      and res: "result = (at_attempt_id c, ''RECOVERED'', ''HOLD'')"
      by (auto simp: recover_stale_def Let_def guard_simps)
    note U = update_attempts_Inr [OF u]
    have only: "at_attempt_id x = at_attempt_id r" if "?p x" for x using that id by simp
    note one = update_one [OF wf mem, of ?p, OF p only]
    let ?e = "\<lparr>ae_attempt_id = at_attempt_id r, ae_from_state = Some (at_state r), ae_to_state = at_state (?f r),
        ae_from_version = Some (at_version r), ae_to_version = at_version r + 1,
        ae_reason = Some ''RECOVERED_STALE_ACTIVE_SYSTEMD_INACTIVE'',
        ae_evidence_sha256 = Some (digest_json (evidence_payload evidence)),
        ae_evidence_json = Some (evidence_payload evidence), ae_recorded_at = now\<rparr>"
    have "d' = advance_attempt (?f r) ?e d"
      using U(1) one(1) [of ?f] p by (simp add: d' advance_attempt_def insert_attempt_event_def)
    moreover have "attempt_moves (at_state r) (at_state (?f r))"
      using p c by (auto simp: attempt_moves_def ACTIVE_ATTEMPT_STATES_def allowed_transitions_def launched_def)
    then have "attempt_step_ok r (?f r) ?e" using U(3) [OF mem p] by (intro recovery_step_ok) simp_all
    ultimately show thesis using that(2) [of r ?e] r p res by blast
  qed
qed

lemma recover_stale_keeps:
  assumes wf: "attempts_wf d" and "recover_stale before now c evidence d = Inr (d', result)" and "launched (at_state c)"
  shows "attempts_wf d' \<and> attempts_advance d d'"
  using assms
proof (cases rule: recover_stale_cases)
  case 1
  with wf show ?thesis by (simp add: attempts_advance_subset)
next
  case (2 r e)
  from 2(1) have "r \<in> set (executor_attempts d)" by (simp add: attempt_by_id_iff [OF wf])
  with 2(3,4) wf show ?thesis by (auto intro: advance_attempt_wf advance_attempt_advances)
qed

lemma recover_candidate_keeps:
  assumes "attempts_wf (fst s)" and "recover_stale_candidate reader before now c s = Inr t" and "launched (at_state c)"
  shows "attempts_wf (fst t) \<and> attempts_advance (fst s) (fst t)"
proof -
  from assms(2) obtain x where x: "(case x of Inl error \<Rightarrow> Inr (fst s, snd s @ [(at_attempt_id c, ''HOLD'', error)])
      | Inr evidence \<Rightarrow> bind_res (recover_stale before now c evidence (fst s)) (\<lambda>(d, result). Inr (d, snd s @ [result]))) = Inr t"
    by (auto simp: recover_stale_candidate_def guard_simps)
  show ?thesis
  proof (cases x)
    case (Inl error)
    with x have "fst t = fst s" by auto
    with assms(1) show ?thesis by (simp add: attempts_advance_subset)
  next
    case (Inr evidence)
    with x obtain d result where "recover_stale before now c evidence (fst s) = Inr (d, result)" "fst t = d"
      by (auto simp: guard_simps)
    with recover_stale_keeps [OF assms(1) _ assms(3)] show ?thesis by blast
  qed
qed

text \<open>A fold of steps that keep the invariant keeps it, and what it relates is transitive.\<close>

lemma fold_keeps:
  assumes "fold_res f xs s = Inr t" and "attempts_wf (fst s)"
    and "\<And>x s t. x \<in> set xs \<Longrightarrow> attempts_wf (fst s) \<Longrightarrow> f x s = Inr t \<Longrightarrow> attempts_wf (fst t) \<and> attempts_advance (fst s) (fst t)"
  shows "attempts_wf (fst t) \<and> attempts_advance (fst s) (fst t)"
proof -
  have "attempts_wf (fst t) \<and> attempts_advance (fst s) (fst t)"
    using assms(1)
  proof (rule fold_res_invariant [where P = "\<lambda>u. attempts_wf (fst u) \<and> attempts_advance (fst s) (fst u)"])
    show "attempts_wf (fst s) \<and> attempts_advance (fst s) (fst s)" using assms(2) by (simp add: attempts_advance_subset)
    show "attempts_wf (fst v) \<and> attempts_advance (fst s) (fst v)"
      if "x \<in> set xs" "attempts_wf (fst u) \<and> attempts_advance (fst s) (fst u)" "f x u = Inr v" for x u v
      using assms(3) [OF that(1) _ that(3)] that(2) attempts_advance_trans by blast
  qed
  then show ?thesis .
qed

lemma recoveries_keep:
  assumes "attempts_wf d"
  shows "recover_reserved_attempts d before now = Inr (d', ids) \<Longrightarrow> attempts_wf d' \<and> attempts_advance d d'"
    and "recover_stale_active_attempts reader d before now = Inr (d', results) \<Longrightarrow> attempts_wf d' \<and> attempts_advance d d'"
proof -
  let ?d = "ensure_executor_registry_schema d"
  have wf: "attempts_wf ?d" and ens: "attempts_advance d ?d"
    using assms by (simp_all add: attempts_advance_subset)
  show "attempts_wf d' \<and> attempts_advance d d'" if "recover_reserved_attempts d before now = Inr (d', ids)"
  proof -
    from that have "fold_res (fail_reserved now) (stale_attempts [''RESERVED''] ?d before) (?d, []) = Inr (d', ids)"
      by (simp add: recover_reserved_attempts_def Let_def guard_simps)
    from fold_keeps [OF this] have "attempts_wf d' \<and> attempts_advance ?d d'" using wf fail_reserved_keeps by simp
    with attempts_advance_trans [OF ens] show ?thesis by blast
  qed
  show "attempts_wf d' \<and> attempts_advance d d'" if "recover_stale_active_attempts reader d before now = Inr (d', results)"
  proof -
    from that have "fold_res (recover_stale_candidate reader before now)
        (stale_attempts [''LAUNCHING'', ''RUNNING''] ?d before) (?d, []) = Inr (d', results)"
      by (simp add: recover_stale_active_attempts_def Let_def guard_simps)
    note fold_keeps [OF this]
    moreover have "launched (at_state c)" if "c \<in> set (stale_attempts [''LAUNCHING'', ''RUNNING''] ?d before)" for c
      using that by (auto simp: stale_attempts_def launched_def)
    ultimately have "attempts_wf d' \<and> attempts_advance ?d d'" using wf recover_candidate_keeps by (metis fst_conv)
    with attempts_advance_trans [OF ens] show ?thesis by blast
  qed
qed


subsection \<open>Runs\<close>

text \<open>
  \<open>RecoverCandidate\<close> is one round of the stale recovery with a row that was read at some earlier time: other
  operations may have been committed since.
\<close>

datatype attempt_op =
    ReserveAttempt "db \<Rightarrow> attempt_lineage option res" reserve_request fresh_values
  | TransitionAttempt transition_request
  | RecoverReserved string string
  | RecoverStale "string \<Rightarrow> systemd_unit_evidence option" string string
  | RecoverCandidate "string \<Rightarrow> systemd_unit_evidence option" string string attempt_row

fun attempt_step :: "attempt_op \<Rightarrow> db \<Rightarrow> db res" where
  "attempt_step (ReserveAttempt precondition q v) d = bind_res (reserve_attempt precondition d q v) (\<lambda>x. Inr (fst x))"
| "attempt_step (TransitionAttempt q) d = bind_res (transition_attempt d q) (\<lambda>x. Inr (fst x))"
| "attempt_step (RecoverReserved before now) d = bind_res (recover_reserved_attempts d before now) (\<lambda>x. Inr (fst x))"
| "attempt_step (RecoverStale reader before now) d =
     bind_res (recover_stale_active_attempts reader d before now) (\<lambda>x. Inr (fst x))"
| "attempt_step (RecoverCandidate reader before now c) d =
     (if launched (at_state c) then bind_res (recover_stale_candidate reader before now c (d, [])) (\<lambda>x. Inr (fst x))
      else Inr d)"

lemma attempt_step_keeps:
  assumes "attempt_step x d = Inr d'" and wf: "attempts_wf d"
  shows "attempts_wf d' \<and> attempts_advance d d'"
proof (cases x)
  case (ReserveAttempt precondition q v)
  with assms(1) obtain r where "reserve_attempt precondition d q v = Inr (d', r)" by (auto simp: guard_simps)
  from reserve_keeps [OF wf this] show ?thesis by blast
next
  case (TransitionAttempt q)
  with assms(1) obtain r where "transition_attempt d q = Inr (d', r)" by (auto simp: guard_simps)
  from transition_keeps [OF wf this] show ?thesis by blast
next
  case (RecoverReserved before now)
  with assms(1) obtain ids where "recover_reserved_attempts d before now = Inr (d', ids)" by (auto simp: guard_simps)
  from recoveries_keep(1) [OF wf this] show ?thesis .
next
  case (RecoverStale reader before now)
  with assms(1) obtain rs where "recover_stale_active_attempts reader d before now = Inr (d', rs)" by (auto simp: guard_simps)
  from recoveries_keep(2) [OF wf this] show ?thesis .
next
  case (RecoverCandidate reader before now c)
  show ?thesis
  proof (cases "launched (at_state c)")
    case True
    with RecoverCandidate assms(1) obtain rs where "recover_stale_candidate reader before now c (d, []) = Inr (d', rs)"
      by (auto simp: guard_simps)
    from recover_candidate_keeps [OF _ this True] wf show ?thesis by simp
  next
    case False
    with RecoverCandidate assms(1) wf show ?thesis by (simp add: attempts_advance_subset)
  qed
qed

lemma attempt_run_keeps:
  assumes "fold_res attempt_step ops d = Inr d'" and "attempts_wf d"
  shows "attempts_wf d' \<and> attempts_advance d d'"
  using assms(1)
proof (rule fold_res_invariant [where P = "\<lambda>e. attempts_wf e \<and> attempts_advance d e"])
  show "attempts_wf d \<and> attempts_advance d d" using assms(2) by (simp add: attempts_advance_subset)
  show "attempts_wf v \<and> attempts_advance d v" if "attempts_wf u \<and> attempts_advance d u" "attempt_step x u = Inr v" for x u v
    using that attempt_step_keeps attempts_advance_trans by blast
qed

text \<open>
  C6: one executor at a time. Over every run of reservations, transitions and recoveries, by whatever
  callers and in whatever order, two different active attempts never work on the same target, never on the
  same delivery lineage, and two active planners never on the same repository; an attempt never changes
  what it was reserved for, its version never decreases, and a finished attempt never changes at all.
\<close>

theorem attempts_exclusive:
  assumes "attempts_wf d" and "fold_res attempt_step ops d = Inr d'"
  shows "attempts_wf d' \<and>
    (\<forall>q \<in> set (executor_attempts d'). \<forall>r \<in> set (executor_attempts d'). q \<noteq> r \<and> active_attempt q \<and> active_attempt r \<longrightarrow>
       \<not> same_target q r \<and> \<not> same_lineage q r \<and> \<not> same_planner_scope q r) \<and>
    (\<forall>r \<in> set (executor_attempts d). \<exists>r' \<in> set (executor_attempts d'). attempt_identity r' = attempt_identity r \<and>
       at_version r \<le> at_version r' \<and> (\<not> active_attempt r \<longrightarrow> r' = r))"
proof -
  from attempt_run_keeps [OF assms(2,1)] have wf: "attempts_wf d'" and adv: "attempts_advance d d'" by blast+
  have "\<not> same_target q r \<and> \<not> same_lineage q r \<and> \<not> same_planner_scope q r"
    if "q \<in> set (executor_attempts d')" "r \<in> set (executor_attempts d')" "q \<noteq> r" "active_attempt q" "active_attempt r" for q r
  proof -
    from that same_attempt [OF wf] have "at_attempt_id q \<noteq> at_attempt_id r" by blast
    with wf that(1,2) have "\<not> attempt_conflicts [q] r" by (auto simp: attempts_wf_def exclusive_attempts_def)
    with that(4,5) show ?thesis by (simp add: attempt_conflicts_def)
  qed
  moreover have "\<exists>r' \<in> set (executor_attempts d'). attempt_identity r' = attempt_identity r \<and>
       at_version r \<le> at_version r' \<and> (\<not> active_attempt r \<longrightarrow> r' = r)" if "r \<in> set (executor_attempts d)" for r
    using adv that unfolding attempts_advance_def attempt_advances_def identity_changed_def by blast
  ultimately show ?thesis using wf by blast
qed

text \<open>
  C23: the log of an attempt is its history. After every run the events of an attempt, in order, begin with
  its reservation under version 1, each continues the state and the version its predecessor left by one step
  the state machine allows, and the last one is the state and version of the row; so no change of an
  attempt goes unrecorded.
\<close>

theorem attempt_history_complete:
  assumes "attempts_wf d" and "fold_res attempt_step ops d = Inr d'" and "r \<in> set (executor_attempts d')"
  shows "\<exists>e es. rev (events_of d' (at_attempt_id r)) = e # es \<and> ae_to_state e = at_state r \<and> ae_to_version e = at_version r \<and>
    linked (e # es) \<and> int (length (e # es)) = at_version r"
proof -
  have count: "int (length es) = ae_to_version (hd es)" if "linked es" for es
    using that by (induction es rule: linked.induct) auto
  from attempt_run_keeps [OF assms(2,1)] have "attempts_wf d'" ..
  from attempts_wfD(3) [OF this assms(3)] have h: "attempt_history r (rev (events_of d' (at_attempt_id r)))" .
  then obtain e es where e: "rev (events_of d' (at_attempt_id r)) = e # es"
    by (cases "rev (events_of d' (at_attempt_id r))") (auto simp: attempt_history_def)
  from h count [of "e # es"] show ?thesis unfolding e by (simp add: attempt_history_def)
qed


subsection \<open>Stale attempts are recovered\<close>

definition proven_inactive :: "attempt_row \<Rightarrow> systemd_unit_evidence \<Rightarrow> bool" where
  "proven_inactive c e \<longleftrightarrow> at_systemd_unit c = Some (su_unit e) \<and> at_systemd_invocation_id c = Some (su_invocation_id e) \<and>
     at_systemd_control_group c = Some (su_control_group e) \<and> su_load_state e = ''loaded'' \<and>
     su_active_state e = ''inactive'' \<and> su_sub_state e = ''dead'' \<and>
     su_result e \<in> set [''success'', ''exit-code'', ''signal'', ''core-dump'', ''watchdog'', ''timeout'', ''resources'', ''protocol'']"

lemma launched_identity:
  assumes "attempts_wf d" and "c \<in> set (executor_attempts d)" and "launched (at_state c)"
  obtains u i g where "stable_systemd_unit (at_role c) (at_target_kind c) (at_target_key c) = Inr u"
    "at_systemd_unit c = Some u" "at_systemd_invocation_id c = Some i" "at_systemd_control_group c = Some g"
    "SYSTEMD_INVOCATION_ID i" "control_group_of_unit g u"
  using attempts_wfD(3) [OF assms(1,2)] assms(3)
  by (auto simp: attempt_history_def launch_recorded_def launch_identity_def split: option.splits)

lemma history_complete:
  assumes "attempts_wf d" and "c \<in> set (executor_attempts d)" and "launched (at_state c)"
  shows "\<not> history_incomplete d c c"
  using attempts_wfD(3) [OF assms(1,2)] assms(3)
  by (cases "rev (events_of d (at_attempt_id c))")
    (auto simp: attempt_history_def launch_recorded_def history_incomplete_def same_json_text_def rev_filter)

lemma held_update:
  assumes wf: "attempts_wf d" and c: "c \<in> set (executor_attempts d)"
    and p: "p c" "\<And>x. p x \<Longrightarrow> at_attempt_id x = at_attempt_id c"
  shows "update_attempts p (held now) d =
    Inr (d\<lparr>executor_attempts := update_where (\<lambda>x. at_attempt_id x = at_attempt_id c) (\<lambda>_. held now c) (executor_attempts d)\<rparr>, 1)"
proof -
  have one: "update_where p f (executor_attempts d) =
      update_where (\<lambda>x. at_attempt_id x = at_attempt_id c) (\<lambda>_. f c) (executor_attempts d)"
    "filter p (executor_attempts d) = [c]" for f
    using update_one [OF wf c, of p] p by blast+
  have "\<not> identity_changed c (held now c)"
    by (simp add: held_def identity_changed_def attempt_identity_def set_once_def)
  moreover have "attempt_check (held now c)"
    using attempts_wfD(1) [OF wf c] by (simp add: held_def attempt_check_def ATTEMPT_STATES_def lineage_columns_def)
  moreover have "\<not> attempt_conflicts (filter (\<lambda>q. at_attempt_id q \<noteq> at_attempt_id c) (executor_attempts d)) (held now c)"
    using wf c by (auto simp: held_def attempt_conflicts_def active_attempt_def ACTIVE_ATTEMPT_STATES_def
        attempts_wf_def exclusive_attempts_def)
  ultimately show ?thesis unfolding update_attempts_def Let_def one by (simp add: guard_eval)
qed

lemma recover_stale_succeeds:
  assumes wf: "attempts_wf d" and c: "c \<in> set (executor_attempts d)" and l: "launched (at_state c)"
    and old: "at_heartbeat_at c < before" and free: "\<not> broker_owns d (at_attempt_id c)"
  shows "\<exists>e. recover_stale before now c evidence d = Inr (advance_attempt (held now c) e d, (at_attempt_id c, ''RECOVERED'', ''HOLD''))"
proof -
  have "attempt_by_id d (at_attempt_id c) = Some c" using attempt_by_id_iff [OF wf] c by blast
  moreover from launched_identity [OF wf c l] obtain u i g where
    "at_systemd_unit c = Some u" "at_systemd_invocation_id c = Some i" "at_systemd_control_group c = Some g" .
  ultimately have "\<not> attempt_moved_on before c (attempt_by_id d (at_attempt_id c))"
    and "the (attempt_by_id d (at_attempt_id c)) = c"
    using old by (simp_all add: attempt_moved_on_def column_text_def not_le)
  moreover let ?p = "\<lambda>r. at_attempt_id r = at_attempt_id c \<and> at_state r = at_state c \<and>
      at_version r = at_version c \<and> at_heartbeat_at r = at_heartbeat_at c"
  have "update_attempts ?p (held now) d =
    Inr (d\<lparr>executor_attempts := update_where (\<lambda>x. at_attempt_id x = at_attempt_id c) (\<lambda>_. held now c) (executor_attempts d)\<rparr>, 1)"
    by (rule held_update [OF wf c]) simp_all
  ultimately show ?thesis
    using free history_complete [OF wf c l]
    by (auto simp add: recover_stale_def Let_def guarded_def advance_attempt_def insert_attempt_event_def intro!: exI)
qed

lemma screen_stale_total:
  assumes "attempts_wf d" and "c \<in> set (executor_attempts d)" and "launched (at_state c)"
  shows "\<exists>x. screen_stale reader c = Inr x"
    and "reader (the (at_systemd_unit c)) = Some e \<Longrightarrow> proven_inactive c e \<Longrightarrow> screen_stale reader c = Inr (Inr e)"
proof -
  from launched_identity [OF assms] obtain u i g where l:
    "stable_systemd_unit (at_role c) (at_target_kind c) (at_target_key c) = Inr u"
    "at_systemd_unit c = Some u" "at_systemd_invocation_id c = Some i" "at_systemd_control_group c = Some g"
    "SYSTEMD_INVOCATION_ID i" "control_group_of_unit g u" .
  then show "\<exists>x. screen_stale reader c = Inr x" by (simp add: screen_stale_def Let_def)
  show "screen_stale reader c = Inr (Inr e)" if "reader (the (at_systemd_unit c)) = Some e" "proven_inactive c e"
    using l that by (simp add: screen_stale_def column_text_def proven_inactive_def)
qed

text \<open>One round on a row that is still current: it never raises, and with proof of inactivity it recovers.\<close>

lemma recover_candidate_total:
  assumes wf: "attempts_wf d" and c: "c \<in> set (executor_attempts d)" and l: "launched (at_state c)"
    and old: "at_heartbeat_at c < before" and free: "\<not> broker_owns d (at_attempt_id c)"
  obtains d' res where "recover_stale_candidate reader before now c (d, rs) = Inr (d', rs @ [res])"
    "d' = d \<or> (\<exists>e. d' = advance_attempt (held now c) e d)"
    "\<And>e. reader (the (at_systemd_unit c)) = Some e \<Longrightarrow> proven_inactive c e \<Longrightarrow>
       res = (at_attempt_id c, ''RECOVERED'', ''HOLD'') \<and> held now c \<in> set (executor_attempts d')"
proof -
  from screen_stale_total(1) [OF wf c l] obtain x where x: "screen_stale reader c = Inr x" by blast
  show thesis
  proof (cases x)
    case (Inl error)
    show thesis
    proof (rule that)
      show "recover_stale_candidate reader before now c (d, rs) = Inr (d, rs @ [(at_attempt_id c, ''HOLD'', error)])"
        by (simp add: recover_stale_candidate_def x Inl)
    qed (use screen_stale_total(2) [OF wf c l] x Inl in auto)
  next
    case (Inr e)
    from recover_stale_succeeds [OF wf c l old free] obtain ev where
      r: "recover_stale before now c e d = Inr (advance_attempt (held now c) ev d, (at_attempt_id c, ''RECOVERED'', ''HOLD''))"
      by blast
    have "held now c \<in> set (executor_attempts (advance_attempt (held now c) ev d))"
      using advance_attempts [OF wf c, of "held now c"] by simp
    then show thesis
      by (intro that [of "advance_attempt (held now c) ev d" "(at_attempt_id c, ''RECOVERED'', ''HOLD'')"])
        (auto simp: recover_stale_candidate_def x Inr r)
  qed
qed


lemma held_stays:
  assumes "held now c \<in> set (executor_attempts d)" and "attempts_advance d e"
  shows "held now c \<in> set (executor_attempts e)"
proof -
  have "\<not> active_attempt (held now c)" by (simp add: active_attempt_def ACTIVE_ATTEMPT_STATES_def)
  with assms show ?thesis unfolding attempts_advance_def attempt_advances_def by blast
qed

lemma recover_fold_total:
  assumes "attempts_wf d" and "distinct (map at_attempt_id cs)"
    and "\<forall>c \<in> set cs. c \<in> set (executor_attempts d) \<and> launched (at_state c) \<and> at_heartbeat_at c < before \<and>
      \<not> broker_owns d (at_attempt_id c)"
  shows "\<exists>d' res. fold_res (recover_stale_candidate reader before now) cs (d, rs) = Inr (d', rs @ res) \<and>
    length res = length cs \<and>
    (\<forall>c \<in> set cs. \<forall>e. reader (the (at_systemd_unit c)) = Some e \<and> proven_inactive c e \<longrightarrow>
       (at_attempt_id c, ''RECOVERED'', ''HOLD'') \<in> set res \<and> held now c \<in> set (executor_attempts d'))"
  using assms
proof (induction cs arbitrary: d rs)
  case Nil
  then show ?case by simp
next
  case (Cons c cs)
  let ?round = "recover_stale_candidate reader before now"
  from Cons.prems(3) have c: "c \<in> set (executor_attempts d)" "launched (at_state c)" "at_heartbeat_at c < before"
    "\<not> broker_owns d (at_attempt_id c)" by simp_all
  obtain d1 r where one: "?round c (d, rs) = Inr (d1, rs @ [r])" "d1 = d \<or> (\<exists>e. d1 = advance_attempt (held now c) e d)"
    and rec: "\<And>e. reader (the (at_systemd_unit c)) = Some e \<Longrightarrow> proven_inactive c e \<Longrightarrow>
       r = (at_attempt_id c, ''RECOVERED'', ''HOLD'') \<and> held now c \<in> set (executor_attempts d1)"
    by (rule recover_candidate_total [OF Cons.prems(1) c, of reader now rs]) blast
  have wf1: "attempts_wf d1" using recover_candidate_keeps [OF _ one(1) c(2)] Cons.prems(1) by simp
  have "x \<in> set (executor_attempts d1) \<and> launched (at_state x) \<and> at_heartbeat_at x < before \<and>
      \<not> broker_owns d1 (at_attempt_id x)" if "x \<in> set cs" for x
  proof -
    have "x \<noteq> c" using that Cons.prems(2) by auto
    with Cons.prems(3) that one(2) advance_attempts [OF Cons.prems(1) c(1), of "held now c"] show ?thesis
      by (auto simp: broker_owns_def advance_attempt_def table_installed_def)
  qed
  with Cons.IH [OF wf1, of "rs @ [r]"] Cons.prems(2) obtain d' res where
    rest: "fold_res ?round cs (d1, rs @ [r]) = Inr (d', (rs @ [r]) @ res)" "length res = length cs"
    and all: "\<forall>c \<in> set cs. \<forall>e. reader (the (at_systemd_unit c)) = Some e \<and> proven_inactive c e \<longrightarrow>
       (at_attempt_id c, ''RECOVERED'', ''HOLD'') \<in> set res \<and> held now c \<in> set (executor_attempts d')" by auto
  have "attempts_advance d1 d'"
  proof -
    have "attempts_wf (fst (d', (rs @ [r]) @ res)) \<and> attempts_advance (fst (d1, rs @ [r])) (fst (d', (rs @ [r]) @ res))"
      using rest(1) by (rule fold_keeps) (use wf1 recover_candidate_keeps Cons.prems(3) in auto)
    then show ?thesis by simp
  qed
  with rec held_stays all have "\<forall>x \<in> set (c # cs). \<forall>e. reader (the (at_systemd_unit x)) = Some e \<and> proven_inactive x e \<longrightarrow>
       (at_attempt_id x, ''RECOVERED'', ''HOLD'') \<in> set (r # res) \<and> held now x \<in> set (executor_attempts d')"
    by auto
  moreover have "fold_res ?round (c # cs) (d, rs) = Inr (d', rs @ r # res)" using one(1) rest(1) by simp
  ultimately show ?case using rest(2) by (intro exI [of _ d'] exI [of _ "r # res"]) simp
qed

text \<open>
  C11: a dead executor never blocks its target for good. On well-formed tables the recovery of stale attempts
  always returns, with one result per candidate; it never finds a stored launch identity or an event history
  wanting, and every candidate whose unit systemd reports as exactly the recorded one and dead is
  put on hold, which ends its hold on target, lineage and repository.
\<close>

theorem stale_recovery_complete:
  assumes "attempts_wf d"
  shows "\<exists>d' results. recover_stale_active_attempts reader d before now = Inr (d', results) \<and>
    (let cs = stale_attempts [''LAUNCHING'', ''RUNNING''] (ensure_executor_registry_schema d) before in
     length results = length cs \<and>
     (\<forall>c \<in> set cs. \<forall>e. reader (the (at_systemd_unit c)) = Some e \<and> proven_inactive c e \<longrightarrow>
        (at_attempt_id c, ''RECOVERED'', ''HOLD'') \<in> set results \<and>
        (\<exists>r. attempt_by_id d' (at_attempt_id c) = Some r \<and> at_state r = ''HOLD'' \<and> \<not> active_attempt r)))"
proof -
  let ?d = "ensure_executor_registry_schema d"
  let ?cs = "stale_attempts [''LAUNCHING'', ''RUNNING''] ?d before"
  have wf: "attempts_wf ?d" using assms by simp
  have "distinct (map at_attempt_id (executor_attempts ?d))" using wf by (simp add: attempts_wf_def)
  then have "distinct (map at_attempt_id ?cs)" by (simp add: stale_attempts_def distinct_map inj_on_def)
  moreover have "\<forall>c \<in> set ?cs. c \<in> set (executor_attempts ?d) \<and> launched (at_state c) \<and> at_heartbeat_at c < before \<and>
      \<not> broker_owns ?d (at_attempt_id c)" by (auto simp: stale_attempts_def launched_def)
  ultimately obtain d' res where f: "fold_res (recover_stale_candidate reader before now) ?cs (?d, []) = Inr (d', [] @ res)"
    and len: "length res = length ?cs"
    and all: "\<forall>c \<in> set ?cs. \<forall>e. reader (the (at_systemd_unit c)) = Some e \<and> proven_inactive c e \<longrightarrow>
       (at_attempt_id c, ''RECOVERED'', ''HOLD'') \<in> set res \<and> held now c \<in> set (executor_attempts d')"
    using recover_fold_total [OF wf, of ?cs before reader now "[]"] by blast
  have r: "recover_stale_active_attempts reader d before now = Inr (d', res)"
    using f by (simp add: recover_stale_active_attempts_def Let_def guarded_def)
  from recoveries_keep(2) [OF assms this] have "attempts_wf d'" ..
  then have "attempt_by_id d' (at_attempt_id c) = Some (held now c)" if "held now c \<in> set (executor_attempts d')" for c
    using that by (simp add: attempt_by_id_iff)
  with r len all show ?thesis
    by (intro exI [of _ d'] exI [of _ res]) (simp add: Let_def active_attempt_def ACTIVE_ATTEMPT_STATES_def)
qed


subsection \<open>The token stays secret\<close>

fun value_texts :: "pyval \<Rightarrow> string list" where
  "value_texts (PStr s) = [s]"
| "value_texts (PList xs) = concat (map value_texts xs)"
| "value_texts (PDict kvs) = concat (map (\<lambda>kv. fst kv # value_texts (snd kv)) kvs)"
| "value_texts _ = []"

definition event_texts :: "attempt_event_row \<Rightarrow> string option list" where
  "event_texts e =
     [Some (ae_attempt_id e), ae_from_state e, Some (ae_to_state e), ae_reason e, Some (ae_recorded_at e)] @
     (case ae_evidence_json e of None \<Rightarrow> [] | Some v \<Rightarrow> map Some (value_texts v))"

lemma leaks_simps [simp]:
  "\<not> leaks token []" "leaks token (None # vs) = leaks token vs"
  "leaks token (Some s # vs) \<longleftrightarrow> sublist token s \<or> leaks token vs" "leaks token (vs @ ws) \<longleftrightarrow> leaks token vs \<or> leaks token ws"
  by (auto simp: leaks_def)

lemma leaks_or_else: "leaks token [or_else new old] \<Longrightarrow> leaks token [new] \<or> leaks token [old]"
  by (cases new) (simp_all add: or_else_def)

lemma leaks_py_text: "leaks token (map Some (value_texts (py_text x))) = leaks token [x]"
  by (cases x) (simp_all add: py_text_def)

lemma short_text: "length s < length token \<Longrightarrow> \<not> sublist token s"
  by (auto dest: sublist_length_le)

lemma redacted_error:
  assumes "31 < length (tn_token q)"
  shows "\<not> leaks (tn_token q) [effective_last_error q]"
proof -
  have "length EXECUTOR_PRIVATE_ERROR_REDACTED < length (tn_token q)"
    using assms by (simp add: EXECUTOR_PRIVATE_ERROR_REDACTED_def)
  then show ?thesis by (simp add: effective_last_error_def short_text)
qed

lemma state_names_short: "s \<in> set ATTEMPT_STATES \<Longrightarrow> 31 < length token \<Longrightarrow> \<not> sublist token s"
  by (rule short_text) (auto simp: ATTEMPT_STATES_def)

lemma validated_transition:
  assumes "validate_transition_request q = Inr ()"
  shows "tn_new_state q \<in> set ATTEMPT_STATES" and "\<not> leaks (tn_token q) [Some (tn_now q)]"
    and "\<not> leaks (tn_token q) [tn_systemd_unit q]" and "\<not> leaks (tn_token q) [tn_systemd_invocation_id q]"
    and "\<not> leaks (tn_token q) [tn_systemd_control_group q]" and "\<not> leaks (tn_token q) [tn_terminal_progress_sha256 q]"
proof -
  from assms show "tn_new_state q \<in> set ATTEMPT_STATES" by (simp add: validate_transition_request_def guard_simps)
  from assms have "\<not> leaks (tn_token q) (durable_inputs q)" by (simp add: validate_transition_request_def guard_simps)
  then have all: "\<not> leaks (tn_token q) [v]" if "v \<in> set (durable_inputs q)" for v using that by (auto simp: leaks_def)
  show "\<not> leaks (tn_token q) [Some (tn_now q)]" "\<not> leaks (tn_token q) [tn_systemd_unit q]"
    "\<not> leaks (tn_token q) [tn_systemd_invocation_id q]" "\<not> leaks (tn_token q) [tn_systemd_control_group q]"
    "\<not> leaks (tn_token q) [tn_terminal_progress_sha256 q]" by (rule all, simp add: durable_inputs_def)+
qed

lemma moved_texts:
  assumes "validate_transition_request q = Inr ()" and "\<not> leaks (tn_token q) (attempt_texts r)" and "31 < length (tn_token q)"
  shows "\<not> leaks (tn_token q) (attempt_texts (moved_attempt q r))"
proof -
  note v = validated_transition [OF assms(1)]
  let ?l = "\<lambda>x. leaks (tn_token q) [x]"
  have old: "\<not> ?l x" if "x \<in> set (attempt_texts r)" for x using assms(2) that by (auto simp: leaks_def)
  have keep: "\<not> ?l (or_else new x)" if "\<not> ?l new" "x \<in> set (attempt_texts r)" for new x
    using that old leaks_or_else by blast
  have "\<not> ?l x" if x: "x \<in> set (attempt_texts (moved_attempt q r))" for x
  proof -
    have "x \<in> {Some (tn_new_state q), Some (tn_now q), effective_last_error q,
        or_else (tn_terminal_progress_sha256 q) (at_terminal_progress_sha256 r),
        or_else (tn_systemd_unit q) (at_systemd_unit r),
        or_else (tn_systemd_invocation_id q) (at_systemd_invocation_id r),
        or_else (tn_systemd_control_group q) (at_systemd_control_group r)} \<or> x \<in> set (attempt_texts r)"
      using x by (auto simp: attempt_texts_def moved_attempt_def)
    moreover have "\<not> ?l (Some (tn_new_state q))" using state_names_short [OF v(1) assms(3)] by simp
    moreover have "\<not> ?l (or_else (tn_terminal_progress_sha256 q) (at_terminal_progress_sha256 r))"
      "\<not> ?l (or_else (tn_systemd_unit q) (at_systemd_unit r))"
      "\<not> ?l (or_else (tn_systemd_invocation_id q) (at_systemd_invocation_id r))"
      "\<not> ?l (or_else (tn_systemd_control_group q) (at_systemd_control_group r))"
      by (rule keep, (rule v), simp add: attempt_texts_def)+
    ultimately show ?thesis using v(2) redacted_error [OF assms(3)] old by blast
  qed
  then show ?thesis by (auto simp: leaks_def)
qed


lemma transition_event_texts:
  assumes v: "validate_transition_request q = Inr ()" and c: "check_row q r = Inr ()" and "31 < length (tn_token q)"
    and id: "at_attempt_id r = tn_attempt_id q"
  shows "\<not> leaks (tn_token q) (event_texts (transition_event q r))"
proof -
  let ?l = "\<lambda>x. leaks (tn_token q) [x]"
  have row: "\<not> ?l x" if "x \<in> set (attempt_texts r)" for x
    using check_row_Inr(2) [OF c] that by (auto simp: leaks_def)
  have moved: "\<not> ?l x" if "x \<in> set (attempt_texts (moved_attempt q r))" for x
    using moved_texts [OF v check_row_Inr(2) [OF c] assms(3)] that by (auto simp: leaks_def)
  have keys: "\<not> sublist (tn_token q) ''systemd_unit''" "\<not> sublist (tn_token q) ''systemd_invocation_id''"
    "\<not> sublist (tn_token q) ''systemd_control_group''" "\<not> sublist (tn_token q) ''target_progress_sha256''"
    "\<not> sublist (tn_token q) ''terminal_progress_sha256''"
    using assms(3) by (auto intro!: short_text)
  have ev: "\<not> leaks (tn_token q) (map Some (value_texts v))" if "transition_evidence q r = Some v" for v
  proof (cases "tn_new_state q = ''LAUNCHING''")
    case True
    with that have "v = PDict [(''systemd_unit'', py_text (at_systemd_unit (moved_attempt q r))),
             (''systemd_invocation_id'', py_text (at_systemd_invocation_id (moved_attempt q r))),
             (''systemd_control_group'', py_text (at_systemd_control_group (moved_attempt q r)))]"
      by (simp add: transition_evidence_def Let_def)
    then show ?thesis using keys moved by (simp add: leaks_py_text attempt_texts_def)
  next
    case False
    with that have "v = PDict [(''target_progress_sha256'', py_text (at_target_progress_sha256 r)),
             (''terminal_progress_sha256'', py_text (tn_terminal_progress_sha256 q))]"
      by (simp add: transition_evidence_def Let_def split: if_splits)
    then show ?thesis using keys row validated_transition(6) [OF v] by (simp add: leaks_py_text attempt_texts_def)
  qed
  have "\<not> ?l (Some (tn_attempt_id q))" "\<not> ?l (Some (at_state r))"
    using row [of "Some (at_attempt_id r)"] row [of "Some (at_state r)"] id by (simp_all add: attempt_texts_def)
  moreover have "\<not> ?l (Some (tn_new_state q))"
    using state_names_short [OF validated_transition(1) [OF v] assms(3)] by simp
  moreover note validated_transition(2) [OF v] redacted_error [OF assms(3)]
  ultimately show ?thesis using ev
    by (cases "effective_last_error q") (auto simp: event_texts_def transition_event_def split: option.splits)
qed

text \<open>
  C19: the token of an attempt is never stored. After every accepted transition no text of the attempt's row
  contains the token it was made with, and neither does any text of the events it recorded, wherever the
  caller put it: a last error that contains the token is replaced by a fixed word, anything else is refused.
  (Tokens have 43 characters; up to 31 characters could occur in that word itself.)
\<close>

theorem token_never_stored:
  assumes "transition_attempt d q = Inr (d', r)" and "31 < length (tn_token q)"
  shows "\<not> leaks (tn_token q) (attempt_texts r) \<and>
    (\<exists>es. executor_attempt_events d' = executor_attempt_events d @ es \<and> length es \<le> 1 \<and>
       (\<forall>e \<in> set es. \<not> leaks (tn_token q) (event_texts e)))"
  using assms(1)
proof (cases rule: transition_attempt_Inr)
  case (1 r')
  with check_row_Inr(2) show ?thesis by auto
next
  case (2 r')
  then have id: "at_attempt_id r' = tn_attempt_id q" by (auto simp: attempt_by_id_def dest: find_SomeD)
  from 2(7) have "r = moved_attempt q r'"
    and "executor_attempt_events d' = executor_attempt_events d @ [transition_event q r']"
    by (auto simp: write_transition_def guard_simps insert_attempt_event_def transition_event_def
        update_attempts_def Let_def)
  with moved_texts [OF 2(2) check_row_Inr(2) [OF 2(3)] assms(2)] transition_event_texts [OF 2(2,3) assms(2) id]
  show ?thesis by auto
qed


subsection \<open>An example run\<close>

definition example_unit :: string where
  "example_unit = (case stable_systemd_unit ''development'' ''terminal_watch'' ''w'' of Inr u \<Rightarrow> u | Inl _ \<Rightarrow> [])"

definition example_reservation :: reserve_request where
  "example_reservation =
     \<lparr>rq_role = ''development'', rq_endpoint_id = ''role.development.v1'', rq_target_kind = ''terminal_watch'',
      rq_target_key = ''w'', rq_now = ''2026-01-01T00:00:00Z''\<rparr>"

definition example_values :: fresh_values where
  "example_values =
     \<lparr>fv_token = replicate 43 (CHR ''_''), fv_attempt_id = ''00000000-0000-4000-8000-000000000001'',
      fv_instance_id = ''00000000-0000-4000-8000-000000000002''\<rparr>"

definition example_launch :: transition_request where
  "example_launch =
     \<lparr>tn_attempt_id = ''00000000-0000-4000-8000-000000000001'', tn_token = replicate 43 (CHR ''_''), tn_expected_version = 1,
      tn_new_state = ''LAUNCHING'', tn_now = ''2026-01-01T00:00:01.5Z'', tn_process_id = None, tn_exit_code = None,
      tn_last_error = Some (''launch '' @ replicate 43 (CHR ''_'')), tn_systemd_unit = Some example_unit,
      tn_systemd_invocation_id = Some (replicate 32 (CHR ''0'')), tn_systemd_control_group = Some (''/'' @ example_unit),
      tn_terminal_progress_sha256 = None\<rparr>"

definition example_attempt :: attempt_row where
  "example_attempt = reserved_attempt example_reservation example_values None None None"

definition example_reserved :: db where
  "example_reserved =
     insert_attempt_event (at_attempt_id example_attempt) None ''RESERVED'' None 1 (Some ''ATTEMPT_RESERVED'') None
       ''2026-01-01T00:00:00Z'' ((ensure_executor_registry_schema registry_db)\<lparr>executor_attempts := [example_attempt]\<rparr>)"

lemma example_validated: "validate_reserve_request example_reservation = Inr ()"
  by code_simp

lemma example_tables:
  "executor_attempts registry_db = []" "executor_attempt_events registry_db = []"
  "coordination_terminal_watches (ensure_executor_registry_schema registry_db) = []"
  by (simp_all add: ensure_executor_registry_schema_def registry_db_def empty_db_def)

lemma example_target:
  "repository_scope_for_target (ensure_executor_registry_schema registry_db) ''terminal_watch'' ''w'' = Inr None"
  "progress_or_none (target_progress_digest (ensure_executor_registry_schema registry_db) ''terminal_watch'' ''w'') = Inr None"
  by (simp_all add: repository_scope_for_target_def target_progress_digest_def watch_by_key_def example_tables Let_def)

lemma example_endpoint:
  "current_endpoint (ensure_executor_registry_schema registry_db) ''development'' =
     Inr (Some \<lparr>ep_endpoint_id = ''role.development.v1'', ep_role = ''development''\<rparr>)"
  by code_simp

lemma example_endpoint_stored:
  "endpoint_of (ensure_executor_registry_schema registry_db) ''role.development.v1'' \<noteq> None"
  by code_simp

lemma registry_db_attempts_wf: "attempts_wf registry_db"
  by (simp add: attempts_wf_def exclusive_attempts_def example_tables)

lemma example_attempt_check: "attempt_check example_attempt"
  by (simp add: attempt_check_def example_attempt_def reserved_attempt_def example_reservation_def
      ROLES_def TARGET_KINDS_def ATTEMPT_STATES_def digest_column_def lineage_columns_def)

lemma example_reserves:
  "reserve_attempt (\<lambda>_. Inr None) registry_db example_reservation example_values = Inr (example_reserved, example_attempt)"
proof -
  let ?d = "ensure_executor_registry_schema registry_db"
  have q: "rq_role example_reservation = ''development''" "rq_target_kind example_reservation = ''terminal_watch''"
    "rq_target_key example_reservation = ''w''" "rq_endpoint_id example_reservation = ''role.development.v1''"
    "rq_now example_reservation = ''2026-01-01T00:00:00Z''"
    by (simp_all add: example_reservation_def)
  have i: "insert_attempt example_attempt ?d = Inr (?d\<lparr>executor_attempts := [example_attempt]\<rparr>)"
    using example_attempt_check example_endpoint_stored
    by (simp add: insert_attempt_def guard_eval example_tables attempt_conflicts_def)
      (simp add: example_attempt_def reserved_attempt_def q)
  have "reserve_guards ?d example_reservation None None k = k" for k :: "(db \<times> attempt_row) res"
    by (simp add: reserve_guards_def q example_endpoint guard_eval busy_with_def example_tables)
  moreover have "fv_attempt_id example_values = at_attempt_id example_attempt"
    by (simp add: example_attempt_def reserved_attempt_def)
  ultimately show ?thesis
    by (simp add: reserve_attempt_def Let_def example_validated guard_eval example_target q
        example_attempt_def [symmetric] i example_reserved_def)
qed


lemma underscores_not_in: "CHR ''_'' \<notin> set s \<Longrightarrow> \<not> sublist (replicate 43 (CHR ''_'')) s"
  using set_mono_sublist [of "replicate 43 (CHR ''_'')" s] by auto

lemma hex_no_underscore: "list_all is_hex s \<Longrightarrow> CHR ''_'' \<notin> set s"
  by (auto simp: list_all_iff char_class_defs)

lemma example_unit_stable: "stable_systemd_unit ''development'' ''terminal_watch'' ''w'' = Inr example_unit"
  by (simp add: example_unit_def stable_systemd_unit_def guard_eval ROLES_def TARGET_KINDS_def)

lemma example_unit_no_underscore: "CHR ''_'' \<notin> set example_unit"
proof -
  have "CHR ''_'' \<notin> set (sha256_hex s)" for s
    using SHA256_sha256_hex [of s] by (intro hex_no_underscore) (simp add: SHA256_def)
  then have "CHR ''_'' \<notin> set (take n (sha256_hex s))" for n s using set_take_subset by fastforce
  then show ?thesis
    by (simp add: example_unit_def stable_systemd_unit_def guard_eval ROLES_def TARGET_KINDS_def)
qed

lemma example_launch_valid: "validate_transition_request example_launch = Inr ()"
proof -
  have "ack_timestamp ''2026-01-01T00:00:01.5Z'' \<noteq> None" by code_simp
  moreover have "SESSION ''00000000-0000-4000-8000-000000000001''" by code_simp
  ultimately show ?thesis
    using example_unit_no_underscore
    by (simp add: validate_transition_request_def guard_eval example_launch_def durable_inputs_def ATTEMPT_STATES_def
        underscores_not_in)
qed

lemma example_row_checked: "check_row example_launch example_attempt = Inr ()"
proof -
  have t: "ack_timestamp ''2026-01-01T00:00:00Z'' \<noteq> None"
    "\<not> timestamp_regresses ''2026-01-01T00:00:01.5Z'' ''2026-01-01T00:00:00Z''" by code_simp+
  have "CHR ''_'' \<notin> set (sha256_hex s)" for s
    using SHA256_sha256_hex [of s] by (intro hex_no_underscore) (simp add: SHA256_def)
  then have "\<not> leaks (tn_token example_launch) (attempt_texts example_attempt)"
    by (simp add: example_launch_def example_attempt_def reserved_attempt_def example_reservation_def example_values_def
        attempt_texts_def underscores_not_in short_text)
  then show ?thesis
    using t by (simp add: check_row_def guard_eval example_launch_def example_attempt_def reserved_attempt_def
        example_reservation_def example_values_def allowed_transitions_def)
qed


lemma example_launch_checked: "check_launch example_launch example_attempt = Inr ()" "check_launch_kept example_launch example_attempt = Inr ()"
    "check_process example_launch example_attempt = Inr ()"
proof -
  have "SYSTEMD_INVOCATION_ID (replicate 32 (CHR ''0''))" by code_simp
  moreover have "control_group_of_unit (CHR ''/'' # example_unit) example_unit" by (simp add: control_group_of_unit_def)
  ultimately show "check_launch example_launch example_attempt = Inr ()"
    using example_unit_stable
    by (simp add: check_launch_def guard_eval example_launch_def example_attempt_def reserved_attempt_def
        example_reservation_def launch_identity_def moved_attempt_def or_else_def)
  show "check_launch_kept example_launch example_attempt = Inr ()" "check_process example_launch example_attempt = Inr ()"
    by (simp_all add: check_launch_kept_def check_process_def Let_def guard_eval example_launch_def example_attempt_def
        reserved_attempt_def)
qed

lemma example_launches: "\<exists>d r. transition_attempt example_reserved example_launch = Inr (d, r)"
proof -
  let ?d = "ensure_executor_registry_schema example_reserved"
  have rows: "executor_attempts example_reserved = [example_attempt]" by (simp add: example_reserved_def insert_attempt_event_def)
  have id: "at_attempt_id example_attempt = tn_attempt_id example_launch" "at_version example_attempt = tn_expected_version example_launch"
    by (simp_all add: example_attempt_def reserved_attempt_def example_values_def example_launch_def)
  have "\<not> identity_changed example_attempt (moved_attempt example_launch example_attempt)"
    by (simp add: identity_changed_def attempt_identity_def set_once_def moved_attempt_def effective_process_id_def
        example_launch_def or_else_def) (simp add: example_attempt_def reserved_attempt_def)
  moreover have "attempt_check (moved_attempt example_launch example_attempt)"
    using example_attempt_check
    by (simp add: attempt_check_def moved_attempt_def example_launch_def ATTEMPT_STATES_def lineage_columns_def
        digest_column_def or_else_def)
  ultimately have "\<exists>d. write_transition example_launch example_attempt ?d = Inr d"
    by (simp add: write_transition_def update_attempts_def Let_def rows id guard_eval attempt_conflicts_def)
  moreover have "attempt_by_id ?d (tn_attempt_id example_launch) = Some example_attempt"
    by (simp add: attempt_by_id_def rows id)
  moreover have "at_state example_attempt \<notin> set FINAL_ATTEMPT_STATES"
    by (simp add: example_attempt_def reserved_attempt_def FINAL_ATTEMPT_STATES_def)
  ultimately show ?thesis
    by (simp add: transition_attempt_def Let_def example_launch_valid example_row_checked example_launch_checked guard_eval)
qed

definition example_attempt_ops :: "attempt_op list" where
  "example_attempt_ops = [ReserveAttempt (\<lambda>_. Inr None) example_reservation example_values, TransitionAttempt example_launch]"

lemma example_attempts_run:
  obtains d where "fold_res attempt_step example_attempt_ops registry_db = Inr d"
    "moved_attempt example_launch example_attempt \<in> set (executor_attempts d)" "role_executor_broker_runs d = []"
proof -
  let ?d = "ensure_executor_registry_schema example_reserved" and ?m = "moved_attempt example_launch example_attempt"
  from example_launches obtain d r where t: "transition_attempt example_reserved example_launch = Inr (d, r)" by blast
  then have run: "fold_res attempt_step example_attempt_ops registry_db = Inr d"
    by (simp add: example_attempt_ops_def example_reserves)
  have wf: "attempts_wf ?d" using reserve_keeps(1) [OF registry_db_attempts_wf example_reserves] by simp
  have only: "q = example_attempt" if "attempt_by_id example_reserved i = Some q" for q i
    using that by (auto simp: attempt_by_id_def example_reserved_def insert_attempt_event_def split: if_splits)
  from t have "\<exists>q. d = advance_attempt ?m q ?d"
  proof (cases rule: transition_attempt_Inr)
    case (1 q)
    with only [OF 1(1)] show ?thesis by (simp add: example_attempt_def reserved_attempt_def FINAL_ATTEMPT_STATES_def)
  next
    case (2 q)
    have "attempt_by_id ?d (tn_attempt_id example_launch) = Some q" using 2(1) by (simp add: attempt_by_id_def)
    from write_transition_step(1,2) [OF wf this 2(3-7)] only [OF 2(1)] show ?thesis by blast
  qed
  then have "?m \<in> set (executor_attempts d)" "role_executor_broker_runs d = []"
    by (auto simp: advance_attempt_def set_update_where example_reserved_def insert_attempt_event_def
        ensure_executor_registry_schema_def registry_db_def empty_db_def)
  with run that show thesis by blast
qed

theorem attempts_exclusive_witness:
  "\<exists>d. fold_res attempt_step example_attempt_ops registry_db = Inr d \<and> attempts_wf d \<and> executor_attempts d \<noteq> []"
proof -
  obtain d where d: "fold_res attempt_step example_attempt_ops registry_db = Inr d"
    "moved_attempt example_launch example_attempt \<in> set (executor_attempts d)" by (rule example_attempts_run)
  from attempts_exclusive [OF registry_db_attempts_wf d(1)] d show ?thesis by (intro exI [of _ d]) auto
qed

theorem attempt_history_complete_witness:
  "\<exists>d r e es. fold_res attempt_step example_attempt_ops registry_db = Inr d \<and> r \<in> set (executor_attempts d) \<and>
     rev (events_of d (at_attempt_id r)) = e # es \<and> ae_to_state e = ''LAUNCHING'' \<and> length es = 1"
proof -
  let ?m = "moved_attempt example_launch example_attempt"
  obtain d where d: "fold_res attempt_step example_attempt_ops registry_db = Inr d" "?m \<in> set (executor_attempts d)"
    by (rule example_attempts_run)
  have m: "at_state ?m = ''LAUNCHING''" "at_version ?m = 2" by (simp_all add: example_launch_def)
  from attempt_history_complete [OF registry_db_attempts_wf d] obtain e es where
    "rev (events_of d (at_attempt_id ?m)) = e # es" "ae_to_state e = at_state ?m" "int (length (e # es)) = at_version ?m" by blast
  with d m show ?thesis by (intro exI [of _ d] exI [of _ ?m] exI [of _ e] exI [of _ es]) simp
qed

definition example_evidence :: systemd_unit_evidence where
  "example_evidence =
     \<lparr>su_unit = example_unit, su_load_state = ''loaded'', su_active_state = ''inactive'', su_sub_state = ''dead'',
      su_invocation_id = replicate 32 (CHR ''0''), su_control_group = ''/'' @ example_unit, su_result = ''success'',
      su_memory_max = [], su_tasks_max = [], su_runtime_max_usec = [], su_cpu_quota_per_sec_usec = []\<rparr>"

theorem stale_recovery_complete_witness:
  "\<exists>d d' results. fold_res attempt_step example_attempt_ops registry_db = Inr d \<and>
     recover_stale_active_attempts (\<lambda>_. Some example_evidence) d ''2026-02'' ''2026-02'' = Inr (d', results) \<and>
     (''00000000-0000-4000-8000-000000000001'', ''RECOVERED'', ''HOLD'') \<in> set results"
proof -
  let ?m = "moved_attempt example_launch example_attempt"
  obtain d where d: "fold_res attempt_step example_attempt_ops registry_db = Inr d" "?m \<in> set (executor_attempts d)"
    "role_executor_broker_runs d = []" by (rule example_attempts_run)
  have wf: "attempts_wf d" using attempt_run_keeps [OF d(1) registry_db_attempts_wf] ..
  have m: "at_state ?m = ''LAUNCHING''" "at_heartbeat_at ?m = ''2026-01-01T00:00:01.5Z''"
    "at_attempt_id ?m = ''00000000-0000-4000-8000-000000000001''"
    by (simp_all add: example_launch_def moved_attempt_def example_attempt_def reserved_attempt_def example_values_def)
  have "?m \<in> set (stale_attempts [''LAUNCHING'', ''RUNNING''] (ensure_executor_registry_schema d) ''2026-02'')"
    using d(2,3) m by (simp add: stale_attempts_def broker_owns_def less_char_def)
  moreover have "proven_inactive ?m example_evidence"
    by (simp add: proven_inactive_def moved_attempt_def example_launch_def or_else_def example_evidence_def)
  ultimately show ?thesis
    using stale_recovery_complete [OF wf, of "\<lambda>_. Some example_evidence" "''2026-02''" "''2026-02''"] d(1) m(3)
    unfolding Let_def by metis
qed

theorem token_never_stored_witness:
  "\<exists>d r. transition_attempt example_reserved example_launch = Inr (d, r) \<and>
     \<not> leaks (tn_token example_launch) (attempt_texts r)"
proof -
  from example_launches obtain d r where t: "transition_attempt example_reserved example_launch = Inr (d, r)" by blast
  have "31 < length (tn_token example_launch)" by (simp add: example_launch_def)
  from token_never_stored [OF t this] t show ?thesis by blast
qed


end
