(* ===== verification/Issue_Body_Cas.thy ===== *)
theory Issue_Body_Cas
  imports Sha256
begin

section \<open>The issue-body transaction\<close>

text \<open>
  issue_body_cas.py: one fail-closed change of a GitHub issue body. The transport to GitHub and the ledger
  of attempts are injected protocols, so the transaction is a function of both: a transport acts on the
  state \<open>'w\<close> of the outside world, a ledger on its own state \<open>'l\<close>, and either may raise, which is the name
  of the exception class on the left. The contract of the ledgers is the locale \<open>once_ledger\<close>, which both
  ledgers of the module keep; that of a transport is the predicate \<open>atomic_transport\<close>.

  Bodies are byte strings.
\<close>

datatype outcome = APPLIED | ALREADY_APPLIED | CONFLICT | POSTCONDITION_FAILED

datatype disposition = WRITE_APPLIED | WRITE_CONFLICT

record issue_snapshot =
  sn_body :: string
  sn_updated_at :: string

record mutation =
  mu_repository :: string
  mu_issue_number :: int
  mu_expected_body :: string
  mu_expected_updated_at :: string
  mu_desired_body :: string
  mu_expected_body_sha256 :: string
  mu_desired_body_sha256 :: string

definition from_bodies :: "string \<Rightarrow> int \<Rightarrow> string \<Rightarrow> string \<Rightarrow> string \<Rightarrow> mutation" where
  "from_bodies repository issue_number expected_body expected_updated_at desired_body =
     \<lparr>mu_repository = repository, mu_issue_number = issue_number, mu_expected_body = expected_body,
      mu_expected_updated_at = expected_updated_at, mu_desired_body = desired_body,
      mu_expected_body_sha256 = sha256_hex expected_body, mu_desired_body_sha256 = sha256_hex desired_body\<rparr>"

definition validate_mutation :: "mutation \<Rightarrow> unit res" where
  "validate_mutation m =
     guarded [(mu_repository m = [] \<or> mu_issue_number m \<le> 0, ValueError ''repository and a positive issue number are required''),
              (mu_expected_updated_at m = [], ValueError ''expected_updated_at is required''),
              (mu_expected_body_sha256 m \<noteq> sha256_hex (mu_expected_body m),
               ValueError ''expected body digest does not match expected bytes''),
              (mu_desired_body_sha256 m \<noteq> sha256_hex (mu_desired_body m),
               ValueError ''desired body digest does not match desired bytes'')] (Inr ())"

record transaction_result =
  rs_outcome :: outcome
  rs_expected_body_sha256 :: string
  rs_desired_body_sha256 :: string
  rs_observed_body_sha256 :: "string option"
  rs_observed_updated_at :: "string option"
  rs_patch_count :: nat
  rs_canonical_read_count :: nat
  rs_retry_suppressed :: bool
  rs_detail :: string

subsection \<open>Protocols\<close>

record 'w transport =
  read_canonical :: "string \<Rightarrow> int \<Rightarrow> bool \<Rightarrow> 'w \<Rightarrow> 'w \<times> (string + issue_snapshot)"
  supports_atomic_compare_and_swap :: bool
  atomic_compare_and_swap_body :: "mutation \<Rightarrow> 'w \<Rightarrow> 'w \<times> (string + disposition)"

type_synonym 'l ledger = "mutation \<Rightarrow> 'l \<Rightarrow> 'l \<times> (string + bool)"

definition attempt_key :: "mutation \<Rightarrow> string" where
  "attempt_key m =
     sha256_hex (''issue-body-cas-v1'' @ [CHR 0x00] @ mu_repository m @ [CHR 0x00] @ str_of_int (mu_issue_number m) @
       [CHR 0x00] @ mu_desired_body_sha256 m)"

text \<open>\<open>InMemoryAttemptLedger\<close>: its state is the set of keys.\<close>

definition in_memory_reserve_patch :: "string set ledger" where
  "in_memory_reserve_patch m keys =
     (if attempt_key m \<in> keys then (keys, Inr False) else (insert (attempt_key m) keys, Inr True))"

record patch_attempt_row =
  pa_attempt_key :: string
  pa_repository :: string
  pa_issue_number :: int
  pa_expected_body_sha256 :: string
  pa_expected_updated_at :: string
  pa_desired_body_sha256 :: string

definition patch_attempt_of :: "mutation \<Rightarrow> patch_attempt_row" where
  "patch_attempt_of m =
     \<lparr>pa_attempt_key = attempt_key m, pa_repository = mu_repository m, pa_issue_number = mu_issue_number m,
      pa_expected_body_sha256 = mu_expected_body_sha256 m, pa_expected_updated_at = mu_expected_updated_at m,
      pa_desired_body_sha256 = mu_desired_body_sha256 m\<rparr>"

text \<open>
  \<open>SQLiteAttemptLedger\<close>: the insert fails on the primary key; the time of the reservation, which only the
  database sees, is left out. Which calls find a database they cannot use is part of the state: the
  exception of each call in turn, if it has one.
\<close>

definition sqlite_reserve_patch :: "(string option list \<times> patch_attempt_row list) ledger" where
  "sqlite_reserve_patch m s =
     (case s of (faults, rows) \<Rightarrow>
        (case faults of
           Some e # later \<Rightarrow> ((later, rows), Inl e)
         | _ \<Rightarrow>
             if \<exists>r \<in> set rows. pa_attempt_key r = attempt_key m then ((tl faults, rows), Inr False)
             else ((tl faults, rows @ [patch_attempt_of m]), Inr True)))"

text \<open>\<open>GitHubConnectorTransport\<close>: the reader is the connector's; the updater is never called.\<close>

definition github_connector_transport ::
  "(string \<Rightarrow> int \<Rightarrow> bool \<Rightarrow> 'w \<Rightarrow> 'w \<times> (string + issue_snapshot)) \<Rightarrow> 'w transport" where
  "github_connector_transport canonical_reader =
     \<lparr>read_canonical = canonical_reader, supports_atomic_compare_and_swap = False,
      atomic_compare_and_swap_body = (\<lambda>m w. (w, Inl ''AtomicCASUnsupported''))\<rparr>"

subsection \<open>The transaction\<close>

definition result_of :: "mutation \<Rightarrow> outcome \<Rightarrow> issue_snapshot option \<Rightarrow> nat \<Rightarrow> nat \<Rightarrow> bool \<Rightarrow> string \<Rightarrow> transaction_result" where
  "result_of m outcome snapshot patch_count reads suppressed detail =
     \<lparr>rs_outcome = outcome, rs_expected_body_sha256 = mu_expected_body_sha256 m,
      rs_desired_body_sha256 = mu_desired_body_sha256 m,
      rs_observed_body_sha256 = map_option (\<lambda>s. sha256_hex (sn_body s)) snapshot,
      rs_observed_updated_at = map_option sn_updated_at snapshot, rs_patch_count = patch_count,
      rs_canonical_read_count = reads, rs_retry_suppressed = suppressed, rs_detail = detail\<rparr>"

definition readback_result :: "mutation \<Rightarrow> string + disposition \<Rightarrow> string + issue_snapshot \<Rightarrow> transaction_result" where
  "readback_result m written readback =
     (let patch_failed = (case written of Inl e \<Rightarrow> ''patch_failed:'' @ e @ '';'' | Inr _ \<Rightarrow> []) in
      case readback of
        Inl e \<Rightarrow> result_of m POSTCONDITION_FAILED None 1 2 False (patch_failed @ ''canonical_readback_failed:'' @ e)
      | Inr s \<Rightarrow>
          if sn_body s = mu_desired_body m
          then result_of m APPLIED (Some s) 1 2 False ''byte_exact_canonical_readback''
          else if written = Inr WRITE_CONFLICT
          then result_of m CONFLICT (Some s) 1 2 False ''atomic_write_precondition_conflict''
          else result_of m POSTCONDITION_FAILED (Some s) 1 2 False (patch_failed @ ''canonical_readback_body_mismatch''))"

definition patch_and_read_back :: "'w transport \<Rightarrow> mutation \<Rightarrow> 'w \<Rightarrow> 'w \<times> transaction_result" where
  "patch_and_read_back t m w =
     (let (w1, written) = atomic_compare_and_swap_body t m w;
          (w2, readback) = read_canonical t (mu_repository m) (mu_issue_number m) True w1 in
      (w2, readback_result m written readback))"

definition apply_issue_body_mutation ::
  "'w transport \<Rightarrow> 'l ledger \<Rightarrow> mutation \<Rightarrow> 'w \<times> 'l \<Rightarrow> (('w \<times> 'l) \<times> transaction_result) res" where
  "apply_issue_body_mutation t reserve m s =
     bind_res (validate_mutation m) (\<lambda>_. Inr
       (if \<not> supports_atomic_compare_and_swap t
        then (s, result_of m POSTCONDITION_FAILED None 0 0 False ''transport_does_not_support_atomic_issue_body_cas'')
        else
          case read_canonical t (mu_repository m) (mu_issue_number m) True (fst s) of
            (w, Inl e) \<Rightarrow>
              ((w, snd s), result_of m POSTCONDITION_FAILED None 0 1 False (''initial_canonical_read_failed:'' @ e))
          | (w, Inr current) \<Rightarrow>
              if sn_body current = mu_desired_body m
              then ((w, snd s), result_of m ALREADY_APPLIED (Some current) 0 1 False ''desired_body_already_canonical'')
              else if sha256_hex (sn_body current) \<noteq> mu_expected_body_sha256 m \<or> sn_body current \<noteq> mu_expected_body m \<or>
                sn_updated_at current \<noteq> mu_expected_updated_at m
              then ((w, snd s), result_of m CONFLICT (Some current) 0 1 False ''expected_body_or_timestamp_mismatch'')
              else
                case reserve m (snd s) of
                  (l, Inl e) \<Rightarrow>
                    ((w, l), result_of m POSTCONDITION_FAILED (Some current) 0 1 False (''attempt_ledger_failed:'' @ e))
                | (l, Inr False) \<Rightarrow>
                    ((w, l), result_of m POSTCONDITION_FAILED (Some current) 0 1 True ''same_desired_digest_retry_suppressed'')
                | (l, Inr True) \<Rightarrow> (let (w', r) = patch_and_read_back t m w in ((w', l), r))))"

subsection \<open>At most one patch\<close>

text \<open>
  \<open>AttemptLedger\<close>: a ledger consumes the one patch of a key. \<open>used\<close> reads from its state which keys are
  consumed.
\<close>

locale once_ledger =
  fixes reserve :: "'l ledger"
    and used :: "'l \<Rightarrow> string \<Rightarrow> bool"
  assumes reserved_fresh: "reserve m l = (l', Inr True) \<Longrightarrow> \<not> used l (attempt_key m) \<and> used l' (attempt_key m)"
    and used_kept: "reserve m l = (l', r) \<Longrightarrow> used l k \<Longrightarrow> used l' k"

text \<open>An observer of a transport that writes down every compare-and-swap the transaction asks for.\<close>

definition logged :: "'w transport \<Rightarrow> ('w \<times> mutation list) transport" where
  "logged t =
     \<lparr>read_canonical = (\<lambda>r n c s. case read_canonical t r n c (fst s) of (w, x) \<Rightarrow> ((w, snd s), x)),
      supports_atomic_compare_and_swap = supports_atomic_compare_and_swap t,
      atomic_compare_and_swap_body =
        (\<lambda>m s. case atomic_compare_and_swap_body t m (fst s) of (w, x) \<Rightarrow> ((w, snd s @ [m]), x))\<rparr>"

text \<open>
  A run of transactions that share a ledger: each with a transport of its own, after anything others did
  to the world in between. The results are those of the mutations that validated.
\<close>

fun run_mutations ::
  "'l ledger \<Rightarrow> (('w \<Rightarrow> 'w) \<times> 'w transport \<times> mutation) list \<Rightarrow> ('w \<times> mutation list) \<times> 'l \<Rightarrow>
   (('w \<times> mutation list) \<times> 'l) \<times> transaction_result list" where
  "run_mutations reserve [] s = (s, [])"
| "run_mutations reserve ((others, t, m) # later) s =
     (let s = ((others (fst (fst s)), snd (fst s)), snd s) in
      case apply_issue_body_mutation (logged t) reserve m s of
        Inl _ \<Rightarrow> run_mutations reserve later s
      | Inr (s', r) \<Rightarrow> (case run_mutations reserve later s' of (s'', rs) \<Rightarrow> (s'', r # rs)))"

lemma readback_result_patch_count [simp]: "rs_patch_count (readback_result m written readback) = 1"
  by (simp add: readback_result_def result_of_def Let_def split: sum.split)

text \<open>One transaction asks for no patch, or reserves its key and asks for one.\<close>

lemma apply_patches:
  assumes "apply_issue_body_mutation (logged t) reserve m s = Inr (s', r)"
  shows "snd (fst s') = snd (fst s) \<and> rs_patch_count r = 0 \<and> (snd s' = snd s \<or> (\<exists>x. reserve m (snd s) = (snd s', x))) \<or>
         snd (fst s') = snd (fst s) @ [m] \<and> rs_patch_count r = 1 \<and> reserve m (snd s) = (snd s', Inr True)"
  using assms
  by (auto simp: apply_issue_body_mutation_def logged_def patch_and_read_back_def result_of_def Let_def guard_simps
      split: prod.splits sum.splits if_splits bool.splits)

definition consumed :: "('l \<Rightarrow> string \<Rightarrow> bool) \<Rightarrow> ('w \<times> mutation list) \<times> 'l \<Rightarrow> bool" where
  "consumed used s \<longleftrightarrow> distinct (map attempt_key (snd (fst s))) \<and> (\<forall>m \<in> set (snd (fst s)). used (snd s) (attempt_key m))"

definition log_of_key :: "string \<Rightarrow> ('w \<times> mutation list) \<times> 'l \<Rightarrow> mutation list" where
  "log_of_key k s = filter (\<lambda>m. attempt_key m = k) (snd (fst s))"

context once_ledger
begin

lemma apply_consumed:
  assumes "apply_issue_body_mutation (logged t) reserve m s = Inr (s', r)" "consumed used s"
  shows "consumed used s' \<and> length (snd (fst s')) = length (snd (fst s)) + rs_patch_count r"
  using apply_patches [OF assms(1)] assms(2)
proof (elim disjE conjE exE)
  assume "snd (fst s') = snd (fst s) @ [m]" "rs_patch_count r = 1" "reserve m (snd s) = (snd s', Inr True)"
  then show ?thesis
    using assms(2) reserved_fresh [of m "snd s" "snd s'"] used_kept [of m "snd s" "snd s'" "Inr True"]
    unfolding consumed_def by force
qed (use used_kept in \<open>force simp: consumed_def\<close>)+

lemma apply_used:
  assumes "apply_issue_body_mutation (logged t) reserve m s = Inr (s', r)" "used (snd s) k"
  shows "used (snd s') k \<and> log_of_key k s' = log_of_key k s"
  using apply_patches [OF assms(1)] assms(2) reserved_fresh [of m "snd s" "snd s'"] used_kept
  by (auto simp: log_of_key_def)

lemma run_consumed:
  "consumed used s \<Longrightarrow> run_mutations reserve ms s = (s', rs) \<Longrightarrow>
   consumed used s' \<and> length (snd (fst s')) = length (snd (fst s)) + sum_list (map rs_patch_count rs)"
proof (induction ms arbitrary: s s' rs)
  case (Cons step later)
  obtain others t m where step: "step = (others, t, m)" by (cases step)
  let ?s = "((others (fst (fst s)), snd (fst s)), snd s)"
  have start: "consumed used ?s" using Cons.prems(1) by (simp add: consumed_def)
  show ?case
  proof (cases "apply_issue_body_mutation (logged t) reserve m ?s")
    case (Inl e)
    then show ?thesis using Cons.IH [OF start] Cons.prems(2) by (simp add: step)
  next
    case (Inr res)
    obtain s1 r where res: "res = (s1, r)" by (cases res)
    obtain rs' where rest: "run_mutations reserve later s1 = (s', rs')" and rs: "rs = r # rs'"
      using Cons.prems(2) Inr by (simp add: step res split: prod.splits)
    show ?thesis using apply_consumed [OF Inr [unfolded res] start] Cons.IH [OF _ rest] by (simp add: rs)
  qed
qed simp

lemma run_used:
  "used (snd s) k \<Longrightarrow> run_mutations reserve ms s = (s', rs) \<Longrightarrow> used (snd s') k \<and> log_of_key k s' = log_of_key k s"
proof (induction ms arbitrary: s s' rs)
  case (Cons step later)
  obtain others t m where step: "step = (others, t, m)" by (cases step)
  let ?s = "((others (fst (fst s)), snd (fst s)), snd s)"
  have start: "used (snd ?s) k" "log_of_key k ?s = log_of_key k s" using Cons.prems(1) by (simp_all add: log_of_key_def)
  show ?case
  proof (cases "apply_issue_body_mutation (logged t) reserve m ?s")
    case (Inl e)
    then show ?thesis using Cons.IH [OF start(1)] Cons.prems(2) start(2) by (simp add: step)
  next
    case (Inr res)
    obtain s1 r where res: "res = (s1, r)" by (cases res)
    obtain rs' where rest: "run_mutations reserve later s1 = (s', rs')"
      using Cons.prems(2) Inr by (simp add: step res split: prod.splits)
    show ?thesis using apply_used [OF Inr [unfolded res] start(1)] Cons.IH [OF _ rest] start(2) by simp
  qed
qed simp

end

interpretation memory: once_ledger in_memory_reserve_patch "\<lambda>keys k. k \<in> keys"
  by unfold_locales (auto simp: in_memory_reserve_patch_def split: if_splits)

interpretation sqlite: once_ledger sqlite_reserve_patch "\<lambda>s k. \<exists>r \<in> set (snd s). pa_attempt_key r = k"
  by unfold_locales
    (auto simp: sqlite_reserve_patch_def patch_attempt_of_def split: if_splits prod.splits list.splits option.splits)

text \<open>
  C18: over any run of issue-body transactions that share the durable ledger, whatever their transports do,
  whatever others do to the issues in between and whichever ledger calls fail, at most one patch is ever
  asked for per repository, issue and desired digest, none where the ledger already holds the key, and the
  results report exactly the patches asked for.
\<close>

theorem one_patch_per_digest:
  assumes "run_mutations sqlite_reserve_patch ms ((w, []), (faults, rows)) = (((w', log), l'), rs)"
  shows "distinct (map attempt_key log) \<and> length log = sum_list (map rs_patch_count rs) \<and>
         (\<forall>r \<in> set rows. \<forall>m \<in> set log. attempt_key m \<noteq> pa_attempt_key r)"
proof -
  have "log_of_key (pa_attempt_key r) ((w', log), l') = []" if "r \<in> set rows" for r
    using sqlite.run_used [OF _ assms, of "pa_attempt_key r"] that by (auto simp: log_of_key_def)
  then show ?thesis
    using sqlite.run_consumed [OF _ assms] by (auto simp: consumed_def log_of_key_def filter_empty_conv)
qed

text \<open>A transport over one issue whose write fails without effect, and one that keeps the contract.\<close>

definition example_mutation :: mutation where
  "example_mutation = from_bodies ''o/r'' 7 ''old'' ''t0'' ''new''"

definition failing_transport :: "issue_snapshot transport" where
  "failing_transport =
     \<lparr>read_canonical = (\<lambda>r n c w. (w, Inr w)), supports_atomic_compare_and_swap = True,
      atomic_compare_and_swap_body = (\<lambda>m w. (w, Inl ''TimeoutError''))\<rparr>"

lemma validate_example [simp]: "validate_mutation example_mutation = Inr ()"
  by (simp add: validate_mutation_def example_mutation_def from_bodies_def guard_eval)

lemma example_fields [simp]:
  "mu_desired_body example_mutation = ''new''" "mu_expected_body example_mutation = ''old''"
  "mu_repository example_mutation = ''o/r''" "mu_issue_number example_mutation = 7"
  "mu_expected_updated_at example_mutation = ''t0''" "mu_expected_body_sha256 example_mutation = sha256_hex ''old''"
  by (simp_all add: example_mutation_def from_bodies_def)

lemma example_run:
  "\<exists>l' rs. run_mutations sqlite_reserve_patch
     [(id, failing_transport, example_mutation), (id, failing_transport, example_mutation)]
     ((\<lparr>sn_body = ''old'', sn_updated_at = ''t0''\<rparr>, []), ([None], [])) =
     (((\<lparr>sn_body = ''old'', sn_updated_at = ''t0''\<rparr>, [example_mutation]), l'), rs) \<and>
     map rs_patch_count rs = [1, 0] \<and> map rs_retry_suppressed rs = [False, True]"
  by (simp add: apply_issue_body_mutation_def logged_def failing_transport_def sqlite_reserve_patch_def
      patch_attempt_of_def patch_and_read_back_def readback_result_def result_of_def)

theorem one_patch_per_digest_witness:
  "\<exists>l' rs. run_mutations sqlite_reserve_patch
     [(id, failing_transport, example_mutation), (id, failing_transport, example_mutation)]
     ((\<lparr>sn_body = ''old'', sn_updated_at = ''t0''\<rparr>, []), ([None], [])) =
     (((\<lparr>sn_body = ''old'', sn_updated_at = ''t0''\<rparr>, [example_mutation]), l'), rs) \<and>
     distinct (map attempt_key [example_mutation]) \<and> length [example_mutation] = sum_list (map rs_patch_count rs)"
proof -
  obtain l' rs where run: "run_mutations sqlite_reserve_patch
     [(id, failing_transport, example_mutation), (id, failing_transport, example_mutation)]
     ((\<lparr>sn_body = ''old'', sn_updated_at = ''t0''\<rparr>, []), ([None], [])) =
     (((\<lparr>sn_body = ''old'', sn_updated_at = ''t0''\<rparr>, [example_mutation]), l'), rs)"
    using example_run by blast
  show ?thesis using run one_patch_per_digest [OF run] by (intro exI conjI) (assumption, simp_all only:)
qed

subsection \<open>Outcomes\<close>

text \<open>
  What \<open>IssueBodyTransport\<close> and the transaction's invariants ask of a transport: canonical reads that
  change nothing and return the issue as it is (\<open>view\<close> reads it from the world), and a compare-and-swap
  that, when it changes the world at all, replaces exactly the expected body at the expected time by the
  desired body of that issue and no other. It may raise after it wrote, and it may raise without writing.
\<close>

definition atomic_transport :: "('w \<Rightarrow> string \<Rightarrow> int \<Rightarrow> issue_snapshot option) \<Rightarrow> 'w transport \<Rightarrow> bool" where
  "atomic_transport view t \<longleftrightarrow>
     (\<forall>r n w w' x. read_canonical t r n True w = (w', x) \<longrightarrow> w' = w \<and> (\<forall>s. x = Inr s \<longrightarrow> view w r n = Some s)) \<and>
     (\<forall>m w w' x. atomic_compare_and_swap_body t m w = (w', x) \<longrightarrow> w' = w \<or>
        view w (mu_repository m) (mu_issue_number m) =
          Some \<lparr>sn_body = mu_expected_body m, sn_updated_at = mu_expected_updated_at m\<rparr> \<and>
        map_option sn_body (view w' (mu_repository m) (mu_issue_number m)) = Some (mu_desired_body m) \<and>
        (\<forall>r n. (r, n) \<noteq> (mu_repository m, mu_issue_number m) \<longrightarrow> view w' r n = view w r n))"

lemma atomic_read:
  "atomic_transport view t \<Longrightarrow> read_canonical t r n True w = (w', x) \<Longrightarrow> w' = w \<and> (\<forall>s. x = Inr s \<longrightarrow> view w r n = Some s)"
  unfolding atomic_transport_def by blast

lemma atomic_write:
  "atomic_transport view t \<Longrightarrow> atomic_compare_and_swap_body t m w = (w', x) \<Longrightarrow> w' = w \<or>
     view w (mu_repository m) (mu_issue_number m) =
       Some \<lparr>sn_body = mu_expected_body m, sn_updated_at = mu_expected_updated_at m\<rparr> \<and>
     map_option sn_body (view w' (mu_repository m) (mu_issue_number m)) = Some (mu_desired_body m) \<and>
     (\<forall>r n. (r, n) \<noteq> (mu_repository m, mu_issue_number m) \<longrightarrow> view w' r n = view w r n)"
  unfolding atomic_transport_def by blast

lemma readback_applied:
  "rs_outcome (readback_result m written readback) = APPLIED \<longleftrightarrow> (\<exists>s. readback = Inr s \<and> sn_body s = mu_desired_body m)"
  "rs_outcome (readback_result m written readback) \<noteq> ALREADY_APPLIED"
  by (simp_all add: readback_result_def result_of_def Let_def split: sum.split)

text \<open>What the transaction did, read off its result: it read only, or it patched and read back.\<close>

lemma apply_cases:
  assumes "apply_issue_body_mutation t reserve m (w, l) = Inr ((w', l'), r)" "atomic_transport view t"
  obtains (read_only) "w' = w" "rs_patch_count r = 0" "rs_outcome r \<noteq> APPLIED"
      "rs_outcome r = ALREADY_APPLIED \<Longrightarrow> map_option sn_body (view w (mu_repository m) (mu_issue_number m)) = Some (mu_desired_body m)"
    | (patched) written readback where "atomic_compare_and_swap_body t m w = (w', written)"
      "read_canonical t (mu_repository m) (mu_issue_number m) True w' = (w', readback)"
      "r = readback_result m written readback"
proof -
  note parts = apply_issue_body_mutation_def patch_and_read_back_def result_of_def Let_def guard_simps
  show thesis
    using assms(1) atomic_read [OF assms(2)] read_only patched
    by (auto simp: parts split: prod.splits sum.splits if_splits bool.splits) metis+
qed

text \<open>
  C22: with a transport that keeps its contract, the outcome is truthful. APPLIED and ALREADY_APPLIED mean
  that the issue's body is the desired one when the transaction returns; the world changes only by a
  reported patch, only from exactly the expected body and time to the desired body, and no other issue is
  touched.
\<close>

theorem issue_body_outcome_truthful:
  assumes "atomic_transport view t" "apply_issue_body_mutation t reserve m (w, l) = Inr ((w', l'), r)"
  shows "(rs_outcome r \<in> {APPLIED, ALREADY_APPLIED} \<longrightarrow>
            map_option sn_body (view w' (mu_repository m) (mu_issue_number m)) = Some (mu_desired_body m)) \<and>
         (w' \<noteq> w \<longrightarrow> rs_patch_count r = 1 \<and>
            view w (mu_repository m) (mu_issue_number m) =
              Some \<lparr>sn_body = mu_expected_body m, sn_updated_at = mu_expected_updated_at m\<rparr> \<and>
            map_option sn_body (view w' (mu_repository m) (mu_issue_number m)) = Some (mu_desired_body m) \<and>
            (\<forall>r n. (r, n) \<noteq> (mu_repository m, mu_issue_number m) \<longrightarrow> view w' r n = view w r n))"
  using assms(2,1)
proof (cases rule: apply_cases)
  case read_only
  then show ?thesis by auto
next
  case (patched written readback)
  have "map_option sn_body (view w' (mu_repository m) (mu_issue_number m)) = Some (mu_desired_body m)"
    if "rs_outcome r \<in> {APPLIED, ALREADY_APPLIED}"
    using that atomic_read [OF assms(1) patched(2)] unfolding patched(3) by (auto simp: readback_applied)
  then show ?thesis using atomic_write [OF assms(1) patched(1)] patched(3) by auto
qed

definition honest_transport :: "issue_snapshot transport" where
  "honest_transport =
     \<lparr>read_canonical = (\<lambda>r n c w. if (r, n) = (''o/r'', 7) then (w, Inr w) else (w, Inl ''LookupError'')),
      supports_atomic_compare_and_swap = True,
      atomic_compare_and_swap_body =
        (\<lambda>m w. if (mu_repository m, mu_issue_number m) = (''o/r'', 7) \<and> sn_body w = mu_expected_body m \<and>
                  sn_updated_at w = mu_expected_updated_at m
               then (\<lparr>sn_body = mu_desired_body m, sn_updated_at = ''t1''\<rparr>, Inr WRITE_APPLIED)
               else (w, Inr WRITE_CONFLICT))\<rparr>"

definition honest_view :: "issue_snapshot \<Rightarrow> string \<Rightarrow> int \<Rightarrow> issue_snapshot option" where
  "honest_view w r n = (if (r, n) = (''o/r'', 7) then Some w else None)"

lemma honest_atomic: "atomic_transport honest_view honest_transport"
  unfolding atomic_transport_def honest_view_def honest_transport_def by (simp split: if_splits)

lemma honest_run:
  "\<exists>r. apply_issue_body_mutation honest_transport in_memory_reserve_patch example_mutation
     (\<lparr>sn_body = ''old'', sn_updated_at = ''t0''\<rparr>, {}) =
     Inr ((\<lparr>sn_body = ''new'', sn_updated_at = ''t1''\<rparr>, {attempt_key example_mutation}), r) \<and> rs_outcome r = APPLIED"
  by (simp add: apply_issue_body_mutation_def honest_transport_def in_memory_reserve_patch_def
      patch_and_read_back_def readback_result_def result_of_def)

theorem issue_body_outcome_truthful_witness:
  "\<exists>r. apply_issue_body_mutation honest_transport in_memory_reserve_patch example_mutation
     (\<lparr>sn_body = ''old'', sn_updated_at = ''t0''\<rparr>, {}) =
     Inr ((\<lparr>sn_body = ''new'', sn_updated_at = ''t1''\<rparr>, {attempt_key example_mutation}), r) \<and> rs_outcome r = APPLIED \<and>
     map_option sn_body (honest_view \<lparr>sn_body = ''new'', sn_updated_at = ''t1''\<rparr>
       (mu_repository example_mutation) (mu_issue_number example_mutation)) = Some ''new''"
  using honest_run issue_body_outcome_truthful [OF honest_atomic] by (metis example_fields(1) insertI1)

text \<open>The GitHub connector is refused before any read, whatever its reader does.\<close>

lemma github_connector_refused:
  "validate_mutation m = Inr () \<Longrightarrow>
   apply_issue_body_mutation (github_connector_transport canonical_reader) reserve m s =
     Inr (s, result_of m POSTCONDITION_FAILED None 0 0 False ''transport_does_not_support_atomic_issue_body_cas'')"
  by (simp add: apply_issue_body_mutation_def github_connector_transport_def)

end
