(* ===== verification/Json_Text.thy ===== *)
theory Json_Text
  imports Json_Value "HOL-Library.AList"
begin

section \<open>Reading JSON\<close>

text \<open>
  \<open>json.loads\<close> of the standard library, for the texts that reach the code as a string and not as a column:
  white space, literals, strings with their escapes (the result is the UTF-8 text), integers, arrays and
  objects, where the last value of a repeated key wins in the place of the first. Fractional numbers and
  lone surrogates, which have no value here, do not decode.

  The parser recurses on a bound on the nesting. Two levels consume a character, so twice the length of the
  text is bound enough: \<open>parse_fuel\<close> shows that a greater bound gives the same result. The last part shows that reading inverts \<open>canonical_json\<close>.
\<close>

definition is_ws :: "char \<Rightarrow> bool" where
  "is_ws c \<longleftrightarrow> c = CHR '' '' \<or> c = CHR 0x09 \<or> c = CHR 0x0A \<or> c = CHR 0x0D"

definition skip_ws :: "string \<Rightarrow> string" where
  "skip_ws s = dropWhile is_ws s"

subsection \<open>Strings\<close>

definition hex_value :: "char \<Rightarrow> nat option" where
  "hex_value c =
     (if is_digit c then Some (of_char c - 48)
      else if CHR ''a'' \<le> c \<and> c \<le> CHR ''f'' then Some (of_char c - 87)
      else if CHR ''A'' \<le> c \<and> c \<le> CHR ''F'' then Some (of_char c - 55) else None)"

definition hex4 :: "string \<Rightarrow> nat option" where
  "hex4 s =
     (case s of
        a # b # c # e # _ \<Rightarrow>
          (case (hex_value a, hex_value b, hex_value c, hex_value e) of
             (Some a, Some b, Some c, Some e) \<Rightarrow> Some (((a * 16 + b) * 16 + c) * 16 + e)
           | _ \<Rightarrow> None)
      | _ \<Rightarrow> None)"

definition utf8 :: "nat \<Rightarrow> string" where
  "utf8 n =
     (if n < 0x80 then [char_of n]
      else if n < 0x800 then [char_of (0xC0 + n div 64), char_of (0x80 + n mod 64)]
      else if n < 0x10000 then [char_of (0xE0 + n div 4096), char_of (0x80 + n div 64 mod 64), char_of (0x80 + n mod 64)]
      else [char_of (0xF0 + n div 262144), char_of (0x80 + n div 4096 mod 64), char_of (0x80 + n div 64 mod 64),
            char_of (0x80 + n mod 64)])"

text \<open>The character an escape stands for, with the number of characters after the letter it takes.\<close>

definition unicode_escape :: "string \<Rightarrow> (string \<times> nat) option" where
  "unicode_escape s =
     (case hex4 s of
        None \<Rightarrow> None
      | Some n \<Rightarrow>
          if 0xD800 \<le> n \<and> n < 0xDC00 then
            (if take 2 (drop 4 s) = [CHR 0x5C, CHR ''u''] then
               (case hex4 (drop 6 s) of
                  None \<Rightarrow> None
                | Some m \<Rightarrow> if 0xDC00 \<le> m \<and> m < 0xE000
                    then Some (utf8 (0x10000 + (n - 0xD800) * 1024 + (m - 0xDC00)), 10) else None)
             else None)
          else if 0xDC00 \<le> n \<and> n < 0xE000 then None
          else Some (utf8 n, 4))"

definition simple_escape :: "char \<Rightarrow> char option" where
  "simple_escape c =
     (if c = CHR 0x22 \<or> c = CHR 0x5C \<or> c = CHR ''/'' then Some c
      else if c = CHR ''b'' then Some (CHR 0x08) else if c = CHR ''f'' then Some (CHR 0x0C)
      else if c = CHR ''n'' then Some (CHR 0x0A) else if c = CHR ''r'' then Some (CHR 0x0D)
      else if c = CHR ''t'' then Some (CHR 0x09) else None)"

function json_chars :: "string \<Rightarrow> (string \<times> string) option" where
  "json_chars [] = None"
| "json_chars (c # s) =
     (if c = CHR 0x22 then Some ([], s)
      else if c = CHR 0x5C then
        (case s of
           [] \<Rightarrow> None
         | e # t \<Rightarrow>
             if e = CHR ''u'' then
               (case unicode_escape t of
                  None \<Rightarrow> None
                | Some (x, k) \<Rightarrow> map_option (apfst (append x)) (json_chars (drop k t)))
             else (case simple_escape e of
                None \<Rightarrow> None
              | Some x \<Rightarrow> map_option (apfst (Cons x)) (json_chars t)))
      else if of_char c < (32 :: nat) then None
      else map_option (apfst (Cons c)) (json_chars s))"
  by pat_completeness auto
termination by (relation "measure length") auto

subsection \<open>Values\<close>

definition fraction_follows :: "string \<Rightarrow> bool" where
  "fraction_follows s \<longleftrightarrow>
     (case s of
        CHR ''.'' # c # _ \<Rightarrow> is_digit c
      | e # c # t \<Rightarrow> (e = CHR ''e'' \<or> e = CHR ''E'') \<and>
          (is_digit c \<or> ((c = CHR ''+'' \<or> c = CHR ''-'') \<and> t \<noteq> [] \<and> is_digit (hd t)))
      | _ \<Rightarrow> False)"

definition leading_digits :: "string \<Rightarrow> string" where
  "leading_digits t = (if t \<noteq> [] \<and> hd t = CHR ''0'' then ''0'' else takeWhile is_digit t)"

definition json_number :: "string \<Rightarrow> (pyval \<times> string) option" where
  "json_number s =
     (let negative = (s \<noteq> [] \<and> hd s = CHR ''-''); t = (if negative then tl s else s);
          digits = leading_digits t;
          rest = drop (length digits) t; n = int (nat_of_digits digits) in
      if digits = [] \<or> fraction_follows rest then None
      else Some (PInt (if negative then - n else n), rest))"

definition json_literal :: "string \<Rightarrow> (pyval \<times> string) option" where
  "json_literal s =
     (if prefix ''null'' s then Some (PNone, drop 4 s)
      else if prefix ''true'' s then Some (PBool True, drop 4 s)
      else if prefix ''false'' s then Some (PBool False, drop 5 s)
      else json_number s)"

definition dict_of_pairs :: "pydict \<Rightarrow> pydict" where
  "dict_of_pairs kvs = foldl (\<lambda>d kv. AList.update (fst kv) (snd kv) d) [] kvs"

fun parse_value :: "nat \<Rightarrow> string \<Rightarrow> (pyval \<times> string) option"
  and parse_members :: "nat \<Rightarrow> string \<Rightarrow> (pydict \<times> string) option"
  and parse_elements :: "nat \<Rightarrow> string \<Rightarrow> (pyval list \<times> string) option"
where
  "parse_value 0 s = None"
| "parse_value (Suc n) s =
     (case s of
        [] \<Rightarrow> None
      | c # t \<Rightarrow>
          if c = CHR 0x22 then map_option (apfst PStr) (json_chars t)
          else if c = CHR ''{'' then
            (case skip_ws t of
               [] \<Rightarrow> None
             | x # r \<Rightarrow> if x = CHR ''}'' then Some (PDict [], r)
                else map_option (apfst (\<lambda>kvs. PDict (dict_of_pairs kvs))) (parse_members n (x # r)))
          else if c = CHR ''['' then
            (case skip_ws t of
               [] \<Rightarrow> None
             | x # r \<Rightarrow> if x = CHR '']'' then Some (PList [], r)
                else map_option (apfst PList) (parse_elements n (x # r)))
          else json_literal s)"
| "parse_members 0 s = None"
| "parse_members (Suc n) s =
     (case s of
        [] \<Rightarrow> None
      | c # t \<Rightarrow>
          if c \<noteq> CHR 0x22 then None
          else Option.bind (json_chars t) (\<lambda>(k, r).
            case skip_ws r of
              [] \<Rightarrow> None
            | x # r \<Rightarrow> if x \<noteq> CHR '':'' then None
                else Option.bind (parse_value n (skip_ws r)) (\<lambda>(v, r).
                  case skip_ws r of
                    [] \<Rightarrow> None
                  | x # r \<Rightarrow> if x = CHR '','' then map_option (apfst (Cons (k, v))) (parse_members n (skip_ws r))
                      else if x = CHR ''}'' then Some ([(k, v)], r) else None)))"
| "parse_elements 0 s = None"
| "parse_elements (Suc n) s =
     Option.bind (parse_value n s) (\<lambda>(v, r).
       case skip_ws r of
         [] \<Rightarrow> None
       | x # r \<Rightarrow> if x = CHR '','' then map_option (apfst (Cons v)) (parse_elements n (skip_ws r))
           else if x = CHR '']'' then Some ([v], r) else None)"

definition json_loads :: "string \<Rightarrow> pyval option" where
  "json_loads s =
     Option.bind (parse_value (2 * length s + 2) (skip_ws s)) (\<lambda>(v, r). if skip_ws r = [] then Some v else None)"


subsection \<open>The bound is enough\<close>

lemma skip_ws_le: "length (skip_ws s) \<le> length s"
  by (simp add: skip_ws_def length_dropWhile_le)

lemma skip_ws_Cons_less: "skip_ws s = x # r \<Longrightarrow> length r < length s"
  using skip_ws_le [of s] by simp

lemma json_chars_less: "json_chars s = Some (x, r) \<Longrightarrow> length r < length s"
proof (induction s arbitrary: x rule: json_chars.induct)
  case (2 c s)
  show ?case
  proof (cases "c = CHR 0x5C")
    case False
    with 2(3) [OF _ False] "2.prems" show ?thesis by (fastforce split: if_splits)
  next
    case True
    with "2.prems" obtain e t where s: "s = e # t" by (auto split: if_splits list.splits)
    show ?thesis
    proof (cases "e = CHR ''u''")
      case True
      with "2.prems" s \<open>c = CHR 0x5C\<close> obtain y k z where "unicode_escape t = Some (y, k)" "json_chars (drop k t) = Some (z, r)"
        by (auto split: option.splits)
      with 2(1) [OF _ _ s True] \<open>c = CHR 0x5C\<close> show ?thesis by (fastforce simp: s)
    next
      case False
      with "2.prems" s \<open>c = CHR 0x5C\<close> obtain y z where "simple_escape e = Some y" "json_chars t = Some (z, r)"
        by (auto split: option.splits)
      with 2(2) [OF _ _ s False] \<open>c = CHR 0x5C\<close> show ?thesis by (fastforce simp: s)
    qed
  qed
qed simp

lemma json_literal_less: "json_literal s = Some (v, r) \<Longrightarrow> length r < length s"
proof -
  have number: "length r < length s" if "json_number s = Some (v, r)"
    using that by (cases s) (auto simp: json_number_def leading_digits_def Let_def split: if_splits)
  show "json_literal s = Some (v, r) \<Longrightarrow> length r < length s"
    using number by (auto simp: json_literal_def dest!: prefix_length_le split: if_splits)
qed

text \<open>One step of each parser, as an elimination rule.\<close>

lemma parse_members_SucE:
  assumes "parse_members (Suc n) s = Some (kvs, r)"
  obtains t k r1 r2 v r3 x r4 where "s = CHR 0x22 # t" "json_chars t = Some (k, r1)" "skip_ws r1 = CHR '':'' # r2"
    "parse_value n (skip_ws r2) = Some (v, r3)" "skip_ws r3 = x # r4"
    "(\<exists>more. x = CHR '','' \<and> parse_members n (skip_ws r4) = Some (more, r) \<and> kvs = (k, v) # more) \<or>
     (x = CHR ''}'' \<and> kvs = [(k, v)] \<and> r = r4)"
proof -
  from assms obtain t where s: "s = CHR 0x22 # t" by (cases s) (simp_all split: if_splits)
  with assms obtain k r1 where k: "json_chars t = Some (k, r1)" by (cases "json_chars t") auto
  with s assms obtain r2 where r2: "skip_ws r1 = CHR '':'' # r2" by (cases "skip_ws r1") (simp_all split: if_splits)
  with s k assms obtain v r3 where v: "parse_value n (skip_ws r2) = Some (v, r3)"
    by (cases "parse_value n (skip_ws r2)") auto
  with s k r2 assms obtain x r4 where x: "skip_ws r3 = x # r4" by (cases "skip_ws r3") simp_all
  show thesis
    by (rule that [OF s k r2 v x]) (use assms s k r2 v x in \<open>auto split: if_splits\<close>)
qed

lemma parse_elements_SucE:
  assumes "parse_elements (Suc n) s = Some (vs, r)"
  obtains v r1 x r2 where "parse_value n s = Some (v, r1)" "skip_ws r1 = x # r2"
    "(\<exists>more. x = CHR '','' \<and> parse_elements n (skip_ws r2) = Some (more, r) \<and> vs = v # more) \<or>
     (x = CHR '']'' \<and> vs = [v] \<and> r = r2)"
proof -
  from assms obtain v r1 where v: "parse_value n s = Some (v, r1)" by (cases "parse_value n s") auto
  with assms obtain x r2 where x: "skip_ws r1 = x # r2" by (cases "skip_ws r1") simp_all
  show thesis by (rule that [OF v x]) (use assms v x in \<open>auto split: if_splits\<close>)
qed

lemma parse_less:
  "(\<forall>s v r. parse_value n s = Some (v, r) \<longrightarrow> length r < length s) \<and>
   (\<forall>s kvs r. parse_members n s = Some (kvs, r) \<longrightarrow> length r < length s) \<and>
   (\<forall>s vs r. parse_elements n s = Some (vs, r) \<longrightarrow> length r < length s)"
proof (induction n)
  case (Suc n)
  then have v: "\<And>s v r. parse_value n s = Some (v, r) \<Longrightarrow> length r < length s"
    and m: "\<And>s kvs r. parse_members n s = Some (kvs, r) \<Longrightarrow> length r < length s"
    and e: "\<And>s vs r. parse_elements n s = Some (vs, r) \<Longrightarrow> length r < length s" by blast+
  have "length r < length s" if p: "parse_value (Suc n) s = Some (w, r)" for s w r
  proof -
    from p obtain c t where s: "s = c # t" by (cases s) auto
    note skip = skip_ws_le [of t]
    from p skip show ?thesis
      using json_literal_less [of s w r] json_chars_less [of t _ r] m [of "skip_ws t" _ r] e [of "skip_ws t" _ r]
        skip_ws_Cons_less [of t _ r]
      unfolding s by (fastforce split: if_splits list.splits)
  qed
  moreover have "length r < length s" if p: "parse_members (Suc n) s = Some (kvs, r)" for s kvs r
    using p
  proof (rule parse_members_SucE)
    fix t k r1 r2 v' r3 x r4
    assume a: "s = CHR 0x22 # t" "json_chars t = Some (k, r1)" "skip_ws r1 = CHR '':'' # r2"
      "parse_value n (skip_ws r2) = Some (v', r3)" "skip_ws r3 = x # r4"
      "(\<exists>more. x = CHR '','' \<and> parse_members n (skip_ws r4) = Some (more, r) \<and> kvs = (k, v') # more) \<or>
       (x = CHR ''}'' \<and> kvs = [(k, v')] \<and> r = r4)"
    from json_chars_less [OF a(2)] skip_ws_Cons_less [OF a(3)] v [OF a(4)] skip_ws_le [of r2] skip_ws_Cons_less [OF a(5)]
    have "length r4 < length s" by (simp add: a(1))
    with a(6) m [of "skip_ws r4" _ r] skip_ws_le [of r4] show ?thesis by fastforce
  qed
  moreover have "length r < length s" if p: "parse_elements (Suc n) s = Some (vs, r)" for s vs r
    using p
  proof (rule parse_elements_SucE)
    fix v' r1 x r2
    assume a: "parse_value n s = Some (v', r1)" "skip_ws r1 = x # r2"
      "(\<exists>more. x = CHR '','' \<and> parse_elements n (skip_ws r2) = Some (more, r) \<and> vs = v' # more) \<or>
       (x = CHR '']'' \<and> vs = [v'] \<and> r = r2)"
    from v [OF a(1)] skip_ws_Cons_less [OF a(2)] have "length r2 < length s" by simp
    with a(3) e [of "skip_ws r2" _ r] skip_ws_le [of r2] show ?thesis by fastforce
  qed
  ultimately show ?case by blast
qed simp

lemmas parse_value_less = parse_less [THEN conjunct1, rule_format]

lemma parse_fuel_all:
  "(\<forall>s m. 2 * length s < n \<longrightarrow> 2 * length s < m \<longrightarrow> parse_value n s = parse_value m s) \<and>
   (\<forall>s m. 2 * length s < n \<longrightarrow> 2 * length s < m \<longrightarrow> parse_members n s = parse_members m s) \<and>
   (\<forall>s m. 2 * length s + 1 < n \<longrightarrow> 2 * length s + 1 < m \<longrightarrow> parse_elements n s = parse_elements m s)"
proof (induction n)
  case (Suc n)
  then have v: "\<And>s m. 2 * length s < n \<Longrightarrow> 2 * length s < m \<Longrightarrow> parse_value n s = parse_value m s"
    and m: "\<And>s m. 2 * length s < n \<Longrightarrow> 2 * length s < m \<Longrightarrow> parse_members n s = parse_members m s"
    and e: "\<And>s m. 2 * length s + 1 < n \<Longrightarrow> 2 * length s + 1 < m \<Longrightarrow> parse_elements n s = parse_elements m s" by blast+
  have "parse_value (Suc n) s = parse_value k s" if bound: "2 * length s < Suc n" "2 * length s < k" for s k
  proof -
    from bound(2) obtain j where k: "k = Suc j" by (cases k) auto
    show ?thesis
    proof (cases s)
      case (Cons c t)
      have "parse_members n (x # r) = parse_members j (x # r)" "parse_elements n (x # r) = parse_elements j (x # r)"
        if "skip_ws t = x # r" for x r
        using m [of "x # r" j] e [of "x # r" j] skip_ws_le [of t] that bound
        by (simp_all add: Cons k)
      then show ?thesis by (simp add: Cons k split: list.splits)
    qed (simp add: k)
  qed
  moreover have "parse_members (Suc n) s = parse_members k s" if bound: "2 * length s < Suc n" "2 * length s < k" for s k
  proof -
    from bound(2) obtain j where k: "k = Suc j" by (cases k) auto
    show ?thesis
    proof (cases s)
      case (Cons c t)
      have "parse_value n (skip_ws r2) = parse_value j (skip_ws r2)"
        if "json_chars t = Some (key, r1)" "skip_ws r1 = x # r2" for key r1 x r2
        using v [of "skip_ws r2" j] json_chars_less [OF that(1)] skip_ws_Cons_less [OF that(2)] skip_ws_le [of r2]
          bound by (simp add: Cons k)
      moreover have "parse_members n (skip_ws r4) = parse_members j (skip_ws r4)"
        if "json_chars t = Some (key, r1)" "skip_ws r1 = x # r2" "parse_value j (skip_ws r2) = Some (w, r3)" "skip_ws r3 = y # r4"
        for key r1 x r2 w r3 y r4
        using m [of "skip_ws r4" j] json_chars_less [OF that(1)] skip_ws_Cons_less [OF that(2)] skip_ws_le [of r2]
          parse_value_less [OF that(3)] skip_ws_Cons_less [OF that(4)] skip_ws_le [of r4]
          bound by (simp add: Cons k)
      ultimately show ?thesis
        by (auto simp: Cons k intro!: Option.bind_cong split: list.splits)
    qed (simp add: k)
  qed
  moreover have "parse_elements (Suc n) s = parse_elements k s" if bound: "2 * length s + 1 < Suc n" "2 * length s + 1 < k" for s k
  proof -
    from bound(2) obtain j where k: "k = Suc j" by (cases k) auto
    have "parse_value n s = parse_value j s" using v [of s j] bound by (simp add: k)
    moreover have "parse_elements n (skip_ws r2) = parse_elements j (skip_ws r2)"
      if "parse_value j s = Some (w, r1)" "skip_ws r1 = x # r2" for w r1 x r2
      using e [of "skip_ws r2" j] parse_value_less [OF that(1)] skip_ws_Cons_less [OF that(2)] skip_ws_le [of r2]
        bound by (simp add: k)
    ultimately show ?thesis by (auto simp: k intro!: Option.bind_cong split: list.splits)
  qed
  ultimately show ?case by blast
qed simp

lemmas parse_fuel = parse_fuel_all [THEN conjunct1, rule_format]

subsection \<open>Reading what was written\<close>

text \<open>The value a canonical text denotes: every dictionary in the order of its keys.\<close>

fun sort_keys :: "pyval \<Rightarrow> pyval" where
  "sort_keys (PList xs) = PList (map sort_keys xs)"
| "sort_keys (PDict kvs) = PDict (sort_key fst (map (\<lambda>kv. (fst kv, sort_keys (snd kv))) kvs))"
| "sort_keys v = v"

fun distinct_keys :: "pyval \<Rightarrow> bool" where
  "distinct_keys (PList xs) = list_all distinct_keys xs"
| "distinct_keys (PDict kvs) = (distinct (map fst kvs) \<and> list_all (\<lambda>kv. distinct_keys (snd kv)) kvs)"
| "distinct_keys v = True"

lemma insort_key_fst_map:
  "insort_key fst (fst kv, g (snd kv)) (map (\<lambda>kv. (fst kv, g (snd kv))) kvs) =
   map (\<lambda>kv. (fst kv, g (snd kv))) (insort_key fst kv kvs)"
  by (induction kvs) auto

lemma sort_key_fst_map:
  "sort_key fst (map (\<lambda>kv. (fst kv, g (snd kv))) kvs) = map (\<lambda>kv. (fst kv, g (snd kv))) (sort_key fst kvs)"
  by (induction kvs) (simp_all add: insort_key_fst_map)

definition member_text :: "string \<times> pyval \<Rightarrow> string" where
  "member_text kv = json_string (fst kv) @ '':'' @ canonical_json (snd kv)"

lemma canonical_json_members:
  "canonical_json (PDict kvs) = ''{'' @ join '','' (map member_text (sort_key fst kvs)) @ ''}''"
proof -
  have "map (\<lambda>kt. json_string (fst kt) @ '':'' @ snd kt) (sort_key fst (map (\<lambda>kv. (fst kv, canonical_json (snd kv))) kvs)) =
      map member_text (sort_key fst kvs)"
    unfolding sort_key_fst_map by (simp add: member_text_def)
  then show ?thesis by simp
qed

lemma dict_of_pairs_distinct: "distinct (map fst kvs) \<Longrightarrow> dict_of_pairs kvs = kvs"
proof -
  have new: "AList.update k v d = d @ [(k, v)]" if "k \<notin> fst ` set d" for k and v :: pyval and d
    using that by (induction d) auto
  have "distinct (map fst d @ map fst kvs) \<Longrightarrow> foldl (\<lambda>d kv. AList.update (fst kv) (snd kv) d) d kvs = d @ kvs" for d
  proof (induction kvs arbitrary: d)
    case (Cons kv kvs)
    then have "AList.update (fst kv) (snd kv) d = d @ [kv]" using new [of "fst kv" d "snd kv"] by force
    with Cons show ?case by simp
  qed simp
  from this [of "[]"] show "distinct (map fst kvs) \<Longrightarrow> dict_of_pairs kvs = kvs" by (simp add: dict_of_pairs_def)
qed

lemma hex_value_hex_digit:
  assumes "0 \<le> n" "n < 16"
  shows "hex_value (hex_digit n) = Some (nat n)"
proof -
  have all: "\<forall>n \<in> set [0..15]. hex_value (hex_digit n) = Some (nat n)" by code_simp
  from assms have "n \<in> set [0..15]" by simp
  with all show ?thesis by blast
qed

lemma control_escape:
  assumes "of_char c < (32 :: nat)"
  shows "unicode_escape (CHR ''0'' # CHR ''0'' # hex_digit (of_char c div 16) # hex_digit (of_char c mod 16) # s) = Some ([c], 4)"
proof -
  let ?n = "of_char c :: nat"
  have z: "hex_value (CHR ''0'') = Some 0" by code_simp
  have d: "hex_value (hex_digit (of_char c div 16)) = Some (?n div 16)" "hex_value (hex_digit (of_char c mod 16)) = Some (?n mod 16)"
  proof -
    have i: "(of_char c :: int) = int ?n" by (rule of_nat_of_char [symmetric])
    have "(0 :: int) \<le> of_char c div 16" "of_char c div 16 < (16 :: int)" "(0 :: int) \<le> of_char c mod 16" "of_char c mod 16 < (16 :: int)"
      using assms unfolding i by auto
    note d = hex_value_hex_digit [OF this(1,2)] hex_value_hex_digit [OF this(3,4)]
    show "hex_value (hex_digit (of_char c div 16)) = Some (?n div 16)" "hex_value (hex_digit (of_char c mod 16)) = Some (?n mod 16)"
      using d unfolding i by (simp_all add: nat_div_distrib nat_mod_distrib)
  qed
  have "hex4 (CHR ''0'' # CHR ''0'' # hex_digit (of_char c div 16) # hex_digit (of_char c mod 16) # s) = Some ?n"
    by (simp add: hex4_def z d)
  with assms show ?thesis by (simp add: unicode_escape_def utf8_def)
qed

lemma json_chars_escaped: "json_chars (concat (map json_escape s) @ CHR 0x22 # rest) = Some (s, rest)"
proof (induction s)
  case (Cons c s)
  consider (simple) e where "json_escape c = [CHR 0x5C, e]" "simple_escape e = Some c" "e \<noteq> CHR ''u''"
    | (control) "of_char c < (32 :: nat)"
        "json_escape c = [CHR 0x5C, CHR ''u'', CHR ''0'', CHR ''0'', hex_digit (of_char c div 16), hex_digit (of_char c mod 16)]"
    | (plain) "json_escape c = [c]" "c \<noteq> CHR 0x22" "c \<noteq> CHR 0x5C" "\<not> of_char c < (32 :: nat)"
  proof (cases "c \<in> {CHR 0x22, CHR 0x5C, CHR 0x0A, CHR 0x0D, CHR 0x09, CHR 0x08, CHR 0x0C}")
    case True
    then have "\<exists>e. json_escape c = [CHR 0x5C, e] \<and> simple_escape e = Some c \<and> e \<noteq> CHR ''u''"
      by (auto simp: json_escape_def simple_escape_def)
    with that(1) show thesis by blast
  next
    case False
    have "(of_char c :: int) = int (of_char c)" by (rule of_nat_of_char [symmetric])
    then have "(of_char c :: int) < 32 \<longleftrightarrow> (of_char c :: nat) < 32" by linarith
    with False that(2,3) show thesis by (cases "(of_char c :: nat) < 32") (auto simp: json_escape_def)
  qed
  then show ?case
  proof cases
    case simple
    with Cons show ?thesis by simp
  next
    case control
    with Cons control_escape [OF control(1)] show ?thesis by simp
  next
    case plain
    with Cons show ?thesis by simp
  qed
qed simp



definition stops :: "string \<Rightarrow> bool" where
  "stops rest \<longleftrightarrow> (case rest of [] \<Rightarrow> True | c # _ \<Rightarrow> c = CHR '','' \<or> c = CHR '']'' \<or> c = CHR ''}'')"

lemma stops_simps [simp]:
  "stops []" "stops (CHR '','' # s)" "stops (CHR '']'' # s)" "stops (CHR ''}'' # s)"
  by (simp_all add: stops_def)

lemma stops_cases:
  assumes "stops rest"
  shows "\<not> fraction_follows rest" and "rest \<noteq> [] \<Longrightarrow> \<not> is_digit (hd rest)"
  using assms by (cases rest; auto simp: stops_def fraction_follows_def char_class_defs split: list.splits)+

lemma digits_run:
  assumes "stops rest"
  shows "takeWhile is_digit (str_of_nat n @ rest) = str_of_nat n"
  using takeWhile_run(1) [OF list_all_is_digit_str_of_nat, of rest n] stops_cases(2) [OF assms] by auto

lemma str_of_nat_0: "str_of_nat 0 = ''0''"
  by code_simp

lemma json_digits:
  assumes "stops rest"
  shows "leading_digits (str_of_nat n @ rest) = str_of_nat n"
  using hd_str_of_nat [of n] digits_run [OF assms, of n]
  by (cases "n = 0") (auto simp: leading_digits_def str_of_nat_0 hd_append)

lemma hd_str_of_nat_digit: "is_digit (hd (str_of_nat n))"
  using list_all_is_digit_str_of_nat [of n] by (cases "str_of_nat n") auto

lemma json_number_int:
  assumes "stops rest"
  shows "json_number (str_of_int i @ rest) = Some (PInt i, rest)"
proof (cases "i < 0")
  case True
  then have "str_of_int i = CHR ''-'' # str_of_nat (nat (- i))" by (simp add: str_of_int_def)
  with True json_digits [OF assms, of "nat (- i)"] stops_cases(1) [OF assms] show ?thesis
    by (simp add: json_number_def Let_def)
next
  case False
  then have s: "str_of_int i = str_of_nat (nat i)" by (simp add: str_of_int_def)
  have "hd (str_of_nat (nat i)) \<noteq> CHR ''-''" using hd_str_of_nat_digit [of "nat i"] by (auto simp: char_class_defs)
  with False json_digits [OF assms, of "nat i"] stops_cases(1) [OF assms] show ?thesis
    by (simp add: json_number_def Let_def s hd_append)
qed

lemma json_literal_int:
  assumes "stops rest"
  shows "json_literal (str_of_int i @ rest) = Some (PInt i, rest)"
proof -
  have "hd (str_of_int i) = CHR ''-'' \<or> is_digit (hd (str_of_int i))" "str_of_int i \<noteq> []"
    using hd_str_of_nat_digit by (auto simp: str_of_int_def)
  then have "\<not> prefix (c # w) (str_of_int i @ rest)" if "c \<in> {CHR ''n'', CHR ''t'', CHR ''f''}" for c w
    using that by (cases "str_of_int i") (auto simp: char_class_defs)
  with json_number_int [OF assms] show ?thesis by (simp add: json_literal_def)
qed

text \<open>The first character of a canonical text.\<close>

lemma canonical_json_hd: "canonical_json v \<noteq> []" "\<not> is_ws (hd (canonical_json v))" "hd (canonical_json v) \<noteq> CHR '']''"
proof -
  have int: "str_of_int i \<noteq> []" "\<not> is_ws (hd (str_of_int i))" "hd (str_of_int i) \<noteq> CHR '']''" for i
  proof -
    have "hd (str_of_int i) = CHR ''-'' \<or> is_digit (hd (str_of_int i))" "str_of_int i \<noteq> []"
      using hd_str_of_nat_digit by (auto simp: str_of_int_def)
    then show "str_of_int i \<noteq> []" "\<not> is_ws (hd (str_of_int i))" "hd (str_of_int i) \<noteq> CHR '']''"
      by (auto simp: is_ws_def char_class_defs)
  qed
  show "canonical_json v \<noteq> []" "\<not> is_ws (hd (canonical_json v))" "hd (canonical_json v) \<noteq> CHR '']''"
    by (cases v; simp add: int; simp add: is_ws_def json_string_def)+
qed

lemma skip_ws_hd: "s \<noteq> [] \<Longrightarrow> \<not> is_ws (hd s) \<Longrightarrow> skip_ws s = s"
  by (cases s) (simp_all add: skip_ws_def)

lemma skip_ws_canonical [simp]: "skip_ws (canonical_json v @ rest) = canonical_json v @ rest"
  using canonical_json_hd [of v] by (simp add: skip_ws_hd hd_append)

lemma skip_ws_punct [simp]:
  "skip_ws (CHR '','' # s) = CHR '','' # s" "skip_ws (CHR '']'' # s) = CHR '']'' # s" "skip_ws (CHR ''}'' # s) = CHR ''}'' # s"
  "skip_ws (CHR '':'' # s) = CHR '':'' # s" "skip_ws (CHR 0x22 # s) = CHR 0x22 # s"
  by (simp_all add: skip_ws_def is_ws_def)

text \<open>A value is read back from its text, whatever follows, as long as it cannot continue a number.\<close>

definition reads_back :: "pyval \<Rightarrow> bool" where
  "reads_back v \<longleftrightarrow> (\<forall>n rest. 2 * length (canonical_json v) < n \<longrightarrow> stops rest \<longrightarrow>
     parse_value n (canonical_json v @ rest) = Some (sort_keys v, rest))"

lemma reads_backD:
  "reads_back v \<Longrightarrow> 2 * length (canonical_json v) < n \<Longrightarrow> stops rest \<Longrightarrow>
   parse_value n (canonical_json v @ rest) = Some (sort_keys v, rest)"
  by (simp add: reads_back_def)

lemma reads_backI:
  assumes "\<And>k rest. 2 * length (canonical_json v) \<le> k \<Longrightarrow> stops rest \<Longrightarrow>
    parse_value (Suc k) (canonical_json v @ rest) = Some (sort_keys v, rest)"
  shows "reads_back v"
  unfolding reads_back_def
proof (intro allI impI)
  fix n rest
  assume "2 * length (canonical_json v) < n" and "stops rest"
  moreover from this(1) obtain k where "n = Suc k" by (cases n) auto
  ultimately show "parse_value n (canonical_json v @ rest) = Some (sort_keys v, rest)" using assms by simp
qed

lemma length_member_text: "length (member_text kv) = length (json_string (fst kv)) + length (canonical_json (snd kv)) + 1"
  by (simp add: member_text_def)

lemma join_Cons: "xs \<noteq> [] \<Longrightarrow> join sep (x # xs) = x @ sep @ join sep xs"
  by (cases xs) simp_all

lemma join_hd: "xs \<noteq> [] \<Longrightarrow> hd xs \<noteq> [] \<Longrightarrow> join sep xs \<noteq> [] \<and> hd (join sep xs) = hd (hd xs)"
  by (cases xs; cases "tl xs") (auto simp: hd_append)

lemma skip_ws_elements [simp]:
  "vs \<noteq> [] \<Longrightarrow> skip_ws (join '','' (map canonical_json vs) @ rest) = join '','' (map canonical_json vs) @ rest"
  using join_hd [of "map canonical_json vs" "'',''"] canonical_json_hd [of "hd vs"]
  by (intro skip_ws_hd) (auto simp: hd_map hd_append)

lemma parse_elements_join:
  "vs \<noteq> [] \<Longrightarrow> list_all reads_back vs \<Longrightarrow> 2 * length (join '','' (map canonical_json vs)) + 1 < n \<Longrightarrow>
   parse_elements n (join '','' (map canonical_json vs) @ CHR '']'' # rest) = Some (map sort_keys vs, rest)"
proof (induction vs arbitrary: n)
  case (Cons v vs)
  then obtain k where n: "n = Suc k" by (cases n) auto
  show ?case
  proof (cases "vs = []")
    case True
    with Cons.prems reads_backD [of v k "CHR '']'' # rest"] show ?thesis by (simp add: n)
  next
    case False
    then have ne: "map canonical_json vs \<noteq> []" by simp
    have t: "join '','' (map canonical_json (v # vs)) @ CHR '']'' # rest =
        canonical_json v @ CHR '','' # (join '','' (map canonical_json vs) @ CHR '']'' # rest)"
      by (simp add: join_Cons [OF ne])
    from Cons.prems have "2 * length (canonical_json v) < k" "2 * length (join '','' (map canonical_json vs)) + 1 < k"
      by (simp_all add: n join_Cons [OF ne])
    with Cons False show ?thesis unfolding t by (simp add: n reads_backD)
  qed
qed simp

lemma skip_ws_members [simp]:
  "kvs \<noteq> [] \<Longrightarrow> skip_ws (join '','' (map member_text kvs) @ rest) = join '','' (map member_text kvs) @ rest"
  using join_hd [of "map member_text kvs" "'',''"]
  by (intro skip_ws_hd) (auto simp: hd_map hd_append member_text_def json_string_def is_ws_def)

lemma parse_members_join:
  "kvs \<noteq> [] \<Longrightarrow> list_all (\<lambda>kv. reads_back (snd kv)) kvs \<Longrightarrow> 2 * length (join '','' (map member_text kvs)) < n \<Longrightarrow>
   parse_members n (join '','' (map member_text kvs) @ CHR ''}'' # rest) =
     Some (map (\<lambda>kv. (fst kv, sort_keys (snd kv))) kvs, rest)"
proof (induction kvs arbitrary: n)
  case (Cons kv kvs)
  then obtain k where n: "n = Suc k" by (cases n) auto
  have m: "member_text kv @ r = CHR 0x22 # (concat (map json_escape (fst kv)) @ CHR 0x22 # (CHR '':'' # canonical_json (snd kv) @ r))" for r
    by (simp add: member_text_def json_string_def)
  show ?case
  proof (cases "kvs = []")
    case True
    from Cons.prems True have "2 * length (canonical_json (snd kv)) < k" by (simp add: n member_text_def json_string_def)
    with Cons.prems True show ?thesis by (simp add: n m json_chars_escaped reads_backD)
  next
    case False
    then have ne: "map member_text kvs \<noteq> []" by simp
    have t: "join '','' (map member_text (kv # kvs)) @ CHR ''}'' # rest =
        member_text kv @ CHR '','' # (join '','' (map member_text kvs) @ CHR ''}'' # rest)"
      by (simp add: join_Cons [OF ne])
    from Cons.prems have "2 * length (canonical_json (snd kv)) < k" "2 * length (join '','' (map member_text kvs)) < k"
      using length_member_text [of kv] by (simp_all add: n join_Cons [OF ne])
    with Cons False show ?thesis unfolding t by (simp add: n m json_chars_escaped reads_backD)
  qed
qed simp

lemma list_all_sort_key: "list_all p (sort_key f xs) = list_all p xs"
  by (simp add: list_all_iff)

lemma parse_value_canonical: "distinct_keys v \<Longrightarrow> reads_back v"
proof (induction v)
  case (PList xs)
  show ?case
  proof (cases "xs = []")
    case True
    show ?thesis by (rule reads_backI) (simp add: True)
  next
    case False
    have r: "list_all reads_back xs" using PList by (simp add: list_all_iff)
    show ?thesis
    proof (rule reads_backI)
      fix k rest
      assume n: "2 * length (canonical_json (PList xs)) \<le> k"
      let ?t = "join '','' (map canonical_json xs) @ CHR '']'' # rest"
      have "?t \<noteq> []" "hd ?t \<noteq> CHR '']''"
        using join_hd [of "map canonical_json xs" "'',''"] canonical_json_hd [of "hd xs"] False by (auto simp: hd_map hd_append)
      then obtain x u where u: "?t = x # u" "x \<noteq> CHR '']''" by (cases ?t) auto
      have s: "skip_ws ?t = x # u" using skip_ws_elements [OF False, of "CHR '']'' # rest"] unfolding u(1) .
      have "parse_elements k ?t = Some (map sort_keys xs, rest)"
        by (rule parse_elements_join [OF False r]) (use n in simp)
      with u s show "parse_value (Suc k) (canonical_json (PList xs) @ rest) = Some (sort_keys (PList xs), rest)"
        by simp
    qed
  qed
next
  case (PDict kvs)
  let ?ps = "sort_key fst kvs"
  show ?case
  proof (cases "kvs = []")
    case True
    show ?thesis by (rule reads_backI) (simp add: True)
  next
    case False
    then have ne: "?ps \<noteq> []" by (metis length_0_conv length_sort)
    have r: "list_all (\<lambda>kv. reads_back (snd kv)) ?ps" using PDict by (auto simp: list_all_iff)
    have d: "distinct (map fst (map (\<lambda>kv. (fst kv, sort_keys (snd kv))) ?ps))"
      using PDict.prems by (simp add: comp_def distinct_map inj_on_def)
    show ?thesis
    proof (rule reads_backI)
      fix k rest
      assume n: "2 * length (canonical_json (PDict kvs)) \<le> k"
      let ?t = "join '','' (map member_text ?ps) @ CHR ''}'' # rest"
      have "hd ?t = CHR 0x22" "?t \<noteq> []"
        using join_hd [of "map member_text ?ps" "'',''"] ne by (auto simp: hd_map hd_append member_text_def json_string_def)
      then obtain u where u: "?t = CHR 0x22 # u" by (cases ?t) auto
      have s: "skip_ws ?t = CHR 0x22 # u" using skip_ws_members [OF ne, of "CHR ''}'' # rest"] unfolding u .
      have "parse_members k ?t = Some (map (\<lambda>kv. (fst kv, sort_keys (snd kv))) ?ps, rest)"
        by (rule parse_members_join [OF ne r]) (use n [unfolded canonical_json_members] in simp)
      with u s d show "parse_value (Suc k) (canonical_json (PDict kvs) @ rest) = Some (sort_keys (PDict kvs), rest)"
        unfolding canonical_json_members by (simp add: sort_key_fst_map dict_of_pairs_distinct)
    qed
  qed
next
  case (PInt i)
  have "hd (str_of_int i) = CHR ''-'' \<or> is_digit (hd (str_of_int i))" "str_of_int i \<noteq> []"
    using hd_str_of_nat_digit by (auto simp: str_of_int_def)
  then obtain c t where "str_of_int i = c # t" "c = CHR ''-'' \<or> is_digit c" by (cases "str_of_int i") auto
  moreover from this(2) have "c \<notin> {CHR 0x22, CHR ''{'', CHR ''[''}" by (auto simp: char_class_defs)
  ultimately show ?case using json_literal_int [of _ i] by (intro reads_backI) auto
qed (auto intro!: reads_backI simp: json_string_def json_chars_escaped json_literal_def)

lemma parse_canonical_text:
  "distinct_keys v \<Longrightarrow> parse_value (2 * length (canonical_json v) + 2) (canonical_json v) = Some (sort_keys v, [])"
  using reads_backD [OF parse_value_canonical, of v "2 * length (canonical_json v) + 2" "[]"] by simp

text \<open>Values with the same canonical text differ in the order of their entries at most.\<close>

lemma canonical_json_inject:
  assumes "distinct_keys v" and "distinct_keys w" and "canonical_json v = canonical_json w"
  shows "sort_keys v = sort_keys w"
  using parse_canonical_text [OF assms(1)] parse_canonical_text [OF assms(2)] assms(3) by simp

text \<open>
  C37: reading inverts writing. The canonical text of any value whose dictionaries have distinct keys decodes,
  and to that value with its dictionaries in key order; so what a JSON column decodes to is what was stored
  in it.
\<close>

theorem json_roundtrip:
  assumes "distinct_keys v"
  shows "json_loads (canonical_json v) = Some (sort_keys v)"
  using parse_canonical_text [OF assms] skip_ws_canonical [of v "[]"] by (simp add: json_loads_def skip_ws_def)

theorem json_roundtrip_witness:
  "json_loads (canonical_json (PDict [(''b'', PList [PInt (- 12), PNone, PBool True]), (''a'', PStr ''x'')])) =
     Some (PDict [(''a'', PStr ''x''), (''b'', PList [PInt (- 12), PNone, PBool True])])"
  using json_roundtrip [of "PDict [(''b'', PList [PInt (- 12), PNone, PBool True]), (''a'', PStr ''x'')]"]
  by (simp add: less_char_def del: canonical_json.simps)


end
