(* ===== verification/Approval_Guard.thy ===== *)
theory Approval_Guard
  imports Executor_Targets Source_Equivalence Delivery_Policy
begin

section \<open>The execution guard of approvals\<close>

text \<open>
  approval_guard.py: before an operation with an external effect runs, the guard finds the one decision
  that authorises exactly this operation, and checks everything the decision rests on again: the proposal
  as it was submitted, the batch of questions the user saw, the answer the user gave, its publication, its
  delivery to the executor, and the issue it was decided for.

  The tables are those of \<open>approvals\<close> in the database. Where the query joins a table by its primary key the
  join is a lookup; the other joins are nested loops in table order.
\<close>

subsection \<open>Execution scopes\<close>

definition execution_scope_sha256 :: "pyval \<Rightarrow> string" where
  "execution_scope_sha256 scope = digest_json scope"

text \<open>\<open>v[k]\<close> with a string key: \<open>KeyError\<close> on a dictionary without it, \<open>TypeError\<close> on anything else.\<close>

definition py_item :: "pyval \<Rightarrow> string \<Rightarrow> pyval res" where
  "py_item v k = (case v of PDict kvs \<Rightarrow> require_some KeyError (map_of kvs k) Inr | _ \<Rightarrow> Inl TypeError)"

definition py_items :: "pyval \<Rightarrow> string list \<Rightarrow> pydict res" where
  "py_items v ks = map_res (\<lambda>k. bind_res (py_item v k) (\<lambda>x. Inr (k, x))) ks"

definition STANDING_SCOPE_KEYS :: "string list" where
  "STANDING_SCOPE_KEYS = [''stable_source_sha256'', ''planner_goal_sha256'', ''source_scope'', ''exclusions'',
     ''writer'', ''reviewer_plan'', ''collision_proof'', ''environment_rule'', ''routine_chain'', ''hard_stops'']"

definition standing_complete :: "pyval \<Rightarrow> bool" where
  "standing_complete standing \<longleftrightarrow> is_dict standing \<and>
     py_get (dict_of standing) ''schema'' = PStr HARNESS_STANDING_AUTHORITY_SCHEMA \<and>
     (\<forall>k \<in> set STANDING_SCOPE_KEYS. has_key (dict_of standing) k)"

definition standing_scope :: "pydict \<Rightarrow> pydict \<Rightarrow> pydict" where
  "standing_scope payload source =
     (let standing = py_get payload ''standing_source_authority''; complete = standing_complete standing;
          only = (\<lambda>k. if complete then py_get (dict_of standing) k else PNone);
          either = (\<lambda>k j. if complete then py_get (dict_of standing) k else py_get payload j) in
      [(''source_identity'', PDict (map (\<lambda>k. (k, py_get source k)) [''repository'', ''object_kind'', ''object_number''])),
       (''stable_source_sha256'', only ''stable_source_sha256''),
       (''planner_goal_sha256'', only ''planner_goal_sha256''),
       (''standing_source_authority_schema'', if is_dict standing then py_get (dict_of standing) ''schema'' else PNone),
       (''standing_source_authority_sha256'', py_get payload ''standing_source_authority_sha256''),
       (''source_scope'', either ''source_scope'' ''source_scope''),
       (''source_exclusions'', either ''exclusions'' ''source_exclusions'')] @
      map (\<lambda>k. (k, either k k)) [''writer'', ''reviewer_plan'', ''collision_proof'', ''environment_rule'',
        ''routine_chain'', ''hard_stops''])"

definition ADMISSION_SCOPE_KEYS :: "string list" where
  "ADMISSION_SCOPE_KEYS = [''issue_number'', ''generation'', ''item_version'', ''action'', ''base_sha'', ''branch'',
     ''worktree_path'', ''lease_manifest_sha256'', ''capacity'']"

definition admission_execution_scope_sha256 :: "pyval \<Rightarrow> string res" where
  "admission_execution_scope_sha256 payload =
     bind_res (py_item payload ''source'') (\<lambda>source.
     bind_res (py_item source ''repository'') (\<lambda>repository.
     bind_res (py_items payload ADMISSION_SCOPE_KEYS) (\<lambda>fields.
     Inr (execution_scope_sha256 (PDict ([(''kind'', PStr ''ADMISSION''), (''repository'', repository)] @ fields @
       (if repository = PStr HARNESS_REPOSITORY then standing_scope (dict_of payload) (dict_of source) else [])))))))"

definition capacity_policy_execution_scope_sha256 :: "string \<Rightarrow> int \<Rightarrow> int \<Rightarrow> int \<Rightarrow> int \<Rightarrow> string" where
  "capacity_policy_execution_scope_sha256 repository expected_prior_version development_limit shared_limit sre_limit =
     execution_scope_sha256 (PDict [(''kind'', PStr ''CAPACITY_POLICY''), (''repository'', PStr repository),
       (''expected_prior_version'', PInt expected_prior_version), (''development_limit'', PInt development_limit),
       (''shared_limit'', PInt shared_limit), (''sre_limit'', PInt sre_limit)])"

record readiness_scope =
  rz_repository :: string
  rz_issue_number :: int
  rz_source_payload_sha256 :: string
  rz_campaign_id :: int
  rz_generation :: int
  rz_item_version :: int
  rz_accepted_main_sha :: string
  rz_graph_version :: int
  rz_capacity_policy_version :: int
  rz_candidate_sha256 :: string
  rz_worker_role :: string
  rz_worker_endpoint_id :: string
  rz_worker_attempt_id :: string
  rz_parent_plan_sha256 :: string
  rz_material_boundary :: string

definition readiness_execution_scope_sha256 :: "readiness_scope \<Rightarrow> string" where
  "readiness_execution_scope_sha256 z =
     execution_scope_sha256 (PDict [(''kind'', PStr ''READINESS_APPROVAL''), (''repository'', PStr (rz_repository z)),
       (''issue_number'', PInt (rz_issue_number z)), (''source_payload_sha256'', PStr (rz_source_payload_sha256 z)),
       (''campaign_id'', PInt (rz_campaign_id z)), (''generation'', PInt (rz_generation z)),
       (''item_version'', PInt (rz_item_version z)), (''accepted_main_sha'', PStr (rz_accepted_main_sha z)),
       (''graph_version'', PInt (rz_graph_version z)),
       (''capacity_policy_version'', PInt (rz_capacity_policy_version z)),
       (''candidate_sha256'', PStr (rz_candidate_sha256 z)), (''worker_role'', PStr (rz_worker_role z)),
       (''worker_endpoint_id'', PStr (rz_worker_endpoint_id z)), (''worker_attempt_id'', PStr (rz_worker_attempt_id z)),
       (''parent_plan_sha256'', PStr (rz_parent_plan_sha256 z)), (''material_boundary'', PStr (rz_material_boundary z)),
       (''decision_mapping'', PDict [(''APPROVE'', PStr ''APPROVAL_RESUME''), (''REJECT'', PStr ''HOLD''),
          (''DEFER'', PStr ''HOLD''), (''COURSE_CORRECT'', PStr ''HOLD'')])])"

definition hosted_execution_scope_sha256 :: "string \<Rightarrow> string \<Rightarrow> string \<Rightarrow> string \<Rightarrow> pyval \<Rightarrow> string" where
  "hosted_execution_scope_sha256 provider target_kind target_key operation_kind scope =
     execution_scope_sha256 (PDict [(''kind'', PStr ''HOSTED_OPERATION''), (''provider'', PStr provider),
       (''target_kind'', PStr target_kind), (''target_key'', PStr target_key),
       (''operation_kind'', PStr operation_kind), (''scope'', scope)])"

subsection \<open>Proposals\<close>

abbreviation approval_error :: "string \<Rightarrow> error" where
  "approval_error \<equiv> ApprovalGuardError"

definition REVIEW_BATCH_SCHEMA :: string where
  "REVIEW_BATCH_SCHEMA = ''twinfinity.approval-review-batch.v2''"

definition BATCH_ANSWER_SCHEMA :: string where
  "BATCH_ANSWER_SCHEMA = ''twinfinity.approval-batch-answer-map.v1''"

definition LEGACY_PROPOSAL_SCHEMA :: string where
  "LEGACY_PROPOSAL_SCHEMA = ''twinfinity.approval-proposal.v1''"

definition PROPOSAL_SCHEMA :: string where
  "PROPOSAL_SCHEMA = ''twinfinity.approval-proposal.v2''"

definition LEGACY_AUTHORITY_HOLD :: string where
  "LEGACY_AUTHORITY_HOLD = ''APPROVAL_LEGACY_V1_AUTHORITY_QUARANTINED''"

definition PROPOSAL_PACKET_KEYS :: "string list" where
  "PROPOSAL_PACKET_KEYS = [''schema'', ''decision_key'', ''repository'', ''owning_issue'', ''source_snapshot_sha256'',
     ''execution_scope_sha256'', ''requester_session_id'', ''recipient_session_id'', ''workstream'', ''boundary'',
     ''priority'', ''urgency'', ''summary'', ''question'', ''requested_action'', ''target'', ''affected_issues'',
     ''blocked_mutation'', ''immediate_beneficiary'', ''evidence'', ''risk'', ''drift_guards'',
     ''prohibited_side_effects'', ''options'', ''recommendation'', ''expires_at'']"

definition SEMANTIC_KEYS :: "string list" where
  "SEMANTIC_KEYS = [''schema'', ''decision_key'', ''repository'', ''owning_issue'', ''source_snapshot_sha256'',
     ''execution_scope_sha256'', ''boundary'', ''summary'', ''question'', ''requested_action'', ''target'',
     ''affected_issues'', ''blocked_mutation'', ''immediate_beneficiary'', ''risk'', ''drift_guards'',
     ''prohibited_side_effects'', ''options'', ''recommendation'', ''expires_at'']"

definition proposal_semantic_packet :: "pydict \<Rightarrow> pyval" where
  "proposal_semantic_packet packet =
     PDict (map (\<lambda>k. (k, py_get packet k))
       (SEMANTIC_KEYS @ (if py_get packet ''schema'' = PStr PROPOSAL_SCHEMA then [''evidence''] else [])))"

definition approval_contract_is_v2 :: "db \<Rightarrow> bool res" where
  "approval_contract_is_v2 d =
     (let rows = approval_semantic_contract_current (approvals d) in
      if \<not> table_installed d ''approval_semantic_contract_current'' then Inr False
      else if rows = [] then Inr False
      else guarded [(length rows \<noteq> 1 \<or> hd rows \<notin> {LEGACY_PROPOSAL_SCHEMA, PROPOSAL_SCHEMA},
                     approval_error ''APPROVAL_SEMANTIC_CONTRACT_POINTER_INVALID'')]
        (Inr (hd rows = PROPOSAL_SCHEMA)))"

definition packet_matches_row :: "approval_proposal_row \<Rightarrow> pydict \<Rightarrow> bool" where
  "packet_matches_row p packet \<longleftrightarrow>
     digest_json (proposal_semantic_packet packet) = pr_proposal_sha256 p \<and>
     digest_json (proposal_semantic_packet packet) = pr_semantic_sha256 p \<and>
     py_eq (py_get packet ''repository'') (PStr (pr_repository p)) \<and>
     py_eq (py_get packet ''owning_issue'') (PInt (pr_owning_issue p)) \<and>
     py_eq (py_get packet ''source_snapshot_sha256'') (PStr (pr_source_snapshot_sha256 p)) \<and>
     py_eq (py_get packet ''boundary'') (PStr (pr_boundary p))"

definition require_bound_proposal :: "bool \<Rightarrow> approval_proposal_row \<Rightarrow> pydict res" where
  "require_bound_proposal v2_active p =
     (let invalid = approval_error ''APPROVAL_PROPOSAL_BINDING_INVALID'' in
      require_some invalid (snd (pr_packet_json p)) (\<lambda>v.
      (let packet = dict_of v; schema = py_get packet ''schema'' in
       guarded [(\<not> is_dict v \<or> \<not> keys_are packet PROPOSAL_PACKET_KEYS, invalid),
                (unhashable schema, TypeError),
                (schema \<notin> {PStr LEGACY_PROPOSAL_SCHEMA, PStr PROPOSAL_SCHEMA}, invalid),
                (canonical_json v \<noteq> fst (pr_packet_json p), invalid),
                (\<not> packet_matches_row p packet, invalid),
                (v2_active \<and> schema = PStr LEGACY_PROPOSAL_SCHEMA, approval_error LEGACY_AUTHORITY_HOLD)]
         (Inr packet))))"

subsection \<open>The decision and the batch it answers\<close>

text \<open>A row of the guard's query: the rows it joins, those of the left joins where they exist.\<close>

record approval_match =
  mt_proposal :: approval_proposal_row
  mt_decision :: approval_decision_row
  mt_delivery :: approval_delivery_row
  mt_effectivity :: approval_effectivity_row
  mt_outbox :: outbox_row
  mt_batch :: "approval_batch_row option"
  mt_user_event :: "approval_user_event_row option"
  mt_current :: "github_current_row option"
  mt_snapshot :: "github_snapshot_row option"

definition sole :: "'a list \<Rightarrow> 'a option" where
  "sole xs = (case xs of [x] \<Rightarrow> Some x | _ \<Rightarrow> None)"

definition batch_json :: "approval_match \<Rightarrow> json_text option" where
  "batch_json m = Option.bind (mt_batch m) bt_batch_json"

definition answer_map_json :: "approval_match \<Rightarrow> json_text option" where
  "answer_map_json m = Option.bind (mt_user_event m) ue_batch_answer_map_json"

definition frozen_texts :: "approval_match \<Rightarrow> string option list" where
  "frozen_texts m =
     [ad_batch_sha256 (mt_decision m), ad_batch_answer_map_sha256 (mt_decision m), ad_option_map_sha256 (mt_decision m),
      ad_selected_option_machine_outcome (mt_decision m), map_option fst (batch_json m), map_option fst (answer_map_json m)]"

definition event_bound :: "approval_match \<Rightarrow> bool" where
  "event_bound m \<longleftrightarrow>
     Option.bind (mt_user_event m) ue_batch_sha256 = ad_batch_sha256 (mt_decision m) \<and>
     Option.bind (mt_user_event m) ue_batch_answer_map_sha256 = ad_batch_answer_map_sha256 (mt_decision m)"

text \<open>A JSON text is what it claims to be: the canonical text of its value, under the digest it is filed by.\<close>

definition filed_under :: "pyval \<Rightarrow> json_text option \<Rightarrow> string option \<Rightarrow> bool" where
  "filed_under v stored sha \<longleftrightarrow> map_option fst stored = Some (canonical_json v) \<and> Some (digest_json v) = sha"

definition batch_bound :: "approval_match \<Rightarrow> pyval \<Rightarrow> bool" where
  "batch_bound m batch \<longleftrightarrow> is_dict batch \<and> keys_are (dict_of batch) [''schema'', ''repository'', ''proposals''] \<and>
     py_get (dict_of batch) ''schema'' = PStr REVIEW_BATCH_SCHEMA \<and>
     py_get (dict_of batch) ''repository'' = PStr (pr_repository (mt_proposal m)) \<and>
     filed_under batch (batch_json m) (ad_batch_sha256 (mt_decision m)) \<and>
     is_list (py_get (dict_of batch) ''proposals'')"

text \<open>The entries of a list of objects that name the given value under a key.\<close>

definition entries_of :: "pyval \<Rightarrow> string \<Rightarrow> string \<Rightarrow> pydict list" where
  "entries_of v key name =
     map dict_of (filter (\<lambda>x. is_dict x \<and> py_get (dict_of x) key = PStr name) (list_of v))"

definition FROZEN_KEYS :: "string list" where
  "FROZEN_KEYS = [''proposal_sha256'', ''source_snapshot_sha256'', ''execution_scope_sha256'', ''recipient_session_ids'',
     ''recipient_set_sha256'', ''option_map'', ''option_map_sha256'']"

definition frozen_bound :: "approval_match \<Rightarrow> pydict \<Rightarrow> bool" where
  "frozen_bound m frozen \<longleftrightarrow> keys_are frozen FROZEN_KEYS \<and>
     py_get frozen ''source_snapshot_sha256'' = PStr (pr_source_snapshot_sha256 (mt_proposal m)) \<and>
     py_get frozen ''execution_scope_sha256'' = PStr (ad_execution_scope_sha256 (mt_decision m)) \<and>
     py_get frozen ''recipient_set_sha256'' = PStr (ad_recipient_set_sha256 (mt_decision m)) \<and>
     Some (py_get frozen ''option_map_sha256'') = map_option PStr (ad_option_map_sha256 (mt_decision m)) \<and>
     is_list (py_get frozen ''recipient_session_ids'') \<and>
     PStr (dl_recipient_session_id (mt_delivery m)) \<in> set (list_of (py_get frozen ''recipient_session_ids'')) \<and>
     PStr (digest_json (py_get frozen ''recipient_session_ids'')) = py_get frozen ''recipient_set_sha256'' \<and>
     is_list (py_get frozen ''option_map'') \<and>
     PStr (digest_json (py_get frozen ''option_map'')) = py_get frozen ''option_map_sha256''"

definition option_bound :: "approval_match \<Rightarrow> pydict \<Rightarrow> bool" where
  "option_bound m selected \<longleftrightarrow> keys_are selected [''id'', ''label'', ''effect'', ''machine_outcome''] \<and>
     py_get selected ''machine_outcome'' = PStr (ad_decision (mt_decision m)) \<and>
     ad_selected_option_machine_outcome (mt_decision m) = Some (ad_decision (mt_decision m))"

definition answer_map_bound :: "approval_match \<Rightarrow> pyval \<Rightarrow> bool" where
  "answer_map_bound m answer_map \<longleftrightarrow> is_dict answer_map \<and>
     keys_are (dict_of answer_map) [''schema'', ''batch_sha256'', ''answers''] \<and>
     py_get (dict_of answer_map) ''schema'' = PStr BATCH_ANSWER_SCHEMA \<and>
     Some (py_get (dict_of answer_map) ''batch_sha256'') = map_option PStr (ad_batch_sha256 (mt_decision m)) \<and>
     filed_under answer_map (answer_map_json m) (ad_batch_answer_map_sha256 (mt_decision m)) \<and>
     is_list (py_get (dict_of answer_map) ''answers'')"

definition answer_bound :: "approval_match \<Rightarrow> pydict \<Rightarrow> bool" where
  "answer_bound m answer \<longleftrightarrow> keys_are answer [''proposal_sha256'', ''selected_option_id''] \<and>
     py_get answer ''selected_option_id'' = PStr (ad_selected_option_id (mt_decision m))"

definition require_frozen_batch_decision :: "approval_match \<Rightarrow> unit res" where
  "require_frozen_batch_decision m =
     (let invalid = approval_error ''APPROVAL_BATCH_BINDING_INVALID'';
          outcome = approval_error ''APPROVAL_OPTION_OUTCOME_MISMATCH'';
          mismatch = approval_error ''APPROVAL_BATCH_ANSWER_MISMATCH'';
          proposal_sha256 = pr_proposal_sha256 (mt_proposal m) in
      guarded [(\<exists>t \<in> set (frozen_texts m). t = None \<or> t = Some [], invalid), (\<not> event_bound m, invalid)]
      (require_some invalid (Option.bind (batch_json m) snd) (\<lambda>batch.
       require_some invalid (Option.bind (answer_map_json m) snd) (\<lambda>answer_map.
       guarded [(\<not> batch_bound m batch, invalid)]
       (require_some invalid (sole (entries_of (py_get (dict_of batch) ''proposals'') ''proposal_sha256'' proposal_sha256))
       (\<lambda>frozen.
        guarded [(\<not> frozen_bound m frozen, invalid)]
        (require_some outcome (sole (entries_of (py_get frozen ''option_map'') ''id'' (ad_selected_option_id (mt_decision m))))
        (\<lambda>selected.
         guarded [(\<not> option_bound m selected, outcome), (\<not> answer_map_bound m answer_map, invalid)]
         (require_some mismatch
           (sole (entries_of (py_get (dict_of answer_map) ''answers'') ''proposal_sha256'' proposal_sha256))
         (\<lambda>answer. guarded [(\<not> answer_bound m answer, mismatch)] (Inr ())))))))))))"

subsection \<open>The guard\<close>

record approval_request =
  aq_repository :: string
  aq_issue_number :: int
  aq_recipient_session_id :: string
  aq_execution_scope_sha256 :: "string option"
  aq_authority_sha256 :: "string option"
  aq_authority_comment_id :: "int option"
  aq_required_proposal_sha256 :: "string option"
  aq_required_workstream :: "string option"
  aq_required_boundary :: "string option"
  aq_required_current_recipient_role :: "string option"
  aq_actor_session_id :: "string option"
  aq_required :: bool

definition ledger_tables :: "string list" where
  "ledger_tables = [''approval_current'', ''approval_proposals'', ''approval_submissions'', ''approval_interests'',
     ''approval_review_batches'', ''approval_user_events'', ''approval_decisions'', ''approval_deliveries'',
     ''approval_effectivity'', ''approval_revocations'']"

definition ledger_installed :: "db \<Rightarrow> bool" where
  "ledger_installed d \<longleftrightarrow> list_all (table_installed d) ledger_tables"

definition actor_of :: "approval_request \<Rightarrow> string" where
  "actor_of q = (case aq_actor_session_id q of
     Some (c # s) \<Rightarrow> c # s | _ \<Rightarrow> aq_recipient_session_id q)"

definition role_pointer :: "db \<Rightarrow> string \<Rightarrow> string option" where
  "role_pointer d role =
     (case List.find (\<lambda>p. ep_role p = role) (executor_role_endpoint_current d) of
        None \<Rightarrow> None
      | Some p \<Rightarrow> if map_option ep_role (endpoint_of d (ep_endpoint_id p)) = Some role then Some (ep_endpoint_id p) else None)"

definition check_recipient_role :: "db \<Rightarrow> approval_request \<Rightarrow> unit res" where
  "check_recipient_role d q =
     (case aq_required_current_recipient_role q of
        None \<Rightarrow> Inr ()
      | Some role \<Rightarrow>
          guarded [(\<not> table_installed d ''executor_role_endpoint_current'' \<or> \<not> table_installed d ''executor_role_endpoints'',
                    OperationalError ''no such table''),
                   (role_pointer d role \<noteq> Some (actor_of q), approval_error ''APPROVAL_CURRENT_RECIPIENT_REQUIRED'')]
            (Inr ()))"

definition check_request :: "approval_request \<Rightarrow> unit res" where
  "check_request q =
     guarded [(\<not> pred_option SHA256 (aq_required_proposal_sha256 q),
               approval_error ''APPROVAL_PROPOSAL_BINDING_INVALID''),
              (\<not> pred_option (\<lambda>w. strip w \<noteq> []) (aq_required_workstream q),
               approval_error ''APPROVAL_WORKSTREAM_BINDING_INVALID'')] (Inr ())"

definition asks_for :: "'a option \<Rightarrow> 'a \<Rightarrow> bool" where
  "asks_for wanted x \<longleftrightarrow> wanted = None \<or> wanted = Some x"

definition concerns :: "db \<Rightarrow> approval_request \<Rightarrow> approval_proposal_row \<Rightarrow> bool" where
  "concerns d q p \<longleftrightarrow> pr_repository p = aq_repository q \<and> pr_owning_issue p = aq_issue_number q \<and>
     asks_for (aq_required_proposal_sha256 q) (pr_proposal_sha256 p) \<and>
     (aq_required_workstream q = None \<or>
      (\<exists>s \<in> set (approval_submissions (approvals d)). as_proposal_sha256 s = pr_proposal_sha256 p \<and>
         Some (as_workstream s) = aq_required_workstream q)) \<and>
     asks_for (aq_required_boundary q) (pr_boundary p)"

text \<open>The proposals the pointers of \<open>approval_current\<close> name, as often as they are named.\<close>

definition pointed_proposals :: "db \<Rightarrow> approval_request \<Rightarrow> approval_proposal_row list" where
  "pointed_proposals d q =
     concat (map (\<lambda>c. filter (\<lambda>p. pr_proposal_sha256 p = ac_proposal_sha256 c \<and> concerns d q p)
       (approval_proposals (approvals d))) (approval_current (approvals d)))"

definition current_proposals :: "db \<Rightarrow> approval_request \<Rightarrow> (approval_proposal_row \<times> string) list" where
  "current_proposals d q =
     remdups (concat (map (\<lambda>p. map (\<lambda>i. (p, ai_recipient_session_id i))
       (filter (\<lambda>i. ai_proposal_sha256 i = pr_proposal_sha256 p) (approval_interests (approvals d)))) (pointed_proposals d q)))"

definition revoked :: "db \<Rightarrow> approval_decision_row \<Rightarrow> bool" where
  "revoked d r \<longleftrightarrow> (\<exists>k \<in> set (approval_revocations (approvals d)).
     rk_decision_sha256 k = ad_decision_sha256 r \<and> rk_proposal_sha256 k = ad_proposal_sha256 r)"

definition names_authority :: "approval_request \<Rightarrow> approval_decision_row \<Rightarrow> outbox_row \<Rightarrow> bool" where
  "names_authority q r ob \<longleftrightarrow> aq_authority_sha256 q = Some (ad_decision_sha256 r) \<or>
     (aq_authority_comment_id q \<noteq> None \<and>
      ob_remote_receipt ob = Some (''comment:'' @ str_of_int (the (aq_authority_comment_id q))))"

definition match_of ::
  "db \<Rightarrow> approval_proposal_row \<Rightarrow> approval_decision_row \<Rightarrow> approval_delivery_row \<Rightarrow> approval_effectivity_row \<Rightarrow>
   outbox_row \<Rightarrow> approval_match" where
  "match_of d p r x e ob =
     (let current = current_source d (pr_repository p) ''issue'' (pr_owning_issue p) in
      \<lparr>mt_proposal = p, mt_decision = r, mt_delivery = x, mt_effectivity = e, mt_outbox = ob,
       mt_batch = List.find (\<lambda>b. Some (bt_batch_sha256 b) = ad_batch_sha256 r) (approval_review_batches (approvals d)),
       mt_user_event = List.find (\<lambda>u. ue_user_event_source u = ad_user_event_source r \<and>
         ue_user_event_id u = ad_user_event_id r) (approval_user_events (approvals d)),
       mt_current = current, mt_snapshot = Option.bind current (stored_snapshot d)\<rparr>)"

definition authority_matches :: "db \<Rightarrow> approval_request \<Rightarrow> approval_match list" where
  "authority_matches d q =
     [match_of d p r x e ob.
        p \<leftarrow> pointed_proposals d q,
        r \<leftarrow> approval_decisions (approvals d), ad_proposal_sha256 r = pr_proposal_sha256 p \<and> \<not> revoked d r,
        x \<leftarrow> approval_deliveries (approvals d), dl_proposal_sha256 x = pr_proposal_sha256 p \<and> dl_decision_sha256 x = ad_decision_sha256 r,
        e \<leftarrow> approval_effectivity (approvals d), ef_proposal_sha256 e = pr_proposal_sha256 p \<and> ef_decision_sha256 e = ad_decision_sha256 r,
        ob \<leftarrow> github_outbox d, ob_id ob = ad_owner_outbox_id r \<and> names_authority q r ob]"

fun filter_res :: "('a \<Rightarrow> bool res) \<Rightarrow> 'a list \<Rightarrow> 'a list res" where
  "filter_res f [] = Inr []"
| "filter_res f (x # xs) = bind_res (f x) (\<lambda>b. bind_res (filter_res f xs) (\<lambda>ys. Inr (if b then x # ys else ys)))"

definition stable_payload_sha256 :: "github_snapshot_row option \<Rightarrow> string option res" where
  "stable_payload_sha256 snapshot =
     (case snapshot of
        None \<Rightarrow> Inr None
      | Some s \<Rightarrow> require_some (ValueError ''JSONDecodeError'') (gs_payload_json s) (\<lambda>payload.
          guarded [(\<not> is_dict payload, AttributeError)]
            (Inr (Some (digest_json (PDict (filter (\<lambda>kv. \<not> volatile_key (fst kv)) (dict_of payload))))))))"

text \<open>What is asked of the one match that is left.\<close>

definition check_match :: "catalog \<Rightarrow> db \<Rightarrow> approval_request \<Rightarrow> bool \<Rightarrow> approval_match \<Rightarrow> unit res" where
  "check_match catalog d q v2_active m =
     bind_res (require_bound_proposal v2_active (mt_proposal m)) (\<lambda>_.
     guarded [(Some (ad_execution_scope_sha256 (mt_decision m)) \<noteq> aq_execution_scope_sha256 q,
               approval_error ''APPROVAL_EXECUTION_SCOPE_MISMATCH'')]
     (bind_res (require_frozen_batch_decision m) (\<lambda>_.
      guarded [(\<not> asks_for (aq_required_boundary q) (pr_boundary (mt_proposal m)), approval_error ''APPROVAL_BOUNDARY_MISMATCH'')]
      (bind_res
        (case aq_required_current_recipient_role q of
           None \<Rightarrow> Inr True
         | Some role \<Rightarrow> bind_res (identity_role catalog d (ad_planner_session_id (mt_decision m))) (\<lambda>r.
             if r \<noteq> Some role then Inr False
             else identities_role_equivalent catalog d (ad_planner_session_id (mt_decision m)) (actor_of q)))
      (\<lambda>planner_fits.
       guarded [(\<not> planner_fits, approval_error ''APPROVAL_PLANNER_IDENTITY_MISMATCH''),
                (ad_decision (mt_decision m) \<noteq> ''APPROVE'', approval_error ''APPROVAL_DECISION_NOT_APPROVED''),
                (dl_state (mt_delivery m) \<notin> {''CLAIMED'', ''ACKNOWLEDGED''}, approval_error ''APPROVAL_DELIVERY_NOT_CLAIMED''),
                (ob_state (mt_outbox m) \<noteq> ''COMPLETE'' \<or> ob_remote_receipt (mt_outbox m) = None \<or>
                 ob_remote_receipt (mt_outbox m) = Some [] \<or>
                 ob_remote_receipt (mt_outbox m) \<noteq> Some (ef_remote_receipt (mt_effectivity m)),
                 approval_error ''APPROVAL_PUBLICATION_INCOMPLETE'')]
       (bind_res (stable_payload_sha256 (mt_snapshot m)) (\<lambda>source.
        guarded [(source \<noteq> Some (ef_effective_source_sha256 (mt_effectivity m)),
                  approval_error ''APPROVAL_EFFECTIVE_SOURCE_DRIFT'')] (Inr ()))))))))"

definition require_effective_approval ::
  "catalog \<Rightarrow> db \<Rightarrow> approval_request \<Rightarrow> approval_match option res" where
  "require_effective_approval catalog d q =
     (if \<not> ledger_installed d
      then guarded [(aq_required q, approval_error ''APPROVAL_LEDGER_REQUIRED'')] (Inr None)
      else
        bind_res (check_recipient_role d q) (\<lambda>_.
        bind_res (check_request q) (\<lambda>_.
        bind_res (approval_contract_is_v2 d) (\<lambda>v2_active.
        bind_res (if aq_required_proposal_sha256 q = None then Inr ()
                  else check_each (\<lambda>pr. bind_res (require_bound_proposal v2_active (fst pr)) (\<lambda>_. Inr ())) (current_proposals d q))
        (\<lambda>_.
        bind_res (filter_res (\<lambda>pr. identities_role_equivalent catalog d (snd pr) (actor_of q)) (current_proposals d q))
        (\<lambda>proposals.
        bind_res (check_each (\<lambda>pr. bind_res (require_bound_proposal v2_active (fst pr)) (\<lambda>_. Inr ())) proposals) (\<lambda>_.
        if proposals = [] then guarded [(aq_required q, approval_error ''APPROVAL_DECISION_REQUIRED'')] (Inr None)
        else
          guarded [(aq_execution_scope_sha256 q = None \<or> \<not> SHA256 (the (aq_execution_scope_sha256 q)), approval_error ''APPROVAL_EXECUTION_SCOPE_MISSING''),
                   (aq_authority_sha256 q = None \<and> aq_authority_comment_id q = None,
                    approval_error ''APPROVAL_AUTHORITY_BINDING_MISSING'')]
          (bind_res (filter_res (\<lambda>m. identities_role_equivalent catalog d (dl_recipient_session_id (mt_delivery m)) (actor_of q))
             (authority_matches d q)) (\<lambda>role_matches.
           guarded [(1 < length role_matches, approval_error ''APPROVAL_AUTHORITY_AMBIGUOUS'')]
           (require_some (approval_error ''APPROVAL_AUTHORITY_MISMATCH'') (sole role_matches) (\<lambda>m.
            bind_res (check_match catalog d q v2_active m) (\<lambda>_. Inr (Some m)))))))))))))"


subsection \<open>What an effective approval rests on\<close>

lemma filter_res_Inr:
  "filter_res f xs = Inr ys \<Longrightarrow> (\<forall>x \<in> set xs. \<exists>b. f x = Inr b) \<and> set ys = {x \<in> set xs. f x = Inr True}"
  by (induction xs arbitrary: ys) (auto simp: guard_simps split: if_splits)

lemma sole_SomeD: "sole xs = Some x \<Longrightarrow> xs = [x]"
  by (auto simp: sole_def split: list.splits)

lemma approval_contract_Inr:
  "approval_contract_is_v2 d = Inr b \<Longrightarrow>
   b \<longleftrightarrow> table_installed d ''approval_semantic_contract_current'' \<and> approval_semantic_contract_current (approvals d) = [PROPOSAL_SCHEMA]"
  by (cases "approval_semantic_contract_current (approvals d)")
    (auto simp: approval_contract_is_v2_def Let_def guard_simps split: if_splits)

text \<open>
  A proposal is intact: its packet is the canonical text of a complete packet whose digest is the key of the
  row, for the issue and the source the row names.
\<close>

definition intact_proposal :: "approval_proposal_row \<Rightarrow> bool" where
  "intact_proposal p \<longleftrightarrow> (\<exists>packet. snd (pr_packet_json p) = Some (PDict packet) \<and>
     fst (pr_packet_json p) = canonical_json (PDict packet) \<and> keys_are packet PROPOSAL_PACKET_KEYS \<and> packet_matches_row p packet)"

lemma require_bound_proposal_Inr:
  assumes "require_bound_proposal v2 p = Inr packet"
  shows "intact_proposal p" and "v2 \<Longrightarrow> py_get packet ''schema'' = PStr PROPOSAL_SCHEMA"
  using assms by (auto simp: require_bound_proposal_def intact_proposal_def Let_def guard_simps is_dict_cases)

text \<open>
  The user chose the outcome of the decision: the batch and the answers are stored unaltered under the
  digests the decision names, the batch holds the proposal exactly once with the decided scope and the
  recipient, the answers select exactly one option of it, and the outcome of that option is the decision.
\<close>

definition user_chose :: "approval_match \<Rightarrow> bool" where
  "user_chose m \<longleftrightarrow> (\<exists>batch answers frozen option answer.
     batch_bound m batch \<and> answer_map_bound m answers \<and>
     entries_of (py_get (dict_of batch) ''proposals'') ''proposal_sha256'' (pr_proposal_sha256 (mt_proposal m)) = [frozen] \<and>
     frozen_bound m frozen \<and>
     entries_of (py_get frozen ''option_map'') ''id'' (ad_selected_option_id (mt_decision m)) = [option] \<and>
     option_bound m option \<and>
     entries_of (py_get (dict_of answers) ''answers'') ''proposal_sha256'' (pr_proposal_sha256 (mt_proposal m)) = [answer] \<and>
     answer_bound m answer)"

lemma require_frozen_Inr:
  assumes "require_frozen_batch_decision m = Inr ()"
  shows "user_chose m \<and> event_bound m"
proof -
  from assms obtain batch answers frozen option answer where c: "event_bound m" "batch_bound m batch"
    "sole (entries_of (py_get (dict_of batch) ''proposals'') ''proposal_sha256'' (pr_proposal_sha256 (mt_proposal m))) = Some frozen"
    "frozen_bound m frozen"
    "sole (entries_of (py_get frozen ''option_map'') ''id'' (ad_selected_option_id (mt_decision m))) = Some option"
    "option_bound m option" "answer_map_bound m answers"
    "sole (entries_of (py_get (dict_of answers) ''answers'') ''proposal_sha256'' (pr_proposal_sha256 (mt_proposal m))) = Some answer"
    "answer_bound m answer"
    unfolding require_frozen_batch_decision_def Let_def by (clarsimp simp: guard_simps)
  show ?thesis
    unfolding user_chose_def
    by (intro exI conjI; rule c(1,2,4,6,7,9) sole_SomeD [OF c(3)] sole_SomeD [OF c(5)] sole_SomeD [OF c(8)])
qed

lemma check_match_Inr:
  assumes "check_match catalog d q v2 m = Inr ()"
  shows "intact_proposal (mt_proposal m)" "Some (ad_execution_scope_sha256 (mt_decision m)) = aq_execution_scope_sha256 q"
    "user_chose m" "ad_decision (mt_decision m) = ''APPROVE''" "dl_state (mt_delivery m) \<in> {''CLAIMED'', ''ACKNOWLEDGED''}"
    "ob_state (mt_outbox m) = ''COMPLETE''" "ob_remote_receipt (mt_outbox m) = Some (ef_remote_receipt (mt_effectivity m))"
    "stable_payload_sha256 (mt_snapshot m) = Inr (Some (ef_effective_source_sha256 (mt_effectivity m)))"
proof -
  from assms obtain packet fits source where c: "require_bound_proposal v2 (mt_proposal m) = Inr packet"
    "Some (ad_execution_scope_sha256 (mt_decision m)) = aq_execution_scope_sha256 q"
    "require_frozen_batch_decision m = Inr ()" "ad_decision (mt_decision m) = ''APPROVE''"
    "dl_state (mt_delivery m) \<in> {''CLAIMED'', ''ACKNOWLEDGED''}" "ob_state (mt_outbox m) = ''COMPLETE''"
    "ob_remote_receipt (mt_outbox m) = Some (ef_remote_receipt (mt_effectivity m))"
    "stable_payload_sha256 (mt_snapshot m) = Inr source" "source = Some (ef_effective_source_sha256 (mt_effectivity m))"
    unfolding check_match_def by (simp add: guard_simps) blast
  from c require_bound_proposal_Inr(1) [OF c(1)] require_frozen_Inr [OF c(3)]
  show "intact_proposal (mt_proposal m)" "Some (ad_execution_scope_sha256 (mt_decision m)) = aq_execution_scope_sha256 q"
    "user_chose m" "ad_decision (mt_decision m) = ''APPROVE''" "dl_state (mt_delivery m) \<in> {''CLAIMED'', ''ACKNOWLEDGED''}"
    "ob_state (mt_outbox m) = ''COMPLETE''" "ob_remote_receipt (mt_outbox m) = Some (ef_remote_receipt (mt_effectivity m))"
    "stable_payload_sha256 (mt_snapshot m) = Inr (Some (ef_effective_source_sha256 (mt_effectivity m)))"
    by simp_all
qed

text \<open>The rows of a match are stored and belong together.\<close>

definition stored_match :: "db \<Rightarrow> approval_match \<Rightarrow> bool" where
  "stored_match d m \<longleftrightarrow>
     (let p = mt_proposal m; r = mt_decision m; x = mt_delivery m; e = mt_effectivity m in
      p \<in> set (approval_proposals (approvals d)) \<and>
      (\<exists>c \<in> set (approval_current (approvals d)). ac_proposal_sha256 c = pr_proposal_sha256 p) \<and>
      r \<in> set (approval_decisions (approvals d)) \<and> ad_proposal_sha256 r = pr_proposal_sha256 p \<and>
      x \<in> set (approval_deliveries (approvals d)) \<and> dl_proposal_sha256 x = pr_proposal_sha256 p \<and>
      dl_decision_sha256 x = ad_decision_sha256 r \<and>
      e \<in> set (approval_effectivity (approvals d)) \<and> ef_proposal_sha256 e = pr_proposal_sha256 p \<and>
      ef_decision_sha256 e = ad_decision_sha256 r \<and>
      mt_outbox m \<in> set (github_outbox d) \<and> ob_id (mt_outbox m) = ad_owner_outbox_id r)"

lemma authority_matches_mem:
  assumes "m \<in> set (authority_matches d q)"
  shows "stored_match d m \<and> \<not> revoked d (mt_decision m) \<and> concerns d q (mt_proposal m) \<and>
    names_authority q (mt_decision m) (mt_outbox m) \<and>
    mt_snapshot m = Option.bind (current_source d (aq_repository q) ''issue'' (aq_issue_number q)) (stored_snapshot d)"
  using assms
  by (auto simp: authority_matches_def pointed_proposals_def stored_match_def match_of_def Let_def concerns_def)

lemma require_effective_approval_Some:
  assumes "require_effective_approval catalog d q = Inr (Some m)"
  shows "m \<in> set (authority_matches d q)"
    "identities_role_equivalent catalog d (dl_recipient_session_id (mt_delivery m)) (actor_of q) = Inr True"
    "\<exists>v2. check_match catalog d q v2 m = Inr ()"
proof -
  from assms obtain v2 ms where ms: "filter_res (\<lambda>m. identities_role_equivalent catalog d
        (dl_recipient_session_id (mt_delivery m)) (actor_of q)) (authority_matches d q) = Inr ms"
    "sole ms = Some m" "check_match catalog d q v2 m = Inr ()"
    unfolding require_effective_approval_def
    by (auto simp: guard_simps split: if_splits)
  from ms(2) have "m \<in> set ms" by (auto dest: sole_SomeD)
  with filter_res_Inr [OF ms(1)] ms(3) show "m \<in> set (authority_matches d q)"
    "identities_role_equivalent catalog d (dl_recipient_session_id (mt_delivery m)) (actor_of q) = Inr True"
    "\<exists>v2. check_match catalog d q v2 m = Inr ()" by auto
qed

text \<open>
  C3: an operation the guard lets through is covered by a decision of the user. The rows it returns are
  stored and belong together: a current, intact proposal for exactly this repository and issue; a decision
  APPROVE on it, not revoked, whose execution scope is the one asked for and which the request names by
  its digest or by its published comment; the batch the user saw and the answer that selected the approving
  option, unaltered; a delivery claimed by an executor of the acting role; a completed publication with the
  receipt on record; and the issue as it stands has, but for its volatile fields, the digest the decision
  became effective for.
\<close>

theorem effective_approval_sound:
  assumes "require_effective_approval catalog d q = Inr (Some m)"
  shows "stored_match d m \<and> intact_proposal (mt_proposal m) \<and> concerns d q (mt_proposal m) \<and>
    ad_decision (mt_decision m) = ''APPROVE'' \<and> \<not> revoked d (mt_decision m) \<and>
    Some (ad_execution_scope_sha256 (mt_decision m)) = aq_execution_scope_sha256 q \<and>
    names_authority q (mt_decision m) (mt_outbox m) \<and> user_chose m \<and>
    dl_state (mt_delivery m) \<in> {''CLAIMED'', ''ACKNOWLEDGED''} \<and>
    identities_role_equivalent catalog d (dl_recipient_session_id (mt_delivery m)) (actor_of q) = Inr True \<and>
    ob_state (mt_outbox m) = ''COMPLETE'' \<and> ob_remote_receipt (mt_outbox m) = Some (ef_remote_receipt (mt_effectivity m)) \<and>
    stable_payload_sha256 (Option.bind (current_source d (aq_repository q) ''issue'' (aq_issue_number q)) (stored_snapshot d)) =
      Inr (Some (ef_effective_source_sha256 (mt_effectivity m)))"
proof -
  note some = require_effective_approval_Some [OF assms]
  from some(3) obtain v2 where "check_match catalog d q v2 m = Inr ()" ..
  note checked = check_match_Inr [OF this]
  from authority_matches_mem [OF some(1)] some(2) checked show ?thesis by simp
qed

text \<open>
  The guard is not passed by omission. Where an approval is required it never returns without one; where
  it is not, it returns nothing only if there is no ledger, or no current proposal for the issue concerns
  the acting role: as soon as one does, the operation needs the decision on it.
\<close>

lemma approval_not_bypassed:
  assumes "require_effective_approval catalog d q = Inr None"
  shows "\<not> aq_required q \<and>
    (ledger_installed d \<longrightarrow> (\<forall>c \<in> set (approval_current (approvals d)). \<forall>p \<in> set (approval_proposals (approvals d)).
       \<forall>i \<in> set (approval_interests (approvals d)).
       ac_proposal_sha256 c = pr_proposal_sha256 p \<and> concerns d q p \<and> ai_proposal_sha256 i = pr_proposal_sha256 p \<longrightarrow>
       identities_role_equivalent catalog d (ai_recipient_session_id i) (actor_of q) = Inr False))"
proof (cases "ledger_installed d")
  case False
  with assms show ?thesis by (auto simp: require_effective_approval_def guard_simps)
next
  case True
  with assms have none: "filter_res (\<lambda>pr. identities_role_equivalent catalog d (snd pr) (actor_of q)) (current_proposals d q) = Inr []"
    and req: "\<not> aq_required q"
    unfolding require_effective_approval_def by (auto simp: guard_simps split: if_splits)
  have "identities_role_equivalent catalog d (ai_recipient_session_id i) (actor_of q) = Inr False"
    if "c \<in> set (approval_current (approvals d))" "p \<in> set (approval_proposals (approvals d))"
      "i \<in> set (approval_interests (approvals d))" "ac_proposal_sha256 c = pr_proposal_sha256 p" "concerns d q p"
      "ai_proposal_sha256 i = pr_proposal_sha256 p" for c p i
  proof -
    have "(p, ai_recipient_session_id i) \<in> set (current_proposals d q)"
      using that by (auto simp: current_proposals_def pointed_proposals_def intro!: bexI [of _ c] bexI [of _ p] bexI [of _ i])
    with filter_res_Inr [OF none] obtain b where
      "identities_role_equivalent catalog d (ai_recipient_session_id i) (actor_of q) = Inr b" "b \<noteq> True" by fastforce
    then show ?thesis by simp
  qed
  with req show ?thesis by blast
qed


subsection \<open>An approved operation\<close>

definition example_packet :: pydict where
  "example_packet = map (\<lambda>k. (k, if k = ''schema'' then PStr PROPOSAL_SCHEMA else if k = ''repository'' then PStr ''o/r''
     else if k = ''owning_issue'' then PInt 7 else if k = ''source_snapshot_sha256'' then PStr ''s0''
     else if k = ''boundary'' then PStr ''HOSTED'' else PNone)) PROPOSAL_PACKET_KEYS"

definition example_proposal_sha256 :: string where
  "example_proposal_sha256 = digest_json (proposal_semantic_packet example_packet)"

definition example_proposal :: approval_proposal_row where
  "example_proposal = \<lparr>pr_proposal_sha256 = example_proposal_sha256, pr_semantic_sha256 = example_proposal_sha256,
     pr_decision_key = ''k'', pr_repository = ''o/r'', pr_owning_issue = 7, pr_source_snapshot_sha256 = ''s0'',
     pr_boundary = ''HOSTED'', pr_packet_json = (canonical_json (PDict example_packet), Some (PDict example_packet))\<rparr>"

definition example_scope :: string where
  "example_scope = digest_json (PDict [])"

definition example_options :: pyval where
  "example_options = PList [PDict [(''id'', PStr ''a''), (''label'', PStr ''Yes''), (''effect'', PStr ''rerun''),
     (''machine_outcome'', PStr ''APPROVE'')]]"

definition example_recipients :: pyval where
  "example_recipients = PList [PStr ''role.sre.v1'']"

definition example_question :: pydict where
  "example_question = [(''proposal_sha256'', PStr example_proposal_sha256),
     (''source_snapshot_sha256'', PStr ''s0''), (''execution_scope_sha256'', PStr example_scope),
     (''recipient_session_ids'', example_recipients), (''recipient_set_sha256'', PStr (digest_json example_recipients)),
     (''option_map'', example_options), (''option_map_sha256'', PStr (digest_json example_options))]"

definition example_batch :: pyval where
  "example_batch = PDict [(''schema'', PStr REVIEW_BATCH_SCHEMA), (''repository'', PStr ''o/r''),
     (''proposals'', PList [PDict example_question])]"

definition example_answers :: pyval where
  "example_answers = PDict [(''schema'', PStr BATCH_ANSWER_SCHEMA), (''batch_sha256'', PStr (digest_json example_batch)),
     (''answers'', PList [PDict [(''proposal_sha256'', PStr example_proposal_sha256), (''selected_option_id'', PStr ''a'')]])]"

definition example_decision :: approval_decision_row where
  "example_decision = \<lparr>ad_proposal_sha256 = example_proposal_sha256, ad_decision_sha256 = ''d0'', ad_decision = ''APPROVE'',
     ad_selected_option_id = ''a'', ad_selected_option_machine_outcome = Some ''APPROVE'',
     ad_recipient_set_sha256 = digest_json example_recipients, ad_execution_scope_sha256 = example_scope,
     ad_batch_sha256 = Some (digest_json example_batch), ad_batch_answer_map_sha256 = Some (digest_json example_answers),
     ad_option_map_sha256 = Some (digest_json example_options), ad_user_event_source = ''ui'', ad_user_event_id = ''1'',
     ad_planner_session_id = ''role.planner.v1'', ad_owner_outbox_id = 3\<rparr>"

definition example_delivery :: approval_delivery_row where
  "example_delivery = \<lparr>dl_proposal_sha256 = example_proposal_sha256, dl_decision_sha256 = ''d0'',
     dl_recipient_session_id = ''role.sre.v1'', dl_state = ''CLAIMED''\<rparr>"

definition example_effectivity :: approval_effectivity_row where
  "example_effectivity = \<lparr>ef_proposal_sha256 = example_proposal_sha256, ef_decision_sha256 = ''d0'',
     ef_effective_source_sha256 = digest_json (PDict []), ef_remote_receipt = ''comment:9''\<rparr>"

definition example_outbox :: outbox_row where
  "example_outbox = \<lparr>ob_id = 3, ob_idempotency_key = ''k'', ob_repository = ''o/r'', ob_object_kind = ''issue'',
     ob_object_number = 7, ob_operation = ''comment'', ob_expected_source_sha256 = ''s0'', ob_payload_sha256 = ''b'',
     ob_payload_json = None, ob_state = ''COMPLETE'', ob_remote_receipt = Some ''comment:9'', ob_created_at = ''t'',
     ob_updated_at = ''t'', ob_last_error = None\<rparr>"

definition example_ledger :: approval_tables where
  "example_ledger = \<lparr>approval_current = [\<lparr>ac_repository = ''o/r'', ac_owning_issue = 7, ac_decision_key = ''k'',
       ac_proposal_sha256 = example_proposal_sha256\<rparr>],
     approval_proposals = [example_proposal], approval_submissions = [],
     approval_interests = [\<lparr>ai_proposal_sha256 = example_proposal_sha256, ai_recipient_session_id = ''role.sre.v1''\<rparr>],
     approval_review_batches = [\<lparr>bt_batch_sha256 = digest_json example_batch,
       bt_batch_json = Some (canonical_json example_batch, Some example_batch)\<rparr>],
     approval_user_events = [\<lparr>ue_user_event_source = ''ui'', ue_user_event_id = ''1'',
       ue_batch_sha256 = Some (digest_json example_batch), ue_batch_answer_map_sha256 = Some (digest_json example_answers),
       ue_batch_answer_map_json = Some (canonical_json example_answers, Some example_answers)\<rparr>],
     approval_decisions = [example_decision], approval_deliveries = [example_delivery],
     approval_effectivity = [example_effectivity], approval_revocations = [], approval_semantic_contract_current = []\<rparr>"

definition approved_db :: db where
  "approved_db = empty_db\<lparr>sqlite_master := ledger_tables @ store_tables, approvals := example_ledger,
     github_outbox := [example_outbox],
     github_current := [\<lparr>gc_repository = ''o/r'', gc_object_kind = ''issue'', gc_object_number = 7,
       gc_payload_sha256 = ''s1'', gc_source_updated_at = ''t'', gc_fetched_at = ''t''\<rparr>],
     github_snapshots := [\<lparr>gs_repository = ''o/r'', gs_object_kind = ''issue'', gs_object_number = 7,
       gs_payload_sha256 = ''s1'', gs_source_updated_at = ''t'', gs_fetched_at = ''t'',
       gs_payload_json = Some (PDict [(''updated_at'', PStr ''t'')])\<rparr>],
     executor_role_endpoints := [\<lparr>ep_endpoint_id = ''role.sre.v1'', ep_role = ''sre''\<rparr>]\<rparr>"

definition sre_catalog :: catalog where
  "sre_catalog = [''role.sre.v1'' \<mapsto> ''sre'']"

definition approval_of_issue :: "int \<Rightarrow> bool \<Rightarrow> approval_request" where
  "approval_of_issue n required = \<lparr>aq_repository = ''o/r'', aq_issue_number = n, aq_recipient_session_id = ''role.sre.v1'',
     aq_execution_scope_sha256 = Some example_scope, aq_authority_sha256 = None, aq_authority_comment_id = Some 9,
     aq_required_proposal_sha256 = None, aq_required_workstream = None, aq_required_boundary = None,
     aq_required_current_recipient_role = None, aq_actor_session_id = None, aq_required = required\<rparr>"

lemma canonical_json_nonempty [simp]: "canonical_json (PDict kvs) \<noteq> []" "canonical_json (PList xs) \<noteq> []"
  by simp_all

lemma digest_json_nonempty [simp]: "digest_json v \<noteq> []"
  using SHA256_digest_json [of v] by (auto simp: SHA256_def)

lemma example_proposal_bound: "require_bound_proposal v2 example_proposal = Inr example_packet"
proof -
  have "py_get example_packet ''schema'' = PStr PROPOSAL_SCHEMA" "py_get example_packet ''repository'' = PStr ''o/r''"
    "py_get example_packet ''owning_issue'' = PInt 7" "py_get example_packet ''source_snapshot_sha256'' = PStr ''s0''"
    "py_get example_packet ''boundary'' = PStr ''HOSTED''" "keys_are example_packet PROPOSAL_PACKET_KEYS"
    by (simp_all add: example_packet_def py_get_def keys_are_def PROPOSAL_PACKET_KEYS_def)
  then show ?thesis
    by (simp add: require_bound_proposal_def example_proposal_def packet_matches_row_def example_proposal_sha256_def
        guard_eval LEGACY_PROPOSAL_SCHEMA_def PROPOSAL_SCHEMA_def del: canonical_json.simps)
qed

definition example_match :: approval_match where
  "example_match = match_of approved_db example_proposal example_decision example_delivery example_effectivity example_outbox"

lemma example_match_fields [simp]:
  "mt_proposal example_match = example_proposal" "mt_decision example_match = example_decision"
  "mt_delivery example_match = example_delivery" "mt_effectivity example_match = example_effectivity"
  "mt_outbox example_match = example_outbox" "batch_json example_match = Some (canonical_json example_batch, Some example_batch)"
  "answer_map_json example_match = Some (canonical_json example_answers, Some example_answers)"
  "event_bound example_match" "stable_payload_sha256 (mt_snapshot example_match) = Inr (Some (digest_json (PDict [])))"
  by (simp_all add: example_match_def match_of_def batch_json_def answer_map_json_def event_bound_def approved_db_def
      example_ledger_def example_decision_def example_proposal_def current_source_def stored_snapshot_def
      stable_payload_sha256_def volatile_key_def guard_eval del: canonical_json.simps)

lemma example_frozen: "require_frozen_batch_decision example_match = Inr ()"
proof -
  have batch: "batch_bound example_match example_batch"
    by (simp add: batch_bound_def filed_under_def example_decision_def del: canonical_json.simps)
      (simp add: example_batch_def keys_are_def py_get_def example_proposal_def)
  have answers: "answer_map_bound example_match example_answers"
    by (simp add: answer_map_bound_def filed_under_def example_decision_def del: canonical_json.simps)
      (simp add: example_answers_def keys_are_def py_get_def)
  have texts: "\<not> (\<exists>t \<in> set (frozen_texts example_match). t = None \<or> t = Some [])"
    by (simp add: frozen_texts_def example_decision_def del: canonical_json.simps)
      (simp add: example_batch_def example_answers_def del: canonical_json.simps)
  have fields: "py_get example_question ''proposal_sha256'' = PStr example_proposal_sha256"
    "py_get example_question ''source_snapshot_sha256'' = PStr ''s0''"
    "py_get example_question ''execution_scope_sha256'' = PStr example_scope"
    "py_get example_question ''recipient_session_ids'' = example_recipients"
    "py_get example_question ''recipient_set_sha256'' = PStr (digest_json example_recipients)"
    "py_get example_question ''option_map'' = example_options"
    "py_get example_question ''option_map_sha256'' = PStr (digest_json example_options)"
    by (simp_all add: example_question_def py_get_def)
  have frozen: "entries_of (py_get (dict_of example_batch) ''proposals'') ''proposal_sha256'' example_proposal_sha256 = [example_question]"
    by (simp add: example_batch_def entries_of_def py_get_def [of "[_, _, _]"] fields)
  have keys_are: "keys_are example_question FROZEN_KEYS"
    by (simp add: example_question_def keys_are_def FROZEN_KEYS_def)
  have question: "frozen_bound example_match example_question"
    by (simp add: frozen_bound_def fields keys_are example_proposal_def example_decision_def example_delivery_def)
      (simp add: example_recipients_def example_options_def)
  have selected: "sole (entries_of example_options ''id'' ''a'') \<noteq> None"
    "option_bound example_match (the (sole (entries_of example_options ''id'' ''a'')))"
    by (simp_all add: example_options_def entries_of_def py_get_def option_bound_def keys_are_def example_decision_def sole_def)
  have answer: "sole (entries_of (py_get (dict_of example_answers) ''answers'') ''proposal_sha256'' example_proposal_sha256) \<noteq> None"
    "answer_bound example_match (the (sole (entries_of (py_get (dict_of example_answers) ''answers'') ''proposal_sha256'' example_proposal_sha256)))"
    by (simp_all add: example_answers_def entries_of_def py_get_def answer_bound_def keys_are_def example_decision_def sole_def)
  have keys: "pr_proposal_sha256 example_proposal = example_proposal_sha256" "ad_selected_option_id example_decision = ''a''"
    by (simp_all add: example_proposal_def example_decision_def)
  from selected obtain option where option: "sole (entries_of example_options ''id'' ''a'') = Some option"
    "option_bound example_match option" by auto
  from answer obtain reply where reply: "answer_bound example_match reply"
    "sole (entries_of (py_get (dict_of example_answers) ''answers'') ''proposal_sha256'' example_proposal_sha256) = Some reply" by auto
  have "sole (entries_of (py_get (dict_of example_batch) ''proposals'') ''proposal_sha256'' example_proposal_sha256) = Some example_question"
    by (simp add: frozen sole_def)
  then show ?thesis
    unfolding require_frozen_batch_decision_def Let_def
    by (simp only: guard_eval guarded_Nil texts batch answers question option reply keys fields example_match_fields
        bind.bind_lunit snd_conv fst_conv if_False simp_thms require_some_simps)
qed

lemma example_matches: "authority_matches approved_db (approval_of_issue 7 r) = [example_match]"
proof -
  have p: "pointed_proposals approved_db (approval_of_issue 7 r) = [example_proposal]"
    by (simp add: pointed_proposals_def approved_db_def example_ledger_def concerns_def approval_of_issue_def asks_for_def
        example_proposal_def)
  have names: "names_authority (approval_of_issue 7 r) example_decision example_outbox"
  proof -
    have "str_of_int 9 = ''9''" by code_simp
    then show ?thesis by (simp add: names_authority_def approval_of_issue_def example_outbox_def)
  qed
  show ?thesis
    unfolding authority_matches_def p
    using names
    by (simp add: example_match_def)
      (simp add: approved_db_def example_ledger_def revoked_def example_decision_def example_proposal_def
        example_delivery_def example_effectivity_def example_outbox_def)
qed

lemma sre_equivalent: "identities_role_equivalent sre_catalog approved_db ''role.sre.v1'' ''role.sre.v1'' = Inr True"
  by (simp add: identities_role_equivalent_def historical_identity_role_def identity_role_def sre_catalog_def approved_db_def
      table_installed_def store_tables_def endpoint_of_def guard_eval)

lemma example_checked: "check_match sre_catalog approved_db (approval_of_issue 7 r) v2 example_match = Inr ()"
  unfolding check_match_def
  by (simp add: example_proposal_bound example_frozen guard_eval del: canonical_json.simps)
    (simp add: approval_of_issue_def asks_for_def example_decision_def example_delivery_def example_outbox_def
      example_effectivity_def guard_eval del: canonical_json.simps)

lemma approved_db_ledger: "ledger_installed approved_db"
  by (simp add: ledger_installed_def approved_db_def table_installed_def ledger_tables_def)

lemma approved_db_contract: "approval_contract_is_v2 approved_db = Inr False"
  by (simp add: approval_contract_is_v2_def approved_db_def example_ledger_def)

lemma example_current: "current_proposals approved_db (approval_of_issue n r) = (if n = 7 then [(example_proposal, ''role.sre.v1'')] else [])"
  by (simp add: current_proposals_def pointed_proposals_def approved_db_def example_ledger_def concerns_def
      approval_of_issue_def asks_for_def example_proposal_def)

lemma example_request:
  "check_recipient_role approved_db (approval_of_issue n r) = Inr ()" "check_request (approval_of_issue n r) = Inr ()"
  "actor_of (approval_of_issue n r) = ''role.sre.v1''" "aq_required_proposal_sha256 (approval_of_issue n r) = None"
  "aq_execution_scope_sha256 (approval_of_issue n r) = Some example_scope"
  "aq_authority_comment_id (approval_of_issue n r) = Some 9" "aq_required (approval_of_issue n r) = r"
  by (simp_all add: check_recipient_role_def check_request_def approval_of_issue_def actor_of_def guard_eval)

lemma example_approval:
  "require_effective_approval sre_catalog approved_db (approval_of_issue 7 r) = Inr (Some example_match)"
  "require_effective_approval sre_catalog approved_db (approval_of_issue 8 False) = Inr None"
proof -
  have sha: "SHA256 example_scope" by (simp add: example_scope_def)
  have dl: "dl_recipient_session_id example_delivery = ''role.sre.v1''" by (simp add: example_delivery_def)
  show "require_effective_approval sre_catalog approved_db (approval_of_issue 7 r) = Inr (Some example_match)"
    unfolding require_effective_approval_def
    by (simp add: approved_db_ledger approved_db_contract example_request example_current sre_equivalent check_each_def
        example_proposal_bound example_matches example_checked guard_eval sole_def sha dl)
  show "require_effective_approval sre_catalog approved_db (approval_of_issue 8 False) = Inr None"
    unfolding require_effective_approval_def
    by (simp add: approved_db_ledger approved_db_contract example_request example_current check_each_def guard_eval)
qed

theorem effective_approval_sound_witness:
  "require_effective_approval sre_catalog approved_db (approval_of_issue 7 True) = Inr (Some example_match) \<and>
   stored_match approved_db example_match \<and> user_chose example_match \<and> \<not> revoked approved_db (mt_decision example_match)"
  using example_approval(1) effective_approval_sound [OF example_approval(1)] by blast

end
