(* ===== verification/Delivery_Identity.thy ===== *)
theory Delivery_Identity
  imports Delivery_Policy Database Approval_Guard Json_Text "HOL-Library.AList" "HOL-Library.Sublist"
begin

section \<open>Delivery identity: delivery_identity.py\<close>

text \<open>
  An admission carries the identity of the delivery it starts: repository, issue, generation, lease, branch and
  worktree, with the digest of its execution scope and of the admission as a whole. The readiness review
  builds and binds the identity; every guard on the writer's side validates it again, against the policy of the
  repository and against the reviewed admission that the finalization retains.

  An admission is a JSON value. \<open>None\<close> as an optional argument is \<open>PNone\<close>. The message a guard compares is a
  mapping from column names, so a row of the message table is the dictionary of its columns. The first part
  models the paths of \<open>pathlib\<close>; the later parts show that a bound identity is refused
  only for its form or by the policy, that its digest covers the whole admission, that a generation has at most one
  acceptable message, and that accepted lanes do not share a worktree.
\<close>

subsection \<open>Paths\<close>

text \<open>
  \<open>PurePosixPath\<close>: a root, which is \<open>//\<close> for exactly two leading slashes, and the components, empty ones
  and \<open>.\<close> dropped.
\<close>

record posix_path =
  pp_root :: string
  pp_parts :: "string list"

definition path_of :: "string \<Rightarrow> posix_path" where
  "path_of p = \<lparr>pp_root = (if prefix ''//'' p \<and> \<not> prefix ''///'' p then ''//'' else if prefix ''/'' p then ''/'' else []),
     pp_parts = filter (\<lambda>w. w \<noteq> [] \<and> w \<noteq> ''.'') (split_on CHR ''/'' p)\<rparr>"

definition path_str :: "posix_path \<Rightarrow> string" where
  "path_str q = (if pp_root q = [] \<and> pp_parts q = [] then ''.'' else pp_root q @ join ''/'' (pp_parts q))"

definition is_absolute :: "posix_path \<Rightarrow> bool" where
  "is_absolute q \<longleftrightarrow> pp_root q \<noteq> []"

definition path_parent :: "posix_path \<Rightarrow> posix_path" where
  "path_parent q = q\<lparr>pp_parts := butlast (pp_parts q)\<rparr>"

definition path_join :: "posix_path \<Rightarrow> string \<Rightarrow> posix_path" where
  "path_join q s = (if prefix ''/'' s then path_of s else q\<lparr>pp_parts := pp_parts q @ pp_parts (path_of s)\<rparr>)"

definition WORKSPACE_ROOT :: posix_path where
  "WORKSPACE_ROOT = path_of ''/home/ubuntu/code''"

definition expected_worktree_parent :: "pyval \<Rightarrow> posix_path \<Rightarrow> posix_path option" where
  "expected_worktree_parent repository workspace_root =
     (case policy_for_repository repository of
        None \<Rightarrow> None
      | Some policy \<Rightarrow>
          if \<not> is_absolute workspace_root then None
          else (case rp_workspace_subdirectory policy of
                  None \<Rightarrow> Some workspace_root
                | Some subdirectory \<Rightarrow> Some (path_join workspace_root subdirectory)))"

definition expected_canonical_checkout :: "pyval \<Rightarrow> posix_path \<Rightarrow> posix_path option" where
  "expected_canonical_checkout repository workspace_root =
     (case expected_worktree_parent repository workspace_root of
        None \<Rightarrow> None
      | Some parent \<Rightarrow>
          if \<not> is_str repository then None
          else Some (path_join parent (tl (dropWhile (\<lambda>c. c \<noteq> CHR ''/'') (str_of repository)))))"

subsection \<open>Building an identity\<close>

definition DELIVERY_IDENTITY_SCHEMA :: string where
  "DELIVERY_IDENTITY_SCHEMA = ''twinfinity-delivery-identity/v1''"

definition DELIVERY_IDENTITY_KEYS :: "string list" where
  "DELIVERY_IDENTITY_KEYS = [''schema'', ''repository'', ''issue_number'', ''generation'', ''lease_manifest_sha256'',
     ''branch'', ''worktree_path'', ''opaque_worktree_id'', ''admission_execution_scope_sha256'',
     ''admission_transaction_sha256'']"

definition delivery_identity_sha256 :: "pydict \<Rightarrow> string" where
  "delivery_identity_sha256 identity = digest_json (PDict identity)"

text \<open>\<open>x.get(k) if isinstance(x, dict) else None\<close>\<close>

definition get_in :: "pyval \<Rightarrow> string \<Rightarrow> pyval" where
  "get_in v k = (if is_dict v then py_get (dict_of v) k else PNone)"

definition admission_invalid :: error where
  "admission_invalid = ValueError ''DELIVERY_IDENTITY_ADMISSION_INVALID''"

definition with_payload_entry :: "pydict \<Rightarrow> string \<Rightarrow> pyval \<Rightarrow> pydict" where
  "with_payload_entry admission k v =
     (let message = py_get admission ''message''; payload = get_in message ''payload'' in
      AList.update ''message'' (PDict (AList.update ''payload'' (PDict (AList.update k v (dict_of payload)))
        (dict_of message))) admission)"

definition transaction_with_normalized_self_digest :: "pydict \<Rightarrow> pydict \<Rightarrow> pydict res" where
  "transaction_with_normalized_self_digest admission identity =
     guarded [(\<not> is_dict (get_in (py_get admission ''message'') ''payload''), admission_invalid)]
     (Inr (with_payload_entry admission ''delivery_identity''
        (PDict (AList.update ''admission_transaction_sha256'' PNone identity))))"

definition admission_transaction_sha256 :: "pyval \<Rightarrow> string res" where
  "admission_transaction_sha256 admission =
     (let identity = get_in (get_in (get_in admission ''message'') ''payload'') ''delivery_identity'' in
      guarded [(\<not> is_dict admission, admission_invalid),
               (\<not> is_dict identity, ValueError ''DELIVERY_IDENTITY_MISSING'')]
      (bind_res (transaction_with_normalized_self_digest (dict_of admission) (dict_of identity))
        (\<lambda>t. Inr (digest_json (PDict t)))))"

text \<open>\<open>except (KeyError, TypeError, ValueError)\<close>\<close>

fun as_admission_invalid :: "'a res \<Rightarrow> 'a res" where
  "as_admission_invalid (Inl KeyError) = Inl admission_invalid"
| "as_admission_invalid (Inl TypeError) = Inl admission_invalid"
| "as_admission_invalid (Inl (ValueError e)) = Inl admission_invalid"
| "as_admission_invalid m = m"

definition PAYLOAD_IDENTITY_KEYS :: "string list" where
  "PAYLOAD_IDENTITY_KEYS = [''issue_number'', ''generation'', ''lease_manifest_sha256'', ''branch'', ''worktree_path'',
     ''opaque_worktree_id'']"

definition identity_fields :: "pyval \<Rightarrow> pyval \<Rightarrow> pydict res" where
  "identity_fields source payload =
     bind_res (py_item source ''repository'') (\<lambda>repository.
     bind_res (py_items payload PAYLOAD_IDENTITY_KEYS) (\<lambda>fields.
     bind_res (admission_execution_scope_sha256 payload) (\<lambda>scope.
     Inr ([(''schema'', PStr DELIVERY_IDENTITY_SCHEMA), (''repository'', repository)] @ fields @
       [(''admission_execution_scope_sha256'', PStr scope),
        (''admission_transaction_sha256'', PStr (replicate 64 CHR ''0''))]))))"

definition build_delivery_identity :: "pyval \<Rightarrow> pydict res" where
  "build_delivery_identity admission =
     (let message = get_in admission ''message''; payload = get_in message ''payload''; source = get_in payload ''source'' in
      guarded [(\<not> is_dict admission, admission_invalid),
               (\<not> list_all is_dict [get_in admission ''item'', message, payload, source], admission_invalid)]
      (bind_res (as_admission_invalid (identity_fields source payload)) (\<lambda>identity.
       bind_res (transaction_with_normalized_self_digest (dict_of admission) identity) (\<lambda>transaction.
       Inr (AList.update ''admission_transaction_sha256'' (PStr (digest_json (PDict transaction))) identity)))))"

subsection \<open>Validating an identity\<close>

definition identity_malformed :: "pyval \<Rightarrow> bool" where
  "identity_malformed identity =
     (let get = py_get (dict_of identity) in
      \<not> is_dict identity \<or> \<not> keys_are (dict_of identity) DELIVERY_IDENTITY_KEYS \<or>
      \<not> py_eq (get ''schema'') (PStr DELIVERY_IDENTITY_SCHEMA) \<or> \<not> is_str (get ''repository'') \<or>
      \<not> is_int (get ''issue_number'') \<or> int_of (get ''issue_number'') \<le> 0 \<or>
      \<not> is_int (get ''generation'') \<or> int_of (get ''generation'') < 0 \<or>
      (\<exists>f \<in> set [''branch'', ''worktree_path'', ''opaque_worktree_id'']. \<not> nonempty_str (get f)) \<or>
      (\<exists>f \<in> set [''lease_manifest_sha256'', ''admission_execution_scope_sha256'', ''admission_transaction_sha256''].
         \<not> sha_str (get f)))"

text \<open>An application lane may carry the work of another issue; it keeps the worktree of its own.\<close>

definition transfer_identity :: "pydict \<Rightarrow> int option \<Rightarrow> bool" where
  "transfer_identity identity surface =
     (let get = py_get identity in
      get ''repository'' = PStr APPLICATION_REPOSITORY \<and> surface \<noteq> None \<and> the surface \<noteq> int_of (get ''issue_number'') \<and>
      (case expected_worktree_identity (get ''repository'') (PInt (the surface)) of
         None \<Rightarrow> False
       | Some expected \<Rightarrow> last (split_on CHR ''/'' (str_of (get ''worktree_path''))) = expected \<and>
           str_of (get ''opaque_worktree_id'') = expected))"

definition int_or_none :: "int option \<Rightarrow> pyval" where
  "int_or_none n = (case n of None \<Rightarrow> PNone | Some i \<Rightarrow> PInt i)"

definition identity_off_policy :: "pydict \<Rightarrow> bool" where
  "identity_off_policy identity =
     (let get = py_get identity; repository = get ''repository''; branch = get ''branch'';
          surface = delivery_branch_issue_number repository branch;
          path = path_of (str_of (get ''worktree_path'')) in
      surface = None \<or> expected_worktree_parent repository WORKSPACE_ROOT = None \<or>
      \<not> is_absolute path \<or> str_of (get ''worktree_path'') \<noteq> path_str path \<or>
      Some (path_parent path) \<noteq> expected_worktree_parent repository WORKSPACE_ROOT \<or>
      \<not> strict_delivery_branch_matches repository branch PNone \<or>
      \<not> delivery_branch_matches_owning_issue repository branch (get ''issue_number'') \<or>
      \<not> (worktree_identity_matches repository (int_or_none surface) (get ''issue_number'') (get ''generation'')
           (get ''worktree_path'') (get ''opaque_worktree_id'') \<or> transfer_identity identity surface))"

text \<open>\<open>hmac.compare_digest\<close> on texts: \<open>TypeError\<close> unless both are ASCII.\<close>

definition compare_digest :: "string \<Rightarrow> string \<Rightarrow> bool res" where
  "compare_digest a b = guarded [(\<not> list_all (\<lambda>c. of_char c < (128 :: nat)) (a @ b), TypeError)] (Inr (a = b))"

fun value_error_text :: "'a res \<Rightarrow> (string + 'a) res" where
  "value_error_text (Inl (ValueError e)) = Inr (Inl e)"
| "value_error_text (Inl e) = Inl e"
| "value_error_text (Inr x) = Inr (Inr x)"

definition transaction_error :: "pydict \<Rightarrow> pyval \<Rightarrow> string option res" where
  "transaction_error identity admission =
     (let embedded = get_in (get_in (get_in admission ''message'') ''payload'') ''delivery_identity'' in
      if \<not> is_dict embedded then Inr (Some ''DELIVERY_IDENTITY_MISSING'')
      else if \<not> py_eq embedded (PDict identity) then Inr (Some ''DELIVERY_IDENTITY_TRANSACTION_DRIFT'')
      else bind_res (value_error_text (build_delivery_identity admission)) (\<lambda>computed.
        Inr (case computed of
               Inl e \<Rightarrow> Some e
             | Inr c \<Rightarrow> if \<not> py_eq (PDict c) (PDict identity) then Some ''DELIVERY_IDENTITY_TRANSACTION_DRIFT'' else None)))"

definition delivery_identity_error :: "pyval \<Rightarrow> pyval \<Rightarrow> pyval \<Rightarrow> pyval \<Rightarrow> string option res" where
  "delivery_identity_error identity admission expected_identity expected_sha256 =
     (if identity_malformed identity then Inr (Some ''DELIVERY_IDENTITY_INVALID'')
      else if identity_off_policy (dict_of identity) then Inr (Some ''DELIVERY_IDENTITY_POLICY_INVALID'')
      else if expected_identity \<noteq> PNone \<and> \<not> py_eq identity expected_identity then Inr (Some ''DELIVERY_IDENTITY_BINDING_DRIFT'')
      else
        bind_res (if expected_sha256 = PNone then Inr True
                  else if \<not> is_str expected_sha256 then Inr False
                  else compare_digest (delivery_identity_sha256 (dict_of identity)) (str_of expected_sha256))
        (\<lambda>same.
          if \<not> same then Inr (Some ''DELIVERY_IDENTITY_DIGEST_DRIFT'')
          else if admission \<noteq> PNone then transaction_error (dict_of identity) admission
          else Inr None))"

subsection \<open>Binding an identity\<close>

text \<open>Binding changes the admission in place, also when the validation fails.\<close>

definition bind_delivery_identity :: "pyval \<Rightarrow> pyval \<times> pydict res" where
  "bind_delivery_identity admission =
     (case build_delivery_identity admission of
        Inl e \<Rightarrow> (admission, Inl e)
      | Inr identity \<Rightarrow>
          (let bound = PDict (with_payload_entry (dict_of admission) ''delivery_identity'' (PDict identity)) in
           (bound, bind_res (delivery_identity_error (PDict identity) bound PNone PNone) (\<lambda>error.
              case error of Some e \<Rightarrow> Inl (ValueError e) | None \<Rightarrow> Inr identity))))"

subsection \<open>The reviewed admission\<close>

definition finalization_tables :: "string list" where
  "finalization_tables = [''portfolio_ready_finalizations'', ''portfolio_readiness_current'', ''portfolio_pull_buffer_candidates'']"

definition attestations :: "db \<Rightarrow> string \<Rightarrow> int \<Rightarrow> int \<Rightarrow> (ready_finalization_row \<times> readiness_current_row \<times> candidate_row) list" where
  "attestations d repository issue_number generation =
     [(f, r, c).
        f \<leftarrow> portfolio_ready_finalizations d,
        fz_repository f = repository \<and> fz_issue_number f = issue_number \<and> fz_generation f = generation,
        r \<leftarrow> portfolio_readiness_current d,
        rd_repository r = fz_repository f \<and> rd_issue_number r = fz_issue_number f \<and> rd_campaign_id r = fz_campaign_id f \<and>
          rd_finalized_candidate_id r = Some (fz_ready_candidate_id f) \<and> rd_finalized_event_id r = Some (fz_dirty_event_id f),
        c \<leftarrow> portfolio_pull_buffer_candidates d,
        cd_id c = fz_ready_candidate_id f]"

definition message_of_payload :: "pyval \<Rightarrow> pydict \<Rightarrow> pydict res" where
  "message_of_payload message payload =
     bind_res (py_items message [''idempotency_key'', ''recipient_session_id'', ''topic'']) (\<lambda>fields.
     Inr (fields @ [(''payload'', PDict payload)]))"

definition finalization_drifts :: "ready_finalization_row \<times> readiness_current_row \<times> candidate_row \<Rightarrow> pydict \<Rightarrow> pydict \<Rightarrow> pydict \<Rightarrow> bool" where
  "finalization_drifts a payload identity current_message =
     (case a of (f, r, c) \<Rightarrow>
      let finalization = the (fz_payload_json f); get = get_in finalization; source = dict_of (py_get payload ''source'') in
      rd_state r \<noteq> ''FINALIZED'' \<or> cd_state c \<noteq> ''READY'' \<or> \<not> is_dict finalization \<or>
      digest_json finalization \<noteq> fz_finalization_sha256 f \<or>
      \<not> py_eq (get ''schema'') (PStr ''twinfinity-kanban-ready-finalization/v2'') \<or>
      \<not> py_eq (get ''repository'') (py_get source ''repository'') \<or>
      \<not> py_eq (get ''issue_number'') (py_get payload ''issue_number'') \<or>
      \<not> py_eq (get ''generation'') (py_get payload ''generation'') \<or>
      \<not> py_eq (get ''delivery_identity'') (PDict identity) \<or>
      \<not> py_eq (get ''delivery_identity_sha256'') (PStr (delivery_identity_sha256 identity)) \<or>
      \<not> py_eq (get ''admission_transaction_sha256'') (py_get identity ''admission_transaction_sha256'') \<or>
      \<not> is_dict (get ''admission_transaction'') \<or>
      \<not> py_eq (get_in (get ''admission_transaction'') ''message'') (PDict current_message))"

definition attestation_drift :: "string option res" where
  "attestation_drift = Inr (Some ''DELIVERY_IDENTITY_ATTESTATION_DRIFT'')"

definition attestation_error ::
  "ready_finalization_row \<times> readiness_current_row \<times> candidate_row \<Rightarrow> pyval \<Rightarrow> pydict \<Rightarrow> string option res" where
  "attestation_error a message payload =
     (case fz_payload_json (fst a) of
        None \<Rightarrow> attestation_drift
      | Some finalization \<Rightarrow>
          (let identity = py_get payload ''delivery_identity'' in
           case message_of_payload message payload of
             Inl _ \<Rightarrow> Inr (Some ''DELIVERY_IDENTITY_ADMISSION_INVALID'')
           | Inr current_message \<Rightarrow>
               if finalization_drifts a payload (dict_of identity) current_message then attestation_drift
               else bind_res (delivery_identity_error identity (get_in finalization ''admission_transaction'') PNone
                      (get_in finalization ''delivery_identity_sha256''))
                    (\<lambda>error. if error \<noteq> None then attestation_drift else Inr None)))"

definition immutable_admission_error :: "db \<Rightarrow> pyval \<Rightarrow> pydict \<Rightarrow> string option res" where
  "immutable_admission_error d message payload =
     bind_res (delivery_identity_error (py_get payload ''delivery_identity'') PNone PNone PNone) (\<lambda>error.
     (let source = py_get payload ''source'' in
      if error \<noteq> None then Inr error
      else if \<not> is_dict source \<or> \<not> is_str (get_in source ''repository'') \<or> \<not> is_int (py_get payload ''issue_number'') \<or>
           \<not> is_int (py_get payload ''generation'') then Inr (Some ''DELIVERY_IDENTITY_ADMISSION_INVALID'')
      else if \<not> list_all (table_installed d) finalization_tables then Inr (Some ''DELIVERY_IDENTITY_ATTESTATION_MISSING'')
      else (case attestations d (str_of (get_in source ''repository'')) (int_of (py_get payload ''issue_number''))
                   (int_of (py_get payload ''generation'')) of
              [a] \<Rightarrow> attestation_error a message payload
            | _ \<Rightarrow> Inr (Some ''DELIVERY_IDENTITY_ATTESTATION_MISSING''))))"

subsection \<open>Updating an entry\<close>

lemma py_get_update [simp]: "py_get (AList.update k v d) j = (if j = k then v else py_get d j)"
  by (simp add: py_get_def update_conv')

lemma update_update [simp]: "AList.update k v (AList.update k w d) = AList.update k v d"
  by (induction d) auto

lemma py_item_update: "j \<noteq> k \<Longrightarrow> py_item (PDict (AList.update k v d)) j = py_item (PDict d) j"
  by (simp add: py_item_def update_conv')

lemma py_items_update: "k \<notin> set js \<Longrightarrow> py_items (PDict (AList.update k v d)) js = py_items (PDict d) js"
  unfolding py_items_def by (induction js) (auto simp: py_item_update)

lemma get_in_PDict [simp]: "get_in (PDict d) k = py_get d k"
  by (simp add: get_in_def)

lemma is_dict_collapse: "is_dict v \<Longrightarrow> PDict (dict_of v) = v"
  by (cases v) simp_all

lemma py_get_with_payload_entry:
  "py_get (with_payload_entry a k v) ''message'' =
     PDict (AList.update ''payload'' (PDict (AList.update k v (dict_of (get_in (py_get a ''message'') ''payload''))))
       (dict_of (py_get a ''message'')))"
  "j \<noteq> ''message'' \<Longrightarrow> py_get (with_payload_entry a k v) j = py_get a j"
  by (simp_all add: with_payload_entry_def Let_def)

lemma with_payload_entry_twice [simp]: "with_payload_entry (with_payload_entry a k v) k w = with_payload_entry a k w"
  by (simp add: with_payload_entry_def Let_def)

subsection \<open>Binding validates\<close>

lemma scope_ignores_identity:
  "admission_execution_scope_sha256 (PDict (AList.update ''delivery_identity'' v p)) = admission_execution_scope_sha256 (PDict p)"
proof -
  have "standing_scope (AList.update ''delivery_identity'' v p) = standing_scope p"
    by (intro ext) (simp add: standing_scope_def Let_def)
  then show ?thesis
    by (simp add: admission_execution_scope_sha256_def py_item_update py_items_update ADMISSION_SCOPE_KEYS_def cong: if_cong)
qed

lemma fields_ignore_identity:
  "identity_fields source (PDict (AList.update ''delivery_identity'' v p)) = identity_fields source (PDict p)"
  by (simp add: identity_fields_def scope_ignores_identity py_items_update PAYLOAD_IDENTITY_KEYS_def)

lemma as_admission_invalid_Inr [simp]: "as_admission_invalid m = Inr x \<longleftrightarrow> m = Inr x"
  by (cases m rule: as_admission_invalid.cases) simp_all

text \<open>What building has read, and the slot that stays open for the digest.\<close>

lemma build_delivery_identity_Inr:
  assumes "build_delivery_identity admission = Inr identity"
  obtains a m p s fields where "admission = PDict a" "py_get a ''message'' = PDict m" "py_get m ''payload'' = PDict p"
    "py_get p ''source'' = s" "is_dict s" "is_dict (py_get a ''item'')" "identity_fields s (PDict p) = Inr fields"
    "identity = AList.update ''admission_transaction_sha256'' (PStr (digest_json (PDict (with_payload_entry a ''delivery_identity''
       (PDict (AList.update ''admission_transaction_sha256'' PNone fields)))))) fields"
proof -
  from assms show ?thesis
    unfolding build_delivery_identity_def transaction_with_normalized_self_digest_def
    by (auto simp: guard_simps Let_def is_dict_cases intro!: that)
qed

lemma build_after_binding:
  assumes "build_delivery_identity (PDict a) = Inr identity"
  shows "build_delivery_identity (PDict (with_payload_entry a ''delivery_identity'' v)) = Inr identity"
proof -
  from assms obtain m p s fields where ok: "py_get a ''message'' = PDict m" "py_get m ''payload'' = PDict p"
    "py_get p ''source'' = s" "is_dict s" "is_dict (py_get a ''item'')" "identity_fields s (PDict p) = Inr fields"
    "identity = AList.update ''admission_transaction_sha256'' (PStr (digest_json (PDict (with_payload_entry a ''delivery_identity''
       (PDict (AList.update ''admission_transaction_sha256'' PNone fields)))))) fields"
    by (rule build_delivery_identity_Inr) auto
  then show ?thesis
    by (simp add: build_delivery_identity_def transaction_with_normalized_self_digest_def py_get_with_payload_entry
        fields_ignore_identity guard_eval Let_def)
qed

lemma bound_transaction_digest:
  assumes "build_delivery_identity (PDict a) = Inr identity"
  shows "admission_transaction_sha256 (PDict (with_payload_entry a ''delivery_identity'' (PDict identity))) =
    Inr (str_of (py_get identity ''admission_transaction_sha256''))"
proof -
  from assms obtain fields where "identity = AList.update ''admission_transaction_sha256''
    (PStr (digest_json (PDict (with_payload_entry a ''delivery_identity''
       (PDict (AList.update ''admission_transaction_sha256'' PNone fields)))))) fields"
    by (rule build_delivery_identity_Inr) auto
  then show ?thesis
    by (simp add: admission_transaction_sha256_def transaction_with_normalized_self_digest_def py_get_with_payload_entry
        guard_eval Let_def)
qed

lemma bound_transaction_error:
  assumes "build_delivery_identity (PDict a) = Inr identity"
  shows "transaction_error identity (PDict (with_payload_entry a ''delivery_identity'' (PDict identity))) = Inr None"
  using build_after_binding [OF assms, of "PDict identity"]
  by (simp add: transaction_error_def Let_def py_get_with_payload_entry)

text \<open>
  C35: binding closes the loop of the self-describing digest. Whenever an identity can be built, binding puts it
  into the admission; the admission that now contains it builds the same identity again and has the
  transaction digest the identity states, so the only reasons to refuse are the form of the identity and
  the policy of the repository, never a drift; and binding again changes nothing.
\<close>

theorem bind_delivery_identity_closed:
  assumes "build_delivery_identity admission = Inr identity" and "bind_delivery_identity admission = (bound, result)"
  shows "get_in (get_in (get_in bound ''message'') ''payload'') ''delivery_identity'' = PDict identity \<and>
    build_delivery_identity bound = Inr identity \<and>
    (\<exists>s. py_get identity ''admission_transaction_sha256'' = PStr s \<and> admission_transaction_sha256 bound = Inr s) \<and>
    result = (if identity_malformed (PDict identity) then Inl (ValueError ''DELIVERY_IDENTITY_INVALID'')
              else if identity_off_policy identity then Inl (ValueError ''DELIVERY_IDENTITY_POLICY_INVALID'')
              else Inr identity) \<and>
    bind_delivery_identity bound = (bound, result)"
proof -
  from assms(1) obtain a where a: "admission = PDict a" and sha: "\<exists>s. py_get identity ''admission_transaction_sha256'' = PStr s"
    by (rule build_delivery_identity_Inr) auto
  let ?b = "PDict (with_payload_entry a ''delivery_identity'' (PDict identity))"
  note build = assms(1) [unfolded a]
  have bound: "bound = ?b" using assms by (simp add: a bind_delivery_identity_def Let_def)
  have again: "build_delivery_identity ?b = Inr identity" by (rule build_after_binding [OF build])
  have result: "result = (if identity_malformed (PDict identity) then Inl (ValueError ''DELIVERY_IDENTITY_INVALID'')
      else if identity_off_policy identity then Inl (ValueError ''DELIVERY_IDENTITY_POLICY_INVALID'') else Inr identity)"
    using assms bound_transaction_error [OF build]
    by (auto simp: a bind_delivery_identity_def delivery_identity_error_def Let_def)
  moreover have "bind_delivery_identity ?b = (?b, result)"
    using again assms(2) build by (auto simp: a bind_delivery_identity_def Let_def)
  ultimately show ?thesis
    using sha again bound_transaction_digest [OF build] by (auto simp: bound py_get_with_payload_entry)
qed

subsection \<open>What the transaction digest covers\<close>

lemma norm_sort_keys: "norm_val (sort_keys v) = norm_val v"
proof (induction v)
  case (PDict kvs)
  let ?s = "\<lambda>kv. (fst kv, sort_keys (snd kv))" and ?n = "\<lambda>kv. (fst kv, norm_val (snd kv))"
  let ?x = "map ?s kvs"
  have "sort_key fst (map ?n (sort_key fst ?x)) = map ?n (sort_key fst (sort_key fst ?x))" by (rule sort_key_fst_map)
  also have "sort_key fst (sort_key fst ?x) = sort_key fst ?x" by (rule sort_key_id_if_sorted) simp
  also have "map ?n (sort_key fst ?x) = sort_key fst (map ?n ?x)" by (rule sort_key_fst_map [symmetric])
  also have "map ?n ?x = map ?n kvs" using PDict.IH by (auto simp: snds.simps)
  finally show ?case by (simp only: sort_keys.simps norm_val.simps)
qed simp_all

text \<open>Two dictionaries are equal if their entries are, key by key.\<close>

lemma norm_PDict_iff:
  assumes "distinct (map fst d)" and "distinct (map fst e)"
  shows "norm_val (PDict d) = norm_val (PDict e) \<longleftrightarrow>
    (\<forall>k. map_option norm_val (map_of d k) = map_option norm_val (map_of e k))"
proof -
  let ?n = "map (\<lambda>kv. (fst kv, norm_val (snd kv)))"
  have dist: "distinct (map fst (?n d))" "distinct (map fst (?n e))" using assms by (simp_all add: comp_def)
  have m: "map_of (?n x) = map_option norm_val \<circ> map_of x" for x :: pydict
    by (induction x) (auto simp: fun_eq_iff)
  have "norm_val (PDict d) = norm_val (PDict e) \<longleftrightarrow> set (?n d) = set (?n e)"
  proof
    assume "norm_val (PDict d) = norm_val (PDict e)"
    then have "set (sort_key fst (?n d)) = set (sort_key fst (?n e))" by (simp only: norm_val.simps pyval.inject)
    then show "set (?n d) = set (?n e)" by (simp only: set_sort)
  next
    assume "set (?n d) = set (?n e)"
    from sort_key_fst_perm [OF dist this] show "norm_val (PDict d) = norm_val (PDict e)" by (simp only: norm_val.simps)
  qed
  also have "\<dots> \<longleftrightarrow> map_of (?n d) = map_of (?n e)" using map_of_inject_set [OF dist] by blast
  finally show ?thesis by (simp add: m fun_eq_iff)
qed

lemma norm_update_iff:
  assumes "distinct (map fst d)" and "distinct (map fst e)"
  shows "norm_val (PDict (AList.update k v d)) = norm_val (PDict (AList.update k w e)) \<longleftrightarrow>
    norm_val v = norm_val w \<and>
    (\<forall>j. j \<noteq> k \<longrightarrow> map_option norm_val (map_of d j) = map_option norm_val (map_of e j))"
  using assms by (subst norm_PDict_iff) (auto simp: distinct_update update_conv')

lemma distinct_keys_entry: "distinct_keys (PDict d) \<Longrightarrow> map_of d k = Some v \<Longrightarrow> distinct_keys v"
  by (auto simp: list_all_iff dest!: map_of_SomeD)

lemma distinct_keys_py_get: "distinct_keys (PDict d) \<Longrightarrow> distinct_keys (py_get d k)"
  by (auto simp: py_get_def intro: distinct_keys_entry simp del: distinct_keys.simps(2) split: option.splits)

lemma distinct_keys_update:
  "distinct_keys (PDict d) \<Longrightarrow> distinct_keys v \<Longrightarrow> distinct_keys (PDict (AList.update k v d))"
  by (induction d) (auto simp: image_iff dom_update distinct_update)

text \<open>The parts of an admission an identity was built from.\<close>

definition admission_parts :: "pyval \<Rightarrow> pydict \<Rightarrow> pydict \<Rightarrow> pydict \<Rightarrow> bool" where
  "admission_parts admission a m p \<longleftrightarrow> admission = PDict a \<and> py_get a ''message'' = PDict m \<and> py_get m ''payload'' = PDict p"

lemma admission_parts_distinct:
  "admission_parts x a m p \<Longrightarrow> distinct_keys x \<Longrightarrow>
     distinct_keys (PDict a) \<and> distinct_keys (PDict m) \<and> distinct_keys (PDict p)"
  unfolding admission_parts_def by (metis distinct_keys_py_get)

lemma with_payload_entry_parts:
  "admission_parts x a m p \<Longrightarrow> with_payload_entry a k v =
     AList.update ''message'' (PDict (AList.update ''payload'' (PDict (AList.update k v p)) m)) a"
  by (simp add: with_payload_entry_def admission_parts_def Let_def)

lemma with_payload_entry_id:
  assumes "admission_parts x a m p" and "py_get p k = v" and "v \<noteq> PNone"
  shows "with_payload_entry a k v = a"
proof -
  have entry: "AList.update j (py_get d j) d = d" if "py_get d j \<noteq> PNone" for d j
    using that by (auto simp: py_get_def intro: update_triv split: option.splits)
  from assms entry [of p k] entry [of m "''payload''"] entry [of a "''message''"] show ?thesis
    by (simp add: with_payload_entry_parts [OF assms(1)] admission_parts_def)
qed

lemma with_payload_entry_norm:
  assumes "admission_parts x a m p" "distinct_keys x" "admission_parts y b n q" "distinct_keys y"
    and "norm_val (PDict (with_payload_entry a k v)) = norm_val (PDict (with_payload_entry b k w))"
    and "norm_val v' = norm_val w'"
  shows "norm_val (PDict (with_payload_entry a k v')) = norm_val (PDict (with_payload_entry b k w'))"
  using assms(5,6) admission_parts_distinct [OF assms(1,2)] admission_parts_distinct [OF assms(3,4)]
  unfolding with_payload_entry_parts [OF assms(1)] with_payload_entry_parts [OF assms(3)]
  by (simp add: norm_update_iff del: norm_val.simps(6))

lemma with_payload_entry_distinct:
  assumes "admission_parts x a m p" and "distinct_keys x" and "distinct_keys v"
  shows "distinct_keys (PDict (with_payload_entry a k v))"
  using admission_parts_distinct [OF assms(1,2)] assms(3)
  unfolding with_payload_entry_parts [OF assms(1)] by (intro distinct_keys_update) blast+

text \<open>The text the transaction digest of an admission is taken of.\<close>

definition transaction_text :: "pyval \<Rightarrow> string" where
  "transaction_text admission =
     (let payload = get_in (get_in admission ''message'') ''payload'' in
      case identity_fields (get_in payload ''source'') payload of
        Inl _ \<Rightarrow> []
      | Inr fs \<Rightarrow> canonical_json (PDict (with_payload_entry (dict_of admission) ''delivery_identity''
          (PDict (AList.update ''admission_transaction_sha256'' PNone fs)))))"

lemma distinct_keys_py_items:
  assumes "py_items (PDict d) ks = Inr fs" and "distinct_keys (PDict d)"
  shows "map fst fs = ks \<and> list_all (\<lambda>kv. distinct_keys (snd kv)) fs"
proof -
  have "list_all2 (\<lambda>k kv. fst kv = k \<and> distinct_keys (snd kv)) ks fs"
    using map_res_Inr [OF assms(1) [unfolded py_items_def]]
    by (rule list_all2_mono) (auto simp: guard_simps py_item_def intro: distinct_keys_entry [OF assms(2)])
  then show ?thesis by (induction rule: list_all2_induct) auto
qed

lemma identity_fields_distinct:
  assumes "identity_fields (PDict s) (PDict p) = Inr fs" and "distinct_keys (PDict s)" and "distinct_keys (PDict p)"
  shows "distinct_keys (PDict fs)"
proof -
  from assms(1) obtain repository items scope where parts: "py_item (PDict s) ''repository'' = Inr repository"
    "py_items (PDict p) PAYLOAD_IDENTITY_KEYS = Inr items"
    and fs: "fs = [(''schema'', PStr DELIVERY_IDENTITY_SCHEMA), (''repository'', repository)] @ items @
       [(''admission_execution_scope_sha256'', PStr scope), (''admission_transaction_sha256'', PStr (replicate 64 CHR ''0''))]"
    unfolding identity_fields_def by (auto simp: guard_simps)
  from parts(1) have "distinct_keys repository"
    by (auto simp: py_item_def guard_simps intro: distinct_keys_entry [OF assms(2)])
  with distinct_keys_py_items [OF parts(2) assms(3)] show ?thesis
    by (simp add: fs PAYLOAD_IDENTITY_KEYS_def)
qed

text \<open>An accepted admission, its parts, and the digest it was accepted under.\<close>

lemma accepted_admission:
  assumes "delivery_identity_error identity admission PNone sha = Inr None" and "admission \<noteq> PNone" and "distinct_keys admission" and "distinct_keys identity"
  obtains a m p e fs where "admission_parts admission a m p" "py_get p ''delivery_identity'' = PDict e" "py_eq (PDict e) identity"
    "transaction_text admission = canonical_json (PDict (with_payload_entry a ''delivery_identity'' (PDict fs)))"
    "distinct_keys (PDict fs)"
    "py_get (dict_of identity) ''admission_transaction_sha256'' = PStr (sha256_hex (transaction_text admission))"
proof -
  let ?ats = "''admission_transaction_sha256''"
  from assms(1,2) have t: "transaction_error (dict_of identity) admission = Inr None" and id: "is_dict identity"
    unfolding delivery_identity_error_def by (auto simp: guard_simps identity_malformed_def Let_def split: if_splits)
  then obtain c where c: "build_delivery_identity admission = Inr c" "py_eq (PDict c) identity"
    and e: "is_dict (get_in (get_in (get_in admission ''message'') ''payload'') ''delivery_identity'')"
      "py_eq (get_in (get_in (get_in admission ''message'') ''payload'') ''delivery_identity'') identity"
    unfolding transaction_error_def
    by (cases "build_delivery_identity admission" rule: value_error_text.cases)
      (auto simp: Let_def is_dict_collapse split: if_splits)
  from c(1) obtain a m p s fs where ok: "admission = PDict a" "py_get a ''message'' = PDict m" "py_get m ''payload'' = PDict p"
    "py_get p ''source'' = s" "is_dict s" "is_dict (py_get a ''item'')" "identity_fields s (PDict p) = Inr fs"
    "c = AList.update ?ats (PStr (digest_json (PDict (with_payload_entry a ''delivery_identity''
       (PDict (AList.update ?ats PNone fs)))))) fs"
    by (rule build_delivery_identity_Inr)
  have parts: "admission_parts admission a m p" using ok by (simp add: admission_parts_def)
  note dist = admission_parts_distinct [OF parts assms(3)]
  have hashed: "transaction_text admission = canonical_json (PDict (with_payload_entry a ''delivery_identity''
      (PDict (AList.update ?ats PNone fs))))"
    using ok by (simp add: transaction_text_def Let_def)
  have fd: "distinct_keys (PDict fs)"
    using identity_fields_distinct [of "dict_of s" p fs] ok dist distinct_keys_py_get [of p "''source''"]
    by (simp add: is_dict_collapse)
  have cd: "distinct_keys (PDict c)" unfolding ok(8) by (rule distinct_keys_update [OF fd]) simp
  have cat: "map_of c ?ats = Some (PStr (sha256_hex (transaction_text admission)))"
    by (simp only: ok(8) hashed update_conv' digest_json_def fun_upd_same)
  from cd have "map_option norm_val (map_of c ?ats) = map_option norm_val (map_of (dict_of identity) ?ats)"
    using c(2) id assms(4) norm_PDict_iff [of c "dict_of identity"]
    by (cases identity) (simp_all add: py_eq_def del: norm_val.simps(6))
  then have "py_get (dict_of identity) ?ats = PStr (sha256_hex (transaction_text admission))"
    using cat by (cases "map_of (dict_of identity) ?ats")
      (simp_all add: py_get_def eq_commute [of "PStr _"] norm_val_PStr_iff)
  moreover have "distinct_keys (PDict (AList.update ?ats PNone fs))" by (rule distinct_keys_update [OF fd]) simp
  moreover obtain e where "py_get p ''delivery_identity'' = PDict e" "py_eq (PDict e) identity"
    using e ok by (auto simp: is_dict_cases)
  ultimately show thesis using that parts hashed by blast
qed

text \<open>
  C17: the transaction digest covers the whole admission. If two admissions are accepted with the same identity and the
  texts their digests are taken of do not collide under SHA-256, they are the same value.
\<close>

theorem identity_covers_admission:
  assumes "delivery_identity_error identity x PNone PNone = Inr None" and "delivery_identity_error identity y PNone PNone = Inr None"
    and "x \<noteq> PNone" and "y \<noteq> PNone" and "distinct_keys x" and "distinct_keys y" and "distinct_keys identity"
    and "sha256_hex (transaction_text x) = sha256_hex (transaction_text y) \<Longrightarrow> transaction_text x = transaction_text y"
  shows "py_eq x y"
proof -
  let ?di = "''delivery_identity''"
  from accepted_admission [OF assms(1,3,5,7)] obtain a m p e f where x: "admission_parts x a m p" "py_get p ?di = PDict e"
    "py_eq (PDict e) identity" "transaction_text x = canonical_json (PDict (with_payload_entry a ?di (PDict f)))" "distinct_keys (PDict f)"
    "py_get (dict_of identity) ''admission_transaction_sha256'' = PStr (sha256_hex (transaction_text x))" by blast
  from accepted_admission [OF assms(2,4,6,7)] obtain b n q e' g where y: "admission_parts y b n q" "py_get q ?di = PDict e'"
    "py_eq (PDict e') identity" "transaction_text y = canonical_json (PDict (with_payload_entry b ?di (PDict g)))" "distinct_keys (PDict g)"
    "py_get (dict_of identity) ''admission_transaction_sha256'' = PStr (sha256_hex (transaction_text y))" by blast
  have "transaction_text x = transaction_text y" using assms(8) x(6) y(6) by simp
  then have "sort_keys (PDict (with_payload_entry a ?di (PDict f))) = sort_keys (PDict (with_payload_entry b ?di (PDict g)))"
    unfolding x(4) y(4)
    by (intro canonical_json_inject with_payload_entry_distinct [OF x(1) assms(5)] with_payload_entry_distinct [OF y(1) assms(6)] x(5) y(5))
  then have "norm_val (PDict (with_payload_entry a ?di (PDict f))) = norm_val (PDict (with_payload_entry b ?di (PDict g)))"
    by (metis norm_sort_keys)
  moreover have "norm_val (PDict e) = norm_val (PDict e')" using x(3) y(3) by (simp only: py_eq_def)
  ultimately have "norm_val (PDict (with_payload_entry a ?di (PDict e))) = norm_val (PDict (with_payload_entry b ?di (PDict e')))"
    by (rule with_payload_entry_norm [OF x(1) assms(5) y(1) assms(6)])
  then show ?thesis
    using with_payload_entry_id [OF x(1,2)] with_payload_entry_id [OF y(1,2)] x(1) y(1)
    by (simp add: py_eq_def admission_parts_def del: norm_val.simps(6))
qed

subsection \<open>One admission per generation\<close>

definition delivery_key :: "pydict \<Rightarrow> pyval \<times> pyval \<times> pyval" where
  "delivery_key payload = (get_in (py_get payload ''source'') ''repository'', py_get payload ''issue_number'', py_get payload ''generation'')"

text \<open>The retained finalization and the message it was reviewed with.\<close>

definition attests :: "db \<Rightarrow> pydict \<Rightarrow> pyval \<Rightarrow> bool" where
  "attests d payload reviewed \<longleftrightarrow> (\<exists>f r c finalization repository issue_number generation.
     delivery_key payload = (PStr repository, PInt issue_number, PInt generation) \<and>
     attestations d repository issue_number generation = [(f, r, c)] \<and>
     rd_state r = ''FINALIZED'' \<and> cd_state c = ''READY'' \<and> fz_payload_json f = Some finalization \<and>
     digest_json finalization = fz_finalization_sha256 f \<and>
     get_in (get_in finalization ''admission_transaction'') ''message'' = reviewed \<and>
     py_eq (get_in (get_in reviewed ''payload'') ''delivery_identity'') (py_get payload ''delivery_identity''))"

lemma attests_unique: "attests d p x \<Longrightarrow> attests d q y \<Longrightarrow> delivery_key p = delivery_key q \<Longrightarrow> x = y"
  unfolding attests_def by auto

lemma immutable_admission_accepted:
  assumes "immutable_admission_error d message payload = Inr None"
  obtains current reviewed where "message_of_payload message payload = Inr current" "attests d payload reviewed"
    "py_eq reviewed (PDict current)"
proof -
  let ?id = "py_get payload ''delivery_identity''"
  from assms obtain f r c where key: "is_str (get_in (py_get payload ''source'') ''repository'')" "is_int (py_get payload ''issue_number'')"
      "is_int (py_get payload ''generation'')"
    and a: "attestations d (str_of (get_in (py_get payload ''source'') ''repository'')) (int_of (py_get payload ''issue_number''))
      (int_of (py_get payload ''generation'')) = [(f, r, c)]" "attestation_error (f, r, c) message payload = Inr None"
    unfolding immutable_admission_error_def by (auto simp: guard_simps Let_def split: if_splits list.splits)
  from a(2) obtain finalization current where fin: "fz_payload_json f = Some finalization" "message_of_payload message payload = Inr current"
    "\<not> finalization_drifts (f, r, c) payload (dict_of ?id) current"
    "delivery_identity_error ?id (get_in finalization ''admission_transaction'') PNone
       (get_in finalization ''delivery_identity_sha256'') = Inr None"
    unfolding attestation_error_def attestation_drift_def
    by (auto simp: guard_simps Let_def split: if_splits option.splits sum.splits)
  let ?x = "get_in finalization ''admission_transaction''"
  have drift: "rd_state r = ''FINALIZED''" "cd_state c = ''READY''" "digest_json finalization = fz_finalization_sha256 f" "is_dict ?x"
    "py_eq (get_in ?x ''message'') (PDict current)"
    using fin(1,3) by (simp_all add: finalization_drifts_def Let_def)
  from drift(4) have "?x \<noteq> PNone" by auto
  with fin(4) have "transaction_error (dict_of ?id) ?x = Inr None" and "is_dict ?id"
    unfolding delivery_identity_error_def by (auto simp: guard_simps identity_malformed_def Let_def split: if_splits)
  then have "py_eq (get_in (get_in (get_in ?x ''message'') ''payload'') ''delivery_identity'') ?id"
    unfolding transaction_error_def by (auto simp: Let_def is_dict_collapse split: if_splits)
  then have "attests d payload (get_in ?x ''message'')"
    using key a(1) fin(1) drift unfolding attests_def delivery_key_def
    by (intro exI [of _ f] exI [of _ r] exI [of _ c] exI [of _ finalization]) (auto simp: is_str_cases is_int_cases)
  with fin(2) drift(5) show ?thesis by (intro that)
qed

lemma message_of_payload_Inr:
  assumes "message_of_payload message payload = Inr current"
  obtains k r t where "py_item message ''idempotency_key'' = Inr k" "py_item message ''recipient_session_id'' = Inr r"
    "py_item message ''topic'' = Inr t"
    "current = [(''idempotency_key'', k), (''recipient_session_id'', r), (''topic'', t), (''payload'', PDict payload)]"
  using assms unfolding message_of_payload_def py_items_def by (auto simp: guard_simps intro!: that)

text \<open>
  C16: a delivery generation has one admission. A message the writer-side guards accept has the content that the
  only finalization of its repository, issue and generation retains, which is finalized, ready and intact; so two
  messages that are accepted for the same generation agree in idempotency key, recipient, topic and payload.
\<close>

theorem one_admission_per_generation:
  assumes "immutable_admission_error d message payload = Inr None" and "immutable_admission_error d message' payload' = Inr None"
    and "delivery_key payload = delivery_key payload'"
  shows "(\<exists>reviewed current. attests d payload reviewed \<and> message_of_payload message payload = Inr current \<and> py_eq reviewed (PDict current)) \<and>
    py_eq (PDict payload) (PDict payload') \<and>
    (\<forall>k \<in> {''idempotency_key'', ''recipient_session_id'', ''topic''}. \<exists>v w.
       py_item message k = Inr v \<and> py_item message' k = Inr w \<and> py_eq v w)"
proof -
  from immutable_admission_accepted [OF assms(1)] obtain x m where x: "message_of_payload message payload = Inr m" "attests d payload x"
    "py_eq x (PDict m)" by blast
  from immutable_admission_accepted [OF assms(2)] obtain y n where y: "message_of_payload message' payload' = Inr n" "attests d payload' y"
    "py_eq y (PDict n)" by blast
  have eq: "py_eq (PDict m) (PDict n)"
    using attests_unique [OF x(2) y(2) assms(3)] x(3) y(3) by (simp add: py_eq_def)
  from x(1) obtain k r t where m: "py_item message ''idempotency_key'' = Inr k" "py_item message ''recipient_session_id'' = Inr r"
    "py_item message ''topic'' = Inr t"
    "m = [(''idempotency_key'', k), (''recipient_session_id'', r), (''topic'', t), (''payload'', PDict payload)]"
    by (rule message_of_payload_Inr)
  from y(1) obtain k' r' t' where n: "py_item message' ''idempotency_key'' = Inr k'" "py_item message' ''recipient_session_id'' = Inr r'"
    "py_item message' ''topic'' = Inr t'"
    "n = [(''idempotency_key'', k'), (''recipient_session_id'', r'), (''topic'', t'), (''payload'', PDict payload')]"
    by (rule message_of_payload_Inr)
  have entry: "map_option norm_val (map_of m j) = map_option norm_val (map_of n j)" for j
    using eq norm_PDict_iff [of m n] unfolding py_eq_def by (simp add: m(4) n(4) del: norm_val.simps(6))
  have "norm_val k = norm_val k'" "norm_val r = norm_val r'" "norm_val t = norm_val t'" "norm_val (PDict payload) = norm_val (PDict payload')"
    using entry [of "''idempotency_key''"] entry [of "''recipient_session_id''"] entry [of "''topic''"] entry [of "''payload''"]
    by (simp_all add: m(4) n(4) del: norm_val.simps(6))
  with x m(1-3) n(1-3) show ?thesis by (auto simp: py_eq_def simp del: norm_val.simps(6))
qed

subsection \<open>Lanes\<close>

lemma split_on_nonempty [simp]: "split_on c s \<noteq> []"
  by (induction s) (auto split: list.splits)

lemma path_name_last:
  assumes "last (split_on CHR ''/'' p) \<noteq> []" and "last (split_on CHR ''/'' p) \<noteq> ''.''"
  shows "path_name p = last (split_on CHR ''/'' p)"
proof -
  obtain ws w where "split_on CHR ''/'' p = ws @ [w]" by (cases "split_on CHR ''/'' p" rule: rev_cases) simp_all
  with assms show ?thesis by (simp add: path_name_def)
qed

text \<open>The lane number in the name of a worktree: the digits after the stem of the repository.\<close>

definition lane_digits :: "pyval \<Rightarrow> string \<Rightarrow> string" where
  "lane_digits repository path =
     (case policy_for_repository repository of
        None \<Rightarrow> [] | Some p \<Rightarrow> takeWhile is_digit (drop (length (rp_worktree_stem p)) (path_name path)))"

lemma set_str_of_nat_digit: "c \<in> set (str_of_nat n) \<Longrightarrow> is_digit c"
  using list_all_is_digit_str_of_nat [of n] by (simp add: list_all_iff)

lemma takeWhile_stem: "takeWhile is_digit (drop (length stem) (stem @ str_of_nat n)) = str_of_nat n"
  by (simp add: set_str_of_nat_digit)

lemma versioned_name_digits:
  assumes "versioned_name (stem @ str_of_nat n) name"
  shows "takeWhile is_digit (drop (length stem) name) = str_of_nat n"
proof -
  let ?k = "length (stem @ str_of_nat n @ ''-v'')"
  from assms have "take ?k name = stem @ str_of_nat n @ ''-v''" by (simp add: versioned_name_def Let_def)
  then have "name = (stem @ str_of_nat n @ ''-v'') @ drop ?k name" by (metis append_take_drop_id)
  then obtain rest where "name = stem @ str_of_nat n @ ''-v'' @ rest" by (metis append_assoc)
  then show ?thesis using takeWhile_run [of is_digit "str_of_nat n" "''-v'' @ rest"] list_all_is_digit_str_of_nat [of n] by simp
qed

lemma worktree_identity_lane:
  assumes "worktree_identity_matches repository (PInt i) owner generation path opaque"
  shows "lane_digits repository (str_of path) = str_of_nat (nat i)"
  using assms unfolding worktree_identity_matches_def expected_worktree_identity_def lane_digits_def
  by (auto simp: Let_def str_of_int_def set_str_of_nat_digit versioned_name_digits harness_name_digits
      split: option.splits if_splits)

lemma transfer_identity_lane:
  assumes "transfer_identity identity (Some i)"
  shows "lane_digits (py_get identity ''repository'') (str_of (py_get identity ''worktree_path'')) = str_of_nat (nat i)"
proof -
  let ?p = "str_of (py_get identity ''worktree_path'')"
  from assms have "0 < i" and l: "last (split_on CHR ''/'' ?p) = ''twinfinityapp-issue-'' @ str_of_nat (nat i)"
    and r: "py_get identity ''repository'' = PStr APPLICATION_REPOSITORY"
    by (auto simp: transfer_identity_def expected_worktree_identity_def policy_for_repository_def POLICIES_def Let_def
        str_of_int_def split: if_splits)
  from l have "path_name ?p = ''twinfinityapp-issue-'' @ str_of_nat (nat i)" using path_name_last [of ?p] by simp
  with r takeWhile_stem [of "''twinfinityapp-issue-''" "nat i"] show ?thesis
    by (simp add: lane_digits_def policy_for_repository_def POLICIES_def)
qed

lemma accepted_lane:
  assumes "delivery_identity_error identity admission expected sha = Inr None"
  obtains d i where "identity = PDict d" "delivery_branch_issue_number (py_get d ''repository'') (py_get d ''branch'') = Some i" "0 \<le> i"
    "lane_digits (py_get d ''repository'') (str_of (py_get d ''worktree_path'')) = str_of_nat (nat i)"
    "Some (path_parent (path_of (str_of (py_get d ''worktree_path'')))) = expected_worktree_parent (py_get d ''repository'') WORKSPACE_ROOT"
    "py_get d ''repository'' = PStr HARNESS_REPOSITORY \<Longrightarrow> py_get d ''issue_number'' = PInt i"
proof -
  from assms obtain d where d: "identity = PDict d" "\<not> identity_malformed (PDict d)" "\<not> identity_off_policy d"
    by (cases identity) (auto simp: delivery_identity_error_def identity_malformed_def split: if_splits)
  let ?r = "py_get d ''repository''" and ?b = "py_get d ''branch''"
  from d(3) obtain i where i: "delivery_branch_issue_number ?r ?b = Some i"
    and parent: "Some (path_parent (path_of (str_of (py_get d ''worktree_path'')))) = expected_worktree_parent ?r WORKSPACE_ROOT"
    and owner: "delivery_branch_matches_owning_issue ?r ?b (py_get d ''issue_number'')"
    and lane: "worktree_identity_matches ?r (int_or_none (Some i)) (py_get d ''issue_number'') (py_get d ''generation'')
      (py_get d ''worktree_path'') (py_get d ''opaque_worktree_id'') \<or> transfer_identity d (Some i)"
    unfolding identity_off_policy_def by (auto simp: Let_def)
  have "0 \<le> i" using i by (auto simp: delivery_branch_issue_number_def split: option.splits if_splits)
  moreover have "lane_digits ?r (str_of (py_get d ''worktree_path'')) = str_of_nat (nat i)"
    using lane worktree_identity_lane transfer_identity_lane by (auto simp: int_or_none_def)
  moreover have "py_get d ''issue_number'' = PInt i" if "?r = PStr HARNESS_REPOSITORY"
    using owner i that policy_harness by (auto simp: delivery_branch_matches_owning_issue_def is_int_cases split: if_splits)
  ultimately show thesis using that d(1) i parent by blast
qed

lemma worktree_parent_repository:
  assumes "expected_worktree_parent r WORKSPACE_ROOT = Some x" and "expected_worktree_parent r' WORKSPACE_ROOT = Some x"
  shows "r = r'"
proof -
  have parts: "pp_parts (path_of ''twinfinity'') = [''twinfinity'']" "\<not> prefix ''/'' ''twinfinity''" by code_simp+
  show ?thesis using assms
    by (auto simp: expected_worktree_parent_def path_join_def parts policy_for_repository_def POLICIES_def is_str_cases
        split: if_splits option.splits)
      (auto dest!: arg_cong [where f = "length \<circ> pp_parts"])
qed

text \<open>
  C36: lanes do not share a worktree. Two accepted identities with the same worktree path are of the same
  repository and name the same lane number in their branches; in the harness repository they are of the same issue.
\<close>

theorem accepted_lanes_apart:
  assumes "delivery_identity_error (PDict i) ad ex sh = Inr None" and "delivery_identity_error (PDict j) ad' ex' sh' = Inr None"
    and "py_get i ''worktree_path'' = py_get j ''worktree_path''"
  shows "py_get i ''repository'' = py_get j ''repository'' \<and>
    (\<exists>n. delivery_branch_issue_number (py_get i ''repository'') (py_get i ''branch'') = Some n \<and>
       delivery_branch_issue_number (py_get j ''repository'') (py_get j ''branch'') = Some n) \<and>
    (py_get i ''repository'' = PStr HARNESS_REPOSITORY \<longrightarrow> py_get i ''issue_number'' = py_get j ''issue_number'')"
proof -
  from accepted_lane [OF assms(1)] obtain n where n: "delivery_branch_issue_number (py_get i ''repository'') (py_get i ''branch'') = Some n"
    "0 \<le> n" "lane_digits (py_get i ''repository'') (str_of (py_get i ''worktree_path'')) = str_of_nat (nat n)"
    "Some (path_parent (path_of (str_of (py_get i ''worktree_path'')))) = expected_worktree_parent (py_get i ''repository'') WORKSPACE_ROOT"
    "py_get i ''repository'' = PStr HARNESS_REPOSITORY \<Longrightarrow> py_get i ''issue_number'' = PInt n"
    by (metis pyval.inject(5))
  from accepted_lane [OF assms(2)] obtain m where m: "delivery_branch_issue_number (py_get j ''repository'') (py_get j ''branch'') = Some m"
    "0 \<le> m" "lane_digits (py_get j ''repository'') (str_of (py_get j ''worktree_path'')) = str_of_nat (nat m)"
    "Some (path_parent (path_of (str_of (py_get j ''worktree_path'')))) = expected_worktree_parent (py_get j ''repository'') WORKSPACE_ROOT"
    "py_get j ''repository'' = PStr HARNESS_REPOSITORY \<Longrightarrow> py_get j ''issue_number'' = PInt m"
    by (metis pyval.inject(5))
  have repo: "py_get i ''repository'' = py_get j ''repository''"
    using worktree_parent_repository n(4) m(4) assms(3) by metis
  have "n = m" using n(2,3) m(2,3) repo assms(3) by simp
  with n m repo show ?thesis by simp
qed

subsection \<open>An admission of the harness\<close>

definition sample_source :: pydict where
  "sample_source = [(''repository'', PStr HARNESS_REPOSITORY), (''object_kind'', PStr ''issue''), (''object_number'', PInt 12)]"

definition sample_payload :: pydict where
  "sample_payload = [(''source'', PDict sample_source), (''issue_number'', PInt 12), (''generation'', PInt 1), (''item_version'', PInt 3),
     (''action'', PStr ''start''), (''base_sha'', PStr (replicate 40 CHR ''a'')), (''branch'', PStr ''change/12-fix-lease''),
     (''worktree_path'', PStr ''/home/ubuntu/code/twinfinity/twinfinity-harness-issue12''),
     (''opaque_worktree_id'', PStr ''twinfinity-harness-issue12''), (''lease_manifest_sha256'', PStr (replicate 64 CHR ''b'')),
     (''capacity'', PInt 1)]"

definition sample_message :: "pydict \<Rightarrow> pydict" where
  "sample_message payload = [(''idempotency_key'', PStr ''k''), (''recipient_session_id'', PStr ''role.dev.v1''), (''topic'', PStr ''admission''),
     (''payload'', PDict payload)]"

definition sample_admission :: "pydict \<Rightarrow> pydict" where
  "sample_admission payload = [(''item'', PDict []), (''message'', PDict (sample_message payload))]"

definition sample_identity :: "string \<Rightarrow> string \<Rightarrow> pydict" where
  "sample_identity scope tx = [(''schema'', PStr DELIVERY_IDENTITY_SCHEMA), (''repository'', PStr HARNESS_REPOSITORY),
     (''issue_number'', PInt 12), (''generation'', PInt 1), (''lease_manifest_sha256'', PStr (replicate 64 CHR ''b'')),
     (''branch'', PStr ''change/12-fix-lease''), (''worktree_path'', PStr ''/home/ubuntu/code/twinfinity/twinfinity-harness-issue12''),
     (''opaque_worktree_id'', PStr ''twinfinity-harness-issue12''), (''admission_execution_scope_sha256'', PStr scope),
     (''admission_transaction_sha256'', PStr tx)]"

lemma sample_built:
  obtains scope tx where "build_delivery_identity (PDict (sample_admission sample_payload)) = Inr (sample_identity scope tx)"
    "SHA256 scope" "SHA256 tx"
proof -
  let ?p = "PDict sample_payload" and ?a = "sample_admission sample_payload"
  obtain scope where scope: "admission_execution_scope_sha256 ?p = Inr scope" "SHA256 scope"
    by (simp add: admission_execution_scope_sha256_def py_item_def py_items_def sample_payload_def sample_source_def
        ADMISSION_SCOPE_KEYS_def execution_scope_sha256_def)
  let ?f = "sample_identity scope (replicate 64 CHR ''0'')"
  let ?t = "digest_json (PDict (with_payload_entry ?a ''delivery_identity'' (PDict (AList.update ''admission_transaction_sha256'' PNone ?f))))"
  have parts: "py_get ?a ''message'' = PDict (sample_message sample_payload)" "py_get (sample_message sample_payload) ''payload'' = ?p"
    "py_get sample_payload ''source'' = PDict sample_source" "py_get ?a ''item'' = PDict []"
    by (simp_all add: py_get_def sample_admission_def sample_message_def sample_payload_def)
  have "identity_fields (PDict sample_source) ?p = Inr ?f"
    unfolding identity_fields_def scope(1)
    by (simp add: py_item_def py_items_def sample_source_def sample_payload_def PAYLOAD_IDENTITY_KEYS_def sample_identity_def
        numeral_eq_Suc)
  then have "build_delivery_identity (PDict ?a) = Inr (AList.update ''admission_transaction_sha256'' (PStr ?t) ?f)"
    by (simp add: build_delivery_identity_def transaction_with_normalized_self_digest_def parts guard_eval Let_def)
  also have "AList.update ''admission_transaction_sha256'' (PStr ?t) ?f = sample_identity scope ?t" by (simp add: sample_identity_def)
  finally show thesis by (rule that) (simp_all add: scope(2))
qed

lemma sample_on_policy: "\<not> identity_off_policy (sample_identity scope tx)"
  by code_simp

lemma sample_well_formed:
  assumes "SHA256 scope" and "SHA256 tx"
  shows "\<not> identity_malformed (PDict (sample_identity scope tx))"
proof -
  have "SHA256 (replicate 64 CHR ''b'')" by code_simp
  with assms show ?thesis
    by (simp add: identity_malformed_def sample_identity_def keys_are_def DELIVERY_IDENTITY_KEYS_def py_get_def sha_str_def nonempty_str_def)
qed

theorem bind_delivery_identity_closed_witness:
  "\<exists>bound identity. bind_delivery_identity (PDict (sample_admission sample_payload)) = (bound, Inr identity) \<and>
     build_delivery_identity bound = Inr identity \<and> bind_delivery_identity bound = (bound, Inr identity)"
proof -
  obtain scope tx where ok: "build_delivery_identity (PDict (sample_admission sample_payload)) = Inr (sample_identity scope tx)"
    "SHA256 scope" "SHA256 tx" by (rule sample_built)
  obtain bound result where b: "bind_delivery_identity (PDict (sample_admission sample_payload)) = (bound, result)" by (rule prod.exhaust)
  from bind_delivery_identity_closed [OF ok(1) b] sample_well_formed [OF ok(2,3)] sample_on_policy b show ?thesis by auto
qed

text \<open>The same admission with its identity, and a store whose finalization retains it.\<close>

definition bound_payload :: "pydict \<Rightarrow> pydict" where
  "bound_payload identity = AList.update ''delivery_identity'' (PDict identity) sample_payload"

lemma sample_bound:
  "with_payload_entry (sample_admission sample_payload) ''delivery_identity'' (PDict identity) = sample_admission (bound_payload identity)"
  by (simp add: with_payload_entry_def sample_admission_def sample_message_def bound_payload_def py_get_def Let_def)

lemma sample_accepted:
  obtains scope tx where "build_delivery_identity (PDict (sample_admission sample_payload)) = Inr (sample_identity scope tx)"
    "\<not> identity_malformed (PDict (sample_identity scope tx))" "\<not> identity_off_policy (sample_identity scope tx)"
    "transaction_error (sample_identity scope tx) (PDict (sample_admission (bound_payload (sample_identity scope tx)))) = Inr None"
proof -
  obtain scope tx where ok: "build_delivery_identity (PDict (sample_admission sample_payload)) = Inr (sample_identity scope tx)"
    "SHA256 scope" "SHA256 tx" by (rule sample_built)
  show thesis
    using that [OF ok(1) sample_well_formed [OF ok(2,3)] sample_on_policy] bound_transaction_error [OF ok(1)] by (simp add: sample_bound)
qed

text \<open>The order in which the admission was filled does not matter.\<close>

lemma sample_swapped:
  "build_delivery_identity (PDict (rev (sample_admission payload))) = build_delivery_identity (PDict (sample_admission payload))"
proof -
  have "canonical_json (PDict [(''message'', m), (''item'', i)]) = canonical_json (PDict [(''item'', i), (''message'', m)])" for m i
    by (rule canonical_json_dict_order) auto
  then have digest: "digest_json (PDict [(''message'', m), (''item'', i)]) = digest_json (PDict [(''item'', i), (''message'', m)])" for m i
    by (simp only: digest_json_def)
  show ?thesis
    by (simp add: build_delivery_identity_def transaction_with_normalized_self_digest_def with_payload_entry_def sample_admission_def
        sample_message_def py_get_def Let_def guard_eval digest)
qed

lemma sample_swapped_error:
  "transaction_error identity (PDict (rev (sample_admission payload))) = transaction_error identity (PDict (sample_admission payload))"
  unfolding transaction_error_def sample_swapped by (simp add: sample_admission_def py_get_def Let_def)

theorem identity_covers_admission_witness:
  "\<exists>identity x y. delivery_identity_error identity x PNone PNone = Inr None \<and> delivery_identity_error identity y PNone PNone = Inr None \<and>
     x \<noteq> y \<and> py_eq x y"
proof -
  obtain scope tx where ok: "\<not> identity_malformed (PDict (sample_identity scope tx))" "\<not> identity_off_policy (sample_identity scope tx)"
    "transaction_error (sample_identity scope tx) (PDict (sample_admission (bound_payload (sample_identity scope tx)))) = Inr None"
    by (rule sample_accepted)
  let ?i = "sample_identity scope tx"
  let ?x = "PDict (sample_admission (bound_payload ?i))" and ?y = "PDict (rev (sample_admission (bound_payload ?i)))"
  have acc: "delivery_identity_error (PDict ?i) ?x PNone PNone = Inr None" "delivery_identity_error (PDict ?i) ?y PNone PNone = Inr None"
    using ok by (simp_all add: delivery_identity_error_def sample_swapped_error)
  have dist: "distinct_keys ?x" "distinct_keys ?y" "distinct_keys (PDict ?i)"
    by (simp_all add: sample_identity_def sample_admission_def sample_message_def bound_payload_def sample_payload_def sample_source_def)
  have "?x \<noteq> ?y" by (simp add: sample_admission_def)
  have "transaction_text ?x = transaction_text ?y"
  proof -
    have "canonical_json (PDict [(''message'', m), (''item'', i)]) = canonical_json (PDict [(''item'', i), (''message'', m)])" for m i
      by (rule canonical_json_dict_order) auto
    then show ?thesis
      by (simp add: transaction_text_def with_payload_entry_def sample_admission_def py_get_def Let_def del: canonical_json.simps split: sum.splits)
  qed
  from identity_covers_admission [OF acc _ _ dist this] acc \<open>?x \<noteq> ?y\<close> show ?thesis by blast
qed

theorem accepted_lanes_apart_witness:
  "\<exists>i. delivery_identity_error (PDict i) PNone PNone PNone = Inr None \<and> py_get i ''issue_number'' = PInt 12 \<and>
     delivery_branch_issue_number (py_get i ''repository'') (py_get i ''branch'') \<noteq> None"
proof -
  obtain scope tx where "\<not> identity_malformed (PDict (sample_identity scope tx))" "\<not> identity_off_policy (sample_identity scope tx)"
    by (rule sample_accepted)
  then have acc: "delivery_identity_error (PDict (sample_identity scope tx)) PNone PNone PNone = Inr None"
    by (simp add: delivery_identity_error_def)
  have "py_get (sample_identity scope tx) ''issue_number'' = PInt 12" by (simp add: sample_identity_def py_get_def)
  with accepted_lanes_apart [OF acc acc refl] acc show ?thesis by auto
qed

definition sample_finalization :: "pydict \<Rightarrow> pyval" where
  "sample_finalization identity = PDict [(''schema'', PStr ''twinfinity-kanban-ready-finalization/v2''),
     (''repository'', PStr HARNESS_REPOSITORY), (''issue_number'', PInt 12), (''generation'', PInt 1),
     (''delivery_identity'', PDict identity), (''delivery_identity_sha256'', PStr (delivery_identity_sha256 identity)),
     (''admission_transaction_sha256'', py_get identity ''admission_transaction_sha256''),
     (''admission_transaction'', PDict (sample_admission (bound_payload identity)))]"

definition sample_store :: "pydict \<Rightarrow> db" where
  "sample_store identity = empty_db\<lparr>sqlite_master := finalization_tables,
     portfolio_ready_finalizations := [\<lparr>fz_repository = HARNESS_REPOSITORY, fz_issue_number = 12, fz_generation = 1, fz_campaign_id = 4,
       fz_ready_candidate_id = 5, fz_dirty_event_id = 6, fz_finalization_sha256 = digest_json (sample_finalization identity),
       fz_payload_json = Some (sample_finalization identity)\<rparr>],
     portfolio_readiness_current := [\<lparr>rd_repository = HARNESS_REPOSITORY, rd_issue_number = 12, rd_campaign_id = 4,
       rd_finalized_candidate_id = Some 5, rd_finalized_event_id = Some 6, rd_state = ''FINALIZED''\<rparr>],
     portfolio_pull_buffer_candidates := [\<lparr>cd_id = 5, cd_repository = HARNESS_REPOSITORY, cd_issue_number = 12, cd_graph_version = 1,
       cd_accepted_main_sha = replicate 40 CHR ''a'', cd_source_payload_sha256 = [], cd_lane_key = ''lane'', cd_development_units = 1,
       cd_shared_units = 1, cd_sre_units = 0, cd_state = ''READY''\<rparr>]\<rparr>"

lemma compare_digest_same: "compare_digest (digest_json v) (digest_json v) = Inr True"
proof -
  have "is_hex c \<Longrightarrow> of_char c < (128 :: nat)" for c by (auto simp: char_class_defs)
  with SHA256_digest_json [of v] show ?thesis by (auto simp: compare_digest_def SHA256_def list_all_iff guard_eval)
qed

lemma sample_attested:
  assumes "\<not> identity_malformed (PDict (sample_identity scope tx))" "\<not> identity_off_policy (sample_identity scope tx)"
    "transaction_error (sample_identity scope tx) (PDict (sample_admission (bound_payload (sample_identity scope tx)))) = Inr None"
  shows "immutable_admission_error (sample_store (sample_identity scope tx))
    (PDict (sample_message (bound_payload (sample_identity scope tx)))) (bound_payload (sample_identity scope tx)) = Inr None"
proof -
  let ?i = "sample_identity scope tx"
  let ?p = "bound_payload ?i"
  have get: "py_get ?p ''delivery_identity'' = PDict ?i" "py_get ?p ''source'' = PDict sample_source" "py_get ?p ''issue_number'' = PInt 12"
    "py_get ?p ''generation'' = PInt 1" "py_get sample_source ''repository'' = PStr HARNESS_REPOSITORY"
    by (simp_all add: bound_payload_def py_get_def sample_payload_def sample_source_def)
  have msg: "message_of_payload (PDict (sample_message ?p)) ?p = Inr (sample_message ?p)"
    by (simp add: message_of_payload_def py_items_def py_item_def sample_message_def)
  have fin: "get_in (sample_finalization ?i) ''admission_transaction'' = PDict (sample_admission ?p)"
    "get_in (sample_finalization ?i) ''delivery_identity_sha256'' = PStr (delivery_identity_sha256 ?i)"
    by (simp_all add: sample_finalization_def py_get_def)
  have acc: "delivery_identity_error (PDict ?i) PNone PNone PNone = Inr None"
    "delivery_identity_error (PDict ?i) (PDict (sample_admission ?p)) PNone (PStr (delivery_identity_sha256 ?i)) = Inr None"
    using assms by (simp_all add: delivery_identity_error_def delivery_identity_sha256_def compare_digest_same)
  obtain f r c where a: "attestations (sample_store ?i) HARNESS_REPOSITORY 12 1 = [(f, r, c)]" "fz_payload_json f = Some (sample_finalization ?i)"
    "rd_state r = ''FINALIZED''" "cd_state c = ''READY''" "fz_finalization_sha256 f = digest_json (sample_finalization ?i)"
    by (simp add: attestations_def sample_store_def empty_db_def)
  have nd: "\<not> finalization_drifts (f, r, c) ?p ?i (sample_message ?p)"
    using a(2-5) get by (simp add: finalization_drifts_def Let_def fin(1)) (simp add: sample_finalization_def sample_admission_def py_get_def)
  have "list_all (table_installed (sample_store ?i)) finalization_tables"
    by (simp add: sample_store_def table_installed_def list_all_iff)
  then show ?thesis
    using acc nd msg a get by (simp add: immutable_admission_error_def attestation_error_def fin Let_def)
qed

theorem one_admission_per_generation_witness:
  "\<exists>d message payload. immutable_admission_error d message payload = Inr None \<and> (\<exists>reviewed. attests d payload reviewed)"
proof -
  obtain scope tx where "\<not> identity_malformed (PDict (sample_identity scope tx))" "\<not> identity_off_policy (sample_identity scope tx)"
    "transaction_error (sample_identity scope tx) (PDict (sample_admission (bound_payload (sample_identity scope tx)))) = Inr None"
    by (rule sample_accepted)
  note ok = sample_attested [OF this]
  from one_admission_per_generation [OF ok ok refl] ok show ?thesis by blast
qed

end
