(* ===== verification/Hosted_Scope.thy ===== *)
theory Hosted_Scope
  imports Executor_Targets
begin

section \<open>The scope of a hosted operation\<close>

text \<open>
  The pure half of hosted_operation_control.py: which operations exist, and the grammar of the scope an
  operation is prepared with. A scope is a JSON object with a target, the state expected before and the
  state desired after the operation, exclusions and stop conditions; each kind of operation fixes the shape
  of the three states. Comparisons with \<open>==\<close> are \<open>py_eq\<close>, those with \<open>is\<close> are equality.
\<close>

abbreviation hosted_error :: "string \<Rightarrow> error" where
  "hosted_error \<equiv> CoordinationError"

definition PROVIDERS :: "string list" where
  "PROVIDERS = [''github'', ''google_cloud'', ''supabase'']"

definition HOSTED_TARGET_KINDS :: "string list" where
  "HOSTED_TARGET_KINDS = [''github_ruleset'', ''github_environment'', ''github_billing_budget'', ''github_actions_rerun'',
     ''gcp_project_inventory'', ''supabase_project_inventory'']"

definition OPERATION_KINDS :: "string list" where
  "OPERATION_KINDS = [''READ_METADATA'', ''UPDATE_SETTINGS'', ''CREATE_SETTINGS'', ''RERUN_WORKFLOW'']"

definition MUTATING_OPERATIONS :: "string list" where
  "MUTATING_OPERATIONS = [''UPDATE_SETTINGS'', ''CREATE_SETTINGS'', ''RERUN_WORKFLOW'']"

definition ALLOWED_OPERATION_TARGETS :: "(string \<times> string \<times> string) list" where
  "ALLOWED_OPERATION_TARGETS = [(''github'', ''github_ruleset'', ''UPDATE_SETTINGS''),
     (''github'', ''github_environment'', ''CREATE_SETTINGS''), (''github'', ''github_billing_budget'', ''UPDATE_SETTINGS''),
     (''github'', ''github_actions_rerun'', ''RERUN_WORKFLOW''), (''google_cloud'', ''gcp_project_inventory'', ''READ_METADATA''),
     (''supabase'', ''supabase_project_inventory'', ''READ_METADATA'')]"

definition GCP_METADATA_CATEGORIES :: "string list" where
  "GCP_METADATA_CATEGORIES = [''artifact_registry'', ''cloud_run'', ''iam_bindings'', ''secret_metadata'', ''service_accounts'']"

definition SUPABASE_METADATA_CATEGORIES :: "string list" where
  "SUPABASE_METADATA_CATEGORIES = [''extensions'', ''functions'', ''grants'', ''migrations'', ''performance_advisors'',
     ''project_identity'', ''rls'', ''schemas'', ''security_advisors'', ''triggers'']"

definition RUNNER_NOT_ACQUIRED_ANNOTATION :: pyval where
  "RUNNER_NOT_ACQUIRED_ANNOTATION = PDict [(''annotation_level'', PStr ''failure''), (''end_line'', PInt 1),
     (''message'', PStr ''The job was not acquired by Runner of type hosted even after multiple attempts''),
     (''path'', PStr ''.github''), (''raw_details'', PStr []), (''start_line'', PInt 1), (''title'', PStr [])]"

subsection \<open>Keys that must not occur\<close>

text \<open>
  \<open>FORBIDDEN_SCOPE_KEYS\<close>: a search that ignores case, under which the long s and the Kelvin sign count as
  \<open>s\<close> and \<open>k\<close>.
\<close>

fun fold_case :: "string \<Rightarrow> string" where
  "fold_case (a # b # c # s) =
     (if a = CHR 0xC5 \<and> b = CHR 0xBF then CHR ''s'' # fold_case (c # s)
      else if a = CHR 0xE2 \<and> b = CHR 0x84 \<and> c = CHR 0xAA then CHR ''k'' # fold_case s
      else ascii_lower a # fold_case (b # c # s))"
| "fold_case [a, b] = (if a = CHR 0xC5 \<and> b = CHR 0xBF then ''s'' else [ascii_lower a, ascii_lower b])"
| "fold_case [a] = [ascii_lower a]"
| "fold_case [] = []"

definition FORBIDDEN_SCOPE_WORDS :: "string list" where
  "FORBIDDEN_SCOPE_WORDS = [''secret'', ''password'', ''credential'', ''payload''] @
     concat (map (\<lambda>(a, b). [a @ b, a @ ''_'' @ b, a @ ''-'' @ b])
       [(''access'', ''token''), (''refresh'', ''token''), (''private'', ''key''), (''row'', ''data'')])"

definition forbidden_scope_key :: "string \<Rightarrow> bool" where
  "forbidden_scope_key key \<longleftrightarrow> (\<exists>w \<in> set FORBIDDEN_SCOPE_WORDS. sublist w (fold_case key))"

fun walk :: "pyval \<Rightarrow> unit res" where
  "walk (PDict kvs) = check_each id (map (\<lambda>kv. if forbidden_scope_key (fst kv)
     then Inl (hosted_error ''HOSTED_SCOPE_SECRET_FIELD'') else walk (snd kv)) kvs)"
| "walk (PList xs) = check_each id (map walk xs)"
| "walk _ = Inr ()"

subsection \<open>Shapes\<close>

definition hosted_parse_timestamp :: "pyval \<Rightarrow> int res" where
  "hosted_parse_timestamp value =
     (let invalid = hosted_error ''HOSTED_TIMESTAMP_INVALID''; s = str_of value in
      guarded [(\<not> is_str value \<or> s = [] \<or> last s \<noteq> CHR ''Z'', invalid)]
        (require_some invalid (fromisoformat (butlast s @ ''+00:00'')) Inr))"

definition require_shape :: "pyval \<Rightarrow> string list \<Rightarrow> string list \<Rightarrow> pydict res" where
  "require_shape value required allowed =
     guarded [(\<not> is_dict value \<or> \<not> set required \<subseteq> fst ` set (dict_of value) \<or> \<not> fst ` set (dict_of value) \<subseteq> set allowed,
               hosted_error ''HOSTED_SCOPE_CLASS_INVALID'')] (Inr (dict_of value))"

definition class_check :: "bool \<Rightarrow> unit res" where
  "class_check ok = guarded [(\<not> ok, hosted_error ''HOSTED_SCOPE_CLASS_INVALID'')] (Inr ())"

definition positive_int :: "pyval \<Rightarrow> bool" where
  "positive_int v \<longleftrightarrow> is_int v \<and> 0 < int_of v"

definition sorted_names :: "pyval \<Rightarrow> bool" where
  "sorted_names v \<longleftrightarrow> is_list v \<and> list_of v \<noteq> [] \<and> list_all is_str (list_of v) \<and> sorted_wrt (<) (map str_of (list_of v))"

definition scope_shapes ::
  "pydict \<Rightarrow> string list \<times> string list \<Rightarrow> string list \<times> string list \<Rightarrow> string list \<times> string list \<Rightarrow>
   (pydict \<Rightarrow> pydict \<Rightarrow> pydict \<Rightarrow> unit res) \<Rightarrow> unit res" where
  "scope_shapes value target expected desired k =
     bind_res (require_shape (py_get value ''target'') (fst target) (snd target)) (\<lambda>t.
     bind_res (require_shape (py_get value ''expected_state'') (fst expected) (snd expected)) (\<lambda>e.
     bind_res (require_shape (py_get value ''desired_state'') (fst desired) (snd desired)) (\<lambda>s. k t e s)))"

definition RULESET_STATE_KEYS :: "string list" where
  "RULESET_STATE_KEYS = [''enforcement'', ''include'', ''exclude'', ''required_status_check'', ''required_approving_review_count'',
     ''dismiss_stale_reviews_on_push'', ''required_review_thread_resolution'', ''independent_approval'', ''retain_rules'']"

definition validate_ruleset_scope :: "pydict \<Rightarrow> string \<Rightarrow> unit res" where
  "validate_ruleset_scope value target_key =
     scope_shapes value ([''repository'', ''ruleset_id''], [''repository'', ''ruleset_id'', ''ruleset_name'', ''ruleset_target''])
       ([''enforcement'', ''include'', ''required_status_check''], RULESET_STATE_KEYS)
       ([''enforcement'', ''include'', ''required_status_check'', ''required_approving_review_count''], RULESET_STATE_KEYS)
     (\<lambda>target expected desired. class_check
        (is_str (py_get target ''repository'') \<and> REPOSITORY (str_of (py_get target ''repository'')) \<and>
         positive_int (py_get target ''ruleset_id'') \<and> target_key = str_of_int (int_of (py_get target ''ruleset_id'')) \<and>
         is_list (py_get expected ''include'') \<and> is_list (py_get desired ''include'') \<and>
         is_str (py_get desired ''required_status_check'') \<and> is_int (py_get desired ''required_approving_review_count'')))"

definition validate_environment_scope :: "pydict \<Rightarrow> string \<Rightarrow> unit res" where
  "validate_environment_scope value target_key =
     (let target = [''repository'', ''environment'']; expected = [''exists''];
          desired = [''deployment_branch'', ''required_reviewer'', ''environment_values_configured''] in
      scope_shapes value (target, target) (expected, expected) (desired, desired)
     (\<lambda>target expected desired. class_check
        (is_str (py_get target ''repository'') \<and> REPOSITORY (str_of (py_get target ''repository'')) \<and>
         nonempty_str (py_get target ''environment'') \<and>
         target_key = str_of (py_get target ''repository'') @ '':'' @ str_of (py_get target ''environment'') \<and>
         is_bool (py_get expected ''exists'') \<and> is_str (py_get desired ''deployment_branch'') \<and>
         is_str (py_get desired ''required_reviewer'') \<and> is_bool (py_get desired ''environment_values_configured''))))"

definition validate_budget_scope :: "pydict \<Rightarrow> string \<Rightarrow> unit res" where
  "validate_budget_scope value target_key =
     (let target = [''organization'', ''budget_id'']; expected = [''amount'', ''prevent_further_usage'', ''alert_config_sha256''];
          desired = [''amount'', ''prevent_further_usage'', ''preserve_alerting''] in
      scope_shapes value (target, target) (expected, expected) (desired, desired)
     (\<lambda>target expected desired. class_check
        (nonempty_str (py_get target ''organization'') \<and> nonempty_str (py_get target ''budget_id'') \<and>
         target_key = str_of (py_get target ''organization'') @ '':'' @ str_of (py_get target ''budget_id'') \<and>
         positive_int (py_get expected ''amount'') \<and> is_bool (py_get expected ''prevent_further_usage'') \<and>
         sha_str (py_get expected ''alert_config_sha256'') \<and> positive_int (py_get desired ''amount'') \<and>
         is_bool (py_get desired ''prevent_further_usage'') \<and> py_get desired ''preserve_alerting'' = PBool True)))"

subsection \<open>Reruns of a workflow\<close>

definition RERUN_TARGET_KEYS :: "string list" where
  "RERUN_TARGET_KEYS = [''repository'', ''pull_request_number'', ''workflow_path'', ''workflow_run_id'', ''run_attempt'',
     ''check_suite_id'', ''head_sha'', ''base_sha'', ''workflow_sha'']"

definition RERUN_EXPECTED_KEYS :: "string list" where
  "RERUN_EXPECTED_KEYS = [''pull_request_state'', ''draft'', ''ready_generation'', ''classifier_conclusion'',
     ''classifier_runner_id'', ''classifier_runner_name_present'', ''classifier_step_count'', ''log_count'',
     ''annotation_count'', ''artifact_count'', ''substantive_jobs'', ''cancellation_reason'', ''cancellation_ambiguous'',
     ''local_gate_id'', ''local_gate_evidence_sha256'', ''local_gate_receipt_sha256'', ''guarded_publication_id'',
     ''guarded_publication_receipt_sha256'', ''provider_restoration_operation_id'', ''provider_restoration_target_key'',
     ''provider_restoration_receipt_sha256'', ''failed_run_completed_at'', ''provider_restoration_minimum_amount'']"

definition RERUN_DESIRED_KEYS :: "string list" where
  "RERUN_DESIRED_KEYS = [''endpoint'', ''next_run_attempt'', ''preserve_workflow_run_id'', ''preserve_check_suite_id'',
     ''rerun_once'', ''repeat_local_gate'']"

definition rerun_target_ok :: "pydict \<Rightarrow> string \<Rightarrow> bool" where
  "rerun_target_ok target target_key \<longleftrightarrow>
     is_str (py_get target ''repository'') \<and> REPOSITORY (str_of (py_get target ''repository'')) \<and>
     positive_int (py_get target ''pull_request_number'') \<and>
     is_str (py_get target ''workflow_path'') \<and> prefix ''.github/workflows/'' (str_of (py_get target ''workflow_path'')) \<and>
     positive_int (py_get target ''workflow_run_id'') \<and> py_eq (py_get target ''run_attempt'') (PInt 1) \<and>
     positive_int (py_get target ''check_suite_id'') \<and>
     (\<forall>k \<in> {''head_sha'', ''base_sha'', ''workflow_sha''}. is_str (py_get target k) \<and> GIT_SHA (str_of (py_get target k))) \<and>
     target_key = str_of (py_get target ''repository'') @ '':pr:'' @ str_of_int (int_of (py_get target ''pull_request_number'')) @
       '':run:'' @ str_of_int (int_of (py_get target ''workflow_run_id'')) @ '':attempt:1''"

definition jobs_skipped :: "pyval \<Rightarrow> bool" where
  "jobs_skipped jobs \<longleftrightarrow> is_dict jobs \<and> dict_of jobs \<noteq> [] \<and>
     list_all (\<lambda>kv. fst kv \<noteq> [] \<and> snd kv = PStr ''skipped'') (dict_of jobs) \<and> sorted (map fst (dict_of jobs))"

definition rerun_expected_ok :: "pydict \<Rightarrow> string \<Rightarrow> bool" where
  "rerun_expected_ok expected repository \<longleftrightarrow>
     py_get expected ''pull_request_state'' = PStr ''OPEN'' \<and> py_get expected ''draft'' = PBool False \<and>
     positive_int (py_get expected ''ready_generation'') \<and> py_get expected ''classifier_conclusion'' = PStr ''cancelled'' \<and>
     py_eq (py_get expected ''classifier_runner_id'') (PInt 0) \<and> py_get expected ''classifier_runner_name_present'' = PBool False \<and>
     (\<forall>k \<in> {''classifier_step_count'', ''log_count'', ''artifact_count''}. py_eq (py_get expected k) (PInt 0)) \<and>
     jobs_skipped (py_get expected ''substantive_jobs'') \<and>
     py_get expected ''cancellation_reason'' = PStr ''HOSTED_RUNNER_NOT_ACQUIRED'' \<and>
     py_get expected ''cancellation_ambiguous'' = PBool False \<and>
     (\<forall>k \<in> {''local_gate_id'', ''guarded_publication_id'', ''provider_restoration_operation_id'',
        ''provider_restoration_minimum_amount''}. positive_int (py_get expected k)) \<and>
     is_str (py_get expected ''provider_restoration_target_key'') \<and>
     prefix (takeWhile (\<lambda>c. c \<noteq> CHR ''/'') repository @ '':'') (str_of (py_get expected ''provider_restoration_target_key'')) \<and>
     (\<forall>k \<in> {''local_gate_evidence_sha256'', ''local_gate_receipt_sha256'', ''guarded_publication_receipt_sha256'',
        ''provider_restoration_receipt_sha256''}. sha_str (py_get expected k))"

definition rerun_desired_ok :: "pydict \<Rightarrow> bool" where
  "rerun_desired_ok desired \<longleftrightarrow>
     py_get desired ''endpoint'' = PStr ''RERUN_SAME_WORKFLOW_RUN'' \<and> py_eq (py_get desired ''next_run_attempt'') (PInt 2) \<and>
     py_get desired ''preserve_workflow_run_id'' = PBool True \<and> py_get desired ''preserve_check_suite_id'' = PBool True \<and>
     py_get desired ''rerun_once'' = PBool True \<and> py_get desired ''repeat_local_gate'' = PBool False"

definition validate_rerun_annotations :: "pydict \<Rightarrow> unit res" where
  "validate_rerun_annotations expected =
     (let annotations = (if has_key expected ''infrastructure_annotations'' then py_get expected ''infrastructure_annotations''
                         else PList []) in
      class_check (is_list annotations \<and> (py_eq annotations (PList []) \<or> py_eq annotations (PList [RUNNER_NOT_ACQUIRED_ANNOTATION])) \<and>
        py_eq (py_get expected ''annotation_count'') (PInt (int (length (list_of annotations))))))"

definition validate_rerun_scope :: "pydict \<Rightarrow> string \<Rightarrow> unit res" where
  "validate_rerun_scope value target_key =
     scope_shapes value (RERUN_TARGET_KEYS, RERUN_TARGET_KEYS)
       (RERUN_EXPECTED_KEYS, RERUN_EXPECTED_KEYS @ [''infrastructure_annotations'']) (RERUN_DESIRED_KEYS, RERUN_DESIRED_KEYS)
     (\<lambda>target expected desired.
        bind_res (class_check (rerun_target_ok target target_key \<and>
          rerun_expected_ok expected (str_of (py_get target ''repository'')) \<and> rerun_desired_ok desired)) (\<lambda>_.
        bind_res (validate_rerun_annotations expected) (\<lambda>_.
        bind_res (hosted_parse_timestamp (py_get expected ''failed_run_completed_at'')) (\<lambda>_. Inr ()))))"

subsection \<open>Inventories\<close>

definition categories_ok :: "pyval \<Rightarrow> string list \<Rightarrow> bool" where
  "categories_ok v known \<longleftrightarrow> sorted_names v \<and> set (map str_of (list_of v)) \<subseteq> set known"

definition validate_gcp_scope :: "pydict \<Rightarrow> string \<Rightarrow> unit res" where
  "validate_gcp_scope value target_key =
     (let target = [''project_ids'']; expected = [''authenticated_account_sha256'']; desired = [''metadata_categories'', ''read_only''] in
      scope_shapes value (target, target) (expected, expected) (desired, desired)
     (\<lambda>target expected desired.
        (let projects = py_get target ''project_ids'' in class_check
        (sorted_names projects \<and> list_all nonempty_str (list_of projects) \<and>
         target_key = join '','' (map str_of (list_of projects)) \<and> sha_str (py_get expected ''authenticated_account_sha256'') \<and>
         categories_ok (py_get desired ''metadata_categories'') GCP_METADATA_CATEGORIES \<and>
         py_get desired ''read_only'' = PBool True))))"

definition validate_supabase_scope :: "pydict \<Rightarrow> string \<Rightarrow> unit res" where
  "validate_supabase_scope value target_key =
     (let target = [''project_id'', ''region'']; expected = [''status'', ''project_fingerprint''];
          desired = [''metadata_categories'', ''read_only''] in
      scope_shapes value (target, target) (expected, expected) (desired, desired)
     (\<lambda>target expected desired. class_check
        (nonempty_str (py_get target ''project_id'') \<and> target_key = str_of (py_get target ''project_id'') \<and>
         nonempty_str (py_get target ''region'') \<and> nonempty_str (py_get expected ''status'') \<and>
         nonempty_str (py_get expected ''project_fingerprint'') \<and>
         categories_ok (py_get desired ''metadata_categories'') SUPABASE_METADATA_CATEGORIES \<and>
         py_get desired ''read_only'' = PBool True)))"

subsection \<open>Scopes\<close>

definition SCOPE_KEYS :: "string list" where
  "SCOPE_KEYS = [''target'', ''expected_state'', ''desired_state'', ''exclusions'', ''stop_conditions'']"

definition scope_form_ok :: "pyval \<Rightarrow> bool" where
  "scope_form_ok value \<longleftrightarrow> is_dict value \<and> keys_are (dict_of value) SCOPE_KEYS \<and>
     (\<forall>k \<in> {''target'', ''expected_state'', ''desired_state''}. is_dict (py_get (dict_of value) k) \<and> dict_of (py_get (dict_of value) k) \<noteq> []) \<and>
     (\<forall>k \<in> {''exclusions'', ''stop_conditions''}. is_list (py_get (dict_of value) k) \<and> list_of (py_get (dict_of value) k) \<noteq> [] \<and>
        list_all nonempty_str (list_of (py_get (dict_of value) k)))"

definition validate_class :: "pydict \<Rightarrow> string \<Rightarrow> string \<Rightarrow> string \<Rightarrow> string \<Rightarrow> unit res" where
  "validate_class value provider target_kind operation_kind target_key =
     (let kind = (provider, target_kind, operation_kind) in
      if kind = (''github'', ''github_ruleset'', ''UPDATE_SETTINGS'') then validate_ruleset_scope value target_key
      else if kind = (''github'', ''github_environment'', ''CREATE_SETTINGS'') then validate_environment_scope value target_key
      else if kind = (''github'', ''github_billing_budget'', ''UPDATE_SETTINGS'') then validate_budget_scope value target_key
      else if kind = (''github'', ''github_actions_rerun'', ''RERUN_WORKFLOW'') then validate_rerun_scope value target_key
      else if kind = (''google_cloud'', ''gcp_project_inventory'', ''READ_METADATA'') then validate_gcp_scope value target_key
      else if kind = (''supabase'', ''supabase_project_inventory'', ''READ_METADATA'') then validate_supabase_scope value target_key
      else Inl (hosted_error ''HOSTED_TRANSACTION_INVALID''))"

definition validate_scope :: "pyval \<Rightarrow> string \<Rightarrow> string \<Rightarrow> string \<Rightarrow> string \<Rightarrow> pyval res" where
  "validate_scope value provider target_kind operation_kind target_key =
     guarded [(\<not> scope_form_ok value, hosted_error ''HOSTED_SCOPE_INVALID'')]
     (bind_res (walk value) (\<lambda>_.
      bind_res (validate_class (dict_of value) provider target_kind operation_kind target_key) (\<lambda>_. Inr value)))"

end
