(* ===== verification/Hosted_Operations.thy ===== *)
theory Hosted_Operations
  imports Hosted_Scope Approval_Guard Outbox Json_Text
begin

section \<open>Hosted operations\<close>

text \<open>
  The control of hosted_operation_control.py: operations of the SRE role that change something outside a
  Git worktree. An operation is prepared against an authority comment and, if it mutates, an approval; it
  waits while the issue that blocks it is unfinished; it is claimed by the current SRE endpoint, holds SRE
  capacity while it is prepared or claimed, and ends with a published receipt or on hold.

  The deployment and the outside world are the record \<open>hosted_env\<close>: the reviewed endpoint catalogue, the
  legacy alias of the SRE role, the clock, and the GitHub client's answer for a comment (none where the
  client fails, no value where its output is not JSON). Comment ids are integers, as GitHub documents them.

  An operation that fails after it recorded a hold keeps the hold: \<open>claim\<close> and \<open>refresh_waiting\<close> return the
  database next to the result, also with an error.
\<close>

record hosted_env =
  he_catalog :: catalog
  he_legacy_sre_alias :: string
  he_utc_now :: string
  he_gh_comment :: "string \<Rightarrow> pyval \<Rightarrow> pyval option option"

subsection \<open>Sources, authority and approval\<close>

definition hosted_validate_sha :: "pyval \<Rightarrow> unit res" where
  "hosted_validate_sha v = guarded [(\<not> sha_str v, hosted_error ''HOSTED_SHA256_INVALID'')] (Inr ())"

text \<open>The number an integer or a boolean is, and its text.\<close>

fun num_of :: "pyval \<Rightarrow> int" where
  "num_of (PInt i) = i" | "num_of (PBool b) = (if b then 1 else 0)" | "num_of _ = 0"

fun num_text :: "pyval \<Rightarrow> string" where
  "num_text (PBool b) = (if b then ''True'' else ''False'')" | "num_text v = str_of_int (num_of v)"

definition validate_source :: "db \<Rightarrow> pyval \<Rightarrow> int \<Rightarrow> pyval \<Rightarrow> unit res" where
  "validate_source d repository issue_number digest =
     guarded [(\<not> is_str repository, TypeError),
              (\<not> REPOSITORY (str_of repository) \<or> issue_number \<le> 0, hosted_error ''HOSTED_SOURCE_INVALID'')]
     (bind_res (hosted_validate_sha digest) (\<lambda>_.
      bind_res (current_snapshot d (str_of repository) ''issue'' issue_number) (\<lambda>current.
      guarded [(source_drifts (str_of digest) current, hosted_error ''HOSTED_SOURCE_DRIFT'')] (Inr ()))))"

definition issue_url_suffix :: "string \<Rightarrow> string \<Rightarrow> string" where
  "issue_url_suffix repository issue_text = ''/repos/'' @ repository @ ''/issues/'' @ issue_text"

definition comment_of_issue :: "pyval \<Rightarrow> string \<Rightarrow> string \<Rightarrow> bool" where
  "comment_of_issue comment repository issue_text \<longleftrightarrow> is_str (py_get (dict_of comment) ''body'') \<and>
     is_str (py_get (dict_of comment) ''issue_url'') \<and>
     suffix (issue_url_suffix repository issue_text) (str_of (py_get (dict_of comment) ''issue_url''))"

definition fetch_authority_comment :: "hosted_env \<Rightarrow> string \<Rightarrow> string \<Rightarrow> pyval \<Rightarrow> pyval res" where
  "fetch_authority_comment env repository issue_text comment_id =
     require_some (hosted_error ''HOSTED_AUTHORITY_UNAVAILABLE'') (he_gh_comment env repository comment_id) (\<lambda>output.
     require_some (hosted_error ''HOSTED_AUTHORITY_INVALID'') output (\<lambda>comment.
     guarded [(\<not> is_dict comment \<or> \<not> comment_of_issue comment repository issue_text, hosted_error ''HOSTED_AUTHORITY_INVALID'')]
       (Inr comment)))"

definition validate_authority :: "hosted_env \<Rightarrow> hosted_operation_row \<Rightarrow> unit res" where
  "validate_authority env row =
     bind_res (hosted_validate_sha (PStr (ho_authority_body_sha256 row))) (\<lambda>_.
     bind_res (fetch_authority_comment env (ho_repository row) (str_of_int (ho_issue_number row))
       (PInt (ho_authority_comment_id row))) (\<lambda>comment.
     guarded [(sha256_hex (str_of (py_get (dict_of comment) ''body'')) \<noteq> ho_authority_body_sha256 row,
               hosted_error ''HOSTED_AUTHORITY_DRIFT'')] (Inr ())))"

definition select_role_equivalent_identity :: "catalog \<Rightarrow> db \<Rightarrow> string \<Rightarrow> string list \<Rightarrow> string res" where
  "select_role_equivalent_identity catalog d requested candidates =
     bind_res (historical_identity_role catalog d requested) (\<lambda>role.
     guarded [(role = None, registry_error ''REGISTRY_IDENTITY_ROLE_UNKNOWN'')]
     (bind_res (canonical_endpoint_id catalog d requested) (\<lambda>endpoint.
      (let canonical = (case endpoint of Some (c # s) \<Rightarrow> c # s | _ \<Rightarrow> requested) in
       bind_res (filter_res (\<lambda>c. identities_role_equivalent catalog d c canonical) candidates) (\<lambda>hits.
       (let equivalent = sort (remdups hits) in
        Inr (if canonical \<in> set equivalent \<or> equivalent = [] then canonical else hd equivalent)))))))"

definition approval_recipients :: "db \<Rightarrow> string \<Rightarrow> int \<Rightarrow> string list" where
  "approval_recipients d repository issue_number =
     (if table_installed d ''approval_interests'' then
        remdups [ai_recipient_session_id i.
          c \<leftarrow> approval_current (approvals d),
          p \<leftarrow> approval_proposals (approvals d), pr_proposal_sha256 p = ac_proposal_sha256 c \<and>
            pr_repository p = repository \<and> pr_owning_issue p = issue_number,
          i \<leftarrow> approval_interests (approvals d), ai_proposal_sha256 i = pr_proposal_sha256 p]
      else [])"

fun approval_as_coordination :: "'a res \<Rightarrow> 'a res" where
  "approval_as_coordination (Inl (ApprovalGuardError e)) = Inl (CoordinationError e)"
| "approval_as_coordination m = m"

definition hosted_approval_request :: "string \<Rightarrow> int \<Rightarrow> string \<Rightarrow> string \<Rightarrow> int \<Rightarrow> bool \<Rightarrow> approval_request" where
  "hosted_approval_request repository issue_number recipient scope_sha256 comment_id required =
     \<lparr>aq_repository = repository, aq_issue_number = issue_number, aq_recipient_session_id = recipient,
      aq_execution_scope_sha256 = Some scope_sha256, aq_authority_sha256 = None, aq_authority_comment_id = Some comment_id,
      aq_required_proposal_sha256 = None, aq_required_workstream = None, aq_required_boundary = None,
      aq_required_current_recipient_role = None, aq_actor_session_id = None, aq_required = required\<rparr>"

definition validate_approval_guard ::
  "hosted_env \<Rightarrow> db \<Rightarrow> string \<Rightarrow> int \<Rightarrow> string \<Rightarrow> string \<Rightarrow> int \<Rightarrow> bool \<Rightarrow> unit res" where
  "validate_approval_guard env d repository issue_number operation_kind scope_sha256 comment_id required =
     (if operation_kind \<notin> set MUTATING_OPERATIONS then Inr ()
      else
        bind_res (current_endpoint d ''sre'') (\<lambda>endpoint.
        (let requested = (case endpoint of Some e \<Rightarrow> ep_endpoint_id e | None \<Rightarrow> he_legacy_sre_alias env) in
         bind_res (select_role_equivalent_identity (he_catalog env) d requested (approval_recipients d repository issue_number))
         (\<lambda>recipient.
         bind_res (approval_as_coordination (require_effective_approval (he_catalog env) d
           (hosted_approval_request repository issue_number recipient scope_sha256 comment_id required))) (\<lambda>_. Inr ())))))"

definition blocker_terminal :: "db \<Rightarrow> string \<Rightarrow> int option \<Rightarrow> bool" where
  "blocker_terminal d repository issue_number =
     (case issue_number of
        None \<Rightarrow> True
      | Some n \<Rightarrow> (case item_of d repository n of
          None \<Rightarrow> False | Some i \<Rightarrow> it_status i = ''DONE'' \<and> it_allocation_class i = ''NONE''))"

subsection \<open>Capacity\<close>

definition reserved_sre :: "db \<Rightarrow> string \<Rightarrow> int" where
  "reserved_sre d repository =
     occupied_units it_sre_units d repository +
     sum_list (map ho_sre_units (filter (\<lambda>h. ho_repository h = repository \<and>
       (ho_state h = ''PREPARED'' \<or> ho_state h = ''CLAIMED'')) (hosted_operations d)))"

definition sre_limit :: "hosted_env \<Rightarrow> db \<Rightarrow> string \<Rightarrow> (db \<times> int) res" where
  "sre_limit env d repository =
     bind_res (store_capacity_policy d repository (he_utc_now env)) (\<lambda>(d', p). Inr (d', cp_sre_limit p))"

subsection \<open>Persisted operations\<close>

definition units_fit :: "string \<Rightarrow> int \<Rightarrow> bool" where
  "units_fit operation_kind sre_units \<longleftrightarrow> (sre_units = 0 \<or> sre_units = 1) \<and>
     (operation_kind \<in> set MUTATING_OPERATIONS \<longrightarrow> sre_units = 1) \<and> (operation_kind = ''READ_METADATA'' \<longrightarrow> sre_units = 0)"

fun recipient_is_current :: "'a res \<Rightarrow> bool res" where
  "recipient_is_current (Inl (RegistryError _)) = Inr False"
| "recipient_is_current (Inl e) = Inl e"
| "recipient_is_current (Inr _) = Inr True"

definition validate_persisted_operation :: "hosted_env \<Rightarrow> db \<Rightarrow> hosted_operation_row \<Rightarrow> pyval res" where
  "validate_persisted_operation env d row =
     bind_res (recipient_is_current
       (require_current_endpoint_identity (he_catalog env) d (ho_recipient_session_id row) (Some ''sre''))) (\<lambda>current.
     guarded [(\<not> current \<or> \<not> REPOSITORY (ho_repository row) \<or>
               (ho_provider row, ho_target_kind row, ho_operation_kind row) \<notin> set ALLOWED_OPERATION_TARGETS \<or>
               ho_target_key row = [] \<or> \<not> units_fit (ho_operation_kind row) (ho_sre_units row),
               hosted_error ''HOSTED_PERSISTED_TRANSACTION_INVALID'')]
     (bind_res (hosted_validate_sha (PStr (ho_source_payload_sha256 row))) (\<lambda>_.
      bind_res (hosted_validate_sha (PStr (ho_authority_body_sha256 row))) (\<lambda>_.
      bind_res (hosted_validate_sha (PStr (ho_scope_sha256 row))) (\<lambda>_.
      require_some (hosted_error ''HOSTED_SCOPE_INVALID'') (ho_scope_json row) (\<lambda>stored.
      bind_res (validate_scope stored (ho_provider row) (ho_target_kind row) (ho_operation_kind row) (ho_target_key row)) (\<lambda>scope.
      guarded [(digest_json scope \<noteq> ho_scope_sha256 row, hosted_error ''HOSTED_SCOPE_DRIFT'')] (Inr scope))))))))"

definition hosted_scope_sha256 :: "hosted_operation_row \<Rightarrow> pyval \<Rightarrow> string" where
  "hosted_scope_sha256 row scope =
     hosted_execution_scope_sha256 (ho_provider row) (ho_target_kind row) (ho_target_key row) (ho_operation_kind row) scope"

subsection \<open>Receipts\<close>

text \<open>
  \<open>re.findall\<close> of the receipt marker: at each position the longest object on the line that the end of the
  comment follows, and the search goes on behind it.
\<close>

definition RECEIPT_MARKER :: string where
  "RECEIPT_MARKER = ''<!-- twinfinity-hosted-operation-receipt:''"

definition on_line :: "char \<Rightarrow> bool" where
  "on_line c \<longleftrightarrow> c \<noteq> CHR 0x0A \<and> c \<noteq> CHR 0x0D"

definition marked_object :: "string \<Rightarrow> string option" where
  "marked_object s =
     (if take (length RECEIPT_MARKER) s = RECEIPT_MARKER then
        (let rest = drop (length RECEIPT_MARKER) s; line = takeWhile on_line rest in
         if rest = [] \<or> hd rest \<noteq> CHR ''{'' then None
         else map_option (\<lambda>n. take n line)
           (List.find (\<lambda>n. 2 \<le> n \<and> line ! (n - 1) = CHR ''}'' \<and> take 4 (drop n line) = '' -->'') (rev [0..<Suc (length line)])))
      else None)"

lemma marked_object_length: "marked_object s = Some x \<Longrightarrow> s \<noteq> []"
  by (auto simp: marked_object_def RECEIPT_MARKER_def split: if_splits)

function receipt_objects :: "string \<Rightarrow> string list" where
  "receipt_objects [] = []"
| "receipt_objects (c # s) =
     (case marked_object (c # s) of
        None \<Rightarrow> receipt_objects s
      | Some x \<Rightarrow> x # receipt_objects (drop (length RECEIPT_MARKER + length x + 3) s))"
  by pat_completeness auto
termination by (relation "measure length") auto

definition RECEIPT_KEYS :: "string list" where
  "RECEIPT_KEYS = [''schema'', ''outcome'', ''operation_id'', ''idempotency_key_sha256'', ''provider'', ''target_kind'',
     ''target_key'', ''operation_kind'', ''scope_sha256'', ''verification'', ''summary'']"

definition expected_verification :: "pyval \<Rightarrow> pyval" where
  "expected_verification outcome = (if outcome = PStr ''SUCCESS'' then PStr ''PASS'' else if outcome = PStr ''FAILURE'' then PStr ''FAIL''
     else if outcome = PStr ''PARTIAL'' then PStr ''PARTIAL'' else PNone)"

definition RECEIPT_OUTCOMES :: "pyval list" where
  "RECEIPT_OUTCOMES = [PStr ''SUCCESS'', PStr ''FAILURE'', PStr ''PARTIAL'']"

definition receipt_bound :: "hosted_operation_row \<Rightarrow> pydict \<Rightarrow> bool" where
  "receipt_bound row receipt \<longleftrightarrow>
     py_eq (py_get receipt ''operation_id'') (PInt (ho_id row)) \<and>
     py_get receipt ''idempotency_key_sha256'' = PStr (sha256_hex (ho_idempotency_key row)) \<and>
     py_get receipt ''provider'' = PStr (ho_provider row) \<and> py_get receipt ''target_kind'' = PStr (ho_target_kind row) \<and>
     py_get receipt ''target_key'' = PStr (ho_target_key row) \<and> py_get receipt ''operation_kind'' = PStr (ho_operation_kind row) \<and>
     py_get receipt ''scope_sha256'' = PStr (ho_scope_sha256 row) \<and>
     py_get receipt ''verification'' = expected_verification (py_get receipt ''outcome'') \<and>
     is_str (py_get receipt ''summary'') \<and> strip (str_of (py_get receipt ''summary'')) \<noteq> []"

abbreviation receipt_invalid :: error where
  "receipt_invalid \<equiv> CoordinationError ''HOSTED_RECEIPT_INVALID''"

definition scope_of_row :: "hosted_operation_row \<Rightarrow> pyval res" where
  "scope_of_row row = require_some (ValueError ''JSONDecodeError'') (ho_scope_json row) Inr"

definition scope_item :: "pyval \<Rightarrow> string \<Rightarrow> string \<Rightarrow> pyval res" where
  "scope_item scope part key = bind_res (py_item scope part) (\<lambda>v. py_item v key)"

definition check_rerun_result :: "hosted_operation_row \<Rightarrow> pydict \<Rightarrow> unit res" where
  "check_rerun_result row receipt =
     (let v = py_get receipt ''result''; result = dict_of v; jobs = py_get result ''job_ids'';
          success = (py_get receipt ''outcome'' = PStr ''SUCCESS'') in
      guarded [(\<not> is_dict v \<or> \<not> keys_are result [''workflow_run_id'', ''run_attempt'', ''check_suite_id'', ''job_ids''] \<or>
                \<not> is_int (py_get result ''workflow_run_id'') \<or> \<not> is_int (py_get result ''run_attempt'') \<or>
                \<not> is_int (py_get result ''check_suite_id'') \<or> \<not> is_list jobs \<or> \<not> list_all positive_int (list_of jobs) \<or>
                \<not> sorted_wrt (<) (map int_of (list_of jobs)), receipt_invalid)]
      (bind_res (scope_of_row row) (\<lambda>scope.
       bind_res (scope_item scope ''target'' ''workflow_run_id'') (\<lambda>run.
       guarded [(\<not> py_eq (py_get result ''workflow_run_id'') run, receipt_invalid)]
       (bind_res (scope_item scope ''target'' ''check_suite_id'') (\<lambda>suite.
       guarded [(\<not> py_eq (py_get result ''check_suite_id'') suite, receipt_invalid),
                (success \<and> (int_of (py_get result ''run_attempt'') \<noteq> 2 \<or> list_of jobs = []), receipt_invalid),
                (\<not> success \<and> int_of (py_get result ''run_attempt'') \<notin> {1, 2}, receipt_invalid)] (Inr ())))))))"

definition check_budget_result :: "hosted_operation_row \<Rightarrow> pydict \<Rightarrow> unit res" where
  "check_budget_result row receipt =
     (let v = py_get receipt ''result''; result = dict_of v in
      guarded [(\<not> is_dict v \<or> \<not> keys_are result [''amount'', ''prevent_further_usage'', ''alert_config_sha256'', ''capacity_restored''] \<or>
                \<not> positive_int (py_get result ''amount'') \<or> \<not> is_bool (py_get result ''prevent_further_usage'') \<or>
                \<not> sha_str (py_get result ''alert_config_sha256'') \<or> \<not> is_bool (py_get result ''capacity_restored''), receipt_invalid)]
      (bind_res (scope_of_row row) (\<lambda>scope.
       if py_get receipt ''outcome'' \<noteq> PStr ''SUCCESS'' then Inr ()
       else
         bind_res (scope_item scope ''desired_state'' ''amount'') (\<lambda>amount.
         guarded [(\<not> py_eq (py_get result ''amount'') amount, receipt_invalid)]
         (bind_res (scope_item scope ''desired_state'' ''prevent_further_usage'') (\<lambda>prevent.
         guarded [(py_get result ''prevent_further_usage'' \<noteq> prevent, receipt_invalid)]
         (bind_res (scope_item scope ''expected_state'' ''alert_config_sha256'') (\<lambda>alert.
         guarded [(\<not> py_eq (py_get result ''alert_config_sha256'') alert, receipt_invalid)] (Inr ())))))))))"

definition validate_receipt :: "pyval \<Rightarrow> hosted_operation_row \<Rightarrow> pydict res" where
  "validate_receipt body row =
     (let objects = receipt_objects (str_of body) in
      guarded [(\<not> is_str body, receipt_invalid), (length objects \<noteq> 1, receipt_invalid)]
      (require_some receipt_invalid (json_loads (hd objects)) (\<lambda>v.
       (let receipt = dict_of v in
        guarded [(\<not> is_dict v \<or> \<not> keys_are receipt (RECEIPT_KEYS @
                    (if ho_target_kind row \<in> {''github_actions_rerun'', ''github_billing_budget''} then [''result''] else [])) \<or>
                  py_get receipt ''schema'' \<noteq> PStr ''twinfinity.hosted-operation-receipt.v1'', receipt_invalid),
                 (unhashable (py_get receipt ''outcome''), TypeError),
                 (py_get receipt ''outcome'' \<notin> set RECEIPT_OUTCOMES \<or> \<not> receipt_bound row receipt, receipt_invalid)]
        (bind_res
          (if ho_target_kind row = ''github_actions_rerun'' then check_rerun_result row receipt
           else if ho_target_kind row = ''github_billing_budget'' then check_budget_result row receipt
           else Inr ()) (\<lambda>_. Inr receipt))))))"

subsection \<open>Evidence for a rerun\<close>

definition gate_dict :: "gate_row \<Rightarrow> pyval" where
  "gate_dict g = PDict [(''id'', PInt (gt_id g)), (''repository'', PStr (gt_repository g)), (''issue_number'', PInt (gt_issue_number g)),
     (''generation'', PInt (gt_generation g)), (''accountable_session_id'', PStr (gt_accountable_session_id g)),
     (''source_payload_sha256'', PStr (gt_source_payload_sha256 g)), (''lease_manifest_sha256'', PStr (gt_lease_manifest_sha256 g)),
     (''admission_message_id'', PInt (gt_admission_message_id g)), (''admission_payload_sha256'', PStr (gt_admission_payload_sha256 g)),
     (''branch'', PStr (gt_branch g)), (''worktree_path'', PStr (gt_worktree_path g)), (''base_sha'', PStr (gt_base_sha g)),
     (''head_sha'', PStr (gt_head_sha g)), (''changed_paths_sha256'', PStr (gt_changed_paths_sha256 g)),
     (''changed_path_count'', PInt (gt_changed_path_count g)), (''lower_gate'', PStr (gt_lower_gate g)),
     (''lower_gate_exit_code'', py_number (gt_lower_gate_exit_code g)), (''compose_gate'', PStr (gt_compose_gate g)),
     (''compose_gate_exit_code'', py_number (gt_compose_gate_exit_code g)), (''compose_run_id'', PStr (gt_compose_run_id g)),
     (''head_unchanged'', PInt (gt_head_unchanged g)), (''cleanup_proven'', PInt (gt_cleanup_proven g)),
     (''state'', PStr (gt_state g)), (''evidence_sha256'', PStr (gt_evidence_sha256 g)),
     (''environment_provenance_sha256'', Executor_Targets.py_text (gt_environment_provenance_sha256 g)), (''started_at'', PStr (gt_started_at g)),
     (''completed_at'', PStr (gt_completed_at g)), (''last_error'', Executor_Targets.py_text (gt_last_error g))]"

definition publication_dict :: "publication_row \<Rightarrow> pyval" where
  "publication_dict p = PDict [(''id'', PInt (pb_id p)), (''gate_id'', PInt (pb_gate_id p)), (''repository'', PStr (pb_repository p)),
     (''issue_number'', PInt (pb_issue_number p)), (''generation'', PInt (pb_generation p)),
     (''accountable_session_id'', PStr (pb_accountable_session_id p)),
     (''source_payload_sha256'', PStr (pb_source_payload_sha256 p)), (''lease_manifest_sha256'', PStr (pb_lease_manifest_sha256 p)),
     (''admission_message_id'', PInt (pb_admission_message_id p)), (''branch'', PStr (pb_branch p)), (''head_sha'', PStr (pb_head_sha p)),
     (''remote_name'', PStr (pb_remote_name p)), (''remote_url_sha256'', PStr (pb_remote_url_sha256 p)), (''state'', PStr (pb_state p)),
     (''created_at'', PStr (pb_created_at p)), (''updated_at'', PStr (pb_updated_at p)), (''last_error'', Executor_Targets.py_text (pb_last_error p))]"

definition gate_proves :: "gate_row \<Rightarrow> string \<Rightarrow> int \<Rightarrow> pydict \<Rightarrow> pydict \<Rightarrow> bool" where
  "gate_proves g repository issue_number target expected \<longleftrightarrow>
     gt_repository g = repository \<and> gt_issue_number g = issue_number \<and> PStr (gt_base_sha g) = py_get target ''base_sha'' \<and>
     PStr (gt_head_sha g) = py_get target ''head_sha'' \<and> gt_state g = ''PASS'' \<and> gt_lower_gate_exit_code g = Some 0 \<and>
     gt_compose_gate_exit_code g = Some 0 \<and> gt_head_unchanged g = 1 \<and> gt_cleanup_proven g = 1 \<and>
     PStr (gt_evidence_sha256 g) = py_get expected ''local_gate_evidence_sha256'' \<and>
     PStr (digest_json (gate_dict g)) = py_get expected ''local_gate_receipt_sha256''"

definition publication_proves :: "publication_row \<Rightarrow> gate_row \<Rightarrow> string \<Rightarrow> int \<Rightarrow> pydict \<Rightarrow> pydict \<Rightarrow> bool" where
  "publication_proves p g repository issue_number target expected \<longleftrightarrow>
     pb_gate_id p = gt_id g \<and> pb_repository p = repository \<and> pb_issue_number p = issue_number \<and>
     PStr (pb_head_sha p) = py_get target ''head_sha'' \<and> pb_state p = ''COMPLETE'' \<and>
     PStr (digest_json (publication_dict p)) = py_get expected ''guarded_publication_receipt_sha256''"

definition restores :: "hosted_operation_row \<Rightarrow> string \<Rightarrow> int \<Rightarrow> pydict \<Rightarrow> bool" where
  "restores r repository issue_number expected \<longleftrightarrow>
     ho_repository r = repository \<and> ho_issue_number r = issue_number \<and> ho_provider r = ''github'' \<and>
     ho_target_kind r = ''github_billing_budget'' \<and> PStr (ho_target_key r) = py_get expected ''provider_restoration_target_key'' \<and>
     ho_operation_kind r = ''UPDATE_SETTINGS'' \<and> ho_state r = ''COMPLETE'' \<and> ho_receipt_outcome r = Some ''SUCCESS'' \<and>
     Executor_Targets.py_text (ho_receipt_payload_sha256 r) = py_get expected ''provider_restoration_receipt_sha256''"

definition validate_restoration :: "hosted_env \<Rightarrow> db \<Rightarrow> hosted_operation_row \<Rightarrow> pydict \<Rightarrow> unit res" where
  "validate_restoration env d restoration expected =
     (let invalid = hosted_error ''HOSTED_RERUN_PROVIDER_RESTORATION_INVALID'' in
      bind_res (validate_persisted_operation env d restoration) (\<lambda>restoration_scope.
      bind_res (hosted_parse_timestamp (PStr (ho_updated_at restoration))) (\<lambda>restored.
      bind_res (hosted_parse_timestamp (py_get expected ''failed_run_completed_at'')) (\<lambda>failed.
      guarded [(restored \<le> failed, hosted_error ''HOSTED_RERUN_PROVIDER_RESTORATION_STALE'')]
      (require_some invalid (Option.bind (ho_receipt_outbox_id restoration) (outbox_of d)) (\<lambda>outbox.
       guarded [(ob_state outbox \<noteq> ''COMPLETE'', invalid)]
       (require_some invalid (ob_payload_json outbox) (\<lambda>payload.
        guarded [(\<not> is_dict payload, invalid)]
        (bind_res (validate_receipt (py_get (dict_of payload) ''body'') restoration) (\<lambda>receipt.
         (let sha = digest_json (PDict receipt); result = dict_of (py_get receipt ''result'') in
          guarded [(Some sha \<noteq> ho_receipt_payload_sha256 restoration \<or>
                    PStr sha \<noteq> py_get expected ''provider_restoration_receipt_sha256'',
                    hosted_error ''HOSTED_RERUN_PROVIDER_RESTORATION_RECEIPT_DRIFT''),
                   (py_get result ''capacity_restored'' \<noteq> PBool True \<or>
                    int_of (py_get result ''amount'') < int_of (py_get expected ''provider_restoration_minimum_amount'') \<or>
                    py_get result ''prevent_further_usage'' \<noteq> PBool True \<or>
                    py_get result ''alert_config_sha256'' \<noteq>
                      py_get (dict_of (py_get (dict_of restoration_scope) ''expected_state'')) ''alert_config_sha256'',
                    hosted_error ''HOSTED_RERUN_PROVIDER_CAPACITY_NOT_RESTORED'')] (Inr ()))))))))))))"

definition validate_operation_evidence ::
  "hosted_env \<Rightarrow> db \<Rightarrow> string \<Rightarrow> int \<Rightarrow> string \<times> string \<times> string \<Rightarrow> pyval \<Rightarrow> unit res" where
  "validate_operation_evidence env d repository issue_number kind scope =
     (if kind \<noteq> (''github'', ''github_actions_rerun'', ''RERUN_WORKFLOW'') then Inr ()
      else
        (let target = dict_of (py_get (dict_of scope) ''target''); expected = dict_of (py_get (dict_of scope) ''expected_state'');
             gate_error = hosted_error ''HOSTED_RERUN_LOCAL_GATE_EVIDENCE_INVALID'';
             publication_error = hosted_error ''HOSTED_RERUN_PUBLICATION_EVIDENCE_INVALID'';
             restoration_error = hosted_error ''HOSTED_RERUN_PROVIDER_RESTORATION_INVALID'' in
         require_some gate_error
           (List.find (\<lambda>g. gt_id g = int_of (py_get expected ''local_gate_id'')) (coordination_pre_push_gates d)) (\<lambda>gate.
         guarded [(\<not> gate_proves gate repository issue_number target expected, gate_error)]
         (require_some publication_error
           (List.find (\<lambda>p. pb_id p = int_of (py_get expected ''guarded_publication_id'')) (coordination_pre_push_publications d))
         (\<lambda>publication.
         guarded [(\<not> publication_proves publication gate repository issue_number target expected, publication_error)]
         (require_some restoration_error (hosted_by_id d (int_of (py_get expected ''provider_restoration_operation_id''))) (\<lambda>restoration.
         guarded [(\<not> restores restoration repository issue_number expected, restoration_error)]
           (validate_restoration env d restoration expected))))))))"

definition row_evidence :: "hosted_env \<Rightarrow> db \<Rightarrow> hosted_operation_row \<Rightarrow> pyval \<Rightarrow> unit res" where
  "row_evidence env d row scope =
     validate_operation_evidence env d (ho_repository row) (ho_issue_number row)
       (ho_provider row, ho_target_kind row, ho_operation_kind row) scope"

definition row_source :: "db \<Rightarrow> hosted_operation_row \<Rightarrow> unit res" where
  "row_source d row =
     validate_source d (PStr (ho_repository row)) (ho_issue_number row) (PStr (ho_source_payload_sha256 row))"

definition row_approval :: "hosted_env \<Rightarrow> db \<Rightarrow> hosted_operation_row \<Rightarrow> pyval \<Rightarrow> unit res" where
  "row_approval env d row scope =
     validate_approval_guard env d (ho_repository row) (ho_issue_number row) (ho_operation_kind row)
       (hosted_scope_sha256 row scope) (ho_authority_comment_id row) False"

subsection \<open>Preparing an operation\<close>

definition TRANSACTION_KEYS :: "string list" where
  "TRANSACTION_KEYS = [''idempotency_key'', ''repository'', ''issue_number'', ''source_payload_sha256'', ''provider'',
     ''target_kind'', ''target_key'', ''operation_kind'', ''authority_comment_id'', ''authority_body_sha256'',
     ''recipient_session_id'', ''sre_units'', ''blocked_by_issue_number'', ''scope'']"

definition str_in :: "pyval \<Rightarrow> string list \<Rightarrow> bool" where
  "str_in v names \<longleftrightarrow> is_str v \<and> str_of v \<in> set names"

definition blocker_ok :: "pyval \<Rightarrow> bool" where
  "blocker_ok v \<longleftrightarrow> v = PNone \<or> positive_int v"

definition validate_transaction_shape :: "catalog \<Rightarrow> pydict \<Rightarrow> unit res" where
  "validate_transaction_shape catalog t =
     (let invalid = hosted_error ''HOSTED_TRANSACTION_INVALID''; get = py_get t in
      guarded [(\<not> keys_are t TRANSACTION_KEYS, invalid),
               (\<not> nonempty_str (get ''idempotency_key'') \<or> \<not> (is_int (get ''issue_number'') \<or> is_bool (get ''issue_number'')), invalid),
               (unhashable (get ''provider''), TypeError), (\<not> str_in (get ''provider'') PROVIDERS, invalid),
               (unhashable (get ''target_kind''), TypeError), (\<not> str_in (get ''target_kind'') HOSTED_TARGET_KINDS, invalid),
               (\<not> nonempty_str (get ''target_key''), invalid),
               (unhashable (get ''operation_kind''), TypeError), (\<not> str_in (get ''operation_kind'') OPERATION_KINDS, invalid),
               ((str_of (get ''provider''), str_of (get ''target_kind''), str_of (get ''operation_kind'')) \<notin> set ALLOWED_OPERATION_TARGETS, invalid),
               (\<not> is_str (get ''recipient_session_id'') \<or> catalog (str_of (get ''recipient_session_id'')) \<noteq> Some ''sre'', invalid),
               (\<not> is_int (get ''sre_units'') \<or> \<not> units_fit (str_of (get ''operation_kind'')) (int_of (get ''sre_units'')), invalid),
               (\<not> blocker_ok (get ''blocked_by_issue_number''), invalid)] (Inr ()))"

definition validate_authority_snapshot :: "pydict \<Rightarrow> pyval \<Rightarrow> string \<Rightarrow> unit res" where
  "validate_authority_snapshot t comment comment_sha256 =
     bind_res (hosted_validate_sha (PStr comment_sha256)) (\<lambda>_.
     guarded [(\<not> is_dict comment \<or> digest_json comment \<noteq> comment_sha256, hosted_error ''HOSTED_AUTHORITY_INPUT_DRIFT''),
              (\<not> py_eq (py_get (dict_of comment) ''id'') (py_get t ''authority_comment_id'') \<or>
               \<not> comment_of_issue comment (str_of (py_get t ''repository'')) (num_text (py_get t ''issue_number'')) \<or>
               PStr (sha256_hex (str_of (py_get (dict_of comment) ''body''))) \<noteq> py_get t ''authority_body_sha256'',
               hosted_error ''HOSTED_AUTHORITY_DRIFT'')] (Inr ()))"

text \<open>A validated transaction as the row it asks for; the id, the state and the times are filled in on insertion.\<close>

definition requested_row :: "pydict \<Rightarrow> hosted_operation_row" where
  "requested_row t =
     \<lparr>ho_id = 0, ho_idempotency_key = str_of (py_get t ''idempotency_key''), ho_repository = str_of (py_get t ''repository''),
      ho_object_kind = ''issue'', ho_issue_number = num_of (py_get t ''issue_number''),
      ho_source_payload_sha256 = str_of (py_get t ''source_payload_sha256''), ho_provider = str_of (py_get t ''provider''),
      ho_target_kind = str_of (py_get t ''target_kind''), ho_target_key = str_of (py_get t ''target_key''),
      ho_operation_kind = str_of (py_get t ''operation_kind''), ho_authority_comment_id = num_of (py_get t ''authority_comment_id''),
      ho_authority_body_sha256 = str_of (py_get t ''authority_body_sha256''), ho_scope_sha256 = digest_json (py_get t ''scope''),
      ho_scope_json = Some (py_get t ''scope''), ho_recipient_session_id = str_of (py_get t ''recipient_session_id''),
      ho_sre_units = int_of (py_get t ''sre_units''),
      ho_blocked_by_issue_number = (case py_get t ''blocked_by_issue_number'' of PInt n \<Rightarrow> Some n | _ \<Rightarrow> None),
      ho_state = [], ho_claimed_by = None, ho_receipt_outbox_id = None, ho_remote_receipt = None, ho_receipt_outcome = None,
      ho_receipt_payload_sha256 = None, ho_retired_by_idempotency_key = None, ho_retired_at = None, ho_last_wake_at = None,
      ho_created_at = [], ho_updated_at = [], ho_last_error = None\<rparr>"

definition exact_columns :: "hosted_operation_row \<Rightarrow> string list \<times> int list \<times> int option" where
  "exact_columns h =
     ([ho_repository h, ho_source_payload_sha256 h, ho_provider h, ho_target_kind h, ho_target_key h, ho_operation_kind h,
       ho_authority_body_sha256 h, ho_scope_sha256 h],
      [ho_issue_number h, ho_authority_comment_id h, ho_sre_units h], ho_blocked_by_issue_number h)"

definition eligible_rerun_predecessor :: "hosted_operation_row \<Rightarrow> bool" where
  "eligible_rerun_predecessor h \<longleftrightarrow> ho_state h = ''HOLD'' \<and> ho_claimed_by h = None \<and> ho_receipt_outbox_id h = None \<and>
     ho_remote_receipt h = None \<and> ho_receipt_outcome h = None \<and> ho_receipt_payload_sha256 h = None"

definition same_rerun_target :: "hosted_operation_row \<Rightarrow> hosted_operation_row \<Rightarrow> bool" where
  "same_rerun_target a b \<longleftrightarrow> ho_repository a = ho_repository b \<and> ho_target_kind a = ho_target_kind b \<and>
     ho_target_key a = ho_target_key b \<and> ho_operation_kind a = ho_operation_kind b"

text \<open>The rows the partial unique index on reruns counts.\<close>

definition holds_rerun_target :: "hosted_operation_row \<Rightarrow> bool" where
  "holds_rerun_target h \<longleftrightarrow> ho_target_kind h = ''github_actions_rerun'' \<and> \<not> eligible_rerun_predecessor h"

definition rerun_predecessors :: "db \<Rightarrow> hosted_operation_row \<Rightarrow> hosted_operation_row list" where
  "rerun_predecessors d h =
     (if ho_target_kind h = ''github_actions_rerun'' then filter (same_rerun_target h) (hosted_operations d) else [])"

definition hosted_entity :: "int \<Rightarrow> string" where
  "hosted_entity i = ''hosted-operation:'' @ str_of_int i"

definition retire_predecessor :: "string \<Rightarrow> string \<Rightarrow> hosted_operation_row \<Rightarrow> db \<Rightarrow> db res" where
  "retire_predecessor key now predecessor d =
     (if ho_retired_by_idempotency_key predecessor \<noteq> None then Inr d
      else
        (let hit = (\<lambda>h. ho_id h = ho_id predecessor \<and> eligible_rerun_predecessor h \<and> ho_retired_by_idempotency_key h = None) in
         guarded [(length (filter hit (hosted_operations d)) \<noteq> 1, hosted_error ''HOSTED_RERUN_TARGET_ALREADY_RESERVED'')]
         (Inr (append_event ''HOSTED_RERUN_PREDECESSOR_RETIRED'' (hosted_entity (ho_id predecessor))
           (PDict [(''retired_by_idempotency_key'', PStr key)]) now
           (d\<lparr>hosted_operations := update_where hit (\<lambda>h. h\<lparr>ho_retired_by_idempotency_key := Some key, ho_retired_at := Some now,
              ho_updated_at := now\<rparr>) (hosted_operations d)\<rparr>)))))"

definition insert_hosted :: "hosted_operation_row \<Rightarrow> string \<Rightarrow> string \<Rightarrow> db \<Rightarrow> (db \<times> hosted_operation_row) res" where
  "insert_hosted request state now d =
     (let h = request\<lparr>ho_id := next_rowid ho_id (hosted_operations d), ho_state := state, ho_created_at := now,
              ho_updated_at := now\<rparr> in
      guarded [(ho_issue_number h \<le> 0 \<or> ho_authority_comment_id h \<le> 0 \<or> ho_sre_units h \<notin> {0, 1}, IntegrityError ''CHECK constraint failed''),
               (\<exists>r \<in> set (hosted_operations d). ho_idempotency_key r = ho_idempotency_key h \<or>
                  (holds_rerun_target r \<and> holds_rerun_target h \<and> same_rerun_target r h), IntegrityError ''UNIQUE constraint failed''),
               (\<not> (\<exists>s \<in> set (github_snapshots d). gs_repository s = ho_repository h \<and> gs_object_kind s = ''issue'' \<and>
                  gs_object_number s = ho_issue_number h \<and> gs_payload_sha256 s = ho_source_payload_sha256 h),
                IntegrityError ''FOREIGN KEY constraint failed'')]
      (Inr (append_event ''HOSTED_OPERATION_PREPARED'' (hosted_entity (ho_id h))
         (PDict [(''operation_id'', PInt (ho_id h)), (''state'', PStr state), (''scope_sha256'', PStr (ho_scope_sha256 h)),
           (''source_payload_sha256'', PStr (ho_source_payload_sha256 h))]) now
         (d\<lparr>hosted_operations := hosted_operations d @ [h]\<rparr>), h)))"

definition replay_hosted ::
  "hosted_env \<Rightarrow> (db \<Rightarrow> db res) \<Rightarrow> hosted_operation_row \<Rightarrow> hosted_operation_row \<Rightarrow> db \<Rightarrow> (db \<times> hosted_operation_row) res" where
  "replay_hosted env before_apply request current d =
     guarded [(exact_columns current \<noteq> exact_columns request, hosted_error ''HOSTED_IDEMPOTENCY_CONFLICT'')]
     (bind_res (identities_role_equivalent (he_catalog env) d (ho_recipient_session_id current) (ho_recipient_session_id request)) (\<lambda>same.
      guarded [(\<not> same, hosted_error ''HOSTED_IDEMPOTENCY_CONFLICT'')]
      (bind_res (before_apply d) (\<lambda>d'. Inr (d', current)))))"

definition reserve_hosted ::
  "hosted_env \<Rightarrow> (db \<Rightarrow> db res) \<Rightarrow> bool \<Rightarrow> hosted_operation_row \<Rightarrow> string \<Rightarrow> string \<Rightarrow> db \<Rightarrow> (db \<times> hosted_operation_row) res" where
  "reserve_hosted env before_apply retire request state now d =
     (let predecessors = rerun_predecessors d request in
      guarded [(\<not> list_all eligible_rerun_predecessor predecessors, hosted_error ''HOSTED_RERUN_TARGET_ALREADY_RESERVED'')]
      (bind_res
        (if state = ''PREPARED'' then
           bind_res (sre_limit env d (ho_repository request)) (\<lambda>(d', limit).
           guarded [(limit < reserved_sre d (ho_repository request) + ho_sre_units request, hosted_error ''HOSTED_SRE_CAPACITY_EXCEEDED'')]
             (Inr d'))
         else Inr d) (\<lambda>d1.
       bind_res (before_apply d1) (\<lambda>d2.
       bind_res (if retire then fold_res (retire_predecessor (ho_idempotency_key request) now) predecessors d2 else Inr d2) (\<lambda>d3.
       insert_hosted request state now d3)))))"

definition hosted_by_key :: "db \<Rightarrow> string \<Rightarrow> hosted_operation_row option" where
  "hosted_by_key d key = List.find (\<lambda>h. ho_idempotency_key h = key) (hosted_operations d)"

record prepare_options =
  po_retire_eligible_predecessors :: bool
  po_require_prepared :: bool

definition canonical_transaction :: "hosted_env \<Rightarrow> db \<Rightarrow> pydict \<Rightarrow> pydict res" where
  "canonical_transaction env d t =
     (let recipient = (if has_key t ''recipient_session_id'' then py_get t ''recipient_session_id'' else PStr []) in
      guarded [(\<not> is_str recipient, TypeError)]
      (bind_res (canonicalize_coordination_identity (he_catalog env) d (str_of recipient)) (\<lambda>session.
       Inr (AList.update ''recipient_session_id'' (PStr session) t))))"

definition prepare_in_transaction ::
  "hosted_env \<Rightarrow> (db \<Rightarrow> db res) \<Rightarrow> prepare_options \<Rightarrow> db \<Rightarrow> pydict \<Rightarrow> string \<Rightarrow> pyval \<Rightarrow> string \<Rightarrow>
   (db \<times> hosted_operation_row) res" where
  "prepare_in_transaction env before_apply options d given now comment comment_sha256 =
     guarded [(\<not> in_transaction d, hosted_error ''COORDINATOR_TRANSACTION_REQUIRED'')]
     (bind_res (canonical_transaction env d given) (\<lambda>t.
      bind_res (validate_transaction_shape (he_catalog env) t) (\<lambda>_.
      bind_res (validate_source d (py_get t ''repository'') (num_of (py_get t ''issue_number'')) (py_get t ''source_payload_sha256'')) (\<lambda>_.
      bind_res (validate_authority_snapshot t comment comment_sha256) (\<lambda>_.
      (let request = requested_row t; current = hosted_by_key d (ho_idempotency_key request) in
       bind_res (validate_scope (py_get t ''scope'') (ho_provider request) (ho_target_kind request) (ho_operation_kind request)
         (ho_target_key request)) (\<lambda>scope.
       bind_res (validate_approval_guard env d (ho_repository request) (ho_issue_number request) (ho_operation_kind request)
         (hosted_scope_sha256 request scope) (ho_authority_comment_id request) (current = None)) (\<lambda>_.
       (let state = (if blocker_terminal d (ho_repository request) (ho_blocked_by_issue_number request) then ''PREPARED'' else ''WAITING'') in
        guarded [(po_require_prepared options \<and> state \<noteq> ''PREPARED'', hosted_error ''HOSTED_CLEARANCE_NOT_PREPARED'')]
        (bind_res (row_evidence env d request scope) (\<lambda>_.
         case current of
           Some h \<Rightarrow> replay_hosted env before_apply request h d
         | None \<Rightarrow> reserve_hosted env before_apply (po_retire_eligible_predecessors options) request state now d)))))))))))"

definition prepare :: "hosted_env \<Rightarrow> db \<Rightarrow> pydict \<Rightarrow> string \<Rightarrow> (db \<times> hosted_operation_row) res" where
  "prepare env d given now =
     bind_res (canonical_transaction env d given) (\<lambda>t.
     bind_res (validate_transaction_shape (he_catalog env) t) (\<lambda>_.
     bind_res (validate_source d (py_get t ''repository'') (num_of (py_get t ''issue_number'')) (py_get t ''source_payload_sha256'')) (\<lambda>_.
     bind_res (fetch_authority_comment env (str_of (py_get t ''repository'')) (num_text (py_get t ''issue_number''))
       (py_get t ''authority_comment_id'')) (\<lambda>comment.
     Coordination_Base.transaction d
       (bind_res (prepare_in_transaction env Inr \<lparr>po_retire_eligible_predecessors = False, po_require_prepared = False\<rparr>
          (d\<lparr>in_transaction := True\<rparr>) t now comment (digest_json comment))
        (\<lambda>(d', row). Inr (d'\<lparr>in_transaction := False\<rparr>, row)))))))"

subsection \<open>Holding, promoting, claiming and completing\<close>

definition held_error :: "string \<Rightarrow> string" where
  "held_error e = (if e \<noteq> [] \<and> is_upper (hd e) \<and> list_all (\<lambda>c. is_upper c \<or> is_digit c \<or> c = CHR ''_'') e
     then e else ''HOSTED_OPERATION_HELD'')"

definition put_on_hold :: "string list \<Rightarrow> int \<Rightarrow> string \<Rightarrow> string \<Rightarrow> db \<Rightarrow> db" where
  "put_on_hold states operation_id error now d =
     append_event ''HOSTED_OPERATION_HELD'' (hosted_entity operation_id)
       (PDict [(''operation_id'', PInt operation_id), (''error'', PStr error)]) now
       (d\<lparr>hosted_operations := update_where (\<lambda>h. ho_id h = operation_id \<and> ho_state h \<in> set states)
          (\<lambda>h. h\<lparr>ho_state := ''HOLD'', ho_updated_at := now, ho_last_error := Some error\<rparr>) (hosted_operations d)\<rparr>)"

definition count_hosted :: "(hosted_operation_row \<Rightarrow> bool) \<Rightarrow> db \<Rightarrow> nat" where
  "count_hosted p d = length (filter p (hosted_operations d))"

definition hold :: "db \<Rightarrow> int \<Rightarrow> string \<Rightarrow> string \<Rightarrow> db res" where
  "hold d operation_id error now =
     Coordination_Base.transaction d
       (guarded [(count_hosted (\<lambda>h. ho_id h = operation_id \<and> ho_state h \<in> {''WAITING'', ''PREPARED''}) d \<noteq> 1,
                  hosted_error ''HOSTED_STATE_CONFLICT'')]
         (Inr (put_on_hold [''WAITING'', ''PREPARED''] operation_id (held_error error) now d)))"

text \<open>\<open>except CoordinationError as exc\<close> around a check: the text of the error, or the error that is not caught.\<close>

fun caught :: "'a res \<Rightarrow> (string + 'a) res" where
  "caught (Inl (CoordinationError e)) = Inr (Inl e)"
| "caught (Inl e) = Inl e"
| "caught (Inr x) = Inr (Inr x)"

definition promote :: "int \<Rightarrow> string \<Rightarrow> db \<Rightarrow> db" where
  "promote operation_id now d =
     append_event ''HOSTED_OPERATION_PROMOTED'' (hosted_entity operation_id)
       (PDict [(''operation_id'', PInt operation_id), (''state'', PStr ''PREPARED'')]) now
       (d\<lparr>hosted_operations := update_where (\<lambda>h. ho_id h = operation_id \<and> ho_state h = ''WAITING'')
          (\<lambda>h. h\<lparr>ho_state := ''PREPARED'', ho_updated_at := now\<rparr>) (hosted_operations d)\<rparr>)"

text \<open>The transaction that promotes one row, and whether it did.\<close>

definition promote_row :: "hosted_env \<Rightarrow> db \<Rightarrow> hosted_operation_row \<Rightarrow> string \<Rightarrow> (db \<times> bool) res" where
  "promote_row env d row now =
     Coordination_Base.transaction d
       (case hosted_by_id d (ho_id row) of
          None \<Rightarrow> Inr (d, False)
        | Some current \<Rightarrow>
            if ho_state current \<noteq> ''WAITING'' then Inr (d, False)
            else
              bind_res (caught (bind_res (validate_persisted_operation env d current) (row_evidence env d current))) (\<lambda>checked.
              case checked of
                Inl e \<Rightarrow> Inr (put_on_hold [''WAITING''] (ho_id row) (held_error e) now d, False)
              | Inr _ \<Rightarrow>
                  bind_res (sre_limit env d (ho_repository row)) (\<lambda>(d', limit).
                  Inr (if limit < reserved_sre d (ho_repository row) + ho_sre_units row then (d', False)
                       else (promote (ho_id row) now d', True)))))"

definition check_waiting :: "hosted_env \<Rightarrow> db \<Rightarrow> hosted_operation_row \<Rightarrow> unit res" where
  "check_waiting env d row =
     bind_res (validate_persisted_operation env d row) (\<lambda>scope.
     bind_res (row_evidence env d row scope) (\<lambda>_.
     bind_res (row_source d row) (\<lambda>_.
     bind_res (validate_authority env row) (\<lambda>_. row_approval env d row scope))))"

definition refresh_row :: "hosted_env \<Rightarrow> string \<Rightarrow> hosted_operation_row \<Rightarrow> db \<times> int list \<Rightarrow> (db \<times> int list) res" where
  "refresh_row env now row s =
     (if \<not> blocker_terminal (fst s) (ho_repository row) (ho_blocked_by_issue_number row) then Inr s
      else
        bind_res (caught (check_waiting env (fst s) row)) (\<lambda>checked.
        case checked of
          Inl e \<Rightarrow> bind_res (hold (fst s) (ho_id row) e now) (\<lambda>d. Inr (d, snd s))
        | Inr _ \<Rightarrow> bind_res (promote_row env (fst s) row now) (\<lambda>(d, promoted).
            Inr (d, if promoted then snd s @ [ho_id row] else snd s))))"

text \<open>Each row is a transaction of its own: an error ends the loop and keeps what was done before it.\<close>

fun refresh_rows :: "hosted_env \<Rightarrow> string \<Rightarrow> hosted_operation_row list \<Rightarrow> db \<times> int list \<Rightarrow> db \<times> int list res" where
  "refresh_rows env now [] s = (fst s, Inr (snd s))"
| "refresh_rows env now (row # rows) s =
     (case refresh_row env now row s of Inl e \<Rightarrow> (fst s, Inl e) | Inr s' \<Rightarrow> refresh_rows env now rows s')"

definition refresh_waiting :: "hosted_env \<Rightarrow> db \<Rightarrow> string \<Rightarrow> db \<times> int list res" where
  "refresh_waiting env d now =
     refresh_rows env now (sort_key ho_id (filter (\<lambda>h. ho_state h = ''WAITING'') (hosted_operations d))) (d, [])"


text \<open>
  \<open>claim\<close> checks the row it read before it opens its transaction, and then everything SQLite owns again on
  the row as the transaction finds it: \<open>claim_request\<close> and \<open>claim_checks\<close> are the first part, \<open>claim_commit\<close>
  the second, which other processes may precede.
\<close>

definition claim_request :: "hosted_env \<Rightarrow> db \<Rightarrow> int \<Rightarrow> string \<Rightarrow> (string \<times> hosted_operation_row) res" where
  "claim_request env d operation_id session_id =
     bind_res (identity_role (he_catalog env) d session_id) (\<lambda>role.
     guarded [(role \<noteq> Some ''sre'', hosted_error ''HOSTED_RECIPIENT_MISMATCH'')]
     (bind_res (canonicalize_coordination_identity (he_catalog env) d session_id) (\<lambda>session.
      require_some (hosted_error ''HOSTED_STATE_CONFLICT'') (hosted_by_id d operation_id) (\<lambda>row.
      guarded [(ho_state row \<noteq> ''PREPARED'', hosted_error ''HOSTED_STATE_CONFLICT'')]
      (bind_res (identities_role_equivalent (he_catalog env) d (ho_recipient_session_id row) session) (\<lambda>same.
       guarded [(\<not> same, hosted_error ''HOSTED_STATE_CONFLICT'')] (Inr (session, row))))))))"

definition require_blocker_terminal :: "db \<Rightarrow> hosted_operation_row \<Rightarrow> unit res" where
  "require_blocker_terminal d row =
     guarded [(\<not> blocker_terminal d (ho_repository row) (ho_blocked_by_issue_number row),
               hosted_error ''HOSTED_BLOCKER_NOT_TERMINAL'')] (Inr ())"

definition claim_checks :: "hosted_env \<Rightarrow> db \<Rightarrow> hosted_operation_row \<Rightarrow> unit res" where
  "claim_checks env d row =
     bind_res (validate_persisted_operation env d row) (\<lambda>scope.
     bind_res (row_source d row) (\<lambda>_.
     bind_res (validate_authority env row) (\<lambda>_.
     bind_res (row_approval env d row scope) (\<lambda>_. require_blocker_terminal d row))))"

text \<open>The local guards of a claim before the capacity policy is read: the validated scope.\<close>

definition claim_evidence :: "hosted_env \<Rightarrow> db \<Rightarrow> hosted_operation_row \<Rightarrow> pyval res" where
  "claim_evidence env d row =
     bind_res (validate_persisted_operation env d row) (\<lambda>scope.
     bind_res (row_evidence env d row scope) (\<lambda>_.
     bind_res (row_source d row) (\<lambda>_.
     bind_res (require_blocker_terminal d row) (\<lambda>_. Inr scope))))"

text \<open>Reading the policy may install the default one, which stays in the transaction also when a later guard fails.\<close>

definition validate_claim_local_state :: "hosted_env \<Rightarrow> db \<Rightarrow> hosted_operation_row \<Rightarrow> db \<times> unit res" where
  "validate_claim_local_state env d row =
     (case bind_res (claim_evidence env d row) (\<lambda>scope.
             bind_res (sre_limit env d (ho_repository row)) (\<lambda>(d', limit). Inr (scope, d', limit))) of
        Inl e \<Rightarrow> (d, Inl e)
      | Inr (scope, d', limit) \<Rightarrow>
          (d', guarded [(limit < reserved_sre d (ho_repository row), hosted_error ''HOSTED_SRE_CAPACITY_EXCEEDED'')]
                 (row_approval env d' row scope)))"

definition mark_claimed :: "int \<Rightarrow> string \<Rightarrow> string \<Rightarrow> db \<Rightarrow> db" where
  "mark_claimed operation_id session_id now d =
     append_event ''HOSTED_OPERATION_CLAIMED'' (hosted_entity operation_id)
       (PDict [(''operation_id'', PInt operation_id), (''session_id'', PStr session_id)]) now
       (d\<lparr>hosted_operations := update_where (\<lambda>h. ho_id h = operation_id \<and> ho_state h = ''PREPARED'')
          (\<lambda>h. h\<lparr>ho_state := ''CLAIMED'', ho_claimed_by := Some session_id, ho_updated_at := now\<rparr>) (hosted_operations d)\<rparr>)"

definition claim_commit ::
  "hosted_env \<Rightarrow> db \<Rightarrow> int \<Rightarrow> string \<Rightarrow> string \<Rightarrow> (db \<times> (string + hosted_operation_row)) res" where
  "claim_commit env d operation_id session_id now =
     Coordination_Base.transaction d
       (require_some (hosted_error ''HOSTED_STATE_CONFLICT'') (hosted_by_id d operation_id) (\<lambda>current.
        guarded [(ho_state current \<noteq> ''PREPARED'', hosted_error ''HOSTED_STATE_CONFLICT'')]
        (case validate_claim_local_state env d current of (d', checked) \<Rightarrow>
           bind_res (caught checked) (\<lambda>local.
           guarded [(count_hosted (\<lambda>h. ho_id h = operation_id \<and> ho_state h = ''PREPARED'') d' \<noteq> 1,
                     hosted_error ''HOSTED_STATE_CONFLICT'')]
           (case local of
              Inl e \<Rightarrow> Inr (put_on_hold [''PREPARED''] operation_id e now d', Inl e)
            | Inr _ \<Rightarrow>
                (let d'' = mark_claimed operation_id session_id now d' in
                 require_some TypeError (hosted_by_id d'' operation_id) (\<lambda>row. Inr (d'', Inr row))))))))"

definition claim :: "hosted_env \<Rightarrow> db \<Rightarrow> int \<Rightarrow> string \<Rightarrow> string \<Rightarrow> db \<times> hosted_operation_row res" where
  "claim env d operation_id session_id now =
     (case claim_request env d operation_id session_id of
        Inl e \<Rightarrow> (d, Inl e)
      | Inr (session, row) \<Rightarrow>
          (case caught (claim_checks env d row) of
             Inl e \<Rightarrow> (d, Inl e)
           | Inr (Inl e) \<Rightarrow>
               (case hold d operation_id e now of Inl e' \<Rightarrow> (d, Inl e') | Inr d' \<Rightarrow> (d', Inl (CoordinationError e)))
           | Inr (Inr _) \<Rightarrow>
               (case claim_commit env d operation_id session now of
                  Inl e \<Rightarrow> (d, Inl e)
                | Inr (d', Inl e) \<Rightarrow> (d', Inl (CoordinationError e))
                | Inr (d', Inr claimed) \<Rightarrow> (d', Inr claimed))))"

definition hosted_session :: "hosted_env \<Rightarrow> db \<Rightarrow> string \<Rightarrow> int \<Rightarrow> string res" where
  "hosted_session env d session_id outbox_id =
     bind_res (identity_role (he_catalog env) d session_id) (\<lambda>role.
     guarded [(role \<noteq> Some ''sre'' \<or> outbox_id \<le> 0, hosted_error ''HOSTED_RECIPIENT_MISMATCH'')]
       (canonicalize_coordination_identity (he_catalog env) d session_id))"

definition claimed_row :: "hosted_env \<Rightarrow> db \<Rightarrow> int \<Rightarrow> string \<Rightarrow> (hosted_operation_row \<times> string) res" where
  "claimed_row env d operation_id session =
     (let conflict = hosted_error ''HOSTED_STATE_CONFLICT'' in
      require_some conflict (hosted_by_id d operation_id) (\<lambda>row.
      guarded [(ho_state row \<noteq> ''CLAIMED'', conflict)]
      (bind_res (identities_role_equivalent (he_catalog env) d (ho_recipient_session_id row) session) (\<lambda>same.
       guarded [(\<not> same, conflict)]
       (require_some conflict (ho_claimed_by row) (\<lambda>claimed_by.
        bind_res (identities_role_equivalent (he_catalog env) d claimed_by session) (\<lambda>own.
        guarded [(\<not> own, conflict)] (Inr (row, claimed_by)))))))))"

definition receipt_body :: "outbox_row \<Rightarrow> pyval" where
  "receipt_body outbox = (case ob_payload_json outbox of Some (PDict p) \<Rightarrow> py_get p ''body'' | _ \<Rightarrow> PNone)"

definition publishes_receipt :: "outbox_row \<Rightarrow> hosted_operation_row \<Rightarrow> bool" where
  "publishes_receipt outbox row \<longleftrightarrow> ob_repository outbox = ho_repository row \<and> ob_object_kind outbox = ''issue'' \<and>
     ob_object_number outbox = ho_issue_number row \<and> ob_state outbox = ''COMPLETE'' \<and> ob_remote_receipt outbox \<noteq> None"

definition receipt_outcome :: "pydict \<Rightarrow> string" where
  "receipt_outcome receipt = str_of (py_get receipt ''outcome'')"

definition completion_error :: "string \<Rightarrow> string option" where
  "completion_error outcome = (if outcome = ''SUCCESS'' then None
     else if outcome = ''FAILURE'' then Some ''HOSTED_OPERATION_FAILED'' else Some ''HOSTED_OPERATION_PARTIAL'')"

definition finish_row :: "outbox_row \<Rightarrow> pydict \<Rightarrow> string \<Rightarrow> hosted_operation_row \<Rightarrow> hosted_operation_row" where
  "finish_row outbox receipt now h =
     h\<lparr>ho_state := (if receipt_outcome receipt = ''SUCCESS'' then ''COMPLETE'' else ''HOLD''),
       ho_receipt_outbox_id := Some (ob_id outbox), ho_remote_receipt := ob_remote_receipt outbox,
       ho_receipt_outcome := Some (receipt_outcome receipt), ho_receipt_payload_sha256 := Some (digest_json (PDict receipt)),
       ho_updated_at := now, ho_last_error := completion_error (receipt_outcome receipt)\<rparr>"

definition complete :: "hosted_env \<Rightarrow> db \<Rightarrow> int \<Rightarrow> string \<Rightarrow> int \<Rightarrow> string \<Rightarrow> (db \<times> hosted_operation_row) res" where
  "complete env d operation_id session_id outbox_id now =
     bind_res (hosted_session env d session_id outbox_id) (\<lambda>session.
     Coordination_Base.transaction d
       (bind_res (claimed_row env d operation_id session) (\<lambda>(row, claimed_by).
        require_some receipt_invalid (outbox_of d outbox_id) (\<lambda>outbox.
        guarded [(\<not> publishes_receipt outbox row, receipt_invalid)]
        (bind_res (validate_receipt (receipt_body outbox) row) (\<lambda>receipt.
         (let hit = (\<lambda>h. ho_id h = operation_id \<and> ho_state h = ''CLAIMED'' \<and> ho_claimed_by h = Some claimed_by);
              d' = append_event
                (if receipt_outcome receipt = ''SUCCESS'' then ''HOSTED_OPERATION_COMPLETED'' else ''HOSTED_OPERATION_TERMINATED'')
                (hosted_entity operation_id)
                (PDict [(''operation_id'', PInt operation_id), (''receipt_outbox_id'', PInt outbox_id),
                  (''outcome'', PStr (receipt_outcome receipt)), (''scope_sha256'', PStr (ho_scope_sha256 row))]) now
                (d\<lparr>hosted_operations := update_where hit (finish_row outbox receipt now) (hosted_operations d)\<rparr>) in
          guarded [(count_hosted hit d \<noteq> 1, hosted_error ''HOSTED_STATE_CONFLICT'')]
          (require_some TypeError (hosted_by_id d' operation_id) (\<lambda>finished. Inr (d', finished))))))))))"

subsection \<open>Reading a receipt back\<close>

lemma on_line_hex: "0 \<le> n \<Longrightarrow> n < 16 \<Longrightarrow> on_line (hex_digit n)"
proof -
  assume "0 \<le> n" "n < 16"
  then have "n \<in> set [0..15]" by simp
  moreover have "list_all (\<lambda>n. on_line (hex_digit n)) [0..15]" by code_simp
  ultimately show "on_line (hex_digit n)" by (simp only: list_all_iff)
qed

lemma on_line_escape: "list_all on_line (json_escape c)"
proof -
  have "(0 :: int) \<le> of_char c mod 16" "(of_char c :: int) mod 16 < 16" by simp_all
  moreover have "(0 :: int) \<le> of_char c div 16" "(of_char c :: int) div 16 < 16" by (simp_all add: of_char_def)
  ultimately show ?thesis by (simp add: json_escape_def on_line_hex) (simp add: on_line_def)
qed

lemma on_line_string: "list_all on_line (json_string s)"
  using on_line_escape by (induction s) (simp_all add: json_string_def on_line_def)

lemma on_line_int: "list_all on_line (str_of_int i)"
proof -
  have "list_all on_line (str_of_nat n)" for n
    using list_all_is_digit_str_of_nat [of n] by (rule list.pred_mono_strong) (auto simp: on_line_def is_digit_def)
  then show ?thesis by (simp add: str_of_int_def on_line_def)
qed

lemma on_line_join: "list_all on_line sep \<Longrightarrow> list_all (list_all on_line) xs \<Longrightarrow> list_all on_line (join sep xs)"
  by (induction sep xs rule: join.induct) auto

lemma on_line_canonical: "list_all on_line (canonical_json v)"
proof (induction v)
  case (PList xs)
  then have "list_all on_line (join '','' (map canonical_json xs))"
    by (intro on_line_join) (simp_all add: list_all_iff on_line_def)
  moreover have "list_all on_line ''[]''" by (simp add: on_line_def)
  ultimately show ?case by simp
next
  case (PDict kvs)
  have "list_all on_line (member_text kv)" if "kv \<in> set kvs" for kv
    using PDict [of kv "snd kv"] that on_line_string [of "fst kv"]
    by (cases kv) (simp add: member_text_def on_line_def [of "CHR '':''"])
  then have "list_all on_line (join '','' (map member_text (sort_key fst kvs)))"
    by (intro on_line_join) (simp_all add: list_all_iff on_line_def)
  moreover have "list_all on_line ''{}''" by (simp add: on_line_def)
  ultimately show ?case unfolding canonical_json_members by simp
qed (simp_all add: on_line_string on_line_int, simp_all add: on_line_def)

lemma find_rev_upt:
  assumes "m \<le> n" and "p m" and "\<And>k. m < k \<Longrightarrow> k \<le> n \<Longrightarrow> \<not> p k"
  shows "List.find p (rev [0..<Suc n]) = Some m"
  using assms
proof (induction n)
  case (Suc n)
  show ?case
  proof (cases "m = Suc n")
    case False
    with Suc have "List.find p (rev [0..<Suc n]) = Some m" by auto
    moreover have "\<not> p (Suc n)" using Suc False by auto
    ultimately show ?thesis by simp
  qed (use Suc in simp)
qed simp

lemma marked_object_canonical:
  "marked_object (RECEIPT_MARKER @ canonical_json (PDict r) @ '' -->'') = Some (canonical_json (PDict r))"
proof -
  let ?j = "canonical_json (PDict r)"
  let ?line = "?j @ '' -->''" and ?ok = "\<lambda>n. 2 \<le> n \<and> (canonical_json (PDict r) @ '' -->'') ! (n - 1) = CHR ''}'' \<and>
    take 4 (drop n (canonical_json (PDict r) @ '' -->'')) = '' -->''"
  have shape: "2 \<le> length ?j" "last ?j = CHR ''}''" "hd ?j = CHR ''{''" "?j \<noteq> []" by (simp_all only: canonical_json_members) simp_all
  have line: "takeWhile on_line ?line = ?line"
    unfolding takeWhile_eq_all_conv using on_line_canonical [of "PDict r"] by (auto simp: list_all_iff on_line_def)
  have "List.find ?ok (rev [0..<Suc (length ?line)]) = Some (length ?j)"
  proof (rule find_rev_upt)
    show "?ok (length ?j)" using shape by (simp add: nth_append last_conv_nth del: canonical_json.simps)
    show "\<not> ?ok k" if "length ?j < k" for k
    proof
      assume "?ok k"
      then have "length (take 4 (drop k ?line)) = 4" by (simp del: canonical_json.simps)
      with that show False by (simp del: canonical_json.simps)
    qed
  qed simp
  then show ?thesis using shape line by (simp add: marked_object_def Let_def del: canonical_json.simps)
qed

lemma receipt_read_back:
  assumes "distinct_keys (PDict r)"
  shows "receipt_objects (RECEIPT_MARKER @ canonical_json (PDict r) @ '' -->'') = [canonical_json (PDict r)]"
    and "json_loads (canonical_json (PDict r)) = Some (sort_keys (PDict r))"
proof -
  obtain c s where cs: "RECEIPT_MARKER @ canonical_json (PDict r) @ '' -->'' = c # s" by (cases RECEIPT_MARKER) (auto simp: RECEIPT_MARKER_def)
  then have "length s + 1 = length RECEIPT_MARKER + length (canonical_json (PDict r)) + 4"
  proof -
    have "length (c # s) = length (RECEIPT_MARKER @ canonical_json (PDict r) @ '' -->'')" by (simp only: cs)
    also have "\<dots> = length RECEIPT_MARKER + length (canonical_json (PDict r)) + 4" by (simp del: canonical_json.simps)
    finally show ?thesis by (simp del: canonical_json.simps)
  qed
  then have "drop (length RECEIPT_MARKER + length (canonical_json (PDict r)) + 3) s = []" by (simp del: canonical_json.simps)
  with marked_object_canonical [of r] show "receipt_objects (RECEIPT_MARKER @ canonical_json (PDict r) @ '' -->'') = [canonical_json (PDict r)]"
    unfolding cs by (simp del: canonical_json.simps)
  have "parse_value (2 * length (canonical_json (PDict r)) + 2) (canonical_json (PDict r) @ []) = Some (sort_keys (PDict r), [])"
    by (rule reads_backD [OF parse_value_canonical [OF assms]]) simp_all
  then show "json_loads (canonical_json (PDict r)) = Some (sort_keys (PDict r))"
    using skip_ws_canonical [of "PDict r" "[]"] by (simp add: json_loads_def skip_ws_def del: canonical_json.simps)
qed

end
