(* ===== verification/Hosted_Invariant.thy ===== *)
theory Hosted_Invariant
  imports Hosted_Operations Item_Invariant
begin

section \<open>The life of a hosted operation and the capacity it shares\<close>

text \<open>
  Hosted operations and coordination items draw on the same SRE capacity of a repository, by separate code:
  coordination_store.py counts the operations that are prepared or claimed when it changes an item or a
  policy, hosted_operation_control.py counts the items when it prepares or promotes an operation.
  \<open>control_step\<close> is one transaction of either, or of the clearance of a rerun, and its runs keep the limits of
  every repository.
\<close>

subsection \<open>Rows and how they move\<close>

definition hosted_identity ::
  "hosted_operation_row \<Rightarrow> int \<times> string list \<times> int list \<times> int option \<times> pyval option" where
  "hosted_identity h =
     (ho_id h,
      [ho_idempotency_key h, ho_repository h, ho_object_kind h, ho_source_payload_sha256 h, ho_provider h, ho_target_kind h,
       ho_target_key h, ho_operation_kind h, ho_authority_body_sha256 h, ho_scope_sha256 h, ho_recipient_session_id h, ho_created_at h],
      [ho_issue_number h, ho_authority_comment_id h, ho_sre_units h], ho_blocked_by_issue_number h, ho_scope_json h)"

definition hosted_receipt :: "hosted_operation_row \<Rightarrow> int option \<times> string option list" where
  "hosted_receipt h =
     (ho_receipt_outbox_id h, [ho_remote_receipt h, ho_receipt_outcome h, ho_receipt_payload_sha256 h])"

definition hosted_reaches :: "string \<Rightarrow> string \<Rightarrow> bool" where
  "hosted_reaches s t \<longleftrightarrow> s = t \<or>
     (s = ''WAITING'' \<and> t \<in> {''PREPARED'', ''CLAIMED'', ''COMPLETE'', ''HOLD''}) \<or>
     (s = ''PREPARED'' \<and> t \<in> {''CLAIMED'', ''COMPLETE'', ''HOLD''}) \<or> (s = ''CLAIMED'' \<and> t \<in> {''COMPLETE'', ''HOLD''})"

definition row_ok :: "hosted_operation_row \<Rightarrow> bool" where
  "row_ok h \<longleftrightarrow> ho_state h \<in> {''WAITING'', ''PREPARED'', ''CLAIMED'', ''COMPLETE'', ''HOLD''} \<and> ho_sre_units h \<in> {0, 1} \<and>
     (ho_state h \<in> {''WAITING'', ''PREPARED'', ''CLAIMED''} \<longrightarrow> hosted_receipt h = (None, [None, None, None])) \<and>
     (ho_state h \<in> {''WAITING'', ''PREPARED''} \<longrightarrow> ho_claimed_by h = None) \<and>
     (ho_state h = ''CLAIMED'' \<longrightarrow> ho_claimed_by h \<noteq> None) \<and>
     (ho_state h = ''COMPLETE'' \<longrightarrow> ho_claimed_by h \<noteq> None \<and> ho_receipt_outbox_id h \<noteq> None \<and> ho_remote_receipt h \<noteq> None \<and>
        ho_receipt_outcome h = Some ''SUCCESS'' \<and> ho_receipt_payload_sha256 h \<noteq> None)"

definition row_evolves :: "hosted_operation_row \<Rightarrow> hosted_operation_row \<Rightarrow> bool" where
  "row_evolves h h' \<longleftrightarrow> hosted_identity h' = hosted_identity h \<and> hosted_reaches (ho_state h) (ho_state h') \<and>
     (holds_rerun_target h' \<longrightarrow> holds_rerun_target h) \<and> (ho_state h = ''COMPLETE'' \<longrightarrow> h' = h) \<and>
     (ho_claimed_by h \<noteq> None \<longrightarrow> ho_claimed_by h' = ho_claimed_by h) \<and>
     (hosted_receipt h \<noteq> (None, [None, None, None]) \<longrightarrow> hosted_receipt h' = hosted_receipt h)"

lemma row_evolves_refl [simp]: "row_evolves h h"
  by (simp add: row_evolves_def hosted_reaches_def)

lemma hosted_reaches_trans:
  assumes "hosted_reaches s t" and "hosted_reaches t u"
  shows "hosted_reaches s u"
  using assms(1) unfolding hosted_reaches_def [of s t]
proof (elim disjE conjE)
  assume "s = ''WAITING''" "t \<in> {''PREPARED'', ''CLAIMED'', ''COMPLETE'', ''HOLD''}"
  with assms(2) show ?thesis by (elim insertE) (simp_all add: hosted_reaches_def, (elim disjE conjE, simp_all)+)
next
  assume "s = ''PREPARED''" "t \<in> {''CLAIMED'', ''COMPLETE'', ''HOLD''}"
  with assms(2) show ?thesis by (elim insertE) (simp_all add: hosted_reaches_def, (elim disjE conjE, simp_all)+)
next
  assume "s = ''CLAIMED''" "t \<in> {''COMPLETE'', ''HOLD''}"
  with assms(2) show ?thesis by (elim insertE) (simp_all add: hosted_reaches_def)
qed (use assms(2) in simp)

lemma row_evolves_trans:
  assumes "row_evolves a b" and "row_evolves b c"
  shows "row_evolves a c"
  unfolding row_evolves_def
proof (intro conjI impI)
  note ab = assms(1) [unfolded row_evolves_def] and bc = assms(2) [unfolded row_evolves_def]
  show "hosted_identity c = hosted_identity a" using ab bc by simp
  show "hosted_reaches (ho_state a) (ho_state c)" using ab bc by (blast intro: hosted_reaches_trans)
  show "holds_rerun_target c \<Longrightarrow> holds_rerun_target a" using ab bc by blast
  show "ho_state a = ''COMPLETE'' \<Longrightarrow> c = a" using ab bc by simp
  show "ho_claimed_by a \<noteq> None \<Longrightarrow> ho_claimed_by c = ho_claimed_by a" using ab bc by simp
  show "hosted_receipt a \<noteq> (None, [None, None, None]) \<Longrightarrow> hosted_receipt c = hosted_receipt a" using ab bc by simp
qed

lemma hosted_identity_fields:
  assumes "hosted_identity a = hosted_identity b"
  shows "ho_id a = ho_id b" "ho_idempotency_key a = ho_idempotency_key b" "ho_repository a = ho_repository b"
    "ho_target_kind a = ho_target_kind b" "ho_sre_units a = ho_sre_units b" "same_rerun_target a = same_rerun_target b"
  using assms by (simp_all add: hosted_identity_def fun_eq_iff same_rerun_target_def)

definition hosted_units :: "string \<Rightarrow> hosted_operation_row \<Rightarrow> int" where
  "hosted_units repository h =
     (if ho_repository h = repository \<and> (ho_state h = ''PREPARED'' \<or> ho_state h = ''CLAIMED'') then ho_sre_units h else 0)"

definition reruns_exclusive :: "hosted_operation_row list \<Rightarrow> bool" where
  "reruns_exclusive rows \<longleftrightarrow> (\<forall>a \<in> set rows. \<forall>b \<in> set rows.
     ho_id a \<noteq> ho_id b \<and> holds_rerun_target a \<and> holds_rerun_target b \<longrightarrow> \<not> same_rerun_target a b)"

definition hosted_rows_ok :: "hosted_operation_row list \<Rightarrow> bool" where
  "hosted_rows_ok rows \<longleftrightarrow> distinct (map ho_id rows) \<and> distinct (map ho_idempotency_key rows) \<and>
     list_all row_ok rows \<and> reruns_exclusive rows"

definition hosted_wf :: "db \<Rightarrow> bool" where
  "hosted_wf d \<longleftrightarrow> table_installed d ''hosted_operations'' \<and> hosted_rows_ok (hosted_operations d)"

definition hosted_grows :: "db \<Rightarrow> db \<Rightarrow> bool" where
  "hosted_grows d d' \<longleftrightarrow> (\<exists>olds new. hosted_operations d' = olds @ new \<and> list_all2 row_evolves (hosted_operations d) olds)"

lemma hosted_grows_refl: "hosted_operations d' = hosted_operations d \<Longrightarrow> hosted_grows d d'"
  unfolding hosted_grows_def by (rule exI [of _ "hosted_operations d"]) (simp add: list_all2_same)

lemma hosted_grows_trans:
  assumes "hosted_grows a b" and "hosted_grows b c"
  shows "hosted_grows a c"
proof -
  from assms obtain os ns where b: "hosted_operations b = os @ ns" "list_all2 row_evolves (hosted_operations a) os"
    by (auto simp: hosted_grows_def)
  from assms(2) obtain ps ms where c: "hosted_operations c = ps @ ms" "list_all2 row_evolves (os @ ns) ps"
    by (auto simp: hosted_grows_def b)
  from c(2) obtain p q where pq: "ps = p @ q" "list_all2 row_evolves os p" "list_all2 row_evolves ns q"
    by (auto simp: list_all2_append1)
  have "list_all2 row_evolves (hosted_operations a) p"
    by (rule list_all2_trans [OF row_evolves_trans b(2) pq(2)])
  then show ?thesis using c(1) pq(1) by (auto simp: hosted_grows_def)
qed

lemma hosted_growsD:
  assumes "hosted_grows d d'" and "h \<in> set (hosted_operations d)"
  shows "\<exists>h' \<in> set (hosted_operations d'). row_evolves h h'"
proof -
  from assms(1) obtain olds new where o: "hosted_operations d' = olds @ new" "list_all2 row_evolves (hosted_operations d) olds"
    by (auto simp: hosted_grows_def)
  from assms(2) obtain i where i: "i < length (hosted_operations d)" "hosted_operations d ! i = h" by (auto simp: in_set_conv_nth)
  with o(2) have "row_evolves h (olds ! i)" "i < length olds" by (auto simp: list_all2_conv_all_nth)
  then show ?thesis by (intro bexI [of _ "olds ! i"]) (simp_all add: o(1))
qed

lemma same_hosted_row:
  "hosted_rows_ok rows \<Longrightarrow> a \<in> set rows \<Longrightarrow> b \<in> set rows \<Longrightarrow> ho_id a = ho_id b \<Longrightarrow> a = b"
  by (auto simp: hosted_rows_ok_def distinct_map inj_on_def)

lemma hosted_by_id_Some:
  "hosted_by_id d i = Some h \<Longrightarrow> h \<in> set (hosted_operations d) \<and> ho_id h = i"
  by (auto simp: hosted_by_id_def dest: find_SomeD)

lemma hosted_wf_units:
  assumes "hosted_wf d" and "h \<in> set (hosted_operations d)"
  shows "0 \<le> ho_sre_units h"
proof -
  have "row_ok h" using assms unfolding hosted_wf_def hosted_rows_ok_def list_all_iff by blast
  then have "ho_sre_units h \<in> {0, 1}" unfolding row_ok_def by (elim conjE)
  then show ?thesis by (elim insertE) simp_all
qed

subsection \<open>Updating and inserting rows\<close>

definition updates_rows :: "(hosted_operation_row \<Rightarrow> bool) \<Rightarrow> (hosted_operation_row \<Rightarrow> hosted_operation_row) \<Rightarrow> bool" where
  "updates_rows hit f \<longleftrightarrow> (\<forall>h. hit h \<and> row_ok h \<longrightarrow> row_evolves h (f h) \<and> row_ok (f h))"

lemma updates_rows_ok:
  assumes "hosted_rows_ok rows" and "updates_rows hit f"
  shows "hosted_rows_ok (update_where hit f rows)" and "list_all2 row_evolves rows (update_where hit f rows)"
proof -
  have each: "row_evolves h (if hit h then f h else h) \<and> row_ok (if hit h then f h else h)" if "h \<in> set rows" for h
    using that assms by (auto simp: updates_rows_def hosted_rows_ok_def list_all_iff)
  then show grows: "list_all2 row_evolves rows (update_where hit f rows)"
    by (simp add: update_where_def list_all2_map2 list_all2_same)
  have kept: "hosted_identity (f h) = hosted_identity h" if "h \<in> set rows" "hit h" for h
    using each [OF that(1)] that(2) by (simp add: row_evolves_def)
  have "map ho_id (update_where hit f rows) = map ho_id rows"
    "map ho_idempotency_key (update_where hit f rows) = map ho_idempotency_key rows"
    using kept by (auto intro!: map_update_where dest: hosted_identity_fields)
  moreover have "reruns_exclusive (update_where hit f rows)"
    unfolding reruns_exclusive_def
  proof (intro ballI impI)
    fix a b
    assume a: "a \<in> set (update_where hit f rows)" and b: "b \<in> set (update_where hit f rows)"
      and ab: "ho_id a \<noteq> ho_id b \<and> holds_rerun_target a \<and> holds_rerun_target b"
    from a b obtain x y where xy: "x \<in> set rows" "y \<in> set rows" "row_evolves x a" "row_evolves y b"
      using each by (fastforce dest!: update_where_mem)
    note ids = xy(3,4) [unfolded row_evolves_def]
    note fields = hosted_identity_fields [OF ids(1) [THEN conjunct1]] hosted_identity_fields [OF ids(2) [THEN conjunct1]]
    from ab ids have "holds_rerun_target x" "holds_rerun_target y" by blast+
    moreover have "ho_id x \<noteq> ho_id y" using ab fields by simp
    ultimately have "\<not> same_rerun_target x y" using assms(1) xy by (auto simp: hosted_rows_ok_def reruns_exclusive_def)
    moreover have "same_rerun_target a b = same_rerun_target x y"
      using fields(6) ids(2) by (simp add: hosted_identity_def same_rerun_target_def)
    ultimately show "\<not> same_rerun_target a b" by simp
  qed
  moreover have "row_ok x" if "x \<in> set (update_where hit f rows)" for x
  proof -
    from update_where_mem [OF that] obtain q where "q \<in> set rows" "x = (if hit q then f q else q)" ..
    with each [of q] show ?thesis by simp
  qed
  ultimately show "hosted_rows_ok (update_where hit f rows)" using assms(1) by (simp add: hosted_rows_ok_def list_all_iff)
qed

lemma insert_row_ok:
  assumes "hosted_rows_ok rows" and "row_ok h" and "ho_id h = next_rowid ho_id rows"
    and "\<forall>r \<in> set rows. ho_idempotency_key r \<noteq> ho_idempotency_key h \<and>
      \<not> (holds_rerun_target r \<and> holds_rerun_target h \<and> same_rerun_target r h)"
  shows "hosted_rows_ok (rows @ [h])"
proof -
  have fresh: "ho_id r \<noteq> ho_id h" if "r \<in> set rows" for r using next_rowid_fresh [OF that, of ho_id] assms(3) by simp
  have "\<not> same_rerun_target h r" if "r \<in> set rows" "holds_rerun_target r" "holds_rerun_target h" for r
    using assms(4) that by (auto simp: same_rerun_target_def)
  then have "reruns_exclusive (rows @ [h])" using assms(1,4) by (auto simp: hosted_rows_ok_def reruns_exclusive_def)
  moreover have "ho_id h \<notin> set (map ho_id rows)" "ho_idempotency_key h \<notin> set (map ho_idempotency_key rows)"
    using fresh assms(4) by force+
  ultimately show ?thesis using assms(1,2) by (simp add: hosted_rows_ok_def)
qed

subsection \<open>Units\<close>

lemma sum_update_where_le:
  fixes u :: "'r \<Rightarrow> int"
  assumes "\<And>r. r \<in> set rows \<Longrightarrow> hit r \<Longrightarrow> u (f r) \<le> u r"
  shows "sum_list (map u (update_where hit f rows)) \<le> sum_list (map u rows)"
  using assms by (induction rows) (auto simp: update_where_def intro: add_mono)

lemma sum_update_one:
  fixes u :: "'r \<Rightarrow> int"
  assumes "distinct (map key rows)" and "r \<in> set rows" and "p r"
  shows "sum_list (map u (update_where (\<lambda>x. key x = key r \<and> p x) f rows)) = sum_list (map u rows) - u r + u (f r)"
proof -
  from assms(2) obtain xs ys where rows: "rows = xs @ r # ys" by (auto simp: in_set_conv_decomp)
  have other: "key x \<noteq> key r" if "x \<in> set xs \<or> x \<in> set ys" for x
    using assms(1) that unfolding rows by (auto simp: image_iff)
  have "update_where (\<lambda>x. key x = key r \<and> p x) f xs = xs" "update_where (\<lambda>x. key x = key r \<and> p x) f ys = ys"
    using other by (auto intro!: update_where_id)
  then have "update_where (\<lambda>x. key x = key r \<and> p x) f rows = xs @ f r # ys"
    using assms(3) by (simp add: rows update_where_def)
  then show ?thesis by (simp add: rows)
qed

lemma reserved_hosted_units:
  "table_installed d ''hosted_operations'' \<Longrightarrow> reserved_hosted_sre_units d repo = sum_list (map (hosted_units repo) (hosted_operations d))"
proof -
  have "sum_list (map ho_sre_units (filter (\<lambda>h. ho_repository h = repo \<and> (ho_state h = ''PREPARED'' \<or> ho_state h = ''CLAIMED'')) rows))
    = sum_list (map (hosted_units repo) rows)" for rows
    by (induction rows) (auto simp: hosted_units_def)
  then show "table_installed d ''hosted_operations'' \<Longrightarrow> ?thesis" by (simp add: reserved_hosted_sre_units_def)
qed

lemma reserved_sre_units:
  "table_installed d ''hosted_operations'' \<Longrightarrow> reserved_sre d repo = snd (snd (occupancy d repo))"
  by (simp add: reserved_sre_def occupancy_def reserved_hosted_sre_units_def)

text \<open>What a hosted transaction leaves alone, next to the hosted operations and the default policy it may install.\<close>

definition hosted_frame :: "db \<Rightarrow> db \<Rightarrow> bool" where
  "hosted_frame d d' \<longleftrightarrow> coordination_items d' = coordination_items d \<and> sqlite_master d' = sqlite_master d \<and>
     (capacity_wf d \<longrightarrow> capacity_wf d' \<and> effective_limits d' = effective_limits d)"

lemma hosted_frame_trans: "hosted_frame a b \<Longrightarrow> hosted_frame b c \<Longrightarrow> hosted_frame a c"
  by (simp add: hosted_frame_def)

definition units_fit_limits :: "db \<Rightarrow> hosted_operation_row list \<Rightarrow> bool" where
  "units_fit_limits d rows \<longleftrightarrow> (\<forall>repo.
     sum_list (map (hosted_units repo) rows) \<le> sum_list (map (hosted_units repo) (hosted_operations d)) \<or>
     occupied_units it_sre_units d repo + sum_list (map (hosted_units repo) rows) \<le> snd (snd (effective_limits d repo)))"

lemma hosted_frame_inv:
  assumes "item_store_inv d" and "hosted_wf d" and frame: "hosted_frame d d'"
    and "units_fit_limits d (hosted_operations d')"
  shows "item_store_inv d'"
proof -
  note f = frame [unfolded hosted_frame_def]
  have wf: "capacity_wf d" "items_wf d" "writers_exclusive d" "leases_unique d" "\<And>repo. capacity_respected d repo"
    using assms(1) by (simp_all add: item_store_inv_def)
  have installed: "table_installed d ''hosted_operations''" "table_installed d' ''hosted_operations''"
    using assms(2) f by (simp_all add: hosted_wf_def table_installed_def)
  have items: "coordination_items d' = coordination_items d" using f by simp
  have "capacity_respected d' repo" for repo
    using wf(5) [of repo] assms(4) f wf(1) installed
    by (auto simp: capacity_respected_def within_def occupancy_def reserved_hosted_units occupied_units_def reserved_items_def
        units_fit_limits_def dest!: spec [of _ repo])
  then show ?thesis using wf f
    by (simp add: item_store_inv_def items_wf_def writers_exclusive_def leases_unique_def reserved_items_def)
qed

text \<open>The joint guarantee of a step: it keeps both invariants and the rows of operations only evolve.\<close>

definition keeps_control :: "db \<Rightarrow> db \<Rightarrow> bool" where
  "keeps_control d d' \<longleftrightarrow> (item_store_inv d \<and> hosted_wf d \<longrightarrow> item_store_inv d' \<and> hosted_wf d' \<and> hosted_grows d d')"

lemma keeps_control_refl [simp]: "keeps_control d d"
  by (simp add: keeps_control_def hosted_grows_refl)

lemma keeps_control_trans: "keeps_control a b \<Longrightarrow> keeps_control b c \<Longrightarrow> keeps_control a c"
  by (auto simp: keeps_control_def intro: hosted_grows_trans)

lemma keeps_control_update:
  assumes rows: "hosted_operations d' = update_where hit f (hosted_operations d)" and frame: "hosted_frame d d'"
    and up: "updates_rows hit f"
    and fit: "item_store_inv d \<Longrightarrow> hosted_wf d \<Longrightarrow> units_fit_limits d (update_where hit f (hosted_operations d))"
  shows "keeps_control d d'"
  unfolding keeps_control_def
proof (intro impI conjI)
  assume inv: "item_store_inv d \<and> hosted_wf d"
  then have ok: "hosted_rows_ok (hosted_operations d)" by (simp add: hosted_wf_def)
  note up = updates_rows_ok [OF ok up]
  show "item_store_inv d'"
    by (rule hosted_frame_inv [OF inv [THEN conjunct1] inv [THEN conjunct2] frame]) (use fit inv rows in simp)
  show "hosted_wf d'" using up(1) inv frame by (simp add: hosted_wf_def rows hosted_frame_def table_installed_def)
  show "hosted_grows d d'" unfolding hosted_grows_def rows using up(2)
    by (intro exI [of _ "update_where hit f (hosted_operations d)"] exI [of _ "[]"]) simp
qed

lemma units_fit_shrinking:
  assumes "\<And>h repo. h \<in> set (hosted_operations d) \<Longrightarrow> hit h \<Longrightarrow> hosted_units repo (f h) \<le> hosted_units repo h"
  shows "units_fit_limits d (update_where hit f (hosted_operations d))"
  using assms by (auto simp: units_fit_limits_def intro!: disjI1 sum_update_where_le)

subsection \<open>The operations\<close>

lemma case_sum_eq: "(case x of Inl e \<Rightarrow> f e | Inr y \<Rightarrow> g y) = v \<longleftrightarrow> (\<exists>e. x = Inl e \<and> f e = v) \<or> (\<exists>y. x = Inr y \<and> g y = v)"
  by (cases x) simp_all

lemma case_option_eq: "(case x of None \<Rightarrow> a | Some y \<Rightarrow> g y) = v \<longleftrightarrow> (x = None \<and> a = v) \<or> (\<exists>y. x = Some y \<and> g y = v)"
  by (cases x) simp_all

lemmas branch_simps = guard_simps case_sum_eq case_option_eq split_beta Let_def

lemma sre_limit_Inr:
  assumes "sre_limit env d repo = Inr (d', limit)"
  shows "hosted_frame d d'" and "hosted_operations d' = hosted_operations d"
    and "capacity_wf d \<Longrightarrow> limit = snd (snd (effective_limits d repo))"
proof -
  from assms obtain p where p: "ensure_capacity_policy d repo (he_utc_now env) = Inr (d', p)" "limit = cp_sre_limit p"
    by (auto simp: sre_limit_def store_capacity_policy_def guard_simps)
  show "hosted_operations d' = hosted_operations d" using p(1)
    by (auto simp: ensure_capacity_policy_def install_default_policy_def Let_def guard_simps split: option.splits if_splits)
  have other: "coordination_items d' = coordination_items d" "sqlite_master d' = sqlite_master d" using p(1)
    by (auto simp: ensure_capacity_policy_def install_default_policy_def Let_def guard_simps split: option.splits if_splits)
  show "hosted_frame d d'" using other ensure_capacity_policy_Inr [OF _ p(1)] by (simp add: hosted_frame_def)
  show "limit = snd (snd (effective_limits d repo))" if "capacity_wf d"
  proof -
    from ensure_capacity_policy_Inr [OF that p(1)]
    have "effective_limits d = effective_limits d'" "current_policy d' repo = Some p" by simp_all
    then show ?thesis using p(2) by (simp add: effective_limits_def limits_of_def)
  qed
qed

lemma hosted_frame_append_event [simp]:
  "hosted_frame d (append_event t k p now (d'\<lparr>hosted_operations := rows\<rparr>)) = hosted_frame d d'"
proof -
  have "capacity_wf (append_event t k p now (d'\<lparr>hosted_operations := rows\<rparr>)) = capacity_wf d'"
    "effective_limits (append_event t k p now (d'\<lparr>hosted_operations := rows\<rparr>)) = effective_limits d'"
    by (rule policy_tables_cong; simp)+
  then show ?thesis by (simp add: hosted_frame_def)
qed

lemma hosted_frame_refl [simp]: "hosted_frame d d"
  by (simp add: hosted_frame_def)

lemma hold_updates:
  assumes "set states \<subseteq> {''WAITING'', ''PREPARED''}"
  shows "updates_rows (\<lambda>h. ho_id h = i \<and> ho_state h \<in> set states)
    (\<lambda>h. h\<lparr>ho_state := ''HOLD'', ho_updated_at := now, ho_last_error := Some e\<rparr>)"
  unfolding updates_rows_def
proof (intro allI impI)
  fix h
  assume "(ho_id h = i \<and> ho_state h \<in> set states) \<and> row_ok h"
  then have "ho_state h = ''WAITING'' \<or> ho_state h = ''PREPARED''" and ok: "row_ok h" using assms by blast+
  then show "row_evolves h (h\<lparr>ho_state := ''HOLD'', ho_updated_at := now, ho_last_error := Some e\<rparr>) \<and>
      row_ok (h\<lparr>ho_state := ''HOLD'', ho_updated_at := now, ho_last_error := Some e\<rparr>)"
    by (elim disjE) (simp_all add: row_evolves_def row_ok_def hosted_reaches_def hosted_identity_def holds_rerun_target_def
        eligible_rerun_predecessor_def hosted_receipt_def)
qed

lemma put_on_hold_control:
  assumes "set states \<subseteq> {''WAITING'', ''PREPARED''}" and "hosted_frame d d'" and "hosted_operations d' = hosted_operations d"
  shows "keeps_control d (put_on_hold states i e now d')"
proof (rule keeps_control_update [OF _ _ hold_updates [OF assms(1)]])
  show "hosted_operations (put_on_hold states i e now d') = update_where (\<lambda>h. ho_id h = i \<and> ho_state h \<in> set states)
      (\<lambda>h. h\<lparr>ho_state := ''HOLD'', ho_updated_at := now, ho_last_error := Some e\<rparr>) (hosted_operations d)"
    by (simp add: put_on_hold_def assms(3))
  show "hosted_frame d (put_on_hold states i e now d')" by (simp add: put_on_hold_def assms(2))
  assume "hosted_wf d"
  note units = hosted_wf_units [OF this]
  show "units_fit_limits d (update_where (\<lambda>h. ho_id h = i \<and> ho_state h \<in> set states)
      (\<lambda>h. h\<lparr>ho_state := ''HOLD'', ho_updated_at := now, ho_last_error := Some e\<rparr>) (hosted_operations d))"
    by (intro units_fit_shrinking) (simp add: hosted_units_def units)
qed

lemma hold_control: "hold d i e now = Inr d' \<Longrightarrow> keeps_control d d'"
  using put_on_hold_control [of "[''WAITING'', ''PREPARED'']" d d] by (auto simp: hold_def guard_simps)

lemma promote_updates:
  "updates_rows (\<lambda>h. ho_id h = i \<and> ho_state h = ''WAITING'') (\<lambda>h. h\<lparr>ho_state := ''PREPARED'', ho_updated_at := now\<rparr>)"
  by (simp add: updates_rows_def row_evolves_def row_ok_def hosted_reaches_def hosted_identity_def holds_rerun_target_def
      eligible_rerun_predecessor_def hosted_receipt_def)

lemma promote_control:
  assumes "hosted_frame d d'" and "hosted_operations d' = hosted_operations d"
    and h: "h \<in> set (hosted_operations d)" "ho_state h = ''WAITING''"
    and fits: "capacity_wf d \<Longrightarrow> hosted_wf d \<Longrightarrow> reserved_sre d (ho_repository h) + ho_sre_units h \<le>
      snd (snd (effective_limits d (ho_repository h)))"
  shows "keeps_control d (promote (ho_id h) now d')"
proof (rule keeps_control_update [OF _ _ promote_updates [of "ho_id h" now]])
  let ?hit = "\<lambda>x. ho_id x = ho_id h \<and> ho_state x = ''WAITING''" and ?f = "\<lambda>x. x\<lparr>ho_state := ''PREPARED'', ho_updated_at := now\<rparr>"
  show "hosted_operations (promote (ho_id h) now d') = update_where ?hit ?f (hosted_operations d)"
    by (simp add: promote_def assms(2))
  show "hosted_frame d (promote (ho_id h) now d')" by (simp add: promote_def assms(1))
  assume wf: "hosted_wf d" and "item_store_inv d"
  then have fits: "reserved_sre d (ho_repository h) + ho_sre_units h \<le> snd (snd (effective_limits d (ho_repository h)))"
    by (intro fits) (simp_all add: item_store_inv_def)
  have sums: "sum_list (map (hosted_units repo) (update_where ?hit ?f (hosted_operations d))) =
      sum_list (map (hosted_units repo) (hosted_operations d)) + (if ho_repository h = repo then ho_sre_units h else 0)" for repo
    using sum_update_one [of ho_id "hosted_operations d" h "\<lambda>x. ho_state x = ''WAITING''" "hosted_units repo" ?f] wf h
    by (simp add: hosted_wf_def hosted_rows_ok_def hosted_units_def)
  show "units_fit_limits d (update_where ?hit ?f (hosted_operations d))"
    unfolding units_fit_limits_def sums
    using fits wf by (auto simp: reserved_sre_units occupancy_def hosted_wf_def reserved_hosted_units)
qed

lemma promote_row_control:
  assumes ok: "promote_row env d row now = Inr (d', b)"
    and same: "\<exists>h \<in> set (hosted_operations d). hosted_identity h = hosted_identity row" and rows: "hosted_rows_ok (hosted_operations d)"
  shows "keeps_control d d'"
proof -
  from ok consider "d' = d"
    | e where "d' = put_on_hold [''WAITING''] (ho_id row) (held_error e) now d"
    | h d1 limit where "hosted_by_id d (ho_id row) = Some h" "ho_state h = ''WAITING''"
        "sre_limit env d (ho_repository row) = Inr (d1, limit)" "d' = d1 \<or> (\<not> limit < reserved_sre d (ho_repository row) + ho_sre_units row
          \<and> d' = promote (ho_id row) now d1)"
    unfolding promote_row_def by (auto simp: branch_simps split: if_splits)
  then show ?thesis
  proof cases
    case 1
    then show ?thesis by simp
  next
    case 2
    then show ?thesis by (simp add: put_on_hold_control)
  next
    case 3
    note limit = sre_limit_Inr [OF 3(3)]
    from hosted_by_id_Some [OF 3(1)] have h: "h \<in> set (hosted_operations d)" "ho_id h = ho_id row" by simp_all
    from same obtain x where x: "x \<in> set (hosted_operations d)" "hosted_identity x = hosted_identity row" ..
    with h hosted_identity_fields(1) [OF x(2)] have "x = h" by (intro same_hosted_row [OF rows]) simp_all
    with hosted_identity_fields [OF x(2)] have row: "ho_repository row = ho_repository h" "ho_sre_units row = ho_sre_units h" by simp_all
    have kept: "keeps_control d d1"
      by (rule keeps_control_update [where hit = "\<lambda>_. False" and f = id])
        (simp_all add: update_where_def limit(1,2) updates_rows_def units_fit_limits_def)
    show ?thesis
    proof (cases "d' = d1")
      case True
      with kept show ?thesis by simp
    next
      case False
      with 3(4) have d': "d' = promote (ho_id h) now d1" and fits: "reserved_sre d (ho_repository h) + ho_sre_units h \<le> limit"
        by (simp_all add: row h(2))
      show ?thesis unfolding d' by (rule promote_control [OF limit(1,2) h(1) 3(2)]) (use fits limit(3) row(1) in simp)
    qed
  qed
qed

definition tracks :: "db \<Rightarrow> hosted_operation_row list \<Rightarrow> bool" where
  "tracks d rows \<longleftrightarrow> (\<forall>row \<in> set rows. \<exists>h \<in> set (hosted_operations d). hosted_identity h = hosted_identity row)"

lemma tracks_grows: "tracks d rows \<Longrightarrow> hosted_grows d d' \<Longrightarrow> tracks d' rows"
  unfolding tracks_def by (metis hosted_growsD row_evolves_def)

lemma refresh_row_control:
  assumes ok: "refresh_row env now row (d, ps) = Inr (d', qs)" and "tracks d [row]" and "item_store_inv d" "hosted_wf d"
  shows "keeps_control d d'"
proof -
  from ok consider "d' = d" | e where "hold d (ho_id row) e now = Inr d'" | b where "promote_row env d row now = Inr (d', b)"
    unfolding refresh_row_def by (auto simp: branch_simps split: if_splits)
  then show ?thesis
  proof cases
    case 3
    then show ?thesis by (rule promote_row_control) (use assms(2,4) in \<open>simp_all add: tracks_def hosted_wf_def\<close>)
  qed (simp_all add: hold_control)
qed

lemma refresh_rows_control:
  assumes "tracks d rows" and "item_store_inv d" and "hosted_wf d"
  shows "keeps_control d (fst (refresh_rows env now rows (d, ps)))"
  using assms
proof (induction rows arbitrary: d ps)
  case Nil
  then show ?case by simp
next
  case (Cons row rows)
  show ?case
  proof (cases "refresh_row env now row (d, ps)")
    case (Inl e)
    then show ?thesis by simp
  next
    case (Inr s)
    obtain d1 qs where s: "s = (d1, qs)" by (cases s)
    have step: "keeps_control d d1"
      by (rule refresh_row_control [OF Inr [unfolded s]]) (use Cons.prems in \<open>simp_all add: tracks_def\<close>)
    then have d1: "item_store_inv d1" "hosted_wf d1" "hosted_grows d d1" using Cons.prems by (simp_all add: keeps_control_def)
    have "tracks d1 rows" using Cons.prems(1) by (intro tracks_grows [OF _ d1(3)]) (simp add: tracks_def)
    from keeps_control_trans [OF step Cons.IH [OF this d1(1,2)]] Inr show ?thesis by (simp add: s)
  qed
qed

lemma refresh_waiting_control: "keeps_control d (fst (refresh_waiting env d now))"
proof (cases "item_store_inv d \<and> hosted_wf d")
  case True
  then show ?thesis unfolding refresh_waiting_def by (intro refresh_rows_control) (auto simp: tracks_def)
qed (auto simp: keeps_control_def)

lemma claim_updates:
  "updates_rows (\<lambda>h. ho_id h = i \<and> ho_state h = ''PREPARED'')
    (\<lambda>h. h\<lparr>ho_state := ''CLAIMED'', ho_claimed_by := Some session, ho_updated_at := now\<rparr>)"
  by (simp add: updates_rows_def row_evolves_def row_ok_def hosted_reaches_def hosted_identity_def holds_rerun_target_def
      eligible_rerun_predecessor_def hosted_receipt_def)

lemma mark_claimed_control:
  assumes "hosted_frame d d'" and "hosted_operations d' = hosted_operations d"
  shows "keeps_control d (mark_claimed i session now d')"
  by (rule keeps_control_update [OF _ _ claim_updates [of i now session]])
    (simp_all add: mark_claimed_def assms units_fit_shrinking hosted_units_def)

lemma validate_claim_local_state_frame:
  assumes "validate_claim_local_state env d row = (d', r)"
  shows "hosted_frame d d'" and "hosted_operations d' = hosted_operations d"
  using assms
  by (auto simp: validate_claim_local_state_def bind_res_Inl guard_simps sre_limit_Inr split: sum.splits)

lemma claim_commit_control:
  assumes "claim_commit env d i session now = Inr (d', r)"
  shows "keeps_control d d'"
proof -
  from assms obtain current d1 checked where v: "validate_claim_local_state env d current = (d1, checked)"
    and "d' = mark_claimed i session now d1 \<or> (\<exists>e. d' = put_on_hold [''PREPARED''] i e now d1)"
    unfolding claim_commit_def by (auto simp: branch_simps intro: prod.collapse [symmetric])
  with validate_claim_local_state_frame [OF v] show ?thesis by (auto intro: mark_claimed_control put_on_hold_control)
qed

lemma claim_control: "keeps_control d (fst (claim env d i session now))"
  unfolding claim_def by (auto split: sum.splits prod.splits intro: hold_control claim_commit_control)

lemma validate_receipt_Inr:
  assumes "validate_receipt body row = Inr receipt"
  shows "is_str body" and "\<exists>s. receipt_objects (str_of body) = [s] \<and> json_loads s = Some (PDict receipt)"
    and "py_get receipt ''outcome'' \<in> set RECEIPT_OUTCOMES" and "receipt_bound row receipt"
proof -
  from assms obtain v where v: "is_str body" "length (receipt_objects (str_of body)) = 1"
    "json_loads (hd (receipt_objects (str_of body))) = Some v" "is_dict v" "receipt = dict_of v"
    "py_get receipt ''outcome'' \<in> set RECEIPT_OUTCOMES" "receipt_bound row receipt"
    by (auto simp: validate_receipt_def branch_simps)
  from v(4,5) have "v = PDict receipt" by (cases v) simp_all
  moreover from v(2) obtain s where "receipt_objects (str_of body) = [s]" by (auto simp: length_Suc_conv)
  ultimately show "\<exists>s. receipt_objects (str_of body) = [s] \<and> json_loads s = Some (PDict receipt)" using v(3) by simp
  show "is_str body" "py_get receipt ''outcome'' \<in> set RECEIPT_OUTCOMES" "receipt_bound row receipt" by (rule v)+
qed

lemma finish_updates:
  assumes "ob_remote_receipt outbox \<noteq> None"
  shows "updates_rows (\<lambda>h. ho_id h = i \<and> ho_state h = ''CLAIMED'' \<and> ho_claimed_by h = Some c) (finish_row outbox receipt now)"
  using assms
  by (auto simp: updates_rows_def row_evolves_def row_ok_def hosted_reaches_def hosted_identity_def holds_rerun_target_def
      eligible_rerun_predecessor_def hosted_receipt_def finish_row_def)

lemma same_role_iff:
  "identities_role_equivalent catalog d left right = Inr True \<longleftrightarrow>
     (\<exists>role. historical_identity_role catalog d left = Inr (Some role) \<and> historical_identity_role catalog d right = Inr (Some role))"
  by (auto simp: identities_role_equivalent_def guard_simps split: if_splits)

lemma claimed_row_Inr:
  assumes "claimed_row env d i session = Inr (row, claimant)"
  shows "hosted_by_id d i = Some row" and "ho_state row = ''CLAIMED''" and "ho_claimed_by row = Some claimant"
    and "identities_role_equivalent (he_catalog env) d claimant session = Inr True"
    and "identities_role_equivalent (he_catalog env) d (ho_recipient_session_id row) session = Inr True"
  using assms by (auto simp: claimed_row_def guard_simps Let_def)

lemma hosted_session_Inr:
  "hosted_session env d session_id outbox_id = Inr session \<longleftrightarrow>
     identity_role (he_catalog env) d session_id = Inr (Some ''sre'') \<and> 0 < outbox_id \<and>
     canonicalize_coordination_identity (he_catalog env) d session_id = Inr session"
  by (auto simp: hosted_session_def guard_simps)

lemma complete_Inr:
  assumes "complete env d i session_id outbox_id now = Inr (d', ended)"
  obtains session row c outbox receipt where "claimed_row env d i session = Inr (row, c)" "outbox_of d outbox_id = Some outbox"
    "publishes_receipt outbox row" "validate_receipt (receipt_body outbox) row = Inr receipt"
    "hosted_operations d' = update_where (\<lambda>h. ho_id h = i \<and> ho_state h = ''CLAIMED'' \<and> ho_claimed_by h = Some c)
       (finish_row outbox receipt now) (hosted_operations d)"
    "hosted_frame d d'" "hosted_by_id d' i = Some ended" "hosted_session env d session_id outbox_id = Inr session"
proof -
  from assms obtain session row c outbox receipt e where c: "claimed_row env d i session = Inr (row, c)"
    "outbox_of d outbox_id = Some outbox" "publishes_receipt outbox row" "validate_receipt (receipt_body outbox) row = Inr receipt"
    "d' = append_event (fst e) (fst (snd e)) (snd (snd e)) now
      (d\<lparr>hosted_operations := update_where (\<lambda>h. ho_id h = i \<and> ho_state h = ''CLAIMED'' \<and> ho_claimed_by h = Some c)
         (finish_row outbox receipt now) (hosted_operations d)\<rparr>)" "hosted_by_id d' i = Some ended" "hosted_session env d session_id outbox_id = Inr session"
    unfolding complete_def by (auto simp: branch_simps)
  show thesis by (rule that [OF c(1-4) _ _ c(6,7)]) (simp_all add: c(5))
qed

lemma complete_control:
  assumes "complete env d i session_id outbox_id now = Inr (d', ended)"
  shows "keeps_control d d'"
proof -
  from assms obtain session row c outbox receipt where ok: "publishes_receipt outbox row"
    "hosted_operations d' = update_where (\<lambda>h. ho_id h = i \<and> ho_state h = ''CLAIMED'' \<and> ho_claimed_by h = Some c)
       (finish_row outbox receipt now) (hosted_operations d)" "hosted_frame d d'"
    by (rule complete_Inr)
  have up: "updates_rows (\<lambda>h. ho_id h = i \<and> ho_state h = ''CLAIMED'' \<and> ho_claimed_by h = Some c) (finish_row outbox receipt now)"
    by (rule finish_updates) (use ok(1) in \<open>simp add: publishes_receipt_def\<close>)
  show ?thesis
  proof (rule keeps_control_update [OF ok(2,3) up])
    assume "hosted_wf d"
    note units = hosted_wf_units [OF this]
    show "units_fit_limits d (update_where (\<lambda>h. ho_id h = i \<and> ho_state h = ''CLAIMED'' \<and> ho_claimed_by h = Some c)
       (finish_row outbox receipt now) (hosted_operations d))"
      by (intro units_fit_shrinking) (simp add: hosted_units_def finish_row_def units)
  qed
qed

lemma keeps_control_insert:
  assumes rows: "hosted_operations d' = hosted_operations d @ [h]" and frame: "hosted_frame d d'"
    and h: "row_ok h" "ho_id h = next_rowid ho_id (hosted_operations d)"
      "\<forall>r \<in> set (hosted_operations d). ho_idempotency_key r \<noteq> ho_idempotency_key h \<and>
        \<not> (holds_rerun_target r \<and> holds_rerun_target h \<and> same_rerun_target r h)"
    and fits: "ho_state h = ''PREPARED'' \<Longrightarrow> capacity_wf d \<Longrightarrow> hosted_wf d \<Longrightarrow>
      reserved_sre d (ho_repository h) + ho_sre_units h \<le> snd (snd (effective_limits d (ho_repository h)))"
    and "ho_state h \<noteq> ''CLAIMED''"
  shows "keeps_control d d'"
  unfolding keeps_control_def
proof (intro impI conjI)
  assume inv: "item_store_inv d \<and> hosted_wf d"
  then have ok: "hosted_rows_ok (hosted_operations d)" and wf: "hosted_wf d" "capacity_wf d"
    by (simp_all add: hosted_wf_def item_store_inv_def)
  show "item_store_inv d'"
  proof (rule hosted_frame_inv [OF inv [THEN conjunct1] wf(1) frame])
    show "units_fit_limits d (hosted_operations d')"
      using fits [OF _ wf(2,1)] wf(1) assms(7)
      by (auto simp: units_fit_limits_def rows hosted_units_def reserved_sre_units occupancy_def hosted_wf_def reserved_hosted_units)
  qed
  show "hosted_wf d'" using insert_row_ok [OF ok h] wf(1) frame by (simp add: hosted_wf_def rows hosted_frame_def table_installed_def)
  show "hosted_grows d d'" unfolding hosted_grows_def rows by (intro exI conjI, rule refl) (simp add: list_all2_same)
qed

lemma insert_hosted_Inr:
  assumes "insert_hosted request state now d = Inr (d', h)"
  shows "hosted_operations d' = hosted_operations d @ [h]" and "hosted_frame d d'"
    and "h = request\<lparr>ho_id := next_rowid ho_id (hosted_operations d), ho_state := state, ho_created_at := now, ho_updated_at := now\<rparr>"
    and "ho_sre_units request \<in> {0, 1}"
    and "\<forall>r \<in> set (hosted_operations d). ho_idempotency_key r \<noteq> ho_idempotency_key h \<and>
        \<not> (holds_rerun_target r \<and> holds_rerun_target h \<and> same_rerun_target r h)"
  using assms by (auto simp: insert_hosted_def branch_simps)

lemma reserve_hosted_Inr:
  assumes "reserve_hosted env Inr False request state now d = Inr (d', h)"
  obtains d1 where "insert_hosted request state now d1 = Inr (d', h)" "hosted_frame d d1" "hosted_operations d1 = hosted_operations d"
    "state = ''PREPARED'' \<Longrightarrow> capacity_wf d \<Longrightarrow> reserved_sre d (ho_repository request) + ho_sre_units request \<le>
      snd (snd (effective_limits d (ho_repository request)))"
    "list_all eligible_rerun_predecessor (rerun_predecessors d request)"
proof -
  from assms obtain d1 where d1: "list_all eligible_rerun_predecessor (rerun_predecessors d request)"
    "insert_hosted request state now d1 = Inr (d', h)"
    "(if state = ''PREPARED'' then bind_res (sre_limit env d (ho_repository request)) (\<lambda>(d', limit).
       guarded [(limit < reserved_sre d (ho_repository request) + ho_sre_units request, hosted_error ''HOSTED_SRE_CAPACITY_EXCEEDED'')]
         (Inr d')) else Inr d) = Inr d1"
    unfolding reserve_hosted_def by (auto simp: guard_simps Let_def)
  show thesis
  proof (cases "state = ''PREPARED''")
    case True
    with d1(3) obtain limit where "sre_limit env d (ho_repository request) = Inr (d1, limit)"
      "reserved_sre d (ho_repository request) + ho_sre_units request \<le> limit" by (auto simp: branch_simps)
    with sre_limit_Inr [OF this(1)] show ?thesis by (intro that [OF d1(2) _ _ _ d1(1)]) simp_all
  next
    case False
    with d1(3) have "d1 = d" by simp
    with False show ?thesis by (intro that [OF d1(2) _ _ _ d1(1)]) simp_all
  qed
qed

lemma requested_row_new:
  assumes "h = (requested_row t)\<lparr>ho_id := i, ho_state := state, ho_created_at := now, ho_updated_at := now\<rparr>"
    and "ho_sre_units (requested_row t) \<in> {0, 1}" and "state = ''PREPARED'' \<or> state = ''WAITING''"
  shows "row_ok h"
  using assms(3,2) by (elim disjE) (simp_all add: assms(1) row_ok_def requested_row_def hosted_receipt_def)

lemma reserve_hosted_control:
  assumes ok: "reserve_hosted env Inr False (requested_row t) state now d = Inr (d', h)"
    and state: "state = ''PREPARED'' \<or> state = ''WAITING''"
  shows "keeps_control d d'"
proof -
  obtain d1 where d1: "insert_hosted (requested_row t) state now d1 = Inr (d', h)" "hosted_frame d d1"
    "hosted_operations d1 = hosted_operations d"
    "state = ''PREPARED'' \<Longrightarrow> capacity_wf d \<Longrightarrow> reserved_sre d (ho_repository (requested_row t)) + ho_sre_units (requested_row t) \<le>
      snd (snd (effective_limits d (ho_repository (requested_row t))))"
    using reserve_hosted_Inr [OF ok] by blast
  note new = insert_hosted_Inr [OF d1(1), unfolded d1(3)]
  show ?thesis
  proof (rule keeps_control_insert [OF new(1) hosted_frame_trans [OF d1(2) new(2)] requested_row_new [OF new(3,4) state] _ new(5)])
    show "ho_id h = next_rowid ho_id (hosted_operations d)" "ho_state h \<noteq> ''CLAIMED''" using state by (auto simp: new(3))
    show "reserved_sre d (ho_repository h) + ho_sre_units h \<le> snd (snd (effective_limits d (ho_repository h)))"
      if "ho_state h = ''PREPARED''" "capacity_wf d"
      using d1(4) that by (simp add: new(3))
  qed
qed

text \<open>What a successful preparation has checked, and which of its two ends it took.\<close>

definition prepare_checks :: "hosted_env \<Rightarrow> db \<Rightarrow> pydict \<Rightarrow> pydict \<Rightarrow> pyval \<Rightarrow> pyval \<Rightarrow> bool \<Rightarrow> bool" where
  "prepare_checks env d given t comment scope fresh \<longleftrightarrow>
     canonical_transaction env d given = Inr t \<and> validate_transaction_shape (he_catalog env) t = Inr () \<and>
     validate_source d (py_get t ''repository'') (num_of (py_get t ''issue_number'')) (py_get t ''source_payload_sha256'') = Inr () \<and>
     validate_authority_snapshot t comment (digest_json comment) = Inr () \<and>
     validate_scope (py_get t ''scope'') (ho_provider (requested_row t)) (ho_target_kind (requested_row t))
       (ho_operation_kind (requested_row t)) (ho_target_key (requested_row t)) = Inr scope \<and>
     validate_approval_guard env d (ho_repository (requested_row t)) (ho_issue_number (requested_row t))
       (ho_operation_kind (requested_row t)) (hosted_scope_sha256 (requested_row t) scope)
       (ho_authority_comment_id (requested_row t)) fresh = Inr () \<and>
     row_evidence env d (requested_row t) scope = Inr ()"

definition initial_state :: "db \<Rightarrow> hosted_operation_row \<Rightarrow> string" where
  "initial_state d h = (if blocker_terminal d (ho_repository h) (ho_blocked_by_issue_number h) then ''PREPARED'' else ''WAITING'')"

lemma prepare_in_transaction_Inr:
  assumes "prepare_in_transaction env Inr \<lparr>po_retire_eligible_predecessors = False, po_require_prepared = req\<rparr> d given now comment
    (digest_json comment) = Inr (d', row)"
  obtains t scope h where "prepare_checks env d given t comment scope False"
      "hosted_by_key d (ho_idempotency_key (requested_row t)) = Some h" "exact_columns h = exact_columns (requested_row t)"
      "d' = d" "row = h"
  | t scope where "prepare_checks env d given t comment scope True"
      "hosted_by_key d (ho_idempotency_key (requested_row t)) = None"
      "reserve_hosted env Inr False (requested_row t) (initial_state d (requested_row t)) now d = Inr (d', row)"
proof -
  from assms obtain t scope where ok: "prepare_checks env d given t comment scope (hosted_by_key d (ho_idempotency_key (requested_row t)) = None)"
    and out: "(case hosted_by_key d (ho_idempotency_key (requested_row t)) of
           Some h \<Rightarrow> replay_hosted env Inr (requested_row t) h d
         | None \<Rightarrow> reserve_hosted env Inr False (requested_row t) (initial_state d (requested_row t)) now d) = Inr (d', row)"
    unfolding prepare_in_transaction_def prepare_checks_def initial_state_def prepare_options.select_convs
    by (auto simp: guard_simps Let_def)
  show thesis
  proof (cases "hosted_by_key d (ho_idempotency_key (requested_row t))")
    case None
    with ok out show ?thesis by (intro that(2)) simp_all
  next
    case (Some h)
    with out have "exact_columns h = exact_columns (requested_row t)" "d' = d" "row = h"
      by (auto simp: replay_hosted_def guard_simps)
    with Some ok show ?thesis by (intro that(1)) simp_all
  qed
qed

lemma keeps_control_cong:
  assumes "coordination_items d' = coordination_items d" and "hosted_operations d' = hosted_operations d"
    and "sqlite_master d' = sqlite_master d"
    and "coordination_capacity_policies d' = coordination_capacity_policies d"
    and "coordination_capacity_current d' = coordination_capacity_current d"
  shows "keeps_control d d'"
  using item_store_inv_cong [OF assms] assms(2,3)
  by (simp add: keeps_control_def hosted_wf_def table_installed_def hosted_grows_refl)

lemma prepare_control:
  assumes "prepare env d given now = Inr (d', row)"
  shows "keeps_control d d'"
proof -
  from assms obtain t comment e where e:
    "prepare_in_transaction env Inr \<lparr>po_retire_eligible_predecessors = False, po_require_prepared = False\<rparr>
      (d\<lparr>in_transaction := True\<rparr>) t now comment (digest_json comment) = Inr (e, row)" "d' = e\<lparr>in_transaction := False\<rparr>"
    unfolding prepare_def by (auto simp: guard_simps split_beta)
  have "keeps_control (d\<lparr>in_transaction := True\<rparr>) e"
    by (rule prepare_in_transaction_Inr [OF e(1)]) (simp, erule reserve_hosted_control, simp add: initial_state_def)
  moreover have "keeps_control d (d\<lparr>in_transaction := True\<rparr>)" "keeps_control e d'"
    by (rule keeps_control_cong; simp add: e(2))+
  ultimately show ?thesis by (blast intro: keeps_control_trans)
qed

subsection \<open>The clearance of a rerun\<close>

text \<open>
  \<open>clear_actions_rerun\<close> (hosted_operation_clearance.py) claims a decision of the approval ledger, prepares
  the operation with \<open>retire_eligible_predecessors\<close> and \<open>require_prepared\<close>, and acknowledges the decision,
  all in one transaction. Of the ledger's part only this is used: it writes no item, no hosted operation,
  no capacity policy and creates no table.
\<close>

definition spares_control :: "db \<Rightarrow> db \<Rightarrow> bool" where
  "spares_control d d' \<longleftrightarrow> coordination_items d' = coordination_items d \<and> hosted_operations d' = hosted_operations d \<and>
     sqlite_master d' = sqlite_master d \<and> coordination_capacity_policies d' = coordination_capacity_policies d \<and>
     coordination_capacity_current d' = coordination_capacity_current d"

lemma spares_control_keeps: "spares_control d d' \<Longrightarrow> keeps_control d d'"
  unfolding spares_control_def by (intro keeps_control_cong) simp_all

lemma spares_control_facts:
  assumes "spares_control d d'"
  shows "reserved_sre d' repo = reserved_sre d repo" and "hosted_frame d d'"
  using assms policy_tables_cong [of d' d]
  by (simp_all add: spares_control_def reserved_sre_def occupied_units_def reserved_items_def hosted_frame_def fun_eq_iff)

lemma retire_updates:
  "updates_rows (\<lambda>h. ho_id h = i \<and> eligible_rerun_predecessor h \<and> ho_retired_by_idempotency_key h = None)
     (\<lambda>h. h\<lparr>ho_retired_by_idempotency_key := Some key, ho_retired_at := Some now, ho_updated_at := now\<rparr>)"
  by (simp add: updates_rows_def row_evolves_def row_ok_def hosted_reaches_def hosted_identity_def holds_rerun_target_def
      eligible_rerun_predecessor_def hosted_receipt_def)

lemma reserved_sre_update:
  assumes "coordination_items d' = coordination_items d" and "hosted_operations d' = update_where hit f (hosted_operations d)"
    and "\<And>h. hosted_units repo (f h) = hosted_units repo h" and "table_installed d ''hosted_operations''" "sqlite_master d' = sqlite_master d"
  shows "reserved_sre d' repo = reserved_sre d repo"
proof -
  have "map (hosted_units repo) (hosted_operations d') = map (hosted_units repo) (hosted_operations d)"
    by (simp add: assms(2) update_where_def assms(3))
  then show ?thesis using assms(1,4,5)
    by (simp add: reserved_sre_units occupancy_def reserved_hosted_units occupied_units_def reserved_items_def table_installed_def)
qed

lemma retire_control:
  assumes "retire_predecessor key now p d = Inr d'"
  shows "keeps_control d d' \<and> hosted_frame d d' \<and> (hosted_wf d \<longrightarrow> reserved_sre d' repo = reserved_sre d repo)"
proof (cases "d' = d")
  case True
  then show ?thesis by (simp add: hosted_frame_def)
next
  case False
  let ?hit = "\<lambda>h. ho_id h = ho_id p \<and> eligible_rerun_predecessor h \<and> ho_retired_by_idempotency_key h = None"
  let ?f = "\<lambda>h. h\<lparr>ho_retired_by_idempotency_key := Some key, ho_retired_at := Some now, ho_updated_at := now\<rparr>"
  from assms False have rows: "hosted_operations d' = update_where ?hit ?f (hosted_operations d)" and frame: "hosted_frame d d'"
    by (auto simp: retire_predecessor_def guard_simps Let_def split: if_splits)
  have same: "hosted_units r (?f h) = hosted_units r h" for r h by (auto simp: hosted_units_def)
  have "keeps_control d d'"
    by (rule keeps_control_update [OF rows frame retire_updates]) (rule units_fit_shrinking, simp add: same)
  moreover have "reserved_sre d' repo = reserved_sre d repo" if "hosted_wf d"
    by (rule reserved_sre_update [OF _ rows same]) (use that frame in \<open>simp_all add: hosted_wf_def hosted_frame_def\<close>)
  ultimately show ?thesis using frame by blast
qed

lemma retire_all_control:
  assumes "fold_res (retire_predecessor key now) ps d = Inr d'" and "item_store_inv d" and "hosted_wf d"
  shows "keeps_control d d' \<and> hosted_frame d d' \<and> reserved_sre d' repo = reserved_sre d repo"
  using assms
proof (induction ps arbitrary: d)
  case Nil
  then show ?case by (simp add: hosted_frame_def)
next
  case (Cons p ps)
  from Cons.prems(1) obtain e where e: "retire_predecessor key now p d = Inr e" "fold_res (retire_predecessor key now) ps e = Inr d'"
    by (auto simp: guard_simps)
  note one = retire_control [OF e(1), of repo]
  then have inv: "item_store_inv e" "hosted_wf e" using Cons.prems(2,3) by (simp_all add: keeps_control_def)
  from Cons.IH [OF e(2) inv] one Cons.prems(3) show ?case
    by (auto intro: keeps_control_trans hosted_frame_trans)
qed

definition spares :: "(db \<Rightarrow> db res) \<Rightarrow> bool" where
  "spares before_apply \<longleftrightarrow> (\<forall>d d'. before_apply d = Inr d' \<longrightarrow> spares_control d d')"

lemma reserve_after_control:
  assumes ok: "reserve_hosted env before_apply retire (requested_row t) state now d = Inr (d', h)" and "spares before_apply"
    and state: "state = ''PREPARED'' \<or> state = ''WAITING''"
  shows "keeps_control d d'"
proof -
  let ?r = "requested_row t"
  from ok obtain d1 d2 d3 where d1: "(if state = ''PREPARED'' then bind_res (sre_limit env d (ho_repository ?r)) (\<lambda>(d', limit).
       guarded [(limit < reserved_sre d (ho_repository ?r) + ho_sre_units ?r, hosted_error ''HOSTED_SRE_CAPACITY_EXCEEDED'')]
         (Inr d')) else Inr d) = Inr d1"
    and d2: "before_apply d1 = Inr d2"
    and d3: "(if retire then fold_res (retire_predecessor (ho_idempotency_key ?r) now) (rerun_predecessors d ?r) d2 else Inr d2) = Inr d3"
    and new: "insert_hosted ?r state now d3 = Inr (d', h)"
    unfolding reserve_hosted_def by (auto simp: guard_simps Let_def)
  have limit: "hosted_frame d d1 \<and> hosted_operations d1 = hosted_operations d \<and> (state = ''PREPARED'' \<longrightarrow> capacity_wf d \<longrightarrow>
      reserved_sre d (ho_repository ?r) + ho_sre_units ?r \<le> snd (snd (effective_limits d (ho_repository ?r))))"
  proof (cases "state = ''PREPARED''")
    case True
    with d1 obtain limit where l: "sre_limit env d (ho_repository ?r) = Inr (d1, limit)"
      "reserved_sre d (ho_repository ?r) + ho_sre_units ?r \<le> limit" by (auto simp: branch_simps)
    with sre_limit_Inr [OF l(1)] show ?thesis by auto
  qed (use d1 in \<open>simp add: hosted_frame_def\<close>)
  have k1: "keeps_control d d1"
    by (rule keeps_control_update [where hit = "\<lambda>_. False" and f = id])
      (use limit in \<open>simp_all add: update_where_def updates_rows_def units_fit_limits_def\<close>)
  have s2: "spares_control d1 d2" using assms(2) d2 by (simp add: spares_def)
  show ?thesis
  proof (cases "item_store_inv d \<and> hosted_wf d")
    case False
    then show ?thesis by (auto simp: keeps_control_def)
  next
    case True
    then have inv1: "item_store_inv d1" "hosted_wf d1" using k1 by (simp_all add: keeps_control_def)
    then have inv2: "item_store_inv d2" "hosted_wf d2" using spares_control_keeps [OF s2] by (simp_all add: keeps_control_def)
    have k3: "keeps_control d2 d3 \<and> hosted_frame d2 d3 \<and> reserved_sre d3 (ho_repository ?r) = reserved_sre d2 (ho_repository ?r)"
      using d3 retire_all_control [OF _ inv2] by (cases retire) (auto simp: hosted_frame_def)
    have frame: "hosted_frame d d3" using limit spares_control_facts(2) [OF s2] k3 by (blast intro: hosted_frame_trans)
    have "reserved_sre d1 (ho_repository ?r) = reserved_sre d (ho_repository ?r)"
      using limit by (simp add: reserved_sre_def occupied_units_def reserved_items_def hosted_frame_def)
    with k3 spares_control_facts(1) [OF s2] have units: "reserved_sre d3 (ho_repository ?r) = reserved_sre d (ho_repository ?r)" by simp
    note ins = insert_hosted_Inr [OF new]
    have "keeps_control d3 d'"
    proof (rule keeps_control_insert [OF ins(1,2) requested_row_new [OF ins(3,4) state] _ ins(5)])
      show "ho_id h = next_rowid ho_id (hosted_operations d3)" "ho_state h \<noteq> ''CLAIMED''" using state by (auto simp: ins(3))
      show "reserved_sre d3 (ho_repository h) + ho_sre_units h \<le> snd (snd (effective_limits d3 (ho_repository h)))"
        if "ho_state h = ''PREPARED''"
        using limit that True frame by (simp add: ins(3) units item_store_inv_def hosted_frame_def)
    qed
    with k1 spares_control_keeps [OF s2] k3 show ?thesis by (blast intro: keeps_control_trans)
  qed
qed

lemma prepare_in_transaction_control:
  assumes "prepare_in_transaction env before_apply options d given now comment comment_sha256 = Inr (d', row)" and "spares before_apply"
  shows "keeps_control d d'"
proof -
  from assms(1) obtain t where "(case hosted_by_key d (ho_idempotency_key (requested_row t)) of
       Some h \<Rightarrow> replay_hosted env before_apply (requested_row t) h d
     | None \<Rightarrow> reserve_hosted env before_apply (po_retire_eligible_predecessors options) (requested_row t)
         (initial_state d (requested_row t)) now d) = Inr (d', row)"
    unfolding prepare_in_transaction_def initial_state_def by (auto simp: guard_simps Let_def)
  then consider h where "replay_hosted env before_apply (requested_row t) h d = Inr (d', row)"
    | "reserve_hosted env before_apply (po_retire_eligible_predecessors options) (requested_row t)
         (initial_state d (requested_row t)) now d = Inr (d', row)"
    by (auto split: option.splits)
  then show ?thesis
  proof cases
    case 1
    then have "before_apply d = Inr d'" by (auto simp: replay_hosted_def guard_simps)
    with assms(2) show ?thesis by (intro spares_control_keeps) (simp add: spares_def)
  next
    case 2
    then show ?thesis by (rule reserve_after_control [OF _ assms(2)]) (simp add: initial_state_def)
  qed
qed

lemma clearance_control:
  assumes "spares_control d e" and "spares before_apply"
    and "prepare_in_transaction env before_apply options (e\<lparr>in_transaction := True\<rparr>) given now comment comment_sha256 = Inr (e', row)"
  shows "keeps_control d (e'\<lparr>in_transaction := False\<rparr>)"
proof -
  have "spares_control d (e\<lparr>in_transaction := True\<rparr>)" using assms(1) by (simp add: spares_control_def)
  moreover have "keeps_control e' (e'\<lparr>in_transaction := False\<rparr>)" by (rule keeps_control_cong) simp_all
  ultimately show ?thesis
    using prepare_in_transaction_control [OF assms(3,2)] by (blast intro: keeps_control_trans spares_control_keeps)
qed

subsection \<open>Runs of both controls\<close>

text \<open>
  One transaction on the shared database: a status change, an issue plan or a change of the capacity policy
  on the side of the store; preparing, clearing, promoting, claiming, completing or holding on the side of
  the hosted operations. The transactions of \<open>refresh_waiting\<close> are \<open>holds\<close> and \<open>promotes\<close>, one per waiting
  row: other transactions may run between them, and the row a promotion goes by was read earlier, so that
  of it only what never changes, its \<open>hosted_identity\<close>, is assumed to be stored still. \<open>refreshes\<close> is an
  undisturbed pass. \<open>commit\<close> is the second half of a claim on its own, as it runs when other transactions
  came between the two halves.
\<close>

inductive control_step :: "hosted_env \<Rightarrow> db \<Rightarrow> db \<Rightarrow> bool" for env where
  status: "set_issue_status_locked catalog own g pend d q now = Inr (d', r) \<Longrightarrow> control_step env d d'"
| plan: "apply_issue_plan catalog d es now = Inr (d', rs) \<Longrightarrow> control_step env d d'"
| policy: "set_capacity_policy d p now = Inr (d', c) \<Longrightarrow> control_step env d d'"
| prepares: "prepare env d given now = Inr (d', row) \<Longrightarrow> control_step env d d'"
| clears: "\<not> in_transaction d \<Longrightarrow> spares_control d e \<Longrightarrow> spares before_apply \<Longrightarrow>
    prepare_in_transaction env before_apply \<lparr>po_retire_eligible_predecessors = True, po_require_prepared = True\<rparr>
      (e\<lparr>in_transaction := True\<rparr>) given now comment comment_sha256 = Inr (e', row) \<Longrightarrow>
    control_step env d (e'\<lparr>in_transaction := False\<rparr>)"
| promotes: "hosted_identity row \<in> hosted_identity ` set (hosted_operations d) \<Longrightarrow> promote_row env d row now = Inr (d', b) \<Longrightarrow>
    control_step env d d'"
| refreshes: "refresh_waiting env d now = (d', ids) \<Longrightarrow> control_step env d d'"
| claims: "claim env d i session now = (d', row) \<Longrightarrow> control_step env d d'"
| commit: "claim_commit env d i session now = Inr (d', out) \<Longrightarrow> control_step env d d'"
| completes: "complete env d i session outbox_id now = Inr (d', row) \<Longrightarrow> control_step env d d'"
| holds: "hold d i e now = Inr d' \<Longrightarrow> control_step env d d'"

lemma status_control:
  assumes "set_issue_status_locked catalog own g pend d q now = Inr (d', r)"
  shows "keeps_control d d'"
  unfolding keeps_control_def
proof (intro impI conjI)
  assume inv: "item_store_inv d \<and> hosted_wf d"
  then have wf: "capacity_wf d" by (simp add: item_store_inv_def)
  from set_issue_status_locked_Inr [OF assms] have "change_item catalog g pend d q now = Inr (d', r)" ..
  note t = change_item_tables(2,3) [OF this wf]
  show "item_store_inv d'" by (rule locked_inv [OF inv [THEN conjunct1] assms])
  show "hosted_wf d'" "hosted_grows d d'" using inv t by (simp_all add: hosted_wf_def table_installed_def hosted_grows_refl)
qed

lemma plan_control:
  assumes "apply_issue_plan catalog d es now = Inr (d', rs)"
  shows "keeps_control d d'"
proof -
  from assms obtain e where e: "fold_res (apply_entry catalog now) es (d, []) = Inr (e, rs)" "d' = log_plan_applied es now e"
    by (auto simp: apply_issue_plan_def guard_simps)
  have "keeps_control d e"
    by (rule plan_inv [where P = "keeps_control d", OF e(1)])
      (auto simp: set_issue_status_def intro: keeps_control_trans status_control)
  moreover have "keeps_control e d'" by (rule keeps_control_cong) (simp_all add: e(2) log_plan_applied_def)
  ultimately show ?thesis by (rule keeps_control_trans)
qed

lemma policy_control:
  assumes "set_capacity_policy d q now = Inr (d', p)"
  shows "keeps_control d d'"
  unfolding keeps_control_def
proof (intro impI)
  assume inv: "item_store_inv d \<and> hosted_wf d"
  then have i: "capacity_wf d" "items_wf d" "writers_exclusive d" "leases_unique d" "\<And>repo. capacity_respected d repo"
    by (simp_all add: item_store_inv_def)
  note facts = set_capacity_policy_facts [OF i(1) assms]
  note t = set_capacity_policy_tables [OF i(1) assms]
  have "capacity_respected d' repo" for repo using facts(4,6,7) i(5) by (simp add: capacity_respected_def)
  then have "item_store_inv d'" using i(2-4) facts(1) t(1)
    by (simp add: item_store_inv_def items_wf_def writers_exclusive_def leases_unique_def reserved_items_def)
  then show "item_store_inv d' \<and> hosted_wf d' \<and> hosted_grows d d'"
    using inv t by (simp add: hosted_wf_def table_installed_def hosted_grows_refl)
qed

lemma promotion_control:
  assumes "hosted_identity row \<in> hosted_identity ` set (hosted_operations d)" and "promote_row env d row now = Inr (d', b)"
  shows "keeps_control d d'"
proof (cases "hosted_rows_ok (hosted_operations d)")
  case True
  show ?thesis by (rule promote_row_control [OF assms(2) _ True]) (use assms(1) in auto)
qed (simp add: keeps_control_def hosted_wf_def)

lemma control_step_keeps: "control_step env d d' \<Longrightarrow> keeps_control d d'"
proof (induction rule: control_step.induct)
  case (clears d e before_apply given now comment comment_sha256 e' row)
  then show ?case by (intro clearance_control)
next
  case (promotes row d now d' b)
  then show ?case by (rule promotion_control)
next
  case (refreshes d now d' ids)
  with refresh_waiting_control [of d env now] show ?case by simp
next
  case (claims d i session now d' row)
  with claim_control [of d env i session now] show ?case by simp
qed (blast intro: status_control plan_control policy_control prepare_control claim_commit_control complete_control hold_control)+

lemma control_run_keeps: "(control_step env)\<^sup>*\<^sup>* d d' \<Longrightarrow> keeps_control d d'"
  by (induction rule: rtranclp_induct) (auto intro: keeps_control_trans control_step_keeps)


text \<open>
  C15: an operation has one life. Whatever the two controls do afterwards, an operation that was recorded
  stays recorded under its id with the same request, source, authority, scope and units; it moves only
  from waiting to prepared to claimed to complete, or to hold; who claimed it and the receipt it ended with
  are never replaced; and once complete its row does not change at all.
\<close>

theorem hosted_life_cycle:
  assumes "(control_step env)\<^sup>*\<^sup>* d d'" and "item_store_inv d" and "hosted_wf d" and "h \<in> set (hosted_operations d)"
  shows "\<exists>h' \<in> set (hosted_operations d'). hosted_identity h' = hosted_identity h \<and>
    hosted_reaches (ho_state h) (ho_state h') \<and> (ho_state h = ''COMPLETE'' \<longrightarrow> h' = h) \<and>
    (ho_claimed_by h \<noteq> None \<longrightarrow> ho_claimed_by h' = ho_claimed_by h) \<and>
    (hosted_receipt h \<noteq> (None, [None, None, None]) \<longrightarrow> hosted_receipt h' = hosted_receipt h) \<and>
    (\<forall>x \<in> set (hosted_operations d'). ho_id x = ho_id h \<longrightarrow> x = h')"
proof -
  from control_run_keeps [OF assms(1)] assms(2,3) have k: "hosted_wf d'" "hosted_grows d d'" by (simp_all add: keeps_control_def)
  from hosted_growsD [OF k(2) assms(4)] obtain h' where h': "h' \<in> set (hosted_operations d')" "row_evolves h h'" ..
  from h'(2) have ev: "hosted_identity h' = hosted_identity h" "hosted_reaches (ho_state h) (ho_state h')"
    "ho_state h = ''COMPLETE'' \<longrightarrow> h' = h" "ho_claimed_by h \<noteq> None \<longrightarrow> ho_claimed_by h' = ho_claimed_by h"
    "hosted_receipt h \<noteq> (None, [None, None, None]) \<longrightarrow> hosted_receipt h' = hosted_receipt h"
    unfolding row_evolves_def by blast+
  have "x = h'" if "x \<in> set (hosted_operations d')" "ho_id x = ho_id h" for x
    by (rule same_hosted_row [of "hosted_operations d'"])
      (use k(1) h'(1) that hosted_identity_fields(1) [OF ev(1)] in \<open>simp_all add: hosted_wf_def\<close>)
  with ev show ?thesis by (intro bexI [OF _ h'(1)]) simp
qed

subsection \<open>What a preparation, a claim and a completion have established\<close>

definition covers :: "db \<Rightarrow> hosted_operation_row \<Rightarrow> pyval \<Rightarrow> approval_match \<Rightarrow> bool" where
  "covers d h scope m \<longleftrightarrow> stored_match d m \<and> intact_proposal (mt_proposal m) \<and> user_chose m \<and>
     pr_repository (mt_proposal m) = ho_repository h \<and> pr_owning_issue (mt_proposal m) = ho_issue_number h \<and>
     ad_decision (mt_decision m) = ''APPROVE'' \<and> \<not> revoked d (mt_decision m) \<and>
     ad_execution_scope_sha256 (mt_decision m) = hosted_scope_sha256 h scope \<and> ob_state (mt_outbox m) = ''COMPLETE'' \<and>
     ob_remote_receipt (mt_outbox m) = Some (''comment:'' @ str_of_int (ho_authority_comment_id h))"

text \<open>
  The identity the approval of an operation has to be addressed to: the current SRE endpoint, or the legacy
  alias before there is one, in the spelling the proposals for the issue use. An operation is unaddressed
  if no current proposal for its issue is addressed to the role of that identity.
\<close>

definition sre_recipient :: "hosted_env \<Rightarrow> db \<Rightarrow> hosted_operation_row \<Rightarrow> string res" where
  "sre_recipient env d h =
     bind_res (current_endpoint d ''sre'') (\<lambda>endpoint.
       select_role_equivalent_identity (he_catalog env) d
         (case endpoint of Some e \<Rightarrow> ep_endpoint_id e | None \<Rightarrow> he_legacy_sre_alias env)
         (approval_recipients d (ho_repository h) (ho_issue_number h)))"

definition unaddressed :: "hosted_env \<Rightarrow> db \<Rightarrow> hosted_operation_row \<Rightarrow> bool" where
  "unaddressed env d h \<longleftrightarrow> (\<exists>recipient. sre_recipient env d h = Inr recipient \<and> (\<forall>c \<in> set (approval_current (approvals d)). \<forall>p \<in> set (approval_proposals (approvals d)).
     \<forall>i \<in> set (approval_interests (approvals d)).
     ac_proposal_sha256 c = pr_proposal_sha256 p \<and> pr_repository p = ho_repository h \<and> pr_owning_issue p = ho_issue_number h \<and>
     ai_proposal_sha256 i = pr_proposal_sha256 p \<longrightarrow>
     identities_role_equivalent (he_catalog env) d (ai_recipient_session_id i) recipient = Inr False))"

lemma covers_request:
  assumes "require_effective_approval catalog d (hosted_approval_request (ho_repository h) (ho_issue_number h) recipient
    (hosted_scope_sha256 h scope) (ho_authority_comment_id h) required) = Inr (Some m)"
  shows "covers d h scope m"
proof -
  note some = require_effective_approval_Some [OF assms]
  from some(3) obtain v2 where v2: "check_match catalog d (hosted_approval_request (ho_repository h) (ho_issue_number h) recipient
    (hosted_scope_sha256 h scope) (ho_authority_comment_id h) required) v2 m = Inr ()" ..
  note checked = check_match_Inr [OF v2] and mem = authority_matches_mem [OF some(1)]
  show ?thesis using mem checked
    by (simp add: covers_def concerns_def names_authority_def hosted_approval_request_def)
qed

lemma approval_guard_Inr:
  assumes "validate_approval_guard env d (ho_repository h) (ho_issue_number h) (ho_operation_kind h) (hosted_scope_sha256 h scope)
      (ho_authority_comment_id h) required = Inr ()"
    and "ho_operation_kind h \<in> set MUTATING_OPERATIONS"
  shows "(\<exists>m. covers d h scope m) \<or>
    (\<not> required \<and> (ledger_installed d \<longrightarrow> unaddressed env d h))"
proof -
  have caught: "approval_as_coordination r = Inr x \<longleftrightarrow> r = Inr x" for r :: "approval_match option res" and x
    by (cases r rule: approval_as_coordination.cases) simp_all
  from assms obtain recipient r where to: "sre_recipient env d h = Inr recipient" and r: "require_effective_approval (he_catalog env) d
      (hosted_approval_request (ho_repository h) (ho_issue_number h) recipient (hosted_scope_sha256 h scope)
        (ho_authority_comment_id h) required) = Inr r"
    unfolding validate_approval_guard_def sre_recipient_def by (auto simp: guard_simps Let_def caught)
  show ?thesis
  proof (cases r)
    case (Some m)
    with covers_request r show ?thesis by blast
  next
    case None
    note none = approval_not_bypassed [OF r [unfolded None]]
    have "unaddressed env d h" if "ledger_installed d"
      using none that to
      by (simp add: unaddressed_def concerns_def asks_for_def actor_of_def hosted_approval_request_def)
    with none show ?thesis by (auto simp: hosted_approval_request_def)
  qed
qed

lemma validate_persisted_Inr:
  "validate_persisted_operation env d h = Inr scope \<Longrightarrow>
     validate_scope (the (ho_scope_json h)) (ho_provider h) (ho_target_kind h) (ho_operation_kind h) (ho_target_key h) = Inr scope \<and>
     digest_json scope = ho_scope_sha256 h"
  by (auto simp: validate_persisted_operation_def guard_simps)

lemma row_source_Inr:
  "row_source d h = Inr () \<Longrightarrow> \<exists>c p. current_snapshot d (ho_repository h) ''issue'' (ho_issue_number h) = Inr (Some (c, p)) \<and>
     gc_payload_sha256 c = ho_source_payload_sha256 h"
  by (auto simp: row_source_def validate_source_def source_drifts_def guard_simps split: option.splits)

lemma covers_flag [simp]: "covers (d\<lparr>in_transaction := b\<rparr>) = covers d"
  by (simp add: fun_eq_iff covers_def stored_match_def revoked_def)

lemma flag_reset: "\<not> in_transaction d \<Longrightarrow> d\<lparr>in_transaction := True, in_transaction := False\<rparr> = d"
  by (cases d) simp

lemma fetch_authority_comment_Inr:
  "fetch_authority_comment env repo n i = Inr comment \<Longrightarrow> he_gh_comment env repo i = Some (Some comment)"
  by (auto simp: fetch_authority_comment_def guard_simps)

lemma prepare_Inr:
  assumes "prepare env d given now = Inr (d', row)"
  obtains given' comment e where "\<not> in_transaction d"
    "he_gh_comment env (str_of (py_get given' ''repository'')) (py_get given' ''authority_comment_id'') = Some (Some comment)"
    "canonical_transaction env d given = Inr given'"
    "prepare_in_transaction env Inr \<lparr>po_retire_eligible_predecessors = False, po_require_prepared = False\<rparr>
      (d\<lparr>in_transaction := True\<rparr>) given' now comment (digest_json comment) = Inr (e, row)" "d' = e\<lparr>in_transaction := False\<rparr>"
  using assms unfolding prepare_def by (auto simp: guard_simps split_beta dest!: fetch_authority_comment_Inr)

lemma blocker_flag [simp]: "initial_state (d\<lparr>in_transaction := b\<rparr>) = initial_state d"
  by (simp add: fun_eq_iff initial_state_def blocker_terminal_def item_of_def split: option.split)

lemma canonical_twice:
  assumes "canonical_transaction env d given = Inr t" and "canonical_transaction env d2 t = Inr u"
  shows "u = t"
proof -
  from assms(1) obtain s where t: "t = AList.update ''recipient_session_id'' (PStr s) given"
    unfolding canonical_transaction_def by (auto simp: guard_simps Let_def)
  have mem: "map_of t ''recipient_session_id'' = Some (PStr s)" by (simp add: t update_conv')
  then have "has_key t ''recipient_session_id''" "py_get t ''recipient_session_id'' = PStr s"
    by (auto simp: has_key_def py_get_def intro: rev_image_eqI dest!: map_of_SomeD)
  with assms(2) obtain s' where "canonicalize_coordination_identity (he_catalog env) d2 s = Inr s'"
    "u = AList.update ''recipient_session_id'' (PStr s') t"
    unfolding canonical_transaction_def by (auto simp: guard_simps Let_def)
  with canonicalize_Inr(1) [OF this(1)] update_triv [OF mem] show ?thesis by simp
qed

text \<open>
  C14: preparing is authorised and idempotent. A successful preparation answers the transaction with a row
  for exactly its request, its scope accepted and its authority comment read from GitHub with the digest
  the transaction states. Either the idempotency key was on record: then the row is the recorded one and
  nothing changed. Or one row was appended, prepared if the blocking issue is finished and waiting
  otherwise; and if the operation mutates something, the user approved exactly this scope for this issue,
  the decision is published as the authority comment the request names, and it is not revoked.
\<close>

theorem prepare_authorised:
  assumes "prepare env d given now = Inr (d', row)"
  shows "\<exists>t comment scope. canonical_transaction env d given = Inr t \<and>
    validate_scope (py_get t ''scope'') (ho_provider row) (ho_target_kind row) (ho_operation_kind row) (ho_target_key row) = Inr scope \<and>
    he_gh_comment env (ho_repository row) (py_get t ''authority_comment_id'') = Some (Some comment) \<and>
    sha256_hex (str_of (py_get (dict_of comment) ''body'')) = ho_authority_body_sha256 row \<and>
    ho_idempotency_key row = str_of (py_get t ''idempotency_key'') \<and> exact_columns row = exact_columns (requested_row t) \<and>
    (d' = d \<and> row \<in> set (hosted_operations d) \<or>
     hosted_by_key d (ho_idempotency_key row) = None \<and> hosted_operations d' = hosted_operations d @ [row] \<and>
     coordination_items d' = coordination_items d \<and> ho_state row = initial_state d row \<and>
     (ho_operation_kind row \<in> set MUTATING_OPERATIONS \<longrightarrow> (\<exists>m. covers d row scope m)))"
proof -
  from assms obtain t comment e where p: "\<not> in_transaction d"
    "he_gh_comment env (str_of (py_get t ''repository'')) (py_get t ''authority_comment_id'') = Some (Some comment)"
    "canonical_transaction env d given = Inr t"
    "prepare_in_transaction env Inr \<lparr>po_retire_eligible_predecessors = False, po_require_prepared = False\<rparr>
      (d\<lparr>in_transaction := True\<rparr>) t now comment (digest_json comment) = Inr (e, row)" "d' = e\<lparr>in_transaction := False\<rparr>"
    by (rule prepare_Inr)
  let ?d = "d\<lparr>in_transaction := True\<rparr>" and ?r = "requested_row t"
  have same_t: "u = t" if "prepare_checks env ?d t u comment scope fresh" for u scope fresh
    by (rule canonical_twice [OF p(3), of ?d]) (use that in \<open>simp add: prepare_checks_def\<close>)
  have body: "sha256_hex (str_of (py_get (dict_of comment) ''body'')) = ho_authority_body_sha256 ?r"
    if "prepare_checks env ?d t u comment scope fresh" for u scope fresh
  proof -
    from that same_t [OF that] have "validate_authority_snapshot t comment (digest_json comment) = Inr ()" by (simp add: prepare_checks_def)
    then have "py_get t ''authority_body_sha256'' = PStr (sha256_hex (str_of (py_get (dict_of comment) ''body'')))"
      unfolding validate_authority_snapshot_def by (auto simp: guard_simps)
    then show ?thesis by (simp add: requested_row_def)
  qed
  have repo: "ho_repository ?r = str_of (py_get t ''repository'')" by (simp add: requested_row_def)
  from p(4) show ?thesis
  proof (cases rule: prepare_in_transaction_Inr)
    case (1 u scope h)
    note u = same_t [OF 1(1)]
    have h: "h \<in> set (hosted_operations d)" "ho_idempotency_key h = ho_idempotency_key ?r"
      using 1(2) u by (auto simp: hosted_by_key_def dest: find_SomeD)
    have same: "exact_columns h = exact_columns ?r" using 1(3) u by simp
    then have cols: "ho_provider h = ho_provider ?r" "ho_target_kind h = ho_target_kind ?r" "ho_operation_kind h = ho_operation_kind ?r"
      "ho_target_key h = ho_target_key ?r" "ho_authority_body_sha256 h = ho_authority_body_sha256 ?r" "ho_repository h = ho_repository ?r"
      by (simp_all add: exact_columns_def)
    have "d' = d" using p(1,5) 1(4) flag_reset by simp
    with h same p(2,3) body [OF 1(1)] 1(1,5) u show ?thesis
      by (intro exI [of _ t] exI [of _ comment] exI [of _ scope])
        (simp add: prepare_checks_def cols repo requested_row_def)
  next
    case (2 u scope)
    note u = same_t [OF 2(1)]
    from 2(3) u obtain d1 where d1: "insert_hosted ?r (initial_state ?d ?r) now d1 = Inr (e, row)" "hosted_frame ?d d1"
      "hosted_operations d1 = hosted_operations ?d" using reserve_hosted_Inr by metis
    note new = insert_hosted_Inr [OF d1(1), unfolded d1(3)]
    have cols: "exact_columns row = exact_columns ?r" "ho_idempotency_key row = ho_idempotency_key ?r" "ho_provider row = ho_provider ?r"
      "ho_target_kind row = ho_target_kind ?r" "ho_operation_kind row = ho_operation_kind ?r" "ho_target_key row = ho_target_key ?r"
      "ho_authority_body_sha256 row = ho_authority_body_sha256 ?r" "ho_repository row = ho_repository ?r"
      "ho_state row = initial_state d row"
      by (simp_all add: new(3) exact_columns_def initial_state_def)
    have cover: "covers ?d x scope = covers ?d ?r scope" if "x = row" for x
      by (simp add: that new(3) covers_def hosted_scope_sha256_def fun_eq_iff)
    have "\<exists>m. covers d row scope m" if "ho_operation_kind row \<in> set MUTATING_OPERATIONS"
      using approval_guard_Inr [of env ?d ?r scope True] 2(1) u cover that cols(5) by (auto simp: prepare_checks_def)
    moreover have "coordination_items d' = coordination_items d" "hosted_operations d' = hosted_operations d @ [row]"
      using d1(2) new(1,2) p(5) by (simp_all add: hosted_frame_def)
    moreover have "hosted_by_key d (ho_idempotency_key row) = None" using 2(2) u cols(2) by (simp add: hosted_by_key_def)
    ultimately show ?thesis using p(2,3) body [OF 2(1)] 2(1) u
      by (intro exI [of _ t] exI [of _ comment] exI [of _ scope]) (simp add: prepare_checks_def cols repo requested_row_def)
  qed
qed

lemma sre_limit_db:
  "sre_limit env d repo = Inr (d1, limit) \<Longrightarrow>
     \<exists>p c. d1 = d\<lparr>coordination_capacity_policies := p, coordination_capacity_current := c\<rparr>"
  unfolding sre_limit_def store_capacity_policy_def ensure_capacity_policy_def install_default_policy_def
  by (cases d) (auto simp: guard_simps Let_def split: option.splits)

lemma approval_policy_cong:
  assumes e_def: "e = d\<lparr>coordination_capacity_policies := p, coordination_capacity_current := c\<rparr>"
  shows "covers e = covers d" and "ledger_installed e = ledger_installed d" and "unaddressed env e = unaddressed env d"
proof -
  show "covers e = covers d" by (simp add: e_def fun_eq_iff covers_def stored_match_def revoked_def)
  show "ledger_installed e = ledger_installed d" by (simp add: e_def ledger_installed_def list_all_iff table_installed_def)
  have ir: "identity_role (he_catalog env) e = identity_role (he_catalog env) d" by (rule identity_role_cong) (simp_all add: e_def)
  have tables: "executor_role_endpoint_aliases e = executor_role_endpoint_aliases d" "table_installed e = table_installed d"
    by (simp_all add: e_def fun_eq_iff table_installed_def)
  with ir have hist: "historical_identity_role (he_catalog env) e = historical_identity_role (he_catalog env) d"
    by (intro ext) (simp only: historical_identity_role_def)
  then have same: "identities_role_equivalent (he_catalog env) e = identities_role_equivalent (he_catalog env) d"
    by (intro ext) (simp only: identities_role_equivalent_def)
  have "registry_cutover_complete e = registry_cutover_complete d" "pointer_set_incomplete e = pointer_set_incomplete d"
    by (simp_all add: e_def registry_cutover_complete_def pointer_set_incomplete_def table_installed_def endpoint_of_def)
  moreover have "executor_role_endpoint_current e = executor_role_endpoint_current d" "endpoint_of e = endpoint_of d"
    by (simp_all add: e_def fun_eq_iff endpoint_of_def)
  ultimately have cur: "current_endpoint e = current_endpoint d"
    by (intro ext) (simp only: current_endpoint_def require_complete_current_pointer_set_def)
  with hist have "canonical_endpoint_id (he_catalog env) e = canonical_endpoint_id (he_catalog env) d"
    by (intro ext) (simp only: canonical_endpoint_id_def)
  with hist same have "select_role_equivalent_identity (he_catalog env) e = select_role_equivalent_identity (he_catalog env) d"
    by (intro ext) (simp only: select_role_equivalent_identity_def)
  moreover have "approvals e = approvals d" by (simp add: e_def)
  with tables(2) have "approval_recipients e = approval_recipients d" by (intro ext) (simp only: approval_recipients_def)
  ultimately have "sre_recipient env e = sre_recipient env d"
    using cur by (intro ext) (simp only: sre_recipient_def)
  with same show "unaddressed env e = unaddressed env d" by (simp add: fun_eq_iff unaddressed_def e_def)
qed

text \<open>
  C9: a claim rests on the database as it stands when it commits, whatever happened since the claim was
  checked. The claimed row was prepared and only its state, claimant and time change; its scope still has
  the digest on record and is still acceptable; its source is the current snapshot of the issue; the blocking
  issue is finished; the SRE units in use are within the policy; and if the operation mutates something and an
  approval ledger is installed, the user's approval of exactly this scope stands, unless no current proposal
  for the issue is addressed to the SRE role at all.
\<close>

theorem claim_revalidated:
  assumes "claim_commit env d i session now = Inr (d', Inr row)" and "capacity_wf d"
  shows "\<exists>h scope. h \<in> set (hosted_operations d) \<and> ho_id h = i \<and> ho_state h = ''PREPARED'' \<and>
    row = h\<lparr>ho_state := ''CLAIMED'', ho_claimed_by := Some session, ho_updated_at := now\<rparr> \<and> row \<in> set (hosted_operations d') \<and>
    validate_scope (the (ho_scope_json h)) (ho_provider h) (ho_target_kind h) (ho_operation_kind h) (ho_target_key h) = Inr scope \<and>
    digest_json scope = ho_scope_sha256 h \<and>
    (\<exists>c p. current_snapshot d (ho_repository h) ''issue'' (ho_issue_number h) = Inr (Some (c, p)) \<and>
       gc_payload_sha256 c = ho_source_payload_sha256 h) \<and>
    blocker_terminal d (ho_repository h) (ho_blocked_by_issue_number h) \<and>
    reserved_sre d (ho_repository h) \<le> snd (snd (effective_limits d (ho_repository h))) \<and>
    (ho_operation_kind h \<in> set MUTATING_OPERATIONS \<and> ledger_installed d \<longrightarrow>
       (\<exists>m. covers d h scope m) \<or> unaddressed env d h)"
proof -
  from assms(1) obtain h d1 where h: "hosted_by_id d i = Some h" "ho_state h = ''PREPARED''"
    and v: "validate_claim_local_state env d h = (d1, Inr ())"
    and row: "hosted_by_id (mark_claimed i session now d1) i = Some row" "d' = mark_claimed i session now d1"
  proof -
    have caught: "caught r = Inr (Inr u) \<Longrightarrow> r = Inr u" for r :: "unit res" and u
      by (cases r rule: caught.cases) simp_all
    from assms(1) show thesis unfolding claim_commit_def
      by (auto simp: branch_simps dest!: caught intro!: that) (metis prod.collapse)
  qed
  from v obtain scope limit where s: "claim_evidence env d h = Inr scope" "sre_limit env d (ho_repository h) = Inr (d1, limit)"
    "reserved_sre d (ho_repository h) \<le> limit" "row_approval env d1 h scope = Inr ()"
    unfolding validate_claim_local_state_def by (auto simp: guard_simps split: sum.splits)
  from s(1) have e: "validate_persisted_operation env d h = Inr scope" "row_source d h = Inr ()"
    "blocker_terminal d (ho_repository h) (ho_blocked_by_issue_number h)"
    by (auto simp: claim_evidence_def require_blocker_terminal_def guard_simps)
  note lim = sre_limit_Inr [OF s(2)]
  from sre_limit_db [OF s(2)] obtain p c where d1: "d1 = d\<lparr>coordination_capacity_policies := p, coordination_capacity_current := c\<rparr>"
    by blast
  note cong = approval_policy_cong [OF d1]
  have "(\<exists>m. covers d h scope m) \<or> unaddressed env d h"
    if "ho_operation_kind h \<in> set MUTATING_OPERATIONS" "ledger_installed d"
    using approval_guard_Inr [OF s(4) [unfolded row_approval_def] that(1)] that(2) unfolding cong by blast
  moreover have "row = h\<lparr>ho_state := ''CLAIMED'', ho_claimed_by := Some session, ho_updated_at := now\<rparr>"
    using row(1) h hosted_by_id_Some [OF h(1)]
    by (auto simp: hosted_by_id_def mark_claimed_def lim(2) find_update_where)
  ultimately show ?thesis
    using hosted_by_id_Some [OF h(1)] hosted_by_id_Some [OF row(1)] h(2) row(2) validate_persisted_Inr [OF e(1)]
      row_source_Inr [OF e(2)] e(3) s(3) lim(3) [OF assms(2)]
    by (intro exI [of _ h] exI [of _ scope]) simp
qed

text \<open>
  C10: an operation ends with a published receipt, by its claimant. Completing needs an operation that is
  claimed, a caller in the SRE role whose canonical session has the role of the session on record as the
  claimant and of the operation's recipient, and a GitHub comment on its issue that went out with a remote
  receipt and whose body carries exactly one receipt object, bound to the operation, its key, its target and
  its scope digest. The row takes over that receipt and keeps its claimant; it is complete if and only if
  the receipt reports success with a passed verification, and on hold otherwise; every other operation is
  left as it was.
\<close>

theorem completion_receipted:
  assumes "complete env d i session_id outbox_id now = Inr (d', ended)"
  shows "\<exists>row outbox s receipt session claimant role. row \<in> set (hosted_operations d) \<and> ho_id row = i \<and> ho_state row = ''CLAIMED'' \<and>
    identity_role (he_catalog env) d session_id = Inr (Some ''sre'') \<and>
    canonicalize_coordination_identity (he_catalog env) d session_id = Inr session \<and>
    historical_identity_role (he_catalog env) d session = Inr (Some role) \<and>
    ho_claimed_by row = Some claimant \<and> historical_identity_role (he_catalog env) d claimant = Inr (Some role) \<and>
    historical_identity_role (he_catalog env) d (ho_recipient_session_id row) = Inr (Some role) \<and>
    outbox_of d outbox_id = Some outbox \<and> publishes_receipt outbox row \<and>
    receipt_objects (str_of (receipt_body outbox)) = [s] \<and> json_loads s = Some (PDict receipt) \<and> receipt_bound row receipt \<and>
    ended \<in> set (hosted_operations d') \<and> hosted_identity ended = hosted_identity row \<and> ho_claimed_by ended = Some claimant \<and>
    ho_state ended = (if py_get receipt ''outcome'' = PStr ''SUCCESS'' then ''COMPLETE'' else ''HOLD'') \<and>
    (ho_state ended = ''COMPLETE'' \<longrightarrow> py_get receipt ''verification'' = PStr ''PASS'') \<and>
    ho_receipt_payload_sha256 ended = Some (digest_json (PDict receipt)) \<and> ho_remote_receipt ended = ob_remote_receipt outbox \<and>
    filter (\<lambda>h. ho_id h \<noteq> i) (hosted_operations d') = filter (\<lambda>h. ho_id h \<noteq> i) (hosted_operations d)"
proof -
  from assms obtain session row c outbox receipt where ok: "claimed_row env d i session = Inr (row, c)"
    "outbox_of d outbox_id = Some outbox" "publishes_receipt outbox row" "validate_receipt (receipt_body outbox) row = Inr receipt"
    "hosted_operations d' = update_where (\<lambda>h. ho_id h = i \<and> ho_state h = ''CLAIMED'' \<and> ho_claimed_by h = Some c)
       (finish_row outbox receipt now) (hosted_operations d)" "hosted_by_id d' i = Some ended"
    "hosted_session env d session_id outbox_id = Inr session"
    by (rule complete_Inr)
  note row = claimed_row_Inr [OF ok(1)]
  from row(4,5) obtain role where role: "historical_identity_role (he_catalog env) d session = Inr (Some role)"
    "historical_identity_role (he_catalog env) d c = Inr (Some role)"
    "historical_identity_role (he_catalog env) d (ho_recipient_session_id row) = Inr (Some role)"
    unfolding same_role_iff by auto
  have caller: "identity_role (he_catalog env) d session_id = Inr (Some ''sre'')"
    "canonicalize_coordination_identity (he_catalog env) d session_id = Inr session"
    using ok(7) by (simp_all add: hosted_session_Inr)
  note receipt = validate_receipt_Inr [OF ok(4)]
  have outcome: "receipt_outcome receipt = ''SUCCESS'' \<longleftrightarrow> py_get receipt ''outcome'' = PStr ''SUCCESS''"
    using receipt(3) by (auto simp: RECEIPT_OUTCOMES_def receipt_outcome_def)
  have ended: "ended = finish_row outbox receipt now row"
    using ok(6) row hosted_by_id_Some [OF row(1)]
    by (auto simp: hosted_by_id_def ok(5) find_update_where finish_row_def)
  have others: "filter (\<lambda>h. ho_id h \<noteq> i) (hosted_operations d') = filter (\<lambda>h. ho_id h \<noteq> i) (hosted_operations d)"
    unfolding ok(5) by (rule filter_update_where_other) (simp_all add: finish_row_def)
  have "py_get receipt ''verification'' = PStr ''PASS''" if "ho_state ended = ''COMPLETE''"
    using receipt(4) that outcome by (auto simp: receipt_bound_def expected_verification_def ended finish_row_def split: if_splits)
  moreover from receipt(2) obtain s where "receipt_objects (str_of (receipt_body outbox)) = [s]" "json_loads s = Some (PDict receipt)"
    by blast
  ultimately show ?thesis
    using hosted_by_id_Some [OF row(1)] hosted_by_id_Some [OF ok(6)] row(2,3) role caller ok(2,3) receipt(4) others outcome
    by (intro exI [of _ row] exI [of _ outbox] exI [of _ s] exI [of _ receipt] exI [of _ session] exI [of _ c] exI [of _ role])
      (simp add: ended finish_row_def hosted_identity_def)
qed

subsection \<open>An inventory from request to receipt\<close>

definition inventory_env :: hosted_env where
  "inventory_env = \<lparr>he_catalog = example_catalog, he_legacy_sre_alias = ''sre'', he_utc_now = ''t1'',
     he_gh_comment = (\<lambda>repository comment_id. Some (Some (PDict [(''id'', PInt 9), (''body'', PStr ''go''),
       (''issue_url'', PStr ''https://api.github.com/repos/o/r/issues/1'')])))\<rparr>"

definition inventory_scope :: pyval where
  "inventory_scope = PDict [(''target'', PDict [(''project_id'', PStr ''p''), (''region'', PStr ''eu'')]),
     (''expected_state'', PDict [(''status'', PStr ''ACTIVE''), (''project_fingerprint'', PStr ''f'')]),
     (''desired_state'', PDict [(''metadata_categories'', PList [PStr ''rls'']), (''read_only'', PBool True)]),
     (''exclusions'', PList [PStr ''data'']), (''stop_conditions'', PList [PStr ''drift''])]"

definition issue_sha :: string where
  "issue_sha = replicate 64 (CHR ''a'')"

definition inventory_request :: "string \<Rightarrow> pyval \<Rightarrow> pydict" where
  "inventory_request body_sha scope = [(''idempotency_key'', PStr ''k''), (''repository'', PStr ''o/r''), (''issue_number'', PInt 1),
     (''source_payload_sha256'', PStr issue_sha), (''provider'', PStr ''supabase''),
     (''target_kind'', PStr ''supabase_project_inventory''), (''target_key'', PStr ''p''),
     (''operation_kind'', PStr ''READ_METADATA''), (''authority_comment_id'', PInt 9),
     (''authority_body_sha256'', PStr body_sha), (''recipient_session_id'', PStr ''role.sre.v1''),
     (''sre_units'', PInt 0), (''blocked_by_issue_number'', PNone), (''scope'', scope)]"

abbreviation requested_inventory :: pydict where
  "requested_inventory \<equiv> inventory_request (sha256_hex ''go'') inventory_scope"

definition hosted_db :: db where
  "hosted_db = example_item_db\<lparr>sqlite_master := sqlite_master example_item_db @ [''hosted_operations'']\<rparr>"

definition inventory_row :: "string \<Rightarrow> string option \<Rightarrow> hosted_operation_row" where
  "inventory_row state claimed_by = (requested_row requested_inventory)\<lparr>ho_id := 1, ho_state := state, ho_claimed_by := claimed_by,
     ho_created_at := ''t1'', ho_updated_at := ''t1''\<rparr>"

lemma inventory_items [simp]:
  "py_get (inventory_request b s) ''idempotency_key'' = PStr ''k''" "py_get (inventory_request b s) ''repository'' = PStr ''o/r''"
  "py_get (inventory_request b s) ''issue_number'' = PInt 1" "py_get (inventory_request b s) ''source_payload_sha256'' = PStr issue_sha"
  "py_get (inventory_request b s) ''provider'' = PStr ''supabase''"
  "py_get (inventory_request b s) ''target_kind'' = PStr ''supabase_project_inventory''"
  "py_get (inventory_request b s) ''target_key'' = PStr ''p''" "py_get (inventory_request b s) ''operation_kind'' = PStr ''READ_METADATA''"
  "py_get (inventory_request b s) ''authority_comment_id'' = PInt 9" "py_get (inventory_request b s) ''authority_body_sha256'' = PStr b"
  "py_get (inventory_request b s) ''recipient_session_id'' = PStr ''role.sre.v1''" "py_get (inventory_request b s) ''sre_units'' = PInt 0"
  "py_get (inventory_request b s) ''blocked_by_issue_number'' = PNone" "py_get (inventory_request b s) ''scope'' = s"
  unfolding issue_sha_def by code_simp+

lemma inventory_row_simps [simp]:
  "ho_id (inventory_row st cl) = 1" "ho_state (inventory_row st cl) = st" "ho_claimed_by (inventory_row st cl) = cl"
  "ho_idempotency_key (inventory_row st cl) = ''k''" "ho_repository (inventory_row st cl) = ''o/r''"
  "ho_issue_number (inventory_row st cl) = 1" "ho_source_payload_sha256 (inventory_row st cl) = issue_sha"
  "ho_provider (inventory_row st cl) = ''supabase''" "ho_target_kind (inventory_row st cl) = ''supabase_project_inventory''"
  "ho_target_key (inventory_row st cl) = ''p''" "ho_operation_kind (inventory_row st cl) = ''READ_METADATA''"
  "ho_authority_body_sha256 (inventory_row st cl) = sha256_hex ''go''" "ho_scope_sha256 (inventory_row st cl) = digest_json inventory_scope"
  "ho_scope_json (inventory_row st cl) = Some inventory_scope" "ho_recipient_session_id (inventory_row st cl) = ''role.sre.v1''"
  "ho_sre_units (inventory_row st cl) = 0" "ho_blocked_by_issue_number (inventory_row st cl) = None"
  "hosted_receipt (inventory_row st cl) = (None, [None, None, None])"
  by (simp_all add: inventory_row_def requested_row_def hosted_receipt_def)

definition operation_db :: "string \<Rightarrow> string option \<Rightarrow> db" where
  "operation_db state claimed_by = hosted_db\<lparr>hosted_operations := [inventory_row state claimed_by]\<rparr>"

lemma operation_db_fields [simp]:
  "hosted_operations (operation_db st cl) = [inventory_row st cl]" "coordination_items (operation_db st cl) = []"
  "coordination_capacity_policies (operation_db st cl) = []" "coordination_capacity_current (operation_db st cl) = []"
  "in_transaction (operation_db st cl) = False" "table_installed (operation_db st cl) ''hosted_operations''"
  by (simp_all add: operation_db_def hosted_db_def example_item_db_tables table_installed_def)
    (simp add: example_item_db_def registry_db_def empty_db_def)

lemma operation_db_inv:
  assumes "row_ok (inventory_row st cl)"
  shows "item_store_inv (operation_db st cl)" and "hosted_wf (operation_db st cl)" and "capacity_wf (operation_db st cl)"
proof -
  show wf: "capacity_wf (operation_db st cl)" by (simp add: capacity_wf_def)
  have "capacity_respected (operation_db st cl) repo" for repo
    by (simp add: capacity_respected_def within_def occupancy_def effective_limits_def current_policy_def
        occupied_units_def reserved_items_def reserved_hosted_units hosted_units_def DEFAULT_CAPACITY_LIMITS_def)
  with wf show "item_store_inv (operation_db st cl)"
    by (simp add: item_store_inv_def items_wf_def writers_exclusive_def leases_unique_def reserved_items_def)
  show "hosted_wf (operation_db st cl)" using assms by (simp add: hosted_wf_def hosted_rows_ok_def reruns_exclusive_def)
qed

lemma inventory_ok: "row_ok (inventory_row ''PREPARED'' None)" "row_ok (inventory_row ''CLAIMED'' (Some s))"
  by (simp_all add: row_ok_def)

lemma inventory_scope_valid:
  "validate_scope inventory_scope ''supabase'' ''supabase_project_inventory'' ''READ_METADATA'' ''p'' = Inr inventory_scope"
  by code_simp

lemma inventory_not_mutating: "''READ_METADATA'' \<notin> set MUTATING_OPERATIONS"
  by code_simp

lemma endpoint_cong:
  assumes "executor_role_endpoints e = executor_role_endpoints d" and "executor_role_endpoint_current e = executor_role_endpoint_current d"
    and "executor_registry_state e = executor_registry_state d" and "sqlite_master e = sqlite_master d"
  shows "canonicalize_coordination_identity catalog e = canonicalize_coordination_identity catalog d"
    and "require_current_endpoint_identity catalog e = require_current_endpoint_identity catalog d"
proof -
  have t: "table_installed e = table_installed d" and o: "endpoint_of e = endpoint_of d"
    by (simp_all add: fun_eq_iff table_installed_def endpoint_of_def assms)
  have "registry_cutover_complete e = registry_cutover_complete d" by (simp only: registry_cutover_complete_def t assms)
  moreover have "pointer_set_incomplete e = pointer_set_incomplete d" by (simp only: pointer_set_incomplete_def o assms)
  ultimately have c: "current_endpoint e = current_endpoint d"
    by (intro ext) (simp only: current_endpoint_def require_complete_current_pointer_set_def o assms)
  have i: "identity_role catalog e = identity_role catalog d" by (rule identity_role_cong) (rule assms)+
  show r: "require_current_endpoint_identity catalog e = require_current_endpoint_identity catalog d"
    by (intro ext) (simp only: require_current_endpoint_identity_def c i)
  show "canonicalize_coordination_identity catalog e = canonicalize_coordination_identity catalog d"
    by (intro ext) (simp only: canonicalize_coordination_identity_def r)
qed

lemma hosted_db_endpoint:
  assumes "executor_role_endpoints e = executor_role_endpoints hosted_db"
    and "executor_role_endpoint_current e = executor_role_endpoint_current hosted_db"
    and "executor_registry_state e = executor_registry_state hosted_db" and "sqlite_master e = sqlite_master hosted_db"
  shows "canonicalize_coordination_identity example_catalog e ''role.sre.v1'' = Inr ''role.sre.v1''"
    and "require_current_endpoint_identity example_catalog e ''role.sre.v1'' (Some ''sre'') = Inr ''role.sre.v1''"
    and "identity_role example_catalog e ''role.sre.v1'' = Inr (Some ''sre'')"
    and "identities_role_equivalent example_catalog e ''role.sre.v1'' ''role.sre.v1'' = Inr True"
proof -
  have base: "canonicalize_coordination_identity example_catalog hosted_db ''role.sre.v1'' = Inr ''role.sre.v1''"
    "require_current_endpoint_identity example_catalog hosted_db ''role.sre.v1'' (Some ''sre'') = Inr ''role.sre.v1''"
    "identity_role example_catalog hosted_db ''role.sre.v1'' = Inr (Some ''sre'')"
    by code_simp+
  note cong = endpoint_cong [OF assms] identity_role_cong [OF assms(1,4)]
  show "canonicalize_coordination_identity example_catalog e ''role.sre.v1'' = Inr ''role.sre.v1''"
    "require_current_endpoint_identity example_catalog e ''role.sre.v1'' (Some ''sre'') = Inr ''role.sre.v1''"
    and i: "identity_role example_catalog e ''role.sre.v1'' = Inr (Some ''sre'')"
    unfolding cong by (rule base)+
  show "identities_role_equivalent example_catalog e ''role.sre.v1'' ''role.sre.v1'' = Inr True"
    by (simp add: identities_role_equivalent_def historical_identity_role_def i)
qed

lemma example_names: "REPOSITORY ''o/r''" "SHA256 issue_sha"
  by code_simp+

lemma hosted_db_source:
  assumes "github_current d = github_current hosted_db" and "github_snapshots d = github_snapshots hosted_db"
  shows "validate_source d (PStr ''o/r'') 1 (PStr issue_sha) = Inr ()"
proof -
  have "\<exists>c p. current_snapshot hosted_db ''o/r'' ''issue'' 1 = Inr (Some (c, p)) \<and> gc_payload_sha256 c = issue_sha"
    by (simp add: current_snapshot_def source_join_def current_source_def stored_snapshot_def hosted_db_def example_item_db_def issue_sha_def)
  moreover have "current_snapshot d = current_snapshot hosted_db"
    by (intro ext) (simp only: current_snapshot_def source_join_def current_source_def stored_snapshot_def assms)
  ultimately obtain c p where "current_snapshot d ''o/r'' ''issue'' 1 = Inr (Some (c, p))" "gc_payload_sha256 c = issue_sha" by auto
  then show ?thesis
    by (simp add: validate_source_def hosted_validate_sha_def guard_eval source_drifts_def sha_str_def example_names)
qed

lemma operation_db_source: "validate_source (operation_db st cl) (PStr ''o/r'') 1 (PStr issue_sha) = Inr ()"
  by (rule hosted_db_source) (simp_all add: operation_db_def)

lemma operation_claimed:
  "\<exists>d'. claim_commit inventory_env (operation_db ''PREPARED'' None) 1 ''role.sre.v1'' ''t2'' =
     Inr (d', Inr ((inventory_row ''CLAIMED'' (Some ''role.sre.v1''))\<lparr>ho_updated_at := ''t2''\<rparr>)) \<and>
     map ho_state (hosted_operations d') = [''CLAIMED'']"
proof -
  let ?d = "operation_db ''PREPARED'' None" and ?h = "inventory_row ''PREPARED'' None"
  have "validate_persisted_operation inventory_env ?d ?h = Inr inventory_scope"
    unfolding validate_persisted_operation_def
    by (simp add: inventory_env_def hosted_db_endpoint(2) operation_db_def hosted_validate_sha_def sha_str_def guard_eval
        inventory_scope_valid units_fit_def inventory_not_mutating example_names ALLOWED_OPERATION_TARGETS_def)
  then have e: "claim_evidence inventory_env ?d ?h = Inr inventory_scope"
    by (simp add: claim_evidence_def row_evidence_def validate_operation_evidence_def row_source_def operation_db_source
        require_blocker_terminal_def blocker_terminal_def guard_eval)
  have limit: "\<exists>d1. sre_limit inventory_env ?d ''o/r'' = Inr (d1, 5)"
    by (simp add: sre_limit_def store_capacity_policy_def store_validate_repository_def ensure_capacity_policy_def current_policy_def
        install_default_policy_def insert_or_ignore_def policy_row_def DEFAULT_CAPACITY_LIMITS_def Let_def guard_eval
        example_names)
  then obtain d1 where d1: "sre_limit inventory_env ?d ''o/r'' = Inr (d1, 5)" ..
  have "reserved_sre ?d ''o/r'' = 0"
    by (simp add: reserved_sre_def occupied_units_def reserved_items_def)
  with e d1 have "validate_claim_local_state inventory_env ?d ?h = (d1, Inr ())"
    by (simp add: validate_claim_local_state_def row_approval_def validate_approval_guard_def inventory_not_mutating guard_eval)
  then show ?thesis
    by (simp add: claim_commit_def transaction_def hosted_by_id_def count_hosted_def sre_limit_Inr(2) [OF d1] mark_claimed_def
        update_where_def guard_eval Let_def) (simp add: inventory_row_def)
qed

definition receipt_of :: "string \<Rightarrow> string \<Rightarrow> pydict" where
  "receipt_of key_sha scope_sha = [(''idempotency_key_sha256'', PStr key_sha), (''operation_id'', PInt 1),
     (''operation_kind'', PStr ''READ_METADATA''), (''outcome'', PStr ''SUCCESS''), (''provider'', PStr ''supabase''),
     (''schema'', PStr ''twinfinity.hosted-operation-receipt.v1''), (''scope_sha256'', PStr scope_sha),
     (''summary'', PStr ''read''), (''target_key'', PStr ''p''), (''target_kind'', PStr ''supabase_project_inventory''),
     (''verification'', PStr ''PASS'')]"

abbreviation inventory_receipt :: pydict where
  "inventory_receipt \<equiv> receipt_of (sha256_hex ''k'') (digest_json inventory_scope)"

lemma receipt_items [simp]:
  "py_get (receipt_of k s) ''idempotency_key_sha256'' = PStr k" "py_get (receipt_of k s) ''operation_id'' = PInt 1"
  "py_get (receipt_of k s) ''operation_kind'' = PStr ''READ_METADATA''" "py_get (receipt_of k s) ''outcome'' = PStr ''SUCCESS''"
  "py_get (receipt_of k s) ''provider'' = PStr ''supabase''"
  "py_get (receipt_of k s) ''schema'' = PStr ''twinfinity.hosted-operation-receipt.v1''"
  "py_get (receipt_of k s) ''scope_sha256'' = PStr s" "py_get (receipt_of k s) ''summary'' = PStr ''read''"
  "py_get (receipt_of k s) ''target_key'' = PStr ''p''" "py_get (receipt_of k s) ''target_kind'' = PStr ''supabase_project_inventory''"
  "py_get (receipt_of k s) ''verification'' = PStr ''PASS''" "keys_are (receipt_of k s) RECEIPT_KEYS"
  "distinct_keys (PDict (receipt_of k s))" "sort_keys (PDict (receipt_of k s)) = PDict (receipt_of k s)"
  by code_simp+

definition receipt_comment :: outbox_row where
  "receipt_comment = \<lparr>ob_id = 4, ob_idempotency_key = ''r'', ob_repository = ''o/r'', ob_object_kind = ''issue'',
     ob_object_number = 1, ob_operation = ''comment'', ob_expected_source_sha256 = issue_sha, ob_payload_sha256 = ''b'',
     ob_payload_json = Some (PDict [(''body'', PStr (RECEIPT_MARKER @ canonical_json (PDict inventory_receipt) @ '' -->''))]),
     ob_state = ''COMPLETE'', ob_remote_receipt = Some ''comment:12'', ob_created_at = ''t'', ob_updated_at = ''t'', ob_last_error = None\<rparr>"

lemma inventory_receipt_read:
  "receipt_objects (RECEIPT_MARKER @ canonical_json (PDict inventory_receipt) @ '' -->'') = [canonical_json (PDict inventory_receipt)]"
  "json_loads (canonical_json (PDict inventory_receipt)) = Some (PDict inventory_receipt)"
  using receipt_read_back [OF receipt_items(13), of "sha256_hex ''k''" "digest_json inventory_scope"]
  by (simp_all only: receipt_items(14))

lemma inventory_receipt_valid:
  "validate_receipt (receipt_body receipt_comment) (inventory_row ''CLAIMED'' c) = Inr inventory_receipt"
proof -
  have body: "receipt_body receipt_comment = PStr (RECEIPT_MARKER @ canonical_json (PDict inventory_receipt) @ '' -->'')"
    by (simp add: receipt_body_def receipt_comment_def py_get_def)
  have "strip ''read'' \<noteq> []" by code_simp
  then have bound: "receipt_bound (inventory_row ''CLAIMED'' c) inventory_receipt"
    by (simp add: receipt_bound_def expected_verification_def)
  show ?thesis unfolding validate_receipt_def body
    by (simp add: inventory_receipt_read bound RECEIPT_OUTCOMES_def guard_eval del: canonical_json.simps)
qed

definition completing_db :: db where
  "completing_db = (operation_db ''CLAIMED'' (Some ''role.sre.v1''))\<lparr>github_outbox := [receipt_comment]\<rparr>"

lemma operation_completed:
  "\<exists>d' ended. complete inventory_env completing_db 1 ''role.sre.v1'' 4 ''t3'' = Inr (d', ended) \<and> ho_state ended = ''COMPLETE''"
proof -
  let ?h = "inventory_row ''CLAIMED'' (Some ''role.sre.v1'')"
  have rows: "hosted_operations completing_db = [?h]" "github_outbox completing_db = [receipt_comment]" "\<not> in_transaction completing_db"
    by (simp_all add: completing_db_def)
  have sre: "identity_role example_catalog completing_db ''role.sre.v1'' = Inr (Some ''sre'')"
    "canonicalize_coordination_identity example_catalog completing_db ''role.sre.v1'' = Inr ''role.sre.v1''"
    "identities_role_equivalent example_catalog completing_db ''role.sre.v1'' ''role.sre.v1'' = Inr True"
    by (rule hosted_db_endpoint; simp add: completing_db_def operation_db_def)+
  have session: "hosted_session inventory_env completing_db ''role.sre.v1'' 4 = Inr ''role.sre.v1''"
    by (simp add: hosted_session_def inventory_env_def sre guard_eval)
  have claimed: "claimed_row inventory_env completing_db 1 ''role.sre.v1'' = Inr (?h, ''role.sre.v1'')"
    by (simp add: claimed_row_def inventory_env_def sre rows hosted_by_id_def guard_eval)
  have ob: "outbox_of completing_db 4 = Some receipt_comment" "publishes_receipt receipt_comment ?h"
    by (simp_all add: outbox_of_def rows publishes_receipt_def) (simp_all add: receipt_comment_def)
  have ok: "receipt_outcome inventory_receipt = ''SUCCESS''" by (simp add: receipt_outcome_def)
  have fin: "ho_id (finish_row receipt_comment inventory_receipt ''t3'' ?h) = 1"
    "ho_state (finish_row receipt_comment inventory_receipt ''t3'' ?h) = ''COMPLETE''" by (simp_all add: finish_row_def ok)
  show ?thesis
    unfolding complete_def
    by (simp add: session transaction_def claimed ob inventory_receipt_valid rows count_hosted_def hosted_by_id_def update_where_def
        fin guard_eval Let_def)
qed

lemma canonical_inventory:
  assumes "canonicalize_coordination_identity example_catalog d ''role.sre.v1'' = Inr ''role.sre.v1''"
  shows "canonical_transaction inventory_env d (inventory_request b s) = Inr (inventory_request b s)"
proof -
  have "has_key (inventory_request b s) ''recipient_session_id''"
    "AList.update ''recipient_session_id'' (PStr ''role.sre.v1'') (inventory_request b s) = inventory_request b s"
    unfolding issue_sha_def by code_simp+
  with assms show ?thesis by (simp add: canonical_transaction_def inventory_env_def guard_eval)
qed

lemma inventory_prepared:
  "\<exists>d' row. prepare inventory_env hosted_db requested_inventory ''t1'' = Inr (d', row) \<and> ho_state row = ''PREPARED''"
proof -
  let ?d = "hosted_db\<lparr>in_transaction := True\<rparr>"
  let ?comment = "PDict [(''id'', PInt 9), (''body'', PStr ''go''), (''issue_url'', PStr ''https://api.github.com/repos/o/r/issues/1'')]"
  have rows: "hosted_operations hosted_db = []" "\<not> in_transaction hosted_db" "coordination_items hosted_db = []"
    "coordination_capacity_policies hosted_db = []" "coordination_capacity_current hosted_db = []"
    by (simp_all add: hosted_db_def example_item_db_tables) (simp add: example_item_db_def registry_db_def empty_db_def)
  have can: "canonical_transaction inventory_env d requested_inventory = Inr requested_inventory" if "d = hosted_db \<or> d = ?d" for d
    by (rule canonical_inventory, rule hosted_db_endpoint) (use that in auto)
  have shape: "validate_transaction_shape example_catalog (inventory_request b s) = Inr ()" for b s by code_simp
  have source: "validate_source d (PStr ''o/r'') 1 (PStr issue_sha) = Inr ()" if "d = hosted_db \<or> d = ?d" for d
    by (rule hosted_db_source) (use that in auto)
  have fetched: "fetch_authority_comment inventory_env ''o/r'' ''1'' (PInt 9) = Inr ?comment" by code_simp
  have authority: "validate_authority_snapshot requested_inventory ?comment (digest_json ?comment) = Inr ()"
  proof -
    have "comment_of_issue ?comment ''o/r'' ''1''" "num_text (PInt 1) = ''1''" "py_get (dict_of ?comment) ''body'' = PStr ''go''"
      "py_eq (py_get (dict_of ?comment) ''id'') (PInt 9)" by code_simp+
    then show ?thesis
      by (simp add: validate_authority_snapshot_def hosted_validate_sha_def sha_str_def guard_eval del: canonical_json.simps dict_of.simps)
  qed
  let ?r = "requested_row requested_inventory"
  have req: "ho_repository ?r = ''o/r''" "ho_issue_number ?r = 1" "ho_provider ?r = ''supabase''" "ho_operation_kind ?r = ''READ_METADATA''"
    "ho_target_kind ?r = ''supabase_project_inventory''" "ho_target_key ?r = ''p''" "ho_blocked_by_issue_number ?r = None"
    "ho_sre_units ?r = 0" "ho_authority_comment_id ?r = 9" "ho_source_payload_sha256 ?r = issue_sha"
    by (simp_all add: requested_row_def)
  obtain d1 where d1: "sre_limit inventory_env ?d ''o/r'' = Inr (d1, 5)"
    by (simp add: sre_limit_def store_capacity_policy_def store_validate_repository_def ensure_capacity_policy_def current_policy_def
        install_default_policy_def insert_or_ignore_def policy_row_def DEFAULT_CAPACITY_LIMITS_def Let_def guard_eval
        example_names rows)
  from sre_limit_db [OF d1] obtain pol cur where e: "d1 = ?d\<lparr>coordination_capacity_policies := pol, coordination_capacity_current := cur\<rparr>"
    by blast
  have inserted: "\<exists>d' row. insert_hosted ?r ''PREPARED'' ''t1'' d1 = Inr (d', row) \<and> ho_state row = ''PREPARED''"
    by (simp add: insert_hosted_def e rows req guard_eval Let_def hosted_db_def example_item_db_def registry_db_def empty_db_def
        issue_sha_def)
  have "reserved_sre ?d ''o/r'' = 0" by (simp add: reserved_sre_def occupied_units_def reserved_items_def rows)
  with inserted have "\<exists>d' row. reserve_hosted inventory_env Inr False ?r ''PREPARED'' ''t1'' ?d = Inr (d', row) \<and> ho_state row = ''PREPARED''"
    by (simp add: reserve_hosted_def rerun_predecessors_def req d1 guard_eval)
  then obtain d' row where res: "reserve_hosted inventory_env Inr False ?r ''PREPARED'' ''t1'' ?d = Inr (d', row)"
    "ho_state row = ''PREPARED''" by blast
  have "prepare_in_transaction inventory_env Inr \<lparr>po_retire_eligible_predecessors = False, po_require_prepared = False\<rparr> ?d
      requested_inventory ''t1'' ?comment (digest_json ?comment) = Inr (d', row)"
    unfolding prepare_in_transaction_def
    by (simp add: can shape [of "sha256_hex ''go''" inventory_scope] inventory_env_def [THEN arg_cong, of he_catalog] source authority
        req inventory_scope_valid validate_approval_guard_def inventory_not_mutating row_evidence_def validate_operation_evidence_def
        blocker_terminal_def hosted_by_key_def rows res(1) guard_eval Let_def del: canonical_json.simps)
  moreover have "num_text (PInt 1) = ''1''" by code_simp
  ultimately show ?thesis
    by (simp add: prepare_def can shape inventory_env_def [THEN arg_cong, of he_catalog] source fetched transaction_def rows(2)
        guard_eval res(2) del: canonical_json.simps num_text.simps)
qed


theorem hosted_life_cycle_witness:
  "\<exists>d h. (control_step inventory_env)\<^sup>*\<^sup>* (operation_db ''PREPARED'' None) d \<and> h \<in> set (hosted_operations d) \<and>
     hosted_identity h = hosted_identity (inventory_row ''PREPARED'' None) \<and> hosted_reaches ''PREPARED'' (ho_state h)"
proof -
  from operation_claimed obtain d r where "claim_commit inventory_env (operation_db ''PREPARED'' None) 1 ''role.sre.v1'' ''t2'' = Inr (d, r)"
    by blast
  then have run: "(control_step inventory_env)\<^sup>*\<^sup>* (operation_db ''PREPARED'' None) d" by (blast intro: control_step.commit)
  have "inventory_row ''PREPARED'' None \<in> set (hosted_operations (operation_db ''PREPARED'' None))" by simp
  from hosted_life_cycle [OF run operation_db_inv(1,2) [OF inventory_ok(1)] this] run show ?thesis by auto
qed

theorem prepare_authorised_witness:
  "\<exists>d row. prepare inventory_env hosted_db requested_inventory ''t1'' = Inr (d, row) \<and>
     exact_columns row = exact_columns (requested_row requested_inventory)"
proof -
  from inventory_prepared obtain d row where ok: "prepare inventory_env hosted_db requested_inventory ''t1'' = Inr (d, row)" by blast
  from prepare_authorised [OF ok] obtain t where "canonical_transaction inventory_env hosted_db requested_inventory = Inr t"
    "exact_columns row = exact_columns (requested_row t)" by blast
  moreover have "canonicalize_coordination_identity example_catalog hosted_db ''role.sre.v1'' = Inr ''role.sre.v1''"
    by (rule hosted_db_endpoint) simp_all
  ultimately have "exact_columns row = exact_columns (requested_row requested_inventory)"
    by (simp add: canonical_inventory)
  with ok show ?thesis by blast
qed

theorem claim_revalidated_witness:
  "\<exists>d row. claim_commit inventory_env (operation_db ''PREPARED'' None) 1 ''role.sre.v1'' ''t2'' = Inr (d, Inr row) \<and>
     row \<in> set (hosted_operations d) \<and> ho_claimed_by row = Some ''role.sre.v1''"
proof -
  from operation_claimed obtain d row where ok: "claim_commit inventory_env (operation_db ''PREPARED'' None) 1 ''role.sre.v1'' ''t2'' = Inr (d, Inr row)"
    by blast
  from claim_revalidated [OF ok operation_db_inv(3) [OF inventory_ok(1)]] ok show ?thesis by auto
qed

theorem completion_receipted_witness:
  "\<exists>d ended. complete inventory_env completing_db 1 ''role.sre.v1'' 4 ''t3'' = Inr (d, ended) \<and>
     ended \<in> set (hosted_operations d) \<and> ho_state ended = ''COMPLETE'' \<and> ho_remote_receipt ended = Some ''comment:12''"
proof -
  from operation_completed obtain d ended where ok: "complete inventory_env completing_db 1 ''role.sre.v1'' 4 ''t3'' = Inr (d, ended)"
    and fin: "ho_state ended = ''COMPLETE''" by blast
  have ob: "outbox_of completing_db 4 = Some receipt_comment" "ob_remote_receipt receipt_comment = Some ''comment:12''"
    by (simp_all add: outbox_of_def completing_db_def receipt_comment_def)
  from completion_receipted [OF ok] ob show ?thesis using ok fin by auto
qed

end
