(* ===== verification/Spec2Isabelle.thy ===== *)
theory Spec2Isabelle
  imports Prelude Sha256 Json_Value Topological_Order Delivery_Policy Database Graph_Plan
    Dirty_Events Versioned_Store Graph_Store Graph_Invariant Graph_Eval Scheduler
    Timestamps Coordination_Base Capacity Transition_Guard Item_Status Item_Invariant Source_Equivalence
    Outbox Outbox_Refinement Snapshots Convergence Executor_Targets Executor_Attempts Attempt_Invariant Issue_Body_Cas
    Json_Text Approval_Guard Delivery_Identity Hosted_Scope Hosted_Operations Hosted_Invariant
begin

text \<open>
  A verification development for the twinfinity harness, the control plane under
  \<^verbatim>\<open>src/skills/twinfinity-sprint-orchestrator/scripts/\<close>. File names below are relative to it.

  \<^bold>\<open>The program.\<close> Agents deliver issues of two GitHub repositories. What is to be done, in which order and
  by whom is kept in one SQLite database, and every change goes through a transaction of a Python process.
  \<^item> \<^verbatim>\<open>coordination_store.py\<close> owns the tables: snapshots of GitHub objects, items (the status of an issue
    with its units, lease and session), capacity policies, terminal watches, the GitHub outbox.
  \<^item> \<^verbatim>\<open>portfolio_graph.py\<close> owns the dependency graph of the issues: reviewed plans, stored by version, the
    evaluation of a graph against the sources, the scheduler, and the veto on status changes.
  \<^item> \<^verbatim>\<open>portfolio_convergence.py\<close> consumes the wakes that state changes leave behind.
  \<^item> \<^verbatim>\<open>admission_source_equivalence.py\<close> decides when an admission may go on although the text of its issue
    changed; \<^verbatim>\<open>repository_delivery_policy.py\<close> says how a repository is delivered (branches, worktrees,
    writer mutex, standing authority).
  \<^item> \<^verbatim>\<open>executor_registry.py\<close> says which executor speaks for a role and records the attempts of executors at
    their targets, with a secret token per attempt and the recovery of attempts whose process is gone.
  \<^item> \<^verbatim>\<open>approval_guard.py\<close> looks up the decision of the user that covers an operation;
    \<^verbatim>\<open>hosted_operation_control.py\<close> prepares, promotes, claims and completes the operations on hosted
    services, which share the SRE capacity with the items; \<^verbatim>\<open>issue_body_cas.py\<close> replaces the text of an
    issue on GitHub at most once; \<^verbatim>\<open>delivery_identity.py\<close> builds and validates the identity of a delivery that an
    admission carries.

  They interact through the database: an ingested snapshot runs the triggers that mark a graph stale; a
  graph is evaluated against snapshots and items; the scheduler reads the evaluation, the items and the
  policy; a status change asks the graph, the policy and the leases, opens a watch and leaves a wake when
  it frees capacity; a wake is consumed, deferred or held. A hosted operation asks the approval ledger, the
  snapshots, the items and the policy when it is prepared and again when it is claimed, and ends with a
  receipt that the outbox published.

  \<^bold>\<open>How it is modelled.\<close> The database is the record \<open>db\<close> of \<open>Database\<close>: a list of rows per table, with a
  record type per table. An operation maps the database to a result \<open>error + \<dots>\<close>; an error carries no
  database, because the transaction that raised it is rolled back. Every \<open>raise\<close> is an \<open>Inl\<close> with the class
  and text of the exception, in the order of the source. Python values are \<open>pyval\<close>, strings are byte lists
  in UTF-8, digests are computed (\<open>Sha256\<close>, \<open>canonical_json\<close>), timestamps are texts with the
  calendar they denote. Two transactions never overlap, so concurrency is the sequence of committed operations;
  where an operation reads before its transaction, the reading and the committing part are separate
  definitions, and other operations may come between them.

  \<^bold>\<open>Theories.\<close>
  \<^item> \<open>Prelude\<close> (errors, guards, strings, tables), \<open>Sha256\<close>, \<open>Json_Value\<close>, \<open>Timestamps\<close>, \<open>Database\<close>: the
    parts of Python and SQLite the sources use.
  \<^item> \<open>Versioned_Store\<close>: the locale of stores written by compare-and-swap; interpreted by the graph store, the
    capacity policies and the items. \<open>Dirty_Events\<close>: the locale \<open>idempotent_enqueue\<close> with the wake queue
    (\<open>enqueue_convergence_dirty_event\<close>) as its first instance; the outbox is the second.
  \<^item> \<open>Graph_Plan\<close> (\<open>_validate_plan\<close>), \<open>Topological_Order\<close> (\<open>_topological_order\<close>), \<open>Graph_Store\<close>
    (\<open>replace_graph\<close>, \<open>sync_head\<close>, \<open>_load_graph\<close>, the triggers), \<open>Graph_Eval\<close> (\<open>evaluate_graph\<close>),
    \<open>Scheduler\<close> (\<open>_schedule_decision\<close>, \<open>schedule\<close>), \<open>Transition_Guard\<close>
    (\<open>validate_portfolio_transition\<close>): portfolio_graph.py.
  \<^item> \<open>Coordination_Base\<close>, \<open>Capacity\<close>, \<open>Item_Status\<close> (\<open>_set_issue_status_locked\<close>, \<open>apply_issue_plan\<close>),
    \<open>Snapshots\<close> (\<open>ingest_snapshot\<close>), \<open>Outbox\<close> (\<open>enqueue_comment\<close> to
    \<open>record_terminal_outbox_readback_miss\<close>): coordination_store.py, with the identity checks of
    executor_registry.py.
  \<^item> \<open>Convergence\<close>: the queue side of portfolio_convergence.py. \<open>Source_Equivalence\<close>:
    admission_source_equivalence.py and its clients. \<open>Delivery_Policy\<close>: repository_delivery_policy.py.
  \<^item> \<open>Executor_Targets\<close> (the targets of an attempt, lineages, integer texts, acknowledgement times) and
    \<open>Executor_Attempts\<close> (\<open>reserve_attempt\<close>, \<open>transition_attempt\<close>, the two recoveries): the attempts of
    executor_registry.py.
  \<^item> \<open>Issue_Body_Cas\<close>: issue_body_cas.py, with the locale \<open>once_ledger\<close> for the ledger of patch attempts,
    interpreted by the ledger in memory and by the SQLite ledger.
  \<^item> \<open>Approval_Guard\<close> (\<open>require_effective_approval\<close> and the scope digests), \<open>Json_Text\<close> (\<open>json.loads\<close>),
    \<open>Hosted_Scope\<close> (the scopes of hosted operations), \<open>Hosted_Operations\<close> (\<open>prepare\<close>,
    \<open>refresh_waiting\<close>, \<open>claim\<close>, \<open>complete\<close>, \<open>hold\<close>): approval_guard.py and
    hosted_operation_control.py.
  \<^item> \<open>Delivery_Identity\<close> (\<open>build_delivery_identity\<close>, \<open>bind_delivery_identity\<close>, \<open>delivery_identity_error\<close>,
    \<open>immutable_admission_error\<close>): delivery_identity.py, with the paths of pathlib.
  \<^item> \<open>Graph_Invariant\<close>, \<open>Item_Invariant\<close>, \<open>Outbox_Refinement\<close>, \<open>Attempt_Invariant\<close>, \<open>Hosted_Invariant\<close>:
    the properties of the stores of that name.

  \<^bold>\<open>What is proved.\<close>
  \<^item> Graph: an accepted plan is well formed; the dependency order is a permutation that respects every
    dependency, the least such, and missing exactly on a cycle; replacing a graph keeps the tables well
    formed, loses no update and reads back as planned, column by column; the evaluation is total on stored graphs
    over sources that are JSON objects, and its readiness, descendants and critical path are those of the graph; over every run of ingests,
    replacements and cursor moves a graph recorded as current has current sources.
  \<^item> Scheduling: decisions stay within capacity, exclude collisions and second writers, select only ready
    work, leave out a candidate only for a reason, and what is selected passes the check of the store.
  \<^item> Items: over every run of status changes capacity, mutex, leases and keys hold, executing items are
    watched, versions count commits and an ordinary caller cannot start or release work; a status change is
    not lost whatever other writers of items, which all compare and swap versions, commit in between; the graph refuses unready starts and the parking of a gate that others wait for; plans are
    all or nothing; policy changes respect the units in use.
  \<^item> Outbox: the operations refine a small publication protocol in which a completed comment is final;
    a comment is reserved a bounded number of times; preparing a comment again changes nothing.
  \<^item> Wakes: the same wake is queued once, is never lost, and is attempted at most five times.
  \<^item> Sources: an ingested source only moves forward; an admission survives a changed source only by its own
    binding or its own intact receipt, and the reasons it is forgiven are named by its own issue.
  \<^item> Attempts: over every run no two active attempts share a target, a lineage or a planner repository, a
    finished attempt never changes, its events are a complete history, its token is never stored, and the
    recovery of stale attempts holds exactly those whose process is gone.
  \<^item> Issue bodies: whatever the transport does, a body is patched at most once per digest over all runs that
    share the ledger, and an outcome that reports success is true of GitHub.
  \<^item> Approval: what the guard lets through is an unrevoked approval of the user for exactly this scope, as shown
    to the user, published, and for the issue as it still stands.
  \<^item> Hosted operations: over every interleaving with status changes, plans, policy changes and clearances of
    reruns the SRE units of items and operations together respect the policy; an operation keeps its identity, moves
    only forward, and its claimant and receipt stay; a preparation is authorised and idempotent, a claim
    is checked against the database at its commit, and a completion comes from the claimant's role and carries a published receipt.
  \<^item> Delivery identities: binding is closed under its own digest and idempotent, the digest covers the whole
    admission up to collisions of SHA-256, a generation has one acceptable message, and accepted lanes do not
    share a worktree.
  \<^item> Canonical JSON reads back as the value it was written from.
  \<^item> Executor identities are unique per role, timestamps add exactly, and branch names read back.

  \<^bold>\<open>Bounds.\<close> Loops are structural recursion or \<open>function\<close> with a measure: the Kahn
  loop by the nodes left, the closure of the recursive query by the keys not yet produced. Only the JSON parser
  has fuel, twice the length of the text and two, which \<open>parse_fuel\<close> shows to be enough. The constants are
  the source's: five attempts at a wake with pauses of 5 to 60 seconds, three read-back misses per round
  and three rounds for a closeout comment, 100 entries in a plan, years 1 to 9999. Integers are unbounded,
  as in Python; values are taken to fit SQLite's 64 bits.

  \<^bold>\<open>Parameters.\<close> The reviewed endpoint catalogue and the digest of the planner's goal file are files of the
  deployment and stand as arguments of the definitions that read them. The current time is an argument,
  as in the source. So are the random ids and tokens of an attempt, the check a reservation runs before it
  commits, the evidence systemd gives about a process, and the transport and ledger of an issue-body
  transaction. The record \<open>hosted_env\<close> collects what hosted operations take from outside: the catalogue,
  the legacy identity of the SRE role, the clock and the comments read from GitHub.

  \<^bold>\<open>Not modelled.\<close> Messages, closeout packets, ready finalizations, watch heartbeats and admissions of the store
  (their tables are read where a modelled operation reads them), the successor choice of \<open>consume_one\<close>,
  loading and rotating the endpoint catalogue, child acknowledgements, the writers of the approval ledger
  with the clearance of reruns that calls them (of which the transaction on the hosted operations is a step
  of \<open>Hosted_Invariant\<close>), pull buffer, readiness reviews and transfers are left out:
  they are further clients of the same tables, most of them larger than any component here. The broker's update
  of an attempt, the supervisor's hold of a watch and the writers of items besides the status change
  are among them.
  Brokers, proxies, supervisors, git and GitHub clients, installers
  and baseline runs are processes, sockets and files around the store, with no state of their own that the
  kernel could check; audits and inventories only report. Schema migrations of older databases are left
  out: the model starts from the current schema.
\<close>

end
